(* ===== verification/Lifx_Prelude.thy ===== *)
theory Lifx_Prelude
  imports Main "HOL-Library.Word" "HOL-Library.Sublist"
begin

unbundle bit_operations_syntax

text \<open>
  Shared vocabulary of the development: the machine integer types of the sources, little-endian
  bytes of a word, the pieces of the C and C++ standard library the sources use on strings
  (decimal and hexadecimal conversion, bounded formatting, substring search) and the generic
  lemmas every component relies on.

  The collection \<open>wire_simps\<close> holds the length facts of byte and text encoders,
  \<open>step_defs\<close> the definitions that unfold one operation of a component.
\<close>

named_theorems wire_simps \<open>lengths and shapes of encoded bytes and formatted text\<close>
named_theorems step_defs \<open>unfolding of the operations of a component\<close>

type_synonym u8 = "8 word"
type_synonym u16 = "16 word"
type_synonym u32 = "32 word"
type_synonym u64 = "64 word"
type_synonym bytes = "u8 list"

section \<open>Lists and options\<close>

lemma take_append_exact [simp]: "length xs = n \<Longrightarrow> take n (xs @ ys) = xs"
  by simp

lemma drop_append_exact [simp]: "length xs = n \<Longrightarrow> drop n (xs @ ys) = ys"
  by simp

lemma list_all2_nth_eqI:
  "length xs = length ys \<Longrightarrow> (\<And>i. i < length xs \<Longrightarrow> xs ! i = ys ! i) \<Longrightarrow> xs = ys"
  by (simp add: nth_equalityI)

lemma map_upt_shift: "map f [a..<a + n] = map (\<lambda>i. f (a + i)) [0..<n]"
  by (rule nth_equalityI) auto

section \<open>Little-endian bytes\<close>

text \<open>
  \<open>store_le n v\<close> is the image of \<open>std::memcpy(p, &v, n)\<close> on the little-endian target;
  \<open>load_le\<close> reads such an image back.
\<close>

definition store_le :: "nat \<Rightarrow> 'a::len word \<Rightarrow> bytes" where
  "store_le n v = map (\<lambda>i. ucast (drop_bit (8 * i) v)) [0..<n]"

fun load_le :: "bytes \<Rightarrow> 'a::len word" where
  "load_le [] = 0"
| "load_le (b # bs) = ucast b OR push_bit 8 (load_le bs)"

lemma length_store_le [simp, wire_simps]: "length (store_le n v) = n"
  by (simp add: store_le_def)

lemma nth_store_le [simp]: "i < n \<Longrightarrow> store_le n v ! i = ucast (drop_bit (8 * i) v)"
  by (simp add: store_le_def)

lemma bit_load_le:
  "bit (load_le bs :: 'a::len word) i \<longleftrightarrow>
     i < LENGTH('a) \<and> i div 8 < length bs \<and> bit (bs ! (i div 8)) (i mod 8)"
proof (induction bs arbitrary: i)
  case Nil
  then show ?case by simp
next
  case (Cons b bs)
  have small: "bit b i \<longleftrightarrow> i < 8 \<and> bit b i"
    using bit_imp_le_length [of b i] by auto
  show ?case
  proof (cases "i < 8")
    case True
    then show ?thesis
      by (auto simp: bit_or_iff bit_push_bit_iff bit_ucast_iff possible_bit_def)
  next
    case False
    then have d: "i div 8 = Suc ((i - 8) div 8)" "i mod 8 = (i - 8) mod 8"
      by (simp_all add: le_div_geq le_mod_geq)
    show ?thesis
      using False small Cons.IH [of "i - 8"]
      by (auto simp: bit_or_iff bit_push_bit_iff bit_ucast_iff possible_bit_def d)
  qed
qed

lemma load_store_le:
  fixes v :: "'a::len word"
  assumes "LENGTH('a) \<le> 8 * n"
  shows "load_le (store_le n v) = v"
proof (rule bit_word_eqI)
  fix i assume i: "i < LENGTH('a)"
  then have "i div 8 < n" using assms by (auto simp: div_less_iff_less_mult)
  moreover have "bit (drop_bit (8 * (i div 8)) v) (i mod 8) \<longleftrightarrow> bit v i"
    by (simp add: bit_drop_bit_eq)
  ultimately show "bit (load_le (store_le n v) :: 'a word) i \<longleftrightarrow> bit v i"
    using i by (simp add: bit_load_le bit_ucast_iff)
qed

lemma store_load_le:
  assumes "8 * length bs = LENGTH('a::len)"
  shows "store_le (length bs) (load_le bs :: 'a word) = bs"
proof (rule nth_equalityI)
  fix i assume "i < length (store_le (length bs) (load_le bs :: 'a word))"
  then have i: "i < length bs" by simp
  show "store_le (length bs) (load_le bs :: 'a word) ! i = bs ! i"
  proof (rule bit_word_eqI)
    fix k :: nat assume k: "k < LENGTH(8)"
    then have k8: "k < 8" by simp
    have a: "8 * i + k < LENGTH('a)" using i k8 assms by linarith
    have dm: "(8 * i + k) div 8 = i" "(8 * i + k) mod 8 = k" using k8 by auto
    show "bit (store_le (length bs) (load_le bs :: 'a word) ! i) k \<longleftrightarrow> bit (bs ! i) k"
      using i k8 a dm by (simp add: bit_ucast_iff bit_drop_bit_eq bit_load_le)
  qed
qed simp

text \<open>Reading \<open>n\<close> bytes at an offset of a buffer, as the sources do through typed pointers.\<close>

definition sub_bytes :: "nat \<Rightarrow> nat \<Rightarrow> 'a list \<Rightarrow> 'a list" where
  "sub_bytes off n xs = take n (drop off xs)"

lemma length_sub_bytes [simp, wire_simps]: "off + n \<le> length xs \<Longrightarrow> length (sub_bytes off n xs) = n"
  by (simp add: sub_bytes_def)

lemma sub_bytes_append_left: "off + n \<le> length xs \<Longrightarrow> sub_bytes off n (xs @ ys) = sub_bytes off n xs"
  by (simp add: sub_bytes_def)

lemma sub_bytes_append_right: "length xs \<le> off \<Longrightarrow> sub_bytes off n (xs @ ys) = sub_bytes (off - length xs) n ys"
  by (simp add: sub_bytes_def)

text \<open>Overwriting a run of bytes in place (\<open>std::memcpy\<close> into a buffer).\<close>

definition put_at :: "nat \<Rightarrow> 'a list \<Rightarrow> 'a list \<Rightarrow> 'a list" where
  "put_at off v xs = take off xs @ v @ drop (off + length v) xs"

lemma length_put_at [simp, wire_simps]:
  "off + length v \<le> length xs \<Longrightarrow> length (put_at off v xs) = length xs"
  by (simp add: put_at_def)

lemma sub_bytes_put_at_same:
  "off + length v \<le> length xs \<Longrightarrow> n = length v \<Longrightarrow> sub_bytes off n (put_at off v xs) = v"
  by (simp add: sub_bytes_def put_at_def)

lemma nth_put_at:
  assumes "off + length v \<le> length xs" and "i < length xs"
  shows "put_at off v xs ! i =
    (if off \<le> i \<and> i < off + length v then v ! (i - off) else xs ! i)"
  using assms by (auto simp: put_at_def nth_append min_def)

lemma sub_bytes_put_at_other:
  assumes "off + length v \<le> length xs" and "o' + n \<le> length xs"
    and "o' + n \<le> off \<or> off + length v \<le> o'"
  shows "sub_bytes o' n (put_at off v xs) = sub_bytes o' n xs"
proof (rule nth_equalityI)
  show "length (sub_bytes o' n (put_at off v xs)) = length (sub_bytes o' n xs)" using assms by simp
next
  fix i assume "i < length (sub_bytes o' n (put_at off v xs))"
  then have "i < n" using assms by simp
  then show "sub_bytes o' n (put_at off v xs) ! i = sub_bytes o' n xs ! i"
    using assms by (auto simp: sub_bytes_def nth_put_at)
qed

section \<open>Text: conversions of the C library\<close>

text \<open>\<open>%u\<close> and \<open>%d\<close> print decimals, \<open>%02x\<close> and \<open>%012X\<close> zero-padded hexadecimals.\<close>

definition digit_char :: "nat \<Rightarrow> char" where
  "digit_char d = char_of (48 + d)"

fun dec :: "nat \<Rightarrow> string" where
  "dec n = (if n < 10 then [digit_char n] else dec (n div 10) @ [digit_char (n mod 10)])"

declare dec.simps [simp del]

definition fmt_u :: "'a::len word \<Rightarrow> string" where
  "fmt_u w = dec (unat w)"

definition fmt_d :: "int \<Rightarrow> string" where
  "fmt_d i = (if i < 0 then ''-'' @ dec (nat (- i)) else dec (nat i))"

definition is_digit :: "char \<Rightarrow> bool" where
  "is_digit c \<longleftrightarrow> 48 \<le> (of_char c :: nat) \<and> (of_char c :: nat) \<le> 57"

definition digit_val :: "char \<Rightarrow> nat" where
  "digit_val c = of_char c - 48"

lemma is_digit_digit_char [simp]: "d < 10 \<Longrightarrow> is_digit (digit_char d)"
  by (simp add: is_digit_def digit_char_def of_char_of)

lemma digit_val_digit_char [simp]: "d < 10 \<Longrightarrow> digit_val (digit_char d) = d"
  by (simp add: digit_val_def digit_char_def of_char_of)

lemma dec_digits: "list_all is_digit (dec n)"
proof (induction n rule: dec.induct)
  case (1 n)
  then show ?case by (subst dec.simps) auto
qed

lemma dec_nonempty [simp]: "dec n \<noteq> []"
  by (subst dec.simps) auto

lemma dec_value: "foldl (\<lambda>a c. a * 10 + digit_val c) 0 (dec n) = n"
proof (induction n rule: dec.induct)
  case (1 n)
  show ?case
  proof (cases "n < 10")
    case True
    then show ?thesis by (subst dec.simps) simp
  next
    case False
    then show ?thesis using 1 by (subst dec.simps) simp
  qed
qed

lemma length_dec: "n < 10 ^ k \<Longrightarrow> 0 < k \<Longrightarrow> length (dec n) \<le> k"
proof (induction k arbitrary: n)
  case 0
  then show ?case by simp
next
  case (Suc k)
  show ?case
  proof (cases "n < 10")
    case True
    then show ?thesis by (subst dec.simps) simp
  next
    case False
    then have k: "0 < k" using Suc.prems by (cases k) auto
    have "n div 10 < 10 ^ k" using Suc.prems by (simp add: div_less_iff_less_mult)
    then show ?thesis using Suc.IH [of "n div 10"] k False by (subst dec.simps) simp
  qed
qed

lemma length_fmt_u32: "length (fmt_u (w :: u32)) \<le> 10"
proof -
  have "unat w < 10 ^ 10"
    by (rule less_le_trans [OF unsigned_less]) simp
  then show ?thesis by (simp add: fmt_u_def length_dec)
qed

lemma length_fmt_u64: "length (fmt_u (w :: u64)) \<le> 20"
proof -
  have "unat w < 10 ^ 20"
    by (rule less_le_trans [OF unsigned_less]) simp
  then show ?thesis by (simp add: fmt_u_def length_dec)
qed

lemma unat_u32_bound: "unat (w :: u32) \<le> 0xFFFFFFFF"
proof -
  have "unat w < 2 ^ 32" by (rule less_le_trans [OF unsigned_less]) simp
  then show ?thesis by simp
qed

text \<open>Bounded formatting: \<open>std::snprintf(buf, cap, ...)\<close> keeps \<open>cap - 1\<close> characters of the
  whole text and returns the length the whole text has.\<close>

definition snprintf_out :: "nat \<Rightarrow> string \<Rightarrow> string" where
  "snprintf_out cap s = take (cap - 1) s"

definition snprintf_ret :: "string \<Rightarrow> nat" where
  "snprintf_ret s = length s"

lemma snprintf_out_fits [simp]: "length s < cap \<Longrightarrow> snprintf_out cap s = s"
  by (simp add: snprintf_out_def)

definition hex_digit :: "bool \<Rightarrow> nat \<Rightarrow> char" where
  "hex_digit upper d =
     (if d < 10 then char_of (48 + d) else if upper then char_of (55 + d) else char_of (87 + d))"

fun hex_fixed :: "bool \<Rightarrow> nat \<Rightarrow> nat \<Rightarrow> string" where
  "hex_fixed up 0 n = []"
| "hex_fixed up (Suc k) n = hex_fixed up k (n div 16) @ [hex_digit up (n mod 16)]"

lemma length_hex_fixed [simp, wire_simps]: "length (hex_fixed up k n) = k"
  by (induction k arbitrary: n) auto

text \<open>\<open>std::string::find\<close>: index of the first occurrence of a needle.\<close>

fun str_find :: "string \<Rightarrow> string \<Rightarrow> nat option" where
  "str_find nd [] = (if nd = [] then Some 0 else None)"
| "str_find nd (c # cs) = (if prefix nd (c # cs) then Some 0 else map_option Suc (str_find nd cs))"

lemma str_find_Some_prefix: "str_find nd s = Some k \<Longrightarrow> prefix nd (drop k s)"
  by (induction nd s arbitrary: k rule: str_find.induct) (auto split: if_splits)

lemma str_find_bound: "str_find nd s = Some k \<Longrightarrow> k + length nd \<le> length s"
proof -
  assume a: "str_find nd s = Some k"
  have "k \<le> length s" using a
    by (induction nd s arbitrary: k rule: str_find.induct) (auto split: if_splits)
  with str_find_Some_prefix [OF a] show ?thesis
    using prefix_length_le by fastforce
qed

lemma str_find_None: "str_find nd s = None \<Longrightarrow> \<not> prefix nd (drop k s)"
proof (induction nd s arbitrary: k rule: str_find.induct)
  case (1 nd)
  then show ?case by (auto split: if_splits)
next
  case (2 nd c cs)
  then show ?case by (cases k) (auto split: if_splits)
qed

lemma str_find_first:
  assumes "prefix nd (drop k s)" and "k \<le> length s"
    and "\<And>j. j < k \<Longrightarrow> \<not> prefix nd (drop j s)"
  shows "str_find nd s = Some k"
  using assms
proof (induction nd s arbitrary: k rule: str_find.induct)
  case (1 nd)
  then show ?case by auto
next
  case (2 nd c cs)
  show ?case
  proof (cases k)
    case 0
    then show ?thesis using 2 by auto
  next
    case (Suc k')
    have np: "\<not> prefix nd (c # cs)" using "2.prems"(3) [of 0] Suc by simp
    have "str_find nd cs = Some k'"
    proof (rule "2.IH" [OF np])
      show "prefix nd (drop k' cs)" "k' \<le> length cs" using "2.prems" Suc by auto
      show "\<not> prefix nd (drop j cs)" if "j < k'" for j
        using "2.prems"(3) [of "Suc j"] that Suc by simp
    qed
    then show ?thesis using np Suc by simp
  qed
qed

lemma str_find_skip:
  assumes "c \<notin> set xs"
  shows "str_find (c # nd) (xs @ ys) = map_option ((+) (length xs)) (str_find (c # nd) ys)"
  using assms
proof (induction xs)
  case Nil
  then show ?case by (cases "str_find (c # nd) ys") auto
next
  case (Cons x xs)
  then show ?case by (cases "str_find (c # nd) ys") auto
qed

section \<open>Encodings\<close>

text \<open>
  Every wire format of the program is an encoder with a reader that undoes it on the values the
  sender can produce. A component that receives what another component sends relies on this
  contract only.
\<close>

locale codec =
  fixes enc :: "'v \<Rightarrow> 'w"
    and rd :: "'w \<Rightarrow> 'v option"
    and wf :: "'v \<Rightarrow> bool"
  assumes rd_enc: "wf v \<Longrightarrow> rd (enc v) = Some v"

context codec
begin

lemma enc_injective: "wf v \<Longrightarrow> wf w \<Longrightarrow> enc v = enc w \<Longrightarrow> v = w"
  using rd_enc by (metis option.inject)

lemma rd_all: "list_all wf vs \<Longrightarrow> map (\<lambda>v. rd (enc v)) vs = map Some vs"
  by (induction vs) (auto simp: rd_enc)

end

text \<open>A format carried inside another one is again such a format.\<close>

lemma codec_compose:
  assumes "codec enc1 rd1 wf1" and "codec enc2 rd2 wf2" and "\<And>v. wf1 v \<Longrightarrow> wf2 (enc1 v)"
  shows "codec (\<lambda>v. enc2 (enc1 v)) (\<lambda>w. Option.bind (rd2 w) rd1) wf1"
  using assms by (simp add: codec_def)

end
