(* ===== verification/Chacha20.thy ===== *)
theory Chacha20
  imports Lifx_Prelude
begin

text \<open>
  The ChaCha20 stream cipher of \<open>source/core/crypto/chacha20.cpp\<close>. The sixteen words of the
  state are a list, updated by index as the quarter-round macro does; the output loop of
  \<open>chacha20_xor\<close> is a recursion on the remaining input that counts blocks in
  \<open>state[12]\<close>. The lemmas show that the loop is the XOR with a keystream (so decryption is
  encryption and any 64-byte aligned suffix can be processed on its own) and that the block
  function inverts nothing but adds the input state, word by word.
\<close>

section \<open>Words\<close>

definition rotl32 :: "u32 \<Rightarrow> nat \<Rightarrow> u32" where
  "rotl32 x n = push_bit n x OR drop_bit (32 - n) x"

definition load_le32 :: "bytes \<Rightarrow> u32" where
  "load_le32 p = ucast (p ! 0) OR push_bit 8 (ucast (p ! 1)) OR
                 push_bit 16 (ucast (p ! 2)) OR push_bit 24 (ucast (p ! 3))"

definition store_le32 :: "u32 \<Rightarrow> bytes" where
  "store_le32 v = [ucast v, ucast (drop_bit 8 v), ucast (drop_bit 16 v), ucast (drop_bit 24 v)]"

lemma store_le32_eq: "store_le32 v = store_le 4 v"
  by (simp add: store_le32_def store_le_def upt_rec numeral_eq_Suc)

lemma length_store_le32 [simp, wire_simps]: "length (store_le32 v) = 4"
  by (simp add: store_le32_def)

lemma load_le32_eq: "load_le32 [a, b, c, d] = load_le [a, b, c, d]"
  by (simp add: load_le32_def push_bit_or add.commute)

section \<open>The block function\<close>

text \<open>\<open>LFXE_QR(x[a], x[b], x[c], x[d])\<close>: four add-xor-rotate lines on the state.\<close>

definition arx :: "nat \<Rightarrow> nat \<Rightarrow> nat \<Rightarrow> nat \<Rightarrow> u32 list \<Rightarrow> u32 list" where
  "arx a b d n x =
     (let x1 = x[a := x ! a + x ! b]; x2 = x1[d := x1 ! d XOR x1 ! a]
      in x2[d := rotl32 (x2 ! d) n])"

definition quarter_round :: "nat \<Rightarrow> nat \<Rightarrow> nat \<Rightarrow> nat \<Rightarrow> u32 list \<Rightarrow> u32 list" where
  "quarter_round a b c d x =
     arx c d b 7 (arx a b d 8 (arx c d b 12 (arx a b d 16 x)))"

definition double_round :: "u32 list \<Rightarrow> u32 list" where
  "double_round x =
     quarter_round 3 4 9 14 (quarter_round 2 7 8 13 (quarter_round 1 6 11 12 (quarter_round 0 5 10 15
    (quarter_round 3 7 11 15 (quarter_round 2 6 10 14 (quarter_round 1 5 9 13 (quarter_round 0 4 8 12
       x)))))))"

definition chacha20_block :: "u32 list \<Rightarrow> bytes" where
  "chacha20_block inp =
     (let x = (double_round ^^ 10) inp
      in concat (map (\<lambda>i. store_le32 (x ! i + inp ! i)) [0..<16]))"

lemma length_arx [simp]: "length (arx a b d n x) = length x"
  by (simp add: arx_def Let_def)

lemma length_quarter_round [simp]: "length (quarter_round a b c d x) = length x"
  by (simp add: quarter_round_def)

lemma length_double_round [simp]: "length (double_round x) = length x"
  by (simp add: double_round_def)

lemma length_concat_map_const: "(\<And>x. x \<in> set xs \<Longrightarrow> length (f x) = n) \<Longrightarrow>
  length (concat (map f xs)) = n * length xs"
  by (induction xs) auto

lemma length_chacha20_block [simp, wire_simps]: "length (chacha20_block inp) = 64"
  by (simp add: chacha20_block_def Let_def length_concat_map_const [where n = 4])

section \<open>The stream\<close>

definition chacha_state :: "bytes \<Rightarrow> bytes \<Rightarrow> u32 \<Rightarrow> u32 list" where
  "chacha_state key nonce counter =
     [0x61707865, 0x3320646e, 0x79622d32, 0x6b206574] @
     map (\<lambda>i. load_le32 (sub_bytes (i * 4) 4 key)) [0..<8] @
     [counter] @
     map (\<lambda>i. load_le32 (sub_bytes (i * 4) 4 nonce)) [0..<3]"

text \<open>The \<open>while (off < len)\<close> loop: one block per turn, at most 64 bytes of it used, then
  \<open>++state[12]\<close>, which wraps at 32 bits.\<close>

function xor_loop :: "u32 list \<Rightarrow> bytes \<Rightarrow> bytes" where
  "xor_loop st inp =
     (if inp = [] then []
      else map2 (XOR) (take 64 inp) (chacha20_block st)
           @ xor_loop (st[12 := st ! 12 + 1]) (drop 64 inp))"
  by pat_completeness auto
termination
  by (relation "measure (\<lambda>(st, inp). length inp)") auto

declare xor_loop.simps [simp del]

definition chacha20_xor :: "bytes \<Rightarrow> bytes \<Rightarrow> u32 \<Rightarrow> bytes \<Rightarrow> bytes" where
  "chacha20_xor key nonce counter inp = xor_loop (chacha_state key nonce counter) inp"

subsection \<open>The keystream\<close>

text \<open>Byte \<open>i\<close> of the keystream: byte \<open>i mod 64\<close> of the block numbered \<open>i div 64\<close>.\<close>

definition keystream_byte :: "bytes \<Rightarrow> bytes \<Rightarrow> u32 \<Rightarrow> nat \<Rightarrow> u8" where
  "keystream_byte key nonce counter i =
     chacha20_block (chacha_state key nonce (counter + of_nat (i div 64))) ! (i mod 64)"

lemma length_chacha_state [simp]: "length (chacha_state key nonce c) = 16"
  by (simp add: chacha_state_def)

lemma chacha_state_counter [simp]: "chacha_state key nonce c ! 12 = c"
  by (simp add: chacha_state_def nth_append)

lemma chacha_state_next:
  "(chacha_state key nonce c)[12 := d] = chacha_state key nonce d"
  by (simp add: chacha_state_def list_update_append)

lemma xor_loop_Nil [simp]: "xor_loop st [] = []"
  by (simp add: xor_loop.simps)

lemma length_xor_loop [simp, wire_simps]: "length (xor_loop st inp) = length inp"
proof (induction st inp rule: xor_loop.induct)
  case (1 st inp)
  then show ?case by (cases "inp = []") (auto simp: xor_loop.simps [of st inp])
qed

lemma length_chacha20_xor [simp, wire_simps]: "length (chacha20_xor k n c inp) = length inp"
  by (simp add: chacha20_xor_def)

lemma nth_chacha20_xor:
  "i < length inp \<Longrightarrow> chacha20_xor key nonce c inp ! i = inp ! i XOR keystream_byte key nonce c i"
proof (induction inp arbitrary: c i rule: length_induct)
  case (1 inp)
  let ?st = "chacha_state key nonce c"
  have ne: "inp \<noteq> []" using "1.prems" by auto
  have unf: "chacha20_xor key nonce c inp =
      map2 (XOR) (take 64 inp) (chacha20_block ?st) @ chacha20_xor key nonce (c + 1) (drop 64 inp)"
    using ne by (simp add: chacha20_xor_def xor_loop.simps [of ?st inp] chacha_state_next)
  show ?case
  proof (cases "i < 64")
    case True
    then show ?thesis using "1.prems"
      by (simp add: unf nth_append keystream_byte_def)
  next
    case False
    then have "i - 64 < length (drop 64 inp)" using "1.prems" by simp
    moreover have "length (drop 64 inp) < length inp" using ne by simp
    ultimately have ih: "chacha20_xor key nonce (c + 1) (drop 64 inp) ! (i - 64)
        = drop 64 inp ! (i - 64) XOR keystream_byte key nonce (c + 1) (i - 64)"
      using "1.IH" by blast
    have d: "i div 64 = Suc ((i - 64) div 64)" "i mod 64 = (i - 64) mod 64"
      using False by (simp_all add: le_div_geq le_mod_geq)
    show ?thesis using False "1.prems" ih
      by (simp add: unf nth_append keystream_byte_def d min_def add.assoc add.left_commute)
  qed
qed

lemma chacha20_xor_keystream:
  "chacha20_xor key nonce c inp = map (\<lambda>i. inp ! i XOR keystream_byte key nonce c i) [0..<length inp]"
  by (rule nth_equalityI) (simp_all add: nth_chacha20_xor)

lemma chacha20_xor_involution: "chacha20_xor k n c (chacha20_xor k n c inp) = inp"
  by (rule nth_equalityI) (simp_all add: nth_chacha20_xor xor.assoc)

lemma keystream_byte_shift:
  "keystream_byte k n c (64 * m + i) = keystream_byte k n (c + of_nat m) i"
  by (simp add: keystream_byte_def add.assoc)

lemma chacha20_xor_append:
  assumes "length xs = 64 * m"
  shows "chacha20_xor k n c (xs @ ys) = chacha20_xor k n c xs @ chacha20_xor k n (c + of_nat m) ys"
proof (rule nth_equalityI)
  fix i assume "i < length (chacha20_xor k n c (xs @ ys))"
  then have i: "i < length xs + length ys" by simp
  show "chacha20_xor k n c (xs @ ys) ! i
      = (chacha20_xor k n c xs @ chacha20_xor k n (c + of_nat m) ys) ! i"
  proof (cases "i < length xs")
    case True
    then show ?thesis using i by (simp add: nth_append nth_chacha20_xor)
  next
    case False
    then have "keystream_byte k n c i = keystream_byte k n (c + of_nat m) (i - length xs)"
      using keystream_byte_shift [of k n c m "i - length xs"] assms by simp
    then show ?thesis using i False by (simp add: nth_append nth_chacha20_xor)
  qed
qed simp

section \<open>Properties\<close>

text \<open>C26: The cipher can be entered at any block: encrypting a buffer is encrypting its first
  \<open>64 * m\<close> bytes and then the rest with the counter advanced by \<open>m\<close>; and every byte of the
  output is the input byte masked with the keystream byte of its own position.\<close>

theorem chacha20_random_access:
  assumes "length xs = 64 * m"
  shows "chacha20_xor k n c (xs @ ys) = chacha20_xor k n c xs @ chacha20_xor k n (c + of_nat m) ys
    \<and> chacha20_xor k n c ys = map2 (XOR) ys (map (keystream_byte k n c) [0..<length ys])"
proof -
  have "chacha20_xor k n c ys = map2 (XOR) ys (map (keystream_byte k n c) [0..<length ys])"
    by (rule nth_equalityI) (simp_all add: nth_chacha20_xor)
  then show ?thesis using chacha20_xor_append [OF assms] by blast
qed

theorem chacha20_random_access_witness:
  "chacha20_xor (replicate 32 1) (replicate 12 2) 3 (replicate 128 0 @ [5, 6]) =
     chacha20_xor (replicate 32 1) (replicate 12 2) 3 (replicate 128 0) @
     chacha20_xor (replicate 32 1) (replicate 12 2) 5 [5, 6]"
  using chacha20_random_access [of "replicate 128 0" 2 "replicate 32 1" "replicate 12 2" 3 "[5, 6]"]
  by simp

end
