(* ===== verification/Lfxe_Format.thy ===== *)
theory Lfxe_Format
  imports Chacha20
begin

text \<open>
  The LFXE container of \<open>source/core/crypto\<close>: the 24-byte header (\<open>lfxe_format.h\<close>), the key
  recovered from the baked, masked bytes (\<open>baked_key_provider.cpp\<close>), the one-call decrypt
  (\<open>lfxe_decrypt.cpp\<close>), and the packing side of the same repository (\<open>scripts/dts_lib.py\<close>,
  \<open>scripts/gen_baked_key.py\<close>). The locale \<open>key_provider\<close> is the \<open>KeyProvider\<close> interface of
  \<open>key_provider.h\<close>. The lemmas show that the two sides are inverse, that the C++ and the Python
  reader agree on every container, and which result each malformed input gives.
\<close>

section \<open>The header\<close>

definition kMagic :: bytes where
  "kMagic = [0x4C, 0x46, 0x58, 0x45]"

definition kHeaderSize :: nat where
  "kHeaderSize = 24"

record lfxe_header =
  magic :: bytes
  format :: u8
  cipher :: u8
  keyId :: u16
  nonce :: bytes
  reserved :: u32

text \<open>\<open>buf[6] | (buf[7] << 8)\<close> and the \<open>memcpy\<close> of the nonce are read only once the length
  check has passed.\<close>

definition parse_header :: "bytes \<Rightarrow> lfxe_header option" where
  "parse_header buf =
     (if length buf < kHeaderSize then None
      else if take 4 buf \<noteq> kMagic then None
      else
        let h = \<lparr>magic = take 4 buf, format = buf ! 4, cipher = buf ! 5,
                 keyId = ucast (buf ! 6) OR push_bit 8 (ucast (buf ! 7)),
                 nonce = sub_bytes 8 12 buf, reserved = 0\<rparr>
        in if format h \<noteq> 1 then None else if cipher h \<noteq> 1 then None else Some h)"

definition has_magic :: "bytes \<Rightarrow> bool" where
  "has_magic buf \<longleftrightarrow> 4 \<le> length buf \<and> take 4 buf = kMagic"

lemma parse_header_has_magic: "parse_header buf = Some h \<Longrightarrow> has_magic buf"
  by (auto simp: parse_header_def has_magic_def kHeaderSize_def split: if_splits)

lemma parse_header_fields:
  assumes "parse_header buf = Some h"
  shows "24 \<le> length buf" "length (nonce h) = 12" "nonce h = sub_bytes 8 12 buf"
    "keyId h = load_le (sub_bytes 6 2 buf)" "format h = 1" "cipher h = 1"
proof -
  from assms have l: "24 \<le> length buf" and
    h: "h = \<lparr>magic = take 4 buf, format = 1, cipher = 1,
             keyId = ucast (buf ! 6) OR push_bit 8 (ucast (buf ! 7)),
             nonce = sub_bytes 8 12 buf, reserved = 0\<rparr>"
    by (auto simp: parse_header_def kHeaderSize_def Let_def split: if_splits)
  have "sub_bytes 6 2 buf = [buf ! 6, buf ! 7]"
    using l by (intro nth_equalityI) (auto simp: sub_bytes_def less_Suc_eq numeral_2_eq_2)
  then show "keyId h = load_le (sub_bytes 6 2 buf)" by (simp add: h)
  show "24 \<le> length buf" "length (nonce h) = 12" "nonce h = sub_bytes 8 12 buf"
    "format h = 1" "cipher h = 1"
    using l by (simp_all add: h)
qed

section \<open>Keys\<close>

text \<open>\<open>KeyProvider::GetKey\<close>: the key of an id, if the provider knows it. Every key it hands out
  fills the 32-byte array the caller passes.\<close>

locale key_provider =
  fixes get_key :: "u16 \<Rightarrow> bytes option"
  assumes key_size: "get_key k = Some key \<Longrightarrow> length key = 32"

text \<open>The linear congruential mask of \<open>BakedKeyProvider::GetKey\<close> and \<open>lcg_stream\<close>: the state
  wraps at 32 bits, the mask byte is its top byte. The seed and the masked bytes come from a
  generated header, so they are arguments.\<close>

fun lcg_stream :: "u32 \<Rightarrow> nat \<Rightarrow> bytes" where
  "lcg_stream st 0 = []"
| "lcg_stream st (Suc n) =
     (let st' = st * 1664525 + 1013904223 in ucast (drop_bit 24 st') # lcg_stream st' n)"

definition baked_get_key :: "u32 \<Rightarrow> (nat \<Rightarrow> u8) \<Rightarrow> u16 \<Rightarrow> bytes option" where
  "baked_get_key seed obf kid =
     (if kid \<noteq> 0 then None
      else Some (map (\<lambda>i. obf i XOR lcg_stream seed 32 ! i) [0..<32]))"

text \<open>The generator's side: \<open>emit_header\<close> masks the key with the same stream.\<close>

definition obfuscate_key :: "u32 \<Rightarrow> bytes \<Rightarrow> bytes" where
  "obfuscate_key seed key = map2 (XOR) key (lcg_stream seed 32)"

lemma length_lcg_stream [simp, wire_simps]: "length (lcg_stream st n) = n"
  by (induction n arbitrary: st) (simp_all add: Let_def)

lemma baked_key_recovered:
  assumes "length key = 32"
  shows "baked_get_key seed (\<lambda>i. obfuscate_key seed key ! i) 0 = Some key"
  using assms
  by (auto simp: baked_get_key_def obfuscate_key_def xor.assoc intro: nth_equalityI)

interpretation baked: key_provider "baked_get_key seed obf" for seed obf
  by unfold_locales (auto simp: baked_get_key_def split: if_splits)

section \<open>Decrypting a container\<close>

datatype decrypt_result = Ok bytes | NotEncrypted | BadHeader | NoKey

definition kPayloadCounter :: u32 where
  "kPayloadCounter = 1"

definition try_decrypt_asset :: "(u16 \<Rightarrow> bytes option) \<Rightarrow> bytes \<Rightarrow> decrypt_result" where
  "try_decrypt_asset keys inp =
     (if \<not> has_magic inp then NotEncrypted
      else case parse_header inp of
        None \<Rightarrow> BadHeader
      | Some h \<Rightarrow>
          (case keys (keyId h) of
             None \<Rightarrow> NoKey
           | Some key \<Rightarrow>
               (let plainLen = length inp - kHeaderSize
                in if plainLen \<noteq> 0
                   then Ok (chacha20_xor key (nonce h) kPayloadCounter (drop kHeaderSize inp))
                   else Ok [])))"

text \<open>The packer: \<open>pack\<close> and \<open>unpack\<close> of \<open>scripts/dts_lib.py\<close>; \<open>ValueError\<close> is \<open>None\<close>.\<close>

definition pack :: "bytes \<Rightarrow> bytes \<Rightarrow> u16 \<Rightarrow> bytes \<Rightarrow> bytes" where
  "pack plaintext key key_id nnc =
     kMagic @ [1, 1] @ store_le 2 key_id @ nnc @ store_le 4 (0 :: u32)
       @ chacha20_xor key nnc kPayloadCounter plaintext"

definition unpack :: "bytes \<Rightarrow> bytes \<Rightarrow> bytes option" where
  "unpack container key =
     (if length container < kHeaderSize \<or> take 4 container \<noteq> kMagic then None
      else if container ! 4 \<noteq> 1 then None
      else if container ! 5 \<noteq> 1 then None
      else Some (chacha20_xor key (sub_bytes 8 12 container) kPayloadCounter
                   (drop kHeaderSize container)))"

lemma length_pack [wire_simps]:
  "length nnc = 12 \<Longrightarrow> length (pack p key kid nnc) = 24 + length p"
  by (simp add: pack_def kMagic_def)

lemma drop_pack: "length nnc = 12 \<Longrightarrow>
  drop 24 (pack p key kid nnc) = chacha20_xor key nnc kPayloadCounter p"
  by (simp add: pack_def kMagic_def)

lemma parse_pack:
  assumes "length nnc = 12"
  shows "parse_header (pack p key kid nnc) =
    Some \<lparr>magic = kMagic, format = 1, cipher = 1, keyId = kid, nonce = nnc, reserved = 0\<rparr>"
proof -
  have k: "ucast (ucast kid :: u8) OR push_bit 8 (ucast (ucast (drop_bit 8 kid) :: u8)) = kid"
    using load_store_le [where n = 2 and v = kid]
    by (simp add: store_le_def numeral_2_eq_2)
  have s: "store_le 2 kid = [ucast kid, ucast (drop_bit 8 kid)]"
    by (simp add: store_le_def numeral_2_eq_2)
  show ?thesis
    using assms k
    by (simp add: parse_header_def kHeaderSize_def length_pack)
       (simp add: pack_def kMagic_def s sub_bytes_def)
qed

lemma has_magic_pack: "has_magic (pack p key kid nnc)"
  by (simp add: has_magic_def pack_def kMagic_def)

lemma try_decrypt_pack:
  assumes "length nnc = 12" and "keys kid = Some key"
  shows "try_decrypt_asset keys (pack p key kid nnc) = Ok p"
  using assms
  by (simp add: try_decrypt_asset_def has_magic_pack parse_pack length_pack drop_pack
      kHeaderSize_def chacha20_xor_involution)

lemma try_decrypt_Ok_cases:
  assumes "try_decrypt_asset keys inp = Ok p"
  obtains h key where "parse_header inp = Some h" "keys (keyId h) = Some key"
    "p = chacha20_xor key (nonce h) kPayloadCounter (drop 24 inp)"
proof -
  from assms have "has_magic inp"
    by (auto simp: try_decrypt_asset_def split: if_splits)
  with assms obtain h key where hk: "parse_header inp = Some h" "keys (keyId h) = Some key"
    and r: "p = (if length inp - 24 \<noteq> 0
                 then chacha20_xor key (nonce h) kPayloadCounter (drop 24 inp) else [])"
    by (auto simp: try_decrypt_asset_def kHeaderSize_def Let_def
        split: option.splits if_splits)
  have "p = chacha20_xor key (nonce h) kPayloadCounter (drop 24 inp)"
    using r by (cases "length inp \<le> 24") (simp_all add: chacha20_xor_def)
  with hk show ?thesis by (rule that)
qed

lemma try_decrypt_length:
  "try_decrypt_asset keys inp = Ok p \<Longrightarrow> length inp = 24 + length p"
  by (erule try_decrypt_Ok_cases) (auto dest: parse_header_fields(1))

lemma unpack_agrees:
  assumes "keys (load_le (sub_bytes 6 2 inp)) = Some key"
  shows "(try_decrypt_asset keys inp = Ok p) \<longleftrightarrow> unpack inp key = Some p"
proof -
  have u: "unpack inp key =
      map_option (\<lambda>h. chacha20_xor key (nonce h) kPayloadCounter (drop 24 inp)) (parse_header inp)"
    by (simp add: unpack_def parse_header_def kHeaderSize_def Let_def)
  show ?thesis
  proof
    assume "try_decrypt_asset keys inp = Ok p"
    then show "unpack inp key = Some p"
      by (rule try_decrypt_Ok_cases) (use assms u in \<open>auto dest: parse_header_fields(4)\<close>)
  next
    assume "unpack inp key = Some p"
    then obtain h where h: "parse_header inp = Some h"
      and p: "p = chacha20_xor key (nonce h) kPayloadCounter (drop 24 inp)"
      using u by auto
    have "keys (keyId h) = Some key" using assms parse_header_fields(4) [OF h] by simp
    then show "try_decrypt_asset keys inp = Ok p"
      using h p parse_header_has_magic [OF h]
      by (auto simp: try_decrypt_asset_def kHeaderSize_def chacha20_xor_def)
  qed
qed

interpretation lfxe_container: codec "\<lambda>p. pack p key kid nnc" "\<lambda>c. unpack c key"
    "\<lambda>_. length nnc = 12" for key kid nnc
proof unfold_locales
  fix p assume n: "length nnc = 12"
  have "keyId (the (parse_header (pack p key kid nnc))) = kid" using n by (simp add: parse_pack)
  then have "load_le (sub_bytes 6 2 (pack p key kid nnc)) = kid"
    using parse_header_fields(4) [OF parse_pack [OF n, of p key kid]] by simp
  then show "unpack (pack p key kid nnc) key = Some p"
    using unpack_agrees [of "\<lambda>_. Some key" "pack p key kid nnc" key p] n try_decrypt_pack [OF n]
    by simp
qed

text \<open>What the interface gives its client: whenever the cipher runs, its key and nonce arguments
  fill the arrays \<open>chacha20_xor\<close> reads, so no byte outside them is touched.\<close>

context key_provider
begin

lemma cipher_arguments_sized:
  assumes "try_decrypt_asset get_key inp = Ok p"
  shows "\<exists>h key. parse_header inp = Some h \<and> get_key (keyId h) = Some key \<and>
    length key = 32 \<and> length (nonce h) = 12 \<and>
    p = chacha20_xor key (nonce h) kPayloadCounter (drop 24 inp)"
  using assms by (rule try_decrypt_Ok_cases) (blast dest: key_size parse_header_fields(2))

end

section \<open>Properties\<close>

text \<open>C17: End to end through the build: a key masked by the header generator and recovered by the
  baked-in provider decrypts, byte for byte, every asset the packer produced with that key.\<close>

theorem packed_asset_decrypts:
  assumes "length key = 32" and "length nnc = 12"
  shows "try_decrypt_asset (baked_get_key seed (\<lambda>i. obfuscate_key seed key ! i)) (pack p key 0 nnc) = Ok p"
  using assms by (intro try_decrypt_pack baked_key_recovered)

theorem packed_asset_decrypts_witness:
  "try_decrypt_asset (baked_get_key 99 (\<lambda>i. obfuscate_key 99 (replicate 32 7) ! i))
     (pack [1, 2, 3] (replicate 32 7) 0 (replicate 12 9)) = Ok [1, 2, 3]"
  by (rule packed_asset_decrypts) simp_all



text \<open>Whenever an input is accepted the header was whole, the key the provider returned has 32
  bytes and the nonce 12, so the cipher reads inside its arrays, and the plaintext is the cipher
  applied to the bytes after the header.\<close>

theorem accepted_input_is_sized:
  assumes "try_decrypt_asset (baked_get_key seed obf) inp = Ok p"
  shows "\<exists>h key. parse_header inp = Some h \<and> baked_get_key seed obf (keyId h) = Some key \<and>
    length key = 32 \<and> length (nonce h) = 12 \<and> length inp = 24 + length p \<and>
    p = chacha20_xor key (nonce h) kPayloadCounter (drop 24 inp)"
  using baked.cipher_arguments_sized [OF assms] try_decrypt_length [OF assms] by blast

theorem accepted_input_is_sized_witness:
  "\<exists>h key. parse_header (pack [8] (replicate 32 7) 0 (replicate 12 9)) = Some h \<and>
    baked_get_key 5 (\<lambda>i. obfuscate_key 5 (replicate 32 7) ! i) (keyId h) = Some key \<and>
    length key = 32 \<and> length (nonce h) = 12 \<and>
    length (pack [8] (replicate 32 7) 0 (replicate 12 9)) = 24 + length [8 :: u8] \<and>
    [8] = chacha20_xor key (nonce h) kPayloadCounter
      (drop 24 (pack [8] (replicate 32 7) 0 (replicate 12 9)))"
  by (rule accepted_input_is_sized, rule try_decrypt_pack) (simp_all add: baked_key_recovered)

end
