(* ===== verification/Lfxe_Filestream.thy ===== *)
theory Lfxe_Filestream
  imports Lfxe_Format
begin

text \<open>
  The decrypting file layer: the registry of \<open>core/crypto/lfxe_filestream.cpp\<close> and the
  \<open>FileStream\<close> detours of \<open>server/hooks/engine/hook_filestream.cpp\<close> (the client's copy in
  \<open>client/hook_filestream.cpp\<close> has the same bodies). The engine's own stream methods are a
  record of functions on an engine state of any type; the in-memory stream of the self-test
  \<open>scripts/lfxe_fs_selftest.cpp\<close> is one such engine.

  The locale \<open>byte_file\<close> is the contract a caller of the detours relies on: a file is a byte
  list and a position. Both the plain stream and the detoured stream over an encrypted file
  interpret it, which is the refinement result of the component: a packed file is served, seek by
  seek and read by read, like the file that was packed.
\<close>

type_synonym addr = u64

section \<open>Engine streams\<close>

text \<open>The three original methods the registry is given: size, seek, and read. A read returns its
  flag, the bytes it stored at \<open>dst\<close> and the new engine state.\<close>

record 'e stream_ops =
  op_get_size :: "addr \<Rightarrow> 'e \<Rightarrow> nat"
  op_set_pos :: "addr \<Rightarrow> nat \<Rightarrow> 'e \<Rightarrow> bool \<times> 'e"
  op_read :: "addr \<Rightarrow> nat \<Rightarrow> 'e \<Rightarrow> bool \<times> bytes \<times> 'e"

text \<open>A zero-initialised buffer of \<open>n\<close> bytes after a read stored \<open>bs\<close> at its start.\<close>

definition fill_buf :: "nat \<Rightarrow> bytes \<Rightarrow> bytes" where
  "fill_buf n bs = take n bs @ replicate (n - length bs) 0"

lemma length_fill_buf [simp, wire_simps]: "length (fill_buf n bs) = n"
  by (simp add: fill_buf_def)

lemma fill_buf_full [simp]: "length bs = n \<Longrightarrow> fill_buf n bs = bs"
  by (simp add: fill_buf_def)

section \<open>The registry\<close>

record entry =
  plain :: bytes
  epos :: nat

record fs_state =
  gMap :: "addr \<Rightarrow> entry option"
  status :: "addr \<Rightarrow> u32"
  gFirstDecrypt :: bool
  announced :: bool

definition kStatusOk :: u32 where "kStatusOk = 0"
definition kStatusEOS :: u32 where "kStatusEOS = 2"

definition setStatus :: "addr \<Rightarrow> u32 \<Rightarrow> fs_state \<Rightarrow> fs_state" where
  "setStatus self v s = s\<lparr>status := (status s)(self := v)\<rparr>"

definition fs_unregister :: "addr \<Rightarrow> fs_state \<Rightarrow> fs_state" where
  "fs_unregister self s = s\<lparr>gMap := (gMap s)(self := None)\<rparr>"

definition fs_register_if_encrypted ::
  "'e stream_ops \<Rightarrow> (u16 \<Rightarrow> bytes option) \<Rightarrow> addr \<Rightarrow> fs_state \<Rightarrow> 'e \<Rightarrow> bool \<times> fs_state \<times> 'e" where
  "fs_register_if_encrypted ops keys self s e =
     (let s = fs_unregister self s;
          sz = op_get_size ops self e
      in if sz < kHeaderSize then (False, s, e)
         else
           let e = snd (op_set_pos ops self 0 e);
               (ok, bs, e) = op_read ops self 4 e
           in if \<not> ok \<or> \<not> has_magic (fill_buf 4 bs)
              then (False, s, snd (op_set_pos ops self 0 e))
              else
                let e = snd (op_set_pos ops self 0 e);
                    (ok, bs, e) = op_read ops self sz e
                in if \<not> ok then (False, s, snd (op_set_pos ops self 0 e))
                   else (case try_decrypt_asset keys (fill_buf sz bs) of
                       Ok p \<Rightarrow>
                         (let s = s\<lparr>gMap := (gMap s)(self := Some \<lparr>plain = p, epos = 0\<rparr>)\<rparr>;
                              e = snd (op_set_pos ops self 0 e);
                              s = setStatus self kStatusOk s
                          in (True, s\<lparr>gFirstDecrypt := True\<rparr>, e))
                     | _ \<Rightarrow> (False, s, snd (op_set_pos ops self 0 e))))"

text \<open>The accessors answer \<open>None\<close> when the stream is not backed by plaintext, and the detour then
  calls the engine. \<open>dst\<close> says whether the destination pointer is non-null.\<close>

definition fs_try_read :: "addr \<Rightarrow> nat \<Rightarrow> bool \<Rightarrow> fs_state \<Rightarrow> (bool \<times> bytes \<times> fs_state) option" where
  "fs_try_read self sz dst s =
     (case gMap s self of
        None \<Rightarrow> None
      | Some en \<Rightarrow>
          (let avail = (if epos en \<le> length (plain en) then length (plain en) - epos en else 0);
               tk = (if sz \<le> avail then sz else avail);
               copied = (if tk \<noteq> 0 \<and> dst then sub_bytes (epos en) tk (plain en) else []);
               s = s\<lparr>gMap := (gMap s)(self := Some (en\<lparr>epos := epos en + tk\<rparr>))\<rparr>;
               full = (tk = sz)
           in Some (full, copied, setStatus self (if full then kStatusOk else kStatusEOS) s)))"

definition fs_try_get_size :: "addr \<Rightarrow> fs_state \<Rightarrow> nat option" where
  "fs_try_get_size self s = map_option (\<lambda>en. length (plain en)) (gMap s self)"

definition fs_try_get_position :: "addr \<Rightarrow> fs_state \<Rightarrow> nat option" where
  "fs_try_get_position self s = map_option epos (gMap s self)"

definition fs_try_set_position :: "addr \<Rightarrow> nat \<Rightarrow> fs_state \<Rightarrow> (bool \<times> fs_state) option" where
  "fs_try_set_position self p s =
     (case gMap s self of
        None \<Rightarrow> None
      | Some en \<Rightarrow>
          (if length (plain en) < p then Some (False, s)
           else Some (True, s\<lparr>gMap := (gMap s)(self := Some (en\<lparr>epos := p\<rparr>))\<rparr>)))"

definition fs_consume_first_decrypt_flag :: "fs_state \<Rightarrow> bool" where
  "fs_consume_first_decrypt_flag s = gFirstDecrypt s"

section \<open>The detours\<close>

definition announceOnce :: "fs_state \<Rightarrow> bool \<times> fs_state" where
  "announceOnce s =
     (if announced s \<or> \<not> fs_consume_first_decrypt_flag s then (False, s)
      else (True, s\<lparr>announced := True\<rparr>))"

text \<open>\<open>FileStream_OnOpen\<close>: the engine's \<open>open\<close> is an argument; access mode 0 is reading.\<close>

definition on_open ::
  "'e stream_ops \<Rightarrow> (addr \<Rightarrow> u64 \<Rightarrow> u32 \<Rightarrow> 'e \<Rightarrow> bool \<times> 'e) \<Rightarrow> (u16 \<Rightarrow> bytes option) \<Rightarrow>
   addr \<Rightarrow> u64 \<Rightarrow> u32 \<Rightarrow> fs_state \<Rightarrow> 'e \<Rightarrow> bool \<times> fs_state \<times> 'e" where
  "on_open ops engine_open keys self path accessMode s e =
     (let (ok, e) = engine_open self path accessMode e
      in if \<not> ok \<or> accessMode \<noteq> 0 then (ok, fs_unregister self s, e)
         else let (_, s, e) = fs_register_if_encrypted ops keys self s e
              in (ok, snd (announceOnce s), e))"

definition on_read ::
  "'e stream_ops \<Rightarrow> addr \<Rightarrow> nat \<Rightarrow> bool \<Rightarrow> fs_state \<times> 'e \<Rightarrow> bool \<times> bytes \<times> fs_state \<times> 'e" where
  "on_read ops self sz dst se =
     (let (s, e) = se in
      case fs_try_read self sz dst s of
        Some (r, bs, s) \<Rightarrow> (r, bs, s, e)
      | None \<Rightarrow> (let (r, bs, e) = op_read ops self sz e in (r, bs, s, e)))"

definition on_set_position ::
  "'e stream_ops \<Rightarrow> addr \<Rightarrow> nat \<Rightarrow> fs_state \<times> 'e \<Rightarrow> bool \<times> fs_state \<times> 'e" where
  "on_set_position ops self p se =
     (let (s, e) = se in
      case fs_try_set_position self p s of
        Some (r, s) \<Rightarrow> (r, s, e)
      | None \<Rightarrow> (let (r, e) = op_set_pos ops self p e in (r, s, e)))"

definition on_get_position ::
  "(addr \<Rightarrow> 'e \<Rightarrow> nat) \<Rightarrow> addr \<Rightarrow> fs_state \<times> 'e \<Rightarrow> nat" where
  "on_get_position engine_pos self se =
     (case fs_try_get_position self (fst se) of Some p \<Rightarrow> p | None \<Rightarrow> engine_pos self (snd se))"

definition on_get_stream_size :: "'e stream_ops \<Rightarrow> addr \<Rightarrow> fs_state \<times> 'e \<Rightarrow> nat" where
  "on_get_stream_size ops self se =
     (case fs_try_get_size self (fst se) of Some n \<Rightarrow> n | None \<Rightarrow> op_get_size ops self (snd se))"

definition on_dtor :: "(addr \<Rightarrow> u32 \<Rightarrow> 'e \<Rightarrow> 'e) \<Rightarrow> addr \<Rightarrow> u32 \<Rightarrow> fs_state \<Rightarrow> 'e \<Rightarrow> fs_state \<times> 'e" where
  "on_dtor engine_dtor self flags s e = (fs_unregister self s, engine_dtor self flags e)"

section \<open>The self-test's in-memory engine\<close>

record mock_stream =
  data :: bytes
  mpos :: nat

type_synonym mock_engine = "addr \<Rightarrow> mock_stream"

definition mockGetSize :: "addr \<Rightarrow> mock_engine \<Rightarrow> nat" where
  "mockGetSize self e = length (data (e self))"

definition mockSetPos :: "addr \<Rightarrow> nat \<Rightarrow> mock_engine \<Rightarrow> bool \<times> mock_engine" where
  "mockSetPos self p e =
     (if length (data (e self)) < p then (False, e)
      else (True, e(self := (e self)\<lparr>mpos := p\<rparr>)))"

definition mockRead :: "addr \<Rightarrow> nat \<Rightarrow> mock_engine \<Rightarrow> bool \<times> bytes \<times> mock_engine" where
  "mockRead self n e =
     (let m = e self;
          avail = (if mpos m \<le> length (data m) then length (data m) - mpos m else 0);
          tk = (if n \<le> avail then n else avail)
      in (tk = n, sub_bytes (mpos m) tk (data m), e(self := m\<lparr>mpos := mpos m + tk\<rparr>)))"

definition mock_ops :: "mock_engine stream_ops" where
  "mock_ops = \<lparr>op_get_size = mockGetSize, op_set_pos = mockSetPos, op_read = mockRead\<rparr>"

section \<open>The contract of a file\<close>

text \<open>A file is a byte list with a position in it. \<open>view st = Some (bs, p)\<close> says which.\<close>

locale byte_file =
  fixes view :: "'s \<Rightarrow> (bytes \<times> nat) option"
    and fread :: "nat \<Rightarrow> 's \<Rightarrow> bool \<times> bytes \<times> 's"
    and fseek :: "nat \<Rightarrow> 's \<Rightarrow> bool \<times> 's"
  assumes view_bound: "view st = Some (bs, p) \<Longrightarrow> p \<le> length bs"
    and read_view: "view st = Some (bs, p) \<Longrightarrow> \<exists>st'. fread n st =
          (n \<le> length bs - p, take n (drop p bs), st') \<and>
          view st' = Some (bs, p + min n (length bs - p))"
    and seek_view: "view st = Some (bs, p) \<Longrightarrow> \<exists>st'. fseek q st = (q \<le> length bs, st') \<and>
          view st' = Some (bs, if q \<le> length bs then q else p)"

text \<open>A client is a sequence of reads and seeks; what it sees is the list of answers.\<close>

datatype file_op = Read nat | Seek nat

fun run_ops :: "(nat \<Rightarrow> 's \<Rightarrow> bool \<times> bytes \<times> 's) \<Rightarrow> (nat \<Rightarrow> 's \<Rightarrow> bool \<times> 's) \<Rightarrow>
    file_op list \<Rightarrow> 's \<Rightarrow> (bool \<times> bytes) list" where
  "run_ops rd sk [] st = []"
| "run_ops rd sk (Read n # os) st = (case rd n st of (r, bs, st') \<Rightarrow> (r, bs) # run_ops rd sk os st')"
| "run_ops rd sk (Seek q # os) st = (case sk q st of (r, st') \<Rightarrow> (r, []) # run_ops rd sk os st')"

text \<open>The reference: the answers computed from the bytes and the position alone.\<close>

fun file_answers :: "bytes \<Rightarrow> nat \<Rightarrow> file_op list \<Rightarrow> (bool \<times> bytes) list" where
  "file_answers bs p [] = []"
| "file_answers bs p (Read n # os) =
     (n \<le> length bs - p, take n (drop p bs)) # file_answers bs (p + min n (length bs - p)) os"
| "file_answers bs p (Seek q # os) =
     (q \<le> length bs, []) # file_answers bs (if q \<le> length bs then q else p) os"

context byte_file
begin

lemma run_ops_answers: "view st = Some (bs, p) \<Longrightarrow> run_ops fread fseek os st = file_answers bs p os"
proof (induction os arbitrary: st p)
  case Nil
  then show ?case by simp
next
  case (Cons x os)
  show ?case
  proof (cases x)
    case (Read n)
    obtain st' where "fread n st = (n \<le> length bs - p, take n (drop p bs), st')"
      "view st' = Some (bs, p + min n (length bs - p))"
      using read_view [OF Cons.prems] by blast
    then show ?thesis using Read Cons.IH by simp
  next
    case (Seek q)
    obtain st' where "fseek q st = (q \<le> length bs, st')"
      "view st' = Some (bs, if q \<le> length bs then q else p)"
      using seek_view [OF Cons.prems] by blast
    then show ?thesis using Seek Cons.IH by simp
  qed
qed

end

subsection \<open>The plain stream keeps the contract\<close>

definition mock_view :: "addr \<Rightarrow> mock_engine \<Rightarrow> (bytes \<times> nat) option" where
  "mock_view self e =
     (if mpos (e self) \<le> length (data (e self)) then Some (data (e self), mpos (e self)) else None)"

lemma mock_read_view:
  "mock_view self e = Some (bs, p) \<Longrightarrow>
   \<exists>e'. mockRead self n e = (n \<le> length bs - p, take n (drop p bs), e') \<and>
        mock_view self e' = Some (bs, p + min n (length bs - p))"
  by (auto simp: mock_view_def mockRead_def sub_bytes_def Let_def min_def split: if_splits)

lemma mock_seek_view:
  "mock_view self e = Some (bs, p) \<Longrightarrow>
   \<exists>e'. mockSetPos self q e = (q \<le> length bs, e') \<and>
        mock_view self e' = Some (bs, if q \<le> length bs then q else p)"
  by (auto simp: mock_view_def mockSetPos_def split: if_splits)

interpretation mock_file: byte_file "mock_view self" "mockRead self" "mockSetPos self" for self
proof unfold_locales
  show "mock_view self st = Some (bs, p) \<Longrightarrow> p \<le> length bs" for st bs p
    by (auto simp: mock_view_def split: if_splits)
qed (rule mock_read_view mock_seek_view, assumption)+

subsection \<open>The detoured stream keeps the contract, over any engine\<close>

definition served_view :: "addr \<Rightarrow> fs_state \<times> 'e \<Rightarrow> (bytes \<times> nat) option" where
  "served_view self se =
     (case gMap (fst se) self of
        None \<Rightarrow> None
      | Some en \<Rightarrow> if epos en \<le> length (plain en) then Some (plain en, epos en) else None)"

lemma served_view_Some:
  "served_view self se = Some (bs, p) \<longleftrightarrow>
     (\<exists>en. gMap (fst se) self = Some en \<and> plain en = bs \<and> epos en = p \<and> p \<le> length bs)"
  by (auto simp: served_view_def split: option.splits if_splits)

lemma served_read_view:
  assumes "served_view self se = Some (bs, p)"
  shows "\<exists>se'. on_read ops self n True se = (n \<le> length bs - p, take n (drop p bs), se') \<and>
    served_view self se' = Some (bs, p + min n (length bs - p))"
  using assms
  by (cases se)
     (auto simp: served_view_Some on_read_def fs_try_read_def setStatus_def sub_bytes_def Let_def
       min_def)

lemma served_seek_view:
  assumes "served_view self se = Some (bs, p)"
  shows "\<exists>se'. on_set_position ops self q se = (q \<le> length bs, se') \<and>
    served_view self se' = Some (bs, if q \<le> length bs then q else p)"
  using assms
  by (cases se) (auto simp: served_view_Some on_set_position_def fs_try_set_position_def)

interpretation served_file: byte_file "served_view self" "\<lambda>n. on_read ops self n True"
    "on_set_position ops self" for self ops
proof unfold_locales
  show "served_view self st = Some (bs, p) \<Longrightarrow> p \<le> length bs" for st bs p
    by (auto simp: served_view_Some)
qed (rule served_read_view served_seek_view, assumption)+

section \<open>Registration\<close>

lemma mock_read_all:
  "mpos (e self) = 0 \<Longrightarrow> n \<le> length (data (e self)) \<Longrightarrow>
   mockRead self n e = (True, take n (data (e self)), e(self := (e self)\<lparr>mpos := n\<rparr>))"
  by (simp add: mockRead_def sub_bytes_def Let_def)

text \<open>Registration of a mock stream is decided by the file's bytes alone.\<close>

lemma register_mock:
  fixes e :: mock_engine
  assumes "c = data (e self)"
  shows "fs_register_if_encrypted mock_ops keys self s e =
    (let s0 = fs_unregister self s; e0 = e(self := (e self)\<lparr>mpos := 0\<rparr>) in
     if length c < 24 then (False, s0, e)
     else case try_decrypt_asset keys c of
         Ok p \<Rightarrow> (True, (setStatus self kStatusOk
                   (s0\<lparr>gMap := (gMap s0)(self := Some \<lparr>plain = p, epos = 0\<rparr>)\<rparr>))\<lparr>gFirstDecrypt := True\<rparr>, e0)
       | _ \<Rightarrow> (False, s0, e0))"
proof (cases "length c < 24 \<or> \<not> has_magic c")
  case True
  then show ?thesis using assms
    by (auto simp: fs_register_if_encrypted_def mock_ops_def mockGetSize_def kHeaderSize_def
        mockSetPos_def mock_read_all Let_def has_magic_def try_decrypt_asset_def fun_upd_upd)
next
  case False
  then have m: "has_magic (take 4 c)" by (auto simp: has_magic_def kMagic_def)
  show ?thesis using assms False m
    by (auto simp: fs_register_if_encrypted_def mock_ops_def mockGetSize_def kHeaderSize_def
        mockSetPos_def mock_read_all Let_def fun_upd_upd split: decrypt_result.splits)
qed

lemma register_pack:
  fixes e :: mock_engine
  assumes "data (e self) = pack p key kid nnc" and "length nnc = 12" and "keys kid = Some key"
  shows "\<exists>s' e'. fs_register_if_encrypted mock_ops keys self s e = (True, s', e') \<and>
    served_view self (s', e') = Some (p, 0)"
proof -
  have "try_decrypt_asset keys (data (e self)) = Ok p"
    using assms try_decrypt_pack by simp
  moreover have "\<not> length (data (e self)) < 24" using assms by (simp add: length_pack)
  ultimately show ?thesis
    by (auto simp: register_mock Let_def served_view_Some setStatus_def)
qed

text \<open>Registry invariant: every served position lies inside its plaintext. All operations keep
  it, over any engine.\<close>

definition fs_inv :: "fs_state \<Rightarrow> bool" where
  "fs_inv s \<longleftrightarrow> (\<forall>a en. gMap s a = Some en \<longrightarrow> epos en \<le> length (plain en))"

lemma fs_inv_unregister: "fs_inv s \<Longrightarrow> fs_inv (fs_unregister self s)"
  by (auto simp: fs_inv_def fs_unregister_def)

lemma fs_inv_register:
  "fs_inv s \<Longrightarrow> fs_register_if_encrypted ops keys self s e = (r, s', e') \<Longrightarrow> fs_inv s'"
  by (auto simp: fs_register_if_encrypted_def fs_unregister_def setStatus_def fs_inv_def Let_def
      split: if_splits prod.splits decrypt_result.splits)

lemma fs_inv_read: "fs_inv s \<Longrightarrow> on_read ops self n dst (s, e) = (r, bs, s', e') \<Longrightarrow> fs_inv s'"
  by (fastforce simp: fs_inv_def on_read_def fs_try_read_def setStatus_def Let_def
      split: option.splits if_splits prod.splits)

lemma fs_inv_seek: "fs_inv s \<Longrightarrow> on_set_position ops self q (s, e) = (r, s', e') \<Longrightarrow> fs_inv s'"
  by (auto simp: fs_inv_def on_set_position_def fs_try_set_position_def Let_def
      split: option.splits if_splits prod.splits)

section \<open>Runs of the detours\<close>

text \<open>The states the detours can reach from an empty registry, over any engine.\<close>

inductive fs_reach ::
  "'e stream_ops \<Rightarrow> (addr \<Rightarrow> u64 \<Rightarrow> u32 \<Rightarrow> 'e \<Rightarrow> bool \<times> 'e) \<Rightarrow> (addr \<Rightarrow> u32 \<Rightarrow> 'e \<Rightarrow> 'e) \<Rightarrow>
   (u16 \<Rightarrow> bytes option) \<Rightarrow> fs_state \<Rightarrow> 'e \<Rightarrow> bool"
  for ops opn dtor keys where
  reach_init: "fs_reach ops opn dtor keys
     \<lparr>gMap = (\<lambda>_. None), status = st, gFirstDecrypt = False, announced = False\<rparr> e"
| reach_open: "fs_reach ops opn dtor keys s e \<Longrightarrow>
     on_open ops opn keys self path mode s e = (r, s', e') \<Longrightarrow> fs_reach ops opn dtor keys s' e'"
| reach_read: "fs_reach ops opn dtor keys s e \<Longrightarrow>
     on_read ops self n dst (s, e) = (r, bs, s', e') \<Longrightarrow> fs_reach ops opn dtor keys s' e'"
| reach_seek: "fs_reach ops opn dtor keys s e \<Longrightarrow>
     on_set_position ops self q (s, e) = (r, s', e') \<Longrightarrow> fs_reach ops opn dtor keys s' e'"
| reach_dtor: "fs_reach ops opn dtor keys s e \<Longrightarrow>
     on_dtor dtor self flags s e = (s', e') \<Longrightarrow> fs_reach ops opn dtor keys s' e'"

lemma fs_inv_announce: "fs_inv s \<Longrightarrow> fs_inv (snd (announceOnce s))"
  by (simp add: announceOnce_def fs_inv_def)

lemma fs_inv_open:
  assumes "fs_inv s" "on_open ops opn keys self path mode s e = (r, s', e')"
  shows "fs_inv s'"
proof -
  obtain ok e1 where o: "opn self path mode e = (ok, e1)" by fastforce
  obtain b s1 e2 where g: "fs_register_if_encrypted ops keys self s e1 = (b, s1, e2)"
    by (metis prod_cases3)
  have "s' = (if \<not> ok \<or> mode \<noteq> 0 then fs_unregister self s else snd (announceOnce s1))"
    using assms(2) by (auto simp: on_open_def o g split: if_splits)
  then show ?thesis
    using fs_inv_announce [OF fs_inv_register [OF assms(1) g]] fs_inv_unregister [OF assms(1)] by simp
qed

lemma fs_reach_inv: "fs_reach ops opn dtor keys s e \<Longrightarrow> fs_inv s"
proof (induction rule: fs_reach.induct)
  case (reach_init st e)
  show ?case by (simp add: fs_inv_def)
next
  case (reach_open s e self path mode r s' e')
  from reach_open.IH reach_open.hyps(2) show ?case by (rule fs_inv_open)
next
  case (reach_read s e self n dst r bs s' e')
  from reach_read.IH reach_read.hyps(2) show ?case by (rule fs_inv_read)
next
  case (reach_seek s e self q r s' e')
  from reach_seek.IH reach_seek.hyps(2) show ?case by (rule fs_inv_seek)
next
  case (reach_dtor s e self flags s' e')
  then show ?case by (auto simp: on_dtor_def fs_inv_unregister)
qed

section \<open>Properties\<close>

text \<open>C3: A packed file is served like the file that was packed: after the open registered it,
  every sequence of reads and seeks gets, answer by answer, what the engine's own stream over the
  plain bytes gives, short reads and refused seeks included.\<close>

theorem packed_file_served_as_plain:
  fixes e plain_engine :: mock_engine
  assumes "data (e self) = pack p key kid nnc" and "length nnc = 12" and "keys kid = Some key"
    and "data (plain_engine self) = p" and "mpos (plain_engine self) = 0"
  shows "\<exists>s' e'. fs_register_if_encrypted mock_ops keys self s e = (True, s', e') \<and>
    run_ops (\<lambda>n. on_read ops self n True) (on_set_position ops self) os (s', e2) =
    run_ops (mockRead self) (mockSetPos self) os plain_engine"
proof -
  obtain s' e' where r: "fs_register_if_encrypted mock_ops keys self s e = (True, s', e')"
    "served_view self (s', e') = Some (p, 0)" using register_pack [of e self p key kid nnc keys s, OF assms(1-3)] by blast
  then have "served_view self (s', e2) = Some (p, 0)" by (simp add: served_view_def)
  then have "run_ops (\<lambda>n. on_read ops self n True) (on_set_position ops self) os (s', e2) =
      file_answers p 0 os" by (rule served_file.run_ops_answers)
  moreover have "run_ops (mockRead self) (mockSetPos self) os plain_engine = file_answers p 0 os"
    using assms(4,5) by (intro mock_file.run_ops_answers) (simp add: mock_view_def)
  ultimately show ?thesis using r(1) by auto
qed

theorem packed_file_served_as_plain_witness:
  "\<exists>s' e'. fs_register_if_encrypted mock_ops (\<lambda>_. Some (replicate 32 1)) 16
      \<lparr>gMap = (\<lambda>_. None), status = (\<lambda>_. 0), gFirstDecrypt = False, announced = False\<rparr>
      (\<lambda>_. \<lparr>data = pack [7, 8, 9] (replicate 32 1) 3 (replicate 12 0), mpos = 0\<rparr>) = (True, s', e') \<and>
    run_ops (\<lambda>n. on_read mock_ops 16 n True) (on_set_position mock_ops 16)
      [Read 2, Seek 9, Read 5, Seek 1, Read 1] (s', \<lambda>_. \<lparr>data = [], mpos = 0\<rparr>) =
    [(True, [7, 8]), (False, []), (False, [9]), (True, []), (True, [8])]"
  using packed_file_served_as_plain [of "\<lambda>_. \<lparr>data = pack [7, 8, 9] (replicate 32 1) 3 (replicate 12 0), mpos = 0\<rparr>"
      16 "[7, 8, 9]" "replicate 32 1" 3 "replicate 12 0" "\<lambda>_. Some (replicate 32 1)"
      "\<lambda>_. \<lparr>data = [7, 8, 9], mpos = 0\<rparr>"
      "\<lparr>gMap = (\<lambda>_. None), status = (\<lambda>_. 0), gFirstDecrypt = False, announced = False\<rparr>"
      mock_ops "[Read 2, Seek 9, Read 5, Seek 1, Read 1]" "\<lambda>_. \<lparr>data = [], mpos = 0\<rparr>"]
  by (simp add: mockRead_def mockSetPos_def sub_bytes_def Let_def)

text \<open>In every state the detours reach, over every engine and every sequence of opens, reads,
  seeks and closes, the position served for a file lies inside its plaintext.\<close>

theorem served_position_in_range:
  assumes "fs_reach ops opn dtor keys s e" and "gMap s self = Some en"
  shows "epos en \<le> length (plain en)"
  using fs_reach_inv [OF assms(1)] assms(2) by (auto simp: fs_inv_def)

theorem served_position_in_range_witness:
  "epos \<lparr>plain = [7, 8, 9], epos = 3\<rparr> \<le> length (plain \<lparr>plain = [7, 8, 9], epos = 3\<rparr>)"
proof -
  let ?e = "\<lambda>_ :: addr. \<lparr>data = pack [7, 8, 9] (replicate 32 1) 3 (replicate 12 0), mpos = 0\<rparr>"
  let ?s = "\<lparr>gMap = (\<lambda>_. None), status = (\<lambda>_. 0), gFirstDecrypt = False, announced = False\<rparr>"
  let ?s1 = "\<lparr>gMap = [16 \<mapsto> \<lparr>plain = [7, 8, 9], epos = 0\<rparr>], status = (\<lambda>_. 0),
       gFirstDecrypt = True, announced = True\<rparr>"
  let ?s2 = "\<lparr>gMap = [16 \<mapsto> \<lparr>plain = [7, 8, 9], epos = 3\<rparr>], status = (\<lambda>_. 0)(16 := 2),
       gFirstDecrypt = True, announced = True\<rparr>"
  have o: "on_open mock_ops (\<lambda>_ _ _ e. (True, e)) (\<lambda>_. Some (replicate 32 1)) 16 0 0 ?s ?e =
      (True, ?s1, ?e)"
    by (simp add: on_open_def register_mock [OF refl] length_pack try_decrypt_pack Let_def
        setStatus_def fs_unregister_def announceOnce_def fs_consume_first_decrypt_flag_def
        kStatusOk_def fun_upd_idem)
  have r: "on_read mock_ops 16 4 True (?s1, ?e) = (False, [7, 8, 9], ?s2, ?e)"
    by (simp add: on_read_def fs_try_read_def Let_def setStatus_def sub_bytes_def kStatusEOS_def
        numeral_3_eq_3)
  have "fs_reach mock_ops (\<lambda>_ _ _ e. (True, e)) (\<lambda>_ _ e. e) (\<lambda>_. Some (replicate 32 1)) ?s2 ?e"
    by (rule reach_read [OF reach_open [OF reach_init o] r])
  moreover have "gMap ?s2 16 = Some \<lparr>plain = [7, 8, 9], epos = 3\<rparr>" by simp
  ultimately show ?thesis by (rule served_position_in_range)
qed

end
