(* ===== verification/Base64.thy ===== *)
theory Base64
  imports Lifx_Prelude
begin

text \<open>
  The base64 codec of the dispatcher client (\<open>b64DecodeChar\<close>, \<open>b64Decode\<close>, \<open>b64Encode\<close> in
  \<open>source/server/hooks/dispatcher/dispatcher_client.cpp\<close>). The decoder keeps a 32-bit
  accumulator it never masks: the bits shifted out at the top are lost, and the lemmas show that
  they never reach an output byte.
\<close>

definition b64_tbl :: string where
  "b64_tbl = ''ABCDEFGHIJKLMNOPQRSTUVWXYZabcdefghijklmnopqrstuvwxyz0123456789+/''"

definition b64DecodeChar :: "char \<Rightarrow> int" where
  "b64DecodeChar c =
     (let n = of_char c :: int in
      if 65 \<le> n \<and> n \<le> 90 then n - 65
      else if 97 \<le> n \<and> n \<le> 122 then n - 97 + 26
      else if 48 \<le> n \<and> n \<le> 57 then n - 48 + 52
      else if c = CHR ''+'' then 62
      else if c = CHR ''/'' then 63
      else -1)"

definition b64_skip :: "char \<Rightarrow> bool" where
  "b64_skip c \<longleftrightarrow> c = CHR ''='' \<or> c = CHR 0x0A \<or> c = CHR 0x0D \<or> c = CHR '' ''"

text \<open>The loop over the characters: accumulator, number of pending bits, output so far. The
  result is the success flag and the output as the caller sees it.\<close>

fun b64_loop :: "u32 \<Rightarrow> nat \<Rightarrow> bytes \<Rightarrow> string \<Rightarrow> bool \<times> bytes" where
  "b64_loop buf bits out [] = (True, out)"
| "b64_loop buf bits out (c # cs) =
     (if b64_skip c then b64_loop buf bits out cs
      else let v = b64DecodeChar c
        in if v < 0 then (False, out)
           else let buf = push_bit 6 buf OR word_of_int v; bits = bits + 6
             in if 8 \<le> bits
                then b64_loop buf (bits - 8)
                       (out @ [ucast (signed_drop_bit (bits - 8) buf AND 0xFF)]) cs
                else b64_loop buf bits out cs)"

definition b64Decode :: "string \<Rightarrow> bool \<times> bytes" where
  "b64Decode inp = b64_loop 0 0 [] inp"

text \<open>\<open>tbl[(n >> k) & 0x3F]\<close>.\<close>

definition b64_sym :: "u32 \<Rightarrow> nat \<Rightarrow> char" where
  "b64_sym n k = b64_tbl ! unat (drop_bit k n AND 0x3F)"

fun b64Encode :: "bytes \<Rightarrow> string" where
  "b64Encode (a # b # c # r) =
     (let n = push_bit 16 (ucast a) OR push_bit 8 (ucast b) OR ucast c
      in [b64_sym n 18, b64_sym n 12, b64_sym n 6, b64_sym n 0] @ b64Encode r)"
| "b64Encode [a, b] =
     (let n = push_bit 16 (ucast a) OR push_bit 8 (ucast b)
      in [b64_sym n 18, b64_sym n 12, b64_sym n 6, CHR ''=''])"
| "b64Encode [a] =
     (let n = push_bit 16 (ucast a)
      in [b64_sym n 18, b64_sym n 12, CHR ''='', CHR ''=''])"
| "b64Encode [] = []"

section \<open>Symbols\<close>

lemma b64_tbl_decode:
  "list_all (\<lambda>k. b64DecodeChar (b64_tbl ! k) = int k \<and> \<not> b64_skip (b64_tbl ! k)
     \<and> b64_tbl ! k \<noteq> CHR 0x22 \<and> b64_tbl ! k \<noteq> CHR 0x5C) [0..<64]"
  unfolding b64_tbl_def b64DecodeChar_def b64_skip_def Let_def by code_simp

lemma sextet_less: "unat (w AND 0x3F :: u32) < 64"
proof -
  have "w AND 0x3F = take_bit 6 w" by (simp add: take_bit_eq_mask mask_eq_exp_minus_1)
  then show ?thesis
    using take_bit_nat_less_exp [of 6 "unat w"] by (simp add: unsigned_take_bit_eq)
qed

lemma b64_sym_facts:
  "b64DecodeChar (b64_sym n k) = uint (drop_bit k n AND 0x3F)"
  "\<not> b64_skip (b64_sym n k)"
  "b64_sym n k \<noteq> CHR 0x22" "b64_sym n k \<noteq> CHR 0x5C"
proof -
  have "list_all (\<lambda>k. P k) [0..<64] \<Longrightarrow> P (unat (drop_bit k n AND 0x3F))" for P
    using sextet_less [of "drop_bit k n"] by (simp add: list_all_iff)
  from this [OF b64_tbl_decode]
  show "b64DecodeChar (b64_sym n k) = uint (drop_bit k n AND 0x3F)" "\<not> b64_skip (b64_sym n k)"
    "b64_sym n k \<noteq> CHR 0x22" "b64_sym n k \<noteq> CHR 0x5C"
    by (simp_all add: b64_sym_def)
qed

text \<open>One table symbol enters the accumulator as its six bits.\<close>

lemma b64_loop_sym:
  "b64_loop buf bits out (b64_sym n k # cs) =
     (let buf = push_bit 6 buf OR (drop_bit k n AND 0x3F); bits = bits + 6
      in if 8 \<le> bits
         then b64_loop buf (bits - 8)
                (out @ [ucast (signed_drop_bit (bits - 8) buf AND 0xFF)]) cs
         else b64_loop buf bits out cs)"
  by (simp add: b64_sym_facts Let_def)

lemma b64_loop_pad: "b64_loop buf bits out (CHR ''='' # cs) = b64_loop buf bits out cs"
  by (simp add: b64_skip_def)

section \<open>Bits that reach the output\<close>

lemma bit_low_byte:
  "i < 8 \<Longrightarrow> k < 25 \<Longrightarrow> bit (ucast (signed_drop_bit k w AND 0xFF) :: u8) i = bit (w :: u32) (i + k)"
proof -
  assume i: "i < 8" and k: "k < 25"
  have "(0xFF :: u32) = mask 8" by (simp add: mask_eq_exp_minus_1)
  then have "bit (0xFF :: u32) i" using i by (simp only: bit_mask_iff) (simp add: possible_bit_def)
  moreover have "bit (signed_drop_bit k w) i = bit w (i + k)"
    using i k by (auto simp: bit_signed_drop_bit_iff add.commute)
  ultimately show ?thesis using i by (simp add: bit_ucast_iff bit_and_iff)
qed

lemma bit_sextet: "bit (drop_bit k w AND 0x3F :: u32) i \<longleftrightarrow> i < 6 \<and> bit w (i + k)"
proof -
  have "drop_bit k w AND 0x3F = take_bit 6 (drop_bit k w)"
    by (simp add: take_bit_eq_mask mask_eq_exp_minus_1)
  then show ?thesis by (auto simp: bit_take_bit_iff bit_drop_bit_eq add.commute)
qed

lemmas b64_bits = bit_sextet bit_or_iff bit_push_bit_iff bit_ucast_iff
  possible_bit_word

lemma b64_quad:
  defines "n a b c \<equiv> push_bit 16 (ucast (a :: u8)) OR push_bit 8 (ucast (b :: u8)) OR ucast (c :: u8) :: u32"
  shows "\<exists>buf'. b64_loop buf 0 out
     ([b64_sym (n a b c) 18, b64_sym (n a b c) 12, b64_sym (n a b c) 6, b64_sym (n a b c) 0] @ cs)
     = b64_loop buf' 0 (out @ [a, b, c]) cs"
proof -
  let ?n = "n a b c"
  let ?s = "\<lambda>k. drop_bit k ?n AND 0x3F :: u32"
  define b1 where "b1 = push_bit 6 buf OR ?s 18"
  define b2 where "b2 = push_bit 6 b1 OR ?s 12"
  define b3 where "b3 = push_bit 6 b2 OR ?s 6"
  define b4 where "b4 = push_bit 6 b3 OR ?s 0"
  have lt: "bit x i \<Longrightarrow> i < 8" for x :: u8 and i by (drule bit_imp_le_length) simp
  have ss: "2 \<le> i \<Longrightarrow> Suc (Suc (i - 2)) = i" for i :: nat by simp
  have A: "ucast (signed_drop_bit 4 b2 AND 0xFF) = a"
  proof (rule bit_word_eqI)
    fix i assume "i < LENGTH(8)"
    then have i: "i < 8" by simp
    then have "bit (ucast (signed_drop_bit 4 b2 AND 0xFF) :: u8) i = bit b2 (i + 4)"
      by (rule bit_low_byte) simp
    also have "\<dots> = bit a i"
      using i by (simp only: b2_def b1_def n_def b64_bits) (auto simp: ss dest: lt)
    finally show "bit (ucast (signed_drop_bit 4 b2 AND 0xFF) :: u8) i = bit a i" .
  qed
  have B: "ucast (signed_drop_bit 2 b3 AND 0xFF) = b"
  proof (rule bit_word_eqI)
    fix i assume "i < LENGTH(8)"
    then have i: "i < 8" by simp
    then have "bit (ucast (signed_drop_bit 2 b3 AND 0xFF) :: u8) i = bit b3 (i + 2)"
      by (rule bit_low_byte) simp
    also have "\<dots> = bit b i"
      using i by (simp only: b3_def b2_def n_def b64_bits) (auto simp: ss dest: lt)
    finally show "bit (ucast (signed_drop_bit 2 b3 AND 0xFF) :: u8) i = bit b i" .
  qed
  have C: "ucast (signed_drop_bit 0 b4 AND 0xFF) = c"
  proof (rule bit_word_eqI)
    fix i assume "i < LENGTH(8)"
    then have i: "i < 8" by simp
    then have "bit (ucast (signed_drop_bit 0 b4 AND 0xFF) :: u8) i = bit b4 (i + 0)"
      by (rule bit_low_byte) simp
    also have "\<dots> = bit c i"
      using i by (simp only: b4_def b3_def n_def b64_bits) (auto simp: ss dest: lt)
    finally show "bit (ucast (signed_drop_bit 0 b4 AND 0xFF) :: u8) i = bit c i" .
  qed
  have s1: "b64_loop buf 0 out (b64_sym ?n 18 # zs) = b64_loop b1 6 out zs" for zs
    by (simp only: b64_loop_sym Let_def b1_def [symmetric]) simp
  have s2: "b64_loop b1 6 out (b64_sym ?n 12 # zs) = b64_loop b2 4 (out @ [a]) zs" for zs
    using A by (simp only: b64_loop_sym Let_def b2_def [symmetric]) simp
  have s3: "b64_loop b2 4 o' (b64_sym ?n 6 # zs) = b64_loop b3 2 (o' @ [b]) zs" for o' zs
    using B by (simp only: b64_loop_sym Let_def b3_def [symmetric]) simp
  have s4: "b64_loop b3 2 o' (b64_sym ?n 0 # zs) = b64_loop b4 0 (o' @ [c]) zs" for o' zs
    using C by (simp only: b64_loop_sym Let_def b4_def [symmetric]) simp
  have "b64_loop buf 0 out ([b64_sym ?n 18, b64_sym ?n 12, b64_sym ?n 6, b64_sym ?n 0] @ cs)
      = b64_loop b4 0 (out @ [a, b, c]) cs"
    by (simp only: append_Cons append_Nil s1 s2 s3 s4) simp
  then show ?thesis by blast
qed

lemma b64_pair:
  fixes a b :: u8
  defines "n \<equiv> push_bit 16 (ucast a) OR push_bit 8 (ucast b) :: u32"
  shows "b64_loop buf 0 out [b64_sym n 18, b64_sym n 12, b64_sym n 6, CHR ''=''] = (True, out @ [a, b])"
proof -
  obtain buf' where "b64_loop buf 0 out ([b64_sym n 18, b64_sym n 12, b64_sym n 6, b64_sym n 0] @ [])
      = b64_loop buf' 0 (out @ [a, b, 0]) []"
    using b64_quad [of buf out a b 0 "[]"] by (auto simp: n_def)
  then show ?thesis
    by (auto simp: b64_loop_sym b64_loop_pad Let_def simp del: b64_loop.simps(2) signed_drop_bit_0)
qed

lemma b64_single:
  fixes a :: u8
  defines "n \<equiv> push_bit 16 (ucast a) :: u32"
  shows "b64_loop buf 0 out [b64_sym n 18, b64_sym n 12, CHR ''='', CHR ''=''] = (True, out @ [a])"
proof -
  obtain buf' where "b64_loop buf 0 out ([b64_sym n 18, b64_sym n 12, b64_sym n 6, b64_sym n 0] @ [])
      = b64_loop buf' 0 (out @ [a, 0, 0]) []"
    using b64_quad [of buf out a 0 0 "[]"] by (auto simp: n_def)
  then show ?thesis
    by (auto simp: b64_loop_sym b64_loop_pad Let_def simp del: b64_loop.simps(2) signed_drop_bit_0)
qed

section \<open>Round trip\<close>

lemma b64_loop_encode: "b64_loop buf 0 out (b64Encode bs) = (True, out @ bs)"
proof (induction bs arbitrary: buf out rule: b64Encode.induct)
  case (1 a b c r)
  let ?n = "push_bit 16 (ucast a) OR push_bit 8 (ucast b) OR ucast c :: u32"
  obtain buf' where "b64_loop buf 0 out (b64Encode (a # b # c # r))
      = b64_loop buf' 0 (out @ [a, b, c]) (b64Encode r)"
    using b64_quad [of buf out a b c "b64Encode r"] by (auto simp: Let_def)
  then show ?case using 1 by simp
next
  case (2 a b)
  then show ?case using b64_pair by (simp add: Let_def del: b64_loop.simps(2))
next
  case (3 a)
  then show ?case using b64_single by (simp add: Let_def del: b64_loop.simps(2))
qed simp

lemma b64_roundtrip: "b64Decode (b64Encode bs) = (True, bs)"
  by (simp add: b64Decode_def b64_loop_encode)

definition b64_read :: "string \<Rightarrow> bytes option" where
  "b64_read s = (case b64Decode s of (ok, out) \<Rightarrow> if ok then Some out else None)"

interpretation base64: codec b64Encode b64_read "\<lambda>_. True"
  by unfold_locales (simp add: b64_read_def b64_roundtrip)

text \<open>Four characters for every three bytes begun; none of them needs escaping in JSON.\<close>

lemma length_b64Encode [wire_simps]: "length (b64Encode bs) = 4 * ((length bs + 2) div 3)"
  by (induction bs rule: b64Encode.induct) (simp_all add: Let_def, presburger)

lemma b64Encode_plain: "CHR 0x22 \<notin> set (b64Encode bs) \<and> CHR 0x5C \<notin> set (b64Encode bs)"
  by (induction bs rule: b64Encode.induct) (auto simp: Let_def dest: b64_sym_facts(3,4) [THEN notE, OF sym])

text \<open>What decoding can yield for any text: at most six bits per character.\<close>

lemma b64_loop_length:
  "b64_loop buf bits out s = (ok, r) \<Longrightarrow> bits < 8 \<Longrightarrow>
   8 * length r \<le> 8 * length out + bits + 6 * length s"
proof (induction s arbitrary: buf bits out)
  case Nil
  then show ?case by simp
next
  case (Cons c cs)
  show ?case
  proof (cases "b64_skip c \<or> b64DecodeChar c < 0")
    case True
    then show ?thesis using Cons.prems Cons.IH [of buf bits out] by (auto simp: Let_def split: if_splits)
  next
    case False
    then show ?thesis
      using Cons.prems Cons.IH [of _ "bits - 2"] Cons.IH [of _ "bits + 6" out]
      by (fastforce simp: Let_def split: if_splits)
  qed
qed

section \<open>Properties\<close>

text \<open>Decoding an encoded payload gives the payload back, for every byte string; the text is
  four characters for every three bytes begun and needs no escaping inside a JSON string.\<close>

theorem base64_round_trip:
  "b64Decode (b64Encode bs) = (True, bs) \<and> length (b64Encode bs) = 4 * ((length bs + 2) div 3) \<and>
   CHR 0x22 \<notin> set (b64Encode bs) \<and> CHR 0x5C \<notin> set (b64Encode bs)"
  using b64_roundtrip length_b64Encode b64Encode_plain by blast

end
