(* ===== verification/Wire_Frames.thy ===== *)
theory Wire_Frames
  imports Base64
begin

text \<open>
  The transport of the dispatcher client (\<open>source/server/hooks/dispatcher/dispatcher_client.cpp\<close>):
  the socket loops \<open>sendAll\<close> and \<open>recvAll\<close>, the length-prefixed frames, and the two field
  extractors that read the daemon's flat JSON. A socket is the explicit sequence of what the
  network does to the calls: how many bytes each \<open>send\<close> takes, which chunk each \<open>recv\<close> finds.
\<close>

section \<open>Sockets\<close>

text \<open>\<open>recv\<close>: at most \<open>len\<close> bytes of the chunk that has arrived; an empty chunk, or none, is a
  closed connection, an error or a timeout (\<open>n \<le> 0\<close>).\<close>

fun recv1 :: "nat \<Rightarrow> bytes list \<Rightarrow> bytes \<times> bytes list" where
  "recv1 len [] = ([], [])"
| "recv1 len (c # cs) =
     (if length c \<le> len then (c, cs) else (take len c, drop len c # cs))"

function recvAll :: "nat \<Rightarrow> bytes list \<Rightarrow> bytes option \<times> bytes list" where
  "recvAll len rx =
     (if len = 0 then (Some [], rx)
      else case recv1 len rx of (b, rx') \<Rightarrow>
        if b = [] then (None, rx')
        else case recvAll (len - length b) rx' of
            (Some r, rx'') \<Rightarrow> (Some (b @ r), rx'')
          | (None, rx'') \<Rightarrow> (None, rx''))"
  by pat_completeness auto
termination
  by (relation "measure fst") auto

declare recvAll.simps [simp del]

text \<open>\<open>send\<close>: the number of bytes the network takes in this call; 0 is a failure.\<close>

function sendAll :: "bytes \<Rightarrow> nat list \<Rightarrow> bool \<times> bytes \<times> nat list" where
  "sendAll d tx =
     (if d = [] then (True, [], tx)
      else case tx of
        [] \<Rightarrow> (False, [], [])
      | n # tx' \<Rightarrow>
          (if n = 0 then (False, [], tx')
           else case sendAll (drop n d) tx' of (ok, w, tx'') \<Rightarrow> (ok, take n d @ w, tx'')))"
  by pat_completeness auto
termination
  by (relation "measure (\<lambda>(d, tx). length d)") auto

declare sendAll.simps [simp del]

lemma sendAll_prefix: "sendAll d tx = (ok, w, tx') \<Longrightarrow> prefix w d \<and> (ok \<longrightarrow> w = d)"
proof (induction d tx arbitrary: ok w tx' rule: sendAll.induct)
  case (1 d tx)
  show ?case
  proof (cases "d = [] \<or> tx = []")
    case True
    then show ?thesis using "1.prems" by (auto simp: sendAll.simps [of d tx] split: if_splits)
  next
    case False
    then obtain n tx1 where tx: "tx = n # tx1" and d: "d \<noteq> []" by (cases tx) auto
    show ?thesis
    proof (cases "n = 0")
      case True
      then show ?thesis using "1.prems" tx d by (auto simp: sendAll.simps [of d "0 # tx1"])
    next
      case n: False
      obtain ok1 w1 tx2 where r: "sendAll (drop n d) tx1 = (ok1, w1, tx2)" by (metis prod_cases3)
      have "prefix w1 (drop n d) \<and> (ok1 \<longrightarrow> w1 = drop n d)"
        using "1.IH" d tx n r by blast
      moreover have "ok = ok1" "w = take n d @ w1"
        using "1.prems" tx d n r by (auto simp: sendAll.simps [of d "n # tx1"])
      ultimately show ?thesis
        by (metis append_take_drop_id same_prefix_prefix)
    qed
  qed
qed

lemma recv1_facts:
  assumes "recv1 len rx = (b, rx')" and "0 < len" and "[] \<notin> set rx" and "concat rx \<noteq> []"
  shows "b \<noteq> []" "length b \<le> len" "concat rx = b @ concat rx'" "[] \<notin> set rx'"
proof -
  obtain c cs where "rx = c # cs" "c \<noteq> []" using assms(3,4) by (cases rx) auto
  then show "b \<noteq> []" "length b \<le> len" "concat rx = b @ concat rx'" "[] \<notin> set rx'"
    using assms by (auto split: if_splits)
qed

text \<open>However the network cuts the stream, \<open>recvAll\<close> returns its first \<open>len\<close> bytes.\<close>

lemma recvAll_stream:
  assumes "[] \<notin> set rx" and "len \<le> length (concat rx)"
  shows "\<exists>rx'. recvAll len rx = (Some (take len (concat rx)), rx') \<and>
    concat rx' = drop len (concat rx) \<and> [] \<notin> set rx'"
  using assms
proof (induction len rx rule: recvAll.induct)
  case (1 len rx)
  show ?case
  proof (cases "len = 0")
    case True
    then show ?thesis using 1 by (simp add: recvAll.simps [of 0 rx])
  next
    case False
    then have ne: "concat rx \<noteq> []" using "1.prems"(2) by (cases "concat rx = []") simp_all
    obtain b rx1 where r: "recv1 len rx = (b, rx1)" by (metis surj_pair)
    note f = recv1_facts [OF r _ "1.prems"(1) ne]
    have b: "b \<noteq> []" "length b \<le> len" "concat rx = b @ concat rx1" "[] \<notin> set rx1"
      using f False by auto
    have "len - length b \<le> length (concat rx1)" using b "1.prems"(2) by simp
    then obtain rx' where "recvAll (len - length b) rx1 = (Some (take (len - length b) (concat rx1)), rx')"
      "concat rx' = drop (len - length b) (concat rx1)" "[] \<notin> set rx'"
      using "1.IH" [OF False r [symmetric] b(1) b(4)] by blast
    then show ?thesis using False r b by (simp add: recvAll.simps [of len rx])
  qed
qed

section \<open>Frames\<close>

definition kMaxFrameBytes :: nat where
  "kMaxFrameBytes = 64 * 1024"

definition bytes_of :: "string \<Rightarrow> bytes" where
  "bytes_of = map (\<lambda>c. word_of_nat (of_char c))"

definition chars_of :: "bytes \<Rightarrow> string" where
  "chars_of = map (\<lambda>b. char_of (unat b))"

lemma chars_of_bytes_of [simp]: "chars_of (bytes_of s) = s"
proof -
  have "char_of (unat (word_of_nat (of_char c) :: u8)) = c" for c
    by (simp add: unat_of_nat)
  then show ?thesis by (simp add: chars_of_def bytes_of_def o_def)
qed

lemma length_bytes_of [simp, wire_simps]: "length (bytes_of s) = length s"
  by (simp add: bytes_of_def)

text \<open>\<open>sendFrame\<close>: the body's length as a little-endian \<open>uint32_t\<close> (truncated to 32 bits by the
  cast), then the body, only if the prefix went out.\<close>

definition frame_prefix :: "string \<Rightarrow> bytes" where
  "frame_prefix body = store_le 4 (word_of_nat (length body) :: u32)"

definition sendFrame :: "string \<Rightarrow> nat list \<Rightarrow> bool \<times> bytes \<times> nat list" where
  "sendFrame body tx =
     (case sendAll (frame_prefix body) tx of
        (ok, w, tx) \<Rightarrow>
          if \<not> ok then (False, w, tx)
          else case sendAll (bytes_of body) tx of (ok2, w2, tx) \<Rightarrow> (ok2, w @ w2, tx))"

definition recvFrame :: "bytes list \<Rightarrow> string option \<times> bytes list" where
  "recvFrame rx =
     (case recvAll 4 rx of
        (None, rx) \<Rightarrow> (None, rx)
      | (Some p, rx) \<Rightarrow>
          (let len = unat (load_le p :: u32)
           in if len = 0 \<or> kMaxFrameBytes < len then (None, rx)
              else case recvAll len rx of
                  (None, rx) \<Rightarrow> (None, rx)
                | (Some b, rx) \<Rightarrow> (Some (chars_of b), rx)))"

lemma length_frame_prefix [simp, wire_simps]: "length (frame_prefix body) = 4"
  by (simp add: frame_prefix_def)

lemma load_frame_prefix:
  "length body < 2 ^ 32 \<Longrightarrow> unat (load_le (frame_prefix body) :: u32) = length body"
  by (simp add: frame_prefix_def load_store_le unat_of_nat)

lemma sendFrame_wire:
  "sendFrame body tx = (True, w, tx') \<Longrightarrow> w = frame_prefix body @ bytes_of body"
  by (auto simp: sendFrame_def split: prod.splits if_splits dest!: sendAll_prefix)

lemma recvFrame_wire:
  assumes "[] \<notin> set rx" and "concat rx = frame_prefix body @ bytes_of body @ rest"
    and "body \<noteq> []" and "length body \<le> kMaxFrameBytes"
  shows "\<exists>rx'. recvFrame rx = (Some body, rx') \<and> concat rx' = rest \<and> [] \<notin> set rx'"
proof -
  have l: "length body < 2 ^ 32" using assms(4) by (simp add: kMaxFrameBytes_def)
  have "4 \<le> length (concat rx)" by (simp add: assms(2))
  then obtain rx1 where r1: "recvAll 4 rx = (Some (frame_prefix body), rx1)"
    and c1: "concat rx1 = bytes_of body @ rest" and n1: "[] \<notin> set rx1"
    using recvAll_stream [OF assms(1), of 4] assms(2) by auto
  have "length body \<le> length (concat rx1)" by (simp add: c1)
  then obtain rx2 where "recvAll (length body) rx1 = (Some (bytes_of body), rx2)"
    "concat rx2 = rest" "[] \<notin> set rx2"
    using recvAll_stream [OF n1, of "length body"] c1 by auto
  then show ?thesis
    using r1 assms(3,4) l by (simp add: recvFrame_def load_frame_prefix Let_def)
qed

lemma recvFrame_oversize:
  assumes "[] \<notin> set rx" and "concat rx = frame_prefix body @ rest"
    and "kMaxFrameBytes < length body" and "length body < 2 ^ 32"
  shows "fst (recvFrame rx) = None"
proof -
  obtain rx1 where "recvAll 4 rx = (Some (frame_prefix body), rx1)"
    using recvAll_stream [OF assms(1), of 4] assms(2) by auto
  then show ?thesis using assms(3,4) by (simp add: recvFrame_def load_frame_prefix Let_def)
qed

text \<open>A frame written whole is read whole: the frame format is a codec on one-chunk streams.\<close>

definition frame_bytes :: "string \<Rightarrow> bytes" where
  "frame_bytes body = frame_prefix body @ bytes_of body"

interpretation frame: codec frame_bytes "\<lambda>w. fst (recvFrame [w])"
    "\<lambda>body. body \<noteq> [] \<and> length body \<le> kMaxFrameBytes"
proof unfold_locales
  fix v :: string assume v: "v \<noteq> [] \<and> length v \<le> kMaxFrameBytes"
  have "[] \<notin> set [frame_bytes v]" "concat [frame_bytes v] = frame_prefix v @ bytes_of v @ []"
    using v by (auto simp: frame_bytes_def bytes_of_def)
  from recvFrame_wire [OF this] v show "fst (recvFrame [frame_bytes v]) = Some v" by auto
qed

section \<open>Fields of a flat JSON object\<close>

definition quote :: char where
  "quote = CHR 0x22"

definition backslash :: char where
  "backslash = CHR 0x5C"

definition json_needle :: "string \<Rightarrow> string" where
  "json_needle key = quote # key @ [quote, CHR '':'']"

text \<open>\<open>while (body[i] >= '0' && body[i] <= '9')\<close>: the accumulator is a \<open>uint64_t\<close> that is
  rejected as soon as it passes \<open>0xFFFFFFFF\<close>, so it never wraps.\<close>

fun u32_digits :: "nat \<Rightarrow> bool \<Rightarrow> string \<Rightarrow> nat option" where
  "u32_digits acc any [] = (if any then Some acc else None)"
| "u32_digits acc any (c # cs) =
     (if is_digit c
      then let acc = acc * 10 + digit_val c
        in if 0xFFFFFFFF < acc then None else u32_digits acc True cs
      else if any then Some acc else None)"

definition extractU32Field :: "string \<Rightarrow> string \<Rightarrow> u32 option" where
  "extractU32Field body key =
     (case str_find (json_needle key) body of
        None \<Rightarrow> None
      | Some k \<Rightarrow>
          map_option word_of_nat
            (u32_digits 0 False
              (dropWhile (\<lambda>c. c = CHR '' '' \<or> c = CHR 0x09)
                (drop (k + length (json_needle key)) body))))"

text \<open>The string scan: the flag says whether the closing quote was found; the text is what has
  been appended to \<open>out\<close> either way, which callers that ignore the flag go on to use.\<close>

fun string_scan :: "string \<Rightarrow> bool \<times> string" where
  "string_scan [] = (False, [])"
| "string_scan [c] = (if c = quote then (True, []) else (False, [c]))"
| "string_scan (c # n # cs) =
     (if c = backslash
      then case string_scan cs of (ok, r) \<Rightarrow>
          (ok, (if n = CHR ''n'' then CHR 0x0A else if n = CHR ''t'' then CHR 0x09 else n) # r)
      else if c = quote then (True, [])
      else case string_scan (n # cs) of (ok, r) \<Rightarrow> (ok, c # r))"

definition extractStringField :: "string \<Rightarrow> string \<Rightarrow> string \<Rightarrow> bool \<times> string" where
  "extractStringField body key out =
     (case str_find (json_needle key @ [quote]) body of
        None \<Rightarrow> (False, out)
      | Some k \<Rightarrow> string_scan (drop (k + length (json_needle key @ [quote])) body))"

definition json_plain :: "string \<Rightarrow> bool" where
  "json_plain s \<longleftrightarrow> quote \<notin> set s \<and> backslash \<notin> set s"

lemma string_scan_plain: "json_plain s \<Longrightarrow> string_scan (s @ quote # rest) = (True, s)"
proof (induction s)
  case Nil
  then show ?case by (cases rest) (simp_all add: quote_def backslash_def)
next
  case (Cons c s)
  then obtain n cs where "s @ quote # rest = n # cs" by (cases s) auto
  with Cons show ?case by (auto simp: json_plain_def)
qed

lemma string_scan_unterminated: "json_plain s \<Longrightarrow> string_scan s = (False, s)"
proof (induction s rule: string_scan.induct)
  case (3 c n cs)
  then show ?case by (auto simp: json_plain_def)
qed (auto simp: json_plain_def)

lemma string_scan_length: "string_scan s = (ok, r) \<Longrightarrow> length r \<le> length s"
  by (induction s arbitrary: ok r rule: string_scan.induct)
     (fastforce split: if_splits prod.splits)+

lemma u32_digits_bound: "u32_digits acc any s = Some n \<Longrightarrow> acc \<le> 0xFFFFFFFF \<Longrightarrow> n \<le> 0xFFFFFFFF"
  by (induction acc any s rule: u32_digits.induct) (auto simp: Let_def split: if_splits)

lemma foldl_dec_mono: "acc \<le> foldl (\<lambda>a c. a * 10 + digit_val c) acc ds"
proof (induction ds arbitrary: acc)
  case Nil
  then show ?case by simp
next
  case (Cons d ds)
  have "acc \<le> acc * 10 + digit_val d" by simp
  also have "\<dots> \<le> foldl (\<lambda>a c. a * 10 + digit_val c) (acc * 10 + digit_val d) ds" by (rule Cons)
  finally show ?case by simp
qed

lemma u32_digits_dec:
  assumes "list_all is_digit ds" and "rest = [] \<or> \<not> is_digit (hd rest)"
    and "foldl (\<lambda>a c. a * 10 + digit_val c) acc ds \<le> 0xFFFFFFFF" and "any \<or> ds \<noteq> []"
  shows "u32_digits acc any (ds @ rest) = Some (foldl (\<lambda>a c. a * 10 + digit_val c) acc ds)"
  using assms
proof (induction ds arbitrary: acc any)
  case Nil
  then show ?case by (cases rest) auto
next
  case (Cons d ds)
  have "acc * 10 + digit_val d \<le> 0xFFFFFFFF"
    using Cons.prems(3) foldl_dec_mono [of "acc * 10 + digit_val d" ds] by simp
  then show ?case using Cons by (simp add: Let_def)
qed

lemma extractU32Field_at:
  assumes "str_find (json_needle key) body = Some k"
    and "drop (k + length (json_needle key)) body = fmt_u (v :: u32) @ c # rest"
    and "\<not> is_digit c"
  shows "extractU32Field body key = Some v"
proof -
  have ds: "list_all is_digit (fmt_u v)" by (simp add: fmt_u_def dec_digits)
  then obtain d ds' where d: "fmt_u v = d # ds'" "is_digit d"
    by (cases "fmt_u v") (auto simp: fmt_u_def)
  have "dropWhile (\<lambda>c. c = CHR '' '' \<or> c = CHR 0x09) (fmt_u v @ c # rest) = fmt_u v @ c # rest"
    using d by (auto simp: is_digit_def)
  moreover have "foldl (\<lambda>a c. a * 10 + digit_val c) 0 (fmt_u v) = unat v"
    by (simp add: fmt_u_def dec_value)
  moreover have "unat v \<le> 0xFFFFFFFF"
    by (rule unat_u32_bound)
  ultimately have "u32_digits 0 False (fmt_u v @ c # rest) = Some (unat v)"
    using u32_digits_dec [OF ds, of "c # rest" 0 False] assms(3) d by auto
  then show ?thesis
    using assms(1,2) \<open>dropWhile _ _ = _\<close> by (simp add: extractU32Field_def)
qed

section \<open>Properties\<close>

text \<open>C6: A frame that was written is read back whole however the stack splits the bytes on the way
  out and on the way in, and what follows it in the stream is left for the next read.\<close>

theorem frame_survives_fragmentation:
  assumes "sendFrame body tx = (True, w, tx')" and "[] \<notin> set rx" and "concat rx = w @ rest"
    and "body \<noteq> []" and "length body \<le> kMaxFrameBytes"
  shows "\<exists>rx'. recvFrame rx = (Some body, rx') \<and> concat rx' = rest"
  using recvFrame_wire [OF assms(2) _ assms(4,5)] sendFrame_wire [OF assms(1)] assms(3) by auto

theorem frame_survives_fragmentation_witness:
  "\<exists>rx'. recvFrame [[2, 0, 0], [0, 104], [105, 1], [2]] = (Some ''hi'', rx') \<and> concat rx' = [1, 2]"
proof (rule frame_survives_fragmentation)
  show "sendFrame ''hi'' [1, 3, 2] = (True, [2, 0, 0, 0, 104, 105], [])" by code_simp
qed (simp_all add: kMaxFrameBytes_def)

end
