(* ===== verification/Json_Fields.thy ===== *)
theory Json_Fields
  imports Wire_Frames
begin

text \<open>
  The frames both ends of the dispatcher exchange are flat JSON objects. This theory gives their
  text once, as an object of string and number fields, and shows that the substring-searching
  extractors of the client find exactly the field they look for in every such object: each frame
  builder and each reply is an instance.
\<close>

datatype jval = JStr string | JNum nat

text \<open>A string literal: the sources paste it between quotes without escaping.\<close>

definition jstr :: "string \<Rightarrow> string" where
  "jstr s = quote # s @ [quote]"

fun jtext :: "jval \<Rightarrow> string" where
  "jtext (JStr s) = jstr s"
| "jtext (JNum n) = dec n"

fun jfields :: "(string \<times> jval) list \<Rightarrow> string" where
  "jfields [] = ''}''"
| "jfields [(k, v)] = jstr k @ CHR '':'' # jtext v @ ''}''"
| "jfields ((k, v) # f # fs) = jstr k @ CHR '':'' # jtext v @ CHR '','' # jfields (f # fs)"

definition json_obj :: "(string \<times> jval) list \<Rightarrow> string" where
  "json_obj fs = CHR ''{'' # jfields fs"

text \<open>Keys are identifiers; string values hold no quote and no backslash.\<close>

definition key_ok :: "string \<Rightarrow> bool" where
  "key_ok k \<longleftrightarrow> k \<noteq> [] \<and> quote \<notin> set k \<and> CHR '':'' \<notin> set k \<and> CHR '','' \<notin> set k \<and> CHR ''}'' \<notin> set k"

fun jval_ok :: "jval \<Rightarrow> bool" where
  "jval_ok (JStr s) = json_plain s"
| "jval_ok (JNum n) = (n \<le> 0xFFFFFFFF)"

definition fields_ok :: "(string \<times> jval) list \<Rightarrow> bool" where
  "fields_ok fs \<longleftrightarrow> list_all (\<lambda>(k, v). key_ok k \<and> jval_ok v) fs"

lemma prefix_upto_quote:
  "quote \<notin> set a \<Longrightarrow> quote \<notin> set b \<Longrightarrow> prefix (a @ quote # x) (b @ quote # y) \<Longrightarrow> a = b \<and> prefix x y"
proof (induction a arbitrary: b)
  case Nil
  then show ?case by (cases b) auto
next
  case (Cons c a)
  then show ?case by (cases b) auto
qed

lemma key_hd: "key_ok key \<Longrightarrow> \<exists>h t. key = h # t \<and> h \<noteq> quote \<and> h \<noteq> CHR '':'' \<and> h \<noteq> CHR '','' \<and> h \<noteq> CHR ''}''"
  by (cases key) (auto simp: key_ok_def)

text \<open>A needle starts with a quote and the key; whatever follows is \<open>z\<close>.\<close>

lemma skip_quoted_key:
  assumes "key_ok key" and "key_ok k" and "k \<noteq> key"
  shows "str_find (quote # key @ quote # z) (jstr k @ CHR '':'' # r) =
    map_option ((+) (length (jstr k) + 1)) (str_find (quote # key @ quote # z) r)"
proof -
  obtain h t where key: "key = h # t" "h \<noteq> quote" "h \<noteq> CHR '':''" using key_hd [OF assms(1)] by blast
  have np: "\<not> prefix (key @ quote # z) (k @ quote # CHR '':'' # r)"
    using assms prefix_upto_quote [of key k z "CHR '':'' # r"] by (auto simp: key_ok_def)
  have "str_find (quote # key @ quote # z) (k @ quote # CHR '':'' # r) =
      map_option ((+) (length k)) (str_find (quote # key @ quote # z) (quote # CHR '':'' # r))"
    using assms(2) by (intro str_find_skip) (simp add: key_ok_def)
  also have "str_find (quote # key @ quote # z) (quote # CHR '':'' # r) =
      map_option ((+) 2) (str_find (quote # key @ quote # z) r)"
    using key by (cases "str_find (quote # key @ quote # z) r") (auto simp: quote_def)
  finally show ?thesis
    using np by (cases "str_find (quote # key @ quote # z) r") (auto simp: jstr_def)
qed

lemma skip_value:
  assumes "key_ok key" and "jval_ok v" and "s = CHR '','' \<or> s = CHR ''}''" and "prefix [CHR '':''] z"
  shows "str_find (quote # key @ quote # z) (jtext v @ s # r) =
    map_option ((+) (length (jtext v) + 1)) (str_find (quote # key @ quote # z) r)"
proof (cases v)
  case (JNum n)
  have "quote \<notin> set (dec n @ [s])"
    using dec_digits [of n] assms(3) by (auto simp: list_all_iff is_digit_def quote_def)
  from str_find_skip [OF this, of "key @ quote # z" r] show ?thesis by (simp add: JNum)
next
  case (JStr w)
  obtain h t where key: "key = h # t" "h \<noteq> quote" "h \<noteq> CHR '','' " "h \<noteq> CHR ''}''"
    using key_hd [OF assms(1)] by blast
  have w: "quote \<notin> set w" using assms(2) JStr by (simp add: json_plain_def)
  have np: "\<not> prefix (key @ quote # z) (w @ quote # s # r)"
    using assms prefix_upto_quote [of key w z "s # r"] w by (auto simp: key_ok_def prefix_Cons)
  have "str_find (quote # key @ quote # z) (w @ quote # s # r) =
      map_option ((+) (length w)) (str_find (quote # key @ quote # z) (quote # s # r))"
    using w by (intro str_find_skip)
  also have "str_find (quote # key @ quote # z) (quote # s # r) =
      map_option ((+) 2) (str_find (quote # key @ quote # z) r)"
    using key assms(3) by (cases "str_find (quote # key @ quote # z) r") (auto simp: quote_def)
  finally show ?thesis
    using np JStr by (cases "str_find (quote # key @ quote # z) r") (auto simp: jstr_def)
qed

lemma drop_prefix_add: "drop (length p + q) (p @ r) = drop q r"
  by simp

lemma drop_key: "drop (length key + 3) (a # key @ b # c # r) = r"
  by (simp add: numeral_eq_Suc)

text \<open>The key of a field that is present is found in front of its value.\<close>

lemma find_field:
  assumes "key_ok key" and "fields_ok fs" and "map_of fs key = Some v" and "prefix [CHR '':''] z"
    and "\<And>r. prefix z (CHR '':'' # jtext v @ r)"
  shows "\<exists>k s r. str_find (quote # key @ quote # z) (jfields fs) = Some k \<and> s \<in> {CHR '','', CHR ''}''}
    \<and> drop (k + length key + 3) (jfields fs) = jtext v @ s # r"
  using assms(2,3)
proof (induction fs rule: jfields.induct)
  case 1
  then show ?case by simp
next
  case (2 k w)
  then have kw: "k = key" "w = v" by (auto split: if_splits)
  have "str_find (quote # key @ quote # z) (jfields [(k, w)]) = Some 0"
    using assms(5) by (simp add: kw jstr_def)
  moreover have "drop (0 + length key + 3) (jfields [(k, w)]) = jtext v @ CHR ''}'' # []"
    by (simp add: kw jstr_def drop_key)
  ultimately show ?case by blast
next
  case (3 k w f fs)
  have ok: "key_ok k" "jval_ok w" "fields_ok (f # fs)" using "3.prems"(1) by (auto simp: fields_ok_def)
  show ?case
  proof (cases "k = key")
    case True
    then have kw: "k = key" "w = v" using "3.prems"(2) by auto
    have "str_find (quote # key @ quote # z) (jfields ((k, w) # f # fs)) = Some 0"
      using assms(5) by (simp add: kw jstr_def)
    moreover have "drop (0 + length key + 3) (jfields ((k, w) # f # fs)) =
        jtext v @ CHR '','' # jfields (f # fs)"
      by (simp add: kw jstr_def drop_key)
    ultimately show ?thesis by blast
  next
    case False
    then have "map_of (f # fs) key = Some v" using "3.prems"(2) by simp
    from "3.IH" [OF ok(3) this] obtain j s r where
      j: "str_find (quote # key @ quote # z) (jfields (f # fs)) = Some j" "s \<in> {CHR '','', CHR ''}''}"
        "drop (j + length key + 3) (jfields (f # fs)) = jtext v @ s # r"
      by blast
    let ?n = "length (jstr k) + 1 + (length (jtext w) + 1)"
    have "str_find (quote # key @ quote # z) (jfields ((k, w) # f # fs)) = Some (?n + j)"
      using skip_quoted_key [OF assms(1) ok(1) False, of z "jtext w @ CHR '','' # jfields (f # fs)"]
        skip_value [OF assms(1) ok(2) _ assms(4), of "CHR '',''" "jfields (f # fs)"] j(1) by simp
    moreover have "drop (?n + j + length key + 3) (jfields ((k, w) # f # fs)) =
        drop (j + length key + 3) (jfields (f # fs))"
    proof -
      let ?p = "jstr k @ CHR '':'' # jtext w @ '',''"
      have "jfields ((k, w) # f # fs) = ?p @ jfields (f # fs)" by simp
      moreover have "drop (length ?p + (j + length key + 3)) (?p @ jfields (f # fs)) =
          drop (j + length key + 3) (jfields (f # fs))"
        by (rule drop_prefix_add)
      ultimately show ?thesis by (simp add: add.assoc)
    qed
    ultimately show ?thesis using j(2,3) by metis
  qed
qed

lemma extract_string_json:
  assumes "key_ok key" and "fields_ok fs" and "map_of fs key = Some (JStr v)"
  shows "extractStringField (json_obj fs) key out = (True, v)"
proof -
  have v: "json_plain v"
    using assms(2,3) by (auto simp: fields_ok_def list_all_iff dest!: map_of_SomeD)
  have "prefix [CHR '':''] [CHR '':'', quote]" by simp
  moreover have "prefix [CHR '':'', quote] (CHR '':'' # jtext (JStr v) @ r)" for r
    by (simp add: jstr_def)
  ultimately obtain k s r where k: "str_find (quote # key @ quote # [CHR '':'', quote]) (jfields fs) = Some k"
    and d: "drop (k + length key + 3) (jfields fs) = jtext (JStr v) @ s # r"
    using find_field [OF assms] by blast
  have f: "str_find (quote # key @ [quote, CHR '':'', quote]) (json_obj fs) = Some (Suc k)"
    using k by (simp add: json_obj_def quote_def)
  have "drop (k + length key + 4) (jfields fs) = v @ quote # s # r"
    using arg_cong [OF d, of "drop 1"] by (simp add: jstr_def add.commute)
  then have "drop (Suc k + length (json_needle key @ [quote])) (json_obj fs) = v @ quote # s # r"
    by (simp add: json_obj_def json_needle_def add.assoc add.left_commute numeral_eq_Suc)
  moreover have "str_find (json_needle key @ [quote]) (json_obj fs) = Some (Suc k)"
    using f by (simp add: json_needle_def)
  ultimately show ?thesis
    using string_scan_plain [OF v] by (simp only: extractStringField_def option.case)
qed

lemma extract_u32_json:
  assumes "key_ok key" and "fields_ok fs" and "map_of fs key = Some (JNum (unat (v :: u32)))"
  shows "extractU32Field (json_obj fs) key = Some v"
proof -
  have "prefix [CHR '':''] [CHR '':'']" "\<And>r. prefix [CHR '':''] (CHR '':'' # jtext (JNum (unat v)) @ r)"
    by simp_all
  from find_field [OF assms this] obtain k s r where
    k: "str_find (quote # key @ quote # [CHR '':'']) (jfields fs) = Some k"
    and s: "s \<in> {CHR '','', CHR ''}''}"
    and d: "drop (k + length key + 3) (jfields fs) = jtext (JNum (unat v)) @ s # r"
    by blast
  show ?thesis
  proof (rule extractU32Field_at)
    show "str_find (json_needle key) (json_obj fs) = Some (Suc k)"
      using k by (simp add: json_needle_def json_obj_def quote_def)
    show "drop (Suc k + length (json_needle key)) (json_obj fs) = fmt_u v @ s # r"
      using d by (simp add: json_needle_def json_obj_def fmt_u_def add.assoc numeral_eq_Suc)
    show "\<not> is_digit s" using s by (auto simp: is_digit_def)
  qed
qed

end
