(* ===== verification/Dispatcher_Client.thy ===== *)
theory Dispatcher_Client
  imports Json_Fields
begin

text \<open>
  The session layer of the dispatcher client
  (\<open>source/server/hooks/dispatcher/dispatcher_client.cpp\<close>): the bounded send queue shared by the
  producers, the table of pending resolve callbacks, the handling of one inbound frame, one turn of
  the session loop, a whole session and the reconnect loop with its back-off. Threads appear as
  the order of the operations on the state; what the network and the clock do in a turn is an
  argument of the turn. Logging that changes no state is left out, except that an inbound frame's
  outcome is a value, so that every branch of \<open>dispatchFrame\<close> is visible.
\<close>

section \<open>State\<close>

text \<open>\<open>'cb\<close> is the type of the resolve callbacks; a delivery callback is only known to be set.\<close>

record 'cb disp =
  queue :: "string list"
  sessionUp :: bool
  deliveryCb :: bool
  resolveCbs :: "u32 \<Rightarrow> 'cb option"

definition disp_init :: "'cb disp" where
  "disp_init = \<lparr>queue = [], sessionUp = False, deliveryCb = False, resolveCbs = (\<lambda>_. None)\<rparr>"

definition kSendQueueMax :: nat where
  "kSendQueueMax = 256"

definition kPingIntervalMs :: nat where
  "kPingIntervalMs = 30000"

record disp_config =
  world_id :: u32
  sector_claims :: "u32 list"

section \<open>Frame bodies\<close>

definition deterministicUuid :: "u32 \<Rightarrow> string" where
  "deterministicUuid w = snprintf_out 64 (''00000000-0000-0000-0000-'' @ hex_fixed True 12 (unat w))"

definition hello_body :: "disp_config \<Rightarrow> string" where
  "hello_body cfg =
     ''{'' @ jstr ''type'' @ '':'' @ jstr ''hello'' @ '','' @ jstr ''world_id'' @ '':'' @ fmt_u (world_id cfg)
     @ '','' @ jstr ''server_uuid'' @ '':'' @ jstr (deterministicUuid (world_id cfg))
     @ '','' @ jstr ''proto_version'' @ '':1}''"

definition claim_body :: "u32 \<Rightarrow> string" where
  "claim_body sid =
     ''{'' @ jstr ''type'' @ '':'' @ jstr ''claim_sector'' @ '','' @ jstr ''world_sector_id'' @ '':''
     @ fmt_u sid @ ''}''"

definition resolve_body :: "u32 \<Rightarrow> string" where
  "resolve_body sid =
     ''{'' @ jstr ''type'' @ '':'' @ jstr ''resolve_sector'' @ '','' @ jstr ''world_sector_id'' @ '':''
     @ fmt_u sid @ ''}''"

definition ping_body :: "u64 \<Rightarrow> string" where
  "ping_body ts = ''{'' @ jstr ''type'' @ '':'' @ jstr ''ping'' @ '','' @ jstr ''ts'' @ '':'' @ fmt_u ts @ ''}''"

definition forward_body :: "string \<Rightarrow> bytes \<Rightarrow> string" where
  "forward_body target payload =
     ''{'' @ jstr ''type'' @ '':'' @ jstr ''forward'' @ '','' @ jstr ''target_peer_id'' @ '':'' @ jstr target
     @ '','' @ jstr ''payload_b64'' @ '':'' @ jstr (b64Encode payload) @ ''}''"

text \<open>A body formatted into a fixed buffer is used only when it fits.\<close>

definition fits :: "nat \<Rightarrow> string \<Rightarrow> bool" where
  "fits cap s \<longleftrightarrow> 0 < snprintf_ret s \<and> snprintf_ret s < cap"

section \<open>Producers\<close>

definition setDeliveryCallback :: "'cb disp \<Rightarrow> 'cb disp" where
  "setDeliveryCallback s = s\<lparr>deliveryCb := True\<rparr>"

definition sendTo :: "string \<Rightarrow> bytes \<Rightarrow> 'cb disp \<Rightarrow> bool \<times> 'cb disp" where
  "sendTo target payload s =
     (if \<not> sessionUp s then (False, s)
      else let body = forward_body target payload
        in if kSendQueueMax \<le> length (queue s) then (False, s)
           else (True, s\<lparr>queue := queue s @ [body]\<rparr>))"

definition resolveSector :: "u32 \<Rightarrow> 'cb \<Rightarrow> 'cb disp \<Rightarrow> bool \<times> 'cb disp" where
  "resolveSector sid cb s =
     (if \<not> sessionUp s then (False, s)
      else
        let s = s\<lparr>resolveCbs := (resolveCbs s)(sid := Some cb)\<rparr>;
            body = resolve_body sid
        in if \<not> fits 96 body then (False, s)
           else if kSendQueueMax \<le> length (queue s)
           then (False, s\<lparr>resolveCbs := (resolveCbs s)(sid := None)\<rparr>)
           else (True, s\<lparr>queue := queue s @ [snprintf_out 96 body]\<rparr>))"

section \<open>Inbound frames\<close>

record resolve_result =
  rr_sector :: u32
  rr_known :: bool
  rr_peer :: string

datatype 'cb outcome =
    MissingType
  | Pong
  | ForwardError string string
  | BadBase64 string
  | Deliver string bytes
  | DeliverNoCallback string nat
  | SectorClaimed u32 string
  | Resolved 'cb resolve_result
  | NoWaiter resolve_result
  | UnknownType string

definition u32_or_0 :: "string \<Rightarrow> string \<Rightarrow> u32" where
  "u32_or_0 body key = (case extractU32Field body key of Some v \<Rightarrow> v | None \<Rightarrow> 0)"

definition dispatchFrame :: "string \<Rightarrow> 'cb disp \<Rightarrow> 'cb outcome \<times> 'cb disp" where
  "dispatchFrame body s =
     (case extractStringField body ''type'' [] of
        (False, _) \<Rightarrow> (MissingType, s)
      | (True, ty) \<Rightarrow>
          if ty = ''pong'' then (Pong, s)
          else if ty = ''forward_error'' then
            (ForwardError (snd (extractStringField body ''reason'' []))
               (snd (extractStringField body ''target_peer_id'' [])), s)
          else if ty = ''delivery'' then
            (let from = snd (extractStringField body ''from_peer_id'' []);
                 b64 = snd (extractStringField body ''payload_b64'' [])
             in case b64Decode b64 of
                  (False, _) \<Rightarrow> (BadBase64 from, s)
                | (True, payload) \<Rightarrow>
                    (if deliveryCb s then Deliver from payload
                     else DeliverNoCallback from (length payload), s))
          else if ty = ''sector_claimed'' then
            (SectorClaimed (u32_or_0 body ''world_sector_id'')
               (snd (extractStringField body ''peer_id'' [])), s)
          else if ty = ''sector_resolved'' \<or> ty = ''sector_unknown'' then
            (let known = (ty = ''sector_resolved'');
                 sid = u32_or_0 body ''world_sector_id'';
                 peer = (if known then snd (extractStringField body ''peer_id'' []) else []);
                 r = \<lparr>rr_sector = sid, rr_known = known, rr_peer = peer\<rparr>
             in case resolveCbs s sid of
                  Some cb \<Rightarrow> (Resolved cb r, s\<lparr>resolveCbs := (resolveCbs s)(sid := None)\<rparr>)
                | None \<Rightarrow> (NoWaiter r, s))
          else (UnknownType ty, s))"

section \<open>The session loop\<close>

text \<open>What one turn of the loop meets: how many frames of the batch go out (\<open>None\<close>: all of them),
  the three readings of the clock, whether the ping goes out, the result of \<open>select\<close>, and the
  frame \<open>recvFrame\<close> returns.\<close>

record turn =
  t_sent :: "nat option"
  t_now :: nat
  t_ts :: u64
  t_ping_ok :: bool
  t_now2 :: nat
  t_select :: int
  t_frame :: "string option"

record sess =
  last_ping :: nat
  had_ping :: bool
  alive :: bool

text \<open>Writing the batch: the frames that went out, and whether the socket survived.\<close>

definition drain :: "nat option \<Rightarrow> string list \<Rightarrow> string list \<times> bool" where
  "drain sent batch =
     (case sent of None \<Rightarrow> (batch, True)
      | Some k \<Rightarrow> if k < length batch then (take k batch, False) else (batch, True))"

text \<open>One turn: the frames written in order, the outcome of the inbound frame if one was read, the
  session's and the client's next state.\<close>

definition session_turn ::
  "turn \<Rightarrow> sess \<Rightarrow> 'cb disp \<Rightarrow> string list \<times> 'cb outcome option \<times> sess \<times> 'cb disp" where
  "session_turn t ss s =
     (let batch = queue s;
          s = s\<lparr>queue := []\<rparr>;
          (w, ok) = drain (t_sent t) batch
      in if \<not> ok then (w, None, ss\<lparr>alive := False\<rparr>, s)
         else
           let due = (kPingIntervalMs \<le> t_now t - last_ping ss) \<and> fits 64 (ping_body (t_ts t));
               pings = (if due \<and> t_ping_ok t then [ping_body (t_ts t)] else []);
               w = w @ pings
           in if due \<and> \<not> t_ping_ok t then (w, None, ss\<lparr>alive := False\<rparr>, s)
              else
                let ss = (if due then ss\<lparr>last_ping := t_now2 t\<rparr> else ss)
                in if t_select t < 0 then (w, None, ss\<lparr>alive := False\<rparr>, s)
                   else if t_select t = 0 then (w, None, ss, s)
                   else (case t_frame t of
                       None \<Rightarrow> (w, None, ss\<lparr>alive := False\<rparr>, s)
                     | Some f \<Rightarrow>
                         (let (oc, s) = dispatchFrame f s
                          in (w, Some oc, ss\<lparr>had_ping := True\<rparr>, s))))"

text \<open>Between two turns other threads may enqueue: a session is a list of turns and of producer
  calls, in the order they take effect. It stops at the first turn that ends it.\<close>

datatype 'cb event =
    Turn turn
  | SendTo string bytes
  | Resolve u32 'cb

fun session_loop ::
  "'cb event list \<Rightarrow> sess \<Rightarrow> 'cb disp \<Rightarrow> string list \<times> 'cb outcome list \<times> sess \<times> 'cb disp" where
  "session_loop [] ss s = ([], [], ss, s)"
| "session_loop (SendTo p b # es) ss s = session_loop es ss (snd (sendTo p b s))"
| "session_loop (Resolve sid cb # es) ss s = session_loop es ss (snd (resolveSector sid cb s))"
| "session_loop (Turn t # es) ss s =
     (case session_turn t ss s of
        (w, oc, ss', s') \<Rightarrow>
          if \<not> alive ss' then (w, (case oc of None \<Rightarrow> [] | Some x \<Rightarrow> [x]), ss', s')
          else case session_loop es ss' s' of
              (w2, ocs, ss2, s2) \<Rightarrow> (w @ w2, (case oc of None \<Rightarrow> ocs | Some x \<Rightarrow> x # ocs), ss2, s2))"

text \<open>The automatic claims at the start of a session go through the same bounded queue.\<close>

fun queue_claims :: "u32 list \<Rightarrow> 'cb disp \<Rightarrow> 'cb disp" where
  "queue_claims [] s = s"
| "queue_claims (sid # sids) s =
     queue_claims sids
       (if fits 96 (claim_body sid) \<and> length (queue s) < kSendQueueMax
        then s\<lparr>queue := queue s @ [snprintf_out 96 (claim_body sid)]\<rparr> else s)"

text \<open>\<open>runSession\<close>: connect, send the hello, read the acknowledgement, mark the session up, claim,
  loop, mark it down. The result says whether an inbound frame was seen; the frames written to the
  socket start with the hello.\<close>

record handshake =
  h_connected :: bool
  h_hello_sent :: bool
  h_ack :: "string option"
  h_now :: nat

definition runSession ::
  "disp_config \<Rightarrow> handshake \<Rightarrow> 'cb event list \<Rightarrow> 'cb disp \<Rightarrow>
   bool \<times> string list \<times> 'cb outcome list \<times> 'cb disp" where
  "runSession cfg h es s =
     (if \<not> h_connected h then (False, [], [], s)
      else if \<not> fits 256 (hello_body cfg) then (False, [], [], s)
      else if \<not> h_hello_sent h then (False, [], [], s)
      else case h_ack h of
        None \<Rightarrow> (False, [hello_body cfg], [], s)
      | Some ack \<Rightarrow>
          (let s = queue_claims (sector_claims cfg) (s\<lparr>sessionUp := True\<rparr>);
               (w, ocs, ss, s) =
                 session_loop es \<lparr>last_ping = h_now h, had_ping = False, alive = True\<rparr> s
           in (had_ping ss, hello_body cfg # w, ocs, s\<lparr>sessionUp := False\<rparr>)))"

section \<open>Reconnecting\<close>

definition kBackoffMinMs :: nat where "kBackoffMinMs = 1000"
definition kBackoffMaxMs :: nat where "kBackoffMaxMs = 30000"

text \<open>One iteration of \<open>RunForever\<close> after the session: the delay slept and the next back-off.\<close>

definition backoff_step :: "bool \<Rightarrow> nat \<Rightarrow> nat \<times> nat" where
  "backoff_step succeeded backoff =
     (let b = (if succeeded then kBackoffMinMs else backoff) in (b, min (b * 2) kBackoffMaxMs))"

fun backoff_delays :: "nat \<Rightarrow> bool list \<Rightarrow> nat list" where
  "backoff_delays b [] = []"
| "backoff_delays b (ok # oks) = (case backoff_step ok b of (d, b') \<Rightarrow> d # backoff_delays b' oks)"

fun run_forever ::
  "disp_config \<Rightarrow> (handshake \<times> 'cb event list) list \<Rightarrow> nat \<Rightarrow> 'cb disp \<Rightarrow>
   (nat \<times> string list \<times> 'cb outcome list) list \<times> 'cb disp" where
  "run_forever cfg [] b s = ([], s)"
| "run_forever cfg ((h, es) # rest) b s =
     (case runSession cfg h es s of
        (ok, w, ocs, s') \<Rightarrow>
          (case backoff_step ok b of
             (d, b') \<Rightarrow>
               (case run_forever cfg rest b' s' of (tr, s'') \<Rightarrow> ((d, w, ocs) # tr, s''))))"

end
