(* ===== verification/Dispatcher_Laws.thy ===== *)
theory Dispatcher_Laws
  imports Dispatcher_Client
begin

text \<open>
  The lemmas of the dispatcher client: every frame builder is a flat JSON object the other end can
  read field by field, formatted bodies never overflow their buffers, the queue stays bounded and
  first-in first-out through a whole session, a resolve callback is consumed by exactly one reply,
  and the back-off doubles up to its cap.
\<close>

section \<open>Bodies as JSON objects\<close>

lemma keys_ok [simp]:
  "key_ok ''type''" "key_ok ''world_id''" "key_ok ''server_uuid''" "key_ok ''proto_version''"
  "key_ok ''world_sector_id''" "key_ok ''ts''" "key_ok ''target_peer_id''" "key_ok ''payload_b64''"
  "key_ok ''from_peer_id''" "key_ok ''peer_id''" "key_ok ''reason''"
  by (simp_all add: key_ok_def quote_def)

lemma json_plain_literal [simp]:
  "json_plain ''hello''" "json_plain ''claim_sector''" "json_plain ''resolve_sector''"
  "json_plain ''forward''" "json_plain ''delivery''" "json_plain ''sector_resolved''"
  "json_plain ''sector_unknown''" "json_plain ''pong''" "json_plain ''forward_error''"
  "json_plain ''sector_claimed''"
  by (simp_all add: json_plain_def quote_def backslash_def)

lemma json_plain_b64 [simp]: "json_plain (b64Encode bs)"
  using b64Encode_plain by (simp add: json_plain_def quote_def backslash_def)

lemma hex_digit_plain:
  "n < 16 \<Longrightarrow> hex_digit up n \<noteq> quote \<and> hex_digit up n \<noteq> backslash"
proof -
  have "list_all (\<lambda>up. list_all (\<lambda>n. hex_digit up n \<noteq> CHR 0x22 \<and> hex_digit up n \<noteq> CHR 0x5C)
      [0..<16]) [True, False]"
    by code_simp
  then show "n < 16 \<Longrightarrow> ?thesis" by (cases up) (simp_all add: list_all_iff quote_def backslash_def)
qed

lemma hex_fixed_plain: "json_plain (hex_fixed up k n)"
proof (induction k arbitrary: n)
  case (Suc k)
  have "quote \<noteq> hex_digit up (n mod 16)" "backslash \<noteq> hex_digit up (n mod 16)"
    using hex_digit_plain [of "n mod 16" up] by auto
  then show ?case using Suc [of "n div 16"] by (simp add: json_plain_def)
qed (simp add: json_plain_def)

lemma json_plain_append: "json_plain a \<Longrightarrow> json_plain b \<Longrightarrow> json_plain (a @ b)"
  by (simp add: json_plain_def)

lemma deterministicUuid_eq: "deterministicUuid w = ''00000000-0000-0000-0000-'' @ hex_fixed True 12 (unat w)"
  by (simp add: deterministicUuid_def)

lemma length_deterministicUuid [simp, wire_simps]: "length (deterministicUuid w) = 36"
  by (simp add: deterministicUuid_eq)

lemma json_plain_uuid [simp]: "json_plain (deterministicUuid w)"
  unfolding deterministicUuid_eq
  by (intro json_plain_append hex_fixed_plain) (simp add: json_plain_def quote_def backslash_def)

lemma dec_one: "dec (Suc 0) = ''1''"
  by code_simp

lemma hello_body_json: "hello_body cfg = json_obj
   [(''type'', JStr ''hello''), (''world_id'', JNum (unat (world_id cfg))),
    (''server_uuid'', JStr (deterministicUuid (world_id cfg))), (''proto_version'', JNum 1)]"
  by (simp add: hello_body_def json_obj_def fmt_u_def dec_one)

lemma claim_body_json: "claim_body sid = json_obj
   [(''type'', JStr ''claim_sector''), (''world_sector_id'', JNum (unat sid))]"
  by (simp add: claim_body_def json_obj_def fmt_u_def)

lemma resolve_body_json: "resolve_body sid = json_obj
   [(''type'', JStr ''resolve_sector''), (''world_sector_id'', JNum (unat sid))]"
  by (simp add: resolve_body_def json_obj_def fmt_u_def)

lemma forward_body_json: "forward_body target payload = json_obj
   [(''type'', JStr ''forward''), (''target_peer_id'', JStr target),
    (''payload_b64'', JStr (b64Encode payload))]"
  by (simp add: forward_body_def json_obj_def)

section \<open>Fixed buffers\<close>

lemma length_jstr [simp, wire_simps]: "length (jstr s) = length s + 2"
  by (simp add: jstr_def)

lemma fits_hello: "fits 256 (hello_body cfg)"
  using length_fmt_u32 [of "world_id cfg"] by (simp add: fits_def snprintf_ret_def hello_body_def)

lemma fits_claim: "fits 96 (claim_body sid)"
  using length_fmt_u32 [of sid] by (simp add: fits_def snprintf_ret_def claim_body_def)

lemma fits_resolve: "fits 96 (resolve_body sid)"
  using length_fmt_u32 [of sid] by (simp add: fits_def snprintf_ret_def resolve_body_def)

lemma fits_ping: "fits 64 (ping_body ts)"
  using length_fmt_u64 [of ts] by (simp add: fits_def snprintf_ret_def ping_body_def)

lemma snprintf_fits: "fits cap s \<Longrightarrow> snprintf_out cap s = s"
  by (simp add: fits_def snprintf_ret_def)

lemmas buffers_fit = fits_hello fits_claim fits_resolve fits_ping
  snprintf_fits [OF fits_claim] snprintf_fits [OF fits_resolve]

lemma length_forward_body [wire_simps]:
  "length (forward_body t p) = 55 + length t + 4 * ((length p + 2) div 3)"
  by (simp add: forward_body_def length_b64Encode)

section \<open>Reading the other end's frames\<close>

text \<open>The frames the daemon sends (\<open>OutboundFrame\<close> of \<open>daemon/src/main.rs\<close>, tagged by type).\<close>

definition delivery_frame :: "string \<Rightarrow> bytes \<Rightarrow> string" where
  "delivery_frame from payload = json_obj
     [(''type'', JStr ''delivery''), (''from_peer_id'', JStr from),
      (''payload_b64'', JStr (b64Encode payload))]"

definition sector_resolved_frame :: "u32 \<Rightarrow> string \<Rightarrow> string" where
  "sector_resolved_frame sid peer = json_obj
     [(''type'', JStr ''sector_resolved''), (''world_sector_id'', JNum (unat sid)),
      (''peer_id'', JStr peer)]"

definition sector_unknown_frame :: "u32 \<Rightarrow> string" where
  "sector_unknown_frame sid = json_obj
     [(''type'', JStr ''sector_unknown''), (''world_sector_id'', JNum (unat sid))]"

lemma dispatch_delivery:
  assumes "json_plain from"
  shows "dispatchFrame (delivery_frame from payload) s =
    (if deliveryCb s then Deliver from payload else DeliverNoCallback from (length payload), s)"
proof -
  have ok: "fields_ok [(''type'', JStr ''delivery''), (''from_peer_id'', JStr from),
      (''payload_b64'', JStr (b64Encode payload))]"
    using assms by (simp add: fields_ok_def)
  show ?thesis
    unfolding dispatchFrame_def delivery_frame_def
    by (simp add: extract_string_json [OF _ ok] b64_roundtrip)
qed

lemma dispatch_resolved:
  assumes "json_plain peer"
  shows "dispatchFrame (sector_resolved_frame sid peer) s =
    (let r = \<lparr>rr_sector = sid, rr_known = True, rr_peer = peer\<rparr> in
     case resolveCbs s sid of
       Some cb \<Rightarrow> (Resolved cb r, s\<lparr>resolveCbs := (resolveCbs s)(sid := None)\<rparr>)
     | None \<Rightarrow> (NoWaiter r, s))"
proof -
  have ok: "fields_ok [(''type'', JStr ''sector_resolved''), (''world_sector_id'', JNum (unat sid)),
      (''peer_id'', JStr peer)]"
    using assms unat_u32_bound [of sid] by (simp add: fields_ok_def)
  have p: "extractStringField (sector_resolved_frame sid peer) ''peer_id'' [] = (True, peer)"
    and t: "extractStringField (sector_resolved_frame sid peer) ''type'' [] = (True, ''sector_resolved'')"
    and w: "extractU32Field (sector_resolved_frame sid peer) ''world_sector_id'' = Some sid"
    unfolding sector_resolved_frame_def
    by (rule extract_string_json [OF _ ok] extract_u32_json [OF _ ok]; simp)+
  show ?thesis by (simp add: dispatchFrame_def p t w u32_or_0_def Let_def split: option.split)
qed

lemma dispatch_unknown_sector:
  "dispatchFrame (sector_unknown_frame sid) s =
    (let r = \<lparr>rr_sector = sid, rr_known = False, rr_peer = []\<rparr> in
     case resolveCbs s sid of
       Some cb \<Rightarrow> (Resolved cb r, s\<lparr>resolveCbs := (resolveCbs s)(sid := None)\<rparr>)
     | None \<Rightarrow> (NoWaiter r, s))"
proof -
  have ok: "fields_ok [(''type'', JStr ''sector_unknown''), (''world_sector_id'', JNum (unat sid))]"
    using unat_u32_bound [of sid] by (simp add: fields_ok_def)
  show ?thesis
    unfolding dispatchFrame_def sector_unknown_frame_def
    by (simp add: extract_string_json [OF _ ok] extract_u32_json [OF _ ok, where v = sid]
        u32_or_0_def Let_def)
qed

section \<open>Inbound frames change only the callback table\<close>

lemma dispatchFrame_frame:
  "dispatchFrame body s = (oc, s') \<Longrightarrow>
     queue s' = queue s \<and> sessionUp s' = sessionUp s \<and> deliveryCb s' = deliveryCb s"
  by (auto simp: dispatchFrame_def Let_def split: prod.splits bool.splits option.splits if_splits)

lemma dispatchFrame_resolved:
  "dispatchFrame body s = (Resolved cb r, s') \<Longrightarrow>
     resolveCbs s (rr_sector r) = Some cb \<and> resolveCbs s' = (resolveCbs s)(rr_sector r := None)"
  by (auto simp: dispatchFrame_def Let_def split: prod.splits bool.splits option.splits if_splits)

lemma dispatchFrame_unresolved:
  "dispatchFrame body s = (oc, s') \<Longrightarrow> (\<And>cb r. oc \<noteq> Resolved cb r) \<Longrightarrow> s' = s"
  by (auto simp: dispatchFrame_def Let_def split: prod.splits bool.splits option.splits if_splits)

section \<open>The queue\<close>

definition disp_inv :: "'cb disp \<Rightarrow> bool" where
  "disp_inv s \<longleftrightarrow> length (queue s) \<le> kSendQueueMax"

lemma disp_inv_sendTo: "disp_inv s \<Longrightarrow> disp_inv (snd (sendTo p b s))"
  by (simp add: disp_inv_def sendTo_def Let_def)

lemma disp_inv_resolve: "disp_inv s \<Longrightarrow> disp_inv (snd (resolveSector sid cb s))"
  by (simp add: disp_inv_def resolveSector_def Let_def)

lemma disp_inv_claims: "disp_inv s \<Longrightarrow> disp_inv (queue_claims sids s)"
  by (induction sids s rule: queue_claims.induct) (auto simp: disp_inv_def)

lemma session_turn_queue: "session_turn t ss s = (w, oc, ss', s') \<Longrightarrow> queue s' = []"
  by (auto simp: session_turn_def Let_def
      split: prod.splits if_splits option.splits dest: dispatchFrame_frame)

lemma disp_inv_loop: "session_loop es ss s = (w, ocs, ss', s') \<Longrightarrow> disp_inv s \<Longrightarrow> disp_inv s'"
proof (induction es ss s arbitrary: w ocs ss' s' rule: session_loop.induct)
  case (4 t es ss s)
  obtain w1 oc ss1 s1 where t: "session_turn t ss s = (w1, oc, ss1, s1)" by (metis prod_cases4)
  have "disp_inv s1" using session_turn_queue [OF t] by (simp add: disp_inv_def)
  then show ?case using 4 t by (auto split: if_splits prod.splits)
qed (auto simp: disp_inv_sendTo disp_inv_resolve)

text \<open>First in, first out. The text of a ping is recognisable, so the frames a session writes for
  its producers are its output without the pings.\<close>

definition is_ping :: "string \<Rightarrow> bool" where
  "is_ping f \<longleftrightarrow> prefix (''{'' @ jstr ''type'' @ '':'' @ jstr ''ping'') f"

lemma is_ping_bodies [simp]:
  "is_ping (ping_body ts)" "\<not> is_ping (forward_body t p)" "\<not> is_ping (resolve_body sid)"
  "\<not> is_ping (claim_body sid)"
  by (simp_all add: is_ping_def ping_body_def forward_body_def resolve_body_def claim_body_def
      jstr_def quote_def)

fun offered :: "'cb event list \<Rightarrow> string list" where
  "offered [] = []"
| "offered (SendTo p b # es) = forward_body p b # offered es"
| "offered (Resolve sid cb # es) = resolve_body sid # offered es"
| "offered (Turn t # es) = offered es"

lemma drain_prefix: "drain sent batch = (w, ok) \<Longrightarrow> prefix w batch \<and> (ok \<longrightarrow> w = batch)"
  by (auto simp: drain_def take_is_prefix split: option.splits if_splits)

lemma session_turn_written:
  assumes "session_turn t ss s = (w, oc, ss', s')"
  shows "\<exists>v pings. w = v @ pings \<and> prefix v (queue s) \<and> list_all is_ping pings \<and>
    (alive ss' \<longrightarrow> alive ss \<longrightarrow> v = queue s)"
proof -
  obtain v ok where d: "drain (t_sent t) (queue s) = (v, ok)" by fastforce
  then have v: "prefix v (queue s)" "ok \<longrightarrow> v = queue s" by (auto dest: drain_prefix)
  show ?thesis
  proof (cases ok)
    case False
    then show ?thesis using assms d v
      by (intro exI [of _ v] exI [of _ "[]"]) (auto simp: session_turn_def Let_def)
  next
    case True
    then have "v = queue s" using v by simp
    then have "w = queue s @ drop (length (queue s)) w \<and> list_all is_ping (drop (length (queue s)) w)"
      using assms d True
      by (auto simp: session_turn_def Let_def fits_ping split: prod.splits if_splits option.splits)
    then show ?thesis using \<open>v = queue s\<close> by blast
  qed
qed

lemma prefix_subseq: "prefix v q \<Longrightarrow> subseq v (q @ r)"
  by (auto simp: prefix_def intro: list_emb_prefix)

lemma subseq_insert: "subseq (a @ b) (a @ x # b)"
  by (rule list_emb_append_mono) auto

lemma session_fifo:
  "session_loop es ss s = (w, ocs, ss', s') \<Longrightarrow> list_all (\<lambda>f. \<not> is_ping f) (queue s) \<Longrightarrow> alive ss \<Longrightarrow>
   subseq (filter (\<lambda>f. \<not> is_ping f) w) (queue s @ offered es)"
proof (induction es ss s arbitrary: w ocs ss' s' rule: session_loop.induct)
  case (1 ss s)
  then show ?case by simp
next
  case (2 p b es ss s)
  let ?s = "snd (sendTo p b s)"
  have q: "queue ?s = queue s \<or> queue ?s = queue s @ [forward_body p b]"
    by (simp add: sendTo_def Let_def)
  then have "list_all (\<lambda>f. \<not> is_ping f) (queue ?s)" using 2 by auto
  then have "subseq (filter (\<lambda>f. \<not> is_ping f) w) (queue ?s @ offered es)"
    using 2 by simp
  moreover have "subseq (queue ?s @ offered es) (queue s @ offered (SendTo p b # es))"
    using q by (auto simp: subseq_insert)
  ultimately show ?case by (rule subseq_order.order_trans)
next
  case (3 sid cb es ss s)
  let ?s = "snd (resolveSector sid cb s)"
  have q: "queue ?s = queue s \<or> queue ?s = queue s @ [resolve_body sid]"
    by (simp add: resolveSector_def Let_def buffers_fit)
  then have "list_all (\<lambda>f. \<not> is_ping f) (queue ?s)" using 3 by auto
  then have "subseq (filter (\<lambda>f. \<not> is_ping f) w) (queue ?s @ offered es)"
    using 3 by simp
  moreover have "subseq (queue ?s @ offered es) (queue s @ offered (Resolve sid cb # es))"
    using q by (auto simp: subseq_insert)
  ultimately show ?case by (rule subseq_order.order_trans)
next
  case (4 t es ss s)
  obtain w1 oc ss1 s1 where t: "session_turn t ss s = (w1, oc, ss1, s1)" by (metis prod_cases4)
  obtain v pings where w1: "w1 = v @ pings" "prefix v (queue s)" "list_all is_ping pings"
    using session_turn_written [OF t] by blast
  have np: "filter (\<lambda>f. \<not> is_ping f) pings = []"
    using w1(3) by (simp add: filter_empty_conv list_all_iff)
  have "\<forall>f \<in> set v. \<not> is_ping f"
    using w1(2) "4.prems"(2) by (auto simp: prefix_def list_all_iff)
  then have f1: "filter (\<lambda>f. \<not> is_ping f) w1 = v"
    using np by (simp add: w1(1))
  show ?case
  proof (cases "alive ss1")
    case False
    then have "w = w1" using "4.prems"(1) t by simp
    then show ?thesis using f1 w1(2) by (simp add: prefix_subseq)
  next
    case True
    obtain w2 ocs2 ss2 s2 where l: "session_loop es ss1 s1 = (w2, ocs2, ss2, s2)"
      by (metis prod_cases4)
    have w: "w = w1 @ w2" using "4.prems"(1) t True l by (auto split: option.splits)
    have "queue s1 = []" by (rule session_turn_queue [OF t])
    then have "subseq (filter (\<lambda>f. \<not> is_ping f) w2) (offered es)"
      using "4.IH" [OF t [symmetric] refl refl _ l] True by simp
    moreover have "subseq v (queue s)" using prefix_subseq [OF w1(2), of "[]"] by simp
    ultimately show ?thesis by (simp add: w f1 list_emb_append_mono)
  qed
qed

section \<open>Back-off\<close>

lemma backoff_bounds:
  "kBackoffMinMs \<le> b \<Longrightarrow> b \<le> kBackoffMaxMs \<Longrightarrow> backoff_step ok b = (d, b') \<Longrightarrow>
   kBackoffMinMs \<le> d \<and> d \<le> kBackoffMaxMs \<and> kBackoffMinMs \<le> b' \<and> b' \<le> kBackoffMaxMs"
  by (auto simp: backoff_step_def Let_def kBackoffMinMs_def kBackoffMaxMs_def)

lemma backoff_delays_bounds:
  "kBackoffMinMs \<le> b \<Longrightarrow> b \<le> kBackoffMaxMs \<Longrightarrow>
   \<forall>d \<in> set (backoff_delays b oks). kBackoffMinMs \<le> d \<and> d \<le> kBackoffMaxMs"
proof (induction b oks rule: backoff_delays.induct)
  case (2 b ok oks)
  obtain d b' where s: "backoff_step ok b = (d, b')" by fastforce
  show ?case using backoff_bounds [OF "2.prems" s] "2.IH" [OF s [symmetric]] s by auto
qed simp

lemma backoff_failures:
  "n < length (backoff_delays b (replicate m False)) \<Longrightarrow> b \<le> kBackoffMaxMs \<Longrightarrow>
   backoff_delays b (replicate m False) ! n = min (b * 2 ^ n) kBackoffMaxMs"
proof (induction m arbitrary: b n)
  case 0
  then show ?case by simp
next
  case (Suc m)
  show ?case
  proof (cases n)
    case 0
    then show ?thesis using Suc.prems by (simp add: backoff_step_def Let_def)
  next
    case (Suc k)
    have "backoff_delays (min (b * 2) kBackoffMaxMs) (replicate m False) ! k =
        min (min (b * 2) kBackoffMaxMs * 2 ^ k) kBackoffMaxMs"
      using Suc.IH [of k "min (b * 2) kBackoffMaxMs"] Suc.prems \<open>n = Suc k\<close>
      by (simp add: backoff_step_def Let_def)
    also have "\<dots> = min (b * 2 ^ n) kBackoffMaxMs"
    proof (cases "b * 2 \<le> kBackoffMaxMs")
      case True
      then show ?thesis using \<open>n = Suc k\<close> by (simp add: min_def mult.assoc)
    next
      case False
      have "b * 2 * 1 \<le> b * 2 * 2 ^ k" "kBackoffMaxMs * 1 \<le> kBackoffMaxMs * 2 ^ k"
        by (rule mult_le_mono2, simp)+
      moreover have "b * 2 ^ n = b * 2 * 2 ^ k" using \<open>n = Suc k\<close> by simp
      ultimately have "kBackoffMaxMs \<le> b * 2 ^ n" "kBackoffMaxMs \<le> kBackoffMaxMs * 2 ^ k"
        using False by linarith+
      then show ?thesis using False by (simp add: min_absorb2)
    qed
    finally show ?thesis using \<open>n = Suc k\<close> by (simp add: backoff_step_def Let_def)
  qed
qed

lemma length_backoff_delays [simp]: "length (backoff_delays b oks) = length oks"
  by (induction b oks rule: backoff_delays.induct) (auto split: prod.splits)

section \<open>Reconnections keep the bound of the queue\<close>

lemma disp_inv_session: "disp_inv s \<Longrightarrow> disp_inv (snd (snd (snd (runSession cfg h es s))))"
proof (cases "h_ack h")
  case None
  assume "disp_inv s"
  then show ?thesis by (simp add: runSession_def None)
next
  case (Some ack)
  assume s: "disp_inv s"
  let ?s0 = "queue_claims (sector_claims cfg) (s\<lparr>sessionUp := True\<rparr>)"
  have "disp_inv ?s0" using s by (intro disp_inv_claims) (simp add: disp_inv_def)
  moreover obtain w ocs ss s1 where
    l: "session_loop es \<lparr>last_ping = h_now h, had_ping = False, alive = True\<rparr> ?s0 = (w, ocs, ss, s1)"
    by (metis prod_cases4)
  ultimately have "disp_inv s1" using disp_inv_loop by blast
  then show ?thesis using s by (simp add: runSession_def Some Let_def l disp_inv_def)
qed

lemma disp_inv_forever: "disp_inv s \<Longrightarrow> disp_inv (snd (run_forever cfg hist b s))"
proof (induction cfg hist b s rule: run_forever.induct)
  case (2 cfg h es rest b s)
  obtain ok w ocs s' where r: "runSession cfg h es s = (ok, w, ocs, s')" by (metis prod_cases4)
  obtain d b' where o: "backoff_step ok b = (d, b')" by fastforce
  have "disp_inv s'" using disp_inv_session [OF "2.prems", of cfg h es] by (simp add: r)
  then have "disp_inv (snd (run_forever cfg rest b' s'))"
    by (rule "2.IH" [OF r [symmetric] refl refl o [symmetric]])
  then show ?case by (cases "run_forever cfg rest b' s'") (simp add: r o)
qed simp

section \<open>Server identifiers\<close>

lemma hex_digit_inj: "hex_digit up a = hex_digit up b \<Longrightarrow> a < 16 \<Longrightarrow> b < 16 \<Longrightarrow> a = b"
proof -
  have "list_all (\<lambda>u. list_all (\<lambda>a. list_all (\<lambda>b. hex_digit u a = hex_digit u b \<longrightarrow> a = b)
      [0..<16]) [0..<16]) [True, False]"
    by code_simp
  then show "hex_digit up a = hex_digit up b \<Longrightarrow> a < 16 \<Longrightarrow> b < 16 \<Longrightarrow> a = b"
    by (cases up) (auto simp: list_all_iff)
qed

lemma hex_fixed_inj:
  "hex_fixed up k a = hex_fixed up k b \<Longrightarrow> a < 16 ^ k \<Longrightarrow> b < 16 ^ k \<Longrightarrow> a = b"
proof (induction k arbitrary: a b)
  case (Suc k)
  then have "a div 16 = b div 16" by (auto simp: less_mult_imp_div_less)
  moreover have "a mod 16 = b mod 16" using Suc.prems(1) by (auto dest: hex_digit_inj)
  ultimately show ?case by (metis div_mult_mod_eq)
qed simp

section \<open>Properties\<close>

text \<open>C18: The client reads every field the daemon puts into its frames: a delivery yields the
  sender and the payload bytes, a resolution or a refusal yields the sector and the peer to the
  waiter registered for that sector, which is then removed.\<close>

theorem daemon_frames_understood:
  assumes "json_plain from" and "json_plain peer" and "deliveryCb s" and "resolveCbs s sid = Some cb"
  shows "dispatchFrame (delivery_frame from payload) s = (Deliver from payload, s) \<and>
    dispatchFrame (sector_resolved_frame sid peer) s =
      (Resolved cb \<lparr>rr_sector = sid, rr_known = True, rr_peer = peer\<rparr>,
       s\<lparr>resolveCbs := (resolveCbs s)(sid := None)\<rparr>) \<and>
    dispatchFrame (sector_unknown_frame sid) s =
      (Resolved cb \<lparr>rr_sector = sid, rr_known = False, rr_peer = []\<rparr>,
       s\<lparr>resolveCbs := (resolveCbs s)(sid := None)\<rparr>)"
  using assms by (simp add: dispatch_delivery dispatch_resolved dispatch_unknown_sector Let_def)

theorem daemon_frames_understood_witness:
  "fst (dispatchFrame (delivery_frame ''srv-1'' [1, 2, 3])
     \<lparr>queue = [], sessionUp = True, deliveryCb = True, resolveCbs = [451 \<mapsto> 9 :: nat]\<rparr>) =
   Deliver ''srv-1'' [1, 2, 3]"
  using daemon_frames_understood [of "''srv-1''" "''p''"
      "\<lparr>queue = [], sessionUp = True, deliveryCb = True, resolveCbs = [451 \<mapsto> 9 :: nat]\<rparr>" 451 9
      "[1, 2, 3]"]
  by (simp add: json_plain_def quote_def backslash_def)

text \<open>C4: A session writes its producers' frames in the order they were offered, never twice and
  none of its own but pings: the frames on the wire, pings removed, are a subsequence of what was
  queued followed by what the producers offer during the session.\<close>

theorem session_writes_in_order:
  assumes "list_all (\<lambda>f. \<not> is_ping f) (queue s)" and "alive ss"
  shows "subseq (filter (\<lambda>f. \<not> is_ping f) (fst (session_loop es ss s))) (queue s @ offered es)"
  using session_fifo [OF _ assms] by (metis prod.collapse)

theorem session_writes_in_order_witness:
  "subseq (filter (\<lambda>f. \<not> is_ping f) (fst (session_loop
      [SendTo ''p'' [1], Resolve 7 (), Turn \<lparr>t_sent = None, t_now = 0, t_ts = 0, t_ping_ok = True,
         t_now2 = 0, t_select = 0, t_frame = None\<rparr>]
      \<lparr>last_ping = 0, had_ping = False, alive = True\<rparr>
      \<lparr>queue = [claim_body 4], sessionUp = True, deliveryCb = False, resolveCbs = Map.empty\<rparr>)))
     [claim_body 4, forward_body ''p'' [1], resolve_body 7]"
  using session_writes_in_order [of
      "\<lparr>queue = [claim_body 4], sessionUp = True, deliveryCb = False, resolveCbs = Map.empty\<rparr>"
      "\<lparr>last_ping = 0, had_ping = False, alive = True\<rparr>"
      "[SendTo ''p'' [1], Resolve 7 (), Turn \<lparr>t_sent = None, t_now = 0, t_ts = 0, t_ping_ok = True,
         t_now2 = 0, t_select = 0, t_frame = None\<rparr>]"]
  by simp

text \<open>C33: The send queue never exceeds its bound, over any history of sessions, reconnections and
  producer calls, the automatic sector claims included.\<close>

theorem queue_bounded_forever:
  "length (queue (snd (run_forever cfg hist b disp_init))) \<le> kSendQueueMax"
  using disp_inv_forever [of disp_init cfg hist b] by (simp add: disp_inv_def disp_init_def)

text \<open>Every body formatted into a fixed stack buffer fits it for every argument, so the
  truncation guards never drop a frame.\<close>

theorem frame_buffers_suffice:
  "fits 256 (hello_body cfg) \<and> fits 96 (claim_body sid) \<and> fits 96 (resolve_body sid) \<and>
   fits 64 (ping_body ts)"
  using buffers_fit by blast

text \<open>Different worlds announce different server identifiers, of the length of a UUID.\<close>

theorem server_uuid_injective:
  "(deterministicUuid v = deterministicUuid w) = (v = w) \<and> length (deterministicUuid v) = 36"
proof -
  have b: "unat (x :: u32) < 16 ^ 12" for x using unat_u32_bound [of x] by simp
  have "deterministicUuid v = deterministicUuid w \<Longrightarrow> v = w"
    unfolding deterministicUuid_eq same_append_eq by (drule hex_fixed_inj [OF _ b b]) (simp add: word_unat_eq_iff)
  then show ?thesis by auto
qed

text \<open>After the \<open>n\<close>-th failed attempt in a row the client sleeps the minimum delay doubled
  \<open>n\<close> times, capped at the maximum.\<close>

theorem backoff_is_capped_doubling:
  assumes "n < m"
  shows "backoff_delays kBackoffMinMs (replicate m False) ! n = min (kBackoffMinMs * 2 ^ n) kBackoffMaxMs"
  using assms by (intro backoff_failures) (simp_all add: kBackoffMinMs_def kBackoffMaxMs_def)

theorem backoff_is_capped_doubling_witness:
  "backoff_delays kBackoffMinMs (replicate 9 False) ! 3 = 8000"
  using backoff_is_capped_doubling [of 3 9] by (simp add: kBackoffMinMs_def kBackoffMaxMs_def)

text \<open>A resolve that finds the queue full reports failure, but its clean-up removes whatever
  waiter the table holds for that sector: an earlier request whose reply is still to come is
  forgotten, and that reply finds nobody.\<close>

theorem full_queue_forgets_earlier_waiter:
  assumes "sessionUp s" and "length (queue s) = kSendQueueMax" and "resolveCbs s sid = Some cb0"
    and "json_plain peer"
  shows "resolveSector sid cb s = (False, s\<lparr>resolveCbs := (resolveCbs s)(sid := None)\<rparr>) \<and>
    fst (dispatchFrame (sector_resolved_frame sid peer) (snd (resolveSector sid cb s))) =
      NoWaiter \<lparr>rr_sector = sid, rr_known = True, rr_peer = peer\<rparr>"
proof -
  have "resolveSector sid cb s = (False, s\<lparr>resolveCbs := (resolveCbs s)(sid := None)\<rparr>)"
    using assms fits_resolve [of sid] by (simp add: resolveSector_def Let_def)
  then show ?thesis using assms(4) by (simp add: dispatch_resolved Let_def)
qed

theorem full_queue_forgets_earlier_waiter_witness:
  "fst (dispatchFrame (sector_resolved_frame 451 ''b'') (snd (resolveSector 451 (2 :: nat)
     \<lparr>queue = replicate 256 ''x'', sessionUp = True, deliveryCb = True, resolveCbs = [451 \<mapsto> 1]\<rparr>))) =
   NoWaiter \<lparr>rr_sector = 451, rr_known = True, rr_peer = ''b''\<rparr>"
  by (rule full_queue_forgets_earlier_waiter [where ?cb0.0 = 1, THEN conjunct2])
     (simp_all add: kSendQueueMax_def json_plain_def quote_def backslash_def)

text \<open>The sender queues payloads its peer cannot read: from 49,111 bytes on the forward frame
  exceeds the frame limit whatever the target, so the call succeeds and a reader with that limit
  gives up the connection.\<close>

theorem oversize_payload_accepted_then_rejected:
  assumes "sessionUp s" and "length (queue s) < kSendQueueMax" and "49111 \<le> length payload"
    and "length target + length payload < 2 ^ 30"
    and "[] \<notin> set rx" and "concat rx = frame_prefix (forward_body target payload) @ rest"
  shows "fst (sendTo target payload s) \<and> fst (recvFrame rx) = None"
proof -
  let ?b = "forward_body target payload"
  have "65484 \<le> 4 * ((length payload + 2) div 3)" using assms(3) by presburger
  then have "kMaxFrameBytes < length ?b"
    by (simp add: kMaxFrameBytes_def length_forward_body)
  moreover have "length ?b < 2 ^ 32"
    using assms(4) by (simp add: length_forward_body)
  ultimately show ?thesis
    using recvFrame_oversize [OF assms(5,6)] assms(1,2) by (simp add: sendTo_def Let_def)
qed

theorem oversize_payload_accepted_then_rejected_witness:
  "fst (recvFrame [frame_prefix (forward_body ''b'' (replicate 50000 0)), [123]]) = None"
  by (rule oversize_payload_accepted_then_rejected [where target = "''b''" and payload = "replicate 50000 0"
      and s = "\<lparr>queue = [], sessionUp = True, deliveryCb = True, resolveCbs = Map.empty\<rparr>"
      and rest = "[123]", THEN conjunct2])
     (simp_all add: kSendQueueMax_def frame_prefix_def store_le_def)

end
