(* ===== verification/Binary32.thy ===== *)
theory Binary32
  imports Lifx_Prelude
begin

text \<open>
  IEEE binary32 arithmetic as the sources use it (\<open>float\<close>: addition, subtraction,
  multiplication, division, comparison, conversion from and to integers), rounding to nearest,
  ties to even. Every finite value is an integer multiple of \<open>2 ^ -149\<close>, so a finite float is
  that integer: \<open>Fin k\<close> is \<open>k * 2 ^ -149\<close>. Zero has no sign here: no source operation
  modelled in the development can tell the two zeros apart. All definitions compute.
\<close>

datatype f32 = Fin int | PInf | NInf | NaN

section \<open>Rounding\<close>

text \<open>Number of binary digits of a natural number, given as an integer.\<close>

function blen :: "int \<Rightarrow> nat" where
  "blen n = (if n \<le> 0 then 0 else Suc (blen (n div 2)))"
  by pat_completeness auto
termination
  by (relation "measure nat") auto

declare blen.simps [simp del]

text \<open>The integer nearest to \<open>a / b\<close> for positive \<open>b\<close>, the even one on a tie.\<close>

definition rne :: "int \<Rightarrow> int \<Rightarrow> int" where
  "rne a b =
     (let q = a div b; r = a mod b
      in if 2 * r < b then q else if b < 2 * r then q + 1 else if even q then q else q + 1)"

text \<open>The multiple of \<open>2 ^ -149\<close> with at most 24 significant bits nearest to \<open>(a / b) * 2 ^ -149\<close>:
  \<open>s\<close> is the number of low bits a value of that size has no room for.\<close>

definition fround :: "int \<Rightarrow> int \<Rightarrow> int" where
  "fround a b = (let s = blen (\<bar>a\<bar> div b) - 24 in rne a (b * 2 ^ s) * 2 ^ s)"

definition f32_limit :: int where
  "f32_limit = 2 ^ 277"

definition mk_f32 :: "int \<Rightarrow> f32" where
  "mk_f32 k = (if f32_limit \<le> k then PInf else if k \<le> - f32_limit then NInf else Fin k)"

definition f32_unit :: int where
  "f32_unit = 2 ^ 149"

text \<open>Literals and conversions: an integer, a half.\<close>

definition f32_of_int :: "int \<Rightarrow> f32" where
  "f32_of_int n = mk_f32 (fround (n * f32_unit) 1)"

definition f32_half :: f32 where
  "f32_half = Fin (2 ^ 148)"

section \<open>Operations\<close>

fun fneg :: "f32 \<Rightarrow> f32" where
  "fneg (Fin k) = Fin (- k)"
| "fneg PInf = NInf"
| "fneg NInf = PInf"
| "fneg NaN = NaN"

fun fadd :: "f32 \<Rightarrow> f32 \<Rightarrow> f32" where
  "fadd NaN _ = NaN"
| "fadd _ NaN = NaN"
| "fadd PInf NInf = NaN"
| "fadd NInf PInf = NaN"
| "fadd PInf _ = PInf"
| "fadd _ PInf = PInf"
| "fadd NInf _ = NInf"
| "fadd _ NInf = NInf"
| "fadd (Fin a) (Fin b) = mk_f32 (fround (a + b) 1)"

definition fsub :: "f32 \<Rightarrow> f32 \<Rightarrow> f32" where
  "fsub a b = fadd a (fneg b)"

definition finf :: "int \<Rightarrow> f32" where
  "finf s = (if 0 < s then PInf else if s < 0 then NInf else NaN)"

fun fsgn :: "f32 \<Rightarrow> int" where
  "fsgn (Fin k) = sgn k"
| "fsgn PInf = 1"
| "fsgn NInf = -1"
| "fsgn NaN = 0"

fun fmul :: "f32 \<Rightarrow> f32 \<Rightarrow> f32" where
  "fmul NaN _ = NaN"
| "fmul _ NaN = NaN"
| "fmul (Fin a) (Fin b) = mk_f32 (fround (a * b) f32_unit)"
| "fmul a b = finf (fsgn a * fsgn b)"

text \<open>Division by zero is an infinity, or not a number for \<open>0 / 0\<close>.\<close>

fun fdiv :: "f32 \<Rightarrow> f32 \<Rightarrow> f32" where
  "fdiv NaN _ = NaN"
| "fdiv _ NaN = NaN"
| "fdiv (Fin a) (Fin b) =
     (if b = 0 then finf (sgn a) else mk_f32 (fround (a * f32_unit * sgn b) \<bar>b\<bar>))"
| "fdiv (Fin a) _ = Fin 0"
| "fdiv a (Fin b) = finf (fsgn a * (if b < 0 then -1 else 1))"
| "fdiv _ _ = NaN"

text \<open>Comparisons are false as soon as one side is not a number.\<close>

fun fless :: "f32 \<Rightarrow> f32 \<Rightarrow> bool" where
  "fless (Fin a) (Fin b) = (a < b)"
| "fless NInf (Fin _) = True"
| "fless NInf PInf = True"
| "fless (Fin _) PInf = True"
| "fless _ _ = False"

definition fle :: "f32 \<Rightarrow> f32 \<Rightarrow> bool" where
  "fle a b \<longleftrightarrow> fless a b \<or> (a = b \<and> a \<noteq> NaN)"

text \<open>\<open>static_cast<uint32_t>\<close>: truncation towards zero. Out of range the language leaves the
  result undefined; the x64 target converts to 64 bits (\<open>0x8000000000000000\<close> when that does not
  fit either) and keeps the low half, which is what the definition does.\<close>

definition ftrunc :: "int \<Rightarrow> int" where
  "ftrunc k = (if 0 \<le> k then k div f32_unit else - ((- k) div f32_unit))"

fun f32_to_u32 :: "f32 \<Rightarrow> u32" where
  "f32_to_u32 (Fin k) =
     (let n = ftrunc k in if - (2 ^ 63) \<le> n \<and> n < 2 ^ 63 then word_of_int n else 0)"
| "f32_to_u32 _ = 0"

section \<open>Rounding is odd and monotone\<close>

lemma blen_0 [simp]: "n \<le> 0 \<Longrightarrow> blen n = 0"
  by (simp add: blen.simps)

lemma blen_upper: "n < 2 ^ blen n"
proof (induction n rule: blen.induct)
  case (1 n)
  show ?case
  proof (cases "n \<le> 0")
    case True
    then show ?thesis by simp
  next
    case False
    then have "n div 2 < 2 ^ blen (n div 2)" using 1 by simp
    then have "n < 2 * 2 ^ blen (n div 2)" by linarith
    then show ?thesis using False by (simp add: blen.simps [of n])
  qed
qed

lemma blen_lower: "0 < n \<Longrightarrow> 2 ^ (blen n - 1) \<le> n"
proof (induction n rule: blen.induct)
  case (1 n)
  show ?case
  proof (cases "n = 1")
    case True
    then show ?thesis by (simp add: blen.simps [of 1])
  next
    case False
    then have p: "0 < n div 2" using 1 by linarith
    then have "2 ^ (blen (n div 2) - 1) \<le> n div 2" using 1 by simp
    moreover have "blen (n div 2) \<noteq> 0" using p by (simp add: blen.simps [of "n div 2"])
    ultimately have "2 ^ blen (n div 2) \<le> n"
      using power_Suc [of "2 :: int" "blen (n div 2) - 1"] by simp
    then show ?thesis using "1.prems" by (simp add: blen.simps [of n])
  qed
qed

lemma blen_mono: "a \<le> b \<Longrightarrow> blen a \<le> blen b"
proof (rule ccontr)
  assume ab: "a \<le> b" and n: "\<not> blen a \<le> blen b"
  then have "0 < a" by (metis blen_0 le0 not_le)
  then have "2 ^ (blen a - 1) \<le> b" using blen_lower [of a] ab by linarith
  also have "b < 2 ^ blen b" by (rule blen_upper)
  finally have "blen a - 1 < blen b" by simp
  with n show False by simp
qed

lemma rne_exact: "0 < b \<Longrightarrow> rne (q * b) b = q"
  by (simp add: rne_def)

lemma rne_bounds: "0 < b \<Longrightarrow> a div b \<le> rne a b \<and> rne a b \<le> a div b + 1"
  by (simp add: rne_def Let_def)

lemma rne_mono: "0 < b \<Longrightarrow> a \<le> a' \<Longrightarrow> rne a b \<le> rne a' b"
proof (cases "a div b = a' div b")
  case True
  assume b: "0 < b" and le: "a \<le> a'"
  have "a mod b \<le> a' mod b"
    using le True by (simp add: minus_div_mult_eq_mod [symmetric])
  then show ?thesis using True by (simp add: rne_def Let_def)
next
  case False
  assume b: "0 < b" and le: "a \<le> a'"
  then have "a div b \<le> a' div b" by (simp add: zdiv_mono1)
  with False have "a div b + 1 \<le> a' div b" by simp
  then show ?thesis using rne_bounds [OF b, of a] rne_bounds [OF b, of a'] by linarith
qed

lemma rne_odd:
  assumes "0 < b"
  shows "rne (- a) b = - rne a b"
proof (cases "a mod b = 0")
  case True
  then obtain q where "a = q * b" by (metis mult.commute mult_div_mod_eq add.right_neutral)
  then show ?thesis using assms rne_exact [of b "- q"] rne_exact [of b q] by simp
next
  case False
  then have "(- a) div b = - (a div b) - 1" "(- a) mod b = b - a mod b"
    using assms by (simp_all add: zdiv_zminus1_eq_if zmod_zminus1_eq_if)
  moreover have "\<not> b < 0" using assms by simp
  ultimately show ?thesis by (auto simp: rne_def Let_def)
qed

lemma fround_odd: "0 < b \<Longrightarrow> fround (- a) b = - fround a b"
  by (simp add: fround_def Let_def rne_odd)

lemma fround_0 [simp]: "0 < b \<Longrightarrow> fround 0 b = 0"
  by (simp add: fround_def rne_def Let_def)

lemma fround_small:
  assumes "\<bar>k\<bar> < 2 ^ 24"
  shows "fround k 1 = k"
proof -
  have "blen \<bar>k\<bar> - 1 < 24 \<or> k = 0"
  proof (cases "k = 0")
    case False
    then have "2 ^ (blen \<bar>k\<bar> - 1) \<le> \<bar>k\<bar>" by (intro blen_lower) simp
    then have "(2 :: int) ^ (blen \<bar>k\<bar> - 1) < 2 ^ 24" using assms by (rule le_less_trans)
    then have "blen \<bar>k\<bar> - 1 < 24" by (rule power_less_imp_less_exp [rotated]) simp
    then show ?thesis ..
  qed simp
  then have "blen \<bar>k\<bar> - 24 = 0" by auto
  then show ?thesis using rne_exact [of 1 k] by (simp add: fround_def)
qed

lemma fround_nonneg: "0 \<le> a \<Longrightarrow> 0 < b \<Longrightarrow> 0 \<le> fround a b"
proof -
  assume a: "0 \<le> a" and b: "0 < b"
  let ?s = "blen (\<bar>a\<bar> div b) - 24"
  have "rne 0 (b * 2 ^ ?s) \<le> rne a (b * 2 ^ ?s)" using a b by (intro rne_mono) simp_all
  moreover have "rne 0 (b * 2 ^ ?s) = 0" using b rne_exact [of "b * 2 ^ ?s" 0] by simp
  ultimately show ?thesis by (simp add: fround_def Let_def)
qed

text \<open>Rounding never leaves the binade of its argument.\<close>

lemma fround_binade:
  assumes "0 < a"
  shows "2 ^ (blen a - 1) \<le> fround a 1 \<and> fround a 1 \<le> 2 ^ blen a"
proof (cases "blen a \<le> 24")
  case True
  then have "fround a 1 = a" using assms rne_exact [of 1 a] by (simp add: fround_def)
  then show ?thesis using blen_lower [OF assms] blen_upper [of a] by simp
next
  case False
  define s where "s = blen a - 24"
  have s: "blen a = s + 24" "blen a - 1 = s + 23" using False by (simp_all add: s_def)
  have lo: "2 ^ 23 * 2 ^ s \<le> a" using blen_lower [OF assms] s by (simp add: power_add mult.commute)
  have hi: "a < 2 ^ 24 * 2 ^ s" using blen_upper [of a] s by (simp add: power_add mult.commute)
  have "rne (2 ^ 23 * 2 ^ s) (2 ^ s) \<le> rne a (2 ^ s)" using lo by (intro rne_mono) simp_all
  then have l: "2 ^ 23 \<le> rne a (2 ^ s)" using rne_exact [of "2 ^ s" "2 ^ 23"] by simp
  have "rne a (2 ^ s) \<le> rne (2 ^ 24 * 2 ^ s) (2 ^ s)" using hi by (intro rne_mono) simp_all
  then have h: "rne a (2 ^ s) \<le> 2 ^ 24" using rne_exact [of "2 ^ s" "2 ^ 24"] by simp
  have f: "fround a 1 = rne a (2 ^ s) * 2 ^ s" using assms by (simp add: fround_def Let_def s_def)
  have "2 ^ 23 * 2 ^ s \<le> rne a (2 ^ s) * 2 ^ s" "rne a (2 ^ s) * 2 ^ s \<le> 2 ^ 24 * 2 ^ s"
    using l h by (simp_all only: mult_right_mono zero_le_power zero_le_numeral)
  then show ?thesis by (simp add: f s power_add mult.commute)
qed

lemma fround_mono_pos: "0 \<le> a \<Longrightarrow> a \<le> b \<Longrightarrow> fround a 1 \<le> fround b 1"
proof (cases "a = 0")
  case True
  assume "0 \<le> a" "a \<le> b"
  then show ?thesis using True fround_nonneg [of b 1] by simp
next
  case False
  assume a: "0 \<le> a" and ab: "a \<le> b"
  then have a: "0 < a" and b: "0 < b" using False by simp_all
  show ?thesis
  proof (cases "blen a = blen b")
    case True
    then show ?thesis using a b ab
      by (simp add: fround_def Let_def rne_mono mult_right_mono)
  next
    case False
    then have "blen a \<le> blen b - 1" using blen_mono [OF ab] by simp
    then have "(2 :: int) ^ blen a \<le> 2 ^ (blen b - 1)" by simp
    then show ?thesis using fround_binade [OF a] fround_binade [OF b] by linarith
  qed
qed

lemma fround_mono: "a \<le> b \<Longrightarrow> fround a 1 \<le> fround b 1"
proof -
  assume ab: "a \<le> b"
  consider "0 \<le> a" | "b \<le> 0" "a < 0" | "a < 0" "0 < b" by linarith
  then show ?thesis
  proof cases
    case 1
    then show ?thesis using ab by (rule fround_mono_pos)
  next
    case 2
    then have "fround (- b) 1 \<le> fround (- a) 1" using ab by (intro fround_mono_pos) simp_all
    then show ?thesis by (simp add: fround_odd)
  next
    case 3
    then have "0 \<le> fround (- a) 1" "0 \<le> fround b 1" by (simp_all add: fround_nonneg)
    then show ?thesis by (simp add: fround_odd)
  qed
qed

text \<open>The same with a denominator: rounding a quotient is monotone in the numerator.\<close>

lemma fround_binade_quot:
  assumes b: "0 < b" and q: "0 < a div b"
  shows "2 ^ (blen (a div b) - 1) \<le> fround a b \<and> fround a b \<le> 2 ^ blen (a div b)"
proof -
  define q where "q = a div b"
  have q0: "0 < q" using q by (simp add: q_def)
  have r: "a = q * b + a mod b" "0 \<le> a mod b" "a mod b < b" using b by (simp_all add: q_def)
  have lo: "q * b \<le> a" using r by linarith
  have hi: "a < (q + 1) * b" using r by (simp add: distrib_right)
  have a0: "0 < a" using lo mult_pos_pos [OF q0 b] by linarith
  show ?thesis
  proof (cases "blen q \<le> 24")
    case True
    then have "fround a b = rne a b" using a0 by (simp add: fround_def Let_def q_def)
    moreover have "q \<le> rne a b" "rne a b \<le> q + 1" using rne_bounds [OF b, of a] by (simp_all add: q_def)
    moreover have "2 ^ (blen q - 1) \<le> q" "q + 1 \<le> 2 ^ blen q"
      using blen_lower [OF q0] blen_upper [of q] by simp_all
    ultimately show ?thesis by (simp add: q_def)
  next
    case False
    define s where "s = blen q - 24"
    have s: "blen q = s + 24" "blen q - 1 = s + 23" using False by (simp_all add: s_def)
    have f: "fround a b = rne a (b * 2 ^ s) * 2 ^ s" using a0 by (simp add: fround_def Let_def s_def q_def)
    have "2 ^ 23 * 2 ^ s \<le> q" using blen_lower [OF q0] s by (simp add: power_add mult.commute)
    then have "2 ^ 23 * 2 ^ s * b \<le> q * b" using b by (intro mult_right_mono) simp_all
    then have l1: "2 ^ 23 * (b * 2 ^ s) \<le> a" using lo by (simp add: mult.assoc mult.commute)
    have "q + 1 \<le> 2 ^ 24 * 2 ^ s" using blen_upper [of q] s by (simp add: power_add mult.commute)
    then have "(q + 1) * b \<le> 2 ^ 24 * 2 ^ s * b" using b by (intro mult_right_mono) simp_all
    then have h1: "a \<le> 2 ^ 24 * (b * 2 ^ s)" using hi by (simp add: mult.assoc mult.commute)
    have p: "0 < b * 2 ^ s" using b by simp
    have "2 ^ 23 \<le> rne a (b * 2 ^ s)"
      using rne_mono [OF p l1] rne_exact [OF p, of "2 ^ 23"] by simp
    moreover have "rne a (b * 2 ^ s) \<le> 2 ^ 24"
      using rne_mono [OF p h1] rne_exact [OF p, of "2 ^ 24"] by simp
    ultimately have "2 ^ 23 * 2 ^ s \<le> rne a (b * 2 ^ s) * 2 ^ s"
      "rne a (b * 2 ^ s) * 2 ^ s \<le> 2 ^ 24 * 2 ^ s"
      by (simp_all only: mult_right_mono zero_le_power zero_le_numeral)
    then show ?thesis by (simp add: f s power_add mult.commute flip: q_def)
  qed
qed

lemma fround_mono_quot:
  assumes b: "0 < b" and a: "0 \<le> a" and le: "a \<le> a'"
  shows "fround a b \<le> fround a' b"
proof (cases "blen (a div b) = blen (a' div b)")
  case True
  then show ?thesis using assms
    by (simp add: fround_def Let_def rne_mono mult_right_mono)
next
  case False
  have qq: "a div b \<le> a' div b" using b le by (simp add: zdiv_mono1)
  have q': "0 < a' div b"
  proof (rule ccontr)
    assume "\<not> 0 < a' div b"
    then show False using False qq by simp
  qed
  have lt: "blen (a div b) \<le> blen (a' div b) - 1" using False blen_mono [OF qq] by simp
  note f' = fround_binade_quot [OF b q']
  show ?thesis
  proof (cases "0 < a div b")
    case True
    have "(2 :: int) ^ blen (a div b) \<le> 2 ^ (blen (a' div b) - 1)" using lt by simp
    then show ?thesis using fround_binade_quot [OF b True] f' by linarith
  next
    case F: False
    then have z: "a div b = 0" using a b pos_imp_zdiv_nonneg_iff [OF b, of a] by linarith
    then have "fround a b = rne a b" using a by (simp add: fround_def Let_def)
    then have "fround a b \<le> 1" using rne_bounds [OF b, of a] z by simp
    moreover have "(1 :: int) \<le> 2 ^ (blen (a' div b) - 1)" by simp
    ultimately show ?thesis using f' by linarith
  qed
qed

section \<open>Order facts of the operations\<close>

lemma f32_limit_pos [simp]: "0 < f32_limit"
  by (simp add: f32_limit_def)

lemma f32_unit_pos [simp]: "0 < f32_unit"
  by (simp add: f32_unit_def)

lemma mk_f32_mono: "a \<le> b \<Longrightarrow> fle (mk_f32 a) (mk_f32 b)"
  using f32_limit_pos by (auto simp: mk_f32_def fle_def)

lemma fle_Fin [simp]: "fle (Fin a) (Fin b) = (a \<le> b)"
  by (auto simp: fle_def)

lemma fle_refl [simp]: "fle a a = (a \<noteq> NaN)"
  by (cases a) (auto simp: fle_def)

lemma fle_trans: "fle a b \<Longrightarrow> fle b c \<Longrightarrow> fle a c"
  by (cases a; cases b; cases c) (auto simp: fle_def)

lemma not_fless: "a \<noteq> NaN \<Longrightarrow> b \<noteq> NaN \<Longrightarrow> \<not> fless a b \<Longrightarrow> fle b a"
  by (cases a; cases b) (auto simp: fle_def)

lemma fle_not_NaN: "fle a b \<Longrightarrow> a \<noteq> NaN \<and> b \<noteq> NaN"
  by (cases a; cases b) (auto simp: fle_def)

lemma mk_f32_not_NaN [simp]: "mk_f32 k \<noteq> NaN"
  by (simp add: mk_f32_def)

text \<open>Adding the same finite value to both sides keeps the order, rounding included.\<close>

lemma fadd_mono:
  assumes "fle a b"
  shows "fle (fadd a (Fin c)) (fadd b (Fin c))"
proof (cases "\<exists>x y. a = Fin x \<and> b = Fin y")
  case True
  then obtain x y where "a = Fin x" "b = Fin y" "x \<le> y" using assms by auto
  then show ?thesis using fround_mono [of "x + c" "y + c"] by (simp add: mk_f32_mono)
next
  case False
  then show ?thesis
    using assms by (cases a; cases b) (auto simp: fle_def mk_f32_def)
qed

lemma fsub_self_Fin [simp]: "fsub (Fin a) (Fin a) = Fin 0"
  by (simp add: fsub_def mk_f32_def f32_limit_def)

text \<open>A value the format can hold is its own sum with zero.\<close>

definition f32_repr :: "f32 \<Rightarrow> bool" where
  "f32_repr x \<longleftrightarrow> (case x of Fin k \<Rightarrow> fround k 1 = k \<and> \<bar>k\<bar> < f32_limit | _ \<Rightarrow> True)"

lemma fadd_zero_left: "f32_repr x \<Longrightarrow> fadd (Fin 0) x = x"
  by (cases x) (auto simp: f32_repr_def mk_f32_def)

lemma fsub_mono: "fle a b \<Longrightarrow> fle (fsub a (Fin c)) (fsub b (Fin c))"
  by (simp add: fsub_def fadd_mono)

lemma fle_not_fless: "fle a b \<Longrightarrow> \<not> fless b a"
  by (cases a; cases b) (auto simp: fle_def)

lemma fle_fless_trans: "fle a b \<Longrightarrow> fless b c \<Longrightarrow> fless a c"
  by (cases a; cases b; cases c) (auto simp: fle_def)

lemma fless_fle_trans: "fless a b \<Longrightarrow> fle b c \<Longrightarrow> fless a c"
  by (cases a; cases b; cases c) (auto simp: fle_def)

lemma fless_not_fle: "fless a b \<Longrightarrow> \<not> fle b a"
  by (cases a; cases b) (auto simp: fle_def)

definition u32_to_f32 :: "u32 \<Rightarrow> f32" where
  "u32_to_f32 n = f32_of_int (uint n)"

section \<open>The bit pattern\<close>

definition mag_bits :: "int \<Rightarrow> int" where
  "mag_bits m =
     (if m < 2 ^ 23 then m
      else let s = blen m - 24 in (int s + 1) * 2 ^ 23 + (m div 2 ^ s - 2 ^ 23))"

fun f32_bits :: "f32 \<Rightarrow> u32" where
  "f32_bits (Fin k) = word_of_int (mag_bits \<bar>k\<bar> + (if k < 0 then 2 ^ 31 else 0))"
| "f32_bits PInf = 0x7F800000"
| "f32_bits NInf = 0xFF800000"
| "f32_bits NaN = 0x7FC00000"

definition f32_of_bits :: "u32 \<Rightarrow> f32" where
  "f32_of_bits w =
     (let n = uint w; neg = (2 ^ 31 \<le> n); v = n mod 2 ^ 31; e = v div 2 ^ 23; m = v mod 2 ^ 23
      in if e = 255 then (if m \<noteq> 0 then NaN else if neg then NInf else PInf)
         else let k = (if e = 0 then m else (m + 2 ^ 23) * 2 ^ nat (e - 1))
              in Fin (if neg then - k else k))"

definition mag_of_bits :: "int \<Rightarrow> int" where
  "mag_of_bits v =
     (let e = v div 2 ^ 23; m = v mod 2 ^ 23
      in if e = 0 then m else (m + 2 ^ 23) * 2 ^ nat (e - 1))"

lemma mag_round_trip:
  assumes k: "0 \<le> k" "k < f32_limit" "fround k 1 = k"
  shows "mag_of_bits (mag_bits k) = k" and "0 \<le> mag_bits k" and "mag_bits k < 255 * 2 ^ 23"
proof -
  have "mag_of_bits (mag_bits k) = k \<and> 0 \<le> mag_bits k \<and> mag_bits k < 255 * 2 ^ 23"
  proof (cases "k < 2 ^ 23")
    case True
    then have "k div 2 ^ 23 = 0" "k mod 2 ^ 23 = k" using k by simp_all
    then show ?thesis using True k by (simp add: mag_bits_def mag_of_bits_def)
  next
    case False
    define s where "s = blen k - 24"
    have pos: "0 < k" using False by simp
    have "(2 :: int) ^ 23 < 2 ^ blen k" using False blen_upper [of k] by linarith
    then have "23 < blen k" by (rule power_less_imp_less_exp [rotated]) simp
    then have L: "blen k = s + 24" by (simp add: s_def)
    have "(2 :: int) ^ (blen k - 1) < 2 ^ 277"
      using blen_lower [OF pos] k(2) by (simp only: f32_limit_def)
    then have "blen k - 1 < 277" by (rule power_less_imp_less_exp [rotated]) simp
    then have s253: "s \<le> 253" using L by simp
    define q where "q = k div 2 ^ s"
    have "2 ^ s dvd k"
    proof -
      have "k = rne k (2 ^ s) * 2 ^ s" using k(1,3) by (simp add: fround_def Let_def s_def)
      then show ?thesis by (metis dvd_triv_right)
    qed
    then have kq: "k = q * 2 ^ s" by (simp add: q_def)
    have "2 ^ (s + 23) \<le> k" "k < 2 ^ (s + 24)"
      using blen_lower [OF pos] blen_upper [of k] by (simp_all add: L add.commute)
    then have "2 ^ 23 * 2 ^ s \<le> q * 2 ^ s" "q * 2 ^ s < 2 ^ 24 * 2 ^ s"
      by (simp_all add: kq power_add mult.commute)
    then have q: "2 ^ 23 \<le> q" "q < 2 ^ 24"
      by (simp_all only: mult_le_cancel_right mult_less_cancel_right) simp_all
    have b: "mag_bits k = (int s + 1) * 2 ^ 23 + (q - 2 ^ 23)"
      using False by (simp add: mag_bits_def Let_def s_def q_def)
    define t where "t = q - 2 ^ 23"
    have t: "0 \<le> t" "t < 2 ^ 23" using q by (simp_all add: t_def)
    have b: "mag_bits k = (int s + 1) * 2 ^ 23 + t" using b by (simp add: t_def)
    have "mag_bits k div 2 ^ 23 = int s + 1" using t by (simp add: b)
    moreover have "mag_bits k mod 2 ^ 23 = t"
      unfolding b by (simp only: mod_mult_self3 mod_pos_pos_trivial [OF t])
    ultimately have "mag_of_bits (mag_bits k) = k"
      by (simp add: mag_of_bits_def kq t_def)
    moreover have "0 \<le> mag_bits k" "mag_bits k < 255 * 2 ^ 23" using t s253 by (simp_all add: b)
    ultimately show ?thesis by blast
  qed
  then show "mag_of_bits (mag_bits k) = k" and "0 \<le> mag_bits k" and "mag_bits k < 255 * 2 ^ 23"
    by blast+
qed

lemma f32_of_bits_mag:
  assumes "0 \<le> v" "v < 255 * 2 ^ 23"
  shows "f32_of_bits (word_of_int (v + (if neg then 2 ^ 31 else 0))) =
     Fin (if neg then - mag_of_bits v else mag_of_bits v)"
proof -
  have u: "uint (word_of_int (v + (if neg then 2 ^ 31 else 0)) :: u32) =
      v + (if neg then 2 ^ 31 else 0)"
    using assms by (simp only: uint_word_of_int) (simp add: take_bit_int_eq_self_iff)
  have m: "(v + (if neg then 2 ^ 31 else 0)) mod 2 ^ 31 = v"
    "(2 ^ 31 \<le> v + (if neg then 2 ^ 31 else 0)) = neg"
    using assms by simp_all
  have "v div 2 ^ 23 \<noteq> 255" using assms by simp
  then show ?thesis unfolding f32_of_bits_def u Let_def m by (simp add: mag_of_bits_def Let_def)
qed

lemma f32_bits_round_trip:
  assumes "f32_repr x"
  shows "f32_of_bits (f32_bits x) = x"
proof (cases x)
  case (Fin k)
  have a: "fround \<bar>k\<bar> 1 = \<bar>k\<bar>" using assms Fin
    by (cases "0 \<le> k") (simp_all add: f32_repr_def abs_if fround_odd)
  have b: "\<bar>k\<bar> < f32_limit" using assms Fin by (simp add: f32_repr_def)
  note r = mag_round_trip [OF abs_ge_zero b a]
  show ?thesis
    using f32_of_bits_mag [OF r(2,3), of "k < 0"] r(1) by (simp add: Fin abs_if split: if_splits)
qed (simp_all add: f32_of_bits_def)

text \<open>Every bit pattern stands for a representable value.\<close>

lemma fround_shifted:
  assumes "2 ^ 23 \<le> q" "q < 2 ^ 24"
  shows "fround (q * 2 ^ s) 1 = q * 2 ^ s"
proof -
  have pos: "0 < q * 2 ^ s" using assms by simp
  have lo: "(2 :: int) ^ (s + 23) \<le> q * 2 ^ s" and hi: "q * 2 ^ s < 2 ^ (s + 24)"
    using assms by (simp_all add: power_add mult.commute)
  have "(2 :: int) ^ (s + 23) < 2 ^ blen (q * 2 ^ s)" using lo blen_upper [of "q * 2 ^ s"] by linarith
  then have a: "s + 23 < blen (q * 2 ^ s)" by (rule power_less_imp_less_exp [rotated]) simp
  have "(2 :: int) ^ (blen (q * 2 ^ s) - 1) < 2 ^ (s + 24)" using blen_lower [OF pos] hi by linarith
  then have "blen (q * 2 ^ s) - 1 < s + 24" by (rule power_less_imp_less_exp [rotated]) simp
  then have "blen (q * 2 ^ s) - 24 = s" using a by simp
  then show ?thesis using pos rne_exact [of "2 ^ s" q] by (simp add: fround_def Let_def)
qed

lemma f32_repr_of_bits: "f32_repr (f32_of_bits w)"
proof -
  define v where "v = uint w mod 2 ^ 31"
  define e where "e = v div 2 ^ 23"
  define t where "t = v mod 2 ^ 23"
  have v: "0 \<le> v" "v < 2 ^ 31" by (simp_all add: v_def)
  have t: "0 \<le> t" "t < 2 ^ 23" by (simp_all add: t_def)
  have e: "0 \<le> e" "e \<le> 255" using v by (simp_all add: e_def)
  have mag: "fround k 1 = k \<and> 0 \<le> k \<and> k < f32_limit"
    if k: "k = (if e = 0 then t else (t + 2 ^ 23) * 2 ^ nat (e - 1))" and ne: "e \<noteq> 255" for k
  proof (cases "e = 0")
    case True
    then show ?thesis using k t fround_small [of t] by (simp add: f32_limit_def)
  next
    case False
    have n: "nat (e - 1) \<le> 253" using e ne by simp
    have "k < 2 ^ 24 * 2 ^ nat (e - 1)" using k False t by simp
    also have "(2 :: int) ^ 24 * 2 ^ nat (e - 1) \<le> 2 ^ 24 * 2 ^ 253"
      using n by (intro mult_left_mono power_increasing) simp_all
    finally show ?thesis using k False t fround_shifted [of "t + 2 ^ 23" "nat (e - 1)"] by (simp add: f32_limit_def)
  qed
  show ?thesis
  proof (cases "e = 255")
    case True
    then show ?thesis by (simp add: f32_of_bits_def Let_def f32_repr_def e_def v_def)
  next
    case False
    define k where "k = (if e = 0 then t else (t + 2 ^ 23) * 2 ^ nat (e - 1))"
    have "f32_of_bits w = Fin (if 2 ^ 31 \<le> uint w then - k else k)"
      using False by (simp add: f32_of_bits_def Let_def e_def v_def t_def k_def)
    then show ?thesis using mag [OF k_def False] by (simp add: f32_repr_def fround_odd)
  qed
qed

lemma f32_bits_stable: "f32_of_bits (f32_bits (f32_of_bits w)) = f32_of_bits w"
  by (rule f32_bits_round_trip [OF f32_repr_of_bits])

text \<open>Small integers are exact.\<close>

lemma fround_dvd: "2 ^ (blen \<bar>a\<bar> - 24) dvd a \<Longrightarrow> fround a 1 = a"
proof -
  assume "2 ^ (blen \<bar>a\<bar> - 24) dvd a"
  then obtain q where q: "a = q * 2 ^ (blen \<bar>a\<bar> - 24)" by (metis dvd_def mult.commute)
  have "rne a (2 ^ (blen \<bar>a\<bar> - 24)) = q" by (subst q, rule rne_exact) simp
  then show ?thesis using q by (simp add: fround_def)
qed

lemma f32_of_small_int:
  assumes "\<bar>n\<bar> < 2 ^ 24"
  shows "f32_of_int n = Fin (n * f32_unit)"
proof -
  let ?a = "n * f32_unit"
  have abs: "\<bar>?a\<bar> = \<bar>n\<bar> * 2 ^ 149" by (simp add: f32_unit_def abs_mult)
  have lt: "\<bar>?a\<bar> < 2 ^ 24 * 2 ^ 149" unfolding abs using assms by simp
  have "blen \<bar>?a\<bar> - 24 \<le> 149"
  proof (cases "n = 0")
    case False
    then have "0 < \<bar>?a\<bar>" by (simp add: f32_unit_def)
    then have "(2 :: int) ^ (blen \<bar>?a\<bar> - 1) < 2 ^ 173" using blen_lower [of "\<bar>?a\<bar>"] lt by simp
    then have "blen \<bar>?a\<bar> - 1 < 173" by (rule power_less_imp_less_exp [rotated]) simp
    then show ?thesis by simp
  qed simp
  then have "(2 :: int) ^ (blen \<bar>?a\<bar> - 24) dvd 2 ^ 149" by (rule le_imp_power_dvd)
  then have "2 ^ (blen \<bar>?a\<bar> - 24) dvd ?a" by (simp add: f32_unit_def)
  then have r: "fround ?a 1 = ?a" by (rule fround_dvd)
  have "\<bar>?a\<bar> < f32_limit"
  proof -
    have "(2 :: int) ^ 24 * 2 ^ 149 \<le> f32_limit" by (simp add: f32_limit_def)
    then show ?thesis using lt by linarith
  qed
  then have "\<not> f32_limit \<le> ?a" "\<not> ?a \<le> - f32_limit" by linarith+
  then show ?thesis by (simp add: f32_of_int_def r mk_f32_def)
qed

section \<open>Properties\<close>

text \<open>A float survives the trip through its bit pattern.\<close>

theorem float_bits_lossless:
  assumes "f32_repr x"
  shows "f32_of_bits (f32_bits x) = x"
  using assms by (rule f32_bits_round_trip)

theorem float_bits_lossless_witness:
  "f32_of_bits (f32_bits (f32_of_int (-6789))) = Fin (-6789 * 2 ^ 149)"
proof -
  have "f32_of_int (-6789) = Fin (-6789 * 2 ^ 149)" by code_simp
  moreover have "f32_repr (Fin (-6789 * 2 ^ 149))" by code_simp
  ultimately show ?thesis using float_bits_lossless [of "Fin (-6789 * 2 ^ 149)"] by simp
qed

end
