(* ===== verification/World_Grid.thy ===== *)
theory World_Grid
  imports Binary32
begin

text \<open>
  The world grid of \<open>source/server/hooks/sector/world_grid.{h,cpp}\<close>: the server's own rectangle of
  square sectors and the grids of the adjacent worlds stitched to its edges, and the resolution of a
  position to a sector. The two mutex-guarded globals are the record \<open>world_grid\<close>; the mutex only
  makes each operation atomic, so an operation is a function of the record.
\<close>

section \<open>Data\<close>

datatype direction = North | South | East | West

record grid_spec =
  originX :: f32
  originY :: f32
  cellSize :: f32
  cols :: u32
  rows :: u32
  firstSector :: u32

record resolved =
  sectorId :: u32
  isSelf :: bool
  localX :: f32
  localY :: f32
  res_host :: string
  res_port :: u16

record neighbour =
  nb_dir :: direction
  nb_grid :: grid_spec
  peerHost :: string
  peerPort :: u16

record world_grid =
  g_self :: grid_spec
  g_neighbours :: "neighbour list"

text \<open>The default member values of the two structs, and the globals before \<open>Configure\<close>.\<close>

definition no_grid :: grid_spec where
  "no_grid = \<lparr>originX = Fin 0, originY = Fin 0, cellSize = Fin 0, cols = 0, rows = 0, firstSector = 0\<rparr>"

definition unresolved :: resolved where
  "unresolved = \<lparr>sectorId = 0, isSelf = False, localX = Fin 0, localY = Fin 0, res_host = [],
     res_port = 0\<rparr>"

section \<open>Operations\<close>

definition west_edge :: "grid_spec \<Rightarrow> f32" where
  "west_edge g = fsub (originX g) (fmul f32_half (cellSize g))"

definition south_edge :: "grid_spec \<Rightarrow> f32" where
  "south_edge g = fsub (originY g) (fmul f32_half (cellSize g))"

definition grid_width :: "grid_spec \<Rightarrow> f32" where
  "grid_width g = fmul (u32_to_f32 (cols g)) (cellSize g)"

definition grid_height :: "grid_spec \<Rightarrow> f32" where
  "grid_height g = fmul (u32_to_f32 (rows g)) (cellSize g)"

definition east_edge :: "grid_spec \<Rightarrow> f32" where
  "east_edge g = fadd (west_edge g) (grid_width g)"

definition north_edge :: "grid_spec \<Rightarrow> f32" where
  "north_edge g = fadd (south_edge g) (grid_height g)"

definition Locate :: "grid_spec \<Rightarrow> f32 \<Rightarrow> f32 \<Rightarrow> (u32 \<times> u32) option" where
  "Locate g x y =
     (if fle (cellSize g) (Fin 0) \<or> cols g = 0 \<or> rows g = 0 then None
      else if fless x (west_edge g) \<or> fle (east_edge g) x \<or>
              fless y (south_edge g) \<or> fle (north_edge g) y then None
      else
        let col = f32_to_u32 (fdiv (fsub x (west_edge g)) (cellSize g));
            row = f32_to_u32 (fdiv (fsub y (south_edge g)) (cellSize g))
        in Some (if cols g \<le> col then cols g - 1 else col,
                 if rows g \<le> row then rows g - 1 else row))"

definition Configure :: "grid_spec \<Rightarrow> neighbour list \<Rightarrow> world_grid \<Rightarrow> world_grid" where
  "Configure self neighbours w = w\<lparr>g_self := self, g_neighbours := neighbours\<rparr>"

text \<open>The identifier of a cell: row-major from the south-west corner.\<close>

definition cell_sector :: "grid_spec \<Rightarrow> u32 \<Rightarrow> u32 \<Rightarrow> u32" where
  "cell_sector g col row = firstSector g + row * cols g + col"

text \<open>The translation of a position of this world into a neighbour's coordinates.\<close>

fun to_neighbour :: "grid_spec \<Rightarrow> direction \<Rightarrow> grid_spec \<Rightarrow> f32 \<Rightarrow> f32 \<Rightarrow> f32 \<times> f32" where
  "to_neighbour s East n x y = (fadd (fsub x (east_edge s)) (west_edge n), y)"
| "to_neighbour s West n x y =
     (fsub (fadd (fadd (fsub x (west_edge s)) (west_edge n)) (grid_width n)) (grid_width s), y)"
| "to_neighbour s North n x y = (x, fadd (fsub y (north_edge s)) (south_edge n))"
| "to_neighbour s South n x y =
     (x, fsub (fadd (fadd (fsub y (south_edge s)) (south_edge n)) (grid_height n)) (grid_height s))"

fun resolve_neighbours :: "grid_spec \<Rightarrow> neighbour list \<Rightarrow> f32 \<Rightarrow> f32 \<Rightarrow> resolved" where
  "resolve_neighbours s [] x y = unresolved"
| "resolve_neighbours s (nb # nbs) x y =
     (let n = nb_grid nb; (lx, ly) = to_neighbour s (nb_dir nb) n x y
      in case Locate n lx ly of
           Some (nc, nr) \<Rightarrow>
             \<lparr>sectorId = cell_sector n nc nr, isSelf = False, localX = lx, localY = ly,
              res_host = peerHost nb, res_port = peerPort nb\<rparr>
         | None \<Rightarrow> resolve_neighbours s nbs x y)"

definition SectorForPos :: "world_grid \<Rightarrow> f32 \<Rightarrow> f32 \<Rightarrow> resolved" where
  "SectorForPos w x y =
     (case Locate (g_self w) x y of
        Some (col, row) \<Rightarrow>
          unresolved\<lparr>sectorId := cell_sector (g_self w) col row, isSelf := True,
                     localX := x, localY := y\<rparr>
      | None \<Rightarrow> resolve_neighbours (g_self w) (g_neighbours w) x y)"

section \<open>Cells\<close>

lemma below_self: "n \<noteq> 0 \<Longrightarrow> n - 1 < (n :: u32)"
  by (simp add: word_less_nat_alt unat_minus_one unat_gt_0 [symmetric] del: unat_gt_0)

text \<open>Whatever the floats do, the clamp keeps the cell inside the grid.\<close>

lemma Locate_in_range:
  "Locate g x y = Some (c, r) \<Longrightarrow> c < cols g \<and> r < rows g"
  by (auto simp: Locate_def Let_def not_le below_self split: if_splits)

definition grid_fits :: "grid_spec \<Rightarrow> bool" where
  "grid_fits g \<longleftrightarrow> uint (firstSector g) + uint (rows g) * uint (cols g) < 2 ^ 32"

lemma cell_index_bound:
  fixes r c R C :: int
  assumes "0 \<le> r" "r < R" "0 \<le> c" "c < C"
  shows "r * C + c < R * C"
proof -
  have "r * C + c < (r + 1) * C" using assms by (simp add: algebra_simps)
  also have "\<dots> \<le> R * C" using assms by (intro mult_right_mono) simp_all
  finally show ?thesis .
qed

lemma uint_cell_sector:
  assumes "grid_fits g" "c < cols g" "r < rows g"
  shows "uint (cell_sector g c r) = uint (firstSector g) + uint r * uint (cols g) + uint c"
proof -
  have "uint r * uint (cols g) + uint c < uint (rows g) * uint (cols g)"
    using assms by (intro cell_index_bound) (simp_all add: word_less_def)
  then have "uint (firstSector g) + uint r * uint (cols g) + uint c < 2 ^ 32"
    using assms(1) by (simp add: grid_fits_def)
  moreover have "cell_sector g c r =
      word_of_int (uint (firstSector g) + uint r * uint (cols g) + uint c)"
    by (simp add: cell_sector_def)
  ultimately show ?thesis
    by (simp only: uint_word_of_int) (simp add: take_bit_int_eq_self_iff)
qed

lemma cell_sector_range:
  assumes "grid_fits g" "c < cols g" "r < rows g"
  shows "uint (firstSector g) \<le> uint (cell_sector g c r)"
    and "uint (cell_sector g c r) < uint (firstSector g) + uint (rows g) * uint (cols g)"
proof -
  have "uint r * uint (cols g) + uint c < uint (rows g) * uint (cols g)"
    using assms by (intro cell_index_bound) (simp_all add: word_less_def)
  then show "uint (firstSector g) \<le> uint (cell_sector g c r)"
    and "uint (cell_sector g c r) < uint (firstSector g) + uint (rows g) * uint (cols g)"
    using uint_cell_sector [OF assms] by simp_all
qed

text \<open>Two cells of one grid have different identifiers.\<close>

lemma cell_sector_inj:
  assumes "grid_fits g" "c < cols g" "r < rows g" "c' < cols g" "r' < rows g"
    and "cell_sector g c r = cell_sector g c' r'"
  shows "c = c' \<and> r = r'"
proof -
  let ?C = "uint (cols g)"
  have C: "0 < ?C" using assms(2) by (metis le_less_trans uint_0_eq uint_ge_0 word_less_def)
  have e: "uint r * ?C + uint c = uint r' * ?C + uint c'"
    using assms uint_cell_sector [of g c r] uint_cell_sector [of g c' r'] by simp
  have cs: "uint c < ?C" "uint c' < ?C" using assms by (simp_all add: word_less_def)
  have "uint r = (uint r * ?C + uint c) div ?C" using cs C by simp
  also have "\<dots> = (uint r' * ?C + uint c') div ?C" by (simp only: e)
  also have "\<dots> = uint r'" using cs C by simp
  finally have "uint r = uint r'" .
  moreover from this e have "uint c = uint c'" by simp
  ultimately show ?thesis by (simp add: word_uint_eq_iff)
qed

section \<open>Resolution\<close>

text \<open>The loop is a search: the answer is that of the first neighbour, in configuration order, whose
  grid covers the translated position.\<close>

definition neighbour_cell :: "grid_spec \<Rightarrow> f32 \<Rightarrow> f32 \<Rightarrow> neighbour \<Rightarrow> (u32 \<times> u32) option" where
  "neighbour_cell s x y nb =
     (case to_neighbour s (nb_dir nb) (nb_grid nb) x y of (lx, ly) \<Rightarrow> Locate (nb_grid nb) lx ly)"

definition neighbour_answer :: "grid_spec \<Rightarrow> f32 \<Rightarrow> f32 \<Rightarrow> neighbour \<Rightarrow> resolved" where
  "neighbour_answer s x y nb =
     (case to_neighbour s (nb_dir nb) (nb_grid nb) x y of (lx, ly) \<Rightarrow>
        case the (neighbour_cell s x y nb) of (c, r) \<Rightarrow>
          \<lparr>sectorId = cell_sector (nb_grid nb) c r, isSelf = False, localX = lx, localY = ly,
           res_host = peerHost nb, res_port = peerPort nb\<rparr>)"

lemma resolve_neighbours_find:
  "resolve_neighbours s nbs x y =
     (case find (\<lambda>nb. neighbour_cell s x y nb \<noteq> None) nbs of
        None \<Rightarrow> unresolved | Some nb \<Rightarrow> neighbour_answer s x y nb)"
  by (induction nbs)
     (auto simp: neighbour_cell_def neighbour_answer_def Let_def split: prod.splits option.splits)

lemma neighbour_answer_range:
  assumes "neighbour_cell s x y nb \<noteq> None" "grid_fits (nb_grid nb)"
  shows "uint (firstSector (nb_grid nb)) \<le> uint (sectorId (neighbour_answer s x y nb))"
    and "uint (sectorId (neighbour_answer s x y nb)) <
           uint (firstSector (nb_grid nb)) + uint (rows (nb_grid nb)) * uint (cols (nb_grid nb))"
proof -
  obtain lx ly where l: "to_neighbour s (nb_dir nb) (nb_grid nb) x y = (lx, ly)" by fastforce
  then obtain c r where cr: "Locate (nb_grid nb) lx ly = Some (c, r)"
    using assms(1) by (auto simp: neighbour_cell_def)
  have e: "sectorId (neighbour_answer s x y nb) = cell_sector (nb_grid nb) c r"
    using l cr by (simp add: neighbour_answer_def neighbour_cell_def)
  show "uint (firstSector (nb_grid nb)) \<le> uint (sectorId (neighbour_answer s x y nb))"
    and "uint (sectorId (neighbour_answer s x y nb)) <
           uint (firstSector (nb_grid nb)) + uint (rows (nb_grid nb)) * uint (cols (nb_grid nb))"
    unfolding e using Locate_in_range [OF cr] assms(2) by (simp_all add: cell_sector_range)
qed

lemma resolve_neighbours_not_self: "\<not> isSelf (resolve_neighbours s nbs x y)"
  by (induction nbs) (auto simp: unresolved_def Let_def split: prod.splits option.splits)

lemma SectorForPos_self: "isSelf (SectorForPos w x y) \<longleftrightarrow> Locate (g_self w) x y \<noteq> None"
  by (auto simp: SectorForPos_def resolve_neighbours_not_self split: option.splits)

section \<open>Stitched edges\<close>

text \<open>The layout the header documents: three by three cells of 2044 metres, the south-west one
  centred at (-2042, -2042).\<close>

definition grid_3x3 :: "u32 \<Rightarrow> grid_spec" where
  "grid_3x3 first = \<lparr>originX = f32_of_int (-2042), originY = f32_of_int (-2042),
     cellSize = f32_of_int 2044, cols = 3, rows = 3, firstSector = first\<rparr>"

definition stitched :: "direction \<Rightarrow> u32 \<Rightarrow> u32 \<Rightarrow> string \<Rightarrow> u16 \<Rightarrow> world_grid" where
  "stitched d self other host port =
     \<lparr>g_self = grid_3x3 self,
      g_neighbours = [\<lparr>nb_dir = d, nb_grid = grid_3x3 other, peerHost = host, peerPort = port\<rparr>]\<rparr>"

definition metres :: "int \<Rightarrow> int" where
  "metres n = n * f32_unit"

lemma grid_3x3_constants:
  "fsub (f32_of_int (-2042)) (fmul f32_half (f32_of_int 2044)) = Fin (metres (-3064))"
  "fmul (u32_to_f32 3) (f32_of_int 2044) = Fin (metres 6132)"
  "fadd (Fin (metres (-3064))) (Fin (metres 6132)) = Fin (metres 3068)"
  "fle (f32_of_int 2044) (Fin 0) = False"
  by code_simp+

lemma grid_3x3_simps [simp]:
  "west_edge (grid_3x3 f) = Fin (metres (-3064))" "south_edge (grid_3x3 f) = Fin (metres (-3064))"
  "grid_width (grid_3x3 f) = Fin (metres 6132)" "grid_height (grid_3x3 f) = Fin (metres 6132)"
  "east_edge (grid_3x3 f) = Fin (metres 3068)" "north_edge (grid_3x3 f) = Fin (metres 3068)"
  "cols (grid_3x3 f) = 3" "rows (grid_3x3 f) = 3" "firstSector (grid_3x3 f) = f"
  by (simp_all add: west_edge_def south_edge_def grid_width_def grid_height_def east_edge_def
      north_edge_def grid_3x3_def grid_3x3_constants(1,2) del: fadd.simps)
     (simp_all only: grid_3x3_constants(3))

lemma Locate_3x3:
  "Locate (grid_3x3 f) x y \<noteq> None \<longleftrightarrow>
     \<not> fless x (Fin (metres (-3064))) \<and> \<not> fle (Fin (metres 3068)) x \<and>
     \<not> fless y (Fin (metres (-3064))) \<and> \<not> fle (Fin (metres 3068)) y"
  by (simp add: Locate_def Let_def) (simp add: grid_3x3_def grid_3x3_constants)

lemma Locate_3x3_west: "fless x (Fin (metres (-3064))) \<Longrightarrow> Locate (grid_3x3 f) x y = None"
  using Locate_3x3 [of f x y] by blast

text \<open>The first float west of the western edge.\<close>

definition west_of_edge :: int where
  "west_of_edge = metres (-3064) - 2 ^ 137"

lemma west_chain:
  "fsub (fadd (fadd (fsub (Fin west_of_edge) (Fin (metres (-3064)))) (Fin (metres (-3064))))
     (Fin (metres 6132))) (Fin (metres 6132)) = Fin west_of_edge"
  "fless (Fin west_of_edge) (Fin (metres (-3064)))"
  by code_simp+

lemma west_translation_stays_west:
  assumes "fle x (Fin west_of_edge)"
  shows "fless (fst (to_neighbour (grid_3x3 a) West (grid_3x3 b) x y)) (Fin (metres (-3064)))"
proof -
  have "fle (fst (to_neighbour (grid_3x3 a) West (grid_3x3 b) x y))
      (fst (to_neighbour (grid_3x3 a) West (grid_3x3 b) (Fin west_of_edge) y))"
    using assms by (simp add: fsub_mono fadd_mono)
  then show ?thesis by (simp add: west_chain fle_fless_trans [OF _ west_chain(2)])
qed

lemma stitched_West_never:
  assumes "fle x (Fin west_of_edge)"
  shows "SectorForPos (stitched West a b h p) x y = unresolved"
proof -
  have "Locate (grid_3x3 a) x y = None"
    using Locate_3x3 [of a x y] fle_fless_trans [OF assms west_chain(2)] by blast
  moreover have "neighbour_cell (grid_3x3 a) x y
      \<lparr>nb_dir = West, nb_grid = grid_3x3 b, peerHost = h, peerPort = p\<rparr> = None"
    using west_translation_stays_west [OF assms, of a b y]
    by (auto simp: neighbour_cell_def simp del: to_neighbour.simps split: prod.split
        intro!: Locate_3x3_west)
  ultimately show ?thesis
    by (simp add: SectorForPos_def stitched_def resolve_neighbours_find)
qed

lemma east_chain:
  "fadd (fsub (Fin (metres 3068)) (Fin (metres 3068))) (Fin (metres (-3064))) = Fin (metres (-3064))"
  "fadd (fsub (Fin (metres 9199)) (Fin (metres 3068))) (Fin (metres (-3064))) = Fin (metres 3067)"
  "fless (Fin (metres 3067)) (Fin (metres 3068))"
  by code_simp+

lemma stitched_East:
  assumes "fle (Fin (metres 3068)) x" "fle x (Fin (metres 9199))"
    and "fle (Fin (metres (-3064))) y" "fless y (Fin (metres 3068))"
    and "uint b + 9 < 2 ^ 32"
  shows "\<not> isSelf (SectorForPos (stitched East a b h p) x y)"
    and "uint b \<le> uint (sectorId (SectorForPos (stitched East a b h p) x y))"
    and "uint (sectorId (SectorForPos (stitched East a b h p) x y)) < uint b + 9"
    and "fle (Fin (metres (-3064))) (localX (SectorForPos (stitched East a b h p) x y))"
    and "fle (localX (SectorForPos (stitched East a b h p) x y)) (Fin (metres 3067))"
    and "localY (SectorForPos (stitched East a b h p) x y) = y"
    and "res_host (SectorForPos (stitched East a b h p) x y) = h"
    and "res_port (SectorForPos (stitched East a b h p) x y) = p"
proof -
  let ?nb = "\<lparr>nb_dir = East, nb_grid = grid_3x3 b, peerHost = h, peerPort = p\<rparr>"
  let ?lx = "fadd (fsub x (Fin (metres 3068))) (Fin (metres (-3064)))"
  have lo: "fle (Fin (metres (-3064))) ?lx"
    using fadd_mono [OF fsub_mono [OF assms(1)]] by (metis east_chain(1))
  have hi: "fle ?lx (Fin (metres 3067))"
    using fadd_mono [OF fsub_mono [OF assms(2)]] by (metis east_chain(2))
  have "Locate (grid_3x3 a) x y = None"
    using Locate_3x3 [of a x y] assms(1) by blast
  moreover have "Locate (grid_3x3 b) ?lx y \<noteq> None"
    unfolding Locate_3x3
    using fle_not_fless [OF lo] fle_not_fless [OF assms(3)] fless_not_fle [OF assms(4)]
      fless_not_fle [OF fle_fless_trans [OF hi east_chain(3)]] by simp
  then have c: "neighbour_cell (grid_3x3 a) x y ?nb \<noteq> None"
    by (simp add: neighbour_cell_def)
  ultimately have e: "SectorForPos (stitched East a b h p) x y = neighbour_answer (grid_3x3 a) x y ?nb"
    by (simp add: SectorForPos_def stitched_def resolve_neighbours_find)
  have f: "grid_fits (nb_grid ?nb)" using assms(5) by (simp add: grid_fits_def)
  show "uint b \<le> uint (sectorId (SectorForPos (stitched East a b h p) x y))"
    and "uint (sectorId (SectorForPos (stitched East a b h p) x y)) < uint b + 9"
    using neighbour_answer_range [OF c f] by (simp_all add: e)
  show "\<not> isSelf (SectorForPos (stitched East a b h p) x y)"
    and "fle (Fin (metres (-3064))) (localX (SectorForPos (stitched East a b h p) x y))"
    and "fle (localX (SectorForPos (stitched East a b h p) x y)) (Fin (metres 3067))"
    and "localY (SectorForPos (stitched East a b h p) x y) = y"
    and "res_host (SectorForPos (stitched East a b h p) x y) = h"
    and "res_port (SectorForPos (stitched East a b h p) x y) = p"
    using lo hi by (simp_all add: e neighbour_answer_def split: prod.split)
qed

text \<open>A server with no grid of its own configured still matches its neighbours.\<close>

lemma unconfigured_self_still_resolves:
  "sectorId (SectorForPos \<lparr>g_self = no_grid,
     g_neighbours = [\<lparr>nb_dir = East, nb_grid = grid_3x3 451, peerHost = ''h'', peerPort = 28000\<rparr>]\<rparr>
     (f32_of_int 3000) (f32_of_int 0)) = 455"
  by code_simp

section \<open>Properties\<close>

text \<open>Whatever the rounding of the float arithmetic does, a position located in a grid falls
  into one of its cells, the sector identifier lies in the grid's range without wrapping, and the
  identifier determines the cell, row by row from the south-west.\<close>

theorem located_sector_in_grid:
  assumes "Locate g x y = Some (c, r)" and "grid_fits g"
  shows "uint (firstSector g) \<le> uint (cell_sector g c r) \<and>
    uint (cell_sector g c r) < uint (firstSector g) + uint (rows g) * uint (cols g) \<and>
    uint c = (uint (cell_sector g c r) - uint (firstSector g)) mod uint (cols g) \<and>
    uint r = (uint (cell_sector g c r) - uint (firstSector g)) div uint (cols g)"
proof -
  have cr: "c < cols g" "r < rows g" using Locate_in_range [OF assms(1)] by auto
  then have "uint c < uint (cols g)" by (simp add: word_less_def)
  moreover from this have "0 < uint (cols g)" by (rule le_less_trans [rotated]) simp
  ultimately have "(uint r * uint (cols g) + uint c) div uint (cols g) = uint r"
    "(uint r * uint (cols g) + uint c) mod uint (cols g) = uint c"
    by simp_all
  moreover have "uint (cell_sector g c r) - uint (firstSector g) = uint r * uint (cols g) + uint c"
    using uint_cell_sector [OF assms(2) cr] by simp
  ultimately show ?thesis using cell_sector_range [OF assms(2) cr] by simp
qed

theorem located_sector_in_grid_witness:
  "uint (442 :: u32) \<le> uint (cell_sector (grid_3x3 442) 1 2) \<and>
   uint (cell_sector (grid_3x3 442) 1 2) < 442 + 3 * 3"
proof -
  have "Locate (grid_3x3 442) (f32_of_int 5) (f32_of_int 2000) = Some (1, 2)" by code_simp
  then show ?thesis using located_sector_in_grid [of "grid_3x3 442"] by (simp add: grid_fits_def)
qed

text \<open>Resolution is a first-match search: the server's own grid wins, then the first
  neighbour in configuration order whose grid covers the translated position answers with its
  own coordinates and peer, and otherwise nothing is resolved.\<close>

theorem resolution_is_first_match:
  "SectorForPos w x y =
     (case Locate (g_self w) x y of
        Some (c, r) \<Rightarrow> unresolved\<lparr>sectorId := cell_sector (g_self w) c r, isSelf := True,
                          localX := x, localY := y\<rparr>
      | None \<Rightarrow>
          (case find (\<lambda>nb. neighbour_cell (g_self w) x y nb \<noteq> None) (g_neighbours w) of
             None \<Rightarrow> unresolved
           | Some nb \<Rightarrow> neighbour_answer (g_self w) x y nb))"
  by (simp add: SectorForPos_def resolve_neighbours_find split: option.split)





text \<open>Leaving the own grid unconfigured does not disable hand-offs: with a neighbour listed, a
  position inside the neighbour's translated grid still resolves to a foreign sector.\<close>

theorem unconfigured_grid_still_hands_off:
  "sectorId (SectorForPos (Configure no_grid
       [\<lparr>nb_dir = East, nb_grid = grid_3x3 451, peerHost = ''h'', peerPort = 28000\<rparr>] w)
     (f32_of_int 3000) (f32_of_int 0)) = 455"
proof -
  have "Configure no_grid nbs w = \<lparr>g_self = no_grid, g_neighbours = nbs\<rparr>" for nbs
    by (simp add: Configure_def)
  then show ?thesis by (simp only: unconfigured_self_still_resolves)
qed

end
