(* ===== verification/Sector_Handoff.thy ===== *)
theory Sector_Handoff
  imports Dispatcher_Laws World_Grid
begin

text \<open>
  The sector hand-off event (\<open>source/server/hooks/netevent/sector_handoff_event.cpp\<close>): its packed
  wire struct, the pack slot, the decoding of a received payload, the payload builder, the class
  registration that clones engine tables and overrides slots, and the forward to another server
  through the dispatcher. The event object is its bytes; addresses of the hook's own functions and
  tables are parameters, and so is what the engine holds in the cloned templates.
\<close>

section \<open>The wire struct\<close>

text \<open>The fields after the engine's base (offset 0x48 on); floats are their bit patterns.\<close>

record handoff =
  proto_version :: u8
  ho_flags :: u8
  reserved0 :: u16
  ho_seq :: u32
  handoff_token :: u64
  src_server_uuid :: bytes
  dst_server_uuid :: bytes
  char_id :: u32
  account_id :: u32
  pos_x :: u32
  pos_y :: u32
  pos_z :: u32
  ho_yaw :: u32
  hp_q16 :: u32
  stamina_q16 :: u32
  hunger_q16 :: u32
  thirst_q16 :: u32
  world_sector_id :: u32
  reserved_v2 :: u32
  world_x :: u32
  world_y :: u32

definition handoff_ok :: "handoff \<Rightarrow> bool" where
  "handoff_ok h \<longleftrightarrow> length (src_server_uuid h) = 16 \<and> length (dst_server_uuid h) = 16"

definition kEngineBase :: nat where "kEngineBase = 0x48"
definition kSectorHandoffSize :: nat where "kSectorHandoffSize = 0xB0"
definition kWireSizeV1 :: nat where "kWireSizeV1 = 96"
definition kWireSizeV2 :: nat where "kWireSizeV2 = kSectorHandoffSize - kEngineBase"

definition handoff_bytes :: "handoff \<Rightarrow> bytes" where
  "handoff_bytes h =
     store_le 1 (proto_version h) @ store_le 1 (ho_flags h) @ store_le 2 (reserved0 h) @
     store_le 4 (ho_seq h) @ store_le 8 (handoff_token h) @ src_server_uuid h @ dst_server_uuid h @
     store_le 4 (char_id h) @ store_le 4 (account_id h) @ store_le 4 (pos_x h) @
     store_le 4 (pos_y h) @ store_le 4 (pos_z h) @ store_le 4 (ho_yaw h) @
     store_le 4 (hp_q16 h) @ store_le 4 (stamina_q16 h) @ store_le 4 (hunger_q16 h) @
     store_le 4 (thirst_q16 h) @ store_le 4 (world_sector_id h) @ store_le 4 (reserved_v2 h) @
     store_le 4 (world_x h) @ store_le 4 (world_y h)"

text \<open>The same fields read through the two packed views of \<open>DecodeAndLog\<close>.\<close>

definition handoff_view :: "bytes \<Rightarrow> handoff" where
  "handoff_view b =
     \<lparr>proto_version = load_le (sub_bytes 0x00 1 b), ho_flags = load_le (sub_bytes 0x01 1 b),
      reserved0 = load_le (sub_bytes 0x02 2 b), ho_seq = load_le (sub_bytes 0x04 4 b),
      handoff_token = load_le (sub_bytes 0x08 8 b), src_server_uuid = sub_bytes 0x10 16 b,
      dst_server_uuid = sub_bytes 0x20 16 b, char_id = load_le (sub_bytes 0x30 4 b),
      account_id = load_le (sub_bytes 0x34 4 b), pos_x = load_le (sub_bytes 0x38 4 b),
      pos_y = load_le (sub_bytes 0x3C 4 b), pos_z = load_le (sub_bytes 0x40 4 b),
      ho_yaw = load_le (sub_bytes 0x44 4 b), hp_q16 = load_le (sub_bytes 0x48 4 b),
      stamina_q16 = load_le (sub_bytes 0x4C 4 b), hunger_q16 = load_le (sub_bytes 0x50 4 b),
      thirst_q16 = load_le (sub_bytes 0x54 4 b), world_sector_id = load_le (sub_bytes 0x58 4 b),
      reserved_v2 = load_le (sub_bytes 0x5C 4 b), world_x = load_le (sub_bytes 0x60 4 b),
      world_y = load_le (sub_bytes 0x64 4 b)\<rparr>"

lemma length_handoff_bytes [simp, wire_simps]: "handoff_ok h \<Longrightarrow> length (handoff_bytes h) = 104"
  by (simp add: handoff_bytes_def handoff_ok_def)

lemma sub_bytes_all: "length xs = n \<Longrightarrow> sub_bytes 0 n xs = xs"
  by (simp add: sub_bytes_def)

lemma sub_bytes_rest: "k = off + n \<Longrightarrow> sub_bytes off n xs @ drop k xs = drop off xs"
  by (simp add: sub_bytes_def) (metis add.commute append_take_drop_id drop_drop)

lemma sub_bytes_drop: "sub_bytes off n (drop k xs) = sub_bytes (k + off) n xs"
  by (simp add: sub_bytes_def add.commute)

lemma sub_bytes_last: "off + n = length xs \<Longrightarrow> sub_bytes off n xs = drop off xs"
  by (simp add: sub_bytes_def)

lemmas sub_bytes_append = sub_bytes_append_left sub_bytes_append_right sub_bytes_all

lemma handoff_view_bytes: "handoff_ok h \<Longrightarrow> handoff_view (handoff_bytes h) = h"
  unfolding handoff_view_def handoff_bytes_def handoff_ok_def
  by (simp add: sub_bytes_append load_store_le)

lemma store_load_sub:
  "LENGTH('a::len) = 8 * n \<Longrightarrow> off + n \<le> length b \<Longrightarrow>
   store_le n (load_le (sub_bytes off n b) :: 'a word) = sub_bytes off n b"
  using store_load_le [of "sub_bytes off n b", where 'a = 'a] by simp

lemma handoff_bytes_view:
  assumes "length b = 104"
  shows "handoff_bytes (handoff_view b) = b"
  using assms
  by (simp add: handoff_bytes_def handoff_view_def store_load_sub)
     (simp add: sub_bytes_rest sub_bytes_last [of 100])

lemma handoff_view_ok: "length b = 104 \<Longrightarrow> handoff_ok (handoff_view b)"
  by (simp add: handoff_view_def handoff_ok_def)

interpretation handoff_wire: codec handoff_bytes
    "\<lambda>b. if length b = kWireSizeV2 then Some (handoff_view b) else None" handoff_ok
  by unfold_locales (simp add: handoff_view_bytes kWireSizeV2_def kSectorHandoffSize_def kEngineBase_def)

section \<open>Packing and decoding\<close>

text \<open>Slot 7 of the event table: the payload leaves as 32-bit words through the engine's
  \<open>BitStream::writeInt\<close>; the value is the sequence of words written.\<close>

definition ourPack :: "bytes \<Rightarrow> u32 list" where
  "ourPack evt =
     map (\<lambda>i. load_le (sub_bytes (kEngineBase + 4 * i) 4 evt))
       [0..<(kSectorHandoffSize - kEngineBase) div 4]"

lemma concat_chunks:
  "length b = n * 4 \<Longrightarrow> concat (map (\<lambda>i. sub_bytes (4 * i) 4 b) [0..<n]) = b"
proof (induction n arbitrary: b)
  case (Suc n)
  have "concat (map (\<lambda>i. sub_bytes (4 * i) 4 b) [0..<n]) = concat (map (\<lambda>i. sub_bytes (4 * i) 4 (take (4 * n) b)) [0..<n])"
    by (rule arg_cong [where f = concat]) (auto simp: sub_bytes_def take_drop min_def)
  also have "\<dots> = take (4 * n) b" using Suc by simp
  finally show ?case using Suc.prems by (simp add: sub_bytes_last)
qed simp

lemma ourPack_words:
  assumes "length evt = kSectorHandoffSize"
  shows "length (ourPack evt) = 26"
    and "concat (map (store_le 4) (ourPack evt)) = drop kEngineBase evt"
proof -
  show "length (ourPack evt) = 26"
    by (simp add: ourPack_def kSectorHandoffSize_def kEngineBase_def)
  have "map (store_le 4) (ourPack evt) = map (\<lambda>i. sub_bytes (4 * i) 4 (drop kEngineBase evt)) [0..<26]"
    using assms
    by (auto simp: ourPack_def kSectorHandoffSize_def kEngineBase_def store_load_sub sub_bytes_drop)
  then show "concat (map (store_le 4) (ourPack evt)) = drop kEngineBase evt"
    using assms by (simp add: concat_chunks kSectorHandoffSize_def kEngineBase_def)
qed

datatype decode_outcome =
    WrongSize nat
  | UnsupportedProto u8 nat
  | Decoded bool handoff bool

text \<open>\<open>Decoded deprecated h has_world\<close>: whether the deprecation warning was printed, the fields,
  and whether the two world fields were printed; they are only read from a 104-byte payload.\<close>

definition DecodeAndLog :: "bytes \<Rightarrow> decode_outcome" where
  "DecodeAndLog payload =
     (let sz = length payload in
      if sz \<noteq> kWireSizeV1 \<and> sz \<noteq> kWireSizeV2 then WrongSize sz
      else
        let v = handoff_view payload
        in if proto_version v = 1 \<and> sz = kWireSizeV1 then Decoded True v False
           else if proto_version v \<noteq> 2 then UnsupportedProto (proto_version v) sz
           else Decoded False v (sz = kWireSizeV2))"

lemmas wire_sizes = kWireSizeV1_def kWireSizeV2_def kSectorHandoffSize_def kEngineBase_def

lemma DecodeAndLog_wire:
  assumes "handoff_ok h" "proto_version h = 2"
  shows "DecodeAndLog (handoff_bytes h) = Decoded False h True"
  using assms by (simp add: DecodeAndLog_def Let_def wire_sizes handoff_view_bytes)

section \<open>Building a payload\<close>

text \<open>The builder writes at fixed offsets into 104 zero bytes. The placeholder floats are literals:
  1.5, -2.5, 100.25 and 3.14159.\<close>

definition uuid_run :: "u8 \<Rightarrow> bytes" where
  "uuid_run b = map (\<lambda>i. b + of_nat i) [0..<16]"

definition payload_writes :: "u32 \<Rightarrow> u32 \<Rightarrow> f32 \<Rightarrow> f32 \<Rightarrow> (nat \<times> bytes) list" where
  "payload_writes ch sector x y =
     [(0x00, [2]), (0x01, [1]), (0x04, store_le 4 (1 :: u32)),
      (0x08, store_le 8 (0xCAFEF00DBADD1E55 :: u64)),
      (0x10, uuid_run 0xA0), (0x20, uuid_run 0xB0),
      (0x30, store_le 4 ch), (0x34, store_le 4 (0x33334444 :: u32)),
      (0x38, store_le 4 (0x3FC00000 :: u32)), (0x3C, store_le 4 (0xC0200000 :: u32)),
      (0x40, store_le 4 (0x42C88000 :: u32)), (0x44, store_le 4 (0x40490FD0 :: u32)),
      (0x48, store_le 4 (100 * 65536 :: u32)), (0x4C, store_le 4 (50 * 65536 :: u32)),
      (0x50, store_le 4 (30 * 65536 :: u32)), (0x54, store_le 4 (20 * 65536 :: u32)),
      (0x58, store_le 4 sector), (0x5C, store_le 4 (0 :: u32)),
      (0x60, store_le 4 (f32_bits x)), (0x64, store_le 4 (f32_bits y))]"

definition buildV2Payload :: "u32 \<Rightarrow> u32 \<Rightarrow> f32 \<Rightarrow> f32 \<Rightarrow> bytes" where
  "buildV2Payload ch sector x y =
     fold (\<lambda>(off, v) b. put_at off v b) (payload_writes ch sector x y) (replicate kWireSizeV2 0)"

definition sample_handoff :: "u32 \<Rightarrow> u32 \<Rightarrow> f32 \<Rightarrow> f32 \<Rightarrow> handoff" where
  "sample_handoff ch sector x y =
     \<lparr>proto_version = 2, ho_flags = 1, reserved0 = 0, ho_seq = 1,
      handoff_token = 0xCAFEF00DBADD1E55, src_server_uuid = uuid_run 0xA0,
      dst_server_uuid = uuid_run 0xB0, char_id = ch, account_id = 0x33334444,
      pos_x = 0x3FC00000, pos_y = 0xC0200000, pos_z = 0x42C88000, ho_yaw = 0x40490FD0,
      hp_q16 = 100 * 65536, stamina_q16 = 50 * 65536, hunger_q16 = 30 * 65536,
      thirst_q16 = 20 * 65536, world_sector_id = sector, reserved_v2 = 0,
      world_x = f32_bits x, world_y = f32_bits y\<rparr>"

text \<open>Reading a field of a buffer filled by consecutive writes: the part before the write at that
  offset does not matter, the part after it does not overlap.\<close>

fun adjacent :: "nat \<Rightarrow> (nat \<times> bytes) list \<Rightarrow> bool" where
  "adjacent pos [] = True"
| "adjacent pos ((off, v) # ws) = (pos \<le> off \<and> adjacent (off + length v) ws)"

fun filled :: "nat \<Rightarrow> (nat \<times> bytes) list \<Rightarrow> nat \<Rightarrow> bytes" where
  "filled pos [] sz = replicate (sz - pos) 0"
| "filled pos ((off, v) # ws) sz = replicate (off - pos) 0 @ v @ filled (off + length v) ws sz"

lemma fold_puts_filled:
  "adjacent (length pre) ws \<Longrightarrow>
   (\<forall>(off, v) \<in> set ws. off + length v \<le> sz) \<Longrightarrow> length pre \<le> sz \<Longrightarrow>
   fold (\<lambda>(off, v) b. put_at off v b) ws (pre @ replicate (sz - length pre) 0) =
   pre @ filled (length pre) ws sz"
proof (induction ws arbitrary: pre)
  case (Cons w ws)
  obtain off v where w: "w = (off, v)" by (cases w)
  have le: "length pre \<le> off" "off + length v \<le> sz" using Cons.prems w by auto
  let ?pre = "pre @ replicate (off - length pre) 0 @ v"
  have p: "put_at off v (pre @ replicate (sz - length pre) 0) = ?pre @ replicate (sz - length ?pre) 0"
    using le by (simp add: put_at_def min_def)
  have l: "length ?pre = off + length v" using le by simp
  have "fold (\<lambda>(off, v) b. put_at off v b) ws (?pre @ replicate (sz - length ?pre) 0) =
      ?pre @ filled (length ?pre) ws sz"
    using Cons.prems w le l by (intro Cons.IH) auto
  then show ?case by (simp only: w fold_simps prod.case p l filled.simps append_assoc)
qed simp

lemma buildV2Payload_struct:
  "buildV2Payload ch sector x y = handoff_bytes (sample_handoff ch sector x y)"
proof -
  have "buildV2Payload ch sector x y = [] @ filled (length []) (payload_writes ch sector x y) kWireSizeV2"
    unfolding buildV2Payload_def
    using fold_puts_filled [of "[]" "payload_writes ch sector x y" kWireSizeV2]
    by (simp add: payload_writes_def uuid_run_def wire_sizes)
  moreover have "store_le (Suc 0) (2 :: u8) = [2]" "store_le (Suc 0) (1 :: u8) = [1]"
    "store_le 2 (0 :: u16) = [0, 0]"
    by code_simp+
  moreover have "replicate (Suc (Suc 0)) (0 :: u8) = [0, 0]" by simp
  ultimately show ?thesis
    by (simp add: payload_writes_def handoff_bytes_def sample_handoff_def uuid_run_def wire_sizes
        numeral_2_eq_2)
qed

lemma sample_handoff_ok [simp]: "handoff_ok (sample_handoff ch sector x y)"
  by (simp add: handoff_ok_def sample_handoff_def uuid_run_def)

lemma length_buildV2Payload [simp]: "length (buildV2Payload ch sector x y) = 104"
  by (simp add: buildV2Payload_struct)

lemma DecodeAndLog_build:
  "DecodeAndLog (buildV2Payload ch sector x y) = Decoded False (sample_handoff ch sector x y) True"
  unfolding buildV2Payload_struct by (rule DecodeAndLog_wire) (simp, simp add: sample_handoff_def)

section \<open>Registration\<close>

text \<open>What the linker and the engine give: the addresses of the hook's functions and tables, the
  three templates the engine has in memory, and whether the module handle resolves.\<close>

record handoff_syms =
  a_create :: u64
  a_unpack :: u64
  a_descriptor :: u64
  a_getrep :: u64
  a_stub :: u64
  a_pack :: u64
  a_process :: u64
  a_classRep :: u64
  a_classRepVtable :: u64
  a_eventVftable :: u64

record engine_templates =
  tmpl_classRep :: bytes
  tmpl_repVtable :: "u64 list"
  tmpl_eventVftable :: "u64 list"
  module_found :: bool

record handoff_state =
  g_registered :: bool
  g_classRep :: bytes
  g_classRepVtable :: "u64 list"
  g_eventVftable :: "u64 list"
  g_classDescriptor :: bytes
  reps_added :: "u64 list"

definition kClassRepBytes :: nat where "kClassRepBytes = 0x80"
definition kClassRepVtableSlots :: nat where "kClassRepVtableSlots = 9"
definition kEventVftableTemplateSlots :: nat where "kEventVftableTemplateSlots = 15"
definition kEventVftableSlots :: nat where "kEventVftableSlots = 16"
definition kSectorHandoffClsIx :: u64 where "kSectorHandoffClsIx = 0x5EC70F00"

definition templates_ok :: "engine_templates \<Rightarrow> bool" where
  "templates_ok t \<longleftrightarrow> length (tmpl_classRep t) = kClassRepBytes \<and>
     length (tmpl_repVtable t) = kClassRepVtableSlots \<and>
     length (tmpl_eventVftable t) = kEventVftableTemplateSlots"

definition handoff_init :: handoff_state where
  "handoff_init = \<lparr>g_registered = False, g_classRep = replicate kClassRepBytes 0,
     g_classRepVtable = replicate kClassRepVtableSlots 0, g_eventVftable = replicate kEventVftableSlots 0,
     g_classDescriptor = replicate 0x40 0, reps_added = []\<rparr>"

definition Register :: "handoff_syms \<Rightarrow> engine_templates \<Rightarrow> handoff_state \<Rightarrow> bool \<times> handoff_state" where
  "Register a t s =
     (if g_registered s then (True, s)
      else if \<not> module_found t then (False, s)
      else
        let ev = tmpl_eventVftable t @
                 replicate (kEventVftableSlots - kEventVftableTemplateSlots) (a_stub a);
            ev = ev[7 := a_pack a, 13 := a_process a, 5 := a_getrep a];
            rv = (tmpl_repVtable t)[5 := a_descriptor a, 7 := a_create a, 8 := a_unpack a];
            rep = put_at 0x50 (store_le 8 (0 :: u64))
                   (put_at 0x40 (store_le 8 (of_nat kSectorHandoffSize :: u64))
                     (put_at 0x08 (store_le 8 kSectorHandoffClsIx)
                       (put_at 0x00 (store_le 8 (a_classRepVtable a)) (tmpl_classRep t))))
        in (True, s\<lparr>g_registered := True, g_classRep := rep, g_classRepVtable := rv,
                    g_eventVftable := ev, g_classDescriptor := replicate 0x40 0,
                    reps_added := reps_added s @ [a_classRep a]\<rparr>))"

text \<open>Slot 7 of the class table: allocate the size the rep names, zeroed, with the event table's
  address at the front.\<close>

definition ourCreate :: "handoff_syms \<Rightarrow> bytes \<Rightarrow> bytes" where
  "ourCreate a rep =
     (let sz = unat (load_le (sub_bytes 0x40 8 rep) :: u64)
      in put_at 0 (store_le 8 (a_eventVftable a)) (replicate sz 0))"

lemma Register_idempotent: "Register a t s = (True, s') \<Longrightarrow> Register a t' s' = (True, s')"
  by (auto simp: Register_def Let_def split: if_splits)

lemma Register_created_event:
  assumes "Register a t s = (True, s')" "\<not> g_registered s" "templates_ok t"
  shows "length (ourCreate a (g_classRep s')) = kSectorHandoffSize"
    and "load_le (sub_bytes 0 8 (ourCreate a (g_classRep s'))) = a_eventVftable a"
    and "drop 8 (ourCreate a (g_classRep s')) = replicate (kSectorHandoffSize - 8) 0"
proof -
  have sz: "sub_bytes 0x40 8 (g_classRep s') = store_le 8 (of_nat kSectorHandoffSize :: u64)"
    using assms
    by (auto simp: Register_def Let_def templates_ok_def kClassRepBytes_def sub_bytes_put_at_same
        sub_bytes_put_at_other split: if_splits)
  have e: "ourCreate a (g_classRep s') =
      put_at 0 (store_le 8 (a_eventVftable a)) (replicate kSectorHandoffSize 0)"
    by (simp add: ourCreate_def sz load_store_le wire_sizes)
  show "length (ourCreate a (g_classRep s')) = kSectorHandoffSize"
    and "load_le (sub_bytes 0 8 (ourCreate a (g_classRep s'))) = a_eventVftable a"
    and "drop 8 (ourCreate a (g_classRep s')) = replicate (kSectorHandoffSize - 8) 0"
    by (simp_all add: e wire_sizes load_store_le put_at_def sub_bytes_append)
qed

lemma Register_vtables:
  assumes "Register a t s = (True, s')" "\<not> g_registered s" "templates_ok t"
  shows "length (g_eventVftable s') = kEventVftableSlots"
    and "g_eventVftable s' ! 5 = a_getrep a" "g_eventVftable s' ! 7 = a_pack a"
    and "g_eventVftable s' ! 13 = a_process a" "g_eventVftable s' ! 15 = a_stub a"
    and "i < 15 \<Longrightarrow> i \<notin> {5, 7, 13} \<Longrightarrow> g_eventVftable s' ! i = tmpl_eventVftable t ! i"
    and "length (g_classRepVtable s') = kClassRepVtableSlots"
    and "g_classRepVtable s' ! 5 = a_descriptor a" "g_classRepVtable s' ! 7 = a_create a"
    and "g_classRepVtable s' ! 8 = a_unpack a"
    and "i < 9 \<Longrightarrow> i \<notin> {5, 7, 8} \<Longrightarrow> g_classRepVtable s' ! i = tmpl_repVtable t ! i"
  using assms
  by (auto simp: Register_def Let_def templates_ok_def kClassRepVtableSlots_def kEventVftableSlots_def
      kEventVftableTemplateSlots_def nth_append nth_list_update split: if_splits)

section \<open>Posting, injecting, forwarding\<close>

text \<open>A deferred hand-off: what the resolve callback of \<open>ForwardToSector\<close> captures.\<close>

record forward =
  fw_char :: u32
  fw_sector :: u32
  fw_x :: f32
  fw_y :: f32

definition ForwardToSector ::
  "u32 \<Rightarrow> u32 \<Rightarrow> f32 \<Rightarrow> f32 \<Rightarrow> forward disp \<Rightarrow> bool \<times> forward disp" where
  "ForwardToSector ch sector x y =
     resolveSector sector \<lparr>fw_char = ch, fw_sector = sector, fw_x = x, fw_y = y\<rparr>"

text \<open>The callback, run on the reader thread once the reply is in.\<close>

definition forward_callback :: "forward \<Rightarrow> resolve_result \<Rightarrow> forward disp \<Rightarrow> bool \<times> forward disp" where
  "forward_callback f r s =
     (if \<not> rr_known r then (False, s)
      else sendTo (rr_peer r) (buildV2Payload (fw_char f) (fw_sector f) (fw_x f) (fw_y f)) s)"

text \<open>An inbound frame together with the callback it triggers.\<close>

definition on_frame :: "string \<Rightarrow> forward disp \<Rightarrow> forward disp" where
  "on_frame body s =
     (case dispatchFrame body s of
        (Resolved f r, s') \<Rightarrow> snd (forward_callback f r s')
      | (_, s') \<Rightarrow> s')"

definition TriggerSampleForward :: "string \<Rightarrow> 'cb disp \<Rightarrow> 'cb disp" where
  "TriggerSampleForward target s =
     (if target = [] then s
      else snd (sendTo target
        (buildV2Payload 0x11112222 451 (Fin (24691 * 2 ^ 148)) (f32_of_int (-6789))) s))"

text \<open>\<open>PostTo\<close>: \<open>post\<close> is the engine's \<open>postNetEvent\<close>, which may modify the event it is given.
  The event is created, filled with sample data, posted; when the engine accepts it and a target
  peer is configured the wire bytes are mirrored to the dispatcher.\<close>

definition fill_event :: "bytes \<Rightarrow> handoff \<Rightarrow> bytes" where
  "fill_event evt h = put_at kEngineBase (handoff_bytes h) evt"

definition post_sample :: handoff where
  "post_sample = sample_handoff 0x11112222 451 (Fin (24691 * 2 ^ 148)) (f32_of_int (-6789))"

definition PostTo ::
  "handoff_syms \<Rightarrow> (bytes \<Rightarrow> u8 \<times> bytes) \<Rightarrow> string \<Rightarrow> bool \<Rightarrow> handoff_state \<Rightarrow> 'cb disp \<Rightarrow> u8 \<times> 'cb disp" where
  "PostTo a post target conn s d =
     (if \<not> conn then (0, d)
      else if \<not> g_registered s then (0, d)
      else case post (fill_event (ourCreate a (g_classRep s)) post_sample) of
        (rc, evt) \<Rightarrow>
          (rc, if rc = 1 \<and> target \<noteq> [] then snd (sendTo target (drop kEngineBase evt) d) else d))"

datatype inject_outcome =
    InjectWrongSize nat
  | NotRegistered
  | Injected bytes u8

text \<open>Slot 13, called through the table of the injected event, only logs and answers 1.\<close>

definition ourProcess :: "bytes \<Rightarrow> u8" where
  "ourProcess evt = 1"

definition InjectFromWire :: "handoff_syms \<Rightarrow> handoff_state \<Rightarrow> bytes \<Rightarrow> inject_outcome" where
  "InjectFromWire a s payload =
     (if length payload \<noteq> kWireSizeV2 then InjectWrongSize (length payload)
      else if \<not> g_registered s then NotRegistered
      else
        let evt = put_at kEngineBase payload (ourCreate a (g_classRep s))
        in Injected evt (ourProcess evt))"

lemma InjectFromWire_event:
  assumes "Register a t s = (True, s')" "\<not> g_registered s" "templates_ok t"
    and "handoff_ok h"
  shows "\<exists>evt. InjectFromWire a s' (handoff_bytes h) = Injected evt 1 \<and>
     length evt = kSectorHandoffSize \<and> load_le (sub_bytes 0 8 evt) = a_eventVftable a \<and>
     handoff_view (drop kEngineBase evt) = h \<and>
     concat (map (store_le 4) (ourPack evt)) = handoff_bytes h"
proof -
  let ?e = "ourCreate a (g_classRep s')"
  let ?evt = "put_at kEngineBase (handoff_bytes h) ?e"
  note c = Register_created_event [OF assms(1-3)]
  have reg: "g_registered s'" using assms(1,2) by (auto simp: Register_def Let_def split: if_splits)
  have len: "length ?evt = kSectorHandoffSize"
    using assms(4) c(1) by (simp add: wire_sizes)
  have d: "drop kEngineBase ?evt = handoff_bytes h"
    using assms(4) c(1) by (simp add: put_at_def wire_sizes)
  have v: "load_le (sub_bytes 0 8 ?evt) = a_eventVftable a"
    using c(1,2) assms(4) sub_bytes_put_at_other [of kEngineBase "handoff_bytes h" ?e 0 8]
    by (simp add: wire_sizes)
  have i: "InjectFromWire a s' (handoff_bytes h) = Injected ?evt 1"
    using reg assms(4) by (simp add: InjectFromWire_def ourProcess_def Let_def wire_sizes)
  show ?thesis
    using i len v ourPack_words(2) [OF len] assms(4) by (simp add: d handoff_view_bytes)
qed

section \<open>A hand-off end to end\<close>

lemma resolveSector_queued:
  assumes "sessionUp s" "length (queue s) < kSendQueueMax"
  shows "resolveSector sid cb s =
    (True, s\<lparr>resolveCbs := (resolveCbs s)(sid := Some cb), queue := queue s @ [resolve_body sid]\<rparr>)"
  using assms fits_resolve [of sid] by (simp add: resolveSector_def Let_def snprintf_fits)

lemma on_frame_resolved:
  assumes "json_plain peer" "resolveCbs s sid = Some f"
  shows "on_frame (sector_resolved_frame sid peer) s =
    snd (sendTo peer (buildV2Payload (fw_char f) (fw_sector f) (fw_x f) (fw_y f))
      (s\<lparr>resolveCbs := (resolveCbs s)(sid := None)\<rparr>))"
  using assms by (simp add: on_frame_def dispatch_resolved Let_def forward_callback_def)

lemma on_frame_unknown:
  "on_frame (sector_unknown_frame sid) s = s\<lparr>resolveCbs := (resolveCbs s)(sid := None)\<rparr>"
  by (auto simp: on_frame_def dispatch_unknown_sector Let_def forward_callback_def fun_upd_idem
      split: option.split)

lemma on_frame_no_waiter:
  assumes "json_plain peer" "resolveCbs s sid = None"
  shows "on_frame (sector_resolved_frame sid peer) s = s"
  using assms by (simp add: on_frame_def dispatch_resolved Let_def)

lemma forward_then_resolved:
  assumes "sessionUp s" "length (queue s) + 1 < kSendQueueMax" "json_plain peer"
  shows "fst (ForwardToSector ch sector x y s)"
    and "queue (on_frame (sector_resolved_frame sector peer) (snd (ForwardToSector ch sector x y s))) =
      queue s @ [resolve_body sector, forward_body peer (buildV2Payload ch sector x y)]"
    and "resolveCbs (on_frame (sector_resolved_frame sector peer)
      (snd (ForwardToSector ch sector x y s))) sector = None"
  using assms
  by (simp_all add: ForwardToSector_def resolveSector_queued on_frame_resolved sendTo_def Let_def)

text \<open>The receiving server decodes exactly the coordinates the sender put in.\<close>

lemma delivered_handoff:
  assumes "json_plain from" "deliveryCb s"
  shows "\<exists>payload. fst (dispatchFrame (delivery_frame from (buildV2Payload ch sector x y)) s) =
       Deliver from payload \<and>
     DecodeAndLog payload = Decoded False (sample_handoff ch sector x y) True"
  using assms by (simp add: dispatch_delivery DecodeAndLog_build)

text \<open>Two hand-offs into one sector while the first reply is still out: the table has one waiter
  per sector, so the first is forgotten, whatever the number of replies.\<close>

lemma second_forward_drops_first:
  assumes "sessionUp s" "length (queue s) + 2 < kSendQueueMax" "json_plain peer"
  shows "queue (on_frame (sector_resolved_frame sector peer)
      (on_frame (sector_resolved_frame sector peer)
        (snd (ForwardToSector c2 sector x2 y2 (snd (ForwardToSector c1 sector x1 y1 s)))))) =
    queue s @ [resolve_body sector, resolve_body sector,
      forward_body peer (buildV2Payload c2 sector x2 y2)]"
  using assms
  by (simp add: ForwardToSector_def resolveSector_queued on_frame_resolved on_frame_no_waiter
      sendTo_def Let_def)

section \<open>Properties\<close>

text \<open>C1: A hand-off reaches the neighbour intact: the forward request queues the resolution of the
  sector, the daemon's answer queues one frame for the resolved peer and clears the waiter, and
  what the peer's server decodes from the delivery names the same character and sector and the
  very same landing coordinates.\<close>

theorem handoff_arrives_intact:
  assumes "sessionUp s" and "length (queue s) + 1 < kSendQueueMax" and "json_plain peer"
    and "json_plain from" and "deliveryCb t" and "f32_repr x" and "f32_repr y"
  shows "fst (ForwardToSector ch sector x y s) \<and>
    queue (on_frame (sector_resolved_frame sector peer) (snd (ForwardToSector ch sector x y s))) =
      queue s @ [resolve_body sector, forward_body peer (buildV2Payload ch sector x y)] \<and>
    resolveCbs (on_frame (sector_resolved_frame sector peer)
      (snd (ForwardToSector ch sector x y s))) sector = None \<and>
    (\<exists>h. fst (dispatchFrame (delivery_frame from (buildV2Payload ch sector x y)) t) =
         Deliver from (handoff_bytes h) \<and>
       DecodeAndLog (handoff_bytes h) = Decoded False h True \<and>
       char_id h = ch \<and> world_sector_id h = sector \<and>
       f32_of_bits (world_x h) = x \<and> f32_of_bits (world_y h) = y)"
proof -
  let ?h = "sample_handoff ch sector x y"
  have "fst (dispatchFrame (delivery_frame from (buildV2Payload ch sector x y)) t) =
      Deliver from (handoff_bytes ?h)"
    using assms(4,5) by (simp add: dispatch_delivery buildV2Payload_struct)
  moreover have "DecodeAndLog (handoff_bytes ?h) = Decoded False ?h True"
    using DecodeAndLog_build [of ch sector x y] by (simp add: buildV2Payload_struct)
  moreover have "char_id ?h = ch" "world_sector_id ?h = sector"
    "f32_of_bits (world_x ?h) = x" "f32_of_bits (world_y ?h) = y"
    using assms(6,7) by (simp_all add: sample_handoff_def f32_bits_round_trip)
  ultimately show ?thesis using forward_then_resolved [OF assms(1-3)] by blast
qed

theorem handoff_arrives_intact_witness:
  "queue (on_frame (sector_resolved_frame 451 ''b'') (snd (ForwardToSector 1 451 (Fin 0) (Fin 3)
     \<lparr>queue = [], sessionUp = True, deliveryCb = True, resolveCbs = Map.empty\<rparr>))) =
   [resolve_body 451, forward_body ''b'' (buildV2Payload 1 451 (Fin 0) (Fin 3))]"
proof -
  let ?s = "\<lparr>queue = [], sessionUp = True, deliveryCb = True, resolveCbs = Map.empty\<rparr> :: forward disp"
  have p: "sessionUp ?s" "length (queue ?s) + 1 < kSendQueueMax" "json_plain ''b''"
    "json_plain ''a''" "deliveryCb ?s" "f32_repr (Fin 0)" "f32_repr (Fin 3)"
    by (simp_all add: kSendQueueMax_def json_plain_def quote_def backslash_def f32_repr_def
        f32_limit_def fround_small)
  show ?thesis using handoff_arrives_intact [OF p, of 1 451] by simp
qed

text \<open>Two hand-offs into the same sector before the first answer: both requests report
  success, but the table keeps one waiter per sector, so only the second character is ever
  forwarded, even though the daemon answers twice.\<close>

theorem concurrent_handoff_drops_first:
  assumes "sessionUp s" and "length (queue s) + 2 < kSendQueueMax" and "json_plain peer"
  shows "fst (ForwardToSector c1 sector x1 y1 s) \<and>
    fst (ForwardToSector c2 sector x2 y2 (snd (ForwardToSector c1 sector x1 y1 s))) \<and>
    queue (on_frame (sector_resolved_frame sector peer)
      (on_frame (sector_resolved_frame sector peer)
        (snd (ForwardToSector c2 sector x2 y2 (snd (ForwardToSector c1 sector x1 y1 s)))))) =
    queue s @ [resolve_body sector, resolve_body sector,
      forward_body peer (buildV2Payload c2 sector x2 y2)]"
proof -
  have "fst (ForwardToSector c1 sector x1 y1 s)"
    "fst (ForwardToSector c2 sector x2 y2 (snd (ForwardToSector c1 sector x1 y1 s)))"
    using assms by (simp_all add: ForwardToSector_def resolveSector_queued)
  then show ?thesis using second_forward_drops_first [OF assms] by blast
qed

theorem concurrent_handoff_drops_first_witness:
  "queue (on_frame (sector_resolved_frame 451 ''b'') (on_frame (sector_resolved_frame 451 ''b'')
     (snd (ForwardToSector 2 451 (Fin 0) (Fin 0) (snd (ForwardToSector 1 451 (Fin 0) (Fin 0)
       \<lparr>queue = [], sessionUp = True, deliveryCb = True, resolveCbs = Map.empty\<rparr>)))))) =
   [resolve_body 451, resolve_body 451, forward_body ''b'' (buildV2Payload 2 451 (Fin 0) (Fin 0))]"
  using concurrent_handoff_drops_first [of
      "\<lparr>queue = [], sessionUp = True, deliveryCb = True, resolveCbs = Map.empty\<rparr>" "''b''"
      1 451 "Fin 0" "Fin 0" 2 "Fin 0" "Fin 0"]
  by (simp add: kSendQueueMax_def json_plain_def quote_def backslash_def)

text \<open>The wire struct is a bijection: every 104-byte payload is the image of exactly the fields
  read from it, and the fields of a well-sized struct are read back unchanged.\<close>

theorem handoff_struct_bijective:
  assumes "length b = 104" and "handoff_ok h"
  shows "handoff_bytes (handoff_view b) = b \<and> handoff_view (handoff_bytes h) = h"
  using handoff_bytes_view [OF assms(1)] handoff_view_bytes [OF assms(2)] by blast

theorem handoff_struct_bijective_witness:
  "handoff_bytes (handoff_view (replicate 104 7)) = replicate 104 7"
  using handoff_struct_bijective [of "replicate 104 7" "sample_handoff 1 2 (Fin 0) (Fin 0)"] by simp

text \<open>The offset writes of the payload builder produce the bytes of the declared struct, and
  the decoder accepts them as version 2 with the fields put in.\<close>

theorem builder_matches_struct:
  "buildV2Payload ch sector x y = handoff_bytes (sample_handoff ch sector x y) \<and>
   DecodeAndLog (buildV2Payload ch sector x y) = Decoded False (sample_handoff ch sector x y) True"
  using buildV2Payload_struct DecodeAndLog_build by blast

text \<open>Registration on a fresh state: the class table keeps the engine's entries except slots 5,
  7 and 8, the event table except slots 5, 7 and 13 and the stub in the added slot 15; the events
  the class then creates have the size of the wire struct, the event table at the front and zeroes
  after it; and a second registration changes nothing.\<close>

theorem registration_patches_only_its_slots:
  assumes "Register a t s = (True, s')" and "\<not> g_registered s" and "templates_ok t"
  shows "length (g_eventVftable s') = 16 \<and> g_eventVftable s' ! 5 = a_getrep a \<and>
    g_eventVftable s' ! 7 = a_pack a \<and> g_eventVftable s' ! 13 = a_process a \<and>
    g_eventVftable s' ! 15 = a_stub a \<and>
    list_all (\<lambda>i. g_eventVftable s' ! i = tmpl_eventVftable t ! i) [0, 1, 2, 3, 4, 6, 8, 9, 10, 11, 12, 14] \<and>
    g_classRepVtable s' ! 5 = a_descriptor a \<and> g_classRepVtable s' ! 7 = a_create a \<and>
    g_classRepVtable s' ! 8 = a_unpack a \<and>
    list_all (\<lambda>i. g_classRepVtable s' ! i = tmpl_repVtable t ! i) [0, 1, 2, 3, 4, 6] \<and>
    length (ourCreate a (g_classRep s')) = kSectorHandoffSize \<and>
    load_le (sub_bytes 0 8 (ourCreate a (g_classRep s'))) = a_eventVftable a \<and>
    drop 8 (ourCreate a (g_classRep s')) = replicate 168 0 \<and>
    Register a t2 s' = (True, s')"
  using Register_vtables [OF assms] Register_created_event [OF assms] Register_idempotent [OF assms(1)]
  by (simp add: kEventVftableSlots_def wire_sizes)

definition sample_syms :: handoff_syms where
  "sample_syms = \<lparr>a_create = 1, a_unpack = 2, a_descriptor = 3, a_getrep = 4, a_stub = 5, a_pack = 6,
     a_process = 7, a_classRep = 8, a_classRepVtable = 9, a_eventVftable = 10\<rparr>"

definition sample_templates :: engine_templates where
  "sample_templates = \<lparr>tmpl_classRep = replicate 0x80 1, tmpl_repVtable = replicate 9 70,
     tmpl_eventVftable = replicate 15 80, module_found = True\<rparr>"

theorem registration_patches_only_its_slots_witness:
  "g_eventVftable (snd (Register sample_syms sample_templates handoff_init)) ! 13 = 7"
  using registration_patches_only_its_slots [of sample_syms sample_templates handoff_init
      "snd (Register sample_syms sample_templates handoff_init)"]
  by (simp add: Register_def Let_def handoff_init_def sample_syms_def sample_templates_def
      templates_ok_def kClassRepBytes_def kClassRepVtableSlots_def kEventVftableTemplateSlots_def)

text \<open>Injecting a received payload builds an event of the struct's size that carries the event
  table, whose fields read back as the payload's, and whose pack slot emits exactly the payload
  again as 32-bit words.\<close>

theorem injected_event_repacks_payload:
  assumes "Register a t s = (True, s')" and "\<not> g_registered s" and "templates_ok t"
    and "handoff_ok h"
  shows "\<exists>evt. InjectFromWire a s' (handoff_bytes h) = Injected evt 1 \<and>
     length evt = kSectorHandoffSize \<and> load_le (sub_bytes 0 8 evt) = a_eventVftable a \<and>
     handoff_view (drop kEngineBase evt) = h \<and>
     concat (map (store_le 4) (ourPack evt)) = handoff_bytes h"
  using assms by (rule InjectFromWire_event)

theorem injected_event_repacks_payload_witness:
  "\<exists>evt. InjectFromWire sample_syms (snd (Register sample_syms sample_templates handoff_init))
      (handoff_bytes (sample_handoff 1 2 (Fin 0) (Fin 0))) = Injected evt 1 \<and>
     length evt = kSectorHandoffSize \<and> load_le (sub_bytes 0 8 evt) = a_eventVftable sample_syms \<and>
     handoff_view (drop kEngineBase evt) = sample_handoff 1 2 (Fin 0) (Fin 0) \<and>
     concat (map (store_le 4) (ourPack evt)) = handoff_bytes (sample_handoff 1 2 (Fin 0) (Fin 0))"
  by (rule injected_event_repacks_payload [where t = sample_templates and s = handoff_init])
     (simp_all add: Register_def Let_def handoff_init_def sample_templates_def templates_ok_def
       kClassRepBytes_def kClassRepVtableSlots_def kEventVftableTemplateSlots_def)

text \<open>The decoder keys on the size before the version: a 96-byte payload that claims version 2
  is accepted, with the two world fields never read, and a 104-byte payload of version 1 is
  refused.\<close>

theorem decoder_size_and_version:
  assumes "length b = 96" and "length b' = 104"
    and "proto_version (handoff_view b) = 2" and "proto_version (handoff_view b') = 1"
  shows "DecodeAndLog b = Decoded False (handoff_view b) False \<and>
    DecodeAndLog b' = UnsupportedProto 1 104"
  using assms by (simp add: DecodeAndLog_def Let_def wire_sizes)

theorem decoder_size_and_version_witness:
  "DecodeAndLog (1 # replicate 103 0) = UnsupportedProto 1 104"
proof -
  have "proto_version (handoff_view (2 # replicate 95 0)) = 2"
    "proto_version (handoff_view (1 # replicate 103 0)) = 1"
    by (simp_all add: handoff_view_def sub_bytes_def)
  then show ?thesis
    using decoder_size_and_version [of "2 # replicate 95 0" "1 # replicate 103 0"] by simp
qed

end
