(* ===== verification/Sector_Edge.thy ===== *)
theory Sector_Edge
  imports Sector_Handoff
begin

text \<open>
  The sector-edge driver (\<open>source/server/hooks/sector/sector_edge_trigger.cpp\<close>), called from the
  per-player tick, and the client redirect (\<open>client_redirect.cpp\<close>). The driver's globals are the
  record \<open>edge\<close>; a tick carries the clock, the position of the captured player, if there is one, and
  whether a client connection has been captured (\<open>hook_set_control_object.cpp\<close>).
\<close>

section \<open>Captured control object\<close>

record control =
  g_lastPlayer :: u64
  g_lastConn :: u64

text \<open>The hook on \<open>setControlObject\<close>: only a non-null object is captured.\<close>

definition SetControlObject :: "u64 \<Rightarrow> u64 \<Rightarrow> control \<Rightarrow> control" where
  "SetControlObject conn obj c = (if obj \<noteq> 0 then c\<lparr>g_lastPlayer := obj, g_lastConn := conn\<rparr> else c)"

section \<open>Redirecting the client\<close>

definition redirect_slot :: "u32 \<Rightarrow> u32" where
  "redirect_slot p = (if p = 0 \<or> 49 < p then (if p = 0 then 1 else 49) else p)"

definition redirect_statement :: "u32 \<Rightarrow> string \<Rightarrow> u16 \<Rightarrow> string" where
  "redirect_statement slot host port =
     ''commandToClient(ClientGroup.getObject(0), '' @ [CHR 39] @ ''GoToServer'' @ [CHR 39] @
     '', 1, '' @ fmt_u slot @ '', '' @ [quote] @ ''IP:'' @ host @ '':'' @ fmt_u port @ [quote] @ '');''"

text \<open>The statement handed to the script interpreter, if any.\<close>

definition RedirectCapturedClient :: "bool \<Rightarrow> u32 \<Rightarrow> string \<Rightarrow> u16 \<Rightarrow> string option" where
  "RedirectCapturedClient conn p host port =
     (if host = [] \<or> port = 0 then None
      else if \<not> conn then None
      else Some (snprintf_out 512 (redirect_statement (redirect_slot p) host port)))"

definition peer_world_of :: "u32 \<Rightarrow> u32" where
  "peer_world_of sector = max 1 ((sector - 1) div 9 + 1)"

section \<open>The driver\<close>

record edge =
  lastTick :: int
  lastSelfSector :: u32
  lastFiredSector :: u32
  lastFire :: int
  lastX :: f32
  lastY :: f32
  lastResolvedSector :: u32
  lastIsSelf :: bool

record tick =
  tk_now :: int
  tk_pos :: "(f32 \<times> f32) option"
  tk_conn :: bool

record fired =
  fi_sector :: u32
  fi_queued :: bool
  fi_redirect :: "string option"

definition kTickInterval :: int where "kTickInterval = 250"
definition kHardcodedCharID :: u32 where "kHardcodedCharID = 1"

definition OnTick ::
  "world_grid \<Rightarrow> tick \<Rightarrow> edge \<Rightarrow> forward disp \<Rightarrow> fired option \<times> edge \<times> forward disp" where
  "OnTick w t e d =
     (if tk_now t - lastTick e < kTickInterval then (None, e, d)
      else
        let e = e\<lparr>lastTick := tk_now t\<rparr>
        in case tk_pos t of
          None \<Rightarrow> (None, e, d)
        | Some (x, y) \<Rightarrow>
            let r = SectorForPos w x y;
                e = e\<lparr>lastX := x, lastY := y, lastResolvedSector := sectorId r, lastIsSelf := isSelf r\<rparr>
            in if sectorId r = 0 then (None, e, d)
               else if isSelf r then
                 (None, e\<lparr>lastSelfSector := sectorId r, lastFiredSector := 0\<rparr>, d)
               else if sectorId r = lastFiredSector e then (None, e, d)
               else
                 let e = e\<lparr>lastFire := tk_now t, lastFiredSector := sectorId r\<rparr>;
                     (queued, d) = ForwardToSector kHardcodedCharID (sectorId r) (localX r) (localY r) d;
                     redirect = RedirectCapturedClient (tk_conn t) (peer_world_of (sectorId r))
                       (res_host r) (res_port r)
                 in (Some \<lparr>fi_sector = sectorId r, fi_queued = queued, fi_redirect = redirect\<rparr>, e, d))"

fun run_ticks ::
  "world_grid \<Rightarrow> tick list \<Rightarrow> edge \<Rightarrow> forward disp \<Rightarrow> fired list \<times> edge \<times> forward disp" where
  "run_ticks w [] e d = ([], e, d)"
| "run_ticks w (t # ts) e d =
     (case OnTick w t e d of (f, e', d') \<Rightarrow>
        (case run_ticks w ts e' d' of (fs, e'', d'') \<Rightarrow>
           ((case f of None \<Rightarrow> fs | Some x \<Rightarrow> x # fs), e'', d'')))"

section \<open>One firing per entry\<close>

text \<open>The positions the driver really looks at: those of ticks far enough apart.\<close>

fun sampled :: "int \<Rightarrow> tick list \<Rightarrow> tick list" where
  "sampled prev [] = []"
| "sampled prev (t # ts) =
     (if tk_now t - prev < kTickInterval then sampled prev ts
      else t # sampled (tk_now t) ts)"

text \<open>What a sampled position counts as: nothing (no player, or off every grid), home (0), or the
  neighbour's sector.\<close>

definition place :: "world_grid \<Rightarrow> tick \<Rightarrow> u32 option" where
  "place w t =
     (case tk_pos t of None \<Rightarrow> None
      | Some (x, y) \<Rightarrow>
          let r = SectorForPos w x y
          in if sectorId r = 0 then None else if isSelf r then Some 0 else Some (sectorId r))"

definition entries :: "u32 \<Rightarrow> u32 list \<Rightarrow> u32 list" where
  "entries latch ps = filter (\<lambda>s. s \<noteq> 0) (tl (remdups_adj (latch # ps)))"

lemma remdups_adj_Cons_tl: "remdups_adj (a # ps) = a # tl (remdups_adj (a # ps))"
  by (metis hd_remdups_adj list.collapse list.discI list.sel(1) remdups_adj_Nil_iff)

lemma entries_Nil [simp]: "entries a [] = []"
  by (simp add: entries_def)

lemma entries_Cons: "entries a (p # ps) =
    (if p = a then entries a ps else if p = 0 then entries 0 ps else p # entries p ps)"
proof -
  obtain zs where z: "remdups_adj (p # ps) = p # zs" by (rule that [OF remdups_adj_Cons_tl])
  then show ?thesis by (cases "p = 0") (auto simp: entries_def)
qed

lemma OnTick_step:
  assumes "OnTick w t e d = (f, e', d')"
  shows "if tk_now t - lastTick e < kTickInterval then f = None \<and> e' = e
     else lastTick e' = tk_now t \<and>
       (case place w t of
          None \<Rightarrow> f = None \<and> lastFiredSector e' = lastFiredSector e
        | Some p \<Rightarrow> lastFiredSector e' = p \<and>
            map_option fi_sector f = (if p \<noteq> 0 \<and> p \<noteq> lastFiredSector e then Some p else None))"
  using assms by (auto simp: OnTick_def place_def Let_def split: option.splits prod.splits if_splits)

lemma fires_are_entries:
  "map fi_sector (fst (run_ticks w ts e d)) =
     entries (lastFiredSector e) (List.map_filter (place w) (sampled (lastTick e) ts))"
proof (induction ts arbitrary: e d)
  case Nil
  then show ?case by (simp add: map_filter_simps)
next
  case (Cons t ts)
  obtain f e' d' where o: "OnTick w t e d = (f, e', d')" by (metis prod_cases3)
  show ?case
    using Cons.IH [of e' d'] OnTick_step [OF o] o
    by (auto simp: map_filter_simps entries_Cons split: option.splits prod.splits if_splits)
qed

lemma sampled_spaced:
  "sampled prev ts = a @ t # u # b \<Longrightarrow> kTickInterval \<le> tk_now u - tk_now t"
proof (induction ts arbitrary: prev a)
  case (Cons x ts)
  show ?case
  proof (cases "tk_now x - prev < kTickInterval")
    case True
    then show ?thesis using Cons by simp
  next
    case False
    then show ?thesis
    proof (cases a)
      case Nil
      then have x: "sampled (tk_now t) ts = u # b" using Cons.prems False by auto
      moreover have "sampled l zs = u # b \<Longrightarrow> kTickInterval \<le> tk_now u - l" for l zs
        by (induction zs) (auto split: if_splits)
      ultimately show ?thesis by blast
    next
      case (Cons y a')
      then show ?thesis using Cons.IH [of "tk_now x" a'] Cons.prems False by auto
    qed
  qed
qed simp

section \<open>Redirect laws\<close>

lemma redirect_slot_range: "1 \<le> redirect_slot p \<and> redirect_slot p \<le> 49"
proof -
  have "1 \<le> p" if "p \<noteq> 0" using that by (simp add: word_le_nat_alt) (metis One_nat_def Suc_leI unat_gt_0)
  then show ?thesis by (auto simp: redirect_slot_def not_less)
qed

text \<open>From sector 442 on, every sector of every world falls into slot 49.\<close>

lemma redirect_slot_saturates:
  assumes "442 \<le> sector"
  shows "redirect_slot (peer_world_of sector) = 49"
proof -
  have s: "442 \<le> unat sector" using assms by (simp add: word_le_nat_alt)
  have "sector \<noteq> 0" using assms by auto
  then have m: "unat (sector - 1) = unat sector - 1" by (simp add: unat_minus_one)
  have b: "unat sector \<le> 0xFFFFFFFF" by (rule unat_u32_bound)
  have q: "unat ((sector - 1) div 9) = (unat sector - 1) div 9" by (simp add: unat_div m)
  then have "unat ((sector - 1) div 9 + 1) = (unat sector - 1) div 9 + 1"
    using b by (subst unat_add_lem [THEN iffD1]) (auto simp: q)
  moreover have "50 \<le> (unat sector - 1) div 9 + 1" using s by presburger
  ultimately have "49 < (sector - 1) div 9 + 1" by (simp add: word_less_nat_alt)
  then have "49 < peer_world_of sector" unfolding peer_world_of_def by (rule less_le_trans) simp
  moreover from this have "peer_world_of sector \<noteq> 0" by auto
  ultimately show ?thesis by (simp add: redirect_slot_def)
qed

lemma length_fmt_u16: "length (fmt_u (w :: u16)) \<le> 5"
proof -
  have "unat w < 2 ^ 16" using unsigned_less [of w, where ?'a = nat] by simp
  then have "unat w < 10 ^ 5" by simp
  then show ?thesis by (simp add: fmt_u_def length_dec)
qed

lemma redirect_untruncated:
  assumes "length host \<le> 400" "host \<noteq> []" "port \<noteq> 0"
  shows "RedirectCapturedClient True p host port =
    Some (redirect_statement (redirect_slot p) host port)"
  using assms length_fmt_u32 [of "redirect_slot p"] length_fmt_u16 [of port]
  by (simp add: RedirectCapturedClient_def redirect_statement_def)

section \<open>Properties\<close>

text \<open>C21: The edge driver fires exactly once per entry into a foreign sector: over any sequence of
  ticks, the sectors it forwards to are the places seen at the accepted ticks with repetitions
  collapsed and the home grid removed; standing still, or flickering off every grid, never fires
  again, and coming home re-arms it.\<close>

theorem edge_fires_once_per_entry:
  "map fi_sector (fst (run_ticks w ts e d)) =
     entries (lastFiredSector e) (List.map_filter (place w) (sampled (lastTick e) ts))"
  by (rule fires_are_entries)

text \<open>Every redirect names a client slot between 1 and 49 and is never truncated for hosts of up
  to 400 characters; but all sectors from 442 on, those of the documented example worlds included,
  share slot 49, so two neighbours of such a world are not told apart.\<close>

theorem redirect_slots:
  assumes "length host \<le> 400" and "host \<noteq> []" and "port \<noteq> 0" and "442 \<le> sector"
  shows "RedirectCapturedClient True p host port =
      Some (redirect_statement (redirect_slot p) host port) \<and>
    1 \<le> redirect_slot p \<and> redirect_slot p \<le> 49 \<and> redirect_slot (peer_world_of sector) = 49"
  using redirect_untruncated [OF assms(1-3)] redirect_slot_range [of p]
    redirect_slot_saturates [OF assms(4)] by blast

theorem redirect_slots_witness:
  "redirect_slot (peer_world_of 451) = 49"
  using redirect_slots [of "''h''" 1 451 0] by simp

end
