(* ===== verification/Code_Memory.thy ===== *)
theory Code_Memory
  imports Lifx_Prelude
begin

text \<open>
  The process memory the engine hooks read and patch: a byte at every address. The helpers are those
  the hook files repeat: \<open>MatchBytes\<close>, \<open>DecodeRelativeCallTarget\<close> and the typed field accesses
  \<open>ReadField\<close> and \<open>WriteField\<close>. The results of the configuration library's attribute queries
  (\<open>tinyxml2\<close>, a vendored package) are values of the type \<open>attr\<close>, so that a configuration routine is
  a function of what the queries answer.
\<close>

type_synonym mem = "u64 \<Rightarrow> u8"

lemma unat_of_nat64: "n < 2 ^ 64 \<Longrightarrow> unat (word_of_nat n :: u64) = n"
  by (simp add: unat_of_nat)

section \<open>Reading\<close>

definition mread :: "mem \<Rightarrow> u64 \<Rightarrow> nat \<Rightarrow> bytes" where
  "mread m a n = map (\<lambda>i. m (a + word_of_nat i)) [0..<n]"

definition read_field :: "mem \<Rightarrow> u64 \<Rightarrow> u64 \<Rightarrow> 'a::len word" where
  "read_field m obj off = load_le (mread m (obj + off) (LENGTH('a) div 8))"

definition MatchBytes :: "mem \<Rightarrow> u64 \<Rightarrow> bytes \<Rightarrow> bool" where
  "MatchBytes m a expected \<longleftrightarrow> mread m a (length expected) = expected"

text \<open>A near call is \<open>E8\<close> and a signed 32-bit displacement from the next instruction.\<close>

definition DecodeRelativeCallTarget :: "mem \<Rightarrow> u64 \<Rightarrow> u64" where
  "DecodeRelativeCallTarget m callAddress =
     callAddress + 5 + scast (load_le (mread m (callAddress + 1) 4) :: u32)"

lemma length_mread [simp, wire_simps]: "length (mread m a n) = n"
  by (simp add: mread_def)

lemma nth_mread [simp]: "i < n \<Longrightarrow> mread m a n ! i = m (a + word_of_nat i)"
  by (simp add: mread_def)

lemma mread_Suc: "mread m a (Suc n) = m a # mread m (a + 1) n"
  by (simp only: mread_def upt_conv_Cons zero_less_Suc map_Suc_upt [symmetric] list.map)
     (simp add: add.assoc)

lemma mread_add: "mread m a (n + k) = mread m a n @ mread m (a + word_of_nat n) k"
  by (rule nth_equalityI) (auto simp: nth_append add.assoc)

section \<open>Writing\<close>

definition mwrite :: "mem \<Rightarrow> u64 \<Rightarrow> bytes \<Rightarrow> mem" where
  "mwrite m a bs = (\<lambda>x. if unat (x - a) < length bs then bs ! unat (x - a) else m x)"

definition write_field :: "mem \<Rightarrow> u64 \<Rightarrow> u64 \<Rightarrow> 'a::len word \<Rightarrow> mem" where
  "write_field m obj off v = mwrite m (obj + off) (store_le (LENGTH('a) div 8) v)"

lemma mwrite_same:
  assumes "length bs < 2 ^ 64"
  shows "mread (mwrite m a bs) a (length bs) = bs"
proof (rule nth_equalityI)
  fix i assume "i < length (mread (mwrite m a bs) a (length bs))"
  then have i: "i < length bs" by simp
  then have "unat (word_of_nat i :: u64) = i" using assms by (simp add: unat_of_nat)
  then show "mread (mwrite m a bs) a (length bs) ! i = bs ! i" using i by (simp add: mwrite_def)
qed simp

text \<open>Writing back what was read restores the memory.\<close>

lemma mwrite_restore: "mwrite (mwrite m a bs) a (mread m a (length bs)) = m"
proof
  fix x
  show "mwrite (mwrite m a bs) a (mread m a (length bs)) x = m x"
    by (simp add: mwrite_def)
qed

lemma mwrite_other: "length bs \<le> unat (x - a) \<Longrightarrow> mwrite m a bs x = m x"
  by (simp add: mwrite_def)

lemma MatchBytes_write: "length bs < 2 ^ 64 \<Longrightarrow> MatchBytes (mwrite m a bs) a bs"
  by (simp add: MatchBytes_def mwrite_same)

lemma read_write_field:
  fixes v :: "'a::len word"
  assumes "LENGTH('a) = 8 * n" "n < 2 ^ 32"
  shows "read_field (write_field m obj off v) obj off = v"
proof -
  have "n < 2 ^ 64" using assms(2) by simp
  then have "mread (write_field m obj off v) (obj + off) n = store_le n v"
    using assms mwrite_same [of "store_le n v" m "obj + off"] by (simp add: write_field_def)
  then show ?thesis using assms by (simp add: read_field_def load_store_le)
qed

text \<open>\<open>n\<close> bytes at \<open>a\<close> lie outside the \<open>k\<close> bytes at \<open>b\<close>.\<close>

definition outside :: "u64 \<Rightarrow> nat \<Rightarrow> u64 \<Rightarrow> nat \<Rightarrow> bool" where
  "outside a n b k \<longleftrightarrow> list_all (\<lambda>i. k \<le> unat (a + word_of_nat i - b)) [0..<n]"

lemma outside_above:
  "k \<le> unat (a - b) \<Longrightarrow> unat (a - b) + n < 2 ^ 64 \<Longrightarrow> outside a n b k"
proof -
  assume k: "k \<le> unat (a - b)" and n: "unat (a - b) + n < 2 ^ 64"
  have "k \<le> unat (a + word_of_nat i - b)" if "i < n" for i
  proof -
    have "unat (word_of_nat i :: u64) = i" using that n by (simp add: unat_of_nat)
    then have "unat ((a - b) + word_of_nat i) = unat (a - b) + i"
      using that n by (subst unat_add_lem [THEN iffD1]) simp_all
    moreover have eq: "a + word_of_nat i - b = (a - b) + word_of_nat i" by simp
    ultimately show ?thesis using k unfolding eq by simp
  qed
  then show ?thesis by (auto simp: outside_def list_all_iff)
qed

lemma mread_outside: "outside a n b (length bs) \<Longrightarrow> mread (mwrite m b bs) a n = mread m a n"
  by (auto simp: mread_def outside_def list_all_iff mwrite_other)

lemma outside_before:
  assumes "n \<le> unat (b - a)" and "unat (b - a) + k \<le> 2 ^ 64"
  shows "outside a n b k"
proof -
  let ?d = "unat (b - a)"
  have "k \<le> unat (a + word_of_nat i - b)" if i: "i < n" for i
  proof -
    have "a + word_of_nat i - b = word_of_nat i - word_of_nat ?d" by simp
    also have "\<dots> = word_of_nat (2 ^ 64 - ?d + i)"
    proof -
      have s: "2 ^ 64 - ?d + i + ?d = 2 ^ 64 + i" using assms(2) by linarith
      have z: "(word_of_nat (2 ^ 64) :: u64) = 0" by simp
      have "(word_of_nat (2 ^ 64 - ?d + i) :: u64) + word_of_nat ?d = word_of_nat i"
        unfolding of_nat_add [symmetric] s by (simp only: of_nat_add z add_0)
      then show ?thesis by (metis diff_eq_eq)
    qed
    finally have eq: "a + word_of_nat i - b = word_of_nat (2 ^ 64 - ?d + i)" .
    have "2 ^ 64 - ?d + i < 2 ^ LENGTH(64)" using assms i by simp
    then have "unat (a + word_of_nat i - b) = 2 ^ 64 - ?d + i"
      unfolding eq unat_of_nat by (rule mod_less)
    then show ?thesis using assms(2) by simp
  qed
  then show ?thesis by (auto simp: outside_def list_all_iff)
qed

lemma outside_const:
  "outside (a + b) n (a + c) k \<longleftrightarrow> outside b n c k"
  by (simp add: outside_def add.assoc)

lemma outside_next: "outside a 8 (a + 8) 8"
  by (rule outside_before) simp_all

lemma read_write_other:
  fixes v :: "'a::len word"
  assumes "outside (obj + off) (LENGTH('b) div 8) (obj' + off') (LENGTH('a) div 8)"
  shows "(read_field (write_field m obj' off' v) obj off :: 'b::len word) = read_field m obj off"
  using assms mread_outside [of "obj + off" "LENGTH('b) div 8" "obj' + off'" "store_le (LENGTH('a) div 8) v" m]
  by (simp add: read_field_def write_field_def)

lemma mread_write_field:
  fixes v :: "'a::len word"
  assumes "outside a n (obj + off) (LENGTH('a) div 8)"
  shows "mread (write_field m obj off v) a n = mread m a n"
  using assms mread_outside [of a n "obj + off" "store_le (LENGTH('a) div 8) v" m] by (simp add: write_field_def)

text \<open>Two fields of one object.\<close>

lemma read_write_const:
  fixes v :: "'a::len word"
  assumes "outside off' (LENGTH('b) div 8) off (LENGTH('a) div 8)"
  shows "(read_field (write_field m obj off v) obj off' :: 'b::len word) = read_field m obj off'"
  by (rule read_write_other) (use assms in \<open>simp add: outside_const\<close>)

section \<open>Configuration attributes\<close>

text \<open>A query on an attribute: absent, present with a value that does not parse, or a value.\<close>

datatype 'a attr = Absent | Malformed | Value 'a

section \<open>Patched calls\<close>

text \<open>A relative call assembled at an address reaches the target it was assembled for, when the
  displacement fits 32 bits.\<close>

definition near_call :: "u64 \<Rightarrow> u64 \<Rightarrow> bytes" where
  "near_call at target = 0xE8 # store_le 4 (ucast (target - (at + 5)) :: u32)"

lemma near_call_decodes:
  assumes "mread m at 5 = near_call at target" and "scast (ucast (target - (at + 5)) :: u32) = target - (at + 5)"
  shows "DecodeRelativeCallTarget m at = target"
proof -
  have "mread m at 5 = m at # mread m (at + 1) 4"
    using mread_Suc [of m at 4] by simp
  then have "mread m (at + 1) 4 = store_le 4 (ucast (target - (at + 5)) :: u32)"
    using assms(1) by (simp add: near_call_def)
  then show ?thesis
    by (simp add: DecodeRelativeCallTarget_def load_store_le assms(2))
qed

end
