(* ===== verification/Drop_Common.thy ===== *)
theory Drop_Common
  imports Code_Memory Binary32
begin

text \<open>
  What the configurable drop hooks under \<open>source/server/hooks/engine\<close> share: percentages, and the
  life cycle of a hook that is configured, attached and detached. The locale \<open>managed_hook\<close> states
  that life cycle; the tunnel, tree and recipe hooks interpret it.
\<close>

section \<open>Percentages\<close>

fun f32_finite :: "f32 \<Rightarrow> bool" where
  "f32_finite (Fin _) = True"
| "f32_finite _ = False"

definition percent_ok :: "f32 \<Rightarrow> bool" where
  "percent_ok p \<longleftrightarrow> \<not> (\<not> f32_finite p \<or> fless p (Fin 0) \<or> fless (f32_of_int 100) p)"

definition percent_chance :: "f32 \<Rightarrow> f32" where
  "percent_chance p = fdiv p (f32_of_int 100)"

lemma f32_hundred: "f32_of_int 100 = Fin (100 * f32_unit)" "f32_of_int 1 = Fin f32_unit"
  by code_simp+

lemma percent_chance_range:
  assumes "percent_ok p"
  shows "\<exists>k. percent_chance p = Fin k \<and> 0 \<le> k \<and> k \<le> f32_unit"
proof -
  obtain a where p: "p = Fin a" using assms by (cases p) (auto simp: percent_ok_def)
  then have a: "0 \<le> a" "a \<le> 100 * f32_unit"
    using assms by (simp_all add: percent_ok_def f32_hundred)
  let ?k = "fround (a * f32_unit) (100 * f32_unit)"
  have "a * f32_unit \<le> 100 * f32_unit * f32_unit" using a by (intro mult_right_mono) simp_all
  then have "?k \<le> fround (100 * f32_unit * f32_unit) (100 * f32_unit)"
    using a by (intro fround_mono_quot) simp_all
  also have "\<dots> = f32_unit" by code_simp
  finally have le: "?k \<le> f32_unit" .
  have ge: "0 \<le> ?k" using a by (intro fround_nonneg) simp_all
  have "f32_unit < f32_limit" by (simp add: f32_unit_def f32_limit_def)
  then have "mk_f32 ?k = Fin ?k" using le ge by (simp add: mk_f32_def f32_limit_def)
  moreover have "f32_unit \<noteq> 0" by (simp add: f32_unit_def)
  ultimately have "percent_chance p = Fin ?k"
    by (simp add: percent_chance_def p f32_hundred f32_unit_def)
  then show ?thesis using le ge by blast
qed

section \<open>The life cycle of a hook\<close>

text \<open>What attaching a detour meets: the module base, the process memory, and the answer of the detour
  library. On success the detour library makes the pointer to the original function
  refer to its trampoline; only whether it is null matters here.\<close>

record hook_env =
  he_base :: u64
  he_mem :: mem
  he_detour_ok :: bool

text \<open>\<open>'e\<close> is what attaching and detaching meet outside (the answers of the operating system and of
  the detour library), \<open>'c\<close> the configuration.\<close>

locale managed_hook =
  fixes configure :: "'c \<Rightarrow> 's \<Rightarrow> bool \<times> 's"
    and attach :: "'e \<Rightarrow> 's \<Rightarrow> 's"
    and detach :: "'e \<Rightarrow> 's \<Rightarrow> 's"
    and enabled :: "'s \<Rightarrow> bool"
    and attached :: "'s \<Rightarrow> bool"
  assumes configure_busy: "attached s \<Longrightarrow> configure c s = (False, s)"
    and configure_idle: "\<not> attached s \<Longrightarrow> \<not> attached (snd (configure c s))"
    and configure_failed: "\<not> attached s \<Longrightarrow> \<not> fst (configure c s) \<Longrightarrow> \<not> enabled (snd (configure c s))"
    and attach_busy: "attached s \<Longrightarrow> attach e s = s"
    and attach_disabled: "\<not> enabled s \<Longrightarrow> attach e s = s"
    and attach_enabled: "enabled (attach e s) = enabled s"
    and detach_idle: "\<not> attached s \<Longrightarrow> detach e s = s"
    and detach_enabled: "enabled (detach e s) = enabled s"

datatype ('c, 'e) hook_call = Configure_Call 'c | Attach_Call 'e | Detach_Call 'e

fun hook_run :: "('c \<Rightarrow> 's \<Rightarrow> bool \<times> 's) \<Rightarrow> ('e \<Rightarrow> 's \<Rightarrow> 's) \<Rightarrow> ('e \<Rightarrow> 's \<Rightarrow> 's) \<Rightarrow>
    ('c, 'e) hook_call list \<Rightarrow> 's \<Rightarrow> 's" where
  "hook_run cf at dt [] s = s"
| "hook_run cf at dt (Configure_Call c # cs) s = hook_run cf at dt cs (snd (cf c s))"
| "hook_run cf at dt (Attach_Call e # cs) s = hook_run cf at dt cs (at e s)"
| "hook_run cf at dt (Detach_Call e # cs) s = hook_run cf at dt cs (dt e s)"

context managed_hook
begin

text \<open>Over any sequence of calls, an attached hook is an enabled one.\<close>

lemma run_attached_enabled:
  "(attached s \<longrightarrow> enabled s) \<Longrightarrow> s' = hook_run configure attach detach cs s \<Longrightarrow>
   attached s' \<longrightarrow> enabled s'"
proof (induction cs arbitrary: s)
  case Nil
  then show ?case by simp
next
  case (Cons x cs)
  show ?case
  proof (cases x)
    case (Configure_Call c)
    have "attached (snd (configure c s)) \<longrightarrow> enabled (snd (configure c s))"
      using Cons.prems(1) configure_busy [of s c] configure_idle [of s c] by (cases "attached s") auto
    then show ?thesis using Cons.IH Cons.prems(2) Configure_Call by simp
  next
    case (Attach_Call e)
    have "attached (attach e s) \<longrightarrow> enabled (attach e s)"
      using Cons.prems(1) attach_disabled [of s e] attach_enabled [of e s] by (cases "enabled s") auto
    then show ?thesis using Cons.IH Cons.prems(2) Attach_Call by simp
  next
    case (Detach_Call e)
    have "attached (detach e s) \<longrightarrow> enabled (detach e s)"
      using Cons.prems(1) detach_idle [of s e] detach_enabled [of e s] by (cases "attached s") auto
    then show ?thesis using Cons.IH Cons.prems(2) Detach_Call by simp
  qed
qed

text \<open>While the hook is attached its configuration cannot be replaced.\<close>

lemma configure_while_attached: "attached s \<Longrightarrow> snd (configure c s) = s"
  by (simp add: configure_busy)

end

section \<open>Hooks whose configuration is validated\<close>

text \<open>A hook that validates its configuration: what it accepts is good, and attaching or detaching does
  not spoil it.\<close>

locale configured_hook = managed_hook configure attach detach enabled attached
  for configure :: "'c \<Rightarrow> 's \<Rightarrow> bool \<times> 's"
    and attach :: "'e \<Rightarrow> 's \<Rightarrow> 's"
    and detach :: "'e \<Rightarrow> 's \<Rightarrow> 's"
    and enabled :: "'s \<Rightarrow> bool"
    and attached :: "'s \<Rightarrow> bool" +
  fixes good :: "'s \<Rightarrow> bool"
  assumes configure_good: "\<not> attached s \<Longrightarrow> enabled (snd (configure c s)) \<Longrightarrow> good (snd (configure c s))"
    and attach_good: "good s \<Longrightarrow> good (attach e s)"
    and detach_good: "good s \<Longrightarrow> good (detach e s)"
begin

lemma run_enabled_good:
  "(enabled s \<longrightarrow> good s) \<Longrightarrow> s' = hook_run configure attach detach cs s \<Longrightarrow> enabled s' \<longrightarrow> good s'"
proof (induction cs arbitrary: s)
  case Nil
  then show ?case by simp
next
  case (Cons x cs)
  show ?case
  proof (cases x)
    case (Configure_Call c)
    have "enabled (snd (configure c s)) \<longrightarrow> good (snd (configure c s))"
      using Cons.prems(1) configure_busy [of s c] configure_good [of s c] by (cases "attached s") auto
    then show ?thesis using Cons.IH Cons.prems(2) Configure_Call by simp
  next
    case (Attach_Call e)
    then show ?thesis
      using Cons.IH [of "attach e s"] Cons.prems attach_enabled [of e s] attach_good [of s e] by simp
  next
    case (Detach_Call e)
    then show ?thesis
      using Cons.IH [of "detach e s"] Cons.prems detach_enabled [of e s] detach_good [of s e] by simp
  qed
qed

text \<open>From an idle state, over any sequence of calls, an attached hook runs on a good configuration.\<close>

lemma run_attached_good:
  assumes "\<not> enabled s" "\<not> attached s" "s' = hook_run configure attach detach cs s" "attached s'"
  shows "enabled s' \<and> good s'"
  using run_enabled_good [OF _ assms(3)] run_attached_enabled [OF _ assms(3)] assms by blast

end

end
