(* ===== verification/Gem_Drops.thy ===== *)
theory Gem_Drops
  imports Drop_Common
begin

text \<open>
  The gem drop hooks (\<open>source/server/hooks/engine/hook_gem_drop.cpp\<close>): the configuration of the
  chance and of the weighted item table, the weighted draw, the two detours that tell the gem call
  sites apart by return address, and attaching and detaching. The random ticket, the answers of the
  detour library and the process memory are arguments.
\<close>

section \<open>State\<close>

record weighted_item =
  wi_item :: u32
  cumulativeWeight :: u64

record gem_state =
  gd_enabled :: bool
  overrideChance :: bool
  overrideTable :: bool
  chanceHookAttached :: bool
  itemHookAttached :: bool
  gd_chance :: f32
  totalWeight :: u64
  gd_items :: "weighted_item list"
  gd_moduleBase :: u64
  gemChanceReturnAddress :: u64
  gemItemLookupReturnAddress :: u64

definition gem_empty :: gem_state where
  "gem_empty = \<lparr>gd_enabled = False, overrideChance = False, overrideTable = False,
     chanceHookAttached = False, itemHookAttached = False, gd_chance = Fin 0, totalWeight = 0,
     gd_items = [], gd_moduleBase = 0, gemChanceReturnAddress = 0, gemItemLookupReturnAddress = 0\<rparr>"

definition kFirstOriginalGemItemId :: u32 where "kFirstOriginalGemItemId = 481"
definition kLastOriginalGemItemId :: u32 where "kLastOriginalGemItemId = 486"

section \<open>Configuration\<close>

record gem_item =
  gi_id :: "u32 attr"
  gi_weight :: "u32 attr"

record gem_section =
  gs_enabled :: bool
  gs_chance :: "f32 attr"
  gs_items :: "gem_item list"

text \<open>The item loop: the running total and the table so far, or an error.\<close>

fun gem_item_loop :: "gem_item list \<Rightarrow> u64 \<Rightarrow> weighted_item list \<Rightarrow> (u64 \<times> weighted_item list) option" where
  "gem_item_loop [] cum acc = Some (cum, acc)"
| "gem_item_loop (i # is) cum acc =
     (case gi_id i of
        Value itemId \<Rightarrow>
          if itemId = 0 then None
          else (case gi_weight i of
              Value weight \<Rightarrow>
                if weight = 0 then None
                else if - 1 - ucast weight < cum then None
                else
                  let cum = cum + ucast weight
                  in gem_item_loop is cum (acc @ [\<lparr>wi_item = itemId, cumulativeWeight = cum\<rparr>])
            | _ \<Rightarrow> None)
      | _ \<Rightarrow> None)"

text \<open>The root element may be null, the section absent.\<close>

definition ConfigureGemDrops :: "gem_section option option \<Rightarrow> bool \<times> gem_state" where
  "ConfigureGemDrops root =
     (case root of
        None \<Rightarrow> (False, gem_empty)
      | Some None \<Rightarrow> (True, gem_empty)
      | Some (Some sec) \<Rightarrow>
          if \<not> gs_enabled sec then (True, gem_empty)
          else
            let s = gem_empty\<lparr>gd_enabled := True\<rparr>;
                withChance =
                  (case gs_chance sec of
                     Value p \<Rightarrow>
                       if percent_ok p
                       then Some (s\<lparr>overrideChance := True, gd_chance := percent_chance p\<rparr>)
                       else None
                   | Absent \<Rightarrow> Some s
                   | Malformed \<Rightarrow> None)
            in case withChance of
                 None \<Rightarrow> (False, gem_empty)
               | Some s \<Rightarrow>
                   (case gem_item_loop (gs_items sec) 0 [] of
                      None \<Rightarrow> (False, gem_empty)
                    | Some (cum, items) \<Rightarrow>
                        let s = s\<lparr>gd_items := items\<rparr>;
                            s = (if items \<noteq> [] then s\<lparr>overrideTable := True, totalWeight := cum\<rparr> else s)
                        in if \<not> overrideChance s \<and> \<not> overrideTable s then (False, gem_empty)
                           else (True, s)))"

section \<open>The weighted draw\<close>

text \<open>\<open>std::lower_bound\<close> on the cumulative weights: the first entry not below the ticket.\<close>

definition SelectGemItemId :: "gem_state \<Rightarrow> u64 \<Rightarrow> u32" where
  "SelectGemItemId s ticket =
     (case find (\<lambda>w. ticket \<le> cumulativeWeight w) (gd_items s) of
        Some w \<Rightarrow> wi_item w
      | None \<Rightarrow> wi_item (last (gd_items s)))"

definition IsOriginalGemItemId :: "u32 \<Rightarrow> bool" where
  "IsOriginalGemItemId i \<longleftrightarrow> kFirstOriginalGemItemId \<le> i \<and> i \<le> kLastOriginalGemItemId"

section \<open>The detours\<close>

definition OnComputeDropChance :: "gem_state \<Rightarrow> u64 \<Rightarrow> f32 \<Rightarrow> f32" where
  "OnComputeDropChance s returnAddress originalResult =
     (if overrideChance s \<and> returnAddress = gemChanceReturnAddress s then gd_chance s
      else originalResult)"

text \<open>The identifier the original lookup is called with.\<close>

definition OnItemTypeLookup :: "gem_state \<Rightarrow> u64 \<Rightarrow> u64 \<Rightarrow> u32 \<Rightarrow> u32" where
  "OnItemTypeLookup s returnAddress ticket itemId =
     (if overrideTable s \<and> returnAddress = gemItemLookupReturnAddress s \<and> IsOriginalGemItemId itemId
      then SelectGemItemId s ticket else itemId)"

section \<open>Attaching\<close>

definition kGemChanceCallRva :: u64 where "kGemChanceCallRva = 0x3A9258"
definition kGemChanceReturnRva :: u64 where "kGemChanceReturnRva = 0x3A925D"
definition kGemItemLookupCallRva :: u64 where "kGemItemLookupCallRva = 0x3A931F"
definition kGemItemLookupReturnRva :: u64 where "kGemItemLookupReturnRva = 0x3A9324"

definition MatchesGemChanceCallSite :: "mem \<Rightarrow> u64 \<Rightarrow> bool" where
  "MatchesGemChanceCallSite m a \<longleftrightarrow>
     MatchBytes m (a - 10) [0x41, 0x0F, 0x28, 0xD1, 0x41, 0x0F, 0x28, 0xC8, 0x8B, 0xCF] \<and>
     m a = 0xE8 \<and> MatchBytes m (a + 5) [0x0F, 0x28, 0xF0]"

definition MatchesGemItemLookupCallSite :: "mem \<Rightarrow> u64 \<Rightarrow> bool" where
  "MatchesGemItemLookupCallSite m a \<longleftrightarrow>
     (let before = a - 13 in
      \<not> (m before \<noteq> 0x48 \<or> m (before + 1) \<noteq> 0x8B \<or> m (before + 2) \<noteq> 0x0D) \<and>
      MatchBytes m (before + 7) [0x48, 0x83, 0xC1, 0x08, 0x8B, 0xD3] \<and>
      m a = 0xE8 \<and> MatchBytes m (a + 5) [0x4C, 0x8B, 0xF0, 0x48, 0x85, 0xC0])"

text \<open>What attaching meets: the module base, the memory, whether each \<open>DetourAttach\<close> succeeds. The
  two originals are the addresses the detours are installed on.\<close>

record gem_env =
  ge_base :: u64
  ge_mem :: mem
  ge_chance_ok :: bool
  ge_item_ok :: bool

record gem_originals =
  engine_ComputeDropChance :: u64
  engine_ItemTypeLookup :: u64

definition AttachGemDropHooks ::
  "gem_env \<Rightarrow> gem_state \<Rightarrow> gem_originals \<Rightarrow> gem_state \<times> gem_originals" where
  "AttachGemDropHooks e s f =
     (if \<not> gd_enabled s then (s, f)
      else
        let s = s\<lparr>gd_moduleBase := ge_base e\<rparr>
        in if gd_moduleBase s = 0 then (s, f)
           else
             let (s, f) =
               (if overrideChance s \<and> \<not> chanceHookAttached s then
                  let call = gd_moduleBase s + kGemChanceCallRva
                  in if \<not> MatchesGemChanceCallSite (ge_mem e) call then (s, f)
                     else
                       let s = s\<lparr>gemChanceReturnAddress := gd_moduleBase s + kGemChanceReturnRva\<rparr>;
                           f = f\<lparr>engine_ComputeDropChance := DecodeRelativeCallTarget (ge_mem e) call\<rparr>
                       in (if ge_chance_ok e then s\<lparr>chanceHookAttached := True\<rparr> else s, f)
                else (s, f))
             in if overrideTable s \<and> \<not> itemHookAttached s then
                  let call = gd_moduleBase s + kGemItemLookupCallRva
                  in if \<not> MatchesGemItemLookupCallSite (ge_mem e) call then (s, f)
                     else
                       let s = s\<lparr>gemItemLookupReturnAddress := gd_moduleBase s + kGemItemLookupReturnRva\<rparr>;
                           f = f\<lparr>engine_ItemTypeLookup := DecodeRelativeCallTarget (ge_mem e) call\<rparr>
                       in (if ge_item_ok e then s\<lparr>itemHookAttached := True\<rparr> else s, f)
                else (s, f))"

definition DetachGemDropHooks :: "gem_state \<Rightarrow> gem_originals \<Rightarrow> gem_state" where
  "DetachGemDropHooks s f =
     (let s = (if itemHookAttached s \<and> engine_ItemTypeLookup f \<noteq> 0
               then s\<lparr>itemHookAttached := False\<rparr> else s)
      in if chanceHookAttached s \<and> engine_ComputeDropChance f \<noteq> 0
         then s\<lparr>chanceHookAttached := False\<rparr> else s)"

section \<open>The table is the configured one\<close>

text \<open>The weights as the configuration gives them.\<close>

fun attr_value :: "u32 attr \<Rightarrow> u32" where
  "attr_value (Value v) = v"
| "attr_value _ = 0"

definition gem_weights :: "gem_item list \<Rightarrow> (u32 \<times> nat) list" where
  "gem_weights is = map (\<lambda>i. (attr_value (gi_id i), unat (attr_value (gi_weight i)))) is"

fun cumulate :: "nat \<Rightarrow> (u32 \<times> nat) list \<Rightarrow> (u32 \<times> nat) list" where
  "cumulate c [] = []"
| "cumulate c ((i, w) # ws) = (i, c + w) # cumulate (c + w) ws"

lemma no_overflow_add:
  fixes cum :: u64 and weight :: u32
  assumes "\<not> - 1 - ucast weight < cum"
  shows "unat (cum + ucast weight) = unat cum + unat weight"
proof -
  have w: "unat (ucast weight :: u64) = unat weight" 
    using less_trans [OF unsigned_less [of weight, where ?'a = nat], of "2 ^ 64"]
    by (simp add: unsigned_ucast_eq take_bit_nat_eq_self_iff)
  have le: "cum \<le> - 1 - ucast weight" using assms by simp
  have "unat (- 1 - ucast weight :: u64) = 2 ^ 64 - 1 - unat weight"
    using w by (simp add: unat_sub unsigned_minus_1_eq_mask mask_eq_exp_minus_1)
  then have "unat cum + unat weight < 2 ^ 64"
    using le unsigned_less [of weight, where ?'a = nat] by (simp add: word_le_nat_alt)
  then show ?thesis using w by (simp add: unat_add_lem [THEN iffD1])
qed

lemma gem_item_loop_cumulate:
  "gem_item_loop is cum acc = Some (tot, items) \<Longrightarrow>
   map (\<lambda>w. (wi_item w, unat (cumulativeWeight w))) items =
     map (\<lambda>w. (wi_item w, unat (cumulativeWeight w))) acc @ cumulate (unat cum) (gem_weights is) \<and>
   unat tot = unat cum + sum_list (map snd (gem_weights is)) \<and>
   list_all (\<lambda>(i, w). i \<noteq> 0 \<and> 0 < w) (gem_weights is)"
proof (induction "is" cum acc rule: gem_item_loop.induct)
  case (1 cum acc)
  then show ?case by (simp add: gem_weights_def)
next
  case (2 i "is" cum acc)
  from "2.prems" obtain itemId weight where v: "gi_id i = Value itemId" "itemId \<noteq> 0"
    "gi_weight i = Value weight" "weight \<noteq> 0" "\<not> - 1 - ucast weight < cum"
    by (auto split: attr.splits if_splits)
  then have "gem_item_loop is (cum + ucast weight)
      (acc @ [\<lparr>wi_item = itemId, cumulativeWeight = cum + ucast weight\<rparr>]) = Some (tot, items)"
    using "2.prems" by (simp add: Let_def)
  from "2.IH" [OF v(1,2,3,4,5) refl this] v no_overflow_add [OF v(5)] show ?case
    by (simp add: gem_weights_def unat_gt_0)
qed

text \<open>Counting the tickets that select an identifier.\<close>

definition pick :: "(u32 \<times> nat) list \<Rightarrow> nat \<Rightarrow> u32 option" where
  "pick tbl t = map_option fst (find (\<lambda>(i, c). t \<le> c) tbl)"

lemma pick_cumulate:
  "pick (cumulate c ((i, w) # ws)) t = (if t \<le> c + w then Some i else pick (cumulate (c + w) ws) t)"
  by (simp add: pick_def)

lemma tickets_count:
  "finite {t. c < t \<and> t \<le> c + sum_list (map snd ws) \<and> pick (cumulate c ws) t = Some x} \<and>
   card {t. c < t \<and> t \<le> c + sum_list (map snd ws) \<and> pick (cumulate c ws) t = Some x} =
   sum_list (map snd (filter (\<lambda>(i, w). i = x) ws))"
proof (induction ws arbitrary: c)
  case Nil
  then show ?case by simp
next
  case (Cons iw ws)
  obtain i w where iw: "iw = (i, w)" by fastforce
  let ?A = "{t. c < t \<and> t \<le> c + w \<and> i = x}"
  let ?B = "{t. c + w < t \<and> t \<le> c + w + sum_list (map snd ws) \<and> pick (cumulate (c + w) ws) t = Some x}"
  have split: "{t. c < t \<and> t \<le> c + sum_list (map snd (iw # ws)) \<and> pick (cumulate c (iw # ws)) t = Some x}
      = ?A \<union> ?B"
    by (auto simp: iw pick_cumulate simp del: cumulate.simps)
  have A: "finite ?A" "card ?A = (if i = x then w else 0)"
  proof -
    have "?A = (if i = x then {c<..c + w} else {})" by auto
    then show "finite ?A" "card ?A = (if i = x then w else 0)" by simp_all
  qed
  have "?A \<inter> ?B = {}" by auto
  then have "card (?A \<union> ?B) = card ?A + card ?B" using A(1) Cons.IH [of "c + w"]
    by (intro card_Un_disjoint) simp_all
  then show ?case using A Cons.IH [of "c + w"] unfolding split by (simp add: iw)
qed

section \<open>A configured table draws in proportion\<close>

lemma ConfigureGemDrops_table:
  assumes "ConfigureGemDrops (Some (Some sec)) = (True, s)" "overrideTable s"
  shows "gem_item_loop (gs_items sec) 0 [] = Some (totalWeight s, gd_items s)" and "gd_items s \<noteq> []"
  using assms
  by (auto simp: ConfigureGemDrops_def Let_def gem_empty_def
      split: if_splits attr.splits option.splits prod.splits)

lemma find_map_pick:
  assumes "unat ticket = t"
  shows "map_option wi_item (find (\<lambda>w. ticket \<le> cumulativeWeight w) items) =
    pick (map (\<lambda>w. (wi_item w, unat (cumulativeWeight w))) items) t"
  using assms by (induction items) (auto simp: pick_def word_le_nat_alt)

lemma pick_total:
  "t \<le> c + sum_list (map snd ws) \<Longrightarrow> ws \<noteq> [] \<Longrightarrow> pick (cumulate c ws) t \<noteq> None"
proof (induction ws arbitrary: c)
  case (Cons iw ws)
  obtain i w where iw: "iw = (i, w)" by fastforce
  show ?case
  proof (cases "ws = []")
    case True
    then show ?thesis using Cons.prems by (simp add: iw pick_def)
  next
    case False
    then show ?thesis using Cons.prems Cons.IH [of "c + w"]
      by (simp add: iw pick_cumulate del: cumulate.simps)
  qed
qed simp

lemma SelectGemItemId_pick:
  assumes "ConfigureGemDrops (Some (Some sec)) = (True, s)" "overrideTable s"
    and "t \<le> unat (totalWeight s)"
  shows "pick (cumulate 0 (gem_weights (gs_items sec))) t = Some (SelectGemItemId s (word_of_nat t))"
proof -
  note c = ConfigureGemDrops_table [OF assms(1,2)]
  note l = gem_item_loop_cumulate [OF c(1)]
  have tab: "map (\<lambda>w. (wi_item w, unat (cumulativeWeight w))) (gd_items s) =
      cumulate 0 (gem_weights (gs_items sec))"
    and tot: "unat (totalWeight s) = sum_list (map snd (gem_weights (gs_items sec)))"
    using l by simp_all
  have u: "unat (word_of_nat t :: u64) = t"
    using assms(3) unsigned_less [of "totalWeight s", where ?'a = nat] by (simp add: unat_of_nat)
  have ne: "gem_weights (gs_items sec) \<noteq> []"
    using c tab by auto
  have "pick (cumulate 0 (gem_weights (gs_items sec))) t \<noteq> None"
    using assms(3) tot ne by (intro pick_total) simp_all
  moreover have "map_option wi_item (find (\<lambda>w. word_of_nat t \<le> cumulativeWeight w) (gd_items s)) =
      pick (cumulate 0 (gem_weights (gs_items sec))) t"
    using find_map_pick [OF u, of "gd_items s"] by (simp add: tab)
  ultimately show ?thesis
    by (auto simp: SelectGemItemId_def split: option.splits)
qed

lemma gem_draw_proportional:
  assumes "ConfigureGemDrops (Some (Some sec)) = (True, s)" "overrideTable s"
  shows "card {t. 1 \<le> t \<and> t \<le> unat (totalWeight s) \<and> SelectGemItemId s (word_of_nat t) = x} =
    sum_list (map snd (filter (\<lambda>(i, w). i = x) (gem_weights (gs_items sec))))"
proof -
  have tot: "unat (totalWeight s) = sum_list (map snd (gem_weights (gs_items sec)))"
    using gem_item_loop_cumulate [OF ConfigureGemDrops_table(1) [OF assms]] by simp
  have "{t. 1 \<le> t \<and> t \<le> unat (totalWeight s) \<and> SelectGemItemId s (word_of_nat t) = x} =
      {t. 0 < t \<and> t \<le> 0 + sum_list (map snd (gem_weights (gs_items sec))) \<and>
          pick (cumulate 0 (gem_weights (gs_items sec))) t = Some x}"
    using SelectGemItemId_pick [OF assms] by (auto simp: tot)
  then show ?thesis using tickets_count [of 0 "gem_weights (gs_items sec)" x] by simp
qed

lemma ConfigureGemDrops_chance:
  assumes "ConfigureGemDrops root = (True, s)" "overrideChance s"
  shows "\<exists>k. gd_chance s = Fin k \<and> 0 \<le> k \<and> k \<le> f32_unit"
  using assms
  by (auto simp: ConfigureGemDrops_def Let_def gem_empty_def percent_chance_range
      split: if_splits attr.splits option.splits prod.splits)

lemma ConfigureGemDrops_failed: "ConfigureGemDrops root = (False, s) \<Longrightarrow> s = gem_empty"
  by (auto simp: ConfigureGemDrops_def Let_def
      split: if_splits attr.splits option.splits prod.splits)

section \<open>Only the gem call sites are affected\<close>

lemma gem_detours_elsewhere:
  assumes "ret \<noteq> gemChanceReturnAddress s" "ret' \<noteq> gemItemLookupReturnAddress s"
  shows "OnComputeDropChance s ret r = r" "OnItemTypeLookup s ret' ticket i = i"
  using assms by (simp_all add: OnComputeDropChance_def OnItemTypeLookup_def)

section \<open>Properties\<close>

text \<open>C19: The weighted draw is exact: of the tickets 1 to the total weight, the number that select an
  item is the sum of the weights configured for it, and no ticket falls outside the table; the
  running 64-bit total never wraps.\<close>

theorem gem_draw_matches_weights:
  assumes "ConfigureGemDrops (Some (Some sec)) = (True, s)" and "overrideTable s"
  shows "card {t. 1 \<le> t \<and> t \<le> unat (totalWeight s) \<and> SelectGemItemId s (word_of_nat t) = x} =
      sum_list (map snd (filter (\<lambda>(i, w). i = x) (gem_weights (gs_items sec)))) \<and>
    unat (totalWeight s) = sum_list (map snd (gem_weights (gs_items sec)))"
  using gem_draw_proportional [OF assms] gem_item_loop_cumulate [OF ConfigureGemDrops_table(1) [OF assms]]
  by simp

definition sample_gems :: gem_section where
  "sample_gems = \<lparr>gs_enabled = True, gs_chance = Absent,
     gs_items = [\<lparr>gi_id = Value 481, gi_weight = Value 10\<rparr>, \<lparr>gi_id = Value 1234, gi_weight = Value 3\<rparr>,
                 \<lparr>gi_id = Value 481, gi_weight = Value 2\<rparr>]\<rparr>"

theorem gem_draw_matches_weights_witness:
  "card {t. 1 \<le> t \<and> t \<le> unat (totalWeight (snd (ConfigureGemDrops (Some (Some sample_gems))))) \<and>
     SelectGemItemId (snd (ConfigureGemDrops (Some (Some sample_gems)))) (word_of_nat t) = 481} = 12"
proof -
  have o: "overrideTable (snd (ConfigureGemDrops (Some (Some sample_gems))))"
    and l: "map snd (filter (\<lambda>(i, w). i = 481) (gem_weights (gs_items sample_gems))) = [10, 2]"
    and "fst (ConfigureGemDrops (Some (Some sample_gems)))"
    by code_simp+
  then have c: "ConfigureGemDrops (Some (Some sample_gems)) =
      (True, snd (ConfigureGemDrops (Some (Some sample_gems))))"
    by (simp add: prod_eq_iff)
  show ?thesis
    using gem_draw_matches_weights [OF c o, of 481, THEN conjunct1] unfolding l by simp
qed

text \<open>An accepted chance is a probability: whatever percentage the configuration gives, the value
  the chance detour returns at the gem call site lies between 0 and 1, the division's rounding
  included; a refused configuration leaves every default behaviour in place.\<close>

theorem gem_chance_is_probability:
  assumes "ConfigureGemDrops root = (ok, s)"
  shows "(\<not> ok \<or> \<not> overrideChance s \<or>
      (\<exists>k. OnComputeDropChance s (gemChanceReturnAddress s) r = Fin k \<and> 0 \<le> k \<and> k \<le> f32_unit)) \<and>
    (ok \<or> s = gem_empty)"
  using assms ConfigureGemDrops_chance [of root s] ConfigureGemDrops_failed [of root s]
  by (cases ok) (auto simp: OnComputeDropChance_def)

theorem gem_chance_is_probability_witness:
  "ConfigureGemDrops (Some (Some \<lparr>gs_enabled = True, gs_chance = Value (f32_of_int 101), gs_items = []\<rparr>)) =
     (False, gem_empty)"
proof -
  have "\<not> fst (ConfigureGemDrops (Some (Some
      \<lparr>gs_enabled = True, gs_chance = Value (f32_of_int 101), gs_items = []\<rparr>)))"
    by code_simp
  then show ?thesis
    using gem_chance_is_probability [OF prod.collapse [symmetric], of "Some (Some
      \<lparr>gs_enabled = True, gs_chance = Value (f32_of_int 101), gs_items = []\<rparr>)"]
    by (simp add: prod_eq_iff)
qed

end
