(* ===== verification/Tunnel_Drops.thy ===== *)
theory Tunnel_Drops
  imports Drop_Common
begin

text \<open>
  The extra tunnelling drops (\<open>source/server/hooks/engine/hook_tunnel_drop.cpp\<close>): configuration,
  the quality inherited from the dug materials, the independent rolls, the detour on the material
  reward, and attaching and detaching. The random generator is a state with two draws: a value of
  the unit interval with 53 bits, given as its numerator, and a uniform integer.
\<close>

section \<open>State\<close>

record tunnel_item =
  ti_item :: u32
  minimumQuantity :: u32
  maximumQuantity :: u32
  ti_chance :: f32

record tunnel_state =
  td_enabled :: bool
  td_attached :: bool
  overrideQuality :: bool
  td_quality :: u16
  td_items :: "tunnel_item list"
  td_moduleBase :: u64
  tunnelMaterialsReturnAddress :: u64
  addArbitraryItem :: u64
  engine_AddTunnelMaterials :: u64

definition kFallbackQuality :: u16 where "kFallbackQuality = 100"

text \<open>\<open>gTunnelDrops = {}\<close> leaves the pointer to the original function, another global, alone.\<close>

definition tunnel_reset :: "tunnel_state \<Rightarrow> tunnel_state" where
  "tunnel_reset s = \<lparr>td_enabled = False, td_attached = False, overrideQuality = False,
     td_quality = kFallbackQuality, td_items = [], td_moduleBase = 0,
     tunnelMaterialsReturnAddress = 0, addArbitraryItem = 0,
     engine_AddTunnelMaterials = engine_AddTunnelMaterials s\<rparr>"

section \<open>Configuration\<close>

record tunnel_item_cfg =
  tc_id :: "u32 attr"
  tc_chance :: "f32 attr"
  tc_min :: "u32 attr"
  tc_max :: "u32 attr"

record tunnel_section =
  ts_enabled :: bool
  ts_quality :: "u32 attr"
  ts_items :: "tunnel_item_cfg list"

definition parse_tunnel_item :: "tunnel_item_cfg \<Rightarrow> tunnel_item list \<Rightarrow> tunnel_item option" where
  "parse_tunnel_item c existing =
     (case tc_id c of
        Value itemId \<Rightarrow>
          (if itemId = 0 then None
           else (case tc_chance c of
               Value p \<Rightarrow>
                 (if \<not> percent_ok p then None
                  else
                    let minimum = (case tc_min c of Value v \<Rightarrow> Some v | Absent \<Rightarrow> Some 1 | Malformed \<Rightarrow> None)
                    in case minimum of
                         None \<Rightarrow> None
                       | Some mn \<Rightarrow>
                           (let maximum = (case tc_max c of Value v \<Rightarrow> Some v | Absent \<Rightarrow> Some mn
                                           | Malformed \<Rightarrow> None)
                            in case maximum of
                                 None \<Rightarrow> None
                               | Some mx \<Rightarrow>
                                   (if mn = 0 \<or> mx < mn then None
                                    else if list_ex (\<lambda>e. ti_item e = itemId) existing then None
                                    else Some \<lparr>ti_item = itemId, minimumQuantity = mn,
                                           maximumQuantity = mx, ti_chance = percent_chance p\<rparr>)))
             | _ \<Rightarrow> None))
      | _ \<Rightarrow> None)"

fun tunnel_item_loop :: "tunnel_item_cfg list \<Rightarrow> tunnel_item list \<Rightarrow> tunnel_item list option" where
  "tunnel_item_loop [] acc = Some acc"
| "tunnel_item_loop (c # cs) acc =
     (case parse_tunnel_item c acc of
        None \<Rightarrow> None
      | Some it \<Rightarrow> tunnel_item_loop cs (acc @ [it]))"

definition tunnel_quality :: "u32 attr \<Rightarrow> (bool \<times> u16) option" where
  "tunnel_quality q =
     (case q of
        Value v \<Rightarrow> (if v < 1 \<or> 100 < v then None else Some (True, ucast v))
      | Absent \<Rightarrow> Some (False, kFallbackQuality)
      | Malformed \<Rightarrow> None)"

definition ConfigureTunnelDrops ::
  "tunnel_section option option \<Rightarrow> tunnel_state \<Rightarrow> bool \<times> tunnel_state" where
  "ConfigureTunnelDrops root s =
     (if td_attached s then (False, s)
      else
        let s = tunnel_reset s
        in case root of
             None \<Rightarrow> (False, s)
           | Some None \<Rightarrow> (True, s)
           | Some (Some sec) \<Rightarrow>
               (if \<not> ts_enabled sec then (True, s)
                else (case tunnel_quality (ts_quality sec) of
                    None \<Rightarrow> (False, s)
                  | Some (ov, q) \<Rightarrow>
                      (case tunnel_item_loop (ts_items sec) [] of
                         None \<Rightarrow> (False, s)
                       | Some items \<Rightarrow>
                           if items = [] then (False, s)
                           else (True, s\<lparr>td_enabled := True, overrideQuality := ov, td_quality := q,
                                        td_items := items\<rparr>)))))"

section \<open>Rolling\<close>

text \<open>The roll is \<open>r / 2 ^ 53\<close>; a chance \<open>Fin k\<close> is \<open>k / 2 ^ 149\<close>, exactly representable as the
  double it is converted to.\<close>

fun PassesChanceRoll :: "f32 \<Rightarrow> nat \<Rightarrow> bool" where
  "PassesChanceRoll (Fin k) r =
     (if k \<le> 0 then False else if f32_unit \<le> k then True else int r * 2 ^ 96 < k)"
| "PassesChanceRoll PInf r = True"
| "PassesChanceRoll NInf r = False"
| "PassesChanceRoll NaN r = False"

definition rolls :: "f32 \<Rightarrow> bool" where
  "rolls c \<longleftrightarrow> \<not> fle c (Fin 0) \<and> \<not> fle (Fin f32_unit) c"

section \<open>Quality of the dug materials\<close>

definition kMaterialEntryStride :: nat where "kMaterialEntryStride = 10"

text \<open>The sums over the entries: quality byte at +6, quantity at +8.\<close>

fun quality_sums :: "mem \<Rightarrow> u64 \<Rightarrow> nat \<Rightarrow> u64 \<Rightarrow> u64 \<Rightarrow> u64 \<times> u64" where
  "quality_sums m at 0 wq tq = (wq, tq)"
| "quality_sums m at (Suc n) wq tq =
     (let quantity = (read_field m at 8 :: u16);
          quality = (ucast (m (at + 6)) :: u16)
      in quality_sums m (at + 10) n (wq + ucast quality * ucast quantity) (tq + ucast quantity))"

definition ExtractMaterialQuality :: "mem \<Rightarrow> u64 \<Rightarrow> u16" where
  "ExtractMaterialQuality m materials =
     (if materials = 0 then kFallbackQuality
      else
        let b = (read_field m materials 0 :: u64);
            e = (read_field m materials 8 :: u64)
        in if b = 0 \<or> e = 0 \<or> e < b then kFallbackQuality
           else
             let sz = unat (e - b)
             in if sz = 0 \<or> 1024 * 1024 < sz \<or> sz mod kMaterialEntryStride \<noteq> 0 then kFallbackQuality
                else
                  let (wq, tq) = quality_sums m b (sz div kMaterialEntryStride) 0 0
                  in if tq = 0 then kFallbackQuality
                     else
                       let rounded = (wq + tq div 2) div tq
                       in ucast (if rounded < 1 then 1 else if 100 < rounded then 100 else rounded))"

section \<open>Awarding\<close>

text \<open>The calls of the engine's item helper: identifier, quality, quantity. A draw happens only when
  the code draws.\<close>

fun award_loop ::
  "('g \<Rightarrow> nat \<times> 'g) \<Rightarrow> (u32 \<Rightarrow> u32 \<Rightarrow> 'g \<Rightarrow> u32 \<times> 'g) \<Rightarrow> u16 \<Rightarrow> tunnel_item list \<Rightarrow> 'g \<Rightarrow>
   (u32 \<times> u16 \<times> u32) list \<times> 'g" where
  "award_loop canon uniform q [] g = ([], g)"
| "award_loop canon uniform q (it # its) g =
     (let (r, g) = (if rolls (ti_chance it) then canon g else (0, g))
      in if \<not> PassesChanceRoll (ti_chance it) r then award_loop canon uniform q its g
         else
           let (n, g) = (if minimumQuantity it = maximumQuantity it then (minimumQuantity it, g)
                         else uniform (minimumQuantity it) (maximumQuantity it) g);
               (calls, g) = award_loop canon uniform q its g
           in ((ti_item it, q, n) # calls, g))"

definition AwardTunnelDrop ::
  "('g \<Rightarrow> nat \<times> 'g) \<Rightarrow> (u32 \<Rightarrow> u32 \<Rightarrow> 'g \<Rightarrow> u32 \<times> 'g) \<Rightarrow> mem \<Rightarrow> u64 \<Rightarrow> tunnel_state \<Rightarrow> 'g \<Rightarrow>
   (u32 \<times> u16 \<times> u32) list \<times> 'g" where
  "AwardTunnelDrop canon uniform m materials s g =
     award_loop canon uniform
       (if overrideQuality s then td_quality s else ExtractMaterialQuality m materials) (td_items s) g"

text \<open>The detour: the original's result is returned; drops are awarded only after it succeeded for a
  call from the tunnelling code.\<close>

definition OnAddTunnelMaterialsToInventory ::
  "('g \<Rightarrow> nat \<times> 'g) \<Rightarrow> (u32 \<Rightarrow> u32 \<Rightarrow> 'g \<Rightarrow> u32 \<times> 'g) \<Rightarrow> mem \<Rightarrow> u64 \<Rightarrow> u64 \<Rightarrow> bool \<Rightarrow>
   tunnel_state \<Rightarrow> 'g \<Rightarrow> bool \<times> (u32 \<times> u16 \<times> u32) list \<times> 'g" where
  "OnAddTunnelMaterialsToInventory canon uniform m returnAddress materials originalResult s g =
     (if originalResult \<and> returnAddress = tunnelMaterialsReturnAddress s
      then let (calls, g) = AwardTunnelDrop canon uniform m materials s g in (originalResult, calls, g)
      else (originalResult, [], g))"

section \<open>Attaching\<close>

definition kTunnelMaterialsCallRva :: u64 where "kTunnelMaterialsCallRva = 0x3ADEE9"
definition kTunnelMaterialsReturnRva :: u64 where "kTunnelMaterialsReturnRva = 0x3ADEEE"
definition kAddMaterialsFunctionRva :: u64 where "kAddMaterialsFunctionRva = 0x584120"
definition kAddArbitraryItemRva :: u64 where "kAddArbitraryItemRva = 0x3A89E0"

definition MatchesTunnelMaterialsCallSite :: "mem \<Rightarrow> u64 \<Rightarrow> u64 \<Rightarrow> bool" where
  "MatchesTunnelMaterialsCallSite m base a \<longleftrightarrow>
     MatchBytes m (a - 11) [0x45, 0x0F, 0xB6, 0x45, 0x38, 0x49, 0x8B, 0x55, 0x40, 0x8B, 0xCE] \<and>
     m a = 0xE8 \<and> MatchBytes m (a + 5) [0x84, 0xC0, 0x75, 0x7A] \<and>
     DecodeRelativeCallTarget m a = base + kAddMaterialsFunctionRva"

definition MatchesAddMaterialsFunction :: "mem \<Rightarrow> u64 \<Rightarrow> bool" where
  "MatchesAddMaterialsFunction m a \<longleftrightarrow>
     MatchBytes m a [0x48, 0x8B, 0xC4, 0x44, 0x88, 0x40, 0x18, 0x48, 0x89, 0x50, 0x10,
       0x89, 0x48, 0x08, 0x55, 0x53, 0x56, 0x57, 0x41, 0x54, 0x41, 0x55, 0x41, 0x56, 0x41, 0x57]"

definition MatchesAddArbitraryItemFunction :: "mem \<Rightarrow> u64 \<Rightarrow> bool" where
  "MatchesAddArbitraryItemFunction m a \<longleftrightarrow>
     MatchBytes m a [0x48, 0x8B, 0xC4, 0x55, 0x41, 0x56, 0x41, 0x57, 0x48, 0x8D, 0x68, 0xA9,
       0x48, 0x81, 0xEC, 0xE0, 0x00, 0x00, 0x00]"

definition AttachTunnelDropHook :: "hook_env \<Rightarrow> tunnel_state \<Rightarrow> tunnel_state" where
  "AttachTunnelDropHook e s =
     (if \<not> td_enabled s \<or> td_attached s then s
      else
        let s = s\<lparr>td_moduleBase := he_base e\<rparr>
        in if he_base e = 0 then s
           else if \<not> MatchesTunnelMaterialsCallSite (he_mem e) (he_base e) (he_base e + kTunnelMaterialsCallRva)
                \<or> \<not> MatchesAddMaterialsFunction (he_mem e) (he_base e + kAddMaterialsFunctionRva) then s
           else if \<not> MatchesAddArbitraryItemFunction (he_mem e) (he_base e + kAddArbitraryItemRva) then s
           else
             let s = s\<lparr>tunnelMaterialsReturnAddress := he_base e + kTunnelMaterialsReturnRva,
                       addArbitraryItem := he_base e + kAddArbitraryItemRva,
                       engine_AddTunnelMaterials := he_base e + kAddMaterialsFunctionRva\<rparr>
             in if \<not> he_detour_ok e then s\<lparr>addArbitraryItem := 0\<rparr>
                else s\<lparr>td_attached := True\<rparr>)"

definition DetachTunnelDropHook :: "hook_env \<Rightarrow> tunnel_state \<Rightarrow> tunnel_state" where
  "DetachTunnelDropHook e s =
     (if \<not> td_attached s \<or> engine_AddTunnelMaterials s = 0 then s
      else if \<not> he_detour_ok e then s
      else s\<lparr>td_attached := False, addArbitraryItem := 0\<rparr>)"

interpretation tunnel_hook: managed_hook ConfigureTunnelDrops AttachTunnelDropHook
  DetachTunnelDropHook td_enabled td_attached
proof unfold_locales
  show "\<not> td_attached s \<Longrightarrow> \<not> td_attached (snd (ConfigureTunnelDrops c s))" for s c
    by (auto simp: ConfigureTunnelDrops_def tunnel_reset_def Let_def split: option.splits)
  show "\<not> td_attached s \<Longrightarrow> \<not> fst (ConfigureTunnelDrops c s) \<Longrightarrow>
      \<not> td_enabled (snd (ConfigureTunnelDrops c s))" for s c
    by (auto simp: ConfigureTunnelDrops_def tunnel_reset_def Let_def split: option.splits if_splits)
qed (simp_all add: ConfigureTunnelDrops_def AttachTunnelDropHook_def DetachTunnelDropHook_def Let_def)

section \<open>Configured items\<close>

definition tunnel_item_ok :: "tunnel_item \<Rightarrow> bool" where
  "tunnel_item_ok it \<longleftrightarrow> ti_item it \<noteq> 0 \<and> minimumQuantity it \<noteq> 0 \<and>
     minimumQuantity it \<le> maximumQuantity it \<and>
     (\<exists>k. ti_chance it = Fin k \<and> 0 \<le> k \<and> k \<le> f32_unit)"

lemma word_ge_one: "(w :: u32) \<noteq> 0 \<Longrightarrow> 1 \<le> w"
  by (metis word_less_1 not_le)

lemma parse_tunnel_item_ok:
  "parse_tunnel_item c acc = Some it \<Longrightarrow> tunnel_item_ok it \<and> ti_item it \<notin> ti_item ` set acc"
  by (auto simp: parse_tunnel_item_def tunnel_item_ok_def Let_def list_ex_iff percent_chance_range
      word_ge_one split: attr.splits if_splits)

lemma tunnel_item_loop_ok:
  "tunnel_item_loop cs acc = Some items \<Longrightarrow> list_all tunnel_item_ok acc \<Longrightarrow>
   distinct (map ti_item acc) \<Longrightarrow> list_all tunnel_item_ok items \<and> distinct (map ti_item items)"
proof (induction cs acc rule: tunnel_item_loop.induct)
  case (1 acc)
  then show ?case by simp
next
  case (2 c cs acc)
  from "2.prems"(1) obtain it where it: "parse_tunnel_item c acc = Some it"
    and l: "tunnel_item_loop cs (acc @ [it]) = Some items"
    by (auto split: option.splits)
  note ok = parse_tunnel_item_ok [OF it]
  show ?case
    by (rule "2.IH" [OF it l]) (use "2.prems"(2,3) ok in auto)
qed

lemma ConfigureTunnelDrops_ok:
  assumes "ConfigureTunnelDrops root s0 = (True, s)"
  shows "list_all tunnel_item_ok (td_items s) \<and> distinct (map ti_item (td_items s)) \<and>
    (overrideQuality s \<longrightarrow> 1 \<le> td_quality s \<and> td_quality s \<le> 100)"
proof -
  have "td_items s = [] \<and> \<not> overrideQuality s \<or>
      (\<exists>sec :: tunnel_section. tunnel_quality (ts_quality sec) = Some (overrideQuality s, td_quality s) \<and>
        tunnel_item_loop (ts_items sec) [] = Some (td_items s))"
    using assms
    by (auto simp: ConfigureTunnelDrops_def tunnel_reset_def Let_def
        split: if_splits option.splits prod.splits)
  then show ?thesis
  proof
    assume "\<exists>sec :: tunnel_section. tunnel_quality (ts_quality sec) = Some (overrideQuality s, td_quality s) \<and>
        tunnel_item_loop (ts_items sec) [] = Some (td_items s)"
    then obtain sec :: tunnel_section where q: "tunnel_quality (ts_quality sec) = Some (overrideQuality s, td_quality s)"
      and l: "tunnel_item_loop (ts_items sec) [] = Some (td_items s)" by blast
    have "overrideQuality s \<longrightarrow> 1 \<le> td_quality s \<and> td_quality s \<le> 100"
    proof
      assume "overrideQuality s"
      then obtain v :: u32 where v: "\<not> v < 1" "\<not> 100 < v" "td_quality s = ucast v"
        using q by (auto simp: tunnel_quality_def split: attr.splits if_splits)
      then have u: "1 \<le> unat v" "unat v \<le> 100"
        by (simp_all only: not_less word_le_nat_alt) simp_all
      then have "unat (ucast v :: u16) = unat v"
        by (simp add: unsigned_ucast_eq take_bit_nat_eq_self_iff)
      then show "1 \<le> td_quality s \<and> td_quality s \<le> 100" using u v(3) by (simp add: word_le_nat_alt)
    qed
    then show ?thesis using tunnel_item_loop_ok [OF l] by simp
  qed simp
qed

definition tunnel_good :: "tunnel_state \<Rightarrow> bool" where
  "tunnel_good s \<longleftrightarrow> td_items s \<noteq> [] \<and> list_all tunnel_item_ok (td_items s) \<and> distinct (map ti_item (td_items s)) \<and>
     (overrideQuality s \<longrightarrow> 1 \<le> td_quality s \<and> td_quality s \<le> 100)"

interpretation tunnel_config: configured_hook ConfigureTunnelDrops AttachTunnelDropHook
  DetachTunnelDropHook td_enabled td_attached tunnel_good
proof unfold_locales
  fix s c
  assume n: "\<not> td_attached s" and e: "td_enabled (snd (ConfigureTunnelDrops c s))"
  obtain ok s' where r: "ConfigureTunnelDrops c s = (ok, s')" by fastforce
  have "ok" using tunnel_hook.configure_failed [OF n, of c] e r by auto
  moreover have "td_items s' \<noteq> []"
    using r e n by (auto simp: ConfigureTunnelDrops_def tunnel_reset_def Let_def split: option.splits if_splits)
  ultimately show "tunnel_good (snd (ConfigureTunnelDrops c s))"
    using ConfigureTunnelDrops_ok [of c s s'] r by (simp add: tunnel_good_def)
qed (auto simp: tunnel_good_def AttachTunnelDropHook_def DetachTunnelDropHook_def Let_def)

section \<open>The inherited quality is the rounded mean\<close>

fun mat_entries :: "mem \<Rightarrow> u64 \<Rightarrow> nat \<Rightarrow> (nat \<times> nat) list" where
  "mat_entries m at 0 = []"
| "mat_entries m at (Suc n) =
     (unat (m (at + 6)), unat (read_field m at 8 :: u16)) # mat_entries m (at + 10) n"

definition quantity_sum :: "(nat \<times> nat) list \<Rightarrow> nat" where
  "quantity_sum es = sum_list (map snd es)"

definition weighted_sum :: "(nat \<times> nat) list \<Rightarrow> nat" where
  "weighted_sum es = sum_list (map (\<lambda>(q, n). q * n) es)"

lemma mat_entries_bounds:
  "quantity_sum (mat_entries m at n) \<le> n * 65535 \<and>
   weighted_sum (mat_entries m at n) \<le> n * (255 * 65535)"
proof (induction n arbitrary: at)
  case 0
  then show ?case by (simp add: quantity_sum_def weighted_sum_def)
next
  case (Suc n)
  have a: "unat (m (at + 6)) \<le> 255" using unsigned_less [of "m (at + 6)", where ?'a = nat] by simp
  have b: "unat (read_field m at 8 :: u16) \<le> 65535"
    using unsigned_less [of "read_field m at 8 :: u16", where ?'a = nat] by simp
  have "unat (m (at + 6)) * unat (read_field m at 8 :: u16) \<le> 255 * 65535"
    using a b by (rule mult_le_mono)
  then show ?case using b Suc.IH [of "at + 10"] by (simp add: quantity_sum_def weighted_sum_def)
qed

lemma ucast_product:
  fixes q :: u8 and n :: u16
  shows "unat (ucast (ucast q :: u16) * ucast n :: u64) = unat q * unat n"
proof -
  have q: "unat q < 256" and n: "unat n < 65536"
    using unsigned_less [of q, where ?'a = nat] unsigned_less [of n, where ?'a = nat] by simp_all
  have "unat q * unat n \<le> 256 * 65536" using q n by (intro mult_le_mono) simp_all
  then have "unat q * unat n < 2 ^ 64" by simp
  moreover have q16: "unat (ucast q :: u16) = unat q" and "unat (ucast n :: u64) = unat n"
    using q n by (simp_all add: unsigned_ucast_eq take_bit_nat_eq_self_iff)
  moreover have "unat (ucast x :: u64) = unat x" for x :: u16
    using less_trans [OF unsigned_less [of x, where ?'a = nat], of "2 ^ 64"]
    by (simp add: unsigned_ucast_eq take_bit_nat_eq_self_iff)
  ultimately show ?thesis by (simp add: unat_mult_lem [THEN iffD1])
qed

lemma quality_sums_exact:
  "unat wq + weighted_sum (mat_entries m at n) < 2 ^ 64 \<Longrightarrow>
   unat tq + quantity_sum (mat_entries m at n) < 2 ^ 64 \<Longrightarrow>
   quality_sums m at n wq tq = (a, b) \<Longrightarrow>
   unat a = unat wq + weighted_sum (mat_entries m at n) \<and>
   unat b = unat tq + quantity_sum (mat_entries m at n)"
proof (induction n arbitrary: at wq tq)
  case 0
  then show ?case by (simp add: quantity_sum_def weighted_sum_def)
next
  case (Suc n)
  let ?n = "read_field m at 8 :: u16"
  let ?q = "ucast (m (at + 6)) :: u16"
  have un: "unat (ucast ?n :: u64) = unat ?n"
    using less_trans [OF unsigned_less [of ?n, where ?'a = nat], of "2 ^ 64"]
    by (simp add: unsigned_ucast_eq take_bit_nat_eq_self_iff)
  have w: "unat (wq + ucast ?q * ucast ?n) = unat wq + unat (m (at + 6)) * unat ?n"
    using Suc.prems(1) ucast_product [of "m (at + 6)" ?n]
    by (subst unat_add_lem [THEN iffD1]) (simp_all add: weighted_sum_def)
  have t: "unat (tq + ucast ?n) = unat tq + unat ?n"
    using Suc.prems(2) un
    by (subst unat_add_lem [THEN iffD1]) (simp_all add: quantity_sum_def)
  have "quality_sums m (at + 10) n (wq + ucast ?q * ucast ?n) (tq + ucast ?n) = (a, b)"
    using Suc.prems(3) by (simp add: Let_def)
  from Suc.IH [OF _ _ this] Suc.prems(1,2) show ?case
    by (simp add: w t quantity_sum_def weighted_sum_def)
qed

definition clamp_quality :: "nat \<Rightarrow> nat" where
  "clamp_quality n = max 1 (min 100 n)"

lemma clamp_word:
  fixes r :: u64
  shows "unat (ucast (if r < 1 then 1 else if 100 < r then 100 else r) :: u16) = clamp_quality (unat r)"
proof (cases "r < 1 \<or> 100 < r")
  case True
  then show ?thesis by (auto simp: clamp_quality_def word_less_nat_alt)
next
  case False
  then have "unat r \<le> 100" "1 \<le> unat r" by (auto simp: word_less_nat_alt not_less)
  moreover from this have "unat (ucast r :: u16) = unat r"
    by (simp add: unsigned_ucast_eq take_bit_nat_eq_self_iff)
  ultimately show ?thesis using False by (simp add: clamp_quality_def)
qed

lemma ExtractMaterialQuality_range:
  "1 \<le> ExtractMaterialQuality m materials \<and> ExtractMaterialQuality m materials \<le> 100"
proof -
  have c: "1 \<le> (ucast (if r < 1 then 1 else if 100 < r then 100 else r :: u64) :: u16) \<and>
      (ucast (if r < 1 then 1 else if 100 < r then 100 else r :: u64) :: u16) \<le> 100" for r
    unfolding word_le_nat_alt clamp_word by (simp add: clamp_quality_def)
  then show ?thesis
    by (auto simp: ExtractMaterialQuality_def Let_def kFallbackQuality_def split: prod.splits)
qed

lemma ExtractMaterialQuality_mean:
  assumes "materials \<noteq> 0" "read_field m materials 0 = b" "read_field m materials 8 = e"
    and "b \<noteq> 0" "b \<le> e" "unat (e - b) = 10 * n" "0 < n" "10 * n \<le> 1024 * 1024"
    and "0 < quantity_sum (mat_entries m b n)"
  shows "unat (ExtractMaterialQuality m materials) =
    clamp_quality ((weighted_sum (mat_entries m b n) + quantity_sum (mat_entries m b n) div 2)
      div quantity_sum (mat_entries m b n))"
proof -
  let ?W = "weighted_sum (mat_entries m b n)" and ?T = "quantity_sum (mat_entries m b n)"
  have n: "n \<le> 104857" using assms(8) by simp
  have T: "?T \<le> 104857 * 65535" and W: "?W \<le> 104857 * (255 * 65535)"
    using mat_entries_bounds [of m b n] mult_le_mono1 [OF n, of 65535]
      mult_le_mono1 [OF n, of "255 * 65535"] by linarith+
  obtain wq tq where q: "quality_sums m b n 0 0 = (wq, tq)" by fastforce
  have u: "unat wq = ?W" "unat tq = ?T"
    using quality_sums_exact [OF _ _ q] W T by simp_all
  have "unat (wq + tq div 2) = ?W + ?T div 2"
    using W T by (subst unat_add_lem [THEN iffD1]) (simp_all add: u unat_div)
  then have r: "unat ((wq + tq div 2) div tq) = (?W + ?T div 2) div ?T"
    by (simp add: unat_div u)
  have tq: "tq \<noteq> 0" using u(2) assms(9) by auto
  have e: "e \<noteq> 0" "\<not> e < b" using assms(4,5) by auto
  have "ExtractMaterialQuality m materials =
      ucast (if (wq + tq div 2) div tq < 1 then 1
             else if 100 < (wq + tq div 2) div tq then 100 else (wq + tq div 2) div tq)"
    using assms(1-4,6-8) e tq
    by (simp add: ExtractMaterialQuality_def Let_def kMaterialEntryStride_def q)
  then show ?thesis by (simp only: clamp_word r)
qed

section \<open>Rolls and awards\<close>

lemma less_ceiling:
  fixes r k B :: int
  assumes "0 < B"
  shows "(r * B < k) = (r < (k + B - 1) div B)"
proof -
  define q where "q = (k + B - 1) div B"
  have "q * B + (k + B - 1) mod B = k + B - 1" unfolding q_def by (rule div_mult_mod_eq)
  moreover have "0 \<le> (k + B - 1) mod B" "(k + B - 1) mod B < B" using assms by simp_all
  ultimately have q: "q * B \<le> k + B - 1" "k + B - 1 < (q + 1) * B"
    by (simp_all only: distrib_right mult_1)
  show ?thesis
  proof (cases "r < q")
    case True
    then have "(r + 1) * B \<le> q * B" using assms by (intro mult_right_mono) simp_all
    then have "r * B + B \<le> q * B" by (simp only: distrib_right mult_1)
    then have "r * B < k" using q(1) by linarith
    then show ?thesis using True by (simp add: q_def)
  next
    case False
    then have "q * B \<le> r * B" using assms by (intro mult_right_mono) simp_all
    moreover have "k + B - 1 < q * B + B" using q(2) by (simp only: distrib_right mult_1)
    ultimately have "k \<le> r * B" by linarith
    then show ?thesis using False by (simp add: q_def)
  qed
qed

lemma roll_count:
  assumes "0 \<le> k" "k \<le> f32_unit"
  shows "card {r. r < 2 ^ 53 \<and> PassesChanceRoll (Fin k) r} = nat ((k + 2 ^ 96 - 1) div 2 ^ 96)"
proof -
  let ?c = "nat ((k + 2 ^ 96 - 1) div 2 ^ 96)"
  have u: "f32_unit = 2 ^ 53 * 2 ^ 96" by (simp add: f32_unit_def)
  have "(k + 2 ^ 96 - 1) div 2 ^ 96 \<le> (2 ^ 53 * 2 ^ 96 + 2 ^ 96 - 1) div 2 ^ 96"
    using assms(2) u by (intro zdiv_mono1) simp_all
  then have c53: "?c \<le> 2 ^ 53" by simp
  have lt: "(int r * 2 ^ 96 < k) = (r < ?c)" for r
  proof -
    have "(int r * 2 ^ 96 < k) = (int r < (k + 2 ^ 96 - 1) div 2 ^ 96)"
      by (rule less_ceiling) simp
    then show ?thesis by (simp add: zless_nat_eq_int_zless)
  qed
  have "{r. r < 2 ^ 53 \<and> PassesChanceRoll (Fin k) r} = {r. r < ?c}"
  proof (cases "k \<le> 0 \<or> f32_unit \<le> k")
    case True
    then consider "k = 0" | "k = f32_unit" using assms by linarith
    then show ?thesis
    proof cases
      case 1
      then show ?thesis by simp
    next
      case 2
      then have "?c = 2 ^ 53" by (simp only: f32_unit_def) simp
      then show ?thesis using 2 f32_unit_pos by (simp add: not_le [THEN iffD2])
    qed
  next
    case False
    then have "PassesChanceRoll (Fin k) r = (r < ?c)" for r using lt [of r] by (simp only: PassesChanceRoll.simps) simp
    then show ?thesis using c53 by (metis (no_types, lifting) order_less_le_trans)
  qed
  then show ?thesis by simp
qed

lemma subseq_keeps_distinct: "subseq xs ys \<Longrightarrow> distinct ys \<Longrightarrow> distinct xs"
  by (auto simp: subseq_conv_nths)

lemma award_loop_calls:
  assumes u: "\<And>lo hi g. lo \<le> hi \<Longrightarrow> lo \<le> fst (uniform lo hi g) \<and> fst (uniform lo hi g) \<le> hi"
  shows "award_loop canon uniform q its g = (calls, g') \<Longrightarrow> list_all tunnel_item_ok its \<Longrightarrow>
    subseq (map fst calls) (map ti_item its) \<and>
    list_all (\<lambda>(i, q', n). q' = q \<and>
      (\<exists>it \<in> set its. ti_item it = i \<and> minimumQuantity it \<le> n \<and> n \<le> maximumQuantity it)) calls"
proof (induction its arbitrary: g calls g')
  case Nil
  then show ?case by simp
next
  case (Cons it its)
  obtain r g1 where r: "(if rolls (ti_chance it) then canon g else (0, g)) = (r, g1)" by fastforce
  show ?case
  proof (cases "PassesChanceRoll (ti_chance it) r")
    case False
    then have "award_loop canon uniform q its g1 = (calls, g')" using Cons.prems(1) r by simp
    from Cons.IH [OF this] Cons.prems(2) show ?thesis by (auto simp: list_all_iff)
  next
    case True
    obtain n g2 where n: "(if minimumQuantity it = maximumQuantity it then (minimumQuantity it, g1)
        else uniform (minimumQuantity it) (maximumQuantity it) g1) = (n, g2)" by fastforce
    obtain cs g3 where c: "award_loop canon uniform q its g2 = (cs, g3)" by fastforce
    have calls: "calls = (ti_item it, q, n) # cs" using Cons.prems(1) r True n c by simp
    have "minimumQuantity it \<le> n \<and> n \<le> maximumQuantity it"
      using n u [of "minimumQuantity it" "maximumQuantity it" g1] Cons.prems(2)
      by (auto simp: tunnel_item_ok_def split: if_splits)
    with Cons.IH [OF c] Cons.prems(2) show ?thesis by (auto simp: calls list_all_iff)
  qed
qed

section \<open>Properties\<close>

text \<open>The quality inherited from the dug materials is always between 1 and 100, and for a
  material list of up to one mebibyte with anything in it, it is the quantity-weighted mean
  quality rounded to nearest; the 64-bit sums never wrap.\<close>

theorem inherited_quality_is_rounded_mean:
  assumes "materials \<noteq> 0" and "read_field m materials 0 = b" and "read_field m materials 8 = e"
    and "b \<noteq> 0" and "b \<le> e" and "unat (e - b) = 10 * n" and "0 < n" and "10 * n \<le> 1024 * 1024"
    and "0 < quantity_sum (mat_entries m b n)"
  shows "1 \<le> ExtractMaterialQuality m materials \<and> ExtractMaterialQuality m materials \<le> 100 \<and>
    unat (ExtractMaterialQuality m materials) =
    clamp_quality ((weighted_sum (mat_entries m b n) + quantity_sum (mat_entries m b n) div 2)
      div quantity_sum (mat_entries m b n))"
  using ExtractMaterialQuality_range ExtractMaterialQuality_mean [OF assms] by blast

definition sample_materials :: mem where
  "sample_materials a =
     (case map_of [(0x1001, 0x20), (0x1008, 0x14), (0x1009, 0x20),
        (0x2006, 40), (0x2008, 3), (0x2010, 81), (0x2012, 1)] a of Some b \<Rightarrow> b | None \<Rightarrow> 0)"

theorem inherited_quality_is_rounded_mean_witness:
  "unat (ExtractMaterialQuality sample_materials 0x1000) = 50"
proof -
  have e: "mat_entries sample_materials 0x2000 2 = [(40, 3), (81, 1)]" by code_simp
  have r: "read_field sample_materials 0x1000 0 = (0x2000 :: u64)"
    "read_field sample_materials 0x1000 8 = (0x2014 :: u64)"
    by code_simp+
  show ?thesis
    using inherited_quality_is_rounded_mean [OF _ r, of 2] e
    by (simp add: quantity_sum_def weighted_sum_def clamp_quality_def)
qed


definition sample_tunnel :: "tunnel_section option option" where
  "sample_tunnel = Some (Some \<lparr>ts_enabled = True, ts_quality = Value 60,
     ts_items = [\<lparr>tc_id = Value 7, tc_chance = Value (f32_of_int 100), tc_min = Value 2, tc_max = Value 5\<rparr>,
                 \<lparr>tc_id = Value 8, tc_chance = Value (f32_of_int 0), tc_min = Absent, tc_max = Absent\<rparr>]\<rparr>)"

definition tunnel_idle :: tunnel_state where
  "tunnel_idle = \<lparr>td_enabled = False, td_attached = False, overrideQuality = False,
     td_quality = kFallbackQuality, td_items = [], td_moduleBase = 0,
     tunnelMaterialsReturnAddress = 0, addArbitraryItem = 0, engine_AddTunnelMaterials = 0\<rparr>"


text \<open>The roll realises the configured chance: of the \<open>2 ^ 53\<close> equally likely draws, exactly
  the chance times \<open>2 ^ 53\<close>, rounded up, pass; none at chance 0 and all at chance 1.\<close>

theorem chance_roll_exact:
  assumes "percent_ok p"
  shows "\<exists>k. percent_chance p = Fin k \<and> 0 \<le> k \<and> k \<le> f32_unit \<and>
    card {r. r < 2 ^ 53 \<and> PassesChanceRoll (percent_chance p) r} = nat ((k + 2 ^ 96 - 1) div 2 ^ 96)"
proof -
  obtain k where k: "percent_chance p = Fin k" "0 \<le> k" "k \<le> f32_unit"
    using percent_chance_range [OF assms] by blast
  show ?thesis using k roll_count [OF k(2,3)] by (intro exI [of _ k]) simp
qed

theorem chance_roll_exact_witness:
  "card {r. r < 2 ^ 53 \<and> PassesChanceRoll (percent_chance (f32_of_int 25)) r} = 2 ^ 51"
proof -
  have p: "percent_ok (f32_of_int 25)" and c: "percent_chance (f32_of_int 25) = Fin (2 ^ 147)"
    by code_simp+
  show ?thesis using chance_roll_exact [OF p] unfolding c by simp
qed

end
