(* ===== verification/Tree_Drops.thy ===== *)
theory Tree_Drops
  imports Drop_Common
begin

text \<open>
  The per-species tree drops (\<open>source/server/hooks/engine/hook_tree_drop.cpp\<close>): configuration, the
  machine code generated for the configured species, the patch of the engine's selector, attaching
  and detaching. The instructions the generated code and the selector use are given their meaning
  by a small interpreter of the x86-64 encodings concerned, so that the code can be proved to do
  what the configuration says.
\<close>

section \<open>State\<close>

record tree_drop =
  treeType :: u8
  drop_item :: u32

record tree_state =
  tr_enabled :: bool
  tr_attached :: bool
  tr_drops :: "tree_drop list"
  tr_moduleBase :: u64
  selectorAddress :: u64
  trampoline :: u64
  trampolineSize :: nat

definition tree_empty :: tree_state where
  "tree_empty = \<lparr>tr_enabled = False, tr_attached = False, tr_drops = [], tr_moduleBase = 0,
     selectorAddress = 0, trampoline = 0, trampolineSize = 0\<rparr>"

definition kTreeTypeNames :: "string list" where
  "kTreeTypeNames = [''apple'', ''birch'', ''elm'', ''spruce'', ''pine'', ''maple'',
     ''mulberry'', ''oak'', ''aspen'', ''hazel'', ''juniper'', ''spinny'']"

section \<open>Names and numbers\<close>

definition lower_ascii :: "char \<Rightarrow> char" where
  "lower_ascii c =
     (let n = (of_char c :: nat) in if 65 \<le> n \<and> n \<le> 90 then char_of (n - 65 + 97) else c)"

definition EqualsIgnoreCase :: "string \<Rightarrow> string \<Rightarrow> bool" where
  "EqualsIgnoreCase l r \<longleftrightarrow>
     length l = length r \<and> list_all2 (\<lambda>a b. lower_ascii a = lower_ascii b) l r"

text \<open>\<open>std::from_chars\<close> for an unsigned decimal: the value of the leading digits and the rest;
  \<open>None\<close> without a digit or beyond 32 bits.\<close>

definition from_chars_u32 :: "string \<Rightarrow> (nat \<times> string) option" where
  "from_chars_u32 s =
     (let ds = takeWhile is_digit s;
          v = foldl (\<lambda>a c. a * 10 + digit_val c) 0 ds
      in if ds = [] \<or> 2 ^ 32 \<le> v then None else Some (v, drop (length ds) s))"

fun index_of_name :: "string \<Rightarrow> string list \<Rightarrow> nat \<Rightarrow> nat option" where
  "index_of_name v [] i = None"
| "index_of_name v (n # ns) i = (if EqualsIgnoreCase v n then Some i else index_of_name v ns (Suc i))"

definition ParseTreeType :: "string \<Rightarrow> u8 option" where
  "ParseTreeType v =
     (case index_of_name v kTreeTypeNames 0 of
        Some i \<Rightarrow> Some (word_of_nat i)
      | None \<Rightarrow>
          (case from_chars_u32 v of
             Some (n, rest) \<Rightarrow> if rest = [] \<and> n \<le> 0xFF then Some (word_of_nat n) else None
           | None \<Rightarrow> None))"

section \<open>Configuration\<close>

record tree_drop_cfg =
  dc_tree :: "string option"
  dc_item :: "u32 attr"

record tree_section =
  tree_enabled :: bool
  tree_drops :: "tree_drop_cfg list"

fun tree_drop_loop :: "tree_drop_cfg list \<Rightarrow> tree_drop list \<Rightarrow> tree_drop list option" where
  "tree_drop_loop [] acc = Some acc"
| "tree_drop_loop (c # cs) acc =
     (case dc_tree c of
        None \<Rightarrow> None
      | Some name \<Rightarrow>
          if name = [] then None
          else (case ParseTreeType name of
              None \<Rightarrow> None
            | Some tt \<Rightarrow>
                (case dc_item c of
                   Value itemId \<Rightarrow>
                     if itemId = 0 then None
                     else if list_ex (\<lambda>d. treeType d = tt) acc then None
                     else tree_drop_loop cs (acc @ [\<lparr>treeType = tt, drop_item = itemId\<rparr>])
                 | _ \<Rightarrow> None)))"

definition ConfigureTreeDrops :: "tree_section option option \<Rightarrow> tree_state \<Rightarrow> bool \<times> tree_state" where
  "ConfigureTreeDrops root s =
     (if tr_attached s then (False, s)
      else case root of
        None \<Rightarrow> (False, tree_empty)
      | Some None \<Rightarrow> (True, tree_empty)
      | Some (Some sec) \<Rightarrow>
          (if \<not> tree_enabled sec then (True, tree_empty)
           else (case tree_drop_loop (tree_drops sec) [] of
               None \<Rightarrow> (False, tree_empty)
             | Some drops \<Rightarrow>
                 if drops = [] then (False, tree_empty)
                 else (True, tree_empty\<lparr>tr_enabled := True, tr_drops := sort_key treeType drops\<rparr>))))"

section \<open>Generated code\<close>

definition kTreeDropSelectorRva :: u64 where "kTreeDropSelectorRva = 0x3716D0"
definition kTreeDropSelectorReturnRva :: u64 where "kTreeDropSelectorReturnRva = 0x3716EA"

definition kOriginalSelectorBytes :: bytes where
  "kOriginalSelectorBytes =
     [0xB8, 0x8D, 0x02, 0x00, 0x00, 0xB9, 0x72, 0x02, 0x00, 0x00,
      0x80, 0xBD, 0x10, 0x01, 0x00, 0x00, 0x00, 0x0F, 0x45, 0xC1,
      0x89, 0x85, 0x10, 0x01, 0x00, 0x00]"

definition kVanillaSelectionSize :: nat where "kVanillaSelectionSize = 20"

definition AppendAbsoluteJump :: "bytes \<Rightarrow> u64 \<Rightarrow> bytes" where
  "AppendAbsoluteJump code destination =
     code @ [0xFF, 0x25, 0x00, 0x00, 0x00, 0x00] @ store_le 8 destination"

definition drop_code :: "tree_drop \<Rightarrow> bytes" where
  "drop_code d =
     [0x80, 0xBD, 0x20, 0x01, 0x00, 0x00, treeType d] @ [0x75, 0x05, 0xB8] @ store_le 4 (drop_item d)"

definition trampoline_code :: "tree_drop list \<Rightarrow> u64 \<Rightarrow> bytes" where
  "trampoline_code drops base =
     AppendAbsoluteJump
       (take kVanillaSelectionSize kOriginalSelectorBytes @ concat (map drop_code drops) @
        [0x89, 0x85, 0x10, 0x01, 0x00, 0x00])
       (base + kTreeDropSelectorReturnRva)"

definition MakeSelectorPatch :: "u64 \<Rightarrow> bytes" where
  "MakeSelectorPatch tramp =
     [0xFF, 0x25, 0x00, 0x00, 0x00, 0x00] @ store_le 8 tramp @ replicate 12 0x90"

definition MatchesTreeDropSelector :: "mem \<Rightarrow> u64 \<Rightarrow> bool" where
  "MatchesTreeDropSelector m a \<longleftrightarrow> MatchBytes m a kOriginalSelectorBytes"

section \<open>Attaching and detaching\<close>

text \<open>What the operating system answers: the module base, the block \<open>VirtualAlloc\<close> returns (0 when
  it fails), and whether changing the protection of the block and of the selector succeeds.\<close>

record tree_env =
  tv_base :: u64
  tv_alloc :: u64
  tv_block_ok :: bool
  tv_selector_ok :: bool

definition WriteExecutableMemory :: "bool \<Rightarrow> u64 \<Rightarrow> bytes \<Rightarrow> mem \<Rightarrow> bool \<times> mem" where
  "WriteExecutableMemory writable a bs m = (if \<not> writable then (False, m) else (True, mwrite m a bs))"

definition BuildTrampoline :: "tree_env \<Rightarrow> tree_state \<Rightarrow> mem \<Rightarrow> bool \<times> tree_state \<times> mem" where
  "BuildTrampoline e s m =
     (let code = trampoline_code (tr_drops s) (tr_moduleBase s)
      in if tv_alloc e = 0 then (False, s, m)
         else
           let m = mwrite m (tv_alloc e) code
           in if \<not> tv_block_ok e then (False, s, m)
              else (True, s\<lparr>trampoline := tv_alloc e, trampolineSize := length code\<rparr>, m))"

definition AttachTreeDropHook :: "tree_env \<Rightarrow> tree_state \<times> mem \<Rightarrow> tree_state \<times> mem" where
  "AttachTreeDropHook e sm =
     (let (s, m) = sm in
      if \<not> tr_enabled s \<or> tr_attached s then (s, m)
      else
        let s = s\<lparr>tr_moduleBase := tv_base e\<rparr>
        in if tv_base e = 0 then (s, m)
           else
             let s = s\<lparr>selectorAddress := tv_base e + kTreeDropSelectorRva\<rparr>
             in if \<not> MatchesTreeDropSelector m (selectorAddress s) then (s, m)
                else (case BuildTrampoline e s m of
                    (False, s, m) \<Rightarrow> (s, m)
                  | (True, s, m) \<Rightarrow>
                      (case WriteExecutableMemory (tv_selector_ok e) (selectorAddress s)
                              (MakeSelectorPatch (trampoline s)) m of
                         (False, m) \<Rightarrow> (s\<lparr>trampoline := 0, trampolineSize := 0\<rparr>, m)
                       | (True, m) \<Rightarrow> (s\<lparr>tr_attached := True\<rparr>, m))))"

definition DetachTreeDropHook :: "tree_env \<Rightarrow> tree_state \<times> mem \<Rightarrow> tree_state \<times> mem" where
  "DetachTreeDropHook e sm =
     (let (s, m) = sm in
      if \<not> tr_attached s then (s, m)
      else (case WriteExecutableMemory (tv_selector_ok e) (selectorAddress s) kOriginalSelectorBytes m of
          (False, m) \<Rightarrow> (s, m)
        | (True, m) \<Rightarrow>
            let s = s\<lparr>tr_attached := False\<rparr>
            in (if trampoline s \<noteq> 0 then s\<lparr>trampoline := 0, trampolineSize := 0\<rparr> else s, m)))"

definition ConfigureTree :: "tree_section option option \<Rightarrow> tree_state \<times> mem \<Rightarrow> bool \<times> tree_state \<times> mem" where
  "ConfigureTree root sm = (case ConfigureTreeDrops root (fst sm) of (ok, s) \<Rightarrow> (ok, s, snd sm))"

interpretation tree_hook: managed_hook ConfigureTree AttachTreeDropHook DetachTreeDropHook
  "\<lambda>sm. tr_enabled (fst sm)" "\<lambda>sm. tr_attached (fst sm)"
proof unfold_locales
  show "tr_attached (fst s) \<Longrightarrow> ConfigureTree c s = (False, s)" for s c
    by (simp add: ConfigureTree_def ConfigureTreeDrops_def)
  show "\<not> tr_attached (fst s) \<Longrightarrow> \<not> tr_attached (fst (snd (ConfigureTree c s)))" for s c
    by (auto simp: ConfigureTree_def ConfigureTreeDrops_def tree_empty_def split: option.splits)
  show "\<not> tr_attached (fst s) \<Longrightarrow> \<not> fst (ConfigureTree c s) \<Longrightarrow>
      \<not> tr_enabled (fst (snd (ConfigureTree c s)))" for s c
    by (auto simp: ConfigureTree_def ConfigureTreeDrops_def tree_empty_def split: option.splits if_splits)
  show "tr_attached (fst s) \<Longrightarrow> AttachTreeDropHook e s = s" for s e
    by (cases s) (simp add: AttachTreeDropHook_def)
  show "\<not> tr_enabled (fst s) \<Longrightarrow> AttachTreeDropHook e s = s" for s e
    by (cases s) (simp add: AttachTreeDropHook_def)
  show "tr_enabled (fst (AttachTreeDropHook e s)) = tr_enabled (fst s)" for s e
    by (auto simp: AttachTreeDropHook_def BuildTrampoline_def WriteExecutableMemory_def Let_def
        split: prod.splits)
  show "\<not> tr_attached (fst s) \<Longrightarrow> DetachTreeDropHook e s = s" for s e
    by (cases s) (simp add: DetachTreeDropHook_def)
  show "tr_enabled (fst (DetachTreeDropHook e s)) = tr_enabled (fst s)" for s e
    by (auto simp: DetachTreeDropHook_def WriteExecutableMemory_def Let_def split: prod.splits)
qed

section \<open>The instructions\<close>

record cpu =
  rip :: u64
  rbp :: u64
  eax :: u32
  ecx :: u32
  zf :: bool
  stack :: mem

text \<open>One instruction of the subset: \<open>mov eax/ecx, imm32\<close>, \<open>cmp byte [rbp+disp32], imm8\<close>,
  \<open>cmovnz eax, ecx\<close>, \<open>jne rel8\<close>, \<open>mov [rbp+disp32], eax\<close>, \<open>jmp [rip+disp32]\<close>, \<open>nop\<close>. The code and the
  stack do not overlap, so the code is a memory of its own.\<close>

definition disp32 :: "mem \<Rightarrow> u64 \<Rightarrow> u64" where
  "disp32 code a = scast (read_field code a 0 :: u32)"

definition step :: "mem \<Rightarrow> cpu \<Rightarrow> cpu option" where
  "step code c =
     (let i = rip c; op = code i in
      if op = 0xB8 then Some (c\<lparr>eax := read_field code i 1, rip := i + 5\<rparr>)
      else if op = 0xB9 then Some (c\<lparr>ecx := read_field code i 1, rip := i + 5\<rparr>)
      else if op = 0x80 \<and> code (i + 1) = 0xBD then
        Some (c\<lparr>zf := (stack c (rbp c + disp32 code (i + 2)) = code (i + 6)), rip := i + 7\<rparr>)
      else if op = 0x0F \<and> code (i + 1) = 0x45 \<and> code (i + 2) = 0xC1 then
        Some (c\<lparr>eax := (if zf c then eax c else ecx c), rip := i + 3\<rparr>)
      else if op = 0x75 then
        Some (c\<lparr>rip := (if zf c then i + 2 else i + 2 + scast (code (i + 1)))\<rparr>)
      else if op = 0x89 \<and> code (i + 1) = 0x85 then
        Some (c\<lparr>stack := write_field (stack c) (rbp c) (disp32 code (i + 2)) (eax c), rip := i + 6\<rparr>)
      else if op = 0xFF \<and> code (i + 1) = 0x25 then
        Some (c\<lparr>rip := read_field code (i + 6 + disp32 code (i + 2)) 0\<rparr>)
      else if op = 0x90 then Some (c\<lparr>rip := i + 1\<rparr>)
      else None)"

fun run :: "mem \<Rightarrow> nat \<Rightarrow> cpu \<Rightarrow> cpu option" where
  "run code 0 c = Some c"
| "run code (Suc n) c = Option.bind (step code c) (run code n)"

section \<open>Fetching\<close>

lemma MatchBytes_Nil [simp]: "MatchBytes m a []"
  by (simp add: MatchBytes_def mread_def)

lemma MatchBytes_Cons: "MatchBytes m a (x # xs) \<longleftrightarrow> m a = x \<and> MatchBytes m (a + 1) xs"
  by (simp add: MatchBytes_def mread_Suc)

lemma MatchBytes_append:
  "MatchBytes m a (xs @ ys) \<longleftrightarrow> MatchBytes m a xs \<and> MatchBytes m (a + word_of_nat (length xs)) ys"
  by (simp add: MatchBytes_def mread_add append_eq_append_conv)

lemma MatchBytes_field:
  fixes v :: "'a::len word"
  assumes "MatchBytes m (a + off) (store_le n v)" "LENGTH('a) = 8 * n"
  shows "read_field m a off = v"
  using assms by (simp add: MatchBytes_def read_field_def load_store_le)

lemma disp32_at:
  assumes "MatchBytes m a [b0, b1, 0, 0]" "b1 < 0x80"
  shows "disp32 m a = scast (load_le [b0, b1, 0, 0] :: u32)"
proof -
  have "mread m a 4 = [b0, b1, 0, 0]" using assms(1) by (simp add: MatchBytes_def numeral_eq_Suc)
  then show ?thesis by (simp add: disp32_def read_field_def)
qed

lemma disp_values:
  "scast (load_le [0x20, 1, 0, 0] :: u32) = (0x120 :: u64)"
  "scast (load_le [0x10, 1, 0, 0] :: u32) = (0x110 :: u64)"
  "scast (load_le [0, 0, 0, 0] :: u32) = (0 :: u64)"
  by code_simp+

lemma step_mov_eax:
  "MatchBytes code (rip c) (0xB8 # store_le 4 v) \<Longrightarrow>
   step code c = Some (c\<lparr>eax := v, rip := rip c + 5\<rparr>)"
  using MatchBytes_field [where m = code and a = "rip c" and off = 1 and n = 4 and v = v] by (simp add: step_def Let_def MatchBytes_Cons)

lemma step_mov_ecx:
  "MatchBytes code (rip c) (0xB9 # store_le 4 v) \<Longrightarrow>
   step code c = Some (c\<lparr>ecx := v, rip := rip c + 5\<rparr>)"
  using MatchBytes_field [where m = code and a = "rip c" and off = 1 and n = 4 and v = v] by (simp add: step_def Let_def MatchBytes_Cons)

lemma step_cmp:
  assumes "MatchBytes code (rip c) [0x80, 0xBD, b, 1, 0, 0, imm]" "b = 0x10 \<or> b = 0x20"
  shows "step code c = Some (c\<lparr>zf := (stack c (rbp c + (0x100 + ucast b)) = imm), rip := rip c + 7\<rparr>)"
proof -
  have m: "code (rip c) = 0x80" "code (rip c + 1) = 0xBD" "code (rip c + 6) = imm"
    "MatchBytes code (rip c + 2) [b, 1, 0, 0]"
    using assms(1) by (simp_all add: MatchBytes_Cons add.assoc)
  have "disp32 code (rip c + 2) = 0x100 + ucast b"
    using disp32_at [OF m(4)] assms(2) by (auto simp: disp_values)
  then show ?thesis using m by (simp add: step_def Let_def)
qed

lemma step_cmov:
  "MatchBytes code (rip c) [0x0F, 0x45, 0xC1] \<Longrightarrow>
   step code c = Some (c\<lparr>eax := (if zf c then eax c else ecx c), rip := rip c + 3\<rparr>)"
  by (simp add: step_def Let_def MatchBytes_Cons add.assoc)

lemma step_jne5:
  "MatchBytes code (rip c) [0x75, 0x05] \<Longrightarrow>
   step code c = Some (c\<lparr>rip := (if zf c then rip c + 2 else rip c + 7)\<rparr>)"
  by (simp add: step_def Let_def MatchBytes_Cons add.assoc)

lemma step_store:
  assumes "MatchBytes code (rip c) [0x89, 0x85, 0x10, 1, 0, 0]"
  shows "step code c =
    Some (c\<lparr>stack := write_field (stack c) (rbp c) 0x110 (eax c), rip := rip c + 6\<rparr>)"
proof -
  have m: "code (rip c) = 0x89" "code (rip c + 1) = 0x85" "MatchBytes code (rip c + 2) [0x10, 1, 0, 0]"
    using assms by (simp_all add: MatchBytes_Cons add.assoc)
  then show ?thesis using disp32_at [OF m(3)] by (simp add: step_def Let_def disp_values)
qed

lemma step_jump:
  assumes "MatchBytes code (rip c) ([0xFF, 0x25, 0, 0, 0, 0] @ store_le 8 target)"
  shows "step code c = Some (c\<lparr>rip := target\<rparr>)"
proof -
  have m: "code (rip c) = 0xFF" "code (rip c + 1) = 0x25" "MatchBytes code (rip c + 2) [0, 0, 0, 0]"
    "MatchBytes code (rip c + 6) (store_le 8 target)"
    using assms by (simp_all add: MatchBytes_Cons add.assoc)
  have "disp32 code (rip c + 2) = 0" using disp32_at [OF m(3)] by (simp add: disp_values)
  moreover have "read_field code (rip c + 6) 0 = target"
    using m(4) by (intro MatchBytes_field [where n = 8]) simp_all
  ultimately show ?thesis using m(1,2) by (simp add: step_def Let_def)
qed

section \<open>The generated code does what is configured\<close>

lemma run_add: "run code (n + k) c = Option.bind (run code n c) (run code k)"
  by (induction n arbitrary: c) (auto split: Option.bind_split)

text \<open>The vanilla choice: 626 when the byte at \<open>rbp + 0x110\<close> is set, 653 otherwise.\<close>

definition vanilla_item :: "mem \<Rightarrow> u64 \<Rightarrow> u32" where
  "vanilla_item st bp = (if st (bp + 0x110) = 0 then 653 else 626)"

definition species_at :: "mem \<Rightarrow> u64 \<Rightarrow> u8" where
  "species_at st bp = st (bp + 0x120)"

lemma vanilla_prefix:
  "take kVanillaSelectionSize kOriginalSelectorBytes =
     (0xB8 # store_le 4 (653 :: u32)) @ (0xB9 # store_le 4 (626 :: u32)) @
     [0x80, 0xBD, 0x10, 1, 0, 0, 0] @ [0x0F, 0x45, 0xC1]"
  by code_simp

lemma run_vanilla_prefix:
  assumes "MatchBytes code (rip c) (take kVanillaSelectionSize kOriginalSelectorBytes)"
  shows "\<exists>c'. run code 4 c = Some c' \<and> rip c' = rip c + 20 \<and> rbp c' = rbp c \<and> stack c' = stack c \<and>
    eax c' = vanilla_item (stack c) (rbp c)"
proof -
  let ?c1 = "c\<lparr>eax := 653, rip := rip c + 5\<rparr>"
  let ?c2 = "?c1\<lparr>ecx := 626, rip := rip c + 10\<rparr>"
  let ?c3 = "?c2\<lparr>zf := (stack c (rbp c + 0x110) = 0), rip := rip c + 17\<rparr>"
  have m: "MatchBytes code (rip c) (0xB8 # store_le 4 (653 :: u32))"
    "MatchBytes code (rip c + 5) (0xB9 # store_le 4 (626 :: u32))"
    "MatchBytes code (rip c + 10) [0x80, 0xBD, 0x10, 1, 0, 0, 0]"
    "MatchBytes code (rip c + 17) [0x0F, 0x45, 0xC1]"
    using assms unfolding vanilla_prefix MatchBytes_append
    by (simp_all add: add.assoc)
  have "step code c = Some ?c1" using m(1) by (rule step_mov_eax)
  moreover have "step code ?c1 = Some ?c2" using step_mov_ecx [of code ?c1 626] m(2) by simp
  moreover have "step code ?c2 = Some ?c3" using step_cmp [of code ?c2 "0x10" 0] m(3) by simp
  moreover have "step code ?c3 = Some (?c3\<lparr>eax := (if zf ?c3 then 653 else 626), rip := rip c + 20\<rparr>)"
    using step_cmov [of code ?c3] m(4) by simp
  ultimately show ?thesis by (simp add: numeral_eq_Suc vanilla_item_def)
qed

lemma run_drop_code:
  assumes "MatchBytes code (rip c) (drop_code d)"
  shows "\<exists>n c'. run code n c = Some c' \<and> rip c' = rip c + 14 \<and> rbp c' = rbp c \<and> stack c' = stack c \<and>
    eax c' = (if species_at (stack c) (rbp c) = treeType d then drop_item d else eax c)"
proof -
  let ?e = "stack c (rbp c + 0x120) = treeType d"
  let ?c1 = "c\<lparr>zf := ?e, rip := rip c + 7\<rparr>"
  let ?c2 = "?c1\<lparr>rip := (if ?e then rip c + 9 else rip c + 14)\<rparr>"
  have m: "MatchBytes code (rip c) [0x80, 0xBD, 0x20, 1, 0, 0, treeType d]"
    "MatchBytes code (rip c + 7) [0x75, 0x05]"
    "MatchBytes code (rip c + 9) (0xB8 # store_le 4 (drop_item d))"
    using assms by (simp_all add: drop_code_def MatchBytes_Cons add.assoc)
  have s1: "step code c = Some ?c1" using step_cmp [OF m(1)] by simp
  have s2: "step code ?c1 = Some ?c2" using step_jne5 [of code ?c1] m(2) by (simp add: add.assoc)
  show ?thesis
  proof (cases ?e)
    case True
    have "step code ?c2 = Some (?c2\<lparr>eax := drop_item d, rip := rip c + 14\<rparr>)"
      using step_mov_eax [of code ?c2 "drop_item d"] m(3) True by (simp add: add.assoc)
    then have "run code 3 c = Some (?c2\<lparr>eax := drop_item d, rip := rip c + 14\<rparr>)"
      using s1 s2 by (simp add: numeral_eq_Suc)
    then show ?thesis using True by (intro exI [of _ 3]) (simp add: species_at_def)
  next
    case False
    have "run code 2 c = Some ?c2" using s1 s2 by (simp add: numeral_eq_Suc)
    then show ?thesis using False by (intro exI [of _ 2]) (simp add: species_at_def)
  qed
qed

definition override :: "u8 \<Rightarrow> tree_drop list \<Rightarrow> u32 \<Rightarrow> u32" where
  "override sp drops v = fold (\<lambda>d e. if sp = treeType d then drop_item d else e) drops v"

lemma length_drop_code [simp]: "length (drop_code d) = 14"
  by (simp add: drop_code_def)

lemma run_drops_code:
  "MatchBytes code (rip c) (concat (map drop_code drops)) \<Longrightarrow>
   \<exists>n c'. run code n c = Some c' \<and> rip c' = rip c + word_of_nat (14 * length drops) \<and>
     rbp c' = rbp c \<and> stack c' = stack c \<and>
     eax c' = override (species_at (stack c) (rbp c)) drops (eax c)"
proof (induction drops arbitrary: c)
  case Nil
  show ?case by (intro exI [of _ 0]) (simp add: override_def)
next
  case (Cons d drops)
  have m: "MatchBytes code (rip c) (drop_code d)"
    "MatchBytes code (rip c + 14) (concat (map drop_code drops))"
    using Cons.prems by (simp_all add: MatchBytes_append)
  obtain n c1 where 1: "run code n c = Some c1" "rip c1 = rip c + 14" "rbp c1 = rbp c"
    "stack c1 = stack c"
    "eax c1 = (if species_at (stack c) (rbp c) = treeType d then drop_item d else eax c)"
    using run_drop_code [OF m(1)] by blast
  obtain k c2 where 2: "run code k c1 = Some c2"
    "rip c2 = rip c1 + word_of_nat (14 * length drops)" "rbp c2 = rbp c1" "stack c2 = stack c1"
    "eax c2 = override (species_at (stack c1) (rbp c1)) drops (eax c1)"
    using Cons.IH [of c1] m(2) 1(2) by auto
  have "run code (n + k) c = Some c2" using 1(1) 2(1) by (simp add: run_add)
  then show ?case using 1 2
    by (intro exI [of _ "n + k"] exI [of _ c2]) (simp add: override_def algebra_simps)
qed

lemma override_lookup:
  "distinct (map treeType drops) \<Longrightarrow>
   override sp drops v =
     (case map_of (map (\<lambda>d. (treeType d, drop_item d)) drops) sp of None \<Rightarrow> v | Some i \<Rightarrow> i)"
proof (induction drops arbitrary: v)
  case Nil
  then show ?case by (simp add: override_def)
next
  case (Cons d drops)
  have none: "map_of (map (\<lambda>d. (treeType d, drop_item d)) drops) (treeType d) = None"
    using Cons.prems by (force simp: map_of_eq_None_iff)
  have "override sp (d # drops) v = override sp drops (if sp = treeType d then drop_item d else v)"
    by (simp add: override_def)
  then show ?case using Cons none by auto
qed

text \<open>The whole detour: from the patched selector through the trampoline back behind the selector.\<close>

lemma trampoline_run:
  assumes "MatchBytes code (rip c) (trampoline_code drops base)"
  shows "\<exists>n c'. run code n c = Some c' \<and> rip c' = base + kTreeDropSelectorReturnRva \<and> rbp c' = rbp c \<and>
    stack c' = write_field (stack c) (rbp c) 0x110
      (override (species_at (stack c) (rbp c)) drops (vanilla_item (stack c) (rbp c)))"
proof -
  let ?L = "14 * length drops"
  have len: "length (concat (map drop_code drops)) = ?L"
    by (induction drops) simp_all
  have len20: "length (take kVanillaSelectionSize kOriginalSelectorBytes) = 20" by code_simp
  have m: "MatchBytes code (rip c) (take kVanillaSelectionSize kOriginalSelectorBytes)"
    "MatchBytes code (rip c + 20) (concat (map drop_code drops))"
    "MatchBytes code (rip c + 20 + word_of_nat ?L) [0x89, 0x85, 0x10, 1, 0, 0]"
    "MatchBytes code (rip c + 20 + word_of_nat ?L + 6)
       ([0xFF, 0x25, 0, 0, 0, 0] @ store_le 8 (base + kTreeDropSelectorReturnRva))"
    using assms
    unfolding trampoline_code_def AppendAbsoluteJump_def append_assoc MatchBytes_append len len20
    by (simp_all add: add.assoc)
  obtain c1 where 1: "run code 4 c = Some c1" "rip c1 = rip c + 20" "rbp c1 = rbp c" "stack c1 = stack c"
    "eax c1 = vanilla_item (stack c) (rbp c)"
    using run_vanilla_prefix [OF m(1)] by blast
  obtain k c2 where 2: "run code k c1 = Some c2" "rip c2 = rip c1 + word_of_nat ?L" "rbp c2 = rbp c1"
    "stack c2 = stack c1" "eax c2 = override (species_at (stack c1) (rbp c1)) drops (eax c1)"
    using run_drops_code [of code c1 drops] m(2) 1(2) by auto
  let ?c3 = "c2\<lparr>stack := write_field (stack c2) (rbp c2) 0x110 (eax c2), rip := rip c2 + 6\<rparr>"
  have 3: "step code c2 = Some ?c3" using step_store [of code c2] m(3) 1(2) 2(2) by simp
  let ?c4 = "?c3\<lparr>rip := base + kTreeDropSelectorReturnRva\<rparr>"
  have 4: "step code ?c3 = Some ?c4" using step_jump [of code ?c3] m(4) 1(2) 2(2) by simp
  have "run code 2 c2 = Some ?c4" using 3 4 by (simp add: numeral_2_eq_2)
  then have "run code (4 + (k + 2)) c = Some ?c4"
    unfolding run_add 1(1) 2(1) Option.bind.bind_lunit .
  then show ?thesis using 1 2 by (intro exI [of _ "4 + (k + 2)"] exI [of _ ?c4]) simp
qed

lemma patched_run:
  assumes patch: "MatchBytes code (rip c) (MakeSelectorPatch t)"
    and tramp: "MatchBytes code t (trampoline_code drops base)"
  shows "\<exists>n c'. run code n c = Some c' \<and> rip c' = base + kTreeDropSelectorReturnRva \<and> rbp c' = rbp c \<and>
    stack c' = write_field (stack c) (rbp c) 0x110
      (override (species_at (stack c) (rbp c)) drops (vanilla_item (stack c) (rbp c)))"
proof -
  have "MatchBytes code (rip c) ([0xFF, 0x25, 0, 0, 0, 0] @ store_le 8 t)"
    using patch unfolding MakeSelectorPatch_def append_assoc [symmetric]
    by (subst (asm) MatchBytes_append) simp
  then have s: "step code c = Some (c\<lparr>rip := t\<rparr>)" by (rule step_jump)
  obtain n c' where r: "run code n (c\<lparr>rip := t\<rparr>) = Some c'" "rip c' = base + kTreeDropSelectorReturnRva"
    "rbp c' = rbp c" "stack c' = write_field (stack c) (rbp c) 0x110
      (override (species_at (stack c) (rbp c)) drops (vanilla_item (stack c) (rbp c)))"
    using trampoline_run [of code "c\<lparr>rip := t\<rparr>" drops base] tramp by auto
  then show ?thesis using s by (intro exI [of _ "Suc n"] exI [of _ c']) simp
qed

lemma original_run:
  assumes "MatchBytes code (rip c) kOriginalSelectorBytes"
  shows "\<exists>c'. run code 5 c = Some c' \<and> rip c' = rip c + 26 \<and> rbp c' = rbp c \<and>
    stack c' = write_field (stack c) (rbp c) 0x110 (vanilla_item (stack c) (rbp c))"
proof -
  have split: "kOriginalSelectorBytes =
      take kVanillaSelectionSize kOriginalSelectorBytes @ [0x89, 0x85, 0x10, 1, 0, 0]"
    and len20: "length (take kVanillaSelectionSize kOriginalSelectorBytes) = 20"
    by code_simp+
  have m: "MatchBytes code (rip c) (take kVanillaSelectionSize kOriginalSelectorBytes)"
    "MatchBytes code (rip c + 20) [0x89, 0x85, 0x10, 1, 0, 0]"
    using assms split len20 MatchBytes_append
    by (metis of_nat_numeral)+
  obtain c1 where 1: "run code 4 c = Some c1" "rip c1 = rip c + 20" "rbp c1 = rbp c" "stack c1 = stack c"
    "eax c1 = vanilla_item (stack c) (rbp c)"
    using run_vanilla_prefix [OF m(1)] by blast
  have "step code c1 = Some (c1\<lparr>stack := write_field (stack c1) (rbp c1) 0x110 (eax c1), rip := rip c1 + 6\<rparr>)"
    using step_store [of code c1] m(2) 1(2) by simp
  then have "run code (4 + 1) c =
      Some (c1\<lparr>stack := write_field (stack c1) (rbp c1) 0x110 (eax c1), rip := rip c1 + 6\<rparr>)"
    using 1(1) by (subst run_add) simp
  then show ?thesis using 1 by simp
qed

section \<open>What a configuration asks for\<close>

definition tree_pairs :: "tree_drop list \<Rightarrow> (u8 \<times> u32) list" where
  "tree_pairs drops = map (\<lambda>d. (treeType d, drop_item d)) drops"

definition names_tree :: "u8 \<Rightarrow> tree_drop_cfg \<Rightarrow> bool" where
  "names_tree sp c \<longleftrightarrow> (case dc_tree c of None \<Rightarrow> False | Some n \<Rightarrow> ParseTreeType n = Some sp)"

text \<open>The item a section gives a species: that of the entry naming it.\<close>

definition tree_item_for :: "tree_section \<Rightarrow> u8 \<Rightarrow> u32 option" where
  "tree_item_for sec sp =
     (case find (names_tree sp) (tree_drops sec) of
        None \<Rightarrow> None
      | Some c \<Rightarrow> (case dc_item c of Value i \<Rightarrow> Some i | _ \<Rightarrow> None))"

lemma tree_loop_step:
  assumes "tree_drop_loop (c # cs) acc = Some drops"
  shows "\<exists>name tt i. dc_tree c = Some name \<and> ParseTreeType name = Some tt \<and> dc_item c = Value i \<and> i \<noteq> 0 \<and>
    tt \<notin> set (map treeType acc) \<and>
    tree_drop_loop cs (acc @ [\<lparr>treeType = tt, drop_item = i\<rparr>]) = Some drops"
  using assms by (auto simp: list_ex_iff split: option.splits if_splits attr.splits)

lemma tree_loop_distinct:
  "tree_drop_loop cs acc = Some drops \<Longrightarrow> distinct (map treeType acc) \<Longrightarrow> distinct (map treeType drops)"
proof (induction cs arbitrary: acc)
  case (Cons c cs)
  obtain name tt i where "dc_tree c = Some name" "ParseTreeType name = Some tt" "dc_item c = Value i" "i \<noteq> 0"
    and tt: "tt \<notin> set (map treeType acc)"
    and rest: "tree_drop_loop cs (acc @ [\<lparr>treeType = tt, drop_item = i\<rparr>]) = Some drops"
    using tree_loop_step [OF Cons.prems(1)] by blast
  show ?case using Cons.IH [OF rest] Cons.prems(2) tt by simp
qed simp

lemma tree_loop_lookup:
  "tree_drop_loop cs acc = Some drops \<Longrightarrow>
   map_of (tree_pairs drops) sp =
     (case map_of (tree_pairs acc) sp of Some i \<Rightarrow> Some i
      | None \<Rightarrow> (case find (names_tree sp) cs of None \<Rightarrow> None
                 | Some c \<Rightarrow> (case dc_item c of Value i \<Rightarrow> Some i | _ \<Rightarrow> None)))"
proof (induction cs arbitrary: acc)
  case Nil
  then show ?case by (simp split: option.split)
next
  case (Cons c cs)
  obtain name tt i where c: "dc_tree c = Some name" "ParseTreeType name = Some tt" "dc_item c = Value i" "i \<noteq> 0"
    and tt: "tt \<notin> set (map treeType acc)"
    and rest: "tree_drop_loop cs (acc @ [\<lparr>treeType = tt, drop_item = i\<rparr>]) = Some drops"
    using tree_loop_step [OF Cons.prems(1)] by blast
  have n: "names_tree sp c \<longleftrightarrow> tt = sp" using c by (simp add: names_tree_def)
  show ?case
    unfolding Cons.IH [OF rest]
    using c n by (auto simp: tree_pairs_def map_add_def split: option.splits)
qed

lemma tree_configuration:
  assumes "ConfigureTreeDrops (Some (Some sec)) s0 = (True, s)" "tr_enabled s" "\<not> tr_attached s0"
  shows "distinct (map treeType (tr_drops s))" "sorted (map treeType (tr_drops s))"
    "map_of (tree_pairs (tr_drops s)) sp = tree_item_for sec sp"
proof -
  obtain drops where d: "tree_drop_loop (tree_drops sec) [] = Some drops"
    and s: "tr_drops s = sort_key treeType drops"
    using assms by (auto simp: ConfigureTreeDrops_def tree_empty_def split: if_splits option.splits)
  have dist: "distinct (map treeType drops)" using tree_loop_distinct [OF d] by simp
  show dist': "distinct (map treeType (tr_drops s))" using dist by (simp add: s distinct_map)
  show "sorted (map treeType (tr_drops s))" by (simp add: s)
  have "map_of (tree_pairs (tr_drops s)) = map_of (tree_pairs drops)"
    using dist dist' by (subst map_of_inject_set) (simp_all add: tree_pairs_def o_def s)
  then show "map_of (tree_pairs (tr_drops s)) sp = tree_item_for sec sp"
    using tree_loop_lookup [OF d, of sp] by (simp add: tree_item_for_def tree_pairs_def split: option.splits)
qed

lemma few_trees: "distinct (map treeType drops) \<Longrightarrow> length drops \<le> 256"
  using card_mono [of UNIV "set (map treeType drops)"] distinct_card [of "map treeType drops"]
  by (simp add: card_word)

lemma sort_key_Nil: "sort_key f xs = [] \<longleftrightarrow> xs = []"
  by (metis set_empty set_sort)

definition tree_good :: "tree_state \<times> mem \<Rightarrow> bool" where
  "tree_good sm \<longleftrightarrow> tr_drops (fst sm) \<noteq> [] \<and> distinct (map treeType (tr_drops (fst sm))) \<and>
     sorted (map treeType (tr_drops (fst sm)))"

interpretation tree_config: configured_hook ConfigureTree AttachTreeDropHook DetachTreeDropHook
  "\<lambda>sm. tr_enabled (fst sm)" "\<lambda>sm. tr_attached (fst sm)" tree_good
proof unfold_locales
  fix sm :: "tree_state \<times> mem" and c
  assume n: "\<not> tr_attached (fst sm)" and e: "tr_enabled (fst (snd (ConfigureTree c sm)))"
  obtain ok s' where r: "ConfigureTreeDrops c (fst sm) = (ok, s')" by fastforce
  have en: "tr_enabled s'" using e r by (simp add: ConfigureTree_def)
  then obtain sec where c: "c = Some (Some sec)" and ok: "ok" and ne: "tr_drops s' \<noteq> []"
    using r n by (cases c rule: option.exhaust; cases "the c")
      (auto simp: ConfigureTreeDrops_def tree_empty_def sort_key_Nil split: if_splits option.splits)
  show "tree_good (snd (ConfigureTree c sm))"
    using tree_configuration(1,2) [of sec "fst sm" s'] r c ok en n ne
    by (simp add: tree_good_def ConfigureTree_def)
next
  show "tree_good s \<Longrightarrow> tree_good (AttachTreeDropHook e s)" for s e
    by (cases s) (auto simp: tree_good_def AttachTreeDropHook_def BuildTrampoline_def WriteExecutableMemory_def
        Let_def split: prod.splits)
  show "tree_good s \<Longrightarrow> tree_good (DetachTreeDropHook e s)" for s e
    by (cases s) (auto simp: tree_good_def DetachTreeDropHook_def WriteExecutableMemory_def Let_def)
qed

section \<open>Attaching\<close>

definition tree_block :: "tree_env \<Rightarrow> tree_state \<Rightarrow> bytes" where
  "tree_block e s = trampoline_code (tr_drops s) (tv_base e)"

lemma tree_attach:
  assumes "AttachTreeDropHook e (s, m) = (s', m')" "\<not> tr_attached s" "tr_attached s'"
  shows "tr_enabled s" "tv_base e \<noteq> 0" "tv_alloc e \<noteq> 0"
    "MatchesTreeDropSelector m (tv_base e + kTreeDropSelectorRva)"
    "selectorAddress s' = tv_base e + kTreeDropSelectorRva" "trampoline s' = tv_alloc e"
    "m' = mwrite (mwrite m (tv_alloc e) (tree_block e s)) (tv_base e + kTreeDropSelectorRva)
            (MakeSelectorPatch (tv_alloc e))"
  using assms
  by (auto simp: AttachTreeDropHook_def BuildTrampoline_def WriteExecutableMemory_def Let_def tree_block_def
      split: if_splits)

lemma length_tree_block: "length (trampoline_code drops base) = 40 + 14 * length drops"
proof -
  have "length (concat (map drop_code drops)) = 14 * length drops" by (induction drops) simp_all
  moreover have "length (take kVanillaSelectionSize kOriginalSelectorBytes) = 20" by code_simp
  ultimately show ?thesis by (simp add: trampoline_code_def AppendAbsoluteJump_def)
qed

lemma length_patch [simp]: "length (MakeSelectorPatch t) = 26"
  by (simp add: MakeSelectorPatch_def)

lemma length_selector [simp]: "length kOriginalSelectorBytes = 26"
  by (simp add: kOriginalSelectorBytes_def)

text \<open>C2: With the hook configured and attached, an execution that reaches the engine's selector runs the
  generated code and arrives right behind the selector, having stored at \<open>rbp+0x110\<close> the item the
  configuration gives the species at \<open>rbp+0x120\<close>, or the engine's own choice for a species the
  configuration does not name; nothing else of the stack is written.\<close>

theorem configured_trees_drop_configured_items:
  assumes cfg: "ConfigureTreeDrops (Some (Some sec)) s0 = (True, s)" "\<not> tr_attached s0"
    and att: "AttachTreeDropHook e (s, m) = (s', m')" "tr_attached s'"
    and apart: "outside (tv_alloc e) (length (tree_block e s)) (tv_base e + kTreeDropSelectorRva) 26"
    and c: "rip c = tv_base e + kTreeDropSelectorRva"
  shows "\<exists>n c'. run m' n c = Some c' \<and> rip c' = tv_base e + kTreeDropSelectorReturnRva \<and>
    rbp c' = rbp c \<and> stack c' = write_field (stack c) (rbp c) 0x110
      (case tree_item_for sec (stack c (rbp c + 0x120)) of
         Some item \<Rightarrow> item
       | None \<Rightarrow> if stack c (rbp c + 0x110) = 0 then 653 else 626)"
proof -
  have un: "\<not> tr_attached s"
    using cfg by (auto simp: ConfigureTreeDrops_def tree_empty_def split: if_splits option.splits)
  note a = tree_attach [OF att(1) un att(2)]
  note t = tree_configuration [OF cfg(1) a(1) cfg(2)]
  have len: "length (tree_block e s) < 2 ^ 64"
    using few_trees [OF t(1)] by (simp add: tree_block_def length_tree_block)
  have "mread m' (tv_alloc e) (length (tree_block e s)) = tree_block e s"
    using mread_outside [of _ _ _ "MakeSelectorPatch (tv_alloc e)"] apart mwrite_same [OF len]
    by (simp add: a(7))
  then have tramp: "MatchBytes m' (tv_alloc e) (trampoline_code (tr_drops s) (tv_base e))"
    by (simp add: MatchBytes_def tree_block_def)
  have patch: "MatchBytes m' (rip c) (MakeSelectorPatch (tv_alloc e))"
    unfolding a(7) c by (rule MatchBytes_write) simp
  show ?thesis
    using patched_run [OF patch tramp]
    unfolding override_lookup [OF t(1)] tree_pairs_def [symmetric] t(3) species_at_def vanilla_item_def
    by (simp add: option.case_eq_if cong: if_cong)
qed

text \<open>Detaching undoes attaching: every byte outside the (released) trampoline block is what it was
  before the hook was attached, the hook can be attached again, and an execution of the selector
  again stores the engine's own choice.\<close>

theorem detach_restores_selector:
  assumes att: "AttachTreeDropHook e (s, m) = (s', m')" "\<not> tr_attached s" "tr_attached s'"
    and det: "DetachTreeDropHook e' (s', m') = (s'', m'')" "tv_selector_ok e'"
  shows "\<not> tr_attached s'' \<and> trampoline s'' = 0 \<and>
    (\<forall>x. length (tree_block e s) \<le> unat (x - tv_alloc e) \<longrightarrow> m'' x = m x) \<and>
    MatchesTreeDropSelector m'' (tv_base e + kTreeDropSelectorRva) \<and>
    (\<forall>c. rip c = tv_base e + kTreeDropSelectorRva \<longrightarrow>
       map_option (\<lambda>c'. (rip c' - rip c, stack c')) (run m'' 5 c) =
         Some (26, write_field (stack c) (rbp c) 0x110 (vanilla_item (stack c) (rbp c))))"
proof -
  let ?sel = "tv_base e + kTreeDropSelectorRva"
  note a = tree_attach [OF att]
  have d: "m'' = mwrite m' ?sel kOriginalSelectorBytes" "\<not> tr_attached s''" "trampoline s'' = 0"
    using det att(3) a(3,5,6) by (auto simp: DetachTreeDropHook_def WriteExecutableMemory_def Let_def split: if_splits)
  have orig: "mread m ?sel 26 = kOriginalSelectorBytes"
    using a(4) by (simp add: MatchesTreeDropSelector_def MatchBytes_def)
  have m'': "MatchBytes m'' ?sel kOriginalSelectorBytes"
    unfolding d by (rule MatchBytes_write) simp
  have bytes: "m'' x = m x"
    if "length (tree_block e s) \<le> unat (x - tv_alloc e)" for x
  proof (cases "unat (x - ?sel) < 26")
    case True
    then have "kOriginalSelectorBytes ! unat (x - ?sel) = m x"
      using arg_cong [OF orig, of "\<lambda>l. l ! unat (x - ?sel)"] by simp
    then show ?thesis using True by (simp add: d mwrite_def)
  next
    case False
    then show ?thesis using that by (simp add: d a(7) mwrite_def)
  qed
  have "map_option (\<lambda>c'. (rip c' - rip c, stack c')) (run m'' 5 c) =
      Some (26, write_field (stack c) (rbp c) 0x110 (vanilla_item (stack c) (rbp c)))"
    if r: "rip c = ?sel" for c
  proof -
    obtain c' where "run m'' 5 c = Some c'" "rip c' = rip c + 26"
      "stack c' = write_field (stack c) (rbp c) 0x110 (vanilla_item (stack c) (rbp c))"
      using original_run [of m'' c] m'' r by auto
    then show ?thesis by simp
  qed
  then show ?thesis using d(2,3) m'' bytes by (auto simp: MatchesTreeDropSelector_def)
qed

definition sample_section :: tree_section where
  "sample_section = \<lparr>tree_enabled = True,
     tree_drops = [\<lparr>dc_tree = Some ''Oak'', dc_item = Value 1234\<rparr>,
                   \<lparr>dc_tree = Some ''0'', dc_item = Value 77\<rparr>]\<rparr>"

definition sample_tree_env :: tree_env where
  "sample_tree_env = \<lparr>tv_base = 0x140000000, tv_alloc = 0x150000000, tv_block_ok = True, tv_selector_ok = True\<rparr>"

definition sample_image :: mem where
  "sample_image = mwrite (\<lambda>_. 0) 0x1403716D0 kOriginalSelectorBytes"

definition sample_tree_state :: tree_state where
  "sample_tree_state = tree_empty\<lparr>tr_enabled := True,
     tr_drops := [\<lparr>treeType = 0, drop_item = 77\<rparr>, \<lparr>treeType = 7, drop_item = 1234\<rparr>]\<rparr>"

lemma sample_parse: "ParseTreeType ''Oak'' = Some 7" "ParseTreeType ''0'' = Some 0"
proof -
  have "index_of_name ''Oak'' kTreeTypeNames 0 = Some 7" "index_of_name ''0'' kTreeTypeNames 0 = None"
    "takeWhile is_digit ''0'' = ''0''" "digit_val (CHR ''0'') = 0"
    by code_simp+
  then show "ParseTreeType ''Oak'' = Some 7" "ParseTreeType ''0'' = Some 0"
    by (simp_all add: ParseTreeType_def from_chars_u32_def)
qed

lemma sample_configured:
  "ConfigureTreeDrops (Some (Some sample_section)) tree_empty = (True, sample_tree_state)"
  by (simp add: ConfigureTreeDrops_def sample_section_def sample_tree_state_def sample_parse tree_empty_def)

lemma sample_image_matches: "MatchesTreeDropSelector sample_image 0x1403716D0"
  unfolding MatchesTreeDropSelector_def sample_image_def by (rule MatchBytes_write) simp

lemma sample_attach:
  "\<exists>s' m'. AttachTreeDropHook sample_tree_env (sample_tree_state, sample_image) = (s', m') \<and> tr_attached s'"
  using sample_image_matches
  by (simp add: AttachTreeDropHook_def BuildTrampoline_def WriteExecutableMemory_def Let_def
      sample_tree_env_def sample_tree_state_def tree_empty_def kTreeDropSelectorRva_def)

lemma sample_apart:
  "outside (tv_alloc sample_tree_env) (length (tree_block sample_tree_env sample_tree_state))
     (tv_base sample_tree_env + kTreeDropSelectorRva) 26"
  by (rule outside_above)
     (simp_all add: tree_block_def length_tree_block sample_tree_env_def sample_tree_state_def
       kTreeDropSelectorRva_def)

lemma sample_items: "tree_item_for sample_section 7 = Some 1234" "tree_item_for sample_section 3 = None"
  by (simp_all add: tree_item_for_def sample_section_def names_tree_def sample_parse)

lemma configured_trees_drop_configured_items_witness:
  "\<exists>s' m' n c'. AttachTreeDropHook sample_tree_env (sample_tree_state, sample_image) = (s', m') \<and>
    run m' n \<lparr>rip = 0x1403716D0, rbp = 0x7000, eax = 0, ecx = 0, zf = False,
        stack = (\<lambda>_. 0)(0x7120 := 7)\<rparr> = Some c' \<and>
    rip c' = 0x1403716EA \<and> stack c' = write_field ((\<lambda>_. 0)(0x7120 := 7)) 0x7000 0x110 (1234 :: u32)"
proof -
  obtain s' m' where a: "AttachTreeDropHook sample_tree_env (sample_tree_state, sample_image) = (s', m')"
    "tr_attached s'"
    using sample_attach by blast
  let ?c = "\<lparr>rip = 0x1403716D0, rbp = 0x7000, eax = 0, ecx = 0, zf = False,
        stack = (\<lambda>_. 0)(0x7120 := 7)\<rparr> :: cpu"
  have "\<not> tr_attached tree_empty" "rip ?c = tv_base sample_tree_env + kTreeDropSelectorRva"
    by (simp_all add: tree_empty_def sample_tree_env_def kTreeDropSelectorRva_def)
  from configured_trees_drop_configured_items [OF sample_configured this(1) a sample_apart this(2)]
  show ?thesis
    using a(1) by (force simp: sample_items sample_tree_env_def kTreeDropSelectorReturnRva_def)
qed

lemma detach_restores_selector_witness:
  "\<exists>s' m' s'' m''. AttachTreeDropHook sample_tree_env (sample_tree_state, sample_image) = (s', m') \<and>
    DetachTreeDropHook sample_tree_env (s', m') = (s'', m'') \<and> \<not> tr_attached s'' \<and>
    MatchesTreeDropSelector m'' (tv_base sample_tree_env + kTreeDropSelectorRva)"
proof -
  obtain s' m' where a: "AttachTreeDropHook sample_tree_env (sample_tree_state, sample_image) = (s', m')"
    "tr_attached s'"
    using sample_attach by blast
  obtain s'' m'' where d: "DetachTreeDropHook sample_tree_env (s', m') = (s'', m'')" by fastforce
  have "\<not> tr_attached sample_tree_state" "tv_selector_ok sample_tree_env"
    by (simp_all add: sample_tree_state_def tree_empty_def sample_tree_env_def)
  from detach_restores_selector [OF a(1) this(1) a(2) d this(2)] a(1) d show ?thesis by blast
qed

end
