(* ===== verification/Node_Lists.thy ===== *)
theory Node_Lists
  imports Code_Memory
begin

text \<open>
  The engine's circular lists: a sentinel and nodes whose first word points to the next node. The
  code walks them with a bound on the number of steps (the element count, or a constant), so that a
  corrupted list cannot hold it forever. \<open>linked\<close> relates the memory to the abstract list of nodes,
  \<open>walk\<close> is the bounded traversal that the components share.
\<close>

fun linked :: "mem \<Rightarrow> u64 \<Rightarrow> u64 \<Rightarrow> u64 list \<Rightarrow> bool" where
  "linked m sentinel node [] \<longleftrightarrow> node = sentinel"
| "linked m sentinel node (n # ns) \<longleftrightarrow>
     node = n \<and> n \<noteq> 0 \<and> n \<noteq> sentinel \<and> linked m sentinel (read_field m n 0) ns"

fun walk :: "mem \<Rightarrow> u64 \<Rightarrow> u64 \<Rightarrow> nat \<Rightarrow> u64 list" where
  "walk m sentinel node 0 = []"
| "walk m sentinel node (Suc n) =
     (if node = 0 \<or> node = sentinel then []
      else node # walk m sentinel (read_field m node 0) n)"

lemma linked_nonzero: "linked m sentinel node nodes \<Longrightarrow> n \<in> set nodes \<Longrightarrow> n \<noteq> 0"
  by (induction nodes arbitrary: node) auto

lemma linked_not_sentinel: "linked m sentinel node nodes \<Longrightarrow> sentinel \<notin> set nodes"
  by (induction nodes arbitrary: node) auto

lemma linked_unique: "linked m sentinel node xs \<Longrightarrow> linked m sentinel node ys \<Longrightarrow> xs = ys"
proof (induction xs arbitrary: node ys)
  case Nil
  then show ?case by (cases ys) auto
next
  case (Cons x xs)
  then show ?case by (cases ys) auto
qed

lemma linked_suffix:
  "linked m sentinel node (xs @ y # ys) \<Longrightarrow> linked m sentinel y (y # ys)"
  by (induction xs arbitrary: node) auto

lemma linked_distinct: "linked m sentinel node nodes \<Longrightarrow> distinct nodes"
proof (induction nodes arbitrary: node)
  case (Cons n ns)
  have "n \<notin> set ns"
  proof
    assume "n \<in> set ns"
    then obtain pre post where "ns = pre @ n # post" by (meson split_list)
    then have "linked m sentinel n (n # post)" using Cons.prems linked_suffix by fastforce
    then have "n # ns = n # post" using Cons.prems by (auto dest: linked_unique)
    then show False using \<open>ns = pre @ n # post\<close> by simp
  qed
  then show ?case using Cons by auto
qed simp

lemma walk_linked: "linked m sentinel node nodes \<Longrightarrow> length nodes \<le> n \<Longrightarrow> walk m sentinel node n = nodes"
proof (induction nodes arbitrary: node n)
  case Nil
  then show ?case by (cases n) auto
next
  case (Cons x xs)
  then show ?case by (cases n) auto
qed

text \<open>Whatever the memory holds, the traversal ends within its bound.\<close>

lemma walk_bounded: "length (walk m sentinel node n) \<le> n"
  by (induction n arbitrary: node) auto

lemma walk_nodes: "x \<in> set (walk m sentinel node n) \<Longrightarrow> x \<noteq> 0 \<and> x \<noteq> sentinel"
  by (induction n arbitrary: node) (auto split: if_splits)

text \<open>Writing elsewhere leaves a list what it is.\<close>

lemma linked_frame:
  assumes "linked m sentinel node nodes"
    and "\<And>n. n \<in> set nodes \<Longrightarrow> (read_field m' n 0 :: u64) = read_field m n 0"
  shows "linked m' sentinel node nodes"
  using assms by (induction nodes arbitrary: node) auto

text \<open>The loops that keep the first object that fits, over objects at non-zero addresses.\<close>

lemma foldl_first_match:
  fixes ls :: "u64 list"
  assumes "0 \<notin> set ls"
  shows "foldl (\<lambda>found x. if found = 0 \<and> P x then x else found) 0 ls =
     (case find P ls of None \<Rightarrow> 0 | Some x \<Rightarrow> x)"
proof -
  have kept: "f \<noteq> 0 \<Longrightarrow> foldl (\<lambda>found x. if found = 0 \<and> P x then x else found) f xs = f" for f and xs :: "u64 list"
    by (induction xs) auto
  show ?thesis using assms by (induction ls) (auto simp: kept)
qed

end
