(* ===== verification/Recipe_Tools.thy ===== *)
theory Recipe_Tools
  imports Drop_Common Node_Lists
begin

text \<open>
  Recipe selection by starting tool (\<open>source/server/hooks/engine/hook_recipe_starting_tools.cpp\<close>):
  configuration, recognition of the engine code to be hooked, the search of the engine's list of
  recipes, the shared pointer handed back, and the detour. The functions of the engine that are
  called (the matcher of materials, the two getters, the original selection) are parameters.
\<close>

section \<open>State\<close>

record recipe_state =
  rt_enabled :: bool
  rt_attached :: bool
  objectTypeIds :: "u32 list"
  rt_moduleBase :: u64
  recipeReturnAddress :: u64
  materialMatchesType :: u64
  getComplexObjectData :: u64
  getObjectTypeId :: u64
  engine_FindRecipeForMaterial :: u64

definition recipe_reset :: "recipe_state \<Rightarrow> recipe_state" where
  "recipe_reset s = \<lparr>rt_enabled = False, rt_attached = False, objectTypeIds = [], rt_moduleBase = 0,
     recipeReturnAddress = 0, materialMatchesType = 0, getComplexObjectData = 0, getObjectTypeId = 0,
     engine_FindRecipeForMaterial = engine_FindRecipeForMaterial s\<rparr>"

section \<open>Configuration\<close>

record recipe_section =
  rs_enabled :: bool
  rs_tools :: "u32 attr list"

fun recipe_tool_loop :: "u32 attr list \<Rightarrow> u32 list \<Rightarrow> u32 list option" where
  "recipe_tool_loop [] acc = Some acc"
| "recipe_tool_loop (t # ts) acc =
     (case t of
        Value objectTypeId \<Rightarrow>
          if objectTypeId = 0 then None
          else if List.member acc objectTypeId then None
          else recipe_tool_loop ts (acc @ [objectTypeId])
      | _ \<Rightarrow> None)"

definition ConfigureRecipeStartingTools ::
  "recipe_section option option \<Rightarrow> recipe_state \<Rightarrow> bool \<times> recipe_state" where
  "ConfigureRecipeStartingTools root s =
     (if rt_attached s then (False, s)
      else
        let s = recipe_reset s
        in case root of
             None \<Rightarrow> (False, s)
           | Some None \<Rightarrow> (True, s)
           | Some (Some sec) \<Rightarrow>
               (if \<not> rs_enabled sec then (True, s)
                else (case recipe_tool_loop (rs_tools sec) [] of
                    None \<Rightarrow> (False, s)
                  | Some ids \<Rightarrow>
                      if ids = [] then (False, s)
                      else (True, s\<lparr>rt_enabled := True, objectTypeIds := ids\<rparr>))))"

section \<open>Recognising the engine's code\<close>

definition kFindRecipeForMaterialRva :: u64 where "kFindRecipeForMaterialRva = 0x30BEE0"
definition kMaterialMatchesTypeRva :: u64 where "kMaterialMatchesTypeRva = 0x27EB30"
definition kAbilityRecipeCallRva :: u64 where "kAbilityRecipeCallRva = 0x3A1230"
definition kAbilityRecipeReturnRva :: u64 where "kAbilityRecipeReturnRva = 0x3A1235"
definition kComplexObjectDataGetterRva :: u64 where "kComplexObjectDataGetterRva = 0x0C9930"
definition kObjectTypeIdGetterRva :: u64 where "kObjectTypeIdGetterRva = 0x0D3790"

definition MatchesRecipeSelector :: "mem \<Rightarrow> u64 \<Rightarrow> u64 \<Rightarrow> bool" where
  "MatchesRecipeSelector m base a \<longleftrightarrow>
     MatchBytes m a
       [0x48, 0x8B, 0xC4, 0x44, 0x89, 0x40, 0x18, 0x48, 0x89, 0x48, 0x08, 0x55, 0x56, 0x57,
        0x41, 0x54, 0x41, 0x55, 0x41, 0x56, 0x41, 0x57, 0x48, 0x83, 0xEC, 0x40] \<and>
     MatchBytes m (a + 0x7A)
       [0x80, 0x78, 0x12, 0x00, 0x75, 0x1B, 0x80, 0x78, 0x13, 0x00, 0x75, 0x15,
        0x41, 0xB8, 0x64, 0x00, 0x00, 0x00, 0x8B, 0x50, 0x04, 0x49, 0x8B, 0xCD] \<and>
     m (a + 0x92) = 0xE8 \<and>
     DecodeRelativeCallTarget m (a + 0x92) = base + kMaterialMatchesTypeRva"

definition MatchesAbilityRecipeCallSite :: "mem \<Rightarrow> u64 \<Rightarrow> u64 \<Rightarrow> bool" where
  "MatchesAbilityRecipeCallSite m base a \<longleftrightarrow>
     MatchBytes m (a - 15)
       [0x4D, 0x8B, 0x4F, 0x18, 0x44, 0x8B, 0x00, 0x48, 0x8D, 0x54, 0x24, 0x50, 0x48, 0x8B, 0xCB] \<and>
     m a = 0xE8 \<and>
     MatchBytes m (a + 5) [0x90, 0x48, 0x83, 0x7C, 0x24, 0x50, 0x00] \<and>
     DecodeRelativeCallTarget m a = base + kFindRecipeForMaterialRva"

definition MatchesObjectGetters :: "mem \<Rightarrow> u64 \<Rightarrow> bool" where
  "MatchesObjectGetters m base \<longleftrightarrow>
     MatchBytes m (base + kComplexObjectDataGetterRva) [0x48, 0x8B, 0x81, 0x70, 0x03, 0x00, 0x00, 0xC3] \<and>
     MatchBytes m (base + kObjectTypeIdGetterRva) [0x8B, 0x41, 0x60, 0xC3]"

section \<open>Searching the recipes\<close>

definition kRecipeListOffset :: u64 where "kRecipeListOffset = 0x10"
definition kRecipeCountOffset :: u64 where "kRecipeCountOffset = 0x18"
definition kRecipeNodeObjectOffset :: u64 where "kRecipeNodeObjectOffset = 0x18"
definition kRecipeNodeControlOffset :: u64 where "kRecipeNodeControlOffset = 0x20"
definition kRecipeStartingToolsIdOffset :: u64 where "kRecipeStartingToolsIdOffset = 0x04"
definition kRecipeSkillTypeIdOffset :: u64 where "kRecipeSkillTypeIdOffset = 0x08"
definition kRecipeRequirementsBeginOffset :: u64 where "kRecipeRequirementsBeginOffset = 0x20"
definition kRecipeRequirementsEndOffset :: u64 where "kRecipeRequirementsEndOffset = 0x28"
definition kRequirementStride :: nat where "kRequirementStride = 0x10"
definition kRequirementMaterialIdOffset :: u64 where "kRequirementMaterialIdOffset = 0x04"
definition kRequirementSkipFlagOneOffset :: u64 where "kRequirementSkipFlagOneOffset = 0x12"
definition kRequirementSkipFlagTwoOffset :: u64 where "kRequirementSkipFlagTwoOffset = 0x13"

definition IsConfiguredTub :: "recipe_state \<Rightarrow> u32 \<Rightarrow> bool" where
  "IsConfiguredTub s objectTypeId \<longleftrightarrow> List.member (objectTypeIds s) objectTypeId"

text \<open>The loop over the requirement entries: the range is a multiple of the stride, so that it makes
  as many passes as there are strides in it. \<open>matches mat required depth\<close> is the engine's matcher.\<close>

fun requirement_loop :: "(u64 \<Rightarrow> u32 \<Rightarrow> u32 \<Rightarrow> bool) \<Rightarrow> mem \<Rightarrow> u64 \<Rightarrow> u64 \<Rightarrow> nat \<Rightarrow> bool" where
  "requirement_loop matches m material entry 0 = False"
| "requirement_loop matches m material entry (Suc n) =
     (let requirement = (read_field m entry 0 :: u64)
      in if requirement = 0
            \<or> (read_field m requirement kRequirementSkipFlagOneOffset :: u8) \<noteq> 0
            \<or> (read_field m requirement kRequirementSkipFlagTwoOffset :: u8) \<noteq> 0
         then requirement_loop matches m material (entry + word_of_nat kRequirementStride) n
         else if matches material (read_field m requirement kRequirementMaterialIdOffset) 100 then True
         else requirement_loop matches m material (entry + word_of_nat kRequirementStride) n)"

definition node_matches ::
  "(u64 \<Rightarrow> u32 \<Rightarrow> u32 \<Rightarrow> bool) \<Rightarrow> mem \<Rightarrow> u32 \<Rightarrow> u32 \<Rightarrow> u64 \<Rightarrow> u64 \<Rightarrow> bool" where
  "node_matches matches m skillTypeId startingToolsId material node =
     (let recipe = (read_field m node kRecipeNodeObjectOffset :: u64)
      in if recipe \<noteq> 0
            \<and> (read_field m recipe kRecipeStartingToolsIdOffset :: u32) = startingToolsId
            \<and> (read_field m recipe kRecipeSkillTypeIdOffset :: u32) = skillTypeId
         then
           let b = (read_field m recipe kRecipeRequirementsBeginOffset :: u64);
               e = (read_field m recipe kRecipeRequirementsEndOffset :: u64)
           in if b \<le> e \<and> unat (e - b) mod kRequirementStride = 0
              then requirement_loop matches m material b (unat (e - b) div kRequirementStride)
              else False
         else False)"

fun node_loop ::
  "(u64 \<Rightarrow> u32 \<Rightarrow> u32 \<Rightarrow> bool) \<Rightarrow> mem \<Rightarrow> u32 \<Rightarrow> u32 \<Rightarrow> u64 \<Rightarrow> u64 \<Rightarrow> u64 \<Rightarrow> nat \<Rightarrow> u64" where
  "node_loop matches m skill tools material sentinel node 0 = 0"
| "node_loop matches m skill tools material sentinel node (Suc n) =
     (if node = 0 \<or> node = sentinel then 0
      else if node_matches matches m skill tools material node then node
      else node_loop matches m skill tools material sentinel (read_field m node 0) n)"

definition FindMatchingRecipeNode ::
  "(u64 \<Rightarrow> u32 \<Rightarrow> u32 \<Rightarrow> bool) \<Rightarrow> mem \<Rightarrow> u64 \<Rightarrow> u32 \<Rightarrow> u32 \<Rightarrow> u64 \<Rightarrow> u64" where
  "FindMatchingRecipeNode matches m recipesManager skillTypeId startingToolsId material =
     (if recipesManager = 0 \<or> material = 0 then 0
      else
        let sentinel = (read_field m recipesManager kRecipeListOffset :: u64)
        in if sentinel = 0 then 0
           else
             let recipeCount = unat (read_field m recipesManager kRecipeCountOffset :: u64)
             in if recipeCount = 0 \<or> 2 ^ 32 - 1 < recipeCount then 0
                else node_loop matches m skillTypeId startingToolsId material sentinel
                       (read_field m sentinel 0) recipeCount)"

section \<open>The shared pointer handed back\<close>

definition MakeSharedRecipeFromNode :: "u64 \<Rightarrow> u64 \<Rightarrow> mem \<Rightarrow> u64 \<times> mem" where
  "MakeSharedRecipeFromNode sharedRecipeOut recipeNode m =
     (if sharedRecipeOut = 0 \<or> recipeNode = 0 then (sharedRecipeOut, m)
      else
        let recipe = (read_field m recipeNode kRecipeNodeObjectOffset :: u64);
            control = (read_field m recipeNode kRecipeNodeControlOffset :: u64);
            m = (if control \<noteq> 0 then write_field m control 8 ((read_field m control 8 :: u32) + 1) else m);
            m = write_field m sharedRecipeOut 0 recipe;
            m = write_field m sharedRecipeOut 8 control
        in (sharedRecipeOut, m))"

section \<open>The detour\<close>

text \<open>\<open>slot\<close> is the address of the return address. The engine's functions: \<open>data\<close> and \<open>type_of\<close> the two
  getters, \<open>engine\<close> the original selection, which may change memory.\<close>

definition OnFindRecipeForMaterial ::
  "(u64 \<Rightarrow> u32 \<Rightarrow> u32 \<Rightarrow> bool) \<Rightarrow> (mem \<Rightarrow> u64 \<Rightarrow> u64) \<Rightarrow> (mem \<Rightarrow> u64 \<Rightarrow> u32) \<Rightarrow>
   (u64 \<Rightarrow> u64 \<Rightarrow> u32 \<Rightarrow> u64 \<Rightarrow> mem \<Rightarrow> u64 \<times> mem) \<Rightarrow> recipe_state \<Rightarrow> u64 \<Rightarrow>
   u64 \<Rightarrow> u64 \<Rightarrow> u32 \<Rightarrow> u64 \<Rightarrow> mem \<Rightarrow> u64 \<times> mem" where
  "OnFindRecipeForMaterial matches obj_data type_of engine s slot recipesManager out skillTypeId material m =
     (let fallback = engine recipesManager out skillTypeId material m
      in if (read_field m slot 0 :: u64) = recipeReturnAddress s
         then
           let complexObject = (read_field m (slot + 8) 0x60 :: u64)
           in if complexObject = 0 then fallback
              else
                let objectTypeData = obj_data m complexObject
                in if objectTypeData = 0 then fallback
                   else
                     let objectTypeId = type_of m objectTypeData
                     in if \<not> IsConfiguredTub s objectTypeId then fallback
                        else
                          let node = FindMatchingRecipeNode matches m recipesManager skillTypeId
                                       objectTypeId material
                          in if node = 0 then fallback
                             else MakeSharedRecipeFromNode out node m
         else fallback)"

definition AttachRecipeStartingToolsHook :: "hook_env \<Rightarrow> recipe_state \<Rightarrow> recipe_state" where
  "AttachRecipeStartingToolsHook e s =
     (if \<not> rt_enabled s \<or> rt_attached s then s
      else
        let s = s\<lparr>rt_moduleBase := he_base e\<rparr>
        in if he_base e = 0 then s
           else
             let selectorAddress = he_base e + kFindRecipeForMaterialRva;
                 callAddress = he_base e + kAbilityRecipeCallRva
             in if \<not> MatchesRecipeSelector (he_mem e) (he_base e) selectorAddress
                   \<or> \<not> MatchesAbilityRecipeCallSite (he_mem e) (he_base e) callAddress
                   \<or> \<not> MatchesObjectGetters (he_mem e) (he_base e) then s
                else
                  let s = s\<lparr>recipeReturnAddress := he_base e + kAbilityRecipeReturnRva,
                            materialMatchesType := he_base e + kMaterialMatchesTypeRva,
                            getComplexObjectData := he_base e + kComplexObjectDataGetterRva,
                            getObjectTypeId := he_base e + kObjectTypeIdGetterRva,
                            engine_FindRecipeForMaterial := selectorAddress\<rparr>
                  in if \<not> he_detour_ok e
                     then s\<lparr>materialMatchesType := 0, getComplexObjectData := 0, getObjectTypeId := 0\<rparr>
                     else s\<lparr>rt_attached := True\<rparr>)"

definition DetachRecipeStartingToolsHook :: "hook_env \<Rightarrow> recipe_state \<Rightarrow> recipe_state" where
  "DetachRecipeStartingToolsHook e s =
     (if \<not> rt_attached s \<or> engine_FindRecipeForMaterial s = 0 then s
      else if \<not> he_detour_ok e then s
      else s\<lparr>rt_attached := False, materialMatchesType := 0, getComplexObjectData := 0,
             getObjectTypeId := 0\<rparr>)"

interpretation recipe_hook: managed_hook ConfigureRecipeStartingTools AttachRecipeStartingToolsHook
  DetachRecipeStartingToolsHook rt_enabled rt_attached
proof unfold_locales
  show "\<not> rt_attached s \<Longrightarrow> \<not> rt_attached (snd (ConfigureRecipeStartingTools c s))" for s c
    by (auto simp: ConfigureRecipeStartingTools_def recipe_reset_def Let_def split: option.splits)
  show "\<not> rt_attached s \<Longrightarrow> \<not> fst (ConfigureRecipeStartingTools c s) \<Longrightarrow>
      \<not> rt_enabled (snd (ConfigureRecipeStartingTools c s))" for s c
    by (auto simp: ConfigureRecipeStartingTools_def recipe_reset_def Let_def split: option.splits if_splits)
qed (simp_all add: ConfigureRecipeStartingTools_def AttachRecipeStartingToolsHook_def
    DetachRecipeStartingToolsHook_def Let_def)

definition recipe_good :: "recipe_state \<Rightarrow> bool" where
  "recipe_good s \<longleftrightarrow> objectTypeIds s \<noteq> [] \<and> distinct (objectTypeIds s) \<and> 0 \<notin> set (objectTypeIds s)"

lemma recipe_tool_loop_ok:
  "recipe_tool_loop ts acc = Some ids \<Longrightarrow> distinct acc \<Longrightarrow> 0 \<notin> set acc \<Longrightarrow>
   distinct ids \<and> 0 \<notin> set ids"
  by (induction ts acc rule: recipe_tool_loop.induct) (auto split: attr.splits if_splits)

interpretation recipe_config: configured_hook ConfigureRecipeStartingTools AttachRecipeStartingToolsHook
  DetachRecipeStartingToolsHook rt_enabled rt_attached recipe_good
proof unfold_locales
  show "\<not> rt_attached s \<Longrightarrow> rt_enabled (snd (ConfigureRecipeStartingTools c s)) \<Longrightarrow>
      recipe_good (snd (ConfigureRecipeStartingTools c s))" for s c
    using recipe_tool_loop_ok [of _ "[]"]
    by (auto simp: ConfigureRecipeStartingTools_def recipe_reset_def recipe_good_def Let_def
        split: option.splits if_splits)
qed (auto simp: recipe_good_def AttachRecipeStartingToolsHook_def DetachRecipeStartingToolsHook_def Let_def)

section \<open>The abstract list of recipes\<close>

record recipe_view =
  rv_tools :: u32
  rv_skill :: u32
  rv_needs :: "u32 list"

text \<open>The materials an array of requirements asks for; null and flagged entries ask for none.\<close>

fun needed_materials :: "mem \<Rightarrow> u64 \<Rightarrow> nat \<Rightarrow> u32 list" where
  "needed_materials m entry 0 = []"
| "needed_materials m entry (Suc n) =
     (let r = (read_field m entry 0 :: u64)
      in (if r = 0 \<or> (read_field m r 0x12 :: u8) \<noteq> 0 \<or> (read_field m r 0x13 :: u8) \<noteq> 0 then []
          else [read_field m r 4]) @ needed_materials m (entry + 16) n)"

definition recipe_of :: "mem \<Rightarrow> u64 \<Rightarrow> recipe_view option" where
  "recipe_of m node =
     (let r = (read_field m node 0x18 :: u64);
          b = (read_field m r 0x20 :: u64);
          e = (read_field m r 0x28 :: u64)
      in if r = 0 then None
         else Some \<lparr>rv_tools = read_field m r 4, rv_skill = read_field m r 8,
                rv_needs = (if b \<le> e \<and> unat (e - b) mod 16 = 0 then needed_materials m b (unat (e - b) div 16)
                            else [])\<rparr>)"

definition recipe_fits :: "(u64 \<Rightarrow> u32 \<Rightarrow> u32 \<Rightarrow> bool) \<Rightarrow> u32 \<Rightarrow> u32 \<Rightarrow> u64 \<Rightarrow> recipe_view option \<Rightarrow> bool" where
  "recipe_fits matches skill tools material r \<longleftrightarrow>
     (case r of None \<Rightarrow> False
      | Some v \<Rightarrow> rv_tools v = tools \<and> rv_skill v = skill \<and>
                  list_ex (\<lambda>i. matches material i 100) (rv_needs v))"

text \<open>The manager's list: from the sentinel through the nodes back to the sentinel, with the count.\<close>

definition holds_recipes :: "mem \<Rightarrow> u64 \<Rightarrow> u64 list \<Rightarrow> bool" where
  "holds_recipes m mgr nodes \<longleftrightarrow>
     (let sentinel = (read_field m mgr 0x10 :: u64)
      in mgr \<noteq> 0 \<and> sentinel \<noteq> 0 \<and> linked m sentinel (read_field m sentinel 0) nodes \<and>
         unat (read_field m mgr 0x18 :: u64) = length nodes \<and> length nodes < 2 ^ 32)"

lemma requirement_loop_needs:
  "requirement_loop matches m material entry n =
     list_ex (\<lambda>i. matches material i 100) (needed_materials m entry n)"
  by (induction n arbitrary: entry)
     (simp_all add: Let_def kRequirementSkipFlagOneOffset_def kRequirementSkipFlagTwoOffset_def
       kRequirementMaterialIdOffset_def kRequirementStride_def)

lemma node_matches_fits:
  "node_matches matches m skill tools material node \<longleftrightarrow>
     recipe_fits matches skill tools material (recipe_of m node)"
  by (auto simp: node_matches_def recipe_fits_def recipe_of_def Let_def requirement_loop_needs
      kRecipeNodeObjectOffset_def kRecipeStartingToolsIdOffset_def kRecipeSkillTypeIdOffset_def
      kRecipeRequirementsBeginOffset_def kRecipeRequirementsEndOffset_def kRequirementStride_def)

lemma node_loop_linked:
  "linked m sentinel node nodes \<Longrightarrow>
   node_loop matches m skill tools material sentinel node (length nodes) =
     (case find (\<lambda>n. recipe_fits matches skill tools material (recipe_of m n)) nodes of
        None \<Rightarrow> 0 | Some n \<Rightarrow> n)"
  by (induction nodes arbitrary: node) (auto simp: node_matches_fits)

text \<open>Whatever the memory holds, a node that is returned fits, and the search ends after at most as
  many nodes as the manager counts.\<close>

lemma node_loop_fits:
  "node_loop matches m skill tools material sentinel node n \<noteq> 0 \<Longrightarrow>
   recipe_fits matches skill tools material
     (recipe_of m (node_loop matches m skill tools material sentinel node n))"
  by (induction n arbitrary: node) (auto simp: node_matches_fits split: if_splits)

lemma find_node_linked:
  assumes "holds_recipes m mgr nodes" "material \<noteq> 0"
  shows "FindMatchingRecipeNode matches m mgr skill tools material =
    (case find (\<lambda>n. recipe_fits matches skill tools material (recipe_of m n)) nodes of
       None \<Rightarrow> 0 | Some n \<Rightarrow> n)"
proof (cases "nodes = []")
  case True
  then show ?thesis using assms
    by (simp add: FindMatchingRecipeNode_def holds_recipes_def Let_def kRecipeCountOffset_def)
next
  case False
  then show ?thesis using assms
    by (simp add: FindMatchingRecipeNode_def holds_recipes_def Let_def node_loop_linked
        kRecipeListOffset_def kRecipeCountOffset_def)
qed

text \<open>A node of the list that fits: its recipe is the device's.\<close>

lemma fitting_recipe:
  "recipe_fits matches skill tools material (recipe_of m node) \<Longrightarrow>
   (read_field m node 0x18 :: u64) \<noteq> 0 \<and>
   (read_field m (read_field m node 0x18) 4 :: u32) = tools \<and>
   (read_field m (read_field m node 0x18) 8 :: u32) = skill"
  by (auto simp: recipe_fits_def recipe_of_def Let_def split: if_splits)

text \<open>What the detour sees of the device whose ability asks: nothing for a call from elsewhere.\<close>

definition asking_device ::
  "(mem \<Rightarrow> u64 \<Rightarrow> u64) \<Rightarrow> (mem \<Rightarrow> u64 \<Rightarrow> u32) \<Rightarrow> recipe_state \<Rightarrow> u64 \<Rightarrow> mem \<Rightarrow> u32 option" where
  "asking_device obj_data type_of s slot m =
     (let obj = (read_field m (slot + 8) 0x60 :: u64)
      in if (read_field m slot 0 :: u64) = recipeReturnAddress s \<and> obj \<noteq> 0 \<and> obj_data m obj \<noteq> 0
         then Some (type_of m (obj_data m obj)) else None)"

definition device_recipe ::
  "(u64 \<Rightarrow> u32 \<Rightarrow> u32 \<Rightarrow> bool) \<Rightarrow> mem \<Rightarrow> u32 list \<Rightarrow> u64 list \<Rightarrow> u32 \<Rightarrow> u64 \<Rightarrow> u32 option \<Rightarrow> u64 option" where
  "device_recipe matches m ids nodes skill material dev =
     (case dev of None \<Rightarrow> None
      | Some t \<Rightarrow> if t \<notin> set ids then None
                  else find (\<lambda>n. recipe_fits matches skill t material (recipe_of m n)) nodes)"

lemma detour_by_device:
  assumes "holds_recipes m mgr nodes" "material \<noteq> 0"
  shows "OnFindRecipeForMaterial matches obj_data type_of engine s slot mgr out skill material m =
    (case device_recipe matches m (objectTypeIds s) nodes skill material
            (asking_device obj_data type_of s slot m) of
       Some n \<Rightarrow> MakeSharedRecipeFromNode out n m
     | None \<Rightarrow> engine mgr out skill material m)"
proof -
  have nz: "n \<noteq> 0" if "find P nodes = Some n" for P n
    using that assms(1) linked_nonzero by (fastforce simp: find_Some_iff holds_recipes_def Let_def)
  show ?thesis
    using find_node_linked [OF assms] nz
    by (auto simp: OnFindRecipeForMaterial_def device_recipe_def asking_device_def Let_def
        IsConfiguredTub_def  split: option.splits)
qed

text \<open>C5: The detour answers a call with the first recipe, in the order of the manager's list, whose
  starting tool is the configured device that asks and whose skill and material fit; every other
  call (another caller, a device not configured, no such recipe) is the engine's own selection.\<close>

theorem recipe_selection_by_device:
  assumes "holds_recipes m mgr nodes" "material \<noteq> 0"
  shows "OnFindRecipeForMaterial matches obj_data type_of engine s slot mgr out skill material m =
    (case device_recipe matches m (objectTypeIds s) nodes skill material
            (asking_device obj_data type_of s slot m) of
       Some n \<Rightarrow> MakeSharedRecipeFromNode out n m
     | None \<Rightarrow> engine mgr out skill material m)"
  using assms by (rule detour_by_device)

text \<open>A device that has a recipe of its own receives it as a shared pointer: the object and control
  words of the caller's result are those of the node, the recipe's starting tool is the device and
  its skill the one asked for, and the reference count has grown by exactly one.\<close>

theorem device_recipe_shared:
  assumes list: "holds_recipes m mgr nodes" "material \<noteq> 0" "out \<noteq> 0"
    and dev: "asking_device obj_data type_of s slot m = Some t"
    and own: "device_recipe matches m (objectTypeIds s) nodes skill material (Some t) = Some n"
    and apart: "outside (read_field m n 0x20 + 8) 4 out 8" "outside (read_field m n 0x20 + 8) 4 (out + 8) 8"
    and call: "OnFindRecipeForMaterial matches obj_data type_of engine s slot mgr out skill material m = (r, m')"
  shows "r = out \<and> t \<in> set (objectTypeIds s) \<and>
    (read_field m' out 0 :: u64) = read_field m n 0x18 \<and> (read_field m' out 8 :: u64) = read_field m n 0x20 \<and>
    (read_field m (read_field m n 0x18) 4 :: u32) = t \<and> (read_field m (read_field m n 0x18) 8 :: u32) = skill \<and>
    ((read_field m n 0x20 :: u64) \<noteq> 0 \<longrightarrow>
       (read_field m' (read_field m n 0x20) 8 :: u32) = read_field m (read_field m n 0x20) 8 + 1)"
proof -
  have t: "t \<in> set (objectTypeIds s)"
    and f: "find (\<lambda>n. recipe_fits matches skill t material (recipe_of m n)) nodes = Some n"
    using own by (simp_all add: device_recipe_def split: if_splits)
  have fits: "recipe_fits matches skill t material (recipe_of m n)" and "n \<in> set nodes"
    using f by (auto simp: find_Some_iff)
  moreover have "linked m (read_field m mgr 0x10) (read_field m (read_field m mgr 0x10) 0) nodes"
    using list(1) by (simp add: holds_recipes_def Let_def)
  ultimately have n: "n \<noteq> 0" using linked_nonzero by blast
  let ?ctl = "read_field m n 0x20 :: u64"
  define m1 where "m1 = (if ?ctl \<noteq> 0 then write_field m ?ctl 8 ((read_field m ?ctl 8 :: u32) + 1) else m)"
  define m2 where "m2 = write_field m1 out 0 (read_field m n 0x18 :: u64)"
  have "(r, m') = MakeSharedRecipeFromNode out n m"
    using call detour_by_device [OF list(1,2)] dev own by simp
  then have made: "r = out" "m' = write_field m2 out 8 ?ctl"
    using n list(3) by (auto simp: MakeSharedRecipeFromNode_def m1_def m2_def Let_def
        kRecipeNodeObjectOffset_def kRecipeNodeControlOffset_def)
  have "(read_field m' out 0 :: u64) = read_field m2 out 0"
    unfolding made(2) using outside_next [of out] by (intro read_write_other) simp
  also have "\<dots> = read_field m n 0x18"
    unfolding m2_def by (rule read_write_field [where n = 8]) simp_all
  finally have obj: "(read_field m' out 0 :: u64) = read_field m n 0x18" .
  have ctl: "(read_field m' out 8 :: u64) = ?ctl"
    unfolding made(2) by (rule read_write_field [where n = 8]) simp_all
  have "(read_field m' ?ctl 8 :: u32) = read_field m2 ?ctl 8"
    unfolding made(2) using apart(2) by (intro read_write_other) simp
  also have "\<dots> = read_field m1 ?ctl 8"
    unfolding m2_def using apart(1) by (intro read_write_other) simp
  finally have "?ctl \<noteq> 0 \<Longrightarrow> (read_field m' ?ctl 8 :: u32) = read_field m ?ctl 8 + 1"
    using read_write_field [where n = 4 and v = "(read_field m ?ctl 8 :: u32) + 1" and m = m and obj = ?ctl and off = 8]
    by (simp add: m1_def)
  then show ?thesis using made(1) t obj ctl fitting_recipe [OF fits] by blast
qed

definition sample_recipes :: mem where
  "sample_recipes a = (case map_of
     [(0x111, 2), (0x118, 1), (0x201, 3), (0x301, 2), (0x319, 4), (0x321, 5), (0x404, 42), (0x408, 7),
      (0x421, 6), (0x428, 0x10), (0x429, 6), (0x508, 1), (0x601, 7), (0x704, 9),
      (0x800, 0xCD), (0x801, 0xAB), (0x869, 9)] a of None \<Rightarrow> 0 | Some b \<Rightarrow> b)"

definition sample_recipe_state :: recipe_state where
  "sample_recipe_state = \<lparr>rt_enabled = True, rt_attached = True, objectTypeIds = [42], rt_moduleBase = 0,
     recipeReturnAddress = 0xABCD, materialMatchesType = 1, getComplexObjectData = 1, getObjectTypeId = 1,
     engine_FindRecipeForMaterial = 1\<rparr>"

definition sample_select :: "u64 \<Rightarrow> u64 \<times> mem" where
  "sample_select slot = OnFindRecipeForMaterial (\<lambda>mat need depth. need = 9) (\<lambda>m obj. obj) (\<lambda>m d. 42)
     (\<lambda>mgr out skill mat m. (out, m)) sample_recipe_state slot 0x100 0x80 7 0xB00 sample_recipes"

lemma sample_holds: "holds_recipes sample_recipes 0x100 [0x300]"
proof -
  have "(read_field sample_recipes 0x100 0x10 :: u64) = 0x200"
    "(read_field sample_recipes 0x200 0 :: u64) = 0x300" "(read_field sample_recipes 0x300 0 :: u64) = 0x200"
    "(read_field sample_recipes 0x100 0x18 :: u64) = 1"
    by code_simp+
  then show ?thesis by (simp add: holds_recipes_def)
qed

lemma sample_fits: "recipe_fits (\<lambda>mat need depth. need = 9) 7 42 0xB00 (recipe_of sample_recipes 0x300)"
proof -
  have "(read_field sample_recipes 0x300 0x18 :: u64) = 0x400"
    "(read_field sample_recipes 0x400 0x20 :: u64) = 0x600" "(read_field sample_recipes 0x400 0x28 :: u64) = 0x610"
    "(read_field sample_recipes 0x400 4 :: u32) = 42" "(read_field sample_recipes 0x400 8 :: u32) = 7"
    "(read_field sample_recipes 0x600 0 :: u64) = 0x700" "(read_field sample_recipes 0x700 0x12 :: u8) = 0"
    "(read_field sample_recipes 0x700 0x13 :: u8) = 0" "(read_field sample_recipes 0x700 4 :: u32) = 9"
    by code_simp+
  then show ?thesis by (simp add: recipe_fits_def recipe_of_def)
qed

lemma sample_device:
  "asking_device (\<lambda>m obj. obj) (\<lambda>m d. 42) sample_recipe_state 0x800 sample_recipes = Some 42"
  "asking_device (\<lambda>m obj. obj) (\<lambda>m d. 42) sample_recipe_state 0x700 sample_recipes = None"
proof -
  have "(read_field sample_recipes 0x800 0 :: u64) = 0xABCD"
    "(read_field sample_recipes 0x808 0x60 :: u64) = 0x900"
    "(read_field sample_recipes 0x700 0 :: u64) \<noteq> 0xABCD"
    by code_simp+
  then show "asking_device (\<lambda>m obj. obj) (\<lambda>m d. 42) sample_recipe_state 0x800 sample_recipes = Some 42"
    "asking_device (\<lambda>m obj. obj) (\<lambda>m d. 42) sample_recipe_state 0x700 sample_recipes = None"
    by (simp_all add: asking_device_def sample_recipe_state_def)
qed

lemma sample_own:
  "device_recipe (\<lambda>mat need depth. need = 9) sample_recipes (objectTypeIds sample_recipe_state) [0x300] 7 0xB00
     (Some 42) = Some 0x300"
  using sample_fits by (simp add: device_recipe_def sample_recipe_state_def)

lemma recipe_selection_by_device_witness:
  "sample_select 0x800 = MakeSharedRecipeFromNode 0x80 0x300 sample_recipes \<and>
   sample_select 0x700 = (0x80, sample_recipes)"
proof -
  have "sample_select slot =
      (case device_recipe (\<lambda>mat need depth. need = 9) sample_recipes (objectTypeIds sample_recipe_state)
          [0x300] 7 0xB00 (asking_device (\<lambda>m obj. obj) (\<lambda>m d. 42) sample_recipe_state slot sample_recipes) of
        Some n \<Rightarrow> MakeSharedRecipeFromNode 0x80 n sample_recipes | None \<Rightarrow> (0x80, sample_recipes))" for slot
    unfolding sample_select_def by (rule recipe_selection_by_device [OF sample_holds]) simp
  then show ?thesis by (simp add: sample_device sample_own) (simp add: device_recipe_def)
qed

lemma device_recipe_shared_witness:
  "\<exists>m'. sample_select 0x800 = (0x80, m') \<and> (read_field m' 0x80 0 :: u64) = 0x400 \<and>
     (read_field m' 0x500 8 :: u32) = 2"
proof -
  obtain r m' where c: "sample_select 0x800 = (r, m')" by fastforce
  have v: "(read_field sample_recipes 0x300 0x20 :: u64) = 0x500" "(read_field sample_recipes 0x300 0x18 :: u64) = 0x400"
    "(read_field sample_recipes 0x500 8 :: u32) = 1"
    by code_simp+
  have o: "outside (0x508 :: u64) 4 0x80 8" "outside (0x508 :: u64) 4 0x88 8"
    by (rule outside_above; simp)+
  show ?thesis
    using device_recipe_shared [OF sample_holds _ _ sample_device(1) sample_own _ _ c [unfolded sample_select_def]]
      c o by (simp add: v)
qed

end
