(* ===== verification/Script_Args.thy ===== *)
theory Script_Args
  imports Lifx_Prelude
begin

text \<open>
  The arguments of console commands. A command receives its name and its arguments as strings and
  reads numbers with \<open>std::strtoul\<close>, base 0 (decimal, octal or hexadecimal by prefix) or 10; an
  \<open>unsigned long\<close> has 32 bits on the platform. The console passes as many non-null strings as it
  counts, so that a list of strings is all a command sees.
\<close>

section \<open>Numbers\<close>

definition c_space :: "char \<Rightarrow> bool" where
  "c_space c \<longleftrightarrow> (let n = (of_char c :: nat) in n = 32 \<or> 9 \<le> n \<and> n \<le> 13)"

definition digit_in_base :: "char \<Rightarrow> nat" where
  "digit_in_base c =
     (let n = (of_char c :: nat)
      in if 48 \<le> n \<and> n \<le> 57 then n - 48
         else if 97 \<le> n \<and> n \<le> 122 then n - 87
         else if 65 \<le> n \<and> n \<le> 90 then n - 55 else 99)"

definition strtoul_sign :: "string \<Rightarrow> bool \<times> string" where
  "strtoul_sign s =
     (case s of [] \<Rightarrow> (False, [])
      | c # r \<Rightarrow> if c = CHR ''-'' then (True, r) else if c = CHR ''+'' then (False, r) else (False, s))"

definition strtoul_base :: "string \<Rightarrow> nat \<times> string" where
  "strtoul_base s =
     (if prefix ''0x'' s \<or> prefix ''0X'' s then (16, drop 2 s)
      else if prefix ''0'' s then (8, s) else (10, s))"

definition strtoul_value :: "bool \<Rightarrow> nat \<Rightarrow> string \<Rightarrow> u32" where
  "strtoul_value neg base s =
     (let v = foldl (\<lambda>a c. a * int base + int (digit_in_base c)) 0
                (takeWhile (\<lambda>c. digit_in_base c < base) s)
      in if 0xFFFFFFFF < v then 0xFFFFFFFF
         else if neg then - word_of_int v else word_of_int v)"

definition strtoul0 :: "string \<Rightarrow> u32" where
  "strtoul0 s =
     (let (neg, s) = strtoul_sign (dropWhile c_space s);
          (base, s) = strtoul_base s
      in strtoul_value neg base s)"

definition strtoul10 :: "string \<Rightarrow> u32" where
  "strtoul10 s = (let (neg, s) = strtoul_sign (dropWhile c_space s) in strtoul_value neg 10 s)"

text \<open>\<open>std::strtol\<close> saturates at the bounds of a signed 32-bit integer.\<close>

definition strtol0 :: "string \<Rightarrow> int" where
  "strtol0 s =
     (let (neg, s) = strtoul_sign (dropWhile c_space s);
          (base, s) = strtoul_base s;
          v = foldl (\<lambda>a c. a * int base + int (digit_in_base c)) 0
                (takeWhile (\<lambda>c. digit_in_base c < base) s)
      in if neg then max (- 0x80000000) (- v) else min 0x7FFFFFFF v)"

text \<open>\<open>std::atoi\<close> saturates there as well, \<open>std::strtoll\<close> at those of a 64-bit integer.\<close>

definition signed_value :: "int \<Rightarrow> bool \<Rightarrow> nat \<Rightarrow> string \<Rightarrow> int" where
  "signed_value bound neg base s =
     (let v = foldl (\<lambda>a c. a * int base + int (digit_in_base c)) 0
                (takeWhile (\<lambda>c. digit_in_base c < base) s)
      in if neg then max (- bound) (- v) else min (bound - 1) v)"

definition atoi :: "string \<Rightarrow> int" where
  "atoi s = (let (neg, s) = strtoul_sign (dropWhile c_space s) in signed_value 0x80000000 neg 10 s)"

definition strtoll0 :: "string \<Rightarrow> int" where
  "strtoll0 s =
     (let (neg, s) = strtoul_sign (dropWhile c_space s);
          (base, s) = strtoul_base s
      in signed_value 0x8000000000000000 neg base s)"

definition strtoul16 :: "string \<Rightarrow> u32" where
  "strtoul16 s =
     (let (neg, s) = strtoul_sign (dropWhile c_space s)
      in strtoul_value neg 16 (if prefix ''0x'' s \<or> prefix ''0X'' s then drop 2 s else s))"

lemma digit_in_base_decimal: "is_digit c \<Longrightarrow> digit_in_base c = digit_val c"
  by (simp add: is_digit_def digit_in_base_def digit_val_def)

lemma digit_val_less: "is_digit c \<Longrightarrow> digit_val c < 10"
  by (simp add: is_digit_def digit_val_def less_diff_conv2)

lemma not_space_digit: "is_digit c \<Longrightarrow> \<not> c_space c"
  by (simp add: is_digit_def c_space_def)

lemma dec_no_leading_zero: "0 < n \<Longrightarrow> hd (dec n) \<noteq> CHR ''0''"
proof (induction n rule: dec.induct)
  case (1 n)
  show ?case
  proof (cases "n < 10")
    case True
    have "digit_val (digit_char n) \<noteq> 0" using True "1.prems" by simp
    then have "digit_char n \<noteq> CHR ''0''" by (auto simp: digit_val_def)
    then show ?thesis using True by (subst dec.simps) simp
  next
    case False
    then have "hd (dec (n div 10)) \<noteq> CHR ''0''" using "1.IH" by simp
    then show ?thesis using False by (subst dec.simps) simp
  qed
qed

lemma decimal_value: "foldl (\<lambda>a c. a * 10 + int (digit_in_base c)) 0 (dec n) = int n"
proof -
  have "foldl (\<lambda>a c. a * 10 + int (digit_in_base c)) (int a) xs =
      int (foldl (\<lambda>a c. a * 10 + digit_val c) a xs)" if "list_all is_digit xs" for a xs
    using that
  proof (induction xs arbitrary: a)
    case (Cons x xs)
    then show ?case using Cons.IH [of "a * 10 + digit_val x"] by (simp add: digit_in_base_decimal)
  qed simp
  from this [OF dec_digits, of 0] show ?thesis by (simp add: dec_value)
qed

lemma decimal_stop: "\<not> is_digit c \<Longrightarrow> \<not> digit_in_base c < 10"
  by (simp add: digit_in_base_def is_digit_def Let_def split: if_splits) linarith

lemma decimal_takeWhile:
  "takeWhile (\<lambda>c. digit_in_base c < 10) (dec n) = dec n"
  "\<not> is_digit c \<Longrightarrow> takeWhile (\<lambda>c. digit_in_base c < 10) (dec n @ c # r) = dec n"
proof -
  have all: "\<forall>x \<in> set (dec n). digit_in_base x < 10"
    using dec_digits [of n] by (auto simp: list_all_iff digit_in_base_decimal digit_val_less)
  show "takeWhile (\<lambda>c. digit_in_base c < 10) (dec n) = dec n" using all by (auto simp: takeWhile_eq_all_conv)
  show "takeWhile (\<lambda>c. digit_in_base c < 10) (dec n @ c # r) = dec n" if "\<not> is_digit c"
    using all decimal_stop [OF that] by (subst takeWhile_append2) auto
qed

lemma sign_of_digits: "strtoul_sign (dropWhile c_space (dec n @ r)) = (False, dec n @ r)"
proof -
  obtain c cs where d: "dec n = c # cs" by (meson dec_nonempty neq_Nil_conv)
  have c: "is_digit c" using dec_digits [of n] by (simp add: d)
  then have "c \<noteq> CHR ''-''" "c \<noteq> CHR ''+''" by (auto simp: is_digit_def)
  then show ?thesis using not_space_digit [OF c] by (simp add: d strtoul_sign_def)
qed

lemma strtoul0_dec:
  assumes "n < 2 ^ 32"
  shows "strtoul0 (dec n) = word_of_nat n"
proof (cases "n = 0")
  case True
  have "dec 0 = ''0''" by code_simp
  moreover have "strtoul0 ''0'' = 0" by code_simp
  ultimately show ?thesis using True by simp
next
  case False
  have dg: "list_all is_digit (dec n)" by (rule dec_digits)
  obtain c cs where d: "dec n = c # cs" by (meson dec_nonempty neq_Nil_conv)
  have c: "is_digit c" "c \<noteq> CHR ''0''" using dg dec_no_leading_zero [of n] False by (auto simp: d)
  have "c \<noteq> CHR ''-''" "c \<noteq> CHR ''+''" using c(1) by (auto simp: is_digit_def)
  then have "strtoul_sign (dropWhile c_space (dec n)) = (False, dec n)"
    using not_space_digit [OF c(1)] by (simp add: d strtoul_sign_def)
  moreover have "strtoul_base (dec n) = (10, dec n)" using c(2) by (simp add: d strtoul_base_def)
  moreover have "takeWhile (\<lambda>c. digit_in_base c < 10) (dec n) = dec n"
    using dg by (auto simp: takeWhile_eq_all_conv list_all_iff digit_in_base_decimal digit_val_less)
  moreover have "foldl (\<lambda>a c. a * 10 + int (digit_in_base c)) 0 (dec n) = int n" by (rule decimal_value)
  ultimately show ?thesis using assms by (simp add: strtoul0_def strtoul_value_def Let_def del: takeWhile_eq_all_conv)
qed

lemma strtoul0_fmt_u: "strtoul0 (fmt_u (w :: u32)) = w"
  using unat_u32_bound [of w] by (simp add: fmt_u_def strtoul0_dec)

lemma atoi_fmt_d: "- 0x80000000 \<le> v \<Longrightarrow> v < 0x80000000 \<Longrightarrow> atoi (fmt_d v) = v"
proof -
  assume v: "- 0x80000000 \<le> v" "v < 0x80000000"
  show ?thesis
  proof (cases "v < 0")
    case True
    have "strtoul_sign (dropWhile c_space (''-'' @ dec (nat (- v)))) = (True, dec (nat (- v)))"
      by (simp add: c_space_def strtoul_sign_def)
    then show ?thesis using True v
      by (simp add: atoi_def fmt_d_def signed_value_def decimal_takeWhile decimal_value)
  next
    case False
    then show ?thesis using v sign_of_digits [of "nat v" "[]"]
      by (simp add: atoi_def fmt_d_def signed_value_def decimal_takeWhile decimal_value)
  qed
qed

lemma length_fmt_d: "- 0x80000000 \<le> v \<Longrightarrow> v < 0x80000000 \<Longrightarrow> length (fmt_d v) \<le> 11"
proof -
  assume v: "- 0x80000000 \<le> v" "v < 0x80000000"
  then have "nat (- v) < 10 ^ 10" "nat v < 10 ^ 10" by simp_all
  then show ?thesis using length_dec [of "nat (- v)" 10] length_dec [of "nat v" 10] by (simp add: fmt_d_def)
qed

lemma digits_nonneg: "0 \<le> a \<Longrightarrow> 0 \<le> foldl (\<lambda>a c. a * int b + int (f c)) a xs"
  by (induction xs arbitrary: a) simp_all

lemma atoi_range: "- 0x80000000 \<le> atoi s" "atoi s < 0x80000000"
  using digits_nonneg [of 0 10 digit_in_base]
  by (auto simp: atoi_def signed_value_def Let_def less_le_trans [OF _ digits_nonneg] minus_le_iff split: prod.splits)
     (smt (verit, best))+

end
