(* ===== verification/Effects.thy ===== *)
theory Effects
  imports Script_Args Code_Memory
begin

text \<open>
  The effect table of a player and the duration of the effect "Resurrected":
  \<open>source/server/hooks/effect/hook_assign_effect.cpp\<close> (the overrides and their precedence),
  \<open>hook_broadcast_effects.cpp\<close> (the detour on the engine's broadcast of effect changes),
  \<open>source/server/api/lifx_timers.cpp\<close> and the table commands of \<open>source/server/api/lifx_effects.cpp\<close>.
  The player is a block of process memory; the list of changes handed to a broadcast is a list of
  its own, apart from that block. The script the console evaluates is an argument.
\<close>

section \<open>Overrides of the duration\<close>

record resurrection =
  callbackFn :: string
  perPlayer :: "u32 \<rightharpoonup> u32"
  resurrectionDurationMs :: u32

definition resurrection_init :: resurrection where
  "resurrection_init = \<lparr>callbackFn = [], perPlayer = Map.empty, resurrectionDurationMs = 0\<rparr>"

definition kResurrectedEffectId :: u32 where "kResurrectedEffectId = 47"

definition SetResurrectionFor :: "u32 \<Rightarrow> u32 \<Rightarrow> resurrection \<Rightarrow> resurrection" where
  "SetResurrectionFor charID ms r =
     (if ms = 0 then r\<lparr>perPlayer := (perPlayer r)(charID := None)\<rparr>
      else r\<lparr>perPlayer := (perPlayer r)(charID \<mapsto> ms)\<rparr>)"

definition GetResurrectionFor :: "u32 \<Rightarrow> resurrection \<Rightarrow> u32" where
  "GetResurrectionFor charID r = (case perPlayer r charID of None \<Rightarrow> 0 | Some ms \<Rightarrow> ms)"

definition ClearResurrectionFor :: "u32 \<Rightarrow> resurrection \<Rightarrow> resurrection" where
  "ClearResurrectionFor charID r = r\<lparr>perPlayer := (perPlayer r)(charID := None)\<rparr>"

definition SetResurrectionCallback :: "string \<Rightarrow> resurrection \<Rightarrow> resurrection" where
  "SetResurrectionCallback fn r = r\<lparr>callbackFn := fn\<rparr>"

definition callback_statement :: "string \<Rightarrow> u32 \<Rightarrow> u32 \<Rightarrow> string" where
  "callback_statement fn charID engineDefaultMs =
     snprintf_out 160 (fn @ ''('' @ fmt_u charID @ '', '' @ fmt_u engineDefaultMs @ '');'')"

definition ResolveResurrectionMs :: "(string \<Rightarrow> string) \<Rightarrow> resurrection \<Rightarrow> u32 \<Rightarrow> u32 \<Rightarrow> u32" where
  "ResolveResurrectionMs evaluate r charID engineDefaultMs =
     (let ms = (if callbackFn r \<noteq> []
                then let result = evaluate (callback_statement (callbackFn r) charID engineDefaultMs)
                     in if result \<noteq> [] then strtoul0 result else 0
                else 0);
          pp = GetResurrectionFor charID r
      in if 0 < ms then ms
         else if 0 < pp then pp
         else if 0 < resurrectionDurationMs r then resurrectionDurationMs r
         else engineDefaultMs)"

section \<open>The timer commands\<close>

definition Resurrection :: "string list \<Rightarrow> resurrection \<Rightarrow> resurrection" where
  "Resurrection args r =
     (if 2 \<le> length args \<and> args ! 1 \<noteq> [] then r\<lparr>resurrectionDurationMs := strtoul0 (args ! 1)\<rparr> else r)"

definition cmd_SetResurrectionFor :: "string list \<Rightarrow> resurrection \<Rightarrow> resurrection" where
  "cmd_SetResurrectionFor args r =
     (if length args < 3 then r else SetResurrectionFor (strtoul0 (args ! 1)) (strtoul0 (args ! 2)) r)"

definition cmd_GetResurrectionFor :: "string list \<Rightarrow> resurrection \<Rightarrow> int" where
  "cmd_GetResurrectionFor args r =
     (if length args < 2 then 0
      else sint (GetResurrectionFor (strtoul0 (args ! 1)) r))"

definition cmd_ClearResurrectionFor :: "string list \<Rightarrow> resurrection \<Rightarrow> resurrection" where
  "cmd_ClearResurrectionFor args r =
     (if length args < 2 then r else ClearResurrectionFor (strtoul0 (args ! 1)) r)"

definition OnResurrection :: "string list \<Rightarrow> resurrection \<Rightarrow> resurrection" where
  "OnResurrection args r = SetResurrectionCallback (if 2 \<le> length args then args ! 1 else []) r"

section \<open>The detours\<close>

record effect_delta =
  effect_id :: u32
  ed_pad1 :: u32
  expires_at_ms :: u32
  applied_at_ms :: u32
  magnitude_data :: u64
  ed_pad2 :: u64

definition kPlayerEffectTableBase :: u64 where "kPlayerEffectTableBase = 0x1238"
definition kPlayerEffectRowSize :: u64 where "kPlayerEffectRowSize = 24"
definition kCharIdOffOnPlayer :: u64 where "kCharIdOffOnPlayer = 0x1B44"

definition effect_row :: "u64 \<Rightarrow> u32 \<Rightarrow> u64" where
  "effect_row player eid = player + (kPlayerEffectTableBase + ucast eid * kPlayerEffectRowSize)"

text \<open>The body of the loop over the changes.\<close>

definition adjust_delta ::
  "(u32 \<Rightarrow> u32) \<Rightarrow> u64 \<Rightarrow> effect_delta \<Rightarrow> mem \<Rightarrow> effect_delta \<times> mem" where
  "adjust_delta resolve player p m =
     (if effect_id p \<noteq> kResurrectedEffectId then (p, m)
      else if expires_at_ms p \<le> applied_at_ms p then (p, m)
      else
        let engineDuration = expires_at_ms p - applied_at_ms p;
            durationMs = resolve engineDuration
        in if durationMs = engineDuration then (p, m)
           else
             let newExpires = applied_at_ms p + durationMs;
                 row = effect_row player (effect_id p);
                 stamp = (read_field m row 8 :: u32)
             in (p\<lparr>expires_at_ms := newExpires\<rparr>,
                 if stamp = effect_id p then write_field m row 0 newExpires else m))"

fun adjust_deltas ::
  "(u32 \<Rightarrow> u32) \<Rightarrow> u64 \<Rightarrow> effect_delta list \<Rightarrow> mem \<Rightarrow> effect_delta list \<times> mem" where
  "adjust_deltas resolve player [] m = ([], m)"
| "adjust_deltas resolve player (p # ps) m =
     (case adjust_delta resolve player p m of
        (p', m) \<Rightarrow> (case adjust_deltas resolve player ps m of (ps', m) \<Rightarrow> (p' # ps', m)))"

text \<open>What the engine's broadcast is called with, and the player's memory then.\<close>

definition BroadcastDelta ::
  "(string \<Rightarrow> string) \<Rightarrow> resurrection \<Rightarrow> u64 \<Rightarrow> effect_delta list \<Rightarrow> mem \<Rightarrow> effect_delta list \<times> mem" where
  "BroadcastDelta evaluate r player deltas m =
     (if player \<noteq> 0
      then adjust_deltas (ResolveResurrectionMs evaluate r (read_field m player kCharIdOffOnPlayer))
             player deltas m
      else (deltas, m))"

text \<open>The detour on the receiving side: the first two words of the row.\<close>

definition AssignEffect :: "resurrection \<Rightarrow> u32 \<Rightarrow> u32 \<times> u32 \<Rightarrow> u32 \<times> u32" where
  "AssignEffect r effectID row16 =
     (let (expiresAt, appliedAt) = row16; durationMs = resurrectionDurationMs r
      in if effectID = kResurrectedEffectId \<and> durationMs \<noteq> 0 \<and> appliedAt < expiresAt
         then (appliedAt + durationMs, appliedAt) else row16)"

section \<open>Commands on the table\<close>

definition kPlayerBroadcastVtableSlot :: u64 where "kPlayerBroadcastVtableSlot = 187"

definition row_delta :: "mem \<Rightarrow> u64 \<Rightarrow> u32 \<Rightarrow> effect_delta" where
  "row_delta m player eid =
     (let row = effect_row player eid
      in \<lparr>effect_id = eid, ed_pad1 = 0, expires_at_ms = read_field m row 0, applied_at_ms = read_field m row 4,
          magnitude_data = read_field m row 16, ed_pad2 = 0\<rparr>)"

text \<open>\<open>call\<close> is what calling the function at an address does: the changes it broadcasts and the
  memory afterwards.\<close>

type_synonym vcall = "u64 \<Rightarrow> u64 \<Rightarrow> effect_delta list \<Rightarrow> mem \<Rightarrow> effect_delta list \<times> mem"

definition BroadcastEffectDelta :: "vcall \<Rightarrow> u64 \<Rightarrow> u32 \<Rightarrow> mem \<Rightarrow> bool \<times> effect_delta list \<times> mem" where
  "BroadcastEffectDelta call player effectID m =
     (if player = 0 then (False, [], m)
      else
        let delta = row_delta m player effectID;
            vt = (read_field m player 0 :: u64)
        in if vt = 0 then (False, [], m)
           else
             let fn = (read_field m vt (kPlayerBroadcastVtableSlot * 8) :: u64)
             in if fn = 0 then (False, [], m)
                else (True, call fn player [delta] m))"

definition PlayerEffectRow :: "mem \<Rightarrow> u64 \<Rightarrow> u32 \<Rightarrow> u64 \<Rightarrow> u64 option" where
  "PlayerEffectRow m obj effectID fieldOffset =
     (let row = effect_row obj effectID
      in if (read_field m row 8 :: u32) \<noteq> effectID then None else Some (row + fieldOffset))"

definition SetEffectExpiry :: "vcall \<Rightarrow> u64 \<Rightarrow> string list \<Rightarrow> mem \<Rightarrow> effect_delta list \<times> mem" where
  "SetEffectExpiry call obj args m =
     (if obj = 0 \<or> length args < 4 then ([], m)
      else
        let effectID = strtoul0 (args ! 2); expiry = strtoul0 (args ! 3)
        in case PlayerEffectRow m obj effectID 0 of
             None \<Rightarrow> ([], m)
           | Some slot \<Rightarrow> snd (BroadcastEffectDelta call obj effectID (write_field m slot 0 expiry)))"

definition ExtendEffect :: "vcall \<Rightarrow> u64 \<Rightarrow> string list \<Rightarrow> mem \<Rightarrow> effect_delta list \<times> mem" where
  "ExtendEffect call obj args m =
     (if obj = 0 \<or> length args < 4 then ([], m)
      else
        let effectID = strtoul0 (args ! 2); extraMs = strtoul0 (args ! 3)
        in case PlayerEffectRow m obj effectID 0 of
             None \<Rightarrow> ([], m)
           | Some slot \<Rightarrow>
               snd (BroadcastEffectDelta call obj effectID
                     (write_field m slot 0 ((read_field m slot 0 :: u32) + extraMs))))"

definition BroadcastEffectCmd :: "vcall \<Rightarrow> u64 \<Rightarrow> string list \<Rightarrow> mem \<Rightarrow> effect_delta list \<times> mem" where
  "BroadcastEffectCmd call obj args m =
     (if obj = 0 \<or> length args < 3 then ([], m)
      else
        let effectID = strtoul0 (args ! 2)
        in case PlayerEffectRow m obj effectID 0 of
             None \<Rightarrow> ([], m)
           | Some slot \<Rightarrow> snd (BroadcastEffectDelta call obj effectID m))"

definition ClearEffect :: "vcall \<Rightarrow> u64 \<Rightarrow> string list \<Rightarrow> mem \<Rightarrow> effect_delta list \<times> mem" where
  "ClearEffect call obj args m =
     (if obj = 0 \<or> length args < 3 then ([], m)
      else
        let effectID = strtoul0 (args ! 2)
        in case (PlayerEffectRow m obj effectID 0, PlayerEffectRow m obj effectID 16) of
             (Some expSlot, Some magSlot) \<Rightarrow>
               snd (BroadcastEffectDelta call obj effectID
                     (write_field (write_field m expSlot 0 (0 :: u32)) magSlot 0 (0 :: u32)))
           | _ \<Rightarrow> ([], m))"

definition PokeU32Player :: "u64 \<Rightarrow> string list \<Rightarrow> mem \<Rightarrow> mem" where
  "PokeU32Player obj args m =
     (if obj = 0 \<or> length args < 4 then m
      else write_field m obj (ucast (strtoul0 (args ! 2))) (strtoul0 (args ! 3)))"

section \<open>What a broadcast carries\<close>

text \<open>The change the configuration asks for: an application of the effect gets the resolved duration,
  everything else (removals, other effects) is left alone.\<close>

definition override_delta :: "(u32 \<Rightarrow> u32) \<Rightarrow> effect_delta \<Rightarrow> effect_delta" where
  "override_delta resolve p =
     (if effect_id p = 47 \<and> applied_at_ms p < expires_at_ms p
      then p\<lparr>expires_at_ms := applied_at_ms p + resolve (expires_at_ms p - applied_at_ms p)\<rparr> else p)"

definition mirrored_expiry :: "(u32 \<Rightarrow> u32) \<Rightarrow> effect_delta list \<Rightarrow> u32 \<Rightarrow> u32" where
  "mirrored_expiry resolve ps v =
     fold (\<lambda>p v. if override_delta resolve p \<noteq> p then expires_at_ms (override_delta resolve p) else v) ps v"

lemma adjust_delta_fst: "fst (adjust_delta resolve player p m) = override_delta resolve p"
  by (cases p) (auto simp: adjust_delta_def override_delta_def kResurrectedEffectId_def Let_def)

lemma adjust_delta_snd:
  "snd (adjust_delta resolve player p m) =
     (if override_delta resolve p \<noteq> p \<and> (read_field m (effect_row player 47) 8 :: u32) = 47
      then write_field m (effect_row player 47) 0 (expires_at_ms (override_delta resolve p)) else m)"
proof -
  have neq: "p\<lparr>expires_at_ms := applied_at_ms p + d\<rparr> = p \<longleftrightarrow> d = expires_at_ms p - applied_at_ms p" for d
    by (cases p) auto
  show ?thesis
    by (auto simp: adjust_delta_def override_delta_def kResurrectedEffectId_def Let_def neq)
qed

lemma row_stamp_kept:
  "(read_field (write_field m row 0 (v :: u32)) row 8 :: u32) = read_field m row 8"
proof (rule read_write_other)
  have "outside 8 4 (0 :: u64) 4" by (rule outside_above) simp_all
  then show "outside (row + 8) (LENGTH(32) div 8) (row + 0) (LENGTH(32) div 8)"
    by (simp only: outside_const) simp
qed

lemma adjust_deltas_result:
  "adjust_deltas resolve player ps m = (ps', m') \<Longrightarrow>
   ps' = map (override_delta resolve) ps \<and>
   (\<forall>x. 4 \<le> unat (x - effect_row player 47) \<longrightarrow> m' x = m x) \<and>
   ((read_field m (effect_row player 47) 8 :: u32) = 47 \<longrightarrow>
      (read_field m' (effect_row player 47) 8 :: u32) = 47 \<and>
      (read_field m' (effect_row player 47) 0 :: u32) =
        mirrored_expiry resolve ps (read_field m (effect_row player 47) 0))"
proof (induction ps arbitrary: m ps' m')
  case Nil
  then show ?case by (simp add: mirrored_expiry_def)
next
  case (Cons p ps)
  let ?row = "effect_row player 47"
  obtain p1 m1 where 1: "adjust_delta resolve player p m = (p1, m1)" by fastforce
  obtain ps2 m2 where 2: "adjust_deltas resolve player ps m1 = (ps2, m2)" by fastforce
  have r: "ps' = p1 # ps2" "m' = m2" using Cons.prems 1 2 by simp_all
  have p1: "p1 = override_delta resolve p" using adjust_delta_fst [of resolve player p m] 1 by simp
  have m1: "m1 = (if override_delta resolve p \<noteq> p \<and> (read_field m ?row 8 :: u32) = 47
      then write_field m ?row 0 (expires_at_ms (override_delta resolve p)) else m)"
    using adjust_delta_snd [of resolve player p m] 1 by simp
  note IH = Cons.IH [OF 2]
  have frame: "m1 x = m x" if "4 \<le> unat (x - ?row)" for x
    using that by (simp add: m1 write_field_def mwrite_other)
  have stamp: "(read_field m1 ?row 8 :: u32) = read_field m ?row 8"
    by (simp add: m1 row_stamp_kept)
  have exp: "(read_field m1 ?row 0 :: u32) =
      (if override_delta resolve p \<noteq> p then expires_at_ms (override_delta resolve p) else read_field m ?row 0)"
    if "(read_field m ?row 8 :: u32) = 47"
    using that by (simp add: m1 read_write_field [where n = 4])
  show ?case
    using IH r p1 frame stamp exp by (auto simp: mirrored_expiry_def)
qed

lemma broadcast_result:
  assumes "BroadcastDelta evaluate r player ds m = (ds', m')" and "player \<noteq> 0"
    and "resolve = ResolveResurrectionMs evaluate r (read_field m player 0x1B44)"
  shows "ds' = map (override_delta resolve) ds \<and>
    (\<forall>x. 4 \<le> unat (x - effect_row player 47) \<longrightarrow> m' x = m x) \<and>
    ((read_field m (effect_row player 47) 8 :: u32) = 47 \<longrightarrow>
       (read_field m' (effect_row player 47) 0 :: u32) =
         mirrored_expiry resolve ds (read_field m (effect_row player 47) 0))"
  using assms adjust_deltas_result [of resolve player ds m ds' m']
  by (simp add: BroadcastDelta_def kCharIdOffOnPlayer_def)

text \<open>C34: The detour gives every application of "Resurrected" in a broadcast the resolved duration and
  leaves removals and other effects alone; the only bytes of the player it writes are the expiry word
  of that effect's row, which, when the row is valid, ends up equal to the last expiry sent.\<close>

theorem resurrection_duration_enforced:
  assumes "BroadcastDelta evaluate r player ds m = (ds', m')" and "player \<noteq> 0"
    and "resolve = ResolveResurrectionMs evaluate r (read_field m player 0x1B44)"
  shows "ds' = map (override_delta resolve) ds \<and>
    (\<forall>x. 4 \<le> unat (x - effect_row player 47) \<longrightarrow> m' x = m x) \<and>
    ((read_field m (effect_row player 47) 8 :: u32) = 47 \<longrightarrow>
       (read_field m' (effect_row player 47) 0 :: u32) =
         mirrored_expiry resolve ds (read_field m (effect_row player 47) 0))"
  using assms by (rule broadcast_result)

section \<open>Commands and the override together\<close>

text \<open>The broadcaster in the player's method table is the function the detour sits on.\<close>

definition hooked :: "(string \<Rightarrow> string) \<Rightarrow> resurrection \<Rightarrow> vcall" where
  "hooked evaluate r = (\<lambda>fn player ds m. BroadcastDelta evaluate r player ds m)"

text \<open>The duration configured without a callback: the player's own, else the global one.\<close>

definition configured_duration :: "resurrection \<Rightarrow> u32 \<Rightarrow> u32" where
  "configured_duration r charID =
     (if GetResurrectionFor charID r \<noteq> 0 then GetResurrectionFor charID r else resurrectionDurationMs r)"

lemma resolve_configured:
  "callbackFn r = [] \<Longrightarrow> configured_duration r charID \<noteq> 0 \<Longrightarrow>
   ResolveResurrectionMs evaluate r charID dflt = configured_duration r charID"
  by (auto simp: ResolveResurrectionMs_def configured_duration_def Let_def word_neq_0_conv)

text \<open>The method table of a player, outside the words of the row that a command writes.\<close>

definition has_broadcaster :: "mem \<Rightarrow> u64 \<Rightarrow> u64 \<Rightarrow> nat \<Rightarrow> bool" where
  "has_broadcaster m player a n \<longleftrightarrow>
     (let vt = (read_field m player 0 :: u64)
      in player \<noteq> 0 \<and> vt \<noteq> 0 \<and> (read_field m vt (187 * 8) :: u64) \<noteq> 0 \<and>
         outside player 8 a n \<and> outside (vt + 187 * 8) 8 a n)"

lemma broadcast_runs:
  assumes "has_broadcaster m player a 4"
  shows "BroadcastEffectDelta (hooked evaluate r) player eid (write_field m a 0 (v :: u32)) =
    (True, BroadcastDelta evaluate r player [row_delta (write_field m a 0 v) player eid] (write_field m a 0 v))"
proof -
  have "(read_field (write_field m a 0 v) player 0 :: u64) = read_field m player 0"
    using assms by (intro read_write_other) (simp add: has_broadcaster_def Let_def)
  moreover have "(read_field (write_field m a 0 v) (read_field m player 0) (187 * 8) :: u64) =
      read_field m (read_field m player 0) (187 * 8)"
    using assms by (intro read_write_other) (simp add: has_broadcaster_def Let_def)
  ultimately show ?thesis using assms
    by (simp add: BroadcastEffectDelta_def hooked_def has_broadcaster_def Let_def kPlayerBroadcastVtableSlot_def)
qed

lemma row_47: "effect_row player 47 = player + 0x16A0"
  by (simp add: effect_row_def kPlayerEffectTableBase_def kPlayerEffectRowSize_def)

lemma row_words_apart:
  "outside (row + 4) 4 (row + 0 :: u64) 4" "outside (row + 8) 4 (row + 0 :: u64) 4"
  by (simp_all only: outside_const) (rule outside_above; simp)+

lemma char_id_apart: "outside (player + 0x1B44) 4 (player + 0x16A0) 4"
  by (simp only: outside_const) (rule outside_above; simp)

lemma edit_overridden:
  assumes cb: "callbackFn r = []"
    and d: "configured_duration r (read_field m player 0x1B44) \<noteq> 0"
    and bc: "has_broadcaster m player (effect_row player 47) 4"
    and stamp: "(read_field m (effect_row player 47) 8 :: u32) = 47"
    and future: "(read_field m (effect_row player 47) 4 :: u32) < v"
    and res: "snd (BroadcastEffectDelta (hooked evaluate r) player 47
                (write_field m (effect_row player 47) 0 v)) = (sent, m')"
  shows "map expires_at_ms sent =
      [read_field m (effect_row player 47) 4 + configured_duration r (read_field m player 0x1B44)] \<and>
    (read_field m' (effect_row player 47) 0 :: u32) =
      read_field m (effect_row player 47) 4 + configured_duration r (read_field m player 0x1B44)"
proof -
  let ?row = "effect_row player 47"
  let ?m = "write_field m ?row 0 v"
  let ?applied = "read_field m ?row 4 :: u32"
  let ?c = "read_field m player 0x1B44 :: u32"
  let ?d = "configured_duration r ?c"
  have player: "player \<noteq> 0" using bc by (simp add: has_broadcaster_def Let_def)
  have run: "BroadcastDelta evaluate r player [row_delta ?m player 47] ?m = (sent, m')"
    using res broadcast_runs [OF bc] by simp
  have words: "(read_field ?m ?row 0 :: u32) = v" "(read_field ?m ?row 4 :: u32) = ?applied"
    "(read_field ?m ?row 8 :: u32) = 47" "(read_field ?m player 0x1B44 :: u32) = ?c"
    using stamp row_words_apart [of ?row] char_id_apart [of player]
    by (simp_all add: read_write_field [where n = 4] read_write_other row_47)
  have resolve: "ResolveResurrectionMs evaluate r (read_field ?m player 0x1B44) = (\<lambda>_. ?d)"
    using resolve_configured [OF cb d] by (simp add: words(4) fun_eq_iff)
  note e = broadcast_result [OF run player refl, unfolded resolve]
  have ov: "override_delta (\<lambda>_. ?d) (row_delta ?m player 47) =
      (row_delta ?m player 47)\<lparr>expires_at_ms := ?applied + ?d\<rparr>"
    using future by (simp add: override_delta_def row_delta_def Let_def words)
  have "mirrored_expiry (\<lambda>_. ?d) [row_delta ?m player 47] (read_field ?m ?row 0) = ?applied + ?d"
    by (auto simp: mirrored_expiry_def ov words) (simp add: row_delta_def Let_def words)
  then show ?thesis using e words by (simp add: ov)
qed

text \<open>The commands that set or extend an expiry have no effect on "Resurrected" once a duration is
  configured: their own broadcast runs into the detour, so that whatever later time is asked for, the
  row and the change sent to the clients end at the configured duration after the application.\<close>

theorem resurrected_edit_overridden:
  assumes "callbackFn r = []"
    and "configured_duration r (read_field m player 0x1B44) \<noteq> 0"
    and "has_broadcaster m player (effect_row player 47) 4"
    and "(read_field m (effect_row player 47) 8 :: u32) = 47"
    and "(read_field m (effect_row player 47) 4 :: u32) < t"
    and "(read_field m (effect_row player 47) 4 :: u32) < read_field m (effect_row player 47) 0 + extra"
    and "applied = (read_field m (effect_row player 47) 4 :: u32)"
    and "d = configured_duration r (read_field m player 0x1B44)"
    and "SetEffectExpiry (hooked evaluate r) player [cmd, oid, ''47'', fmt_u t] m = (sent, m1)"
    and "ExtendEffect (hooked evaluate r) player [cmd, oid, ''47'', fmt_u extra] m = (sent2, m2)"
  shows "map expires_at_ms sent = [applied + d] \<and> read_field m1 (effect_row player 47) 0 = applied + d \<and>
    map expires_at_ms sent2 = [applied + d] \<and> read_field m2 (effect_row player 47) 0 = applied + d"
proof -
  have n: "strtoul0 ''47'' = 47" by code_simp
  have player: "player \<noteq> 0" using assms(3) by (simp add: has_broadcaster_def Let_def)
  have "snd (BroadcastEffectDelta (hooked evaluate r) player 47 (write_field m (effect_row player 47) 0 t)) =
      (sent, m1)"
    using assms(4,9) player by (simp add: SetEffectExpiry_def PlayerEffectRow_def Let_def n strtoul0_fmt_u)
  moreover have "snd (BroadcastEffectDelta (hooked evaluate r) player 47
      (write_field m (effect_row player 47) 0 (read_field m (effect_row player 47) 0 + extra))) = (sent2, m2)"
    using assms(4,10) player by (simp add: ExtendEffect_def PlayerEffectRow_def Let_def n strtoul0_fmt_u)
  ultimately show ?thesis
    using edit_overridden [OF assms(1-5)] edit_overridden [OF assms(1-4,6)] assms(7,8) by simp
qed

section \<open>Clearing an effect\<close>

lemma read_field_frame:
  assumes "\<And>x. n \<le> unat (x - a) \<Longrightarrow> m1 x = m x" and "outside (obj + off) (LENGTH('b) div 8) a n"
  shows "(read_field m1 obj off :: 'b::len word) = read_field m obj off"
  using assms by (auto simp: read_field_def mread_def outside_def list_all_iff intro!: arg_cong [where f = load_le])

lemma write_two_frame:
  assumes "20 \<le> unat (x - row)"
  shows "write_field (write_field m row 0 (v :: u32)) (row + 16) 0 (w :: u32) x = m x"
proof -
  have "4 \<le> unat (x - (row + 16))"
  proof (rule ccontr)
    assume "\<not> 4 \<le> unat (x - (row + 16))"
    then have s: "unat (x - (row + 16)) < 4" by simp
    have "x - row = (x - (row + 16)) + 16" by simp
    then have "unat (x - row) = unat ((x - (row + 16)) + 16)" by simp
    also have "\<dots> = unat (x - (row + 16)) + 16" using s by (subst unat_add_lem [THEN iffD1]) simp_all
    finally show False using assms s by simp
  qed
  then show ?thesis using assms by (simp add: write_field_def mwrite_other)
qed

text \<open>Clearing an effect works for every effect, the overridden one included: the row's expiry and
  magnitude become zero, its application time and identifier stay, no other byte of the player
  changes, and exactly one change, expired at zero, is sent to the clients; the detour recognises it
  as a removal and lets it pass.\<close>

theorem cleared_effect_is_removed:
  assumes bc: "has_broadcaster m player (effect_row player eid) 20"
    and stamp: "(read_field m (effect_row player eid) 8 :: u32) = eid"
    and res: "ClearEffect (hooked evaluate r) player [cmd, oid, fmt_u eid] m = (sent, m')"
  shows "map (\<lambda>p. (effect_id p, expires_at_ms p)) sent = [(eid, 0)] \<and>
    (read_field m' (effect_row player eid) 0 :: u32) = 0 \<and>
    (read_field m' (effect_row player eid) 16 :: u32) = 0 \<and>
    (read_field m' (effect_row player eid) 4 :: u32) = read_field m (effect_row player eid) 4 \<and>
    (read_field m' (effect_row player eid) 8 :: u32) = eid \<and>
    (\<forall>x. 20 \<le> unat (x - effect_row player eid) \<longrightarrow> m' x = m x)"
proof -
  let ?row = "effect_row player eid"
  define m1 where "m1 = write_field (write_field m ?row 0 (0 :: u32)) (?row + 16) 0 (0 :: u32)"
  have frame: "m1 x = m x" if "20 \<le> unat (x - ?row)" for x
    using write_two_frame [OF that] by (simp add: m1_def)
  have player: "player \<noteq> 0" using bc by (simp add: has_broadcaster_def Let_def)
  have vt: "(read_field m1 player 0 :: u64) = read_field m player 0"
    using bc frame by (intro read_field_frame [where a = ?row and n = 20]) (simp_all add: has_broadcaster_def Let_def)
  have fn: "(read_field m1 (read_field m player 0) (187 * 8) :: u64) = read_field m (read_field m player 0) (187 * 8)"
    using bc frame by (intro read_field_frame [where a = ?row and n = 20]) (simp_all add: has_broadcaster_def Let_def)
  have "snd (BroadcastEffectDelta (hooked evaluate r) player eid m1) = (sent, m')"
    using res stamp player
    by (simp add: ClearEffect_def PlayerEffectRow_def Let_def strtoul0_fmt_u m1_def)
  then have run: "BroadcastDelta evaluate r player [row_delta m1 player eid] m1 = (sent, m')"
    using bc vt fn by (simp add: BroadcastEffectDelta_def hooked_def has_broadcaster_def Let_def
        kPlayerBroadcastVtableSlot_def)
  let ?m0 = "write_field m ?row 0 (0 :: u32)"
  have apart: "outside (?row + 0) 4 (?row + 16 + 0) 4" "outside (?row + 4) 4 (?row + 16 + 0) 4"
    "outside (?row + 8) 4 (?row + 16 + 0) 4" "outside (?row + 4) 4 (?row + 0) 4" "outside (?row + 8) 4 (?row + 0) 4"
    by ((rule outside_before; simp), (rule outside_before; simp), (rule outside_before; simp),
        (rule outside_above; simp), (rule outside_above; simp))
  have "(read_field m1 ?row 0 :: u32) = read_field ?m0 ?row 0"
    unfolding m1_def by (rule read_write_other) (use apart(1) in simp)
  also have "\<dots> = 0" by (rule read_write_field [where n = 4]) simp_all
  finally have w0: "(read_field m1 ?row 0 :: u32) = 0" .
  have "(read_field m1 ?row 4 :: u32) = read_field ?m0 ?row 4"
    unfolding m1_def by (rule read_write_other) (use apart(2) in simp)
  also have "\<dots> = read_field m ?row 4" by (rule read_write_other) (use apart(4) in simp)
  finally have w4: "(read_field m1 ?row 4 :: u32) = read_field m ?row 4" .
  have "(read_field m1 ?row 8 :: u32) = read_field ?m0 ?row 8"
    unfolding m1_def by (rule read_write_other) (use apart(3) in simp)
  also have "\<dots> = read_field m ?row 8" by (rule read_write_other) (use apart(5) in simp)
  finally have w8: "(read_field m1 ?row 8 :: u32) = read_field m ?row 8" .
  have "(read_field m1 (?row + 16) 0 :: u32) = 0"
    unfolding m1_def by (rule read_write_field [where n = 4]) simp_all
  then have w16: "(read_field m1 ?row 16 :: u32) = 0" by (simp add: read_field_def)
  note words = w0 w16 w4 w8
  have ov: "override_delta f (row_delta m1 player eid) = row_delta m1 player eid" for f
    by (simp add: override_delta_def row_delta_def Let_def words(1))
  have "adjust_delta f player (row_delta m1 player eid) m1 = (row_delta m1 player eid, m1)" for f
    using adjust_delta_fst [of f player "row_delta m1 player eid" m1]
      adjust_delta_snd [of f player "row_delta m1 player eid" m1] by (simp add: ov prod_eq_iff)
  then have "sent = [row_delta m1 player eid] \<and> m' = m1"
    using run player by (auto simp: BroadcastDelta_def)
  then show ?thesis using words stamp frame by (simp add: row_delta_def Let_def)
qed

section \<open>A player\<close>

definition sample_player :: mem where
  "sample_player a = (case map_of
     [(0x10000, 0x40), (0x618, 1), (0x11B44, 5), (0x116A1, 2), (0x116A4, 100), (0x116A8, 47)] a of
       None \<Rightarrow> 0 | Some b \<Rightarrow> b)"

definition sample_resurrection :: resurrection where
  "sample_resurrection = SetResurrectionFor 5 60000 resurrection_init"

lemma sample_player_words:
  "(read_field sample_player 0x10000 0 :: u64) = 0x40" "(read_field sample_player 0x40 0x5D8 :: u64) = 1"
  "(read_field sample_player 0x10000 0x1B44 :: u32) = 5" "(read_field sample_player 0x116A0 0 :: u32) = 512"
  "(read_field sample_player 0x116A0 4 :: u32) = 100" "(read_field sample_player 0x116A0 8 :: u32) = 47"
  by code_simp+

lemma sample_row: "effect_row 0x10000 47 = 0x116A0"
  by (simp add: row_47)

lemma sample_duration: "configured_duration sample_resurrection 5 = 60000" "callbackFn sample_resurrection = []"
  by (simp_all add: configured_duration_def sample_resurrection_def SetResurrectionFor_def
      GetResurrectionFor_def resurrection_init_def)

lemma sample_broadcaster: "n \<le> 32 \<Longrightarrow> has_broadcaster sample_player 0x10000 (effect_row 0x10000 47) n"
  by (simp add: has_broadcaster_def sample_player_words sample_row outside_before)

lemma resurrection_duration_enforced_witness:
  "\<exists>m'. BroadcastDelta (\<lambda>_. []) sample_resurrection 0x10000
       [\<lparr>effect_id = 47, ed_pad1 = 0, expires_at_ms = 512, applied_at_ms = 100, magnitude_data = 0, ed_pad2 = 0\<rparr>]
       sample_player =
     ([\<lparr>effect_id = 47, ed_pad1 = 0, expires_at_ms = 60100, applied_at_ms = 100, magnitude_data = 0, ed_pad2 = 0\<rparr>], m') \<and>
     (read_field m' 0x116A0 0 :: u32) = 60100"
proof -
  let ?p = "\<lparr>effect_id = 47, ed_pad1 = 0, expires_at_ms = 512, applied_at_ms = 100, magnitude_data = 0, ed_pad2 = 0\<rparr>"
  obtain ds' m' where b: "BroadcastDelta (\<lambda>_. []) sample_resurrection 0x10000 [?p] sample_player = (ds', m')"
    by fastforce
  have r: "ResolveResurrectionMs (\<lambda>_. []) sample_resurrection 5 = (\<lambda>_. 60000)"
    using resolve_configured [OF sample_duration(2), of 5] by (simp add: sample_duration(1) fun_eq_iff)
  show ?thesis
    using resurrection_duration_enforced [OF b _ refl] b
    by (simp add: sample_player_words r sample_row override_delta_def mirrored_expiry_def)
qed

lemma resurrected_edit_overridden_witness:
  "\<exists>sent m1. SetEffectExpiry (hooked (\<lambda>_. []) sample_resurrection) 0x10000
      [''lifxSetEffectExpiry'', ''1849'', ''47'', fmt_u (900000 :: u32)] sample_player = (sent, m1) \<and>
    map expires_at_ms sent = [60100] \<and> (read_field m1 0x116A0 0 :: u32) = 60100"
proof -
  obtain sent m1 where s: "SetEffectExpiry (hooked (\<lambda>_. []) sample_resurrection) 0x10000
      [''lifxSetEffectExpiry'', ''1849'', ''47'', fmt_u (900000 :: u32)] sample_player = (sent, m1)"
    by fastforce
  obtain sent2 m2 where e: "ExtendEffect (hooked (\<lambda>_. []) sample_resurrection) 0x10000
      [''lifxSetEffectExpiry'', ''1849'', ''47'', fmt_u (50 :: u32)] sample_player = (sent2, m2)"
    by fastforce
  show ?thesis
    using resurrected_edit_overridden [OF sample_duration(2) _ _ _ _ _ refl refl s e] s
    by (simp add: sample_player_words sample_row sample_duration sample_broadcaster [unfolded sample_row])
qed

lemma cleared_effect_is_removed_witness:
  "\<exists>sent m'. ClearEffect (hooked (\<lambda>_. []) sample_resurrection) 0x10000
      [''lifxClearEffect'', ''1849'', fmt_u (47 :: u32)] sample_player = (sent, m') \<and>
    map (\<lambda>p. (effect_id p, expires_at_ms p)) sent = [(47, 0)] \<and> (read_field m' 0x116A0 4 :: u32) = 100"
proof -
  obtain sent m' where c: "ClearEffect (hooked (\<lambda>_. []) sample_resurrection) 0x10000
      [''lifxClearEffect'', ''1849'', fmt_u (47 :: u32)] sample_player = (sent, m')"
    by fastforce
  have b: "has_broadcaster sample_player 0x10000 (effect_row 0x10000 47) 20" by (rule sample_broadcaster) simp
  have st: "(read_field sample_player (effect_row 0x10000 47) 8 :: u32) = 47"
    by (simp add: sample_row sample_player_words)
  show ?thesis
    using cleared_effect_is_removed [OF b st c] c by (simp add: sample_row sample_player_words)
qed

end
