(* ===== verification/Snapshots.thy ===== *)
theory Snapshots
  imports Script_Args Code_Memory
begin

text \<open>
  The snapshot commands of \<open>source/server/api/lifx_effects.cpp\<close>: the bytes of a character's or a
  player's memory are saved and later compared, word by word, with the live bytes. There is one
  snapshot for both kinds of object. The engine's lookup of a character by identifier is an argument.
\<close>

section \<open>State\<close>

definition kSnapMaxBytes :: u64 where "kSnapMaxBytes = 0x10000"

record snap =
  sn_valid :: bool
  playerAnchored :: bool
  sn_charID :: u32
  startOff :: u64
  endOff :: u64
  sn_bytes :: bytes

definition snap_init :: snap where
  "snap_init = \<lparr>sn_valid = False, playerAnchored = False, sn_charID = 0, startOff = 0, endOff = 0,
     sn_bytes = replicate 0x10000 0\<rparr>"

section \<open>Arguments\<close>

definition ParseCharId :: "string list \<Rightarrow> nat \<Rightarrow> u32" where
  "ParseCharId args slot = (if length args \<le> slot \<or> args ! slot = [] then 0 else strtoul10 (args ! slot))"

text \<open>The optional range: the start is 0 and the end the maximal span when they are not given.\<close>

definition snap_range :: "string list \<Rightarrow> u64 \<times> u64" where
  "snap_range args =
     (if 2 < length args then ucast (strtoul0 (args ! 2)) else 0,
      if 3 < length args then ucast (strtoul0 (args ! 3)) else kSnapMaxBytes)"

definition bad_range :: "u64 \<Rightarrow> u64 \<Rightarrow> bool" where
  "bad_range s e \<longleftrightarrow> e \<le> s \<or> kSnapMaxBytes < e - s"

definition take_snap :: "mem \<Rightarrow> u64 \<Rightarrow> bool \<Rightarrow> u32 \<Rightarrow> u64 \<Rightarrow> u64 \<Rightarrow> snap \<Rightarrow> snap" where
  "take_snap m base anchored charID s e g =
     (let span = unat (e - s)
      in \<lparr>sn_valid = True, playerAnchored = anchored, sn_charID = charID, startOff = s, endOff = e,
          sn_bytes = mread m (base + s) span @ drop span (sn_bytes g)\<rparr>)"

section \<open>Comparing\<close>

type_synonym change = "u64 \<times> u32 \<times> u32"

text \<open>The loop over the words: the changes reported, and whether it stopped at the cap.\<close>

fun diff_loop :: "bytes \<Rightarrow> mem \<Rightarrow> u64 \<Rightarrow> u64 \<Rightarrow> nat \<Rightarrow> nat \<Rightarrow> nat \<Rightarrow> change list \<times> bool" where
  "diff_loop saved m base s i 0 changed = ([], False)"
| "diff_loop saved m base s i (Suc n) changed =
     (let before = (load_le (sub_bytes i 4 saved) :: u32);
          now = (read_field m (base + s) (word_of_nat i) :: u32)
      in if before = now then diff_loop saved m base s (i + 4) n changed
         else if 256 < changed + 1 then ([(s + word_of_nat i, before, now)], True)
         else case diff_loop saved m base s (i + 4) n (changed + 1) of
                (cs, capped) \<Rightarrow> ((s + word_of_nat i, before, now) # cs, capped))"

definition diff_snap :: "mem \<Rightarrow> u64 \<Rightarrow> snap \<Rightarrow> change list \<times> bool" where
  "diff_snap m base g =
     diff_loop (sn_bytes g) m base (startOff g) 0 (unat (endOff g - startOff g) div 4) 0"

section \<open>The commands\<close>

definition SnapshotChar :: "(mem \<Rightarrow> u32 \<Rightarrow> u64) \<Rightarrow> string list \<Rightarrow> mem \<Rightarrow> snap \<Rightarrow> snap" where
  "SnapshotChar getByID args m g =
     (let charID = ParseCharId args 1; (s, e) = snap_range args
      in if charID = 0 then g
         else if bad_range s e then g
         else let ci = getByID m charID
              in if ci = 0 then g else take_snap m ci False charID s e g)"

definition DiffChar :: "(mem \<Rightarrow> u32 \<Rightarrow> u64) \<Rightarrow> mem \<Rightarrow> snap \<Rightarrow> (change list \<times> bool) option" where
  "DiffChar getByID m g =
     (if \<not> sn_valid g then None
      else if playerAnchored g then None
      else let ci = getByID m (sn_charID g)
           in if ci = 0 then None else Some (diff_snap m ci g))"

text \<open>The scan of the character for a pointer to a block that carries the character's identifier.\<close>

fun scan_loop :: "mem \<Rightarrow> u64 \<Rightarrow> u32 \<Rightarrow> u64 \<Rightarrow> nat \<Rightarrow> u64" where
  "scan_loop m ci charID off 0 = 0"
| "scan_loop m ci charID off (Suc n) =
     (let q = (read_field m ci off :: u64);
          selfArenaMin = ci AND NOT 0xFFFFFFFF;
          selfArenaMax = selfArenaMin + 0x100000000
      in if q = 0 \<or> q AND 0xFFFF000000000000 \<noteq> 0
            \<or> q < selfArenaMin \<or> selfArenaMax < q
            \<or> ci \<le> q \<and> q < ci + 0x10000
            \<or> (read_field m q 0x1B44 :: u32) \<noteq> charID
         then scan_loop m ci charID (off + 8) n
         else q)"

definition FindPlayerByScan :: "(mem \<Rightarrow> u32 \<Rightarrow> u64) \<Rightarrow> mem \<Rightarrow> u32 \<Rightarrow> u64" where
  "FindPlayerByScan getByID m charID =
     (let ci = getByID m charID
      in if ci = 0 then 0 else scan_loop m ci charID 0 0x2000)"

definition SnapshotPlayer :: "(mem \<Rightarrow> u32 \<Rightarrow> u64) \<Rightarrow> string list \<Rightarrow> mem \<Rightarrow> snap \<Rightarrow> snap" where
  "SnapshotPlayer getByID args m g =
     (let charID = ParseCharId args 1; (s, e) = snap_range args
      in if charID = 0 then g
         else if bad_range s e then g
         else let player = FindPlayerByScan getByID m charID
              in if player = 0 then g else take_snap m player True charID s e g)"

definition DiffPlayer :: "(mem \<Rightarrow> u32 \<Rightarrow> u64) \<Rightarrow> mem \<Rightarrow> snap \<Rightarrow> (change list \<times> bool) option" where
  "DiffPlayer getByID m g =
     (if \<not> sn_valid g \<or> \<not> playerAnchored g then None
      else let player = FindPlayerByScan getByID m (sn_charID g)
           in if player = 0 then None else Some (diff_snap m player g))"

text \<open>The methods of a player object: the object is the receiver, its identifier the argument before
  the range.\<close>

definition SnapshotPlayerThis :: "u64 \<Rightarrow> string list \<Rightarrow> mem \<Rightarrow> snap \<Rightarrow> snap" where
  "SnapshotPlayerThis obj args m g =
     (let (s, e) = snap_range args
      in if obj = 0 then g
         else if bad_range s e then g
         else take_snap m obj True 0 s e g)"

definition DiffPlayerThis :: "u64 \<Rightarrow> mem \<Rightarrow> snap \<Rightarrow> (change list \<times> bool) option" where
  "DiffPlayerThis obj m g =
     (if obj = 0 then None
      else if \<not> sn_valid g \<or> \<not> playerAnchored g then None
      else Some (diff_snap m obj g))"

section \<open>What a comparison reports\<close>

text \<open>The words that differ between \<open>n\<close> words at \<open>a\<close> in one memory and at \<open>a'\<close> in another, labelled from
  \<open>s\<close> on.\<close>

definition changed_words :: "mem \<Rightarrow> u64 \<Rightarrow> mem \<Rightarrow> u64 \<Rightarrow> u64 \<Rightarrow> nat \<Rightarrow> change list" where
  "changed_words m a m' a' s n =
     filter (\<lambda>(off, before, now). before \<noteq> now)
       (map (\<lambda>k. (s + word_of_nat (4 * k), read_field m a (word_of_nat (4 * k)),
                  read_field m' a' (word_of_nat (4 * k)))) [0..<n])"

definition saved_changes :: "bytes \<Rightarrow> mem \<Rightarrow> u64 \<Rightarrow> u64 \<Rightarrow> nat \<Rightarrow> nat \<Rightarrow> change list" where
  "saved_changes saved m base s i n =
     filter (\<lambda>(off, before, now). before \<noteq> now)
       (map (\<lambda>k. (s + word_of_nat (i + 4 * k), load_le (sub_bytes (i + 4 * k) 4 saved),
                  read_field m (base + s) (word_of_nat (i + 4 * k)))) [0..<n])"

lemma saved_changes_Suc:
  "saved_changes saved m base s i (Suc n) =
     (let before = load_le (sub_bytes i 4 saved); now = read_field m (base + s) (word_of_nat i)
      in (if before \<noteq> now then [(s + word_of_nat i, before, now)] else []) @
         saved_changes saved m base s (i + 4) n)"
proof -
  have "[0..<Suc n] = 0 # map Suc [0..<n]" by (simp add: upt_conv_Cons map_Suc_upt del: upt_Suc)
  then show ?thesis
    by (simp add: saved_changes_def Let_def o_def add.assoc add.commute del: upt_Suc)
qed

lemma diff_loop_changes:
  "changed \<le> 256 \<Longrightarrow> diff_loop saved m base s i n changed =
     (take (257 - changed) (saved_changes saved m base s i n),
      257 - changed \<le> length (saved_changes saved m base s i n))"
proof (induction n arbitrary: i changed)
  case 0
  then show ?case by (simp add: saved_changes_def)
next
  case (Suc n)
  let ?b = "load_le (sub_bytes i 4 saved) :: u32"
  let ?n = "read_field m (base + s) (word_of_nat i) :: u32"
  show ?case
  proof (cases "?b = ?n")
    case True
    then show ?thesis using Suc by (simp add: saved_changes_Suc Let_def)
  next
    case False
    show ?thesis
    proof (cases "changed = 256")
      case True
      then show ?thesis using False by (simp add: saved_changes_Suc Let_def)
    next
      case c: False
      then have le: "changed + 1 \<le> 256" and m: "257 - changed = Suc (257 - (changed + 1))"
        using Suc.prems by simp_all
      show ?thesis using False c Suc.IH [OF le, of "i + 4"] m le
        by (simp add: saved_changes_Suc Let_def)
    qed
  qed
qed

lemma saved_word:
  assumes "i + 4 \<le> span"
  shows "(load_le (sub_bytes i 4 (mread m a span @ rest)) :: u32) = read_field m a (word_of_nat i)"
proof -
  have "mread m a span = mread m a i @ mread m (a + word_of_nat i) 4 @ mread m (a + word_of_nat (i + 4)) (span - (i + 4))"
    using mread_add [of m a i "4 + (span - (i + 4))"] mread_add [of m "a + word_of_nat i" 4 "span - (i + 4)"] assms
    by (simp add: add.assoc)
  then have "sub_bytes i 4 (mread m a span @ rest) = mread m (a + word_of_nat i) 4"
    by (simp add: sub_bytes_def)
  then show ?thesis by (simp add: read_field_def)
qed

lemma saved_changes_snap:
  assumes "i + 4 * n \<le> span"
  shows "saved_changes (mread m (a + s) span @ rest) m' a' s i n =
    filter (\<lambda>(off, before, now). before \<noteq> now)
      (map (\<lambda>k. (s + word_of_nat (i + 4 * k), read_field m (a + s) (word_of_nat (i + 4 * k)),
                 read_field m' (a' + s) (word_of_nat (i + 4 * k)))) [0..<n])"
  unfolding saved_changes_def
  using assms by (intro arg_cong [where f = "filter _"] map_cong refl) (simp add: saved_word)

lemma diff_take_snap:
  "diff_snap m' a' (take_snap m a anchored charID s e g) =
     (let cs = changed_words m (a + s) m' (a' + s) s (unat (e - s) div 4)
      in (take 257 cs, 257 \<le> length cs))"
proof -
  let ?n = "unat (e - s) div 4"
  have "0 + 4 * ?n \<le> unat (e - s)" by simp
  from saved_changes_snap [OF this]
  have "saved_changes (sn_bytes (take_snap m a anchored charID s e g)) m' a' s 0 ?n =
      changed_words m (a + s) m' (a' + s) s ?n"
    by (simp add: take_snap_def Let_def changed_words_def)
  then show ?thesis
    using diff_loop_changes [of 0 "sn_bytes (take_snap m a anchored charID s e g)" m' a' s 0 ?n]
    by (simp add: diff_snap_def take_snap_def Let_def)
qed

lemma take_snap_fields [simp]:
  "sn_valid (take_snap m base anchored charID s e g)"
  "playerAnchored (take_snap m base anchored charID s e g) = anchored"
  "sn_charID (take_snap m base anchored charID s e g) = charID"
  by (simp_all add: take_snap_def Let_def)

text \<open>A comparison after a snapshot reports, in order and with both values, exactly the aligned words
  of the range that differ from the saved ones, up to 257 of them, and says when it stopped there; a
  snapshot of a player is refused by the comparison of characters and the other way round.\<close>

theorem diff_reports_changed_words:
  assumes "snap_range args = (s, e)" "\<not> bad_range s e" "obj \<noteq> 0" "obj' \<noteq> 0"
    and "ParseCharId args 1 = c" "c \<noteq> 0" "getByID m c = ci" "ci \<noteq> 0" "getByID m' c = ci'" "ci' \<noteq> 0"
  shows "DiffPlayerThis obj' m' (SnapshotPlayerThis obj args m g) =
      Some (let cs = changed_words m (obj + s) m' (obj' + s) s (unat (e - s) div 4)
            in (take 257 cs, 257 \<le> length cs)) \<and>
    DiffChar getByID m' (SnapshotChar getByID args m g) =
      Some (let cs = changed_words m (ci + s) m' (ci' + s) s (unat (e - s) div 4)
            in (take 257 cs, 257 \<le> length cs)) \<and>
    DiffChar getByID m' (SnapshotPlayerThis obj args m g) = None \<and>
    DiffPlayerThis obj' m' (SnapshotChar getByID args m g) = None"
  using assms
  by (simp add: SnapshotPlayerThis_def DiffPlayerThis_def SnapshotChar_def DiffChar_def diff_take_snap)

lemma diff_reports_changed_words_witness:
  "DiffPlayerThis 0x1000 ((\<lambda>_. 0)(0x1005 := 3))
     (SnapshotPlayerThis 0x1000 [''lifxSnapshotEffects'', ''1849'', ''0'', ''8''] (\<lambda>_. 0) snap_init) =
   Some ([(4, 0, 0x300)], False)"
proof -
  have r: "snap_range [''lifxSnapshotEffects'', ''1849'', ''0'', ''8''] = (0, 8)" "\<not> bad_range 0 8"
    "ParseCharId [''lifxSnapshotEffects'', ''1849'', ''0'', ''8''] 1 = 1849"
    by code_simp+
  have c: "changed_words (\<lambda>_. 0) 0x1000 ((\<lambda>_. 0)(0x1005 := 3)) 0x1000 0 2 = [(4, 0, 0x300)]"
    by code_simp
  show ?thesis
    using diff_reports_changed_words [OF r(1,2) _ _ r(3), where obj = "0x1000" and obj' = "0x1000" and getByID = "\<lambda>m c. 0x1000"
        and m = "\<lambda>_. 0" and m' = "(\<lambda>_. 0)(0x1005 := 3)" and g = snap_init] c
    by simp
qed

end
