(* ===== verification/Battle_Zones.thy ===== *)
theory Battle_Zones
  imports Script_Args Node_Lists
begin

text \<open>
  Battle zones: \<open>source/server/hooks/battlezone/hook_battlezone_containment.cpp\<close> (the detours that
  decide whether a zone confines the player being moved, the exemptions and the throttled notice) and
  \<open>source/server/api/lifx_battlezone.cpp\<close> (the commands that create, list, arm and disarm zones in the
  engine's list). The engine's accessors of a zone and the effect of an evaluated script on memory
  are arguments.
\<close>

section \<open>Containment\<close>

record containment =
  currentCheckPlayer :: u64
  exempt :: "u32 set"
  lastNotifyMs :: "u32 \<rightharpoonup> u64"

definition containment_init :: containment where
  "containment_init = \<lparr>currentCheckPlayer = 0, exempt = {}, lastNotifyMs = Map.empty\<rparr>"

definition PLAYER_CHARID_OFFSET :: u64 where "PLAYER_CHARID_OFFSET = 0x1B44"
definition NOTIFY_THROTTLE_MS :: u64 where "NOTIFY_THROTTLE_MS = 1500"

definition PlayerCharId :: "mem \<Rightarrow> u64 \<Rightarrow> u32" where
  "PlayerCharId m player = (if player = 0 then 0 else read_field m player PLAYER_CHARID_OFFSET)"

definition ShouldNotify :: "u32 \<Rightarrow> u64 \<Rightarrow> containment \<Rightarrow> bool \<times> containment" where
  "ShouldNotify charId now s =
     (case lastNotifyMs s charId of
        Some t \<Rightarrow>
          if now - t < NOTIFY_THROTTLE_MS then (False, s)
          else (True, s\<lparr>lastNotifyMs := (lastNotifyMs s)(charId \<mapsto> now)\<rparr>)
      | None \<Rightarrow> (True, s\<lparr>lastNotifyMs := (lastNotifyMs s)(charId \<mapsto> now)\<rparr>))"

definition SetExempt :: "u32 \<Rightarrow> bool \<Rightarrow> containment \<Rightarrow> containment" where
  "SetExempt charId ex s =
     s\<lparr>exempt := (if ex then insert charId (exempt s) else exempt s - {charId})\<rparr>"

definition IsExempt :: "u32 \<Rightarrow> containment \<Rightarrow> bool" where
  "IsExempt charId s \<longleftrightarrow> charId \<noteq> 0 \<and> charId \<in> exempt s"

definition contained_statement :: "u32 \<Rightarrow> string" where
  "contained_statement charId = snprintf_out 96 (''LifxBattleZoneOnContained('' @ fmt_u charId @ '');'')"

text \<open>The answer to the engine, and the script evaluated to show the notice.\<close>

definition IsActiveStartingZoneCall ::
  "mem \<Rightarrow> u64 \<Rightarrow> u64 \<Rightarrow> containment \<Rightarrow> (u64 \<times> string option) \<times> containment" where
  "IsActiveStartingZoneCall m orig now s =
     (if orig AND 0xFF = 0 then ((orig, None), s)
      else
        let charId = PlayerCharId m (currentCheckPlayer s)
        in if IsExempt charId s then ((orig AND NOT 0xFF, None), s)
           else if charId \<noteq> 0
           then (case ShouldNotify charId now s of
                   (True, s) \<Rightarrow> ((orig, Some (contained_statement charId)), s)
                 | (False, s) \<Rightarrow> ((orig, None), s))
           else ((orig, None), s))"

text \<open>What the engine does while it checks a player's steps: queries of zones, nested checks, and the
  script commands that change exemptions in between.\<close>

datatype engine_call =
    Check_Steps u64 "engine_call list"
  | Zone_Query u64 u64
  | Exempt_Call u32 bool

fun CheckStepsCall :: "mem \<Rightarrow> engine_call \<Rightarrow> containment \<Rightarrow> (u64 \<times> string option) list \<times> containment"
  and engine_calls :: "mem \<Rightarrow> engine_call list \<Rightarrow> containment \<Rightarrow> (u64 \<times> string option) list \<times> containment"
where
  "CheckStepsCall m (Check_Steps player body) s =
     (let prev = currentCheckPlayer s
      in case engine_calls m body (s\<lparr>currentCheckPlayer := player\<rparr>) of
           (out, s) \<Rightarrow> (out, s\<lparr>currentCheckPlayer := prev\<rparr>))"
| "CheckStepsCall m (Zone_Query orig now) s =
     (case IsActiveStartingZoneCall m orig now s of (a, s) \<Rightarrow> ([a], s))"
| "CheckStepsCall m (Exempt_Call c ex) s = ([], SetExempt c ex s)"
| "engine_calls m [] s = ([], s)"
| "engine_calls m (c # cs) s =
     (case CheckStepsCall m c s of
        (o1, s) \<Rightarrow> (case engine_calls m cs s of (o2, s) \<Rightarrow> (o1 @ o2, s)))"

section \<open>Every query is about the innermost player\<close>

text \<open>The same calls without nesting: each query with the player it is about.\<close>

datatype flat_call = Flat_Query u64 u64 u64 | Flat_Exempt u32 bool

fun flatten :: "u64 \<Rightarrow> engine_call \<Rightarrow> flat_call list" where
  "flatten p (Check_Steps q body) = concat (map (flatten q) body)"
| "flatten p (Zone_Query orig now) = [Flat_Query p orig now]"
| "flatten p (Exempt_Call c ex) = [Flat_Exempt c ex]"

text \<open>The decision for one player, without the variable that remembers whose steps are checked.\<close>

fun flat_step :: "mem \<Rightarrow> flat_call \<Rightarrow> containment \<Rightarrow> (u64 \<times> string option) list \<times> containment" where
  "flat_step m (Flat_Exempt c ex) s = ([], SetExempt c ex s)"
| "flat_step m (Flat_Query p orig now) s =
     (let c = PlayerCharId m p
      in if orig AND 0xFF = 0 then ([(orig, None)], s)
         else if IsExempt c s then ([(orig AND NOT 0xFF, None)], s)
         else if c = 0 \<or> \<not> fst (ShouldNotify c now s) then ([(orig, None)], s)
         else ([(orig, Some (contained_statement c))], snd (ShouldNotify c now s)))"

fun flat_run :: "mem \<Rightarrow> flat_call list \<Rightarrow> containment \<Rightarrow> (u64 \<times> string option) list \<times> containment" where
  "flat_run m [] s = ([], s)"
| "flat_run m (c # cs) s =
     (case flat_step m c s of (o1, s) \<Rightarrow> (case flat_run m cs s of (o2, s) \<Rightarrow> (o1 @ o2, s)))"

lemma flat_run_append:
  "flat_run m (xs @ ys) s =
     (case flat_run m xs s of (o1, s1) \<Rightarrow> (case flat_run m ys s1 of (o2, s2) \<Rightarrow> (o1 @ o2, s2)))"
  by (induction xs arbitrary: s) (simp_all split: prod.splits)

lemma ShouldNotify_player [simp]:
  "fst (ShouldNotify c now (s\<lparr>currentCheckPlayer := p\<rparr>)) = fst (ShouldNotify c now s)"
  "snd (ShouldNotify c now (s\<lparr>currentCheckPlayer := p\<rparr>)) = (snd (ShouldNotify c now s))\<lparr>currentCheckPlayer := p\<rparr>"
  by (auto simp: ShouldNotify_def split: option.splits)

lemma ShouldNotify_keeps_player [simp]: "currentCheckPlayer (snd (ShouldNotify c now s)) = currentCheckPlayer s"
  by (auto simp: ShouldNotify_def split: option.splits)

lemma ShouldNotify_refused: "ShouldNotify c now s = (False, s') \<Longrightarrow> s' = s"
  by (auto simp: ShouldNotify_def split: option.splits if_splits)

lemma flat_step_player:
  "flat_step m c (s\<lparr>currentCheckPlayer := p\<rparr>) =
     (fst (flat_step m c s), (snd (flat_step m c s))\<lparr>currentCheckPlayer := p\<rparr>)"
  by (cases c) (simp_all add: Let_def IsExempt_def SetExempt_def)

lemma flat_run_player:
  "flat_run m cs (s\<lparr>currentCheckPlayer := p\<rparr>) =
     (fst (flat_run m cs s), (snd (flat_run m cs s))\<lparr>currentCheckPlayer := p\<rparr>)"
  by (induction cs arbitrary: s) (simp_all add: flat_step_player split: prod.splits)

lemma flat_step_keeps_player: "currentCheckPlayer (snd (flat_step m c s)) = currentCheckPlayer s"
  by (cases c) (simp_all add: Let_def SetExempt_def)

lemma flat_run_keeps_player: "currentCheckPlayer (snd (flat_run m cs s)) = currentCheckPlayer s"
proof (induction cs arbitrary: s)
  case (Cons c cs)
  obtain o1 s1 o2 s2 where "flat_step m c s = (o1, s1)" "flat_run m cs s1 = (o2, s2)" by fastforce
  then show ?case using Cons.IH [of s1] flat_step_keeps_player [of m c s] by simp
qed simp

lemma query_flat:
  "CheckStepsCall m (Zone_Query orig now) s = flat_run m [Flat_Query (currentCheckPlayer s) orig now] s"
  by (auto simp: IsActiveStartingZoneCall_def Let_def dest: ShouldNotify_refused split: prod.splits bool.splits)

lemma check_steps_flat:
  "CheckStepsCall m c s = flat_run m (flatten (currentCheckPlayer s) c) s"
  "engine_calls m cs s = flat_run m (concat (map (flatten (currentCheckPlayer s)) cs)) s"
proof (induction m c s and m cs s rule: CheckStepsCall_engine_calls.induct)
  case (1 m player body s)
  let ?f = "flat_run m (concat (map (flatten player) body)) s"
  have "engine_calls m body (s\<lparr>currentCheckPlayer := player\<rparr>) =
      (fst ?f, (snd ?f)\<lparr>currentCheckPlayer := player\<rparr>)"
    using "1.IH" [OF refl] by (simp add: flat_run_player)
  moreover have "(snd ?f)\<lparr>currentCheckPlayer := currentCheckPlayer s\<rparr> = snd ?f"
    using flat_run_keeps_player [of m "concat (map (flatten player) body)" s] by simp
  ultimately show ?case by (simp add: Let_def)
next
  case (2 m orig now s)
  then show ?case by (simp only: query_flat flatten.simps)
next
  case (3 m c ex s)
  then show ?case by simp
next
  case (4 m s)
  then show ?case by simp
next
  case (5 m c cs s)
  let ?p = "currentCheckPlayer s"
  obtain o1 s1 where 1: "CheckStepsCall m c s = (o1, s1)" by fastforce
  have p: "currentCheckPlayer s1 = ?p"
    using flat_run_keeps_player [of m "flatten ?p c" s] unfolding "5.IH"(1) [symmetric] 1 by simp
  show ?case
    using 1 p "5.IH"(1) "5.IH"(2) [OF 1 [symmetric]]
    by (simp add: flat_run_append split: prod.splits)
qed

text \<open>C35: Whatever the engine nests inside a check of a player's steps, the answers and notices of the
  detours are those of the same queries asked one after the other, each decided for the innermost
  player whose steps are checked; afterwards the remembered player is the one from before.\<close>

theorem nested_checks_decide_for_innermost_player:
  "CheckStepsCall m c s = flat_run m (flatten (currentCheckPlayer s) c) s \<and>
   currentCheckPlayer (snd (CheckStepsCall m c s)) = currentCheckPlayer s"
  by (simp add: check_steps_flat flat_run_keeps_player)

section \<open>Notices are throttled\<close>

fun asked :: "flat_call \<Rightarrow> (u64 \<times> u64) list" where
  "asked (Flat_Query p orig now) = [(p, now)]"
| "asked (Flat_Exempt c ex) = []"

definition questions :: "u64 \<Rightarrow> engine_call \<Rightarrow> (u64 \<times> u64) list" where
  "questions p c = concat (map asked (flatten p c))"

text \<open>The notices among the answers to the questions: to which character, and when.\<close>

definition notices_among :: "mem \<Rightarrow> (u64 \<times> u64) list \<Rightarrow> (u64 \<times> string option) list \<Rightarrow> (u32 \<times> u64) list" where
  "notices_among m qs as =
     map (\<lambda>((p, now), a). (PlayerCharId m p, now)) (filter (\<lambda>(q, a). snd a \<noteq> None) (zip qs as))"

definition notices :: "mem \<Rightarrow> engine_call \<Rightarrow> containment \<Rightarrow> (u32 \<times> u64) list" where
  "notices m c s = notices_among m (questions (currentCheckPlayer s) c) (fst (CheckStepsCall m c s))"

text \<open>Two notices to one character are a throttle interval apart.\<close>

definition spaced :: "u32 \<times> u64 \<Rightarrow> u32 \<times> u64 \<Rightarrow> bool" where
  "spaced a b \<longleftrightarrow> (fst a = fst b \<longrightarrow> unat (snd a) + 1500 \<le> unat (snd b))"

definition notify_ok :: "containment \<Rightarrow> u32 \<times> u64 \<Rightarrow> bool" where
  "notify_ok s a \<longleftrightarrow> (\<forall>t. lastNotifyMs s (fst a) = Some t \<longrightarrow> unat t + 1500 \<le> unat (snd a))"

definition past :: "containment \<Rightarrow> u64 \<Rightarrow> bool" where
  "past s now \<longleftrightarrow> (\<forall>t \<in> ran (lastNotifyMs s). t \<le> now)"

lemma notices_among_append:
  "length qs = length as \<Longrightarrow>
   notices_among m (qs @ qs') (as @ as') = notices_among m qs as @ notices_among m qs' as'"
  by (simp add: notices_among_def)

lemma flat_step_length: "length (fst (flat_step m c s)) = length (asked c)"
  by (cases c) (simp_all add: Let_def)

lemma throttle_interval:
  fixes t now :: u64
  assumes "t \<le> now" "\<not> now - t < NOTIFY_THROTTLE_MS"
  shows "unat t + 1500 \<le> unat now"
proof -
  have "unat (1500 :: u64) \<le> unat (now - t)"
    using assms(2) by (simp add: NOTIFY_THROTTLE_MS_def word_le_nat_alt not_less)
  moreover have "unat (now - t) = unat now - unat t" using assms(1) by (rule unat_sub)
  moreover have "unat t \<le> unat now" using assms(1) by (simp add: word_le_nat_alt)
  ultimately show ?thesis by simp
qed

lemma ShouldNotify_accepted:
  assumes "ShouldNotify c now s = (True, s')" and "past s now"
  shows "s' = s\<lparr>lastNotifyMs := (lastNotifyMs s)(c \<mapsto> now)\<rparr>" "notify_ok s (c, now)" "past s' now"
proof -
  show s': "s' = s\<lparr>lastNotifyMs := (lastNotifyMs s)(c \<mapsto> now)\<rparr>"
    using assms(1) by (auto simp: ShouldNotify_def split: option.splits if_splits)
  show "past s' now" using assms(2) by (auto simp: s' past_def ran_def)
  show "notify_ok s (c, now)"
    using assms throttle_interval
    by (auto simp: ShouldNotify_def notify_ok_def past_def ran_def split: if_splits)
qed

lemma past_later: "past s now \<Longrightarrow> now \<le> now' \<Longrightarrow> past s now'"
  by (auto simp: past_def intro: order_trans)

lemma flat_step_notices:
  assumes "\<And>q. q \<in> set (asked c) \<Longrightarrow> past s (snd q)"
  shows "(notices_among m (asked c) (fst (flat_step m c s)) = [] \<and>
            lastNotifyMs (snd (flat_step m c s)) = lastNotifyMs s) \<or>
         (\<exists>a. notices_among m (asked c) (fst (flat_step m c s)) = [a] \<and> notify_ok s a \<and>
            lastNotifyMs (snd (flat_step m c s)) = (lastNotifyMs s)(fst a \<mapsto> snd a) \<and>
            snd a \<in> snd ` set (asked c))"
proof (cases c)
  case (Flat_Exempt ch ex)
  then show ?thesis by (simp add: notices_among_def SetExempt_def)
next
  case (Flat_Query p orig now)
  let ?c = "PlayerCharId m p"
  obtain b s' where n: "ShouldNotify ?c now s = (b, s')" by fastforce
  have "b \<Longrightarrow> s' = s\<lparr>lastNotifyMs := (lastNotifyMs s)(?c \<mapsto> now)\<rparr>" "b \<Longrightarrow> notify_ok s (?c, now)"
    using ShouldNotify_accepted [of ?c now s s'] n assms by (auto simp: Flat_Query)
  then show ?thesis using n by (auto simp: Flat_Query Let_def notices_among_def)
qed

lemma flat_run_notices:
  assumes "sorted (map snd (concat (map asked cs)))"
    and "\<And>q. q \<in> set (concat (map asked cs)) \<Longrightarrow> past s (snd q)"
  shows "sorted_wrt spaced (notices_among m (concat (map asked cs)) (fst (flat_run m cs s))) \<and>
    list_all (notify_ok s) (notices_among m (concat (map asked cs)) (fst (flat_run m cs s)))"
  using assms
proof (induction cs arbitrary: s)
  case Nil
  then show ?case by (simp add: notices_among_def)
next
  case (Cons c cs)
  obtain o1 s1 o2 s2 where st: "flat_step m c s = (o1, s1)" "flat_run m cs s1 = (o2, s2)" by fastforce
  let ?n1 = "notices_among m (asked c) o1" and ?n2 = "notices_among m (concat (map asked cs)) o2"
  have split: "notices_among m (concat (map asked (c # cs))) (fst (flat_run m (c # cs) s)) = ?n1 @ ?n2"
    using flat_step_length [of m c s] st by (simp add: notices_among_append)
  have so: "sorted (map snd (concat (map asked cs)))"
    "\<And>t t'. t \<in> snd ` set (asked c) \<Longrightarrow> t' \<in> snd ` set (concat (map asked cs)) \<Longrightarrow> t \<le> t'"
    using Cons.prems(1) by (auto simp: sorted_append)
  have in_c: "\<And>q. q \<in> set (asked c) \<Longrightarrow> past s (snd q)" using Cons.prems(2) by simp
  note step = flat_step_notices [where c = c and s = s and m = m, OF in_c, unfolded st fst_conv snd_conv]
  consider (none) "?n1 = []" "lastNotifyMs s1 = lastNotifyMs s"
    | (one) a where "?n1 = [a]" "notify_ok s a" "lastNotifyMs s1 = (lastNotifyMs s)(fst a \<mapsto> snd a)"
        "snd a \<in> snd ` set (asked c)"
    using step by blast
  then show ?case
  proof cases
    case none
    have "past s1 (snd q)" if "q \<in> set (concat (map asked cs))" for q
      using Cons.prems(2) [of q] that none(2) by (simp add: past_def)
    from Cons.IH [OF so(1) this] show ?thesis using none st(2) unfolding split
      by (simp add: notify_ok_def)
  next
    case one
    have "past s1 (snd q)" if q: "q \<in> set (concat (map asked cs))" for q
    proof -
      have "snd a \<le> snd q" using so(2) [OF one(4) imageI [OF q]] .
      then show ?thesis using Cons.prems(2) [of q] q one(3) by (auto simp: past_def ran_def split: if_splits)
    qed
    from Cons.IH [OF so(1) this] have
      ih: "sorted_wrt spaced ?n2" "list_all (notify_ok s1) ?n2" using st(2) by simp_all
    have later: "notify_ok s1 b \<Longrightarrow> spaced a b \<and> notify_ok s b" for b
      using one(2,3) by (cases "fst b = fst a") (auto simp: notify_ok_def spaced_def)
    show ?thesis using ih later one unfolding split by (auto simp: list_all_iff)
  qed
qed

text \<open>While the clock does not run backwards, two notices to the same character are at least 1500
  milliseconds apart, however the queries are nested and whatever characters they are about.\<close>

theorem notices_are_throttled:
  assumes "sorted (map snd (questions (currentCheckPlayer s) c))" and "lastNotifyMs s = Map.empty"
  shows "sorted_wrt spaced (notices m c s)"
  using flat_run_notices [of "flatten (currentCheckPlayer s) c" s m] assms
  by (simp add: notices_def questions_def check_steps_flat past_def)

lemma notices_are_throttled_witness:
  "notices (\<lambda>_. 7)
     (Check_Steps 0x5000
        [Zone_Query 1 1000, Exempt_Call 8 True, Check_Steps 0x6000 [Zone_Query 1 1000], Zone_Query 1 2499,
         Zone_Query 1 2500]) containment_init = [(0x07070707, 1000), (0x07070707, 2500)] \<and>
   sorted_wrt spaced [(0x07070707, 1000), (0x07070707, 2500)]"
proof -
  let ?c = "Check_Steps 0x5000
        [Zone_Query 1 1000, Exempt_Call 8 True, Check_Steps 0x6000 [Zone_Query 1 1000], Zone_Query 1 2499,
         Zone_Query 1 2500]"
  have "PlayerCharId (\<lambda>_. 7) 0x5000 = 0x07070707" "PlayerCharId (\<lambda>_. 7) 0x6000 = 0x07070707"
    by code_simp+
  then have n: "notices (\<lambda>_. 7) ?c containment_init = [(0x07070707, 1000), (0x07070707, 2500)]"
    by (simp add: notices_def notices_among_def questions_def IsActiveStartingZoneCall_def ShouldNotify_def
        IsExempt_def SetExempt_def containment_init_def NOTIFY_THROTTLE_MS_def)
  have "sorted (map snd (questions (currentCheckPlayer containment_init) ?c))"
    by (simp add: questions_def)
  from notices_are_throttled [OF this, of "\<lambda>_. 7"] show ?thesis
    by (simp add: n) (simp add: containment_init_def)
qed

end
