(* ===== verification/Zone_Commands.thy ===== *)
theory Zone_Commands
  imports Battle_Zones
begin

text \<open>
  The battle-zone commands of \<open>source/server/api/lifx_battlezone.cpp\<close>: zones are created and deleted by
  statements evaluated in the engine, and read and armed in the engine's list of zones. The effect of
  a statement on memory and the engine's accessors of a zone are arguments.
\<close>

section \<open>Zones in memory\<close>

definition LANDS_MANAGER_SINGLETON :: u64 where "LANDS_MANAGER_SINGLETON = 0xB62F68"
definition BZ_SUBTYPE_OFFSET :: u64 where "BZ_SUBTYPE_OFFSET = 0x30"
definition BZ_ACTIVE_OFFSET :: u64 where "BZ_ACTIVE_OFFSET = 0x34"
definition BZ_GEO_SUBOBJ :: u64 where "BZ_GEO_SUBOBJ = 0x18"
definition BZ_LIST_HEAD_OFFSET :: u64 where "BZ_LIST_HEAD_OFFSET = 0x2F0"

text \<open>The accessors fill a buffer of the caller and return a pointer: the pointer, and the memory it is
  to be read in.\<close>

record zone_accessors =
  GetIdHolder :: "mem \<Rightarrow> u64 \<Rightarrow> u64 \<times> mem"
  GetGeoIdPtr :: "mem \<Rightarrow> u64 \<Rightarrow> u64 \<times> mem"
  GetRadius :: "mem \<Rightarrow> u64 \<Rightarrow> u32"

definition LandsManager :: "mem \<Rightarrow> u64 \<Rightarrow> u64" where
  "LandsManager m base = read_field m base LANDS_MANAGER_SINGLETON"

definition BattleZoneId :: "zone_accessors \<Rightarrow> mem \<Rightarrow> u64 \<Rightarrow> u32" where
  "BattleZoneId api m land =
     (case GetIdHolder api m land of (holder, m') \<Rightarrow> if holder = 0 then 0 else read_field m' holder 4)"

definition BattleZoneGeoId :: "zone_accessors \<Rightarrow> mem \<Rightarrow> u64 \<Rightarrow> u32" where
  "BattleZoneGeoId api m land =
     (case GetGeoIdPtr api m (land + BZ_GEO_SUBOBJ) of (p, m') \<Rightarrow> if p \<noteq> 0 then read_field m' p 0 else 0)"

definition BattleZoneRadius :: "zone_accessors \<Rightarrow> mem \<Rightarrow> u64 \<Rightarrow> u32" where
  "BattleZoneRadius api m land = GetRadius api m (land + BZ_GEO_SUBOBJ)"

definition BattleZoneType :: "mem \<Rightarrow> u64 \<Rightarrow> u32" where
  "BattleZoneType m land = read_field m land BZ_SUBTYPE_OFFSET"

definition BattleZoneActive :: "mem \<Rightarrow> u64 \<Rightarrow> u8" where
  "BattleZoneActive m land = read_field m land BZ_ACTIVE_OFFSET"

text \<open>The zones a traversal of the list visits, at most 100000 nodes.\<close>

definition ForEachBattleZone :: "mem \<Rightarrow> u64 \<Rightarrow> u64 list" where
  "ForEachBattleZone m base =
     (let mgr = LandsManager m base
      in if mgr = 0 then []
         else
           let sentinel = (read_field m mgr BZ_LIST_HEAD_OFFSET :: u64)
           in if sentinel = 0 then []
              else filter (\<lambda>land. land \<noteq> 0)
                     (map (\<lambda>node. read_field m node (3 * 8)) (walk m sentinel (read_field m sentinel 0) 100000)))"

definition FindBattleZoneById :: "zone_accessors \<Rightarrow> mem \<Rightarrow> u64 \<Rightarrow> u32 \<Rightarrow> u64" where
  "FindBattleZoneById api m base landId =
     foldl (\<lambda>found land. if found = 0 \<and> BattleZoneId api m land = landId then land else found) 0
       (ForEachBattleZone m base)"

section \<open>The commands\<close>

definition name_char :: "char \<Rightarrow> bool" where
  "name_char c \<longleftrightarrow>
     (let n = (of_char c :: nat)
      in 48 \<le> n \<and> n \<le> 57 \<or> 65 \<le> n \<and> n \<le> 90 \<or> 97 \<le> n \<and> n \<le> 122
         \<or> c = CHR '' '' \<or> c = CHR ''_'' \<or> c = CHR ''-'')"

fun sanitize_loop :: "string \<Rightarrow> string \<Rightarrow> string" where
  "sanitize_loop out [] = out"
| "sanitize_loop out (c # cs) =
     (if length out < 64 then sanitize_loop (if name_char c then out @ [c] else out) cs else out)"

definition SanitizeName :: "string \<Rightarrow> string" where
  "SanitizeName raw = sanitize_loop [] raw"

definition create_statement :: "u32 \<Rightarrow> u32 \<Rightarrow> u32 \<Rightarrow> string \<Rightarrow> string" where
  "create_statement zone_type geoId radius name =
     ''createBattleZone('' @ fmt_u zone_type @ '', '' @ fmt_u geoId @ '', '' @ fmt_u radius @ '', '' @
     [CHR 0x22] @ name @ [CHR 0x22] @ '');''"

text \<open>The read-back: the largest identifier among all zones, and among those at the position.\<close>

definition newest_step ::
  "zone_accessors \<Rightarrow> mem \<Rightarrow> u32 \<Rightarrow> u32 option \<times> u32 option \<Rightarrow> u64 \<Rightarrow> u32 option \<times> u32 option" where
  "newest_step api m geoId best land =
     (let (bestAny, bestAtGeo) = best; zid = BattleZoneId api m land
      in (if bestAny = None \<or> the bestAny < zid then Some zid else bestAny,
          if BattleZoneGeoId api m land = geoId \<and> (bestAtGeo = None \<or> the bestAtGeo < zid)
          then Some zid else bestAtGeo))"

definition newest_zone :: "zone_accessors \<Rightarrow> mem \<Rightarrow> u64 \<Rightarrow> u32 \<Rightarrow> u32" where
  "newest_zone api m base geoId =
     (case foldl (newest_step api m geoId) (None, None) (ForEachBattleZone m base) of
        (_, Some g) \<Rightarrow> g
      | (Some a, None) \<Rightarrow> a
      | (None, None) \<Rightarrow> - 1)"

text \<open>The statement evaluated, the memory after it, and the answer.\<close>

definition CreateBattleZone ::
  "(string \<Rightarrow> mem \<Rightarrow> mem) \<Rightarrow> zone_accessors \<Rightarrow> u64 \<Rightarrow> string list \<Rightarrow> mem \<Rightarrow> string option \<times> mem \<times> int" where
  "CreateBattleZone evaluate api base args m =
     (if length args < 5 then (None, m, -1)
      else
        let zone_type = strtoul0 (args ! 1); geoId = strtoul0 (args ! 2); radius = strtoul0 (args ! 3);
            name = SanitizeName (args ! 4)
        in if radius = 0 then (None, m, -1)
           else
             let cmd = snprintf_out 160 (create_statement zone_type geoId radius name);
                 m' = evaluate cmd m
             in (Some cmd, m', sint (newest_zone api m' base geoId)))"

definition DeleteBattleZone :: "(string \<Rightarrow> mem \<Rightarrow> mem) \<Rightarrow> string list \<Rightarrow> mem \<Rightarrow> mem" where
  "DeleteBattleZone evaluate args m =
     (if length args < 2 then m
      else evaluate (snprintf_out 64 (''deleteBattleZone('' @ fmt_u (strtoul0 (args ! 1)) @ '');'')) m)"

definition PrintBattleZones :: "(string \<Rightarrow> mem \<Rightarrow> mem) \<Rightarrow> mem \<Rightarrow> mem" where
  "PrintBattleZones evaluate m = evaluate ''printBattleZones();'' m"

definition zone_row :: "zone_accessors \<Rightarrow> mem \<Rightarrow> u64 \<Rightarrow> string" where
  "zone_row api m land =
     fmt_u (BattleZoneId api m land) @ '' '' @ fmt_u (BattleZoneGeoId api m land) @ '' '' @
     fmt_u (BattleZoneRadius api m land) @ '' '' @ fmt_u (BattleZoneType m land) @ '' '' @
     fmt_u (BattleZoneActive m land) @ [CHR 0x0A]"

definition GetBattleZones :: "zone_accessors \<Rightarrow> u64 \<Rightarrow> mem \<Rightarrow> string" where
  "GetBattleZones api base m =
     foldl (\<lambda>out land. out @ snprintf_out 96 (zone_row api m land)) [] (ForEachBattleZone m base)"

definition SetBattleZoneActive :: "zone_accessors \<Rightarrow> u64 \<Rightarrow> string list \<Rightarrow> mem \<Rightarrow> mem" where
  "SetBattleZoneActive api base args m =
     (if length args < 3 then m
      else
        let landId = strtoul0 (args ! 1); active = strtol0 (args ! 2) \<noteq> 0;
            land = FindBattleZoneById api m base landId
        in if land = 0 then m
           else
             let m1 = (if active then write_field m land BZ_SUBTYPE_OFFSET (1 :: u32) else m)
             in write_field m1 land BZ_ACTIVE_OFFSET (if active then 1 else 0 :: u8))"

definition SetBattleZoneExempt :: "string list \<Rightarrow> containment \<Rightarrow> containment" where
  "SetBattleZoneExempt args s =
     (if length args < 3 then s else SetExempt (strtoul0 (args ! 1)) (strtol0 (args ! 2) \<noteq> 0) s)"

section \<open>Statements are well formed\<close>

lemma sanitize_loop_eq:
  "length out \<le> 64 \<Longrightarrow> sanitize_loop out cs = take 64 (out @ filter name_char cs)"
proof (induction cs arbitrary: out)
  case (Cons c cs)
  show ?case
  proof (cases "length out < 64")
    case True
    then show ?thesis using Cons.IH [of "out @ [c]"] Cons.IH [of out] by simp
  next
    case False
    then show ?thesis using Cons.prems by simp
  qed
qed simp

lemma SanitizeName_eq: "SanitizeName raw = take 64 (filter name_char raw)"
  by (simp add: SanitizeName_def sanitize_loop_eq)

lemma SanitizeName_chars: "c \<in> set (SanitizeName raw) \<Longrightarrow> name_char c"
  by (auto simp: SanitizeName_eq dest: in_set_takeD)

lemma create_statement_fits: "length (create_statement t g r (SanitizeName raw)) < 160"
  using length_fmt_u32 [of t] length_fmt_u32 [of g] length_fmt_u32 [of r]
  by (simp add: create_statement_def SanitizeName_eq)

text \<open>Whatever arguments the command is given, the statement it evaluates is never cut by its buffer,
  and the name in it consists of at most 64 letters, digits, blanks, underscores and hyphens, so that
  a name cannot end the quoted text or add a statement. Names within these limits are kept whole, and
  a radius of zero creates nothing.\<close>

theorem created_statement_is_well_formed:
  "case CreateBattleZone evaluate api base [cmd, t, g, r, raw] m of (st, m', answer) \<Rightarrow>
     (if strtoul0 r = 0 then st = None \<and> m' = m \<and> answer = -1
      else
        \<exists>name. st = Some (create_statement (strtoul0 t) (strtoul0 g) (strtoul0 r) name) \<and>
          m' = evaluate (create_statement (strtoul0 t) (strtoul0 g) (strtoul0 r) name) m \<and>
          length name \<le> 64 \<and> list_all name_char name \<and>
          (length raw \<le> 64 \<and> list_all name_char raw) = (name = raw))"
proof -
  have "(length raw \<le> 64 \<and> list_all name_char raw) = (SanitizeName raw = raw)"
  proof
    assume n: "SanitizeName raw = raw"
    have "length (SanitizeName raw) \<le> 64" by (simp add: SanitizeName_eq)
    then have "length raw \<le> 64" by (simp only: n)
    moreover have "list_all name_char raw"
      using SanitizeName_chars [of _ raw] by (simp add: n list_all_iff)
    ultimately show "length raw \<le> 64 \<and> list_all name_char raw" by simp
  next
    assume "length raw \<le> 64 \<and> list_all name_char raw"
    then show "SanitizeName raw = raw" by (simp add: SanitizeName_eq list_all_iff filter_id_conv)
  qed
  moreover have "length (SanitizeName raw) \<le> 64" by (simp add: SanitizeName_eq)
  moreover have "list_all name_char (SanitizeName raw)" by (simp add: list_all_iff SanitizeName_chars)
  ultimately show ?thesis
    by (simp add: CreateBattleZone_def Let_def create_statement_fits)
       (intro impI exI [of _ "SanitizeName raw"] conjI; simp)
qed

section \<open>The answer of a creation\<close>

definition ids_at :: "zone_accessors \<Rightarrow> mem \<Rightarrow> u64 \<Rightarrow> u32 \<Rightarrow> u32 set" where
  "ids_at api m base geoId =
     BattleZoneId api m ` {z \<in> set (ForEachBattleZone m base). BattleZoneGeoId api m z = geoId}"

definition max_opt :: "u32 set \<Rightarrow> u32 option" where
  "max_opt S = (if S = {} then None else Some (Max S))"

lemma max_opt_insert:
  "finite S \<Longrightarrow> (if max_opt S = None \<or> the (max_opt S) < z then Some z else max_opt S) = max_opt (insert z S)"
  by (cases "S = {}") (auto simp: max_opt_def max_def simp del: Max_less_iff)

lemma newest_fold:
  "foldl (newest_step api m g) (max_opt A, max_opt G) ls =
     (max_opt (A \<union> BattleZoneId api m ` set ls),
      max_opt (G \<union> BattleZoneId api m ` {z \<in> set ls. BattleZoneGeoId api m z = g}))"
  if "finite A" "finite G"
  using that
proof (induction ls arbitrary: A G)
  case (Cons l ls)
  let ?z = "BattleZoneId api m l"
  let ?G = "if BattleZoneGeoId api m l = g then insert ?z G else G"
  have "newest_step api m g (max_opt A, max_opt G) l = (max_opt (insert ?z A), max_opt ?G)"
    using max_opt_insert [OF Cons.prems(1), of ?z] max_opt_insert [OF Cons.prems(2), of ?z]
    by (auto simp: newest_step_def Let_def)
  moreover have "?G \<union> BattleZoneId api m ` {z \<in> set ls. BattleZoneGeoId api m z = g} =
      G \<union> BattleZoneId api m ` {z \<in> set (l # ls). BattleZoneGeoId api m z = g}"
    by auto
  ultimately show ?case using Cons.IH [of "insert ?z A" ?G] Cons.prems by simp
qed simp

lemma newest_zone_max:
  "newest_zone api m base geoId =
     (if ids_at api m base geoId \<noteq> {} then Max (ids_at api m base geoId)
      else if ForEachBattleZone m base \<noteq> [] then Max (BattleZoneId api m ` set (ForEachBattleZone m base))
      else -1)"
  using newest_fold [of "{}" "{}" api m geoId "ForEachBattleZone m base"]
  by (auto simp: newest_zone_def max_opt_def ids_at_def)

text \<open>When the engine carries out the creation, that is when its list then holds a zone at the
  requested position with the largest identifier there (identifiers are given out in ascending
  order), the command answers with that zone's identifier.\<close>

theorem creation_answers_new_zone:
  fixes t g r :: u32
  assumes "CreateBattleZone evaluate api base [cmd, fmt_u t, fmt_u g, fmt_u r, raw] m = (Some st, m', answer)"
    and "z \<in> set (ForEachBattleZone m' base)" and "BattleZoneGeoId api m' z = g"
    and "\<And>y. y \<in> set (ForEachBattleZone m' base) \<Longrightarrow> BattleZoneGeoId api m' y = g \<Longrightarrow>
               BattleZoneId api m' y \<le> BattleZoneId api m' z"
  shows "answer = sint (BattleZoneId api m' z)"
proof -
  have "Max (ids_at api m' base g) = BattleZoneId api m' z"
    using assms(2-4) by (intro Max_eqI) (auto simp: ids_at_def)
  moreover have "ids_at api m' base g \<noteq> {}" using assms(2,3) by (auto simp: ids_at_def)
  ultimately show ?thesis
    using assms(1) by (auto simp: CreateBattleZone_def Let_def strtoul0_fmt_u newest_zone_max split: if_splits)
qed

text \<open>C31: When the engine refuses the creation and any zone exists, the command does not answer \<open>-1\<close>
  but with the identifier of a zone that was there before.\<close>

theorem refused_creation_answers_old_zone:
  fixes t g r :: u32
  assumes "\<And>st. evaluate st m = m" and "ForEachBattleZone m base \<noteq> []" and "r \<noteq> 0"
    and "CreateBattleZone evaluate api base [cmd, fmt_u t, fmt_u g, fmt_u r, raw] m = (st, m', answer)"
  shows "m' = m \<and> (\<exists>z \<in> set (ForEachBattleZone m base). answer = sint (BattleZoneId api m z))"
proof -
  let ?S = "if ids_at api m base g \<noteq> {} then ids_at api m base g
      else BattleZoneId api m ` set (ForEachBattleZone m base)"
  have "newest_zone api m base g = Max ?S" using assms(2) by (simp add: newest_zone_max)
  moreover have "m' = m" "answer = sint (newest_zone api m' base g)"
    using assms(1,3,4) by (auto simp: CreateBattleZone_def Let_def strtoul0_fmt_u)
  ultimately have answer: "answer = sint (Max ?S)" and same: "m' = m" by (simp_all only:)
  have "Max ?S \<in> ?S" using assms(2) by (intro Max_in) (auto simp: ids_at_def)
  moreover have "?S \<subseteq> BattleZoneId api m ` set (ForEachBattleZone m base)" by (auto simp: ids_at_def)
  ultimately obtain z where "z \<in> set (ForEachBattleZone m base)" "Max ?S = BattleZoneId api m z" by blast
  then show ?thesis unfolding answer by (intro conjI same bexI) simp_all
qed

section \<open>Listing and arming\<close>

fun split_on :: "char \<Rightarrow> string \<Rightarrow> string list" where
  "split_on c [] = [[]]"
| "split_on c (x # xs) =
     (if x = c then [] # split_on c xs
      else case split_on c xs of [] \<Rightarrow> [[x]] | y # ys \<Rightarrow> (x # y) # ys)"

text \<open>How a script takes the list apart: records end with a line feed, words are separated by a blank.\<close>

definition parse_rows :: "string \<Rightarrow> u32 list list" where
  "parse_rows s = map (\<lambda>row. map strtoul0 (split_on (CHR '' '') row)) (butlast (split_on (CHR 0x0A) s))"

lemma split_on_plain: "c \<notin> set xs \<Longrightarrow> split_on c xs = [xs]"
  by (induction xs) auto

lemma split_on_append: "c \<notin> set xs \<Longrightarrow> split_on c (xs @ c # ys) = xs # split_on c ys"
  by (induction xs) auto

lemma split_on_nonempty: "split_on c xs \<noteq> []"
  by (induction xs) (auto split: list.splits)

lemma fmt_u_no_separator: "CHR '' '' \<notin> set (fmt_u w)" "CHR 0x0A \<notin> set (fmt_u w)"
  using dec_digits [of "unat w"] by (auto simp: fmt_u_def list_all_iff is_digit_def)

lemma length_fmt_u8: "length (fmt_u (w :: u8)) \<le> 3"
proof -
  have "unat w < 10 ^ 3" by (rule less_le_trans [OF unsigned_less]) simp
  then show ?thesis by (simp add: fmt_u_def length_dec)
qed

lemma zone_row_fits: "length (zone_row api m land) < 96"
  using length_fmt_u32 [of "BattleZoneId api m land"] length_fmt_u32 [of "BattleZoneGeoId api m land"]
    length_fmt_u32 [of "BattleZoneRadius api m land"] length_fmt_u32 [of "BattleZoneType m land"]
    length_fmt_u8 [of "BattleZoneActive m land"]
  by (simp add: zone_row_def)

lemma GetBattleZones_rows: "GetBattleZones api base m = concat (map (zone_row api m) (ForEachBattleZone m base))"
proof -
  have "foldl (\<lambda>out land. out @ snprintf_out 96 (zone_row api m land)) out ls =
      out @ concat (map (zone_row api m) ls)" for out ls
    by (induction ls arbitrary: out) (simp_all add: zone_row_fits)
  then show ?thesis by (simp add: GetBattleZones_def)
qed

lemma fmt_u_u8: "fmt_u (w :: u8) = fmt_u (ucast w :: u32)"
proof -
  have "unat w < 2 ^ 32" by (rule less_le_trans [OF unsigned_less]) simp
  then show ?thesis by (simp add: fmt_u_def unsigned_ucast_eq take_bit_nat_eq_self)
qed

text \<open>The list of zones handed to scripts is never cut and read back, record by record and word by
  word, gives the identifier, position, radius, type and state of every zone in the order of the
  engine's list.\<close>

theorem zone_list_parses_back:
  "parse_rows (GetBattleZones api base m) =
     map (\<lambda>z. [BattleZoneId api m z, BattleZoneGeoId api m z, BattleZoneRadius api m z,
               BattleZoneType m z, ucast (BattleZoneActive m z)]) (ForEachBattleZone m base)"
proof -
  let ?f = "\<lambda>z. [BattleZoneId api m z, BattleZoneGeoId api m z, BattleZoneRadius api m z,
               BattleZoneType m z, ucast (BattleZoneActive m z)]"
  let ?row = "\<lambda>z. butlast (zone_row api m z)"
  have row: "zone_row api m z = ?row z @ [CHR 0x0A]" "CHR 0x0A \<notin> set (?row z)" for z
    by (simp_all add: zone_row_def butlast_append fmt_u_no_separator)
  have words: "map strtoul0 (split_on (CHR '' '') (?row z)) = ?f z" for z
    by (simp add: zone_row_def butlast_append fmt_u_no_separator split_on_append split_on_plain strtoul0_fmt_u)
       (simp add: fmt_u_u8 strtoul0_fmt_u)
  have "split_on (CHR 0x0A) (concat (map (zone_row api m) ls)) = map ?row ls @ [[]]" for ls
  proof (induction ls)
    case (Cons l ls)
    have "concat (map (zone_row api m) (l # ls)) = ?row l @ CHR 0x0A # concat (map (zone_row api m) ls)"
      using row(1) [of l] by simp
    then show ?case using Cons by (simp only: split_on_append [OF row(2)]) simp
  qed simp
  then show ?thesis by (simp add: parse_rows_def GetBattleZones_rows words comp_def)
qed

lemma lands_nonzero: "l \<in> set (ForEachBattleZone m base) \<Longrightarrow> l \<noteq> 0"
  by (auto simp: ForEachBattleZone_def Let_def split: if_splits)

lemma FindBattleZoneById_find:
  "FindBattleZoneById api m base landId =
     (case find (\<lambda>l. BattleZoneId api m l = landId) (ForEachBattleZone m base) of None \<Rightarrow> 0 | Some l \<Rightarrow> l)"
  unfolding FindBattleZoneById_def by (rule foldl_first_match) (use lands_nonzero in blast)

lemma found_zone_nonzero: "find P (ForEachBattleZone m base) = Some l \<Longrightarrow> l \<noteq> 0"
  using lands_nonzero by (metis find_Some_iff nth_mem)

text \<open>Arming or disarming a zone acts on the first listed zone with the identifier and nothing else:
  the zone's state byte takes the requested value, arming forces the type that confines players while
  disarming keeps the type, and no byte outside these two fields changes. Without such a zone nothing
  changes.\<close>

theorem arming_touches_one_zone:
  "let m' = SetBattleZoneActive api base [cmd, fmt_u landId, flag] m
   in case find (\<lambda>l. BattleZoneId api m l = landId) (ForEachBattleZone m base) of
        None \<Rightarrow> m' = m
      | Some land \<Rightarrow>
          BattleZoneActive m' land = (if strtol0 flag \<noteq> 0 then 1 else 0) \<and>
          BattleZoneType m' land = (if strtol0 flag \<noteq> 0 then 1 else BattleZoneType m land) \<and>
          {x. m' x \<noteq> m x} \<subseteq> {x. x - land \<in> {0x30..0x34}}"
proof (cases "find (\<lambda>l. BattleZoneId api m l = landId) (ForEachBattleZone m base)")
  case None
  then show ?thesis by (simp add: SetBattleZoneActive_def FindBattleZoneById_find strtoul0_fmt_u)
next
  case (Some land)
  let ?a = "strtol0 flag \<noteq> 0"
  let ?m1 = "if ?a then write_field m land 0x30 (1 :: u32) else m"
  define m' where "m' = SetBattleZoneActive api base [cmd, fmt_u landId, flag] m"
  have m': "m' = write_field ?m1 land 0x34 (if ?a then 1 else 0 :: u8)"
    using Some found_zone_nonzero [OF Some]
    by (simp add: m'_def SetBattleZoneActive_def FindBattleZoneById_find strtoul0_fmt_u Let_def
        BZ_SUBTYPE_OFFSET_def BZ_ACTIVE_OFFSET_def)
  have act: "BattleZoneActive m' land = (if ?a then 1 else 0)"
    unfolding m' BattleZoneActive_def BZ_ACTIVE_OFFSET_def by (rule read_write_field [where n = 1]) simp_all
  have "outside (land + 0x30) 4 (land + 0x34) 1" by (rule outside_before) simp_all
  then have "(read_field m' land 0x30 :: u32) = read_field ?m1 land 0x30"
    unfolding m' by (intro read_write_other) simp
  moreover have "(read_field (write_field m land 0x30 (1 :: u32)) land 0x30 :: u32) = 1"
    by (rule read_write_field [where n = 4]) simp_all
  ultimately have ty: "BattleZoneType m' land = (if ?a then 1 else BattleZoneType m land)"
    by (simp add: BattleZoneType_def BZ_SUBTYPE_OFFSET_def)
  have "x - land \<in> {0x30..0x34}" if r: "m' x \<noteq> m x" for x
  proof -
    consider (active) "unat (x - (land + 0x34)) < 1" | (subtype) "unat (x - (land + 0x30)) < 4"
      using r unfolding m' write_field_def by (auto simp: mwrite_def split: if_splits)
    then show ?thesis
    proof cases
      case active
      then have "x - (land + 0x34) = 0" by (simp only: less_one unat_eq_0)
      then have "x - land = 0x34" by simp
      then show ?thesis by simp
    next
      case subtype
      define d where "d = x - (land + 0x30)"
      have "x - land = d + 0x30" by (simp add: d_def)
      moreover have "d + 0x30 \<in> {0x30..0x34}"
        using subtype by (simp add: d_def [symmetric] word_le_nat_alt unat_word_ariths)
      ultimately show ?thesis by (simp only:)
    qed
  qed
  then show ?thesis using act ty by (auto simp: m'_def [symmetric] Some)
qed

section \<open>A zone\<close>

text \<open>An engine with one zone at \<open>0x4000\<close>, listed by a manager at \<open>0x1000\<close>.\<close>

definition sample_zones :: mem where
  "sample_zones a = (case map_of
     [(0xB62F69, 0x10), (0x12F1, 0x20), (0x2001, 0x30), (0x3001, 0x20), (0x3019, 0x40), (0x4004, 7), (0x4018, 9)] a of
       None \<Rightarrow> 0 | Some b \<Rightarrow> b)"

definition sample_accessors :: zone_accessors where
  "sample_accessors = \<lparr>GetIdHolder = (\<lambda>m l. (l, m)), GetGeoIdPtr = (\<lambda>m p. (p, m)), GetRadius = (\<lambda>m p. 30)\<rparr>"

lemma sample_zones_words:
  "(read_field sample_zones 0 0xB62F68 :: u64) = 0x1000"
  "(read_field sample_zones 0x1000 0x2F0 :: u64) = 0x2000"
  "(read_field sample_zones 0x2000 0 :: u64) = 0x3000" "(read_field sample_zones 0x3000 0 :: u64) = 0x2000"
  "(read_field sample_zones 0x3000 24 :: u64) = 0x4000" "(read_field sample_zones 0x4000 4 :: u32) = 7"
  "(read_field sample_zones 0x4018 0 :: u32) = 9"
  by code_simp+

lemma sample_zones_listed: "ForEachBattleZone sample_zones 0 = [0x4000]"
proof -
  have "walk sample_zones 0x2000 0x3000 100000 = [0x3000]"
    by (rule walk_linked) (simp_all add: sample_zones_words)
  then show ?thesis
    by (simp add: ForEachBattleZone_def LandsManager_def LANDS_MANAGER_SINGLETON_def BZ_LIST_HEAD_OFFSET_def
        sample_zones_words)
qed

lemma sample_zone:
  "BattleZoneId sample_accessors sample_zones 0x4000 = 7" "BattleZoneGeoId sample_accessors sample_zones 0x4000 = 9"
  by (simp_all add: BattleZoneId_def BattleZoneGeoId_def sample_accessors_def BZ_GEO_SUBOBJ_def sample_zones_words)

text \<open>An engine that creates the sample zone, and one that refuses.\<close>

lemma creation_answers_new_zone_witness:
  "\<exists>st. CreateBattleZone (\<lambda>_ _. sample_zones) sample_accessors 0
     [''createBattleZone'', fmt_u (1 :: u32), fmt_u (9 :: u32), fmt_u (30 :: u32), ''Arena''] (\<lambda>_. 0) =
   (Some st, sample_zones, 7)"
proof -
  let ?args = "[''createBattleZone'', fmt_u (1 :: u32), fmt_u (9 :: u32), fmt_u (30 :: u32), ''Arena'']"
  obtain st answer where c: "CreateBattleZone (\<lambda>_ _. sample_zones) sample_accessors 0 ?args (\<lambda>_. 0) =
      (Some st, sample_zones, answer)"
    by (simp add: CreateBattleZone_def Let_def strtoul0_fmt_u)
  have "answer = sint (BattleZoneId sample_accessors sample_zones 0x4000)"
    by (rule creation_answers_new_zone [OF c]) (auto simp: sample_zones_listed sample_zone)
  then show ?thesis using c by (auto simp: sample_zone)
qed

lemma refused_creation_answers_old_zone_witness:
  "\<exists>st. CreateBattleZone (\<lambda>_ m. m) sample_accessors 0
     [''createBattleZone'', fmt_u (1 :: u32), fmt_u (5 :: u32), fmt_u (30 :: u32), ''Arena''] sample_zones =
   (st, sample_zones, 7)"
proof -
  obtain st m' answer where c: "CreateBattleZone (\<lambda>_ m. m) sample_accessors 0
     [''createBattleZone'', fmt_u (1 :: u32), fmt_u (5 :: u32), fmt_u (30 :: u32), ''Arena''] sample_zones =
     (st, m', answer)"
    by (metis prod_cases3)
  have "m' = sample_zones \<and> answer = 7"
    using refused_creation_answers_old_zone [OF _ _ _ c] by (simp add: sample_zones_listed sample_zone)
  then show ?thesis using c by auto
qed

end
