(* ===== verification/Outposts.thy ===== *)
theory Outposts
  imports Script_Args Node_Lists
begin

text \<open>
  Outposts: \<open>source/server/hooks/outpost/hook_outpost_default_radius.cpp\<close> and
  \<open>hook_outpost_proximity.cpp\<close> (the distances served to the engine, two of them through patched call
  instructions) and \<open>source/server/api/lifx_outpost.cpp\<close> (the commands on the distances and on live
  outposts). The addresses of the library's own functions and the success of the protection call are
  arguments; a command that ends in an engine function gives the arguments of that call.
\<close>

section \<open>Distances served to the engine\<close>

record outpost_settings =
  g_defaultRadius :: u32
  g_monumentMinDistance :: u32
  g_outpostOutpostMinDistance :: u32
  g_outpostToPersonalDistance :: u32
  g_monumentToPersonalDistance :: u32

definition outpost_settings_init :: outpost_settings where
  "outpost_settings_init =
     \<lparr>g_defaultRadius = 20, g_monumentMinDistance = 150, g_outpostOutpostMinDistance = 300,
      g_outpostToPersonalDistance = 20, g_monumentToPersonalDistance = 20\<rparr>"

definition DefaultRadiusGetter :: "outpost_settings \<Rightarrow> u64" where
  "DefaultRadiusGetter s = ucast (g_defaultRadius s)"

definition MonumentMinDistanceGetter :: "outpost_settings \<Rightarrow> u64" where
  "MonumentMinDistanceGetter s = ucast (g_monumentMinDistance s)"

definition OutpostOutpostMinDistanceGetter :: "outpost_settings \<Rightarrow> u64" where
  "OutpostOutpostMinDistanceGetter s = ucast (g_outpostOutpostMinDistance s)"

definition OutpostToPersonalDistanceWrapper :: "outpost_settings \<Rightarrow> u64" where
  "OutpostToPersonalDistanceWrapper s = ucast (g_outpostToPersonalDistance s)"

definition MonumentToPersonalDistanceWrapper :: "outpost_settings \<Rightarrow> u64" where
  "MonumentToPersonalDistanceWrapper s = ucast (g_monumentToPersonalDistance s)"

section \<open>Retargeting two calls\<close>

definition CALL_SITE_PERSONAL_LAND_OUTPOST_DIST :: u64 where
  "CALL_SITE_PERSONAL_LAND_OUTPOST_DIST = 0x2D1C65"
definition CALL_SITE_MONUMENT_PERSONAL_DIST :: u64 where
  "CALL_SITE_MONUMENT_PERSONAL_DIST = 0x2CFE45"

definition PatchCallSite :: "bool \<Rightarrow> u64 \<Rightarrow> u64 \<Rightarrow> u64 \<Rightarrow> mem \<Rightarrow> bool \<times> mem" where
  "PatchCallSite protect_ok base callSiteRva newTarget m =
     (let site = base + callSiteRva
      in if m site \<noteq> 0xE8 then (False, m)
         else
           let callEnd = site + 5;
               targetRel = sint (newTarget - callEnd)
           in if 0x7FFFFFFF < targetRel \<or> targetRel < - 0x80000000 then (False, m)
              else if \<not> protect_ok then (False, m)
              else (True, write_field m site 1 (word_of_int targetRel :: u32)))"

text \<open>The success of the two protection calls, the module's base and the addresses of the wrappers.\<close>

definition PatchPersonalClaimCallSites ::
  "bool \<times> bool \<Rightarrow> u64 \<Rightarrow> u64 \<Rightarrow> u64 \<Rightarrow> mem \<Rightarrow> bool \<times> mem" where
  "PatchPersonalClaimCallSites protect base outpost_wrapper monument_wrapper m =
     (case PatchCallSite (fst protect) base CALL_SITE_PERSONAL_LAND_OUTPOST_DIST outpost_wrapper m of
        (a, m) \<Rightarrow>
          (case PatchCallSite (snd protect) base CALL_SITE_MONUMENT_PERSONAL_DIST monument_wrapper m of
             (b, m) \<Rightarrow> (a \<and> b, m)))"

section \<open>Live outposts\<close>

definition OUTPOSTS_MANAGER_SINGLETON :: u64 where "OUTPOSTS_MANAGER_SINGLETON = 0xB5AD68"

definition OutpostsManager :: "mem \<Rightarrow> u64 \<Rightarrow> u64" where
  "OutpostsManager m base = read_field m base OUTPOSTS_MANAGER_SINGLETON"

definition OutpostUnmovableID :: "mem \<Rightarrow> u64 \<Rightarrow> u32" where
  "OutpostUnmovableID m outpost = read_field m outpost 0"
definition OutpostType :: "mem \<Rightarrow> u64 \<Rightarrow> u32" where
  "OutpostType m outpost = read_field m outpost 0x08"
definition OutpostPerTickCount :: "mem \<Rightarrow> u64 \<Rightarrow> u32" where
  "OutpostPerTickCount m outpost = read_field m outpost 0x10"
definition OutpostProductionTypeID :: "mem \<Rightarrow> u64 \<Rightarrow> u32" where
  "OutpostProductionTypeID m outpost = read_field m outpost 0x14"
definition OutpostQuality :: "mem \<Rightarrow> u64 \<Rightarrow> u32" where
  "OutpostQuality m outpost = read_field m outpost 0x18"

text \<open>The outposts a traversal visits, at most as many nodes as the manager counts.\<close>

definition ForEachOutpost :: "mem \<Rightarrow> u64 \<Rightarrow> u64 list" where
  "ForEachOutpost m base =
     (let mgr = OutpostsManager m base
      in if mgr = 0 then []
         else
           let head = (read_field m mgr 0x20 :: u64)
           in if head = 0 then []
              else
                let capacity = (read_field m mgr 0x28 :: u64)
                in filter (\<lambda>outpost. outpost \<noteq> 0)
                     (map (\<lambda>node. read_field m node (2 * 8))
                       (walk m head (read_field m head 0) (unat capacity))))"

definition FindOutpostByUnmovableID :: "mem \<Rightarrow> u64 \<Rightarrow> u32 \<Rightarrow> u64" where
  "FindOutpostByUnmovableID m base unmovableID =
     foldl (\<lambda>found o'. if found = 0 \<and> OutpostUnmovableID m o' = unmovableID then o' else found) 0
       (ForEachOutpost m base)"

section \<open>The commands\<close>

datatype outpost_report =
    Null_Manager
  | Outpost_Rows u64 "(u32 \<times> u32 \<times> u32 \<times> u32 \<times> u32) list"

definition DumpOutposts :: "mem \<Rightarrow> u64 \<Rightarrow> outpost_report" where
  "DumpOutposts m base =
     (let mgr = OutpostsManager m base
      in if mgr = 0 then Null_Manager
         else Outpost_Rows (read_field m mgr 0x28)
                (map (\<lambda>o'. (OutpostUnmovableID m o', OutpostType m o', OutpostPerTickCount m o', OutpostProductionTypeID m o',
                            OutpostQuality m o')) (ForEachOutpost m base)))"

definition GetOutpostDefaultRadius :: "outpost_settings \<Rightarrow> int" where
  "GetOutpostDefaultRadius s = sint (g_defaultRadius s)"

definition SetOutpostDefaultRadius :: "string list \<Rightarrow> outpost_settings \<Rightarrow> outpost_settings" where
  "SetOutpostDefaultRadius args s =
     (if length args < 2 then s
      else let v = strtoul0 (args ! 1) in if v = 0 then s else s\<lparr>g_defaultRadius := v\<rparr>)"

text \<open>The arguments of the engine's function: manager, tagged land, radius.\<close>

definition SetOutpostRadius :: "u64 \<Rightarrow> string list \<Rightarrow> (u64 \<times> u64 \<times> u32) option" where
  "SetOutpostRadius lands_manager args =
     (if length args < 3 then None
      else
        let landID = strtoul0 (args ! 1); newRadius = strtoul0 (args ! 2)
        in if newRadius = 0 then None
           else if lands_manager = 0 then None
           else
             let landRef = push_bit 32 (ucast landID) OR 0x01
             in Some (lands_manager, landRef, newRadius))"

definition SetOutpostProductionType :: "mem \<Rightarrow> u64 \<Rightarrow> string list \<Rightarrow> (u64 \<times> int) option" where
  "SetOutpostProductionType m base args =
     (if length args < 3 then None
      else
        let unmovableID = strtoul0 (args ! 1); typeID = strtol0 (args ! 2);
            outpost = FindOutpostByUnmovableID m base unmovableID
        in if outpost = 0 then None else Some (outpost, typeID))"

text \<open>The value stored in a setting: what it held, or a positive number given.\<close>

definition SetU32Atomic :: "u32 \<Rightarrow> string list \<Rightarrow> u32" where
  "SetU32Atomic slot args =
     (if length args < 2 then slot
      else let v = strtoul0 (args ! 1) in if v = 0 then slot else v)"

definition GetMonumentMinDistance :: "outpost_settings \<Rightarrow> int" where
  "GetMonumentMinDistance s = sint (g_monumentMinDistance s)"
definition SetMonumentMinDistance :: "string list \<Rightarrow> outpost_settings \<Rightarrow> outpost_settings" where
  "SetMonumentMinDistance args s = s\<lparr>g_monumentMinDistance := SetU32Atomic (g_monumentMinDistance s) args\<rparr>"

definition GetOutpostOutpostMinDistance :: "outpost_settings \<Rightarrow> int" where
  "GetOutpostOutpostMinDistance s = sint (g_outpostOutpostMinDistance s)"
definition SetOutpostOutpostMinDistance :: "string list \<Rightarrow> outpost_settings \<Rightarrow> outpost_settings" where
  "SetOutpostOutpostMinDistance args s =
     s\<lparr>g_outpostOutpostMinDistance := SetU32Atomic (g_outpostOutpostMinDistance s) args\<rparr>"

definition GetOutpostMinDistanceToPersonalClaim :: "outpost_settings \<Rightarrow> int" where
  "GetOutpostMinDistanceToPersonalClaim s = sint (g_outpostToPersonalDistance s)"
definition SetOutpostMinDistanceToPersonalClaim :: "string list \<Rightarrow> outpost_settings \<Rightarrow> outpost_settings" where
  "SetOutpostMinDistanceToPersonalClaim args s =
     s\<lparr>g_outpostToPersonalDistance := SetU32Atomic (g_outpostToPersonalDistance s) args\<rparr>"

definition GetMonumentMinDistanceToPersonalClaim :: "outpost_settings \<Rightarrow> int" where
  "GetMonumentMinDistanceToPersonalClaim s = sint (g_monumentToPersonalDistance s)"
definition SetMonumentMinDistanceToPersonalClaim :: "string list \<Rightarrow> outpost_settings \<Rightarrow> outpost_settings" where
  "SetMonumentMinDistanceToPersonalClaim args s =
     s\<lparr>g_monumentToPersonalDistance := SetU32Atomic (g_monumentToPersonalDistance s) args\<rparr>"

section \<open>Patched calls reach the wrappers\<close>

text \<open>A call that can be retargeted: it is a near call, the wrapper is within reach of a 32-bit
  displacement, and the page can be unprotected.\<close>

definition retargetable :: "bool \<Rightarrow> u64 \<Rightarrow> u64 \<Rightarrow> mem \<Rightarrow> bool" where
  "retargetable protect_ok site w m \<longleftrightarrow>
     m site = 0xE8 \<and> sint (w - (site + 5)) \<in> {- (2 ^ 31)..<2 ^ 31} \<and> protect_ok"

definition displaced :: "u64 \<Rightarrow> u64 \<Rightarrow> u32" where
  "displaced site w = word_of_int (sint (w - (site + 5)))"

lemma PatchCallSite_eq:
  "PatchCallSite p base rva w m =
     (if retargetable p (base + rva) w m then (True, write_field m (base + rva) 1 (displaced (base + rva) w))
      else (False, m))"
  by (auto simp: PatchCallSite_def retargetable_def displaced_def Let_def)

lemma call_target: "DecodeRelativeCallTarget m a = a + 5 + scast (read_field m a 1 :: u32)"
  by (simp add: DecodeRelativeCallTarget_def read_field_def)

lemma displaced_reaches:
  assumes "retargetable p site w m"
  shows "site + 5 + scast (displaced site w) = w"
proof -
  let ?i = "sint (w - (site + 5))"
  have "sint (displaced site w) = ?i"
    unfolding displaced_def signed_of_int of_int_eq_id id_apply
    by (rule signed_take_bit_int_eq_self) (use assms in \<open>simp_all add: retargetable_def\<close>)
  then have "(scast (displaced site w) :: u64) = w - (site + 5)" by (simp add: scast_eq)
  then show ?thesis by simp
qed

lemma sites_apart:
  fixes base :: u64
  shows "outside (base + 0x2D1C65 + 1) 4 (base + 0x2CFE45 + 1) 4"
    and "outside (base + 0x2CFE45 + 1) 4 (base + 0x2D1C65 + 1) 4"
    and "outside (base + 0x2CFE45) 1 (base + 0x2D1C65 + 1) 4"
    and "outside (base + 0x2D1C65) 1 (base + 0x2CFE45 + 1) 4"
    and "outside (base + 0x2D1C65) 1 (base + 0x2D1C65 + 1) 4"
    and "outside (base + 0x2CFE45) 1 (base + 0x2CFE45 + 1) 4"
  by (rule outside_above outside_before; simp; fail)+

lemma opcode_kept: "outside a 1 (site + 1) 4 \<Longrightarrow> write_field m site 1 (v :: u32) a = m a"
  by (simp add: write_field_def mwrite_def outside_def)

text \<open>Each of the two calls is handled on its own: after patching, a call that can be retargeted
  decodes to its wrapper and any other call decodes to the target it had. The routine answers true
  exactly when both were retargeted, and no byte outside the two displacements changes.\<close>

theorem patched_calls_reach_wrappers:
  "case PatchPersonalClaimCallSites (p1, p2) base w1 w2 m of (ok, m') \<Rightarrow>
     (let s1 = base + 0x2D1C65; s2 = base + 0x2CFE45;
          r1 = retargetable p1 s1 w1 m; r2 = retargetable p2 s2 w2 m
      in (ok = (r1 \<and> r2)) \<and>
         DecodeRelativeCallTarget m' s1 = (if r1 then w1 else DecodeRelativeCallTarget m s1) \<and>
         DecodeRelativeCallTarget m' s2 = (if r2 then w2 else DecodeRelativeCallTarget m s2) \<and>
         {x. m' x \<noteq> m x} \<subseteq>
           (if r1 then {x. unat (x - (s1 + 1)) < 4} else {}) \<union> (if r2 then {x. unat (x - (s2 + 1)) < 4} else {}))"
proof -
  define s1 s2 where "s1 = base + 0x2D1C65" and "s2 = base + 0x2CFE45"
  define m1 where "m1 = (if retargetable p1 s1 w1 m then write_field m s1 1 (displaced s1 w1) else m)"
  define m2 where "m2 = (if retargetable p2 s2 w2 m1 then write_field m1 s2 1 (displaced s2 w2) else m1)"
  have "m1 s2 = m s2"
    by (simp add: m1_def s1_def s2_def opcode_kept [OF sites_apart(3)])
  then have r2: "retargetable p2 s2 w2 m1 = retargetable p2 s2 w2 m" by (simp add: retargetable_def)
  have m2: "m2 = (if retargetable p2 s2 w2 m then write_field m1 s2 1 (displaced s2 w2) else m1)"
    by (simp only: m2_def r2)
  have patch1: "PatchCallSite p1 base 0x2D1C65 w1 m = (retargetable p1 s1 w1 m, m1)"
    by (simp add: PatchCallSite_eq m1_def s1_def)
  have patch2: "PatchCallSite p2 base 0x2CFE45 w2 m1 = (retargetable p2 s2 w2 m1, m2)"
    by (simp add: PatchCallSite_eq m2_def s2_def)
  have run: "PatchPersonalClaimCallSites (p1, p2) base w1 w2 m =
      (retargetable p1 s1 w1 m \<and> retargetable p2 s2 w2 m, m2)"
    by (simp only: PatchPersonalClaimCallSites_def CALL_SITE_PERSONAL_LAND_OUTPOST_DIST_def
        CALL_SITE_MONUMENT_PERSONAL_DIST_def fst_conv snd_conv patch1 patch2 prod.case r2)
  have field: "(read_field (write_field k s 1 (v :: u32)) s 1 :: u32) = v" for k s v
    by (rule read_write_field [where n = 4]) simp_all
  have other: "(read_field (write_field k s1 1 (v :: u32)) s2 1 :: u32) = read_field k s2 1"
    "(read_field (write_field k s2 1 (v :: u32)) s1 1 :: u32) = read_field k s1 1" for k v
    using sites_apart(1,2) [of base] by (auto simp: s1_def s2_def intro!: read_write_other)
  have "DecodeRelativeCallTarget m2 s1 = (if retargetable p1 s1 w1 m then w1 else DecodeRelativeCallTarget m s1)"
    by (auto simp: call_target m1_def m2 field other displaced_reaches)
  moreover have
    "DecodeRelativeCallTarget m2 s2 = (if retargetable p2 s2 w2 m then w2 else DecodeRelativeCallTarget m s2)"
    by (auto simp: call_target m1_def m2 field other displaced_reaches)
  moreover have "{x. m2 x \<noteq> m x} \<subseteq> (if retargetable p1 s1 w1 m then {x. unat (x - (s1 + 1)) < 4} else {}) \<union>
      (if retargetable p2 s2 w2 m then {x. unat (x - (s2 + 1)) < 4} else {})"
    by (auto simp: m1_def m2 write_field_def mwrite_def split: if_splits)
  ultimately show ?thesis by (simp add: run s1_def [symmetric] s2_def [symmetric] Let_def)
qed

section \<open>The settings\<close>

datatype knob = Default_Radius | Monument_Monument | Outpost_Outpost | Outpost_Personal | Monument_Personal

fun set_knob :: "knob \<Rightarrow> string list \<Rightarrow> outpost_settings \<Rightarrow> outpost_settings" where
  "set_knob Default_Radius = SetOutpostDefaultRadius"
| "set_knob Monument_Monument = SetMonumentMinDistance"
| "set_knob Outpost_Outpost = SetOutpostOutpostMinDistance"
| "set_knob Outpost_Personal = SetOutpostMinDistanceToPersonalClaim"
| "set_knob Monument_Personal = SetMonumentMinDistanceToPersonalClaim"

fun served :: "knob \<Rightarrow> outpost_settings \<Rightarrow> u64" where
  "served Default_Radius = DefaultRadiusGetter"
| "served Monument_Monument = MonumentMinDistanceGetter"
| "served Outpost_Outpost = OutpostOutpostMinDistanceGetter"
| "served Outpost_Personal = OutpostToPersonalDistanceWrapper"
| "served Monument_Personal = MonumentToPersonalDistanceWrapper"

text \<open>What the engine would use without the library, and the positive numbers given for a setting.\<close>

fun engine_baseline :: "knob \<Rightarrow> u64" where
  "engine_baseline Default_Radius = 20"
| "engine_baseline Monument_Monument = 150"
| "engine_baseline Outpost_Outpost = 300"
| "engine_baseline Outpost_Personal = 20"
| "engine_baseline Monument_Personal = 20"

definition positives :: "knob \<Rightarrow> (knob \<times> string list) list \<Rightarrow> u64 list" where
  "positives k cmds =
     map (\<lambda>(_, args). ucast (strtoul0 (args ! 1)))
       (filter (\<lambda>(k', args). k' = k \<and> 2 \<le> length args \<and> strtoul0 (args ! 1) \<noteq> 0) cmds)"

definition run_knobs :: "(knob \<times> string list) list \<Rightarrow> outpost_settings \<Rightarrow> outpost_settings" where
  "run_knobs cmds s = foldl (\<lambda>s (k, args). set_knob k args s) s cmds"

lemma served_set_knob:
  "served k (set_knob k' args s) =
     (if k' = k \<and> 2 \<le> length args \<and> strtoul0 (args ! 1) \<noteq> 0 then ucast (strtoul0 (args ! 1)) else served k s)"
  by (cases k; cases k')
     (simp_all add: SetOutpostDefaultRadius_def SetMonumentMinDistance_def SetOutpostOutpostMinDistance_def
       SetOutpostMinDistanceToPersonalClaim_def SetMonumentMinDistanceToPersonalClaim_def SetU32Atomic_def
       DefaultRadiusGetter_def MonumentMinDistanceGetter_def OutpostOutpostMinDistanceGetter_def
       OutpostToPersonalDistanceWrapper_def MonumentToPersonalDistanceWrapper_def Let_def)

lemma served_run: "served k (run_knobs cmds s) = last (served k s # positives k cmds)"
proof (induction cmds arbitrary: s)
  case Nil
  then show ?case by (simp add: run_knobs_def positives_def)
next
  case (Cons c cmds)
  obtain k' args where c: "c = (k', args)" by fastforce
  have "served k (run_knobs (c # cmds) s) = served k (run_knobs cmds (set_knob k' args s))"
    by (simp add: run_knobs_def c)
  also have "\<dots> = last (served k (set_knob k' args s) # positives k cmds)" by (rule Cons.IH)
  also have "\<dots> = last (served k s # positives k (c # cmds))"
    by (auto simp: served_set_knob positives_def c)
  finally show ?case .
qed

lemma ucast_u32_zero: "(ucast (w :: u32) :: u64) = 0 \<longleftrightarrow> w = 0"
proof -
  have "unat w < 2 ^ 64" by (rule less_le_trans [OF unsigned_less]) simp
  then have "unat (ucast w :: u64) = unat w" by (simp add: unsigned_ucast_eq take_bit_nat_eq_self)
  then show ?thesis by (metis unat_eq_0)
qed

lemma positives_nonzero: "x \<in> set (positives k cmds) \<Longrightarrow> x \<noteq> 0"
  by (auto simp: positives_def ucast_u32_zero)

text \<open>After any sequence of setting commands, whatever their arguments, each of the five distances
  served to the engine is the last positive number given for it, the engine's own value when there was
  none, and never zero: refused arguments and commands on the other settings do not move it.\<close>

theorem settings_hold_last_positive_argument:
  "served k (run_knobs cmds outpost_settings_init) = last (engine_baseline k # positives k cmds) \<and>
   served k (run_knobs cmds outpost_settings_init) \<noteq> 0"
proof -
  have b: "served k outpost_settings_init = engine_baseline k"
    by (cases k) (simp_all add: outpost_settings_init_def DefaultRadiusGetter_def MonumentMinDistanceGetter_def
        OutpostOutpostMinDistanceGetter_def OutpostToPersonalDistanceWrapper_def MonumentToPersonalDistanceWrapper_def)
  moreover have "engine_baseline k \<noteq> 0" by (cases k) simp_all
  moreover have "last (engine_baseline k # positives k cmds) \<in> set (engine_baseline k # positives k cmds)"
    by (rule last_in_set) simp
  ultimately show ?thesis using positives_nonzero [of _ k cmds] by (simp only: served_run b) auto
qed

section \<open>Commands on live outposts\<close>

lemma outposts_within_size:
  "OutpostsManager m base \<noteq> 0 \<Longrightarrow>
     length (ForEachOutpost m base) \<le> unat (read_field m (OutpostsManager m base) 0x28 :: u64)"
  using le_trans [OF length_filter_le, OF eq_imp_le, OF length_map, THEN le_trans, OF walk_bounded]
  by (auto simp: ForEachOutpost_def Let_def)

text \<open>A report never has more rows than the number it announces.\<close>

lemma report_within_size:
  "DumpOutposts m base = Outpost_Rows n rows \<Longrightarrow> length rows \<le> unat n"
  using outposts_within_size [of m base] by (auto simp: DumpOutposts_def Let_def split: if_splits)

lemma outposts_nonzero: "o' \<in> set (ForEachOutpost m base) \<Longrightarrow> o' \<noteq> 0"
  by (auto simp: ForEachOutpost_def Let_def split: if_splits)

lemma FindOutpost_find:
  "FindOutpostByUnmovableID m base uid =
     (case find (\<lambda>o'. OutpostUnmovableID m o' = uid) (ForEachOutpost m base) of None \<Rightarrow> 0 | Some o' \<Rightarrow> o')"
  unfolding FindOutpostByUnmovableID_def by (rule foldl_first_match) (use outposts_nonzero in blast)

text \<open>When the manager's list is well formed and not longer than it counts, the production command
  hands the engine the first outpost of the list with the given identifier and the parsed type, and
  does nothing when there is none.\<close>

theorem production_type_reaches_listed_outpost:
  assumes "mgr = OutpostsManager m base" and "mgr \<noteq> 0" and "head = read_field m mgr 0x20" and "head \<noteq> 0"
    and "linked m head (read_field m head 0) nodes" and "length nodes \<le> unat (read_field m mgr 0x28 :: u64)"
    and "outposts = filter (\<lambda>o'. o' \<noteq> 0) (map (\<lambda>n. read_field m n 16) nodes)"
  shows "SetOutpostProductionType m base [cmd, fmt_u uid, type_arg] =
    map_option (\<lambda>o'. (o', strtol0 type_arg)) (find (\<lambda>o'. (read_field m o' 0 :: u32) = uid) outposts)"
proof -
  have visited: "ForEachOutpost m base = outposts"
    using assms(2,4) walk_linked [OF assms(5,6)] unfolding assms(1,3,7) by (simp add: ForEachOutpost_def Let_def)
  show ?thesis
  proof (cases "find (\<lambda>o'. (read_field m o' 0 :: u32) = uid) outposts")
    case None
    then show ?thesis
      by (simp add: SetOutpostProductionType_def FindOutpost_find visited OutpostUnmovableID_def strtoul0_fmt_u)
  next
    case (Some o')
    then have "o' \<in> set outposts" by (auto simp: find_Some_iff)
    then have "o' \<noteq> 0" using outposts_nonzero [of o' m base] visited by simp
    then show ?thesis using Some
      by (simp add: SetOutpostProductionType_def FindOutpost_find visited OutpostUnmovableID_def strtoul0_fmt_u)
  qed
qed

text \<open>The reference of a land in the engine's interface: the identifier above a tag for outposts.\<close>

lemma land_reference:
  assumes "SetOutpostRadius mgr [cmd, fmt_u land, fmt_u radius] = Some (mgr', ref, r)"
  shows "mgr' = mgr" "r = radius" "r \<noteq> 0" "ucast ref = (1 :: u8)" "ucast (drop_bit 32 ref) = (land :: u32)"
proof -
  have ref: "ref = push_bit 32 (ucast land) OR 1" and rest: "mgr' = mgr" "r = radius" "r \<noteq> 0"
    using assms by (auto simp: SetOutpostRadius_def strtoul0_fmt_u Let_def split: if_splits)
  show "mgr' = mgr" "r = radius" "r \<noteq> 0" by (fact rest)+
  show "ucast ref = (1 :: u8)" unfolding ref
    by (rule bit_word_eqI) (auto simp: bit_simps)
  show "ucast (drop_bit 32 ref) = land" unfolding ref
    by (rule bit_word_eqI) (auto simp: bit_simps)
qed

section \<open>An outpost\<close>

definition sample_outposts :: mem where
  "sample_outposts a = (case map_of
     [(0xB5AD69, 0x10), (0x1021, 0x20), (0x1028, 1), (0x2001, 0x30), (0x3001, 0x20), (0x3011, 0x40), (0x4000, 5)] a of
       None \<Rightarrow> 0 | Some b \<Rightarrow> b)"

lemma sample_outposts_words:
  "(read_field sample_outposts 0 0xB5AD68 :: u64) = 0x1000"
  "(read_field sample_outposts 0x1000 0x20 :: u64) = 0x2000" "(read_field sample_outposts 0x1000 0x28 :: u64) = 1"
  "(read_field sample_outposts 0x2000 0 :: u64) = 0x3000" "(read_field sample_outposts 0x3000 0 :: u64) = 0x2000"
  "(read_field sample_outposts 0x3000 16 :: u64) = 0x4000" "(read_field sample_outposts 0x4000 0 :: u32) = 5"
  by code_simp+

lemma production_type_reaches_listed_outpost_witness:
  "SetOutpostProductionType sample_outposts 0 [''setOutpostProductionType'', fmt_u (5 :: u32), ''1703''] =
     Some (0x4000, 1703)"
proof -
  have t: "strtol0 ''1703'' = 1703" by code_simp
  have "OutpostsManager sample_outposts 0 = 0x1000"
    by (simp add: OutpostsManager_def OUTPOSTS_MANAGER_SINGLETON_def sample_outposts_words)
  from production_type_reaches_listed_outpost [OF this [symmetric] _ refl _ _ _ refl, of "[0x3000]"]
  show ?thesis by (simp add: sample_outposts_words t)
qed

end
