(* ===== verification/Bandit_Combat.thy ===== *)
theory Bandit_Combat
  imports Code_Memory Binary32
begin

text \<open>
  The animation detour of bandits, \<open>source/server/hooks/character/hook_setanimation.cpp\<close>: an animal
  registered as a bandit has its animation requests mapped to those of the male body, and its attacks
  become a charged attack with three phases, paced by a stamina pool, whose hit is delivered from the
  frame tick. The state of the file is a record; a handler gives the engine functions it calls. The
  memory an event meets, the clock and the order in which the hash tables are traversed come with the
  event, the engine's table of animation sequences is an argument.
\<close>

section \<open>State\<close>

datatype atk_phase = ATK_NONE | ATK_PREFIRE | ATK_FIRE | ATK_RECOIL

record bandit_stam =
  stamina :: f32
  lastUpdateMs :: u64
  lastSwingMs :: u64
  winded :: bool
  swingLockUntilMs :: u64
  atkPhase :: atk_phase
  atkType :: int
  phaseStartMs :: u64

record anim =
  g_any :: bool
  g_hostiles :: "u64 set"
  g_mounted :: "u64 set"
  g_stam :: "u64 \<rightharpoonup> bandit_stam"
  g_pendingHit :: "u64 \<rightharpoonup> u64"
  g_seqFast :: "int list"
  g_seqPower :: "int list"
  g_seqIdle :: int

definition anim_init :: anim where
  "anim_init = \<lparr>g_any = False, g_hostiles = {}, g_mounted = {}, g_stam = Map.empty, g_pendingHit = Map.empty,
     g_seqFast = [-2, -2, -2], g_seqPower = [-2, -2, -2], g_seqIdle = -2\<rparr>"

datatype anim_call =
    Stock_Animation u64
  | Mount_Weapon u64 u32
  | Record_Mounted u64 u32
  | Set_By_Index u64 int u8
  | End_Attack u64

section \<open>Constants\<close>

definition f32_ratio :: "int \<Rightarrow> int \<Rightarrow> f32" where
  "f32_ratio a b = mk_f32 (fround (a * f32_unit) b)"

definition kBanditWeaponImageId :: u32 where "kBanditWeaponImageId = 556"
definition kWeaponOff :: u64 where "kWeaponOff = 0x24F0"
definition kAttackTypeOff :: u64 where "kAttackTypeOff = 0x24F8"
definition kConsumedOff :: u64 where "kConsumedOff = 0x24FC"
definition kWeaponDmgLevelOff :: u64 where "kWeaponDmgLevelOff = 0x2390"

definition kStaminaMax :: f32 where "kStaminaMax = f32_of_int 100"
definition kRegenPerSec :: f32 where "kRegenPerSec = f32_of_int 9"
definition kBaseSwingCost :: f32 where "kBaseSwingCost = f32_of_int 30"
definition kRefWeaponDmg :: f32 where "kRefWeaponDmg = f32_ratio 30 100"
definition kMinSwingCost :: f32 where "kMinSwingCost = f32_of_int 10"
definition kMaxSwingCost :: f32 where "kMaxSwingCost = f32_of_int 50"
definition kRecoverFactor :: f32 where "kRecoverFactor = f32_ratio 16 10"

definition kPrefireMs :: u64 where "kPrefireMs = 650"
definition kFireMs :: u64 where "kFireMs = 450"
definition kRecoilMs :: u64 where "kRecoilMs = 500"
definition kFireContactMs :: u64 where "kFireContactMs = 150"
definition kAttackTotalMs :: u64 where "kAttackTotalMs = kPrefireMs + kFireMs + kRecoilMs"
definition kMinSwingMs :: u64 where "kMinSwingMs = kAttackTotalMs"
definition kSwingLockMs :: u64 where "kSwingLockMs = kAttackTotalMs"

definition kFastSeq :: "string list" where
  "kFastSeq = [''hit1H_leftright_prefire'', ''hit1H_leftright_fire'', ''hit1H_leftright_recoil'']"
definition kPowerSeq :: "string list" where
  "kPowerSeq = [''hit1H_power_slash_prefire'', ''hit1H_power_slash_fire'', ''hit1H_power_slash_recoil'']"

section \<open>Helpers\<close>

definition SwingCostFor :: "mem \<Rightarrow> u64 \<Rightarrow> f32" where
  "SwingCostFor m self =
     (let weapon = (read_field m self kWeaponOff :: u64);
          cost = (if weapon \<noteq> 0
                  then let dmg = f32_of_bits (read_field m weapon kWeaponDmgLevelOff)
                       in if fless (Fin 0) dmg \<and> fless dmg (f32_of_int 1000000)
                          then fmul kBaseSwingCost (fdiv dmg kRefWeaponDmg) else kBaseSwingCost
                  else kBaseSwingCost);
          cost = (if fless cost kMinSwingCost then kMinSwingCost else cost)
      in if fless kMaxSwingCost cost then kMaxSwingCost else cost)"

text \<open>The engine's table: the index of a named sequence of a shape, or \<open>-1\<close>.\<close>

type_synonym seq_table = "u64 \<Rightarrow> string \<Rightarrow> int"

definition ResolvePhaseIndices :: "seq_table \<Rightarrow> u64 \<Rightarrow> anim \<Rightarrow> anim" where
  "ResolvePhaseIndices seqs seqMgr s =
     (if g_seqFast s ! 0 \<noteq> -2 then s
      else
        let rest = seqs seqMgr ''fatigue'';
            rest = (if rest < 0 then seqs seqMgr ''idle1'' else rest)
        in s\<lparr>g_seqIdle := rest, g_seqFast := map (seqs seqMgr) kFastSeq, g_seqPower := map (seqs seqMgr) kPowerSeq\<rparr>)"

fun phase_number :: "atk_phase \<Rightarrow> nat option" where
  "phase_number ATK_NONE = None"
| "phase_number ATK_PREFIRE = Some 0"
| "phase_number ATK_FIRE = Some 1"
| "phase_number ATK_RECOIL = Some 2"

definition PhaseIdx :: "anim \<Rightarrow> int \<Rightarrow> atk_phase \<Rightarrow> int" where
  "PhaseIdx s type phase =
     (case phase_number phase of None \<Rightarrow> -1
      | Some p \<Rightarrow> (if type = 1 then g_seqPower s ! p else g_seqFast s ! p))"

definition kRemap :: "(string \<times> string) list" where
  "kRemap =
     [(''Idle_Sleep'', ''Rest''), (''Idle_Sleep_Down'', ''Rest_Down''), (''Idle_Sleep_Up'', ''Rest_Up''),
      (''Idle_Eat'', ''Eat''), (''Idle_Stand'', ''idle1''), (''Threatened'', ''fright''), (''Death'', ''death''),
      (''Attack_Power'', ''hit1H_power_slash_fire''), (''Attack_Fast'', ''hit1H_leftright_fire''),
      (''Run'', ''Run''), (''Walk'', ''Walk_forward'')]"

definition MapWolfToMale :: "string option \<Rightarrow> string" where
  "MapWolfToMale wolf =
     (case wolf of None \<Rightarrow> ''idle1''
      | Some w \<Rightarrow> (case map_of kRemap w of Some male \<Rightarrow> male | None \<Rightarrow> ''idle1''))"

section \<open>Handlers\<close>

definition Register_hostile :: "u64 \<Rightarrow> anim \<Rightarrow> anim" where
  "Register_hostile animal s =
     (if animal = 0 then s else s\<lparr>g_hostiles := insert animal (g_hostiles s), g_any := True\<rparr>)"

definition IsHostile :: "anim \<Rightarrow> u64 \<Rightarrow> bool" where
  "IsHostile s animal \<longleftrightarrow> g_any s \<and> animal \<in> g_hostiles s"

definition Forget :: "u64 \<Rightarrow> anim \<Rightarrow> anim" where
  "Forget animal s =
     (if animal = 0 then s
      else s\<lparr>g_pendingHit := (g_pendingHit s)(animal := None), g_stam := (g_stam s)(animal := None),
             g_mounted := g_mounted s - {animal}\<rparr>)"

definition MountWeaponOnce :: "u64 \<Rightarrow> anim \<Rightarrow> anim_call list \<times> anim" where
  "MountWeaponOnce self s =
     (if self \<in> g_mounted s then ([], s)
      else ([Mount_Weapon self kBanditWeaponImageId, Record_Mounted self kBanditWeaponImageId],
        s\<lparr>g_mounted := insert self (g_mounted s)\<rparr>))"

definition FireBanditHit :: "u64 \<Rightarrow> mem \<Rightarrow> anim_call list \<times> mem" where
  "FireBanditHit self m =
     (if (read_field m self kWeaponOff :: u64) = 0 then ([], m)
      else
        let t = sint (read_field m self kAttackTypeOff :: u32);
            m1 = (if t < 0 \<or> 1 < t then write_field m self kAttackTypeOff (0 :: u32) else m)
        in ([End_Attack self], write_field m1 self kConsumedOff (0 :: u8)))"

text \<open>An attack request of a bandit that is not winded: the decision on its pool at the time of the
  request, and whether a charged attack starts.\<close>

definition fresh_stam :: "u64 \<Rightarrow> bandit_stam" where
  "fresh_stam now = \<lparr>stamina = kStaminaMax, lastUpdateMs = now, lastSwingMs = 0, winded = False,
     swingLockUntilMs = 0, atkPhase = ATK_NONE, atkType = 0, phaseStartMs = 0\<rparr>"

definition request_attack :: "f32 \<Rightarrow> int \<Rightarrow> u64 \<Rightarrow> bandit_stam \<Rightarrow> bool \<times> bandit_stam" where
  "request_attack cost type now b =
     (if winded b then (False, b)
      else if atkPhase b = ATK_NONE \<and> kMinSwingMs \<le> now - lastSwingMs b \<and> fle cost (stamina b)
      then
        let left = fsub (stamina b) cost
        in (True, b\<lparr>stamina := left, lastSwingMs := now, winded := fless left cost,
                    swingLockUntilMs := now + kSwingLockMs, atkPhase := ATK_PREFIRE, atkType := type,
                    phaseStartMs := now\<rparr>)
      else (False, b))"

definition winded_now :: "anim \<Rightarrow> u64 \<Rightarrow> bool" where
  "winded_now s self \<longleftrightarrow> (case g_stam s self of Some b \<Rightarrow> winded b | None \<Rightarrow> False)"

definition locked_now :: "anim \<Rightarrow> u64 \<Rightarrow> u64 \<Rightarrow> bool" where
  "locked_now s self now \<longleftrightarrow> (case g_stam s self of Some b \<Rightarrow> now < swingLockUntilMs b | None \<Rightarrow> False)"

definition rest_calls :: "anim \<Rightarrow> u64 \<Rightarrow> anim_call list" where
  "rest_calls s self = (if 0 \<le> g_seqIdle s then [Set_By_Index self (g_seqIdle s) 1] else [])"

definition set_calls :: "u64 \<Rightarrow> int \<Rightarrow> u8 \<Rightarrow> anim_call list" where
  "set_calls self idx flag = (if idx \<noteq> -1 then [Set_By_Index self idx flag] else [])"

text \<open>The part of the detour behind the swing protection, once the shape's sequences are known.\<close>

definition remapped_request ::
  "seq_table \<Rightarrow> mem \<Rightarrow> u64 \<Rightarrow> u64 \<Rightarrow> string option \<Rightarrow> u8 \<Rightarrow> u64 \<Rightarrow> anim \<Rightarrow> anim_call list \<times> anim" where
  "remapped_request seqs m seqMgr self reqName flag now s =
     (if winded_now s self then (rest_calls s self, s)
      else
        let idx = seqs seqMgr (MapWolfToMale reqName);
            isAttack = (case reqName of None \<Rightarrow> False | Some n \<Rightarrow> take 6 n = ''Attack'')
        in if isAttack \<and> idx \<noteq> -1
           then
             let type = (if reqName = Some ''Attack_Power'' then 1 else 0);
                 b = (case g_stam s self of Some b \<Rightarrow> b | None \<Rightarrow> fresh_stam now);
                 (commit, b') = request_attack (SwingCostFor m self) type now b;
                 s' = s\<lparr>g_stam := (g_stam s)(self \<mapsto> b')\<rparr>
             in if winded b then (rest_calls s' self, s')
                else if \<not> commit then ([], s')
                else (set_calls self (PhaseIdx s' type ATK_PREFIRE) 1, s')
           else (set_calls self idx flag, s))"

definition OnSetAnimation ::
  "seq_table \<Rightarrow> mem \<Rightarrow> u64 \<Rightarrow> string option \<Rightarrow> u8 \<Rightarrow> u64 \<Rightarrow> u64 \<Rightarrow> anim \<Rightarrow> anim_call list \<times> anim" where
  "OnSetAnimation seqs m self reqName flag now1 now2 s =
     (if \<not> IsHostile s self then ([Stock_Animation self], s)
      else case MountWeaponOnce self s of
        (mounts, s) \<Rightarrow>
          if locked_now s self now1 then (mounts, s)
          else
            let lvl1 = (read_field m self 0x920 :: u64)
            in if lvl1 = 0 then (mounts, s)
               else
                 let seqMgr = (read_field m lvl1 0x160 :: u64)
                 in if seqMgr = 0 then (mounts, s)
                    else
                      case remapped_request seqs m seqMgr self reqName flag now2
                             (ResolvePhaseIndices seqs seqMgr s) of
                        (calls, s) \<Rightarrow> (mounts @ calls, s))"

section \<open>The frame tick\<close>

definition regen :: "f32 \<Rightarrow> u64 \<Rightarrow> bandit_stam \<Rightarrow> bandit_stam" where
  "regen cost now b =
     (let dt = fdiv (f32_of_int (uint (now - lastUpdateMs b))) (f32_of_int 1000);
          st = fadd (stamina b) (fmul kRegenPerSec dt);
          st = (if fless kStaminaMax st then kStaminaMax else st)
      in b\<lparr>lastUpdateMs := now, stamina := st,
           winded := winded b \<and> \<not> fle (fmul cost kRecoverFactor) st\<rparr>)"

text \<open>One bandit's share of the loop: its entry, the phase to show and, when the strike begins, the
  attack type to store and the hit to queue.\<close>

definition advance :: "u64 \<Rightarrow> bandit_stam \<Rightarrow> bandit_stam \<times> atk_phase option \<times> bool" where
  "advance now b =
     (let el = now - phaseStartMs b
      in case atkPhase b of
           ATK_NONE \<Rightarrow> (b, None, False)
         | ATK_PREFIRE \<Rightarrow>
             if kPrefireMs \<le> el then (b\<lparr>atkPhase := ATK_FIRE, phaseStartMs := now\<rparr>, Some ATK_FIRE, True)
             else (b, None, False)
         | ATK_FIRE \<Rightarrow>
             if kFireMs \<le> el then (b\<lparr>atkPhase := ATK_RECOIL, phaseStartMs := now\<rparr>, Some ATK_RECOIL, False)
             else (b, None, False)
         | ATK_RECOIL \<Rightarrow>
             if kRecoilMs \<le> el then (b\<lparr>atkPhase := ATK_NONE\<rparr>, None, False) else (b, None, False))"

text \<open>The loop over the pools, in the order the table is traversed; at most 16 animations are shown.\<close>

fun tick_loop ::
  "u64 \<Rightarrow> u64 list \<Rightarrow> (u64 \<times> int) list \<Rightarrow> mem \<Rightarrow> anim \<Rightarrow> (u64 \<times> int) list \<times> mem \<times> anim" where
  "tick_loop now [] plays m s = (plays, m, s)"
| "tick_loop now (a # as) plays m s =
     (case g_stam s a of None \<Rightarrow> tick_loop now as plays m s
      | Some b \<Rightarrow>
          (case advance now (regen (SwingCostFor m a) now b) of
             (b', shown, strikes) \<Rightarrow>
               let plays = (case shown of Some ph \<Rightarrow>
                              (if length plays < 16 then plays @ [(a, PhaseIdx s (atkType b) ph)] else plays)
                            | None \<Rightarrow> plays);
                   m = (if strikes then write_field m a kAttackTypeOff (word_of_int (atkType b) :: u32) else m);
                   s = s\<lparr>g_stam := (g_stam s)(a \<mapsto> b')\<rparr>;
                   s = (if strikes then s\<lparr>g_pendingHit := (g_pendingHit s)(a \<mapsto> now + kFireContactMs)\<rparr> else s)
               in tick_loop now as plays m s))"

text \<open>Taking the hits that are due out of the queue, at most 8.\<close>

fun drain_loop :: "u64 \<Rightarrow> u64 list \<Rightarrow> u64 list \<Rightarrow> anim \<Rightarrow> u64 list \<times> anim" where
  "drain_loop now [] due s = (due, s)"
| "drain_loop now (a # as) due s =
     (if \<not> length due < 8 then (due, s)
      else case g_pendingHit s a of
             Some t \<Rightarrow>
               (if t \<le> now then drain_loop now as (due @ [a]) (s\<lparr>g_pendingHit := (g_pendingHit s)(a := None)\<rparr>)
                else drain_loop now as due s)
           | None \<Rightarrow> drain_loop now as due s)"

fun fire_loop :: "u64 list \<Rightarrow> mem \<Rightarrow> anim_call list \<times> mem" where
  "fire_loop [] m = ([], m)"
| "fire_loop (a # as) m =
     (case FireBanditHit a m of (c1, m) \<Rightarrow> (case fire_loop as m of (c2, m) \<Rightarrow> (c1 @ c2, m)))"

definition OnHitTick :: "mem \<Rightarrow> u64 \<Rightarrow> u64 list \<Rightarrow> u64 list \<Rightarrow> anim \<Rightarrow> anim_call list \<times> mem \<times> anim" where
  "OnHitTick m now stam_order hit_order s =
     (if \<not> g_any s then ([], m, s)
      else case tick_loop now stam_order [] m s of
        (plays, m, s) \<Rightarrow>
          (case drain_loop now hit_order [] s of
             (due, s) \<Rightarrow>
               (case fire_loop due m of
                  (hits, m) \<Rightarrow> (concat (map (\<lambda>(a, idx). set_calls a idx 1) plays) @ hits, m, s))))"

section \<open>Runs\<close>

text \<open>An event with the memory it meets: the registration of an animal, an animation request (with the
  two readings of the clock), a frame, the death of an animal.\<close>

datatype anim_event =
    Spawned u64
  | Requested u64 "string option" u8 u64 u64
  | Frame u64 "u64 list" "u64 list"
  | Died u64

fun anim_step :: "seq_table \<Rightarrow> mem \<times> anim_event \<Rightarrow> anim \<Rightarrow> anim_call list \<times> anim" where
  "anim_step seqs (m, Spawned a) s = ([], Register_hostile a s)"
| "anim_step seqs (m, Requested a req flag now1 now2) s = OnSetAnimation seqs m a req flag now1 now2 s"
| "anim_step seqs (m, Frame now so ho) s = (case OnHitTick m now so ho s of (calls, _, s) \<Rightarrow> (calls, s))"
| "anim_step seqs (m, Died a) s = ([], Forget a s)"

fun anim_run :: "seq_table \<Rightarrow> (mem \<times> anim_event) list \<Rightarrow> anim \<Rightarrow> anim" where
  "anim_run seqs [] s = s"
| "anim_run seqs (e # es) s = anim_run seqs es (snd (anim_step seqs e s))"

end
