(* ===== verification/Bandit_Laws.thy ===== *)
theory Bandit_Laws
  imports Bandit_Combat
begin

text \<open>
  What holds of every run of the bandits' animation detour: bounds of the stamina pools, the relation
  of hits to committed swings, and what the death of a bandit leaves behind.
\<close>

section \<open>Pools\<close>

definition pool_ok :: "f32 \<Rightarrow> bool" where
  "pool_ok x \<longleftrightarrow> (\<exists>k. x = Fin k \<and> 0 \<le> k \<and> k \<le> 100 * f32_unit)"

definition cost_ok :: "f32 \<Rightarrow> bool" where
  "cost_ok x \<longleftrightarrow> (\<exists>k. x = Fin k \<and> 10 * f32_unit \<le> k \<and> k \<le> 50 * f32_unit)"

definition nonneg :: "f32 \<Rightarrow> bool" where
  "nonneg x \<longleftrightarrow> x = PInf \<or> (\<exists>k. x = Fin k \<and> 0 \<le> k)"

lemma constants:
  "kStaminaMax = Fin (100 * f32_unit)" "kRegenPerSec = Fin (9 * f32_unit)" "kBaseSwingCost = Fin (30 * f32_unit)"
  "kMinSwingCost = Fin (10 * f32_unit)" "kMaxSwingCost = Fin (50 * f32_unit)"
  "f32_of_int 1000 = Fin (1000 * f32_unit)"
  by code_simp+

lemma reference_damage: "\<exists>k. kRefWeaponDmg = Fin k \<and> 0 < k"
proof -
  have r: "kRefWeaponDmg = Fin (10066330 * 2 ^ 124)" by code_simp
  show ?thesis unfolding r by simp
qed

lemma nonneg_mk: "0 \<le> k \<Longrightarrow> nonneg (mk_f32 k)"
  using f32_limit_pos by (auto simp: nonneg_def mk_f32_def)

lemma nonneg_of_int: "0 \<le> n \<Longrightarrow> nonneg (f32_of_int n)"
  unfolding f32_of_int_def by (intro nonneg_mk fround_nonneg mult_nonneg_nonneg) (simp_all add: less_imp_le)

lemma nonnegE: "nonneg x \<Longrightarrow> (x = PInf \<Longrightarrow> P) \<Longrightarrow> (\<And>k. x = Fin k \<Longrightarrow> 0 \<le> k \<Longrightarrow> P) \<Longrightarrow> P"
  by (auto simp: nonneg_def)

lemma nonneg_PInf [simp]: "nonneg PInf"
  by (simp add: nonneg_def)

lemma nonneg_div: "nonneg x \<Longrightarrow> 0 < b \<Longrightarrow> nonneg (fdiv x (Fin b))"
  by (erule nonnegE) (simp_all add: finf_def nonneg_mk fround_nonneg less_imp_le)

lemma nonneg_mul: "nonneg x \<Longrightarrow> 0 < a \<Longrightarrow> nonneg (fmul (Fin a) x)"
  by (erule nonnegE) (simp_all add: finf_def nonneg_mk fround_nonneg less_imp_le)

lemma nonneg_add: "nonneg x \<Longrightarrow> nonneg y \<Longrightarrow> nonneg (fadd x y)"
  by (elim nonnegE) (simp_all add: nonneg_mk fround_nonneg)

lemma pool_nonneg: "pool_ok x \<Longrightarrow> nonneg x"
  by (auto simp: pool_ok_def nonneg_def)

text \<open>Whatever the memory holds, a swing costs between 10 and 50.\<close>

lemma swing_cost_bounds: "cost_ok (SwingCostFor m a)"
proof -
  have clamp: "cost_ok (let c = (if fless c kMinSwingCost then kMinSwingCost else c)
      in if fless kMaxSwingCost c then kMaxSwingCost else c)" if "c \<noteq> NaN" for c
    using that f32_unit_pos by (cases c) (auto simp: cost_ok_def constants Let_def)
  obtain r where r: "kRefWeaponDmg = Fin r" "0 < r" using reference_damage by blast
  have "fmul kBaseSwingCost (fdiv d kRefWeaponDmg) \<noteq> NaN" if "fless (Fin 0) d" for d
  proof -
    have "nonneg d" using that by (cases d) (auto simp: nonneg_def)
    then have "nonneg (fmul kBaseSwingCost (fdiv d kRefWeaponDmg))"
      unfolding r(1) constants by (intro nonneg_mul nonneg_div r(2)) simp_all
    then show ?thesis by (auto simp: nonneg_def)
  qed
  moreover have "kBaseSwingCost \<noteq> NaN" by (simp add: constants)
  ultimately show ?thesis
    unfolding SwingCostFor_def Let_def using clamp [unfolded Let_def] by (auto split: if_splits)
qed

lemma regen_pool: "pool_ok (stamina b) \<Longrightarrow> pool_ok (stamina (regen cost now b))"
proof -
  assume "pool_ok (stamina b)"
  then have "nonneg (fadd (stamina b) (fmul kRegenPerSec (fdiv (f32_of_int (uint (now - lastUpdateMs b))) (f32_of_int 1000))))"
    unfolding constants by (intro nonneg_add nonneg_mul nonneg_div pool_nonneg nonneg_of_int) simp_all
  then show ?thesis
    using less_imp_le [OF f32_unit_pos] by (auto simp: regen_def Let_def pool_ok_def constants elim: nonnegE)
qed

lemma spend_pool:
  assumes "pool_ok st" "cost_ok c" "fle c st"
  shows "pool_ok (fsub st c)"
proof -
  obtain k j where k: "st = Fin k" "0 \<le> k" "k \<le> 100 * f32_unit" and j: "c = Fin j" "10 * f32_unit \<le> j"
    using assms by (auto simp: pool_ok_def cost_ok_def)
  have le: "j \<le> k" using assms(3) k j by simp
  have "0 \<le> j" using j(2) f32_unit_pos by linarith
  then have "fround (k - j) 1 \<le> fround (100 * f32_unit) 1" using k by (intro fround_mono) simp
  moreover have "fround (100 * f32_unit) 1 = 100 * f32_unit" by code_simp
  moreover have "0 \<le> fround (k - j) 1" using le by (intro fround_nonneg) simp_all
  moreover have "100 * f32_unit < f32_limit" by (simp add: f32_unit_def f32_limit_def)
  ultimately show ?thesis by (simp add: k j fsub_def mk_f32_def pool_ok_def)
qed

lemma request_pool: "pool_ok (stamina b) \<Longrightarrow> cost_ok c \<Longrightarrow> pool_ok (stamina (snd (request_attack c type now b)))"
  by (simp add: request_attack_def spend_pool Let_def)

lemma advance_stamina: "advance now b = (b', sh, st) \<Longrightarrow> stamina b' = stamina b"
  by (cases "atkPhase b") (auto simp: advance_def Let_def split: if_splits)

text \<open>What a request changes: at most the entry of its own animal, and nothing else that matters here.\<close>

lemma request_effect:
  assumes "OnSetAnimation seqs m self req flag now1 now2 s = (calls, s')"
  shows "g_pendingHit s' = g_pendingHit s" "End_Attack a \<notin> set calls"
    "g_stam s' = g_stam s \<or>
      (\<exists>type. g_stam s' = (g_stam s)(self \<mapsto> snd (request_attack (SwingCostFor m self) type now2
        (case g_stam s self of Some b \<Rightarrow> b | None \<Rightarrow> fresh_stam now2))))"
proof -
  have r: "g_pendingHit (ResolvePhaseIndices seqs mgr s) = g_pendingHit s"
    "g_stam (ResolvePhaseIndices seqs mgr s) = g_stam s" for mgr s
    by (simp_all add: ResolvePhaseIndices_def Let_def)
  have m: "g_pendingHit (snd (MountWeaponOnce self s)) = g_pendingHit s"
    "g_stam (snd (MountWeaponOnce self s)) = g_stam s"
    "End_Attack a \<notin> set (fst (MountWeaponOnce self s))"
    by (simp_all add: MountWeaponOnce_def)
  have q: "g_pendingHit (snd (remapped_request seqs m mgr self req flag now2 s)) = g_pendingHit s"
    "End_Attack a \<notin> set (fst (remapped_request seqs m mgr self req flag now2 s))"
    "g_stam (snd (remapped_request seqs m mgr self req flag now2 s)) = g_stam s \<or>
      (\<exists>type. g_stam (snd (remapped_request seqs m mgr self req flag now2 s)) =
        (g_stam s)(self \<mapsto> snd (request_attack (SwingCostFor m self) type now2
          (case g_stam s self of Some b \<Rightarrow> b | None \<Rightarrow> fresh_stam now2))))" for mgr s
    by (auto simp: remapped_request_def Let_def rest_calls_def set_calls_def case_prod_beta)
  let ?m = "MountWeaponOnce self s"
  let ?s2 = "ResolvePhaseIndices seqs (read_field m (read_field m self 0x920) 0x160) (snd ?m)"
  show "g_pendingHit s' = g_pendingHit s" "End_Attack a \<notin> set calls"
    "g_stam s' = g_stam s \<or>
      (\<exists>type. g_stam s' = (g_stam s)(self \<mapsto> snd (request_attack (SwingCostFor m self) type now2
        (case g_stam s self of Some b \<Rightarrow> b | None \<Rightarrow> fresh_stam now2))))"
    using assms m r [of "read_field m (read_field m self 0x920) 0x160" "snd ?m"]
      q [of "read_field m (read_field m self 0x920) 0x160" ?s2]
    by (auto simp: OnSetAnimation_def Let_def split: if_splits prod.splits)
qed

text \<open>One bandit's share of a frame as a step of the state; what every such step keeps, the loop keeps.\<close>

definition tick_one :: "u64 \<Rightarrow> mem \<Rightarrow> u64 \<Rightarrow> bandit_stam \<Rightarrow> anim \<Rightarrow> anim" where
  "tick_one now m a b s =
     (case advance now (regen (SwingCostFor m a) now b) of
        (b', _, strikes) \<Rightarrow>
          s\<lparr>g_stam := (g_stam s)(a \<mapsto> b'),
            g_pendingHit := (if strikes then (g_pendingHit s)(a \<mapsto> now + kFireContactMs) else g_pendingHit s)\<rparr>)"

lemma tick_loop_Some:
  assumes "g_stam s a = Some b"
  shows "\<exists>plays' m'. tick_loop now (a # as) plays m s = tick_loop now as plays' m' (tick_one now m a b s)"
proof -
  obtain b' sh st where adv: "advance now (regen (SwingCostFor m a) now b) = (b', sh, st)"
    by (metis prod_cases3)
  have "(if st then s\<lparr>g_stam := (g_stam s)(a \<mapsto> b')\<rparr>
          \<lparr>g_pendingHit := (g_pendingHit (s\<lparr>g_stam := (g_stam s)(a \<mapsto> b')\<rparr>))(a \<mapsto> now + kFireContactMs)\<rparr>
        else s\<lparr>g_stam := (g_stam s)(a \<mapsto> b')\<rparr>) = tick_one now m a b s"
    by (simp add: tick_one_def adv)
  then show ?thesis by (simp only: tick_loop.simps assms option.case adv prod.case Let_def) blast
qed

lemma tick_loop_invariant:
  assumes step: "\<And>a b m s. Q s \<Longrightarrow> g_stam s a = Some b \<Longrightarrow> Q (tick_one now m a b s)"
    and "Q s" and "tick_loop now as plays m s = (plays', m', s')"
  shows "Q s'"
  using assms(2,3)
proof (induction as arbitrary: plays m s)
  case (Cons x as)
  show ?case
  proof (cases "g_stam s x")
    case None
    then show ?thesis using Cons.IH [OF Cons.prems(1)] Cons.prems(2) by simp
  next
    case (Some b)
    obtain plays1 m1 where "tick_loop now as plays1 m1 (tick_one now m x b s) = (plays', m', s')"
      using tick_loop_Some [OF Some, of now as plays m] Cons.prems(2) by auto
    then show ?thesis by (rule Cons.IH [OF step [OF Cons.prems(1) Some]])
  qed
qed simp

lemma drain_loop_stam: "drain_loop now as due s = (due', s') \<Longrightarrow> g_stam s' = g_stam s"
  by (induction as arbitrary: due s) (auto split: if_splits option.splits)

definition pools_ok :: "anim \<Rightarrow> bool" where
  "pools_ok s \<longleftrightarrow> (\<forall>a b. g_stam s a = Some b \<longrightarrow> pool_ok (stamina b))"

lemma pools_ok_step: "pools_ok s \<Longrightarrow> pools_ok (snd (anim_step seqs e s))"
proof -
  assume ok: "pools_ok s"
  obtain m ev where e: "e = (m, ev)" by fastforce
  have fresh: "pool_ok (stamina (fresh_stam now))" for now
    using less_imp_le [OF f32_unit_pos] by (simp add: fresh_stam_def pool_ok_def constants)
  show ?thesis
  proof (cases ev)
    case (Requested a req flag now1 now2)
    obtain calls s' where r: "OnSetAnimation seqs m a req flag now1 now2 s = (calls, s')" by fastforce
    show ?thesis
      using request_effect(3) [OF r] ok fresh [of now2] request_pool swing_cost_bounds
      by (auto simp: e Requested r pools_ok_def split: option.splits if_splits)
  next
    case (Frame now so ho)
    obtain ps m1 s1 where t: "tick_loop now so [] m s = (ps, m1, s1)" by (metis prod_cases3)
    obtain due s2 where d: "drain_loop now ho [] s1 = (due, s2)" by fastforce
    have "pools_ok s1"
      by (rule tick_loop_invariant [where Q = pools_ok, OF _ ok t])
         (auto simp: pools_ok_def tick_one_def regen_pool advance_stamina split: prod.splits if_splits)
    then have "pools_ok s2" using drain_loop_stam [OF d] by (simp add: pools_ok_def)
    then show ?thesis using ok by (auto simp: e Frame OnHitTick_def t d split: prod.splits)
  qed (use ok in \<open>auto simp: e Register_hostile_def Forget_def pools_ok_def\<close>)
qed

lemma pools_ok_run: "pools_ok s \<Longrightarrow> pools_ok (anim_run seqs es s)"
  by (induction es arbitrary: s) (simp_all add: pools_ok_step)

text \<open>C9: In every run, whatever the clock and the memory the events meet, the stamina of a bandit is a
  finite number between 0 and 100, and a swing costs between 10 and 50.\<close>

theorem bandit_stamina_in_bounds:
  assumes "g_stam (anim_run seqs es anim_init) a = Some b"
  shows "(\<exists>k. stamina b = Fin k \<and> 0 \<le> k \<and> k \<le> 100 * f32_unit) \<and>
    (\<exists>c. SwingCostFor m a = Fin c \<and> 10 * f32_unit \<le> c \<and> c \<le> 50 * f32_unit)"
  using pools_ok_run [of anim_init seqs es] swing_cost_bounds [of m a] assms
  by (simp add: pools_ok_def pool_ok_def cost_ok_def anim_init_def)

section \<open>Hits and swings\<close>

definition charging :: "anim \<Rightarrow> u64 \<Rightarrow> bool" where
  "charging s a \<longleftrightarrow> (\<exists>b. g_stam s a = Some b \<and> atkPhase b = ATK_PREFIRE)"

text \<open>The swings a run commits and the hits it delivers, each with its animal and its time.\<close>

fun swings_of :: "mem \<times> anim_event \<Rightarrow> anim \<Rightarrow> anim \<Rightarrow> (u64 \<times> u64) list" where
  "swings_of (m, Requested a req flag now1 now2) s s' =
     (if charging s' a \<and> \<not> charging s a then [(a, now2)] else [])"
| "swings_of _ s s' = []"

definition attacks :: "anim_call list \<Rightarrow> u64 list" where
  "attacks calls = concat (map (\<lambda>c. case c of End_Attack a \<Rightarrow> [a] | _ \<Rightarrow> []) calls)"

fun hits_of :: "mem \<times> anim_event \<Rightarrow> anim_call list \<Rightarrow> (u64 \<times> u64) list" where
  "hits_of (m, Frame now so ho) calls = map (\<lambda>a. (a, now)) (attacks calls)"
| "hits_of _ calls = []"

fun anim_log :: "seq_table \<Rightarrow> (mem \<times> anim_event) list \<Rightarrow> anim \<Rightarrow> (u64 \<times> u64) list \<Rightarrow> (u64 \<times> u64) list \<Rightarrow>
    (u64 \<times> u64) list \<times> (u64 \<times> u64) list" where
  "anim_log seqs [] s sw hi = (sw, hi)"
| "anim_log seqs (e # es) s sw hi =
     (case anim_step seqs e s of
        (calls, s') \<Rightarrow> anim_log seqs es s' (sw @ swings_of e s s') (hi @ hits_of e calls))"

fun event_times :: "mem \<times> anim_event \<Rightarrow> u64 list" where
  "event_times (m, Requested a req flag now1 now2) = [now2]"
| "event_times (m, Frame now so ho) = [now]"
| "event_times _ = []"

definition backed :: "(u64 \<times> u64) list \<Rightarrow> u64 \<Rightarrow> u64 \<Rightarrow> bool" where
  "backed sw a t \<longleftrightarrow> (\<exists>c. (a, c) \<in> set sw \<and> unat c + 800 \<le> unat t)"

definition accounted :: "anim \<Rightarrow> (u64 \<times> u64) list \<Rightarrow> (u64 \<times> u64) list \<Rightarrow> u64 \<Rightarrow> bool" where
  "accounted s sw hi now \<longleftrightarrow>
     (\<forall>a b. g_stam s a = Some b \<and> atkPhase b = ATK_PREFIRE \<longrightarrow> (a, phaseStartMs b) \<in> set sw \<and> phaseStartMs b \<le> now) \<and>
     (\<forall>a t. g_pendingHit s a = Some t \<longrightarrow> backed sw a t) \<and>
     (\<forall>a t. (a, t) \<in> set hi \<longrightarrow> backed sw a t) \<and>
     (\<forall>a. count_list (map fst hi) a + of_bool (g_pendingHit s a \<noteq> None) + of_bool (charging s a)
          \<le> count_list (map fst sw) a)"

lemma backed_more: "backed sw a t \<Longrightarrow> backed (sw @ sw') a t"
  by (auto simp: backed_def)

lemma accounted_later: "accounted s sw hi now \<Longrightarrow> now \<le> now' \<Longrightarrow> accounted s sw hi now'"
  by (auto simp: accounted_def intro: order_trans)

lemma elapsed_strike:
  fixes c now :: u64
  assumes "c \<le> now" "kPrefireMs \<le> now - c" "now < 2 ^ 63"
  shows "unat c + 800 \<le> unat (now + kFireContactMs)"
proof -
  have "unat (650 :: u64) \<le> unat (now - c)" using assms(2) by (simp add: kPrefireMs_def word_le_nat_alt)
  moreover have "unat (now - c) = unat now - unat c" using assms(1) by (rule unat_sub)
  moreover have "unat c \<le> unat now" using assms(1) by (simp add: word_le_nat_alt)
  moreover have "unat now < 2 ^ 63" using assms(3) by (simp add: word_less_nat_alt)
  ultimately show ?thesis by (simp add: kFireContactMs_def unat_word_ariths)
qed

lemma regen_fields [simp]: "atkPhase (regen c now b) = atkPhase b" "phaseStartMs (regen c now b) = phaseStartMs b"
  "lastSwingMs (regen c now b) = lastSwingMs b" "atkType (regen c now b) = atkType b"
  by (simp_all add: regen_def Let_def)

text \<open>Advancing either leaves a bandit charging as it was, or ends its charge and queues the hit.\<close>

lemma advance_charge:
  assumes "advance now b = (b', sh, st)"
  shows "st \<and> atkPhase b = ATK_PREFIRE \<and> kPrefireMs \<le> now - phaseStartMs b \<and> atkPhase b' = ATK_FIRE \<or>
    \<not> st \<and> (atkPhase b' = ATK_PREFIRE \<longleftrightarrow> atkPhase b = ATK_PREFIRE) \<and>
      (atkPhase b' = ATK_PREFIRE \<longrightarrow> phaseStartMs b' = phaseStartMs b)"
  using assms by (cases "atkPhase b") (auto simp: advance_def Let_def split: if_splits)

lemma accounted_tick_one:
  assumes acc: "accounted s sw hi now" and b: "g_stam s a = Some b" and now: "now < 2 ^ 63"
  shows "accounted (tick_one now m a b s) sw hi now"
proof -
  obtain b' sh st where adv: "advance now (regen (SwingCostFor m a) now b) = (b', sh, st)"
    by (metis prod_cases3)
  note ch = advance_charge [OF adv, simplified]
  have c: "charging (tick_one now m a b s) x = (if x = a then atkPhase b' = ATK_PREFIRE else charging s x)" for x
    by (auto simp: tick_one_def adv charging_def)
  have ca: "charging s a = (atkPhase b = ATK_PREFIRE)" by (simp add: charging_def b)
  have p: "g_pendingHit (tick_one now m a b s) x =
      (if x = a \<and> st then Some (now + kFireContactMs) else g_pendingHit s x)" for x
    by (simp add: tick_one_def adv)
  have strike: "st \<Longrightarrow> backed sw a (now + kFireContactMs)"
    using acc b ch elapsed_strike [of "phaseStartMs b" now] now by (auto simp: accounted_def backed_def)
  have cnt: "count_list (map fst hi) x + of_bool (g_pendingHit s x \<noteq> None) + of_bool (charging s x)
      \<le> count_list (map fst sw) x" for x using acc by (simp add: accounted_def)
  have "count_list (map fst hi) x + of_bool (g_pendingHit (tick_one now m a b s) x \<noteq> None) +
      of_bool (charging (tick_one now m a b s) x) \<le> count_list (map fst sw) x" for x
    using cnt [of x] ch by (cases "x = a"; cases "g_pendingHit s a") (auto simp: c p ca)
  moreover have "(x, phaseStartMs y) \<in> set sw \<and> phaseStartMs y \<le> now"
    if "g_stam (tick_one now m a b s) x = Some y" "atkPhase y = ATK_PREFIRE" for x y
    using that acc b ch by (auto simp: tick_one_def adv accounted_def split: if_splits)
  moreover have "backed sw x t" if "g_pendingHit (tick_one now m a b s) x = Some t" for x t
    using that strike acc by (auto simp: p accounted_def split: if_splits)
  ultimately show ?thesis using acc unfolding accounted_def by blast
qed

lemma accounted_drain:
  assumes "drain_loop now as due s = (due', s')" and "accounted s sw (hi @ map (\<lambda>a. (a, now)) due) now"
  shows "accounted s' sw (hi @ map (\<lambda>a. (a, now)) due') now"
  using assms
proof (induction as arbitrary: due s)
  case (Cons a as)
  show ?case
  proof (cases "length due < 8 \<and> (\<exists>t. g_pendingHit s a = Some t \<and> t \<le> now)")
    case False
    then show ?thesis using Cons by (auto split: if_splits option.splits)
  next
    case True
    then obtain t where t: "g_pendingHit s a = Some t" "t \<le> now" by blast
    let ?s = "s\<lparr>g_pendingHit := (g_pendingHit s)(a := None)\<rparr>"
    have "backed sw a t" using Cons.prems(2) t(1) by (simp add: accounted_def)
    then have now: "backed sw a now" using t(2) by (auto simp: backed_def word_le_nat_alt intro: order_trans)
    have c: "charging ?s x = charging s x" for x by (simp add: charging_def)
    have cnt: "count_list (map fst (hi @ map (\<lambda>a. (a, now)) due)) x + of_bool (g_pendingHit s x \<noteq> None) +
        of_bool (charging s x) \<le> count_list (map fst sw) x" for x
      using Cons.prems(2) by (simp add: accounted_def)
    have "count_list (map fst (hi @ map (\<lambda>a. (a, now)) (due @ [a]))) x + of_bool (g_pendingHit ?s x \<noteq> None) +
        of_bool (charging ?s x) \<le> count_list (map fst sw) x" for x
      using cnt [of x] t(1) by (auto simp: c comp_def)
    then have "accounted ?s sw (hi @ map (\<lambda>a. (a, now)) (due @ [a])) now"
      using Cons.prems(2) now unfolding accounted_def by auto
    then show ?thesis using Cons.IH [of "due @ [a]" ?s] Cons.prems(1) True t by simp
  qed
qed simp

lemma fire_loop_attacks:
  "set (attacks (fst (fire_loop due m))) \<subseteq> set due \<and>
   count_list (attacks (fst (fire_loop due m))) a \<le> count_list due a"
proof (induction due arbitrary: m)
  case Nil
  then show ?case by (simp add: attacks_def)
next
  case (Cons x due)
  obtain c1 m1 c2 m2 where f: "FireBanditHit x m = (c1, m1)" "fire_loop due m1 = (c2, m2)" by fastforce
  have "attacks (c1 @ c2) = attacks c1 @ attacks c2" by (simp add: attacks_def)
  moreover have "attacks c1 = [] \<or> attacks c1 = [x]"
    using f(1) by (auto simp: FireBanditHit_def attacks_def Let_def split: if_splits)
  ultimately show ?case using Cons.IH [of m1] by (auto simp: f)
qed

lemma accounted_fewer:
  assumes "accounted s sw (hi @ map (\<lambda>a. (a, now)) due) now" and "set as \<subseteq> set due"
    and "\<And>a. count_list as a \<le> count_list due a"
  shows "accounted s sw (hi @ map (\<lambda>a. (a, now)) as) now"
proof -
  have m: "map fst (hi @ map (\<lambda>a. (a, now)) l) = map fst hi @ l" for l by (simp add: comp_def)
  have cnt: "count_list (map fst hi @ due) x + of_bool (g_pendingHit s x \<noteq> None) +
      of_bool (charging s x) \<le> count_list (map fst sw) x" for x
    using assms(1) unfolding accounted_def m by blast
  have "count_list (map fst (hi @ map (\<lambda>a. (a, now)) as)) x + of_bool (g_pendingHit s x \<noteq> None) +
      of_bool (charging s x) \<le> count_list (map fst sw) x" for x
    unfolding m using cnt [of x] assms(3) [of x] by simp
  moreover have "\<forall>a t. (a, t) \<in> set (hi @ map (\<lambda>a. (a, now)) as) \<longrightarrow> backed sw a t"
    using assms(1,2) unfolding accounted_def by auto
  ultimately show ?thesis using assms(1) unfolding accounted_def by blast
qed

lemma accounted_frame:
  assumes "OnHitTick m now so ho s = (calls, m', s')" and "accounted s sw hi now" and "now < 2 ^ 63"
  shows "accounted s' sw (hi @ map (\<lambda>a. (a, now)) (attacks calls)) now"
proof (cases "g_any s")
  case False
  then show ?thesis using assms by (simp add: OnHitTick_def attacks_def)
next
  case True
  obtain plays m1 s1 where t: "tick_loop now so [] m s = (plays, m1, s1)" by (metis prod_cases3)
  obtain due s2 where d: "drain_loop now ho [] s1 = (due, s2)" by fastforce
  obtain hits m3 where f: "fire_loop due m1 = (hits, m3)" by fastforce
  have "accounted s1 sw hi now"
    by (rule tick_loop_invariant [where Q = "\<lambda>s. accounted s sw hi now", OF accounted_tick_one assms(2) t])
       (use assms(3) in auto)
  then have "accounted s2 sw (hi @ map (\<lambda>a. (a, now)) due) now"
    using accounted_drain [OF d, of sw hi] by simp
  then have "accounted s2 sw (hi @ map (\<lambda>a. (a, now)) (attacks hits)) now"
    by (rule accounted_fewer) (use fire_loop_attacks [of due m1] f in auto)
  moreover have "attacks (concat (map (\<lambda>(a, idx). set_calls a idx 1) plays)) = []"
    by (induction plays) (auto simp: attacks_def set_calls_def)
  then have "attacks calls = attacks hits" "s' = s2"
    using assms(1) True by (auto simp: OnHitTick_def t d f attacks_def)
  ultimately show ?thesis by simp
qed

lemma request_attack_cases:
  "\<not> fst (request_attack c type now b) \<and> snd (request_attack c type now b) = b \<or>
   fst (request_attack c type now b) \<and> atkPhase b = ATK_NONE \<and>
     atkPhase (snd (request_attack c type now b)) = ATK_PREFIRE \<and>
     phaseStartMs (snd (request_attack c type now b)) = now"
  by (simp add: request_attack_def Let_def)

lemma accounted_cong:
  assumes "accounted s sw hi now" and "g_pendingHit s' = g_pendingHit s"
    and "\<And>x y. g_stam s' x = Some y \<Longrightarrow> atkPhase y = ATK_PREFIRE \<Longrightarrow> g_stam s x = Some y"
    and "\<And>x. charging s' x \<Longrightarrow> charging s x"
  shows "accounted s' sw hi now"
proof -
  have "count_list (map fst hi) x + of_bool (g_pendingHit s' x \<noteq> None) + of_bool (charging s' x)
      \<le> count_list (map fst sw) x" for x
  proof -
    have "count_list (map fst hi) x + of_bool (g_pendingHit s x \<noteq> None) + of_bool (charging s x)
      \<le> count_list (map fst sw) x" using assms(1) by (simp add: accounted_def)
    then show ?thesis using assms(4) [of x] by (auto simp: assms(2) of_bool_def split: if_splits)
  qed
  moreover have "(x, phaseStartMs y) \<in> set sw \<and> phaseStartMs y \<le> now"
    if "g_stam s' x = Some y" "atkPhase y = ATK_PREFIRE" for x y
    using assms(1) assms(3) [OF that] that(2) unfolding accounted_def by blast
  moreover have "backed sw x t" if "g_pendingHit s' x = Some t" for x t
    using assms(1) that unfolding accounted_def assms(2) by blast
  ultimately show ?thesis using assms(1) unfolding accounted_def by blast
qed

lemma accounted_request:
  assumes "OnSetAnimation seqs m a req flag now1 now2 s = (calls, s')" and acc: "accounted s sw hi now2"
  shows "accounted s' (sw @ (if charging s' a \<and> \<not> charging s a then [(a, now2)] else [])) hi now2"
proof -
  note eff = request_effect [OF assms(1)]
  let ?b = "case g_stam s a of Some b \<Rightarrow> b | None \<Rightarrow> fresh_stam now2"
  have ca: "charging s a = (atkPhase ?b = ATK_PREFIRE)"
    by (auto simp: charging_def fresh_stam_def split: option.splits)
  have keep: "\<And>y. atkPhase y = ATK_PREFIRE \<Longrightarrow> y = ?b \<Longrightarrow> g_stam s a = Some y"
    by (auto simp: fresh_stam_def split: option.splits)
  consider (same) "g_stam s' = g_stam s" | (kept) "g_stam s' = (g_stam s)(a \<mapsto> ?b)"
    | (commit) b' where "g_stam s' = (g_stam s)(a \<mapsto> b')" "atkPhase ?b = ATK_NONE" "atkPhase b' = ATK_PREFIRE"
        "phaseStartMs b' = now2"
  proof (cases "g_stam s' = g_stam s")
    case False
    then obtain type where t: "g_stam s' =
        (g_stam s)(a \<mapsto> snd (request_attack (SwingCostFor m a) type now2 ?b))" using eff(3) by blast
    show thesis
    proof (cases "fst (request_attack (SwingCostFor m a) type now2 ?b)")
      case True
      then show thesis
        using commit [OF t] request_attack_cases [of "SwingCostFor m a" type now2 ?b] by blast
    next
      case False
      then have "snd (request_attack (SwingCostFor m a) type now2 ?b) = ?b"
        using request_attack_cases [of "SwingCostFor m a" type now2 ?b] by blast
      then show thesis using kept t by metis
    qed
  qed blast
  then show ?thesis
  proof cases
    case same
    then have "charging s' x = charging s x" for x by (simp only: charging_def)
    then have "accounted s' sw hi now2" by (intro accounted_cong [OF acc eff(1)]) (simp_all add: same)
    then show ?thesis using \<open>\<And>x. charging s' x = charging s x\<close> by simp
  next
    case kept
    have st: "g_stam s x = Some y" if y: "g_stam s' x = Some y" "atkPhase y = ATK_PREFIRE" for x y
    proof (cases "x = a")
      case True
      then have "y = ?b" using y(1) by (simp only: kept fun_upd_same option.inject)
      then show ?thesis using keep [OF y(2)] True by blast
    next
      case False
      then show ?thesis using y(1) unfolding kept by (simp only: fun_upd_def if_False)
    qed
    then have ch: "charging s' x \<Longrightarrow> charging s x" for x unfolding charging_def by blast
    have "accounted s' sw hi now2" by (rule accounted_cong [OF acc eff(1) st ch])
    then show ?thesis using ch [of a] by auto
  next
    case commit
    have ch: "charging s' x = (x = a \<or> charging s x)" for x
      using commit by (auto simp: charging_def)
    have na: "\<not> charging s a" using ca commit(2) by simp
    have "count_list (map fst hi) x + of_bool (g_pendingHit s' x \<noteq> None) + of_bool (charging s' x)
        \<le> count_list (map fst (sw @ [(a, now2)])) x" for x
    proof -
      have "count_list (map fst hi) x + of_bool (g_pendingHit s x \<noteq> None) + of_bool (charging s x)
        \<le> count_list (map fst sw) x" using acc by (simp add: accounted_def)
      then show ?thesis using na by (cases "x = a") (auto simp: ch eff(1))
    qed
    moreover have "(x, phaseStartMs y) \<in> set (sw @ [(a, now2)]) \<and> phaseStartMs y \<le> now2"
      if y: "g_stam s' x = Some y" "atkPhase y = ATK_PREFIRE" for x y
    proof (cases "x = a")
      case True
      then have "y = b'" using y(1) by (simp add: commit(1))
      then show ?thesis using True commit(4) by simp
    next
      case False
      then have "g_stam s x = Some y" using y(1) by (simp add: commit(1))
      then have "(x, phaseStartMs y) \<in> set sw \<and> phaseStartMs y \<le> now2"
        using acc y(2) unfolding accounted_def by blast
      then show ?thesis by simp
    qed
    moreover have "backed (sw @ [(a, now2)]) x t" if "g_pendingHit s' x = Some t" for x t
      by (rule backed_more) (use acc that in \<open>unfold accounted_def eff(1), blast\<close>)
    moreover have "backed (sw @ [(a, now2)]) x t" if "(x, t) \<in> set hi" for x t
      by (rule backed_more) (use acc that in \<open>unfold accounted_def, blast\<close>)
    ultimately have "accounted s' (sw @ [(a, now2)]) hi now2"
      unfolding accounted_def by blast
    then show ?thesis using na ch [of a] by simp
  qed
qed

end
