(* ===== verification/Bandit_Runs.thy ===== *)
theory Bandit_Runs
  imports Bandit_Laws
begin

text \<open>
  The properties of runs of the bandits' animation detour: every hit follows a committed swing, a dead
  bandit hits nobody, and a committed attack goes through its three phases. The accounting of
  \<open>Bandit_Laws\<close> is carried through a run here, and the frame tick is followed for one bandit.
\<close>

section \<open>Hits follow swings\<close>

lemma accounted_step:
  assumes "accounted s sw hi now" and "sorted (now # event_times e)" and "\<forall>t\<in>set (event_times e). t < 2 ^ 63"
    and "anim_step seqs e s = (calls, s')"
  shows "accounted s' (sw @ swings_of e s s') (hi @ hits_of e calls) (last (now # event_times e))"
proof -
  obtain m ev where e: "e = (m, ev)" by fastforce
  show ?thesis
  proof (cases ev)
    case (Spawned a)
    then have "s' = Register_hostile a s" "calls = []" using assms(4) by (simp_all add: e)
    then show ?thesis using assms(1)
      by (auto simp: e Spawned accounted_def Register_hostile_def charging_def)
  next
    case (Requested a req flag now1 now2)
    have "accounted s sw hi now2"
      using assms(1,2) by (auto intro: accounted_later simp: e Requested)
    then show ?thesis
      using accounted_request [of seqs m a req flag now1 now2 s calls s' sw hi] assms(4) by (simp add: e Requested)
  next
    case (Frame t so ho)
    obtain m' where "OnHitTick m t so ho s = (calls, m', s')"
      using assms(4) by (auto simp: e Frame split: prod.splits)
    moreover have "accounted s sw hi t" "t < 2 ^ 63"
      using assms(1-3) by (auto intro: accounted_later simp: e Frame)
    ultimately show ?thesis
      using accounted_frame [of m t so ho s calls m' s' sw hi] by (simp add: e Frame)
  next
    case (Died a)
    then have s': "s' = Forget a s" "calls = []" using assms(4) by (simp_all add: e)
    have "accounted (Forget a s) sw hi now"
    proof (cases "a = 0")
      case False
      have bk: "\<forall>x t. g_pendingHit s x = Some t \<longrightarrow> backed sw x t" and
        st: "\<forall>x y. g_stam s x = Some y \<and> atkPhase y = ATK_PREFIRE \<longrightarrow>
          (x, phaseStartMs y) \<in> set sw \<and> phaseStartMs y \<le> now" and
        hi: "\<forall>x t. (x, t) \<in> set hi \<longrightarrow> backed sw x t"
        using assms(1) unfolding accounted_def by blast+
      have cnt: "count_list (map fst hi) x + of_bool (g_pendingHit s x \<noteq> None) + of_bool (charging s x)
          \<le> count_list (map fst sw) x" for x using assms(1) by (simp add: accounted_def)
      have "count_list (map fst hi) x + of_bool (g_pendingHit (Forget a s) x \<noteq> None) +
          of_bool (charging (Forget a s) x) \<le> count_list (map fst sw) x" for x
        using cnt [of x] by (cases "x = a") (auto simp: Forget_def charging_def False)
      moreover have "g_pendingHit s x = Some t" if "g_pendingHit (Forget a s) x = Some t" for x t
        using that by (auto simp: Forget_def False split: if_splits)
      moreover have "g_stam s x = Some y" if "g_stam (Forget a s) x = Some y" for x y
        using that by (auto simp: Forget_def False split: if_splits)
      ultimately show ?thesis using bk st hi unfolding accounted_def by blast
    qed (use assms(1) in \<open>simp add: Forget_def\<close>)
    then show ?thesis by (simp add: e Died s')
  qed
qed

lemma accounted_log:
  assumes "accounted s sw hi now" and "sorted (now # concat (map event_times es))"
    and "\<forall>t\<in>set (concat (map event_times es)). t < 2 ^ 63" and "anim_log seqs es s sw hi = (sw', hi')"
  shows "\<exists>s' now'. accounted s' sw' hi' now'"
  using assms
proof (induction es arbitrary: s sw hi now)
  case (Cons e es)
  obtain calls s' where st: "anim_step seqs e s = (calls, s')" by fastforce
  have e: "sorted (now # event_times e)" "\<forall>t\<in>set (event_times e). t < 2 ^ 63"
    using Cons.prems(2,3) by (auto simp: sorted_append)
  have "sorted (last (now # event_times e) # concat (map event_times es))"
    using Cons.prems(2) by (auto simp: sorted_append)
  moreover have "anim_log seqs es s' (sw @ swings_of e s s') (hi @ hits_of e calls) = (sw', hi')"
    using Cons.prems(4) by (simp add: st)
  ultimately show ?case
    using Cons.prems(3) by (intro Cons.IH [OF accounted_step [OF Cons.prems(1) e st]]) auto
qed auto

text \<open>C7: In a run whose clock readings are in order, every hit a bandit delivers comes at least 800
  milliseconds (the wind-up and the time to the contact frame) after a swing it committed, and no bandit
  delivers more hits than it committed swings.\<close>

theorem hits_follow_committed_swings:
  assumes "sorted (concat (map event_times es))" and "\<forall>t\<in>set (concat (map event_times es)). t < 2 ^ 63"
    and "anim_log seqs es anim_init [] [] = (swings, hits)"
  shows "(\<forall>(a, t)\<in>set hits. \<exists>c. (a, c) \<in> set swings \<and> unat c + 800 \<le> unat t) \<and>
    count_list (map fst hits) a \<le> count_list (map fst swings) a"
proof -
  have "accounted anim_init [] [] 0" by (simp add: accounted_def anim_init_def charging_def)
  moreover have "sorted ((0 :: u64) # concat (map event_times es))" using assms(1) by simp
  ultimately obtain s' now' where acc: "accounted s' swings hits now'"
    using accounted_log assms(2,3) by blast
  then have "count_list (map fst hits) a + of_bool (g_pendingHit s' a \<noteq> None) + of_bool (charging s' a)
      \<le> count_list (map fst swings) a" by (simp add: accounted_def)
  moreover have "\<forall>(a, t)\<in>set hits. backed swings a t" using acc by (auto simp: accounted_def)
  ultimately show ?thesis by (auto simp: backed_def)
qed

section \<open>Death\<close>

definition idle_at :: "u64 \<Rightarrow> anim \<Rightarrow> bool" where
  "idle_at a s \<longleftrightarrow> g_stam s a = None \<and> g_pendingHit s a = None"

lemma drain_loop_set: "drain_loop now as due s = (due', s') \<Longrightarrow> x \<in> set due' \<Longrightarrow> x \<in> set due \<or> g_pendingHit s x \<noteq> None"
proof (induction as arbitrary: due s)
  case (Cons a as)
  then show ?case
    by (fastforce split: if_splits option.splits)
qed simp

lemma drain_loop_pending: "drain_loop now as due s = (due', s') \<Longrightarrow> g_pendingHit s x = None \<Longrightarrow> g_pendingHit s' x = None"
  by (induction as arbitrary: due s) (auto split: if_splits option.splits)

lemma attacks_set: "End_Attack a \<in> set calls \<longleftrightarrow> a \<in> set (attacks calls)"
  by (induction calls) (auto simp: attacks_def split: anim_call.splits)

lemma idle_frame:
  assumes "OnHitTick m now so ho s = (calls, m', s')" and "idle_at a s"
  shows "idle_at a s' \<and> a \<notin> set (attacks calls)"
proof (cases "g_any s")
  case False
  then show ?thesis using assms by (simp add: OnHitTick_def attacks_def)
next
  case True
  obtain plays m1 s1 where t: "tick_loop now so [] m s = (plays, m1, s1)" by (metis prod_cases3)
  obtain due s2 where d: "drain_loop now ho [] s1 = (due, s2)" by fastforce
  obtain hits m3 where f: "fire_loop due m1 = (hits, m3)" by fastforce
  have "idle_at a s1"
    by (rule tick_loop_invariant [where Q = "idle_at a", OF _ assms(2) t])
       (auto simp: idle_at_def tick_one_def split: prod.splits)
  then have "idle_at a s2" "a \<notin> set due"
    using drain_loop_set [OF d, of a] drain_loop_pending [OF d, of a] drain_loop_stam [OF d]
    by (auto simp: idle_at_def)
  moreover have "attacks (concat (map (\<lambda>(a, idx). set_calls a idx 1) plays)) = []"
    by (induction plays) (auto simp: attacks_def set_calls_def)
  then have "attacks calls = attacks hits" "s' = s2"
    using assms(1) True by (auto simp: OnHitTick_def t d f attacks_def)
  ultimately show ?thesis using fire_loop_attacks [of due m1] f by auto
qed

fun requests_of :: "mem \<times> anim_event \<Rightarrow> u64 option" where
  "requests_of (m, Requested a req flag now1 now2) = Some a"
| "requests_of _ = None"

lemma idle_step:
  assumes "idle_at a s" and "requests_of e \<noteq> Some a" and "anim_step seqs e s = (calls, s')"
  shows "idle_at a s' \<and> a \<notin> fst ` set (hits_of e calls)"
proof -
  obtain m ev where e: "e = (m, ev)" by fastforce
  show ?thesis
  proof (cases ev)
    case (Requested x req flag now1 now2)
    then have "x \<noteq> a" "OnSetAnimation seqs m x req flag now1 now2 s = (calls, s')"
      using assms(2,3) by (auto simp: e)
    then show ?thesis using request_effect assms(1) by (fastforce simp: e Requested idle_at_def)
  next
    case (Frame t so ho)
    obtain m' where "OnHitTick m t so ho s = (calls, m', s')"
      using assms(3) by (auto simp: e Frame split: prod.splits)
    then show ?thesis using idle_frame assms(1) by (auto simp: e Frame)
  qed (use assms in \<open>auto simp: e Register_hostile_def Forget_def idle_at_def\<close>)
qed

lemma idle_log:
  "idle_at a s \<Longrightarrow> \<forall>e\<in>set es. requests_of e \<noteq> Some a \<Longrightarrow> anim_log seqs es s sw hi = (sw', hi') \<Longrightarrow>
   a \<notin> fst ` set hi \<Longrightarrow> a \<notin> fst ` set hi'"
proof (induction es arbitrary: s sw hi)
  case (Cons e es)
  obtain calls s' where st: "anim_step seqs e s = (calls, s')" by fastforce
  then have "idle_at a s'" "a \<notin> fst ` set (hits_of e calls)"
    using idle_step [OF Cons.prems(1) _ st] Cons.prems(2) by auto
  moreover have "anim_log seqs es s' (sw @ swings_of e s s') (hi @ hits_of e calls) = (sw', hi')"
    using Cons.prems(3) by (simp add: st)
  moreover have "a \<notin> fst ` set (hi @ hits_of e calls)"
    using Cons.prems(4) calculation(2) by (simp only: set_append image_Un Un_iff simp_thms)
  moreover have "\<forall>e\<in>set es. requests_of e \<noteq> Some a" using Cons.prems(2) by simp
  ultimately show ?case by (intro Cons.IH)
qed simp

text \<open>After the death of a bandit no hit is delivered in its name, whatever it had charged or queued,
  in any state and however the run goes on, as long as no new animation request is made for it.\<close>

theorem no_hit_after_death:
  assumes "a \<noteq> 0" and "\<forall>e\<in>set es. requests_of e \<noteq> Some a"
    and "anim_log seqs ((m, Died a) # es) s [] [] = (swings, hits)"
  shows "a \<notin> fst ` set hits"
proof -
  have "idle_at a (Forget a s)" using assms(1) by (simp add: idle_at_def Forget_def)
  moreover have "anim_log seqs es (Forget a s) [] [] = (swings, hits)" using assms(3) by simp
  ultimately show ?thesis using idle_log [OF _ assms(2)] by simp
qed

text \<open>The death of a bandit does not end its registration: the address stays marked, so that an
  animal allocated there later, bandit or not, has its animations remapped and is given a sword.\<close>

theorem forgotten_address_stays_hostile:
  "IsHostile (Forget a s) x = IsHostile s x \<and>
   (a \<noteq> 0 \<longrightarrow> IsHostile s a \<longrightarrow>
     Mount_Weapon a kBanditWeaponImageId \<in> set (fst (OnSetAnimation seqs m a req flag now1 now2 (Forget a s))))"
  by (auto simp: IsHostile_def Forget_def OnSetAnimation_def MountWeaponOnce_def Let_def split: prod.splits)

section \<open>The three phases\<close>

lemma tick_loop_absent: "a \<notin> set as \<Longrightarrow> tick_loop now as plays m s = (plays', m', s') \<Longrightarrow>
   g_stam s' a = g_stam s a \<and> g_pendingHit s' a = g_pendingHit s a"
proof (induction as arbitrary: plays m s)
  case (Cons x as)
  show ?case
  proof (cases "g_stam s x")
    case (Some b)
    obtain plays1 m1 where "tick_loop now as plays1 m1 (tick_one now m x b s) = (plays', m', s')"
      using tick_loop_Some [OF Some, of now as plays m] Cons.prems(2) by auto
    then show ?thesis using Cons.IH [of plays1 m1 "tick_one now m x b s"] Cons.prems(1)
      by (auto simp: tick_one_def split: prod.splits)
  qed (use Cons in simp)
qed simp

lemma tick_loop_entry:
  assumes "distinct as" "a \<in> set as" "g_stam s a = Some b" "tick_loop now as plays m s = (plays', m', s')"
  shows "\<exists>c. case advance now (regen c now b) of (b', sh, st) \<Rightarrow>
     g_stam s' a = Some b' \<and> g_pendingHit s' a = (if st then Some (now + kFireContactMs) else g_pendingHit s a)"
  using assms
proof (induction as arbitrary: plays m s)
  case (Cons x as)
  show ?case
  proof (cases "x = a")
    case True
    obtain plays1 m1 where t: "tick_loop now as plays1 m1 (tick_one now m a b s) = (plays', m', s')"
      using tick_loop_Some [OF Cons.prems(3), of now as plays m] Cons.prems(4) True by auto
    have "a \<notin> set as" using Cons.prems(1) True by simp
    then show ?thesis using tick_loop_absent [OF _ t]
      by (intro exI [of _ "SwingCostFor m a"]) (auto simp: tick_one_def split: prod.splits)
  next
    case False
    show ?thesis
    proof (cases "g_stam s x")
      case (Some y)
      obtain plays1 m1 where t: "tick_loop now as plays1 m1 (tick_one now m x y s) = (plays', m', s')"
        using tick_loop_Some [OF Some, of now as plays m] Cons.prems(4) by auto
      have "g_stam (tick_one now m x y s) a = Some b" "g_pendingHit (tick_one now m x y s) a = g_pendingHit s a"
        using False Cons.prems(3) by (simp_all add: tick_one_def split: prod.splits)
      then show ?thesis using Cons.IH [OF _ _ _ t] Cons.prems(1,2) False by (simp only: distinct.simps set_simps insert_iff) simp
    qed (use Cons False in simp)
  qed
qed simp

lemma tick_loop_any: "tick_loop now as plays m s = (plays', m', s') \<Longrightarrow> g_any s' = g_any s"
proof -
  assume t: "tick_loop now as plays m s = (plays', m', s')"
  show ?thesis
    by (rule tick_loop_invariant [where Q = "\<lambda>x. g_any x = g_any s", OF _ refl t])
       (simp add: tick_one_def split: prod.splits)
qed

lemma drain_loop_any: "drain_loop now as due s = (due', s') \<Longrightarrow> g_any s' = g_any s"
  by (induction as arbitrary: due s) (auto split: if_splits option.splits)

lemma drain_loop_keeps: "drain_loop now as due s = (due', s') \<Longrightarrow> g_pendingHit s a = Some t \<Longrightarrow> \<not> t \<le> now \<Longrightarrow>
   g_pendingHit s' a = Some t"
proof (induction as arbitrary: due s)
  case (Cons x as)
  show ?case
  proof (cases "length due < 8 \<and> (\<exists>t'. g_pendingHit s x = Some t' \<and> t' \<le> now)")
    case True
    then have "x \<noteq> a" using Cons.prems(2,3) by auto
    then show ?thesis
      using Cons.IH [of "due @ [x]" "s\<lparr>g_pendingHit := (g_pendingHit s)(x := None)\<rparr>"] Cons.prems True by auto
  next
    case False
    then show ?thesis using Cons by (auto split: if_splits option.splits)
  qed
qed simp

lemma drain_loop_due: "drain_loop now as due s = (due', s') \<Longrightarrow> length due + length as \<le> 8 \<Longrightarrow>
   a \<in> set as \<and> g_pendingHit s a = Some t \<and> t \<le> now \<or> a \<in> set due \<Longrightarrow> a \<in> set due'"
proof (induction as arbitrary: due s)
  case (Cons x as)
  have l: "length due < 8" using Cons.prems(2) by simp
  show ?case
  proof (cases "\<exists>t'. g_pendingHit s x = Some t' \<and> t' \<le> now")
    case True
    then have "drain_loop now as (due @ [x]) (s\<lparr>g_pendingHit := (g_pendingHit s)(x := None)\<rparr>) = (due', s')"
      using Cons.prems(1) l by auto
    then show ?thesis by (rule Cons.IH) (use Cons.prems(2,3) in auto)
  next
    case False
    then have "drain_loop now as due s = (due', s')"
      using Cons.prems(1) l by (auto split: option.splits if_splits)
    then show ?thesis by (rule Cons.IH) (use Cons.prems(2,3) False in auto)
  qed
qed simp

lemma drain_loop_subset: "drain_loop now as due s = (due', s') \<Longrightarrow> set due' \<subseteq> set due \<union> set as"
proof (induction as arbitrary: due s)
  case (Cons x as)
  then show ?case by (fastforce split: if_splits option.splits)
qed simp

text \<open>A frame: what it leaves for a bandit that is in the traversal.\<close>

lemma frame_entry:
  assumes "g_any s" "distinct so" "a \<in> set so" "g_stam s a = Some b" "OnHitTick m now so ho s = (calls, m', s')"
  obtains c b' sh st where "advance now (regen c now b) = (b', sh, st)" "g_stam s' a = Some b'" "g_any s'"
    "st \<Longrightarrow> now < 2 ^ 63 \<Longrightarrow> g_pendingHit s' a = Some (now + kFireContactMs)"
proof -
  obtain plays m1 s1 where t: "tick_loop now so [] m s = (plays, m1, s1)" by (metis prod_cases3)
  obtain due s2 where d: "drain_loop now ho [] s1 = (due, s2)" by fastforce
  have s': "s' = s2" using assms(1,5) by (auto simp: OnHitTick_def t d split: prod.splits)
  obtain c where c: "case advance now (regen c now b) of (b', sh, st) \<Rightarrow>
     g_stam s1 a = Some b' \<and> g_pendingHit s1 a = (if st then Some (now + kFireContactMs) else g_pendingHit s a)"
    using tick_loop_entry [OF assms(2-4) t] by (elim exE)
  obtain b' sh st where adv: "advance now (regen c now b) = (b', sh, st)" by (metis prod_cases3)
  have later: "\<not> now + kFireContactMs \<le> now" if "now < 2 ^ 63"
  proof -
    have "unat now < 2 ^ 63" using that by (simp add: word_less_nat_alt)
    then show ?thesis by (simp add: kFireContactMs_def word_le_nat_alt unat_word_ariths)
  qed
  show thesis
  proof (rule that [OF adv])
    show "g_stam s' a = Some b'" using c drain_loop_stam [OF d] by (simp add: adv s')
    show "g_any s'" using tick_loop_any [OF t] drain_loop_any [OF d] assms(1) by (simp add: s')
    show "g_pendingHit s' a = Some (now + kFireContactMs)" if "st" "now < 2 ^ 63"
      using drain_loop_keeps [OF d _ later [OF that(2)]] c that(1) by (simp add: adv s')
  qed
qed

text \<open>Objects do not overlap: the attack fields of the other bandits are not the weapon field of this one.\<close>

definition apart :: "u64 \<Rightarrow> u64 \<Rightarrow> bool" where
  "apart a x \<longleftrightarrow> outside (a + kWeaponOff) 8 (x + kAttackTypeOff) 4 \<and> outside (a + kWeaponOff) 8 (x + kConsumedOff) 1"

lemma apart_self: "apart a a"
  unfolding apart_def kWeaponOff_def kAttackTypeOff_def kConsumedOff_def
  by (intro conjI outside_before) simp_all

lemma tick_loop_weapon:
  "\<forall>x\<in>set as. apart a x \<Longrightarrow> tick_loop now as plays m s = (plays', m', s') \<Longrightarrow>
   (read_field m' a kWeaponOff :: u64) = read_field m a kWeaponOff"
proof (induction as arbitrary: plays m s)
  case (Cons x as)
  have w: "(read_field (write_field m x kAttackTypeOff (v :: u32)) a kWeaponOff :: u64) = read_field m a kWeaponOff" for v
    by (rule read_write_other) (use Cons.prems(1) in \<open>simp add: apart_def\<close>)
  show ?case
  proof (cases "g_stam s x")
    case (Some b)
    obtain b' sh st where adv: "advance now (regen (SwingCostFor m x) now b) = (b', sh, st)" by (metis prod_cases3)
    obtain plays1 s1 where "tick_loop now as plays1
        (if st then write_field m x kAttackTypeOff (word_of_int (atkType b) :: u32) else m) s1 = (plays', m', s')"
    proof -
      from Cons.prems(2) show thesis
        by (simp only: tick_loop.simps Some option.case adv prod.case Let_def) (rule that)
    qed
    then have "(read_field m' a kWeaponOff :: u64) =
        read_field (if st then write_field m x kAttackTypeOff (word_of_int (atkType b) :: u32) else m) a kWeaponOff"
      by (rule Cons.IH [rotated]) (use Cons.prems(1) in simp)
    then show ?thesis by (simp add: w)
  qed (use Cons in simp)
qed simp

lemma fire_loop_reaches:
  "\<forall>x\<in>set due. apart a x \<Longrightarrow> a \<in> set due \<Longrightarrow> (read_field m a kWeaponOff :: u64) \<noteq> 0 \<Longrightarrow>
   End_Attack a \<in> set (fst (fire_loop due m))"
proof (induction due arbitrary: m)
  case (Cons x due)
  obtain c1 m1 c2 m2 where f: "FireBanditHit x m = (c1, m1)" "fire_loop due m1 = (c2, m2)" by fastforce
  show ?case
  proof (cases "x = a")
    case True
    then have "End_Attack a \<in> set c1" using f(1) Cons.prems(3) by (auto simp: FireBanditHit_def Let_def)
    then show ?thesis by (simp add: f)
  next
    case False
    have w: "(read_field (write_field n x kAttackTypeOff (v :: u32)) a kWeaponOff :: u64) = read_field n a kWeaponOff"
      "(read_field (write_field n x kConsumedOff (u :: u8)) a kWeaponOff :: u64) = read_field n a kWeaponOff" for n v u
      by (rule read_write_other, use Cons.prems(1) in \<open>simp add: apart_def\<close>)+
    have "(read_field m1 a kWeaponOff :: u64) \<noteq> 0"
      using f(1) Cons.prems(3) w by (auto simp: FireBanditHit_def Let_def split: if_splits)
    then have "End_Attack a \<in> set c2" using Cons.IH [of m1] Cons.prems(1,2) False f(2) by auto
    then show ?thesis by (simp add: f)
  qed
qed simp

lemma frame_delivers:
  assumes "g_any s" "\<forall>x\<in>set so \<union> set ho. apart a x" "length ho \<le> 8" "a \<in> set ho"
    and "(read_field m a kWeaponOff :: u64) \<noteq> 0" "g_pendingHit s a = Some t" "t \<le> now"
    and "g_stam s a = Some b" "distinct so" "a \<in> set so" "\<And>c. \<not> snd (snd (advance now (regen c now b)))"
  shows "End_Attack a \<in> set (fst (OnHitTick m now so ho s))"
proof -
  obtain plays m1 s1 where tl: "tick_loop now so [] m s = (plays, m1, s1)" by (metis prod_cases3)
  obtain due s2 where d: "drain_loop now ho [] s1 = (due, s2)" by fastforce
  obtain hits m3 where f: "fire_loop due m1 = (hits, m3)" by fastforce
  obtain c where "case advance now (regen c now b) of (b', sh, st) \<Rightarrow>
     g_stam s1 a = Some b' \<and> g_pendingHit s1 a = (if st then Some (now + kFireContactMs) else g_pendingHit s a)"
    using tick_loop_entry [OF assms(9,10,8) tl] by (elim exE)
  then have "g_pendingHit s1 a = Some t" using assms(6) assms(11) [of c] by (simp add: case_prod_beta)
  then have due: "a \<in> set due" using drain_loop_due [OF d] assms(3,4,7) by auto
  have "set due \<subseteq> set ho"
    using drain_loop_subset [OF d] by simp
  then have "End_Attack a \<in> set hits"
    using fire_loop_reaches [of due a m1] assms(2,5) due tick_loop_weapon [OF _ tl, of a] f by auto
  then show ?thesis using assms(1) by (simp add: OnHitTick_def tl d f)
qed

lemma elapsed: "unat x + n \<le> unat y \<Longrightarrow> n < 2 ^ 64 \<Longrightarrow> word_of_nat n \<le> y - x" for x y :: u64
proof -
  assume n: "unat x + n \<le> unat y" "n < 2 ^ 64"
  then have "x \<le> y" by (simp add: word_le_nat_alt)
  then have "unat (y - x) = unat y - unat x" by (rule unat_sub)
  then show ?thesis using n by (simp add: word_le_nat_alt unat_of_nat)
qed

lemma later_entry:
  assumes "g_any s" "distinct so" "a \<in> set so" "g_stam s a = Some b" "unat (phaseStartMs b) + n \<le> unat t" "n < 2 ^ 64"
  obtains b' where "g_stam (snd (anim_step seqs (m, Frame t so ho) s)) a = Some b'"
    "g_any (snd (anim_step seqs (m, Frame t so ho) s))"
    "atkPhase b = ATK_PREFIRE \<Longrightarrow> n = 650 \<Longrightarrow> t < 2 ^ 63 \<Longrightarrow> atkPhase b' = ATK_FIRE \<and> phaseStartMs b' = t \<and>
       g_pendingHit (snd (anim_step seqs (m, Frame t so ho) s)) a = Some (t + kFireContactMs)"
    "atkPhase b = ATK_FIRE \<Longrightarrow> n = 450 \<Longrightarrow> atkPhase b' = ATK_RECOIL \<and> phaseStartMs b' = t"
    "atkPhase b = ATK_RECOIL \<Longrightarrow> n = 500 \<Longrightarrow> atkPhase b' = ATK_NONE"
proof -
  obtain calls m' s' where h: "OnHitTick m t so ho s = (calls, m', s')" by (metis prod_cases3)
  have s': "snd (anim_step seqs (m, Frame t so ho) s) = s'" by (simp add: h)
  obtain c b' sh st where f: "advance t (regen c t b) = (b', sh, st)" "g_stam s' a = Some b'" "g_any s'"
    "st \<Longrightarrow> t < 2 ^ 63 \<Longrightarrow> g_pendingHit s' a = Some (t + kFireContactMs)"
    using frame_entry [OF assms(1-4) h] by blast
  have el: "word_of_nat n \<le> t - phaseStartMs b" by (rule elapsed [OF assms(5,6)])
  show thesis
  proof (rule that [unfolded s', OF f(2,3)])
    assume a: "atkPhase b = ATK_PREFIRE" "n = 650" "t < 2 ^ 63"
    then show "atkPhase b' = ATK_FIRE \<and> phaseStartMs b' = t \<and> g_pendingHit s' a = Some (t + kFireContactMs)"
      using el f(1,4) by (auto simp: advance_def kPrefireMs_def)
  next
    assume "atkPhase b = ATK_FIRE" "n = 450"
    then show "atkPhase b' = ATK_RECOIL \<and> phaseStartMs b' = t" using el f(1) by (auto simp: advance_def kFireMs_def)
  next
    assume "atkPhase b = ATK_RECOIL" "n = 500"
    then show "atkPhase b' = ATK_NONE" using el f(1) by (auto simp: advance_def kRecoilMs_def)
  qed
qed

text \<open>C8: A committed attack completes: three frames that come at least the length of the current phase
  after the phase began take the bandit from the wind-up to the strike, to the recovery and to rest, and
  the second of them delivers the hit when the bandit has a weapon, whatever other bandits are in the
  same tables, as long as no more than eight hits are pending and the objects do not overlap.\<close>

theorem committed_attack_completes:
  assumes "g_any s" and "g_stam s a = Some b" and "atkPhase b = ATK_PREFIRE"
    and "\<forall>so\<in>{so1, so2, so3}. distinct so \<and> a \<in> set so"
    and "unat (phaseStartMs b) + 650 \<le> unat t1" "unat t1 + 450 \<le> unat t2" "unat t2 + 500 \<le> unat t3"
    and "t1 < 2 ^ 63" "length ho2 \<le> 8" "a \<in> set ho2" "\<forall>x\<in>set so2 \<union> set ho2. apart a x"
    and "(read_field m2 a kWeaponOff :: u64) \<noteq> 0"
    and "s1 = snd (anim_step seqs (m1, Frame t1 so1 ho1) s)"
    and "anim_step seqs (m2, Frame t2 so2 ho2) s1 = (calls, s2)"
    and "s3 = snd (anim_step seqs (m3, Frame t3 so3 ho3) s2)"
  shows "map_option atkPhase (g_stam s1 a) = Some ATK_FIRE \<and>
    map_option atkPhase (g_stam s2 a) = Some ATK_RECOIL \<and> End_Attack a \<in> set calls \<and>
    map_option atkPhase (g_stam s3 a) = Some ATK_NONE"
proof -
  have so: "distinct so1" "a \<in> set so1" "distinct so2" "a \<in> set so2" "distinct so3" "a \<in> set so3"
    using assms(4) by blast+
  have s2: "s2 = snd (anim_step seqs (m2, Frame t2 so2 ho2) s1)" using assms(14) by simp
  obtain b1 where b1: "g_stam s1 a = Some b1" "g_any s1" "atkPhase b1 = ATK_FIRE" "phaseStartMs b1 = t1"
    "g_pendingHit s1 a = Some (t1 + kFireContactMs)"
    by (rule later_entry [OF assms(1) so(1,2) assms(2,5), of seqs m1 ho1]) (use assms(3,8,13) in auto)
  obtain b2 where b2: "g_stam s2 a = Some b2" "g_any s2" "atkPhase b2 = ATK_RECOIL" "phaseStartMs b2 = t2"
    by (rule later_entry [OF b1(2) so(3,4) b1(1), of 450 t2 seqs m2 ho2]) (use b1 assms(6) s2 in auto)
  obtain b3 where b3: "g_stam s3 a = Some b3" "atkPhase b3 = ATK_NONE"
    by (rule later_entry [OF b2(2) so(5,6) b2(1), of 500 t3 seqs m3 ho3]) (use b2 assms(7,15) in auto)
  have "unat t1 < 2 ^ 63" using assms(8) by (simp add: word_less_nat_alt)
  then have "t1 + kFireContactMs \<le> t2"
    using assms(6) by (simp add: kFireContactMs_def word_le_nat_alt unat_word_ariths)
  then have "End_Attack a \<in> set (fst (OnHitTick m2 t2 so2 ho2 s1))"
    by (rule frame_delivers [OF b1(2) assms(11,9,10,12) b1(5) _ b1(1) so(3,4)])
       (simp add: advance_def b1(3) Let_def)
  moreover have "calls = fst (OnHitTick m2 t2 so2 ho2 s1)" using assms(14) by (auto split: prod.splits)
  ultimately show ?thesis by (simp add: b1 b2 b3)
qed

section \<open>A concrete run\<close>

text \<open>A bandit at \<open>0x10000\<close> with a shape and a weapon; it swings once.\<close>

definition demo_mem :: mem where
  "demo_mem x = (if x = 0x10922 then 2 else if x = 0x20162 then 3 else if x = 0x124F2 then 4 else 0)"

definition demo_events :: "(mem \<times> anim_event) list" where
  "demo_events = [(demo_mem, Spawned 0x10000), (demo_mem, Requested 0x10000 (Some ''Attack_Fast'') 0 5000 5000),
     (demo_mem, Frame 5650 [0x10000] []), (demo_mem, Frame 6100 [0x10000] [0x10000])]"

lemma charging_code [code]:
  "charging s a \<longleftrightarrow> (case g_stam s a of None \<Rightarrow> False | Some b \<Rightarrow> atkPhase b = ATK_PREFIRE)"
  by (simp add: charging_def split: option.splits)

lemma demo_log: "anim_log (\<lambda>_ _. 7) demo_events anim_init [] [] = ([(0x10000, 5000)], [(0x10000, 6100)])"
  by code_simp

theorem hits_follow_committed_swings_witness:
  "\<exists>swings hits. anim_log (\<lambda>_ _. 7) demo_events anim_init [] [] = (swings, hits) \<and> hits = [(0x10000, 6100)] \<and>
     (\<forall>(a, t)\<in>set hits. \<exists>c. (a, c) \<in> set swings \<and> unat c + 800 \<le> unat t) \<and>
     count_list (map fst hits) 0x10000 \<le> count_list (map fst swings) 0x10000"
proof -
  have "sorted (concat (map event_times demo_events))" "\<forall>t\<in>set (concat (map event_times demo_events)). t < 2 ^ 63"
    by code_simp+
  from hits_follow_committed_swings [OF this demo_log] show ?thesis using demo_log by blast
qed

theorem bandit_stamina_in_bounds_witness:
  "case g_stam (anim_run (\<lambda>_ _. 7) demo_events anim_init) 0x10000 of None \<Rightarrow> False
   | Some b \<Rightarrow> \<exists>k. stamina b = Fin k \<and> 0 \<le> k \<and> k \<le> 100 * f32_unit"
proof (cases "g_stam (anim_run (\<lambda>_ _. 7) demo_events anim_init) 0x10000")
  case None
  moreover have "case g_stam (anim_run (\<lambda>_ _. 7) demo_events anim_init) 0x10000 of None \<Rightarrow> False | Some _ \<Rightarrow> True"
    by code_simp
  ultimately show ?thesis by simp
next
  case (Some b)
  then show ?thesis using bandit_stamina_in_bounds [OF Some] by simp
qed

theorem no_hit_after_death_witness:
  "0x10000 \<notin> fst ` set (snd (anim_log (\<lambda>_ _. 7)
     [(demo_mem, Died 0x10000), (demo_mem, Frame 6100 [0x10000] [0x10000])]
     (anim_run (\<lambda>_ _. 7) (take 3 demo_events) anim_init) [] []))"
proof -
  obtain sw hi where r: "anim_log (\<lambda>_ _. 7)
     [(demo_mem, Died 0x10000), (demo_mem, Frame 6100 [0x10000] [0x10000])]
     (anim_run (\<lambda>_ _. 7) (take 3 demo_events) anim_init) [] [] = (sw, hi)" by fastforce
  then show ?thesis using no_hit_after_death [OF _ _ r] by simp
qed

definition demo_charged :: anim where
  "demo_charged = anim_run (\<lambda>_ _. 7) (take 2 demo_events) anim_init"

theorem committed_attack_completes_witness:
  "\<exists>s1 calls s2 s3. s1 = snd (anim_step (\<lambda>_ _. 7) (demo_mem, Frame 5650 [0x10000] []) demo_charged) \<and>
     anim_step (\<lambda>_ _. 7) (demo_mem, Frame 6100 [0x10000] [0x10000]) s1 = (calls, s2) \<and>
     s3 = snd (anim_step (\<lambda>_ _. 7) (demo_mem, Frame 6600 [0x10000] [0x10000]) s2) \<and>
     End_Attack 0x10000 \<in> set calls \<and> map_option atkPhase (g_stam s3 0x10000) = Some ATK_NONE"
proof -
  have c: "case g_stam demo_charged 0x10000 of None \<Rightarrow> False | Some b \<Rightarrow>
      (case atkPhase b of ATK_PREFIRE \<Rightarrow> phaseStartMs b = 5000 | _ \<Rightarrow> False)" "g_any demo_charged"
    by code_simp+
  obtain b where b0: "g_stam demo_charged 0x10000 = Some b"
    using c(1) by (cases "g_stam demo_charged 0x10000") simp_all
  have b: "g_stam demo_charged 0x10000 = Some b" "atkPhase b = ATK_PREFIRE" "phaseStartMs b = 5000"
    using c(1) by (simp_all only: b0 option.case) (cases "atkPhase b"; simp)+
  have "(read_field demo_mem 0x10000 kWeaponOff :: u64) = 0x40000" by code_simp
  then have w: "(read_field demo_mem 0x10000 kWeaponOff :: u64) \<noteq> 0" "apart 0x10000 0x10000"
    by (simp_all add: apart_self)
  have so: "\<forall>so\<in>{[0x10000 :: u64], [0x10000], [0x10000]}. distinct so \<and> 0x10000 \<in> set so" by simp
  have t: "unat (phaseStartMs b) + 650 \<le> unat (5650 :: u64)" "unat (5650 :: u64) + 450 \<le> unat (6100 :: u64)"
    "unat (6100 :: u64) + 500 \<le> unat (6600 :: u64)" "(5650 :: u64) < 2 ^ 63"
    unfolding b(3) by simp_all
  have ho: "length [0x10000 :: u64] \<le> 8" "0x10000 \<in> set [0x10000 :: u64]"
    "\<forall>x\<in>set [0x10000] \<union> set [0x10000]. apart 0x10000 x"
    using w(2) by simp_all
  let ?s1 = "snd (anim_step (\<lambda>_ _. 7) (demo_mem, Frame 5650 [0x10000] []) demo_charged)"
  let ?f2 = "anim_step (\<lambda>_ _. 7) (demo_mem, Frame 6100 [0x10000] [0x10000]) ?s1"
  let ?s3 = "snd (anim_step (\<lambda>_ _. 7) (demo_mem, Frame 6600 [0x10000] [0x10000]) (snd ?f2))"
  have f2: "?f2 = (fst ?f2, snd ?f2)" by (simp only: prod.collapse)
  have "map_option atkPhase (g_stam ?s1 0x10000) = Some ATK_FIRE \<and>
    map_option atkPhase (g_stam (snd ?f2) 0x10000) = Some ATK_RECOIL \<and> End_Attack 0x10000 \<in> set (fst ?f2) \<and>
    map_option atkPhase (g_stam ?s3 0x10000) = Some ATK_NONE"
    by (rule committed_attack_completes [OF c(2) b(1,2) so t(1) t(2,3,4) ho w(1) refl f2 refl])
  then show ?thesis using f2 by blast
qed

end
