(* ===== verification/Grave_Loot.thy ===== *)
theory Grave_Loot
  imports Code_Memory
begin

text \<open>
  The loot of a bandit's grave: what the bandit carries is recorded while it lives, taken over when it
  dies, and inserted into the database for the first grave container the engine initialises afterwards.
  Modelled are the loot part of \<open>source/server/api/lifx_hostile.cpp\<close> and
  \<open>source/server/hooks/character/hook_container_init.cpp\<close>. The engine's initialisation of a container (its
  result and its effect on memory) and the database connection are arguments; the statements that are
  executed and evaluated are the calls a handler returns.
\<close>

section \<open>State\<close>

record loot =
  mountedItems :: "u64 \<rightharpoonup> u32 list"
  pendingMountedLoot :: "u32 \<rightharpoonup> u32 list"
  pendingLootCharId :: u32
  freshestGrave :: u64
  freshestGraveMid :: u32
  captureGen :: u32

definition loot_init :: loot where
  "loot_init = \<lparr>mountedItems = Map.empty, pendingMountedLoot = Map.empty, pendingLootCharId = 0,
     freshestGrave = 0, freshestGraveMid = 0, captureGen = 0\<rparr>"

datatype loot_call = Try_Init u64 | Db_Exec u64 string | Evaluate string

record loot_env =
  try_init :: "u64 \<Rightarrow> mem \<Rightarrow> u64 \<times> mem"
  db_conn :: "u32 \<Rightarrow> u64"

definition kGraveType :: u32 where "kGraveType = 1070"
definition kInitGuardOff :: u64 where "kInitGuardOff = 0x14"
definition kMidOff :: u64 where "kMidOff = 0x18"
definition kTypeOff :: u64 where "kTypeOff = 0x1c"
definition kDbWorldConnIdx :: u32 where "kDbWorldConnIdx = 1"
definition kDropQuality :: u32 where "kDropQuality = 50"
definition kDropDurability :: u32 where "kDropDurability = 30000"

section \<open>Recording and arming\<close>

definition RecordMountedItem :: "u64 \<Rightarrow> u32 \<Rightarrow> loot \<Rightarrow> loot" where
  "RecordMountedItem bandit t s =
     (if bandit = 0 \<or> t = 0 then s
      else let v = (case mountedItems s bandit of Some v \<Rightarrow> v | None \<Rightarrow> [])
           in s\<lparr>mountedItems := (mountedItems s)(bandit \<mapsto> (if t \<in> set v then v else v @ [t]))\<rparr>)"

definition ArmGraveFill :: "u32 \<Rightarrow> u64 \<Rightarrow> loot \<Rightarrow> loot" where
  "ArmGraveFill charId bandit s =
     (let s = s\<lparr>pendingLootCharId := charId\<rparr>
      in case mountedItems s bandit of
           None \<Rightarrow> s
         | Some v \<Rightarrow> s\<lparr>pendingMountedLoot := (pendingMountedLoot s)(charId \<mapsto> v),
                       mountedItems := (mountedItems s)(bandit := None)\<rparr>)"

section \<open>The statement\<close>

definition insert_prefix :: string where
  "insert_prefix = ''INSERT INTO `items` (ContainerID, ObjectTypeID, Quality, Quantity, Durability, CreatedDurability) VALUES ''"

definition item_row :: "u32 \<Rightarrow> u32 \<Rightarrow> string" where
  "item_row mid t = ''('' @ fmt_u mid @ '', '' @ fmt_u t @ '', '' @ fmt_u kDropQuality @ '', 1, ''
     @ fmt_u kDropDurability @ '', '' @ fmt_u kDropDurability @ '')''"

definition sql_size :: nat where "sql_size = 1024"

text \<open>The buffer and the count of characters written so far; each row is formatted at the count into the
  rest of the buffer.\<close>

fun rows_loop :: "u32 \<Rightarrow> bool \<Rightarrow> u32 list \<Rightarrow> string \<times> nat \<Rightarrow> string \<times> nat" where
  "rows_loop mid first [] (sql, n) = (sql, n)"
| "rows_loop mid first (t # ts) (sql, n) =
     (let row = (if first then [] else '', '') @ item_row mid t;
          sql = take n sql @ snprintf_out (sql_size - n) row;
          n = n + snprintf_ret row
      in if sql_size - 64 \<le> n then (sql, n) else rows_loop mid False ts (sql, n))"

definition loot_statement :: "u32 \<Rightarrow> u32 list \<Rightarrow> string" where
  "loot_statement mid items =
     (case rows_loop mid True items (snprintf_out sql_size insert_prefix, snprintf_ret insert_prefix) of
        (sql, n) \<Rightarrow> take n sql @ snprintf_out (sql_size - n) '';'')"

section \<open>The grave container\<close>

definition ReloadFreshestGraveContainer :: "loot_env \<Rightarrow> mem \<Rightarrow> loot \<Rightarrow> bool \<times> loot_call list \<times> mem" where
  "ReloadFreshestGraveContainer env m s =
     (if freshestGrave s = 0 then (False, [], m)
      else let c = freshestGrave s
           in (True, [Try_Init c], snd (try_init env c (write_field m c kInitGuardOff (0 :: u8)))))"

definition InsertMountedLootCore :: "loot_env \<Rightarrow> u32 \<Rightarrow> u32 \<Rightarrow> mem \<Rightarrow> loot \<Rightarrow> loot_call list \<times> mem \<times> loot" where
  "InsertMountedLootCore env charId mid m s =
     (let items = (case pendingMountedLoot s charId of Some v \<Rightarrow> v | None \<Rightarrow> []);
          s = s\<lparr>pendingMountedLoot := (pendingMountedLoot s)(charId := None)\<rparr>
      in if items = [] \<or> mid = 0 then ([], m, s)
         else let conn = db_conn env kDbWorldConnIdx
              in if conn = 0 then ([], m, s)
                 else case ReloadFreshestGraveContainer env m s of
                        (_, calls, m) \<Rightarrow>
                          (Db_Exec conn (loot_statement mid items) # calls
                             @ [Evaluate ''schedule(1200, 0, Lifx::reloadFreshestGrave);''], m, s))"

definition OnGraveContainerCaptured :: "loot_env \<Rightarrow> u32 \<Rightarrow> mem \<Rightarrow> loot \<Rightarrow> loot_call list \<times> mem \<times> loot" where
  "OnGraveContainerCaptured env mid m s =
     (let charId = pendingLootCharId s; s = s\<lparr>pendingLootCharId := 0\<rparr>
      in if charId = 0 then ([], m, s) else InsertMountedLootCore env charId mid m s)"

definition OnTryInit :: "loot_env \<Rightarrow> u64 \<Rightarrow> mem \<Rightarrow> loot \<Rightarrow> u64 \<times> loot_call list \<times> mem \<times> loot" where
  "OnTryInit env container m s =
     (case try_init env container m of
        (r, m) \<Rightarrow>
          if container \<noteq> 0 \<and> (read_field m container kTypeOff :: u32) = kGraveType
          then
            let mid = (read_field m container kMidOff :: u32);
                s = s\<lparr>freshestGrave := container, freshestGraveMid := mid, captureGen := captureGen s + 1\<rparr>
            in (case OnGraveContainerCaptured env mid m s of (calls, m, s) \<Rightarrow> (r, Try_Init container # calls, m, s))
          else (r, [Try_Init container], m, s))"

text \<open>The older path, kept for the console: the items of the shared character are moved.\<close>

definition move_to_container :: "u32 \<Rightarrow> u32 \<Rightarrow> string" where
  "move_to_container mid charId =
     ''UPDATE `items` i JOIN `character` c   ON (i.ContainerID = c.RootContainerID OR i.ContainerID = c.EquipmentContainerID) SET i.ContainerID = ''
     @ fmt_u mid @ '' WHERE c.ID = '' @ fmt_u charId @ '';''"

definition move_to_freshest :: "u32 \<Rightarrow> string" where
  "move_to_freshest charId =
     ''UPDATE `items` i JOIN `character` c   ON (i.ContainerID = c.RootContainerID OR i.ContainerID = c.EquipmentContainerID) JOIN `movable_objects` mo   ON (mo.OwnerID = c.ID AND mo.ObjectTypeID = ''
     @ fmt_u kGraveType @ '' AND mo.RootContainerID IS NOT NULL) SET i.ContainerID = mo.RootContainerID WHERE c.ID = ''
     @ fmt_u charId @ ''   AND mo.ID = (SELECT MAX(m2.ID) FROM `movable_objects` m2                WHERE m2.OwnerID = c.ID AND m2.ObjectTypeID = ''
     @ fmt_u kGraveType @ '');''"

definition FillBanditGraveCore :: "loot_env \<Rightarrow> u32 \<Rightarrow> u32 \<Rightarrow> mem \<Rightarrow> loot \<Rightarrow> loot_call list \<times> mem" where
  "FillBanditGraveCore env charId mid m s =
     (if charId = 0 then ([], m)
      else let conn = db_conn env kDbWorldConnIdx
           in if conn = 0 then ([], m)
              else let sql = snprintf_out 768 (if mid \<noteq> 0 then move_to_container mid charId else move_to_freshest charId)
                   in case ReloadFreshestGraveContainer env m s of
                        (_, calls, m) \<Rightarrow> (Db_Exec conn sql # calls, m))"

section \<open>Runs\<close>

datatype loot_event =
    Item_Mounted u64 u32
  | Bandit_Died u32 u64
  | Container_Initialised u64
  | Deferred_Reload

fun loot_step :: "loot_env \<Rightarrow> loot_event \<Rightarrow> mem \<times> loot \<Rightarrow> loot_call list \<times> mem \<times> loot" where
  "loot_step env (Item_Mounted b t) (m, s) = ([], m, RecordMountedItem b t s)"
| "loot_step env (Bandit_Died c b) (m, s) = ([], m, ArmGraveFill c b s)"
| "loot_step env (Container_Initialised c) (m, s) = (case OnTryInit env c m s of (_, calls, m, s) \<Rightarrow> (calls, m, s))"
| "loot_step env Deferred_Reload (m, s) =
     (case ReloadFreshestGraveContainer env m s of (_, calls, m) \<Rightarrow> (calls, m, s))"

fun loot_run :: "loot_env \<Rightarrow> loot_event list \<Rightarrow> mem \<times> loot \<Rightarrow> loot_call list \<times> mem \<times> loot" where
  "loot_run env [] (m, s) = ([], m, s)"
| "loot_run env (e # es) ms =
     (case loot_step env e ms of (c1, ms) \<Rightarrow> (case loot_run env es ms of (c2, ms) \<Rightarrow> (c1 @ c2, ms)))"

end
