(* ===== verification/Loot_Laws.thy ===== *)
theory Loot_Laws
  imports Grave_Loot
begin

text \<open>
  What becomes of a bandit's gear: the statement that inserts it is complete and fits its buffer, a grave
  receives what was recorded for the bandit that died, and the cases in which the gear is lost.
\<close>

section \<open>The statement fits and is complete\<close>

fun rows_text :: "u32 \<Rightarrow> bool \<Rightarrow> u32 list \<Rightarrow> string" where
  "rows_text mid first [] = []"
| "rows_text mid first (t # ts) = (if first then [] else '', '') @ item_row mid t @ rows_text mid False ts"

lemma length_item_row: "length (item_row mid t) \<le> 46"
proof -
  have "length (fmt_u kDropQuality) = 2" "length (fmt_u kDropDurability) = 5"
    by (simp_all add: fmt_u_def kDropQuality_def kDropDurability_def dec.simps)
  then show ?thesis using length_fmt_u32 [of mid] length_fmt_u32 [of t] by (simp add: item_row_def)
qed

lemma length_insert_prefix: "length insert_prefix = 105"
  by code_simp

lemma rows_loop_fits:
  assumes "length sql = n" and "n < 960"
  shows "\<exists>k \<le> length ts. rows_loop mid first ts (sql, n) =
      (sql @ rows_text mid first (take k ts), n + length (rows_text mid first (take k ts))) \<and>
    n + length (rows_text mid first (take k ts)) < 1008 \<and> (n + 48 * length ts < 960 + 48 \<longrightarrow> k = length ts)"
  using assms
proof (induction ts arbitrary: sql n first)
  case Nil
  then show ?case by simp
next
  case (Cons t ts)
  define row where "row = (if first then [] else '', '') @ item_row mid t"
  have lr: "length row \<le> 48" using length_item_row [of mid t] by (simp add: row_def)
  have whole: "take n sql @ snprintf_out (sql_size - n) row = sql @ row"
    using Cons.prems lr by (simp add: sql_size_def)
  have step: "rows_loop mid first (t # ts) (sql, n) =
      (if 960 \<le> n + length row then (sql @ row, n + length row) else rows_loop mid False ts (sql @ row, n + length row))"
    by (simp only: rows_loop.simps Let_def row_def [symmetric] whole snprintf_ret_def) (simp add: sql_size_def)
  have tx: "rows_text mid first (take (Suc j) (t # ts)) = row @ rows_text mid False (take j ts)" for j
    by (simp add: row_def)
  show ?case
  proof (cases "960 \<le> n + length row")
    case True
    have "n + 48 * length (t # ts) < 960 + 48 \<longrightarrow> Suc 0 = length (t # ts)"
      using True lr by (cases ts) auto
    then show ?thesis using True Cons.prems lr step tx [of 0]
      by (intro exI [of _ "Suc 0"]) auto
  next
    case False
    obtain k where k: "k \<le> length ts" "rows_loop mid False ts (sql @ row, n + length row) =
        ((sql @ row) @ rows_text mid False (take k ts), (n + length row) + length (rows_text mid False (take k ts)))"
      "(n + length row) + length (rows_text mid False (take k ts)) < 1008"
      "(n + length row) + 48 * length ts < 960 + 48 \<longrightarrow> k = length ts"
      using Cons.IH [of "sql @ row" "n + length row" False] Cons.prems False by auto
    have "n + 48 * length (t # ts) < 960 + 48 \<longrightarrow> Suc k = length (t # ts)" using k(4) lr by auto
    then show ?thesis using False k step tx [of k] by (intro exI [of _ "Suc k"]) auto
  qed
qed

lemma loot_statement_eq:
  "\<exists>k \<le> length items. loot_statement mid items = insert_prefix @ rows_text mid True (take k items) @ '';'' \<and>
     length (loot_statement mid items) < sql_size \<and> (length items \<le> 18 \<longrightarrow> k = length items)"
proof -
  obtain k where k: "k \<le> length items" "rows_loop mid True items (insert_prefix, 105) =
      (insert_prefix @ rows_text mid True (take k items), 105 + length (rows_text mid True (take k items)))"
    "105 + length (rows_text mid True (take k items)) < 1008"
    "(105 :: nat) + 48 * length items < 960 + 48 \<longrightarrow> k = length items"
    using rows_loop_fits [of insert_prefix 105 items mid True] length_insert_prefix by auto
  have "snprintf_out sql_size insert_prefix = insert_prefix" "snprintf_ret insert_prefix = 105"
    using length_insert_prefix by (simp_all add: sql_size_def snprintf_ret_def)
  then have "loot_statement mid items = insert_prefix @ rows_text mid True (take k items) @ '';''"
    using k(2,3) length_insert_prefix by (simp add: loot_statement_def sql_size_def)
  then show ?thesis using k length_insert_prefix by (intro exI [of _ k]) (auto simp: sql_size_def)
qed

section \<open>A grave receives what was recorded\<close>

lemma record_fold:
  assumes "b \<noteq> 0" and "distinct (v @ ts)" and "0 \<notin> set ts"
    and "(case mountedItems s b of Some w \<Rightarrow> w | None \<Rightarrow> []) = v" and "ts \<noteq> [] \<or> mountedItems s b \<noteq> None"
  shows "mountedItems (fold (RecordMountedItem b) ts s) = (mountedItems s)(b \<mapsto> v @ ts) \<and>
    pendingMountedLoot (fold (RecordMountedItem b) ts s) = pendingMountedLoot s"
  using assms
proof (induction ts arbitrary: v s)
  case Nil
  then show ?case by (auto split: option.splits)
next
  case (Cons t ts)
  let ?s = "RecordMountedItem b t s"
  have s: "mountedItems ?s = (mountedItems s)(b \<mapsto> v @ [t])" "pendingMountedLoot ?s = pendingMountedLoot s"
    using Cons.prems by (simp_all add: RecordMountedItem_def Let_def)
  then show ?case using Cons.IH [of "v @ [t]" ?s] Cons.prems by (auto simp: fun_eq_iff)
qed

lemma captured_grave:
  assumes "try_init env c m = (r, m1)" "c \<noteq> 0" "(read_field m1 c kTypeOff :: u32) = kGraveType"
    "pendingLootCharId s = charId" "charId \<noteq> 0" "pendingMountedLoot s charId = Some items" "items \<noteq> []"
    "(read_field m1 c kMidOff :: u32) = mid" "mid \<noteq> 0" "db_conn env kDbWorldConnIdx = conn" "conn \<noteq> 0"
    "OnTryInit env c m s = (r', calls, m', s')"
  shows "calls = [Try_Init c, Db_Exec conn (loot_statement mid items), Try_Init c,
      Evaluate ''schedule(1200, 0, Lifx::reloadFreshestGrave);''] \<and> pendingLootCharId s' = 0 \<and>
    pendingMountedLoot s' = (pendingMountedLoot s)(charId := None) \<and> mountedItems s' = mountedItems s"
  using assms
  by (auto simp: OnTryInit_def OnGraveContainerCaptured_def InsertMountedLootCore_def
      ReloadFreshestGraveContainer_def Let_def)

text \<open>C20: The gear recorded for a bandit, its armour and its weapon, goes into the first grave container
  initialised after its death, whoever's grave that is: one statement that fits its buffer inserts one row
  for each recorded item, in order, and nothing remains recorded or armed for the bandit.\<close>

theorem grave_receives_recorded_gear:
  assumes "b \<noteq> 0" "mountedItems s b = None" "distinct items" "0 \<notin> set items" "items \<noteq> []" "length items \<le> 18"
    and "charId \<noteq> 0" "s2 = ArmGraveFill charId b (fold (RecordMountedItem b) items s)"
    and "try_init env c m = (r, m1)" "c \<noteq> 0" "(read_field m1 c kTypeOff :: u32) = kGraveType"
    and "(read_field m1 c kMidOff :: u32) = mid" "mid \<noteq> 0" "db_conn env kDbWorldConnIdx = conn" "conn \<noteq> 0"
    and "OnTryInit env c m s2 = (r', calls, m', s')"
  shows "[t. Db_Exec _ t \<leftarrow> calls] = [insert_prefix @ rows_text mid True items @ '';''] \<and>
    length (insert_prefix @ rows_text mid True items @ '';'') < sql_size \<and>
    mountedItems s' b = None \<and> pendingMountedLoot s' charId = None \<and> pendingLootCharId s' = 0"
proof -
  have f: "mountedItems (fold (RecordMountedItem b) items s) = (mountedItems s)(b \<mapsto> items)"
    using record_fold [of b "[]" items s] assms(1-5) by simp
  have s2: "pendingLootCharId s2 = charId" "pendingMountedLoot s2 charId = Some items" "mountedItems s2 b = None"
    using f by (simp_all add: assms(8) ArmGraveFill_def Let_def)
  obtain k where "loot_statement mid items = insert_prefix @ rows_text mid True (take k items) @ '';''"
    "length (loot_statement mid items) < sql_size" "k = length items"
    using loot_statement_eq [of items mid] assms(6) by blast
  then have st: "loot_statement mid items = insert_prefix @ rows_text mid True items @ '';''"
    "length (loot_statement mid items) < sql_size" by simp_all
  have "calls = [Try_Init c, Db_Exec conn (loot_statement mid items), Try_Init c,
      Evaluate ''schedule(1200, 0, Lifx::reloadFreshestGrave);''] \<and> pendingLootCharId s' = 0 \<and>
    pendingMountedLoot s' = (pendingMountedLoot s2)(charId := None) \<and> mountedItems s' = mountedItems s2"
    by (rule captured_grave [OF assms(9-11) s2(1) assms(7) s2(2) assms(5,12-16)])
  then show ?thesis using s2(3) st by simp
qed

text \<open>When two bandits die before the first grave is initialised, which their shared character makes
  indistinguishable, the first grave receives the gear of the second bandit and the second grave nothing;
  the gear of the first is forgotten.\<close>

theorem second_death_replaces_loot:
  assumes "a \<noteq> b" "mountedItems s a = Some xs" "mountedItems s b = Some ys" "ys \<noteq> []" "charId \<noteq> 0"
    and "s2 = ArmGraveFill charId b (ArmGraveFill charId a s)"
    and "try_init env c m = (r, m1)" "c \<noteq> 0" "(read_field m1 c kTypeOff :: u32) = kGraveType"
    and "(read_field m1 c kMidOff :: u32) = mid" "mid \<noteq> 0" "db_conn env kDbWorldConnIdx = conn" "conn \<noteq> 0"
    and "OnTryInit env c m s2 = (r1, calls1, m2, s3)" "OnTryInit env c' m2 s3 = (r2, calls2, m3, s4)"
  shows "[t. Db_Exec _ t \<leftarrow> calls1] = [loot_statement mid ys] \<and> [t. Db_Exec _ t \<leftarrow> calls2] = [] \<and>
    mountedItems s4 a = None \<and> pendingMountedLoot s4 charId = None"
proof -
  have s2: "pendingLootCharId s2 = charId" "pendingMountedLoot s2 charId = Some ys" "mountedItems s2 a = None"
    using assms(1-3) by (simp_all add: assms(6) ArmGraveFill_def Let_def)
  have g: "calls1 = [Try_Init c, Db_Exec conn (loot_statement mid ys), Try_Init c,
      Evaluate ''schedule(1200, 0, Lifx::reloadFreshestGrave);''] \<and> pendingLootCharId s3 = 0 \<and>
    pendingMountedLoot s3 = (pendingMountedLoot s2)(charId := None) \<and> mountedItems s3 = mountedItems s2"
    by (rule captured_grave [OF assms(7-9) s2(1) assms(5) s2(2) assms(4,10-14)])
  then have "calls2 = [Try_Init c'] \<and> mountedItems s4 = mountedItems s3 \<and> pendingMountedLoot s4 = pendingMountedLoot s3"
    using assms(15) by (auto simp: OnTryInit_def OnGraveContainerCaptured_def Let_def split: prod.splits if_splits)
  then show ?thesis using g s2(3) by simp
qed

section \<open>Each death fills at most one grave\<close>

definition execs :: "loot_call list \<Rightarrow> string list" where
  "execs calls = [t. Db_Exec _ t \<leftarrow> calls]"

definition arms :: "loot_event list \<Rightarrow> nat" where
  "arms es = length [c. Bandit_Died c _ \<leftarrow> es, c \<noteq> 0]"

text \<open>The statements of a run insert lists that were recorded, without a repetition and without the item 0.\<close>

definition proper :: "u32 list \<Rightarrow> bool" where
  "proper v \<longleftrightarrow> distinct v \<and> 0 \<notin> set v"

definition recorded_ok :: "loot \<Rightarrow> bool" where
  "recorded_ok s \<longleftrightarrow> (\<forall>b v. mountedItems s b = Some v \<longrightarrow> proper v) \<and> (\<forall>c v. pendingMountedLoot s c = Some v \<longrightarrow> proper v)"

lemma execs_simps [simp]:
  "execs [] = []" "execs (Db_Exec conn t # cs) = t # execs cs" "execs (Try_Init c # cs) = execs cs"
  "execs (Evaluate t # cs) = execs cs" "execs (xs @ ys) = execs xs @ execs ys"
  by (simp_all add: execs_def)

lemma loot_step_fills:
  assumes "loot_step env e (m, s) = (calls, m', s')" and "recorded_ok s"
  shows "recorded_ok s' \<and>
    length (execs calls) + of_bool (pendingLootCharId s' \<noteq> 0) \<le> of_bool (pendingLootCharId s \<noteq> 0) + arms [e] \<and>
    (\<forall>t\<in>set (execs calls). \<exists>mid items. proper items \<and> t = loot_statement mid items)"
proof (cases e)
  case (Item_Mounted b t)
  define v where "v = (case mountedItems s b of Some v \<Rightarrow> v | None \<Rightarrow> [])"
  define w where "w = (if t \<in> set v then v else v @ [t])"
  have "proper v" using assms(2) by (auto simp: v_def recorded_ok_def proper_def split: option.splits)
  then have w: "t \<noteq> 0 \<Longrightarrow> proper w" by (simp add: w_def proper_def)
  have r: "RecordMountedItem b t s = (if b = 0 \<or> t = 0 then s else s\<lparr>mountedItems := (mountedItems s)(b \<mapsto> w)\<rparr>)"
    unfolding RecordMountedItem_def Let_def v_def [symmetric] w_def [symmetric] ..
  have "calls = []" "s' = RecordMountedItem b t s" using assms(1) by (simp_all add: Item_Mounted)
  then show ?thesis using assms(2) w by (auto simp: r recorded_ok_def split: if_splits)
next
  case (Bandit_Died c b)
  then show ?thesis using assms
    by (auto simp: ArmGraveFill_def Let_def recorded_ok_def arms_def split: option.splits if_splits)
next
  case (Container_Initialised c)
  then obtain r where h: "OnTryInit env c m s = (r, calls, m', s')"
    using assms(1) by (auto split: prod.splits)
  have p: "proper v" if "pendingMountedLoot s (pendingLootCharId s) = Some v" for v
    using assms(2) that by (simp add: recorded_ok_def)
  then have g: "pendingMountedLoot s (pendingLootCharId s) = Some v \<Longrightarrow>
      \<exists>mid' items. proper items \<and> loot_statement mid v = loot_statement mid' items" for mid v by blast
  show ?thesis using h assms(2)
    by (auto simp: Container_Initialised OnTryInit_def OnGraveContainerCaptured_def InsertMountedLootCore_def
        ReloadFreshestGraveContainer_def Let_def recorded_ok_def arms_def split: prod.splits if_splits option.splits
        intro: g)
next
  case Deferred_Reload
  then show ?thesis using assms
    by (auto simp: ReloadFreshestGraveContainer_def Let_def arms_def split: if_splits)
qed

lemma arms_Cons: "arms (e # es) = arms [e] + arms es"
  by (simp add: arms_def)

lemma loot_run_fills:
  "loot_run env es (m, s) = (calls, m', s') \<Longrightarrow> recorded_ok s \<Longrightarrow>
   length (execs calls) + of_bool (pendingLootCharId s' \<noteq> 0) \<le> of_bool (pendingLootCharId s \<noteq> 0) + arms es \<and>
   (\<forall>t\<in>set (execs calls). \<exists>mid items. proper items \<and> t = loot_statement mid items)"
proof (induction es arbitrary: m s calls)
  case Nil
  then show ?case by (simp add: arms_def)
next
  case (Cons e es)
  obtain c1 m1 s1 where st: "loot_step env e (m, s) = (c1, m1, s1)" by (metis prod_cases3)
  obtain c2 m2 s2 where rn: "loot_run env es (m1, s1) = (c2, m2, s2)" by (metis prod_cases3)
  have c: "calls = c1 @ c2" "m' = m2" "s' = s2" using Cons.prems(1) by (simp_all add: st rn)
  note a = loot_step_fills [OF st Cons.prems(2)]
  then have b: "length (execs c2) + of_bool (pendingLootCharId s2 \<noteq> 0) \<le> of_bool (pendingLootCharId s1 \<noteq> 0) + arms es \<and>
      (\<forall>t\<in>set (execs c2). \<exists>mid items. proper items \<and> t = loot_statement mid items)"
    using Cons.IH [OF rn [folded c(2,3)]] c(3) by blast
  have "\<forall>t\<in>set (execs (c1 @ c2)). \<exists>mid items. proper items \<and> t = loot_statement mid items"
    using a b unfolding execs_simps set_append by blast
  moreover have "length (execs c1) + length (execs c2) + of_bool (pendingLootCharId s2 \<noteq> 0) \<le>
      of_bool (pendingLootCharId s \<noteq> 0) + (arms [e] + arms es)" using a b by linarith
  ultimately show ?case unfolding c arms_Cons [of e es] by (simp add: add.assoc)
qed

text \<open>In every run of recordings, deaths, container initialisations and reloads, at most one statement
  is executed for each death, and every statement inserts a list of item types without repetition and
  fits the statement buffer.\<close>

theorem each_death_fills_at_most_one_grave:
  "case loot_run env es (m, loot_init) of (calls, m', s') \<Rightarrow>
     length (execs calls) \<le> arms es \<and>
     list_all (\<lambda>t. (\<exists>mid items. distinct items \<and> 0 \<notin> set items \<and> t = loot_statement mid items) \<and> length t < sql_size)
       (execs calls)"
proof -
  obtain calls m' s' where r: "loot_run env es (m, loot_init) = (calls, m', s')" by (metis prod_cases3)
  have "recorded_ok loot_init" by (simp add: recorded_ok_def loot_init_def)
  then have f: "length (execs calls) + of_bool (pendingLootCharId s' \<noteq> 0) \<le> of_bool (pendingLootCharId loot_init \<noteq> 0) + arms es \<and>
     (\<forall>t\<in>set (execs calls). \<exists>mid items. proper items \<and> t = loot_statement mid items)"
    by (rule loot_run_fills [OF r])
  have fits: "length (loot_statement mid items) < sql_size" for mid items
    using loot_statement_eq [of items mid] by blast
  have "list_all (\<lambda>t. (\<exists>mid items. distinct items \<and> 0 \<notin> set items \<and> t = loot_statement mid items) \<and> length t < sql_size)
      (execs calls)"
    unfolding list_all_iff
  proof (intro ballI conjI)
    fix t assume "t \<in> set (execs calls)"
    then obtain mid items where "proper items" "t = loot_statement mid items" using f by blast
    then show "\<exists>mid items. distinct items \<and> 0 \<notin> set items \<and> t = loot_statement mid items" "length t < sql_size"
      using fits by (auto simp: proper_def)
  qed
  moreover have "length (execs calls) \<le> arms es" using f by (simp add: loot_init_def)
  ultimately show ?thesis by (simp add: r)
qed

text \<open>Without a database connection at the moment the grave is initialised the armed gear is lost: no
  statement is executed then, nor at any later initialisation before the next death.\<close>

theorem loot_lost_without_database:
  assumes "db_conn env kDbWorldConnIdx = 0" and "try_init env c m = (r, m1)" "c \<noteq> 0"
    and "(read_field m1 c kTypeOff :: u32) = kGraveType" and "pendingLootCharId s = charId" "charId \<noteq> 0"
    and "OnTryInit env c m s = (r', calls, m', s')"
  shows "execs calls = [] \<and> pendingMountedLoot s' charId = None \<and>
    execs (fst (snd (OnTryInit env' c' m'' s'))) = []"
proof -
  have "execs calls = [] \<and> pendingMountedLoot s' charId = None \<and> pendingLootCharId s' = 0"
    using assms by (auto simp: OnTryInit_def OnGraveContainerCaptured_def InsertMountedLootCore_def Let_def split: if_splits)
  then show ?thesis
    by (auto simp: OnTryInit_def OnGraveContainerCaptured_def Let_def split: prod.splits)
qed

section \<open>Concrete graves\<close>

text \<open>An engine that initialises a container by nothing but its return value, and memory in which the
  container at \<open>0x9000\<close> is a grave with the number 77.\<close>

definition demo_env :: loot_env where
  "demo_env = \<lparr>try_init = (\<lambda>c m. (1, m)), db_conn = (\<lambda>_. 0x5000)\<rparr>"

definition demo_grave :: mem where
  "demo_grave = write_field (write_field (\<lambda>_. 0) 0x9000 kTypeOff kGraveType) 0x9000 kMidOff (77 :: u32)"

lemma demo_grave_fields:
  "(read_field demo_grave 0x9000 kTypeOff :: u32) = kGraveType" "(read_field demo_grave 0x9000 kMidOff :: u32) = 77"
  by code_simp+

theorem grave_receives_recorded_gear_witness:
  "[t. Db_Exec _ t \<leftarrow> fst (snd (OnTryInit demo_env 0x9000 demo_grave
       (ArmGraveFill 5 0x100 (fold (RecordMountedItem 0x100) [547, 548, 549, 550, 551, 552, 556] loot_init))))] =
   [insert_prefix @ rows_text 77 True [547, 548, 549, 550, 551, 552, 556] @ '';'']"
proof -
  let ?s = "ArmGraveFill 5 0x100 (fold (RecordMountedItem 0x100) [547, 548, 549, 550, 551, 552, 556] loot_init)"
  obtain r calls m s' where h: "OnTryInit demo_env 0x9000 demo_grave ?s = (r, calls, m, s')" by (metis prod_cases4)
  have e: "try_init demo_env 0x9000 demo_grave = (1, demo_grave)" "db_conn demo_env kDbWorldConnIdx = 0x5000"
    by (simp_all add: demo_env_def)
  have i: "(0x100 :: u64) \<noteq> 0" "mountedItems loot_init 0x100 = None" "distinct [547, 548, 549, 550, 551, 552, 556 :: u32]"
    "(0 :: u32) \<notin> set [547, 548, 549, 550, 551, 552, 556]" "[547, 548, 549, 550, 551, 552, 556 :: u32] \<noteq> []"
    "length [547, 548, 549, 550, 551, 552, 556 :: u32] \<le> 18" "(5 :: u32) \<noteq> 0" "(0x9000 :: u64) \<noteq> 0"
    "(77 :: u32) \<noteq> 0" "(0x5000 :: u64) \<noteq> 0"
    by (simp_all add: loot_init_def)
  show ?thesis
    unfolding h fst_conv snd_conv
    using grave_receives_recorded_gear [OF i(1-7) refl e(1) i(8) demo_grave_fields i(9) e(2) i(10) h] by blast
qed

theorem second_death_replaces_loot_witness:
  "\<exists>calls1 calls2 m2 s3 m3 s4 r1 r2. OnTryInit demo_env 0x9000 demo_grave
       (ArmGraveFill 5 0x200 (ArmGraveFill 5 0x100
         (RecordMountedItem 0x200 556 (RecordMountedItem 0x100 547 loot_init)))) = (r1, calls1, m2, s3) \<and>
     OnTryInit demo_env 0x9000 m2 s3 = (r2, calls2, m3, s4) \<and>
     [t. Db_Exec _ t \<leftarrow> calls1] = [loot_statement 77 [556]] \<and> [t. Db_Exec _ t \<leftarrow> calls2] = []"
proof -
  let ?s = "RecordMountedItem 0x200 556 (RecordMountedItem 0x100 547 loot_init)"
  obtain r1 calls1 m2 s3 where h1: "OnTryInit demo_env 0x9000 demo_grave (ArmGraveFill 5 0x200 (ArmGraveFill 5 0x100 ?s)) =
      (r1, calls1, m2, s3)" by (metis prod_cases4)
  obtain r2 calls2 m3 s4 where h2: "OnTryInit demo_env 0x9000 m2 s3 = (r2, calls2, m3, s4)" by (metis prod_cases4)
  have e: "try_init demo_env 0x9000 demo_grave = (1, demo_grave)" "db_conn demo_env kDbWorldConnIdx = 0x5000"
    by (simp_all add: demo_env_def)
  have i: "mountedItems ?s 0x100 = Some [547]" "mountedItems ?s 0x200 = Some [556]"
    by (simp_all add: RecordMountedItem_def loot_init_def)
  have "[t. Db_Exec _ t \<leftarrow> calls1] = [loot_statement 77 [556]] \<and> [t. Db_Exec _ t \<leftarrow> calls2] = []"
    using second_death_replaces_loot [OF _ i _ _ refl e(1) _ demo_grave_fields _ e(2) _ h1 h2] by simp
  then show ?thesis using h1 h2 by blast
qed

theorem loot_lost_without_database_witness:
  "execs (fst (snd (OnTryInit (demo_env\<lparr>db_conn := \<lambda>_. 0\<rparr>) 0x9000 demo_grave
     (ArmGraveFill 5 0x100 (RecordMountedItem 0x100 556 loot_init))))) = []"
proof -
  let ?e = "demo_env\<lparr>db_conn := \<lambda>_. 0\<rparr>"
  let ?s = "ArmGraveFill 5 0x100 (RecordMountedItem 0x100 556 loot_init)"
  obtain r calls m s' where h: "OnTryInit ?e 0x9000 demo_grave ?s = (r, calls, m, s')" by (metis prod_cases4)
  have e: "try_init ?e 0x9000 demo_grave = (1, demo_grave)" "db_conn ?e kDbWorldConnIdx = 0"
    by (simp_all add: demo_env_def)
  have "pendingLootCharId ?s = 5"
    by (simp add: ArmGraveFill_def RecordMountedItem_def loot_init_def)
  then show ?thesis
    using loot_lost_without_database [OF e(2,1) _ demo_grave_fields(1) _ _ h] by (simp add: h)
qed

end
