(* ===== verification/Equip_Meshes.thy ===== *)
theory Equip_Meshes
  imports Lifx_Prelude
begin

text \<open>
  The mesh tables of the client: the armour meshes of \<open>source/client/lifx_armor_meshes.h\<close>, the hair, beard
  and underwear meshes of \<open>source/client/lifx_equip_hide.h\<close>, and the loadouts of
  \<open>source/client/lifx_loadouts.h\<close>, in the order of the source.
\<close>

text \<open>The table of the armour, in three parts.\<close>

definition armor_meshes_1 :: "string list" where
  "armor_meshes_1 =
     [''Boot_Eur_v1_Feet'', ''Boot_Eur_v2_Feet'', ''Boot_Eur_v2_Feet_NY'', ''Boot_Eur_v3_Feet'',
      ''Boot_Eur_v4_Feet'', ''Boot_Eur_v5_Feet'', ''Boot_Eur_v6_Feet'', ''Boot_Eur_v7_Feet'',
      ''Boot_Eur_v8_Feet'', ''Chain0_Vik_Arm'', ''Chain0_Vik_Body'', ''Chain0_Vik_Feet'',
      ''Chain0_Vik_Forearm'', ''Chain0_Vik_Helmet'', ''Chain0_Vik_Legs'', ''Chain100_Vik_Arm'',
      ''Chain100_Vik_Body'', ''Chain100_Vik_Feet'', ''Chain100_Vik_Forearm'', ''Chain100_Vik_Helmet'',
      ''Chain100_Vik_Legs'', ''Chain60_Vik_Arm'', ''Chain60_Vik_Body'', ''Chain60_Vik_Feet'',
      ''Chain60_Vik_Forearm'', ''Chain60_Vik_Helmet'', ''Chain60_Vik_Helmet_Dw'',
      ''Chain60_Vik_Helmet_Up'', ''Chain60_Vik_Legs'', ''Chain90_Vik_Arm'', ''Chain90_Vik_Body'',
      ''Chain90_Vik_Feet'', ''Chain90_Vik_Forearm'', ''Chain90_Vik_Helmet'',
      ''Chain90_Vik_Helmet_Add_Dw'', ''Chain90_Vik_Helmet_Add_Up'', ''Chain90_Vik_Legs'',
      ''Female_Body_v1_torso_block'', ''Female_Body_v1_torso_C'', ''Female_Cardinal_Base'',
      ''Female_Craft90_All_Alchemist'', ''Female_Craft90_All_Blacksmith'',
      ''Female_Craft90_All_Carpenter'', ''Female_Craft90_All_Cook'', ''Female_Craft90_All_Engineer'',
      ''Female_Craft_Alchemist_SkinA'', ''Female_Craft_Blacksmith_SkinA'',
      ''Female_Craft_Carpenter_SkinA'', ''Female_Craft_Cook_SkinA'', ''Female_Craft_Engineer_SkinA'',
      ''Female_Decorated'', ''Female_Decorated_SkinA'', ''Female_Jarl_Base'', ''Female_Jarl_SkinA'',
      ''Female_Jarl_SkinB'', ''Female_Monk'', ''Female_Monk_SkinA'', ''Female_Noble_Base'',
      ''Female_Noble_SkinA'', ''Female_Noble_SkinB'', ''Female_Papa_Base'', ''Female_Peasant'',
      ''Female_Peasant_SkinA'', ''Female_Tatters_Eur'', ''Female_Tatters_Mon'', ''Female_Tatters_Vik'',
      ''Female_Villein_Base'', ''Female_Villein_SkinA'', ''Female_Villein_SkinB'', ''Flag_General'',
      ''FlagOfficer_Add_A'', ''FlagOfficer_Add_D'', ''FlagOfficer_Add_E'', ''FlagOfficer_Add_F'',
      ''FlagOfficer_Body_A_a'', ''FlagOfficer_Body_A_b'', ''FlagOfficer_Body_B_a'',
      ''FlagOfficer_Body_B_b'', ''FlagOfficer_Body_C_a'', ''FlagOfficer_Body_C_b'',
      ''FlagOfficer_Body_D_a'', ''FlagOfficer_Body_D_b'', ''FlagOfficer_Body_E_a'',
      ''FlagOfficer_Body_E_b'', ''FlagOfficer_Body_F_a'', ''FlagOfficer_Body_G'', ''FlagOfficer_Pole'',
      ''FlagOfficer_Pole_G'', ''Full_Plate_Arm'', ''Full_Plate_Body'', ''Full_Plate_Feet'',
      ''Full_Plate_Forearm'', ''Full_Plate_Helmet'', ''Full_Plate_Helmet_Add'', ''Full_Plate_Legs'',
      ''Glove_Eur_v1_Arm'', ''Glove_Eur_v1_Arm_NY'', ''Glove_Eur_v2_Arm'', ''GM_Robe'', ''GM_Robe_Dark'',
      ''GM_Robe_Shiny'', ''Hat_Eur_v1_Helmet'', ''Hat_Eur_v1_Helmet_NY'', ''Hat_Eur_v2_Helmet'',
      ''Hat_Eur_v3_Helmet'', ''Hat_Eur_v4_Helmet'', ''Hat_Mon_v1_Helmet'', ''Hat_Mon_v1_Helmet_NY'',
      ''Hat_Mon_v2_Helmet'', ''Hat_Mon_v3_Helmet'', ''Hat_Vik_v1_Helmet'', ''Hat_Vik_v2_Helmet'',
      ''Hat_Vik_v3_Helmet'', ''Hat_Vik_v4_Helmet'', ''Hat_Vik_v4_Helmet_NY'', ''Heavy_Chain_Arm'',
      ''Heavy_Chain_Body'', ''Heavy_Chain_Feet'', ''Heavy_Chain_Forearm'', ''Heavy_Chain_Helmet'',
      ''Heavy_Chain_Legs'']"

definition armor_meshes_2 :: "string list" where
  "armor_meshes_2 =
     [''Heavy_Leather_Arm'', ''Heavy_Leather_Body'', ''Heavy_Leather_Feet'', ''Heavy_Leather_Forearm'',
      ''Heavy_Leather_Helmet'', ''Heavy_Leather_Legs'', ''Heavy_Padded_Arm'', ''Heavy_Padded_Body'',
      ''Heavy_Padded_Feet'', ''Heavy_Padded_Forearm'', ''Heavy_Padded_Helmet'', ''Heavy_Padded_Legs'',
      ''Heavy_Scale_Arm'', ''Heavy_Scale_Body'', ''Heavy_Scale_Feet'', ''Heavy_Scale_Forearm'',
      ''Heavy_Scale_Helmet'', ''Heavy_Scale_Legs'', ''Iron_Plate_Arm'', ''Iron_Plate_Body'',
      ''Iron_Plate_Feet'', ''Iron_Plate_Forearm'', ''Iron_Plate_Helmet'', ''Iron_Plate_Legs'',
      ''Lamellar_Leather_Arm'', ''Lamellar_Leather_Body'', ''Lamellar_Leather_Feet'',
      ''Lamellar_Leather_Forearm'', ''Lamellar_Leather_Helmet'', ''Lamellar_Leather_Legs'',
      ''Leather0_Eur_Arm'', ''Leather0_Eur_Body'', ''Leather0_Eur_Feet'', ''Leather0_Eur_Forearm'',
      ''Leather0_Eur_Helmet'', ''Leather0_Eur_Legs'', ''Leather100_Eur_Arm'', ''Leather100_Eur_Body'',
      ''Leather100_Eur_Feet'', ''Leather100_Eur_Forearm'', ''Leather100_Eur_Helmet'',
      ''Leather100_Eur_Legs'', ''Leather60_Eur_Arm'', ''Leather60_Eur_Body'', ''Leather60_Eur_Feet'',
      ''Leather60_Eur_Forearm'', ''Leather60_Eur_Helmet'', ''Leather60_Eur_Legs'', ''Leather90_Eur_Arm'',
      ''Leather90_Eur_Body'', ''Leather90_Eur_Feet'', ''Leather90_Eur_Forearm'', ''Leather90_Eur_Helmet'',
      ''Leather90_Eur_Legs'', ''Light_Chain_Arm'', ''Light_Chain_Body'', ''Light_Chain_Feet'',
      ''Light_Chain_Forearm'', ''Light_Chain_Helmet'', ''Light_Chain_Legs'', ''Light_Scale_Arm'',
      ''Light_Scale_Body'', ''Light_Scale_Feet'', ''Light_Scale_Forearm'', ''Light_Scale_Helmet'',
      ''Light_Scale_Legs'', ''Male_Cardinal_Base'', ''Male_Craft90_All_Alchemist'',
      ''Male_Craft90_All_Blacksmith'', ''Male_Craft90_All_Carpenter'', ''Male_Craft90_All_Cook'',
      ''Male_Craft90_All_Engineer'', ''Male_Craft_Alchemist_SkinA'', ''Male_Craft_Blacksmith_SkinA'',
      ''Male_Craft_Carpenter_SkinA'', ''Male_Craft_Cook_SkinA'', ''Male_Craft_Engineer_SkinA'',
      ''Male_Decorated'', ''Male_Decorated_SkinA'', ''Male_Jarl_Base'', ''Male_Jarl_SkinA'',
      ''Male_Jarl_SkinB'', ''Male_Monk'', ''Male_Monk_SkinA'', ''Male_Noble_Base'', ''Male_Noble_SkinA'',
      ''Male_Noble_SkinB'', ''Male_Papa_Base'', ''Male_Peasant'', ''Male_Peasant_SkinA'',
      ''Male_Tatters_Eur'', ''Male_Tatters_Mon'', ''Male_Tatters_Vik'', ''Male_Villein_Base'',
      ''Male_Villein_SkinA'', ''Male_Villein_SkinB'', ''Novice_Leather_Arm'', ''Novice_Leather_Body'',
      ''Novice_Leather_Feet'', ''Novice_Leather_Forearm'', ''Novice_Leather_Helmet'',
      ''Novice_Leather_Legs'', ''Novice_Padded_Arm'', ''Novice_Padded_Body'', ''Novice_Padded_Feet'',
      ''Novice_Padded_Forearm'', ''Novice_Padded_Helmet'', ''Novice_Padded_Legs'', ''Padded0_Vik_Arm'',
      ''Padded0_Vik_Body'', ''Padded0_Vik_Feet'', ''Padded0_Vik_Forearm'', ''Padded0_Vik_Helmet'',
      ''Padded0_Vik_Legs'', ''Padded100_Vik_Arm'', ''Padded100_Vik_Body'', ''Padded100_Vik_Feet'',
      ''Padded100_Vik_Forearm'', ''Padded100_Vik_Helmet'', ''Padded100_Vik_Legs'', ''Padded60_Vik_Arm'']"

definition armor_meshes_3 :: "string list" where
  "armor_meshes_3 =
     [''Padded60_Vik_Body'', ''Padded60_Vik_Feet'', ''Padded60_Vik_Forearm'', ''Padded60_Vik_HelmetAdd'',
      ''Padded60_Vik_Helmet_Add_Dw'', ''Padded60_Vik_Helmet_Add_Up'', ''Padded60_Vik_Legs'',
      ''Padded90_Vik_Arm'', ''Padded90_Vik_Body'', ''Padded90_Vik_Feet'', ''Padded90_Vik_Forearm'',
      ''Padded90_Vik_Helmet'', ''Padded90_Vik_Helmet_Add_Dw'', ''Padded90_Vik_Helmet_Add_Up'',
      ''Padded90_Vik_Legs'', ''Plate0_Eur_Arm'', ''Plate0_Eur_Body'', ''Plate0_Eur_Feet'',
      ''Plate0_Eur_Forearm'', ''Plate0_Eur_Helmet'', ''Plate0_Eur_Legs'', ''Plate0_Eur_Shield'',
      ''Plate100_Eur_Arm'', ''Plate100_Eur_Body'', ''Plate100_Eur_Feet'', ''Plate100_Eur_Forearm'',
      ''Plate100_Eur_Helmet'', ''Plate100_Eur_Legs'', ''Plate100_Eur_Shield'', ''Plate60_Eur_Arm'',
      ''Plate60_Eur_Body'', ''Plate60_Eur_Feet'', ''Plate60_Eur_Forearm'', ''Plate60_Eur_Helmet'',
      ''Plate60_Eur_Legs'', ''Plate60_Eur_Shield'', ''Plate90_Eur_Arm'', ''Plate90_Eur_Body'',
      ''Plate90_Eur_Feet'', ''Plate90_Eur_Forearm'', ''Plate90_Eur_Helmet'', ''Plate90_Eur_Legs'',
      ''Plate90_Eur_Shield'', ''Regular_Chain_Arm'', ''Regular_Chain_Body'', ''Regular_Chain_Feet'',
      ''Regular_Chain_Forearm'', ''Regular_Chain_Helmet'', ''Regular_Chain_Legs'', ''Regular_Padded_Arm'',
      ''Regular_Padded_Body'', ''Regular_Padded_Feet'', ''Regular_Padded_Forearm'',
      ''Regular_Padded_Helmet'', ''Regular_Padded_Legs'', ''Regular_Scale_Arm'', ''Regular_Scale_Body'',
      ''Regular_Scale_Feet'', ''Regular_Scale_Forearm'', ''Regular_Scale_ForearmTwo'',
      ''Regular_Scale_Helmet'', ''Regular_Scale_Legs'', ''Royal_Chain_Arm'', ''Royal_Chain_Body'',
      ''Royal_Chain_Feet'', ''Royal_Chain_Forearm'', ''Royal_Chain_Helmet'', ''Royal_Chain_Legs'',
      ''Royal_Leather_Arm'', ''Royal_Leather_Body'', ''Royal_Leather_Feet'', ''Royal_Leather_Forearm'',
      ''Royal_Leather_Helmet'', ''Royal_Leather_Legs'', ''Royal_Padded_Arm'', ''Royal_Padded_Body'',
      ''Royal_Padded_Feet'', ''Royal_Padded_Forearm'', ''Royal_Padded_Helmet'', ''Royal_Padded_Legs'',
      ''Royal_Plate_Arm'', ''Royal_Plate_Body'', ''Royal_Plate_Feet'', ''Royal_Plate_Forearm'',
      ''Royal_Plate_Helmet'', ''Royal_Plate_Helmet_Add'', ''Royal_Plate_Legs'', ''Royal_Scale_Arm'',
      ''Royal_Scale_Body'', ''Royal_Scale_Feet'', ''Royal_Scale_Forearm'', ''Royal_Scale_Helmet'',
      ''Royal_Scale_Helmet_Add'', ''Royal_Scale_Legs'', ''Scale0_Mon_Arm'', ''Scale0_Mon_Body'',
      ''Scale0_Mon_Feet'', ''Scale0_Mon_Forearm'', ''Scale0_Mon_Helmet'', ''Scale0_Mon_Legs'',
      ''Scale100_Mon_Arm'', ''Scale100_Mon_Body'', ''Scale100_Mon_Feet'', ''Scale100_Mon_Forearm'',
      ''Scale100_Mon_Helmet'', ''Scale100_Mon_Legs'', ''Scale60_Mon_Arm'', ''Scale60_Mon_Body'',
      ''Scale60_Mon_Feet'', ''Scale60_Mon_Forearm'', ''Scale60_Mon_Helmet'', ''Scale60_Mon_Legs'',
      ''Scale90_Mon_Arm'', ''Scale90_Mon_Body'', ''Scale90_Mon_Feet'', ''Scale90_Mon_Forearm'',
      ''Scale90_Mon_Helmet'', ''Scale90_Mon_Legs'', ''Surcoat_Armor'', ''Surcoat_Body'',
      ''Transitional_Male_and_Plate_Arm'', ''Transitional_Male_and_Plate_Body'',
      ''Transitional_Male_and_Plate_Feet'', ''Transitional_Male_and_Plate_Forearm'',
      ''Transitional_Male_and_Plate_Helmet'', ''Transitional_Male_and_Plate_Helmet_Add'',
      ''Transitional_Male_and_Plate_Legs'']"

definition kLifxArmorMeshes :: "string list" where
  "kLifxArmorMeshes = armor_meshes_1 @ armor_meshes_2 @ armor_meshes_3"

lemmas armor_table = kLifxArmorMeshes_def armor_meshes_1_def armor_meshes_2_def armor_meshes_3_def append.simps

definition kLifxEquipExtraHide :: "string list" where
  "kLifxEquipExtraHide =
     [''Male_Beard_All_v1_cut'', ''Male_Beard_All_v1_up'', ''Male_Beard_All_v2_cut'',
      ''Male_Beard_All_v2_up'', ''Male_Beard_All_v3_cut'', ''Male_Beard_All_v3_up'',
      ''Male_Beard_All_v4_cut'', ''Male_Beard_All_v4_up'', ''Male_Beard_Eur_v1_cut'',
      ''Male_Beard_Eur_v1_up'', ''Male_Beard_Eur_v2_cut'', ''Male_Beard_Eur_v2_up'',
      ''Male_Beard_Eur_v3_cut'', ''Male_Beard_Eur_v3_up'', ''Male_Beard_Eur_v4_cut'',
      ''Male_Beard_Eur_v4_up'', ''Male_Beard_Mon_v1_cut'', ''Male_Beard_Mon_v1_up'',
      ''Male_Beard_Mon_v2_cut'', ''Male_Beard_Mon_v2_up'', ''Male_Beard_Mon_v3_cut'',
      ''Male_Beard_Mon_v3_up'', ''Male_Beard_Mon_v4_cut'', ''Male_Beard_Mon_v4_up'',
      ''Male_Beard_Vik_v1_cut'', ''Male_Beard_Vik_v1_up'', ''Male_Beard_Vik_v2_up'',
      ''Male_Beard_Vik_v3_up'', ''Male_Beard_Vik_v4_cut'', ''Male_Beard_Vik_v4_up'',
      ''Male_Hair_All_v1_cut'', ''Male_Hair_All_v1_up'', ''Male_Hair_All_v2_cut'', ''Male_Hair_All_v2_up'',
      ''Male_Hair_All_v3_up'', ''Male_Hair_All_v4_cut'', ''Male_Hair_All_v4_up'', ''Male_Hair_Eur_v1_cut'',
      ''Male_Hair_Eur_v1_up'', ''Male_Hair_Eur_v2_cut'', ''Male_Hair_Eur_v2_up'', ''Male_Hair_Eur_v3_up'',
      ''Male_Hair_Eur_v4_up'', ''Male_Hair_Mon_v1_up'', ''Male_Hair_Mon_v2_cut'', ''Male_Hair_Mon_v2_up'',
      ''Male_Hair_Mon_v3_up'', ''Male_Hair_Mon_v4_cut'', ''Male_Hair_Mon_v4_up'', ''Male_Hair_Vik_v1_up'',
      ''Male_Hair_Vik_v2_cut'', ''Male_Hair_Vik_v2_up'', ''Male_Hair_Vik_v3_up'', ''Male_Hair_Vik_v4_up'',
      ''Male_Underwear_Eur_Hips'', ''Male_Underwear_Eur_Hips_B'', ''Male_Underwear_Mon_Body'',
      ''Male_Underwear_Mon_Feet'', ''Male_Underwear_Mon_Hips'', ''Male_Underwear_Mon_Hips_B'',
      ''Male_Underwear_Vik_Arm'', ''Male_Underwear_Vik_Body'', ''Male_Underwear_Vik_Feet'',
      ''Male_Underwear_Vik_Hips'', ''Male_Underwear_Vik_Hips_B'', ''Male_Antiseam'']"

record LifxLoadout =
  lo_name :: string
  meshes :: "string list"
  bareBody :: bool

definition kDefaultBodyHide :: "string list" where
  "kDefaultBodyHide =
     [''Male_Body_ALL'']"

definition kBareBodyShow :: "string list" where
  "kBareBodyShow =
     [''Male_Body_v1_arm'', ''Male_Body_v1_feet'', ''Male_Body_v1_forearms'', ''Male_Body_v1_shin'',
      ''Male_Body_v1_shoulders'', ''Male_Body_v1_torso'', ''Male_Body_v1_torso_B'',
      ''Male_Body_v1_torso_block'', ''Male_Body_v1_torso_C'']"

definition kLoadoutPlate :: "string list" where
  "kLoadoutPlate =
     [''Full_Plate_Helmet'', ''Full_Plate_Body'', ''Full_Plate_Arm'', ''Full_Plate_Forearm'',
      ''Full_Plate_Legs'', ''Full_Plate_Feet'']"

definition kLoadoutLeather :: "string list" where
  "kLoadoutLeather =
     [''Novice_Leather_Helmet'', ''Novice_Leather_Body'', ''Novice_Leather_Arm'',
      ''Novice_Leather_Forearm'', ''Novice_Leather_Legs'', ''Novice_Leather_Feet'']"

definition kLifxLoadouts :: "LifxLoadout list" where
  "kLifxLoadouts =
     [\<lparr>lo_name = ''plate'', meshes = kLoadoutPlate, bareBody = False\<rparr>,
      \<lparr>lo_name = ''leather'', meshes = kLoadoutLeather, bareBody = True\<rparr>]"

end
