(* ===== verification/Equip_Sync.thy ===== *)
theory Equip_Sync
  imports Code_Memory Equip_Meshes
begin

text \<open>
  The equipment a server-side NPC shows on the clients. The server appends a marker and a loadout number
  to the ghost update (\<open>source/server/hooks/character/hook_npcdec_pack.cpp\<close>); the client reads them back
  after the engine's own fields and hides and shows meshes (\<open>source/client/hook_equip_unpack.cpp\<close>). Both
  reach the engine by replacing one slot of a class's function table. The engine's stream writer is the
  list of the flags given to it; its reader is the stream record in memory, as the client reads it.
\<close>

section \<open>Server\<close>

text \<open>A patched slot: the function found in it and the address of the slot, zero when not patched.\<close>

type_synonym slot_patch = "u64 \<times> u64"

record npcdec =
  g_loadouts :: "u64 \<rightharpoonup> u8"
  g_aiNpcs :: "u64 set"
  npc_pack :: slot_patch
  animal_pack :: slot_patch

definition SetLoadout :: "u64 \<Rightarrow> u8 \<Rightarrow> npcdec \<Rightarrow> npcdec" where
  "SetLoadout npc loadoutId s = (if npc = 0 then s else s\<lparr>g_loadouts := (g_loadouts s)(npc \<mapsto> loadoutId)\<rparr>)"

definition SetAiTick :: "u64 \<Rightarrow> bool \<Rightarrow> npcdec \<Rightarrow> npcdec" where
  "SetAiTick npc on s =
     (if npc = 0 then s
      else s\<lparr>g_aiNpcs := (if on then insert npc (g_aiNpcs s) else g_aiNpcs s - {npc})\<rparr>)"

definition loadout_of :: "npcdec \<Rightarrow> u64 \<Rightarrow> u8" where
  "loadout_of s self = (case g_loadouts s self of Some l \<Rightarrow> l | None \<Rightarrow> 0)"

definition AppendBits :: "u8 \<Rightarrow> nat \<Rightarrow> bool list" where
  "AppendBits v bits = map (\<lambda>i. bit v i) [0..<bits]"

text \<open>The flags the two packing functions append behind the engine's fields.\<close>

definition OnPackUpdate :: "npcdec \<Rightarrow> u64 \<Rightarrow> u64 \<Rightarrow> bool list" where
  "OnPackUpdate s self stream = (if stream = 0 then [] else True # AppendBits (loadout_of s self) 8)"

definition OnAnimalPackUpdate :: "bool \<Rightarrow> npcdec \<Rightarrow> u64 \<Rightarrow> u64 \<Rightarrow> bool list" where
  "OnAnimalPackUpdate isBandit s self stream =
     (if stream = 0 then [] else if isBandit then True # AppendBits (loadout_of s self) 8 else [False])"

definition NPCDEC_VTABLE :: u64 where "NPCDEC_VTABLE = 0x7E3D08"
definition NPCDEC_PACKUPDATE_SLOT :: u64 where "NPCDEC_PACKUPDATE_SLOT = 54"
definition NPCDEC_PACKUPDATE_THUNK :: u64 where "NPCDEC_PACKUPDATE_THUNK = 0x2E54C0"
definition ANIMAL_VTABLE :: u64 where "ANIMAL_VTABLE = 0x798AA0"
definition ANIMAL_PACKUPDATE_SLOT :: u64 where "ANIMAL_PACKUPDATE_SLOT = 54"
definition ANIMAL_PACKUPDATE_FN :: u64 where "ANIMAL_PACKUPDATE_FN = 0x18B450"

text \<open>Replacing a slot that must hold the expected function; \<open>ok\<close> is the answer of \<open>VirtualProtect\<close>.\<close>

definition checked_patch :: "bool \<Rightarrow> u64 \<Rightarrow> u64 \<Rightarrow> u64 \<Rightarrow> mem \<Rightarrow> slot_patch \<Rightarrow> mem \<times> slot_patch" where
  "checked_patch ok slot expected hook m p =
     (let cur = (read_field m slot 0 :: u64)
      in if cur \<noteq> expected then (m, p)
         else if ok then (write_field m slot 0 hook, (cur, slot)) else (m, (0, snd p)))"

definition remove_patch :: "bool \<Rightarrow> mem \<Rightarrow> slot_patch \<Rightarrow> mem \<times> slot_patch" where
  "remove_patch ok m p =
     (if snd p = 0 \<or> fst p = 0 then (m, p)
      else ((if ok then write_field m (snd p) 0 (fst p) else m), (fst p, 0)))"

definition InstallVtablePatch :: "bool \<Rightarrow> u64 \<Rightarrow> u64 \<Rightarrow> mem \<Rightarrow> npcdec \<Rightarrow> mem \<times> npcdec" where
  "InstallVtablePatch ok base hook m s =
     (case checked_patch ok (base + NPCDEC_VTABLE + NPCDEC_PACKUPDATE_SLOT * 8) (base + NPCDEC_PACKUPDATE_THUNK)
             hook m (npc_pack s) of (m, p) \<Rightarrow> (m, s\<lparr>npc_pack := p\<rparr>))"

definition InstallAnimalVtablePatch :: "bool \<Rightarrow> u64 \<Rightarrow> u64 \<Rightarrow> mem \<Rightarrow> npcdec \<Rightarrow> mem \<times> npcdec" where
  "InstallAnimalVtablePatch ok base hook m s =
     (case checked_patch ok (base + ANIMAL_VTABLE + ANIMAL_PACKUPDATE_SLOT * 8) (base + ANIMAL_PACKUPDATE_FN)
             hook m (animal_pack s) of (m, p) \<Rightarrow> (m, s\<lparr>animal_pack := p\<rparr>))"

definition RemoveVtablePatch :: "bool \<Rightarrow> mem \<Rightarrow> npcdec \<Rightarrow> mem \<times> npcdec" where
  "RemoveVtablePatch ok m s = (case remove_patch ok m (npc_pack s) of (m, p) \<Rightarrow> (m, s\<lparr>npc_pack := p\<rparr>))"

definition RemoveAnimalVtablePatch :: "bool \<Rightarrow> mem \<Rightarrow> npcdec \<Rightarrow> mem \<times> npcdec" where
  "RemoveAnimalVtablePatch ok m s = (case remove_patch ok m (animal_pack s) of (m, p) \<Rightarrow> (m, s\<lparr>animal_pack := p\<rparr>))"

section \<open>The client's stream\<close>

definition kBufOff :: u64 where "kBufOff = 0x10"
definition kBitPosOff :: u64 where "kBitPosOff = 0x18"
definition kCapBytesOff :: u64 where "kCapBytesOff = 0x20"
definition kOverflowOff :: u64 where "kOverflowOff = 0x28"

definition ReadBit :: "u64 \<Rightarrow> mem \<Rightarrow> bool \<times> mem" where
  "ReadBit stream m =
     (let bitPos = (read_field m stream kBitPosOff :: u64);
          capBits = (read_field m stream kCapBytesOff :: u64) * 8
      in if capBits < bitPos + 1 then (False, write_field m stream kOverflowOff (1 :: u8))
         else let buf = (read_field m stream kBufOff :: u64);
                  byte = m (buf + drop_bit 3 bitPos)
              in (bit byte (unat (bitPos AND 7)), write_field m stream kBitPosOff (bitPos + 1)))"

fun read_bits :: "u64 \<Rightarrow> nat \<Rightarrow> nat \<Rightarrow> u32 \<Rightarrow> mem \<Rightarrow> u32 \<times> mem" where
  "read_bits stream 0 i v m = (v, m)"
| "read_bits stream (Suc n) i v m =
     (case ReadBit stream m of (b, m) \<Rightarrow> read_bits stream n (Suc i) (v OR push_bit i (of_bool b)) m)"

definition ReadBits :: "u64 \<Rightarrow> nat \<Rightarrow> mem \<Rightarrow> u32 \<times> mem" where
  "ReadBits stream n m = read_bits stream n 0 0 m"

section \<open>The client's meshes\<close>

text \<open>Calls of the engine's \<open>setMeshHidden\<close>, each with its mesh and whether it hides.\<close>

definition ApplyEquip :: "nat \<Rightarrow> (string \<times> bool) list" where
  "ApplyEquip loadoutId =
     map (\<lambda>x. (x, True)) kLifxArmorMeshes @ map (\<lambda>x. (x, True)) kLifxEquipExtraHide @
     (if length kLifxLoadouts \<le> loadoutId then []
      else let lo = kLifxLoadouts ! loadoutId
           in (if bareBody lo then map (\<lambda>x. (x, True)) kDefaultBodyHide @ map (\<lambda>x. (x, False)) kBareBodyShow else [])
              @ map (\<lambda>x. (x, False)) (meshes lo))"

definition kShapeReadyOff :: u64 where "kShapeReadyOff = 0x10"
definition kShapeReady :: u32 where "kShapeReady = 0x400"

definition ShapeReady :: "mem \<Rightarrow> u64 \<Rightarrow> bool" where
  "ShapeReady m self \<longleftrightarrow> (read_field m self kShapeReadyOff :: u32) AND kShapeReady \<noteq> 0"

type_synonym applied = "u64 \<rightharpoonup> nat"

text \<open>Re-skinning when the loadout changed and the shape is there.\<close>

definition reskin :: "mem \<Rightarrow> u64 \<Rightarrow> nat \<Rightarrow> applied \<Rightarrow> (string \<times> bool) list \<times> applied" where
  "reskin m self loadoutId g_applied =
     (if g_applied self \<noteq> Some loadoutId \<and> ShapeReady m self
      then (ApplyEquip loadoutId, g_applied(self \<mapsto> loadoutId)) else ([], g_applied))"

text \<open>The engine's own unpacking is an argument.\<close>

definition OnUnpackUpdate ::
  "(mem \<Rightarrow> mem) \<Rightarrow> u64 \<Rightarrow> u64 \<Rightarrow> mem \<Rightarrow> applied \<Rightarrow> (string \<times> bool) list \<times> mem \<times> applied" where
  "OnUnpackUpdate orig self stream m g_applied =
     (let m = orig m
      in if self = 0 \<or> stream = 0 then ([], m, g_applied)
         else case ReadBit stream m of
                (marker, m) \<Rightarrow>
                  (case ReadBits stream 8 m of
                     (loadoutId, m) \<Rightarrow>
                       if \<not> marker then ([], m, g_applied)
                       else (case reskin m self (unat loadoutId) g_applied of (calls, a) \<Rightarrow> (calls, m, a))))"

definition OnAnimalUnpackUpdate ::
  "(mem \<Rightarrow> mem) \<Rightarrow> u64 \<Rightarrow> u64 \<Rightarrow> mem \<Rightarrow> applied \<Rightarrow> (string \<times> bool) list \<times> mem \<times> applied" where
  "OnAnimalUnpackUpdate orig self stream m g_applied =
     (let m = orig m
      in if self = 0 \<or> stream = 0 then ([], m, g_applied)
         else case ReadBit stream m of
                (marker, m) \<Rightarrow>
                  if \<not> marker then ([], m, g_applied)
                  else (case ReadBits stream 8 m of
                          (loadoutId, m) \<Rightarrow>
                            (case reskin m self (unat loadoutId) g_applied of (calls, a) \<Rightarrow> (calls, m, a))))"

section \<open>The client's slots\<close>

definition CLIENT_NPCDEC_VTABLE :: u64 where "CLIENT_NPCDEC_VTABLE = 0xF7BC08"
definition CLIENT_ANIMAL_VTABLE :: u64 where "CLIENT_ANIMAL_VTABLE = 0xF3FD18"
definition CLIENT_ANIMAL_UNPACK_FN :: u64 where "CLIENT_ANIMAL_UNPACK_FN = 0x321D70"
definition kUnpackSlot :: u64 where "kUnpackSlot = 56"

record unpack_patches =
  npc_unpack :: slot_patch
  animal_unpack :: slot_patch

text \<open>The NPC slot is replaced whatever it holds.\<close>

definition ClientInstallVtablePatch :: "bool \<Rightarrow> u64 \<Rightarrow> u64 \<Rightarrow> mem \<Rightarrow> unpack_patches \<Rightarrow> mem \<times> unpack_patches" where
  "ClientInstallVtablePatch ok base hook m s =
     (let slot = base + CLIENT_NPCDEC_VTABLE + kUnpackSlot * 8; cur = (read_field m slot 0 :: u64)
      in if ok then (write_field m slot 0 hook, s\<lparr>npc_unpack := (cur, slot)\<rparr>)
         else (m, s\<lparr>npc_unpack := (cur, snd (npc_unpack s))\<rparr>))"

definition ClientInstallAnimalVtablePatch ::
  "bool \<Rightarrow> u64 \<Rightarrow> u64 \<Rightarrow> mem \<Rightarrow> unpack_patches \<Rightarrow> mem \<times> unpack_patches" where
  "ClientInstallAnimalVtablePatch ok base hook m s =
     (case checked_patch ok (base + CLIENT_ANIMAL_VTABLE + kUnpackSlot * 8) (base + CLIENT_ANIMAL_UNPACK_FN)
             hook m (animal_unpack s) of (m, p) \<Rightarrow> (m, s\<lparr>animal_unpack := p\<rparr>))"

definition ClientRemoveVtablePatch :: "bool \<Rightarrow> mem \<Rightarrow> unpack_patches \<Rightarrow> mem \<times> unpack_patches" where
  "ClientRemoveVtablePatch ok m s = (case remove_patch ok m (npc_unpack s) of (m, p) \<Rightarrow> (m, s\<lparr>npc_unpack := p\<rparr>))"

definition ClientRemoveAnimalVtablePatch :: "bool \<Rightarrow> mem \<Rightarrow> unpack_patches \<Rightarrow> mem \<times> unpack_patches" where
  "ClientRemoveAnimalVtablePatch ok m s =
     (case remove_patch ok m (animal_unpack s) of (m, p) \<Rightarrow> (m, s\<lparr>animal_unpack := p\<rparr>))"

end
