(* ===== verification/Equip_Laws.thy ===== *)
theory Equip_Laws
  imports Equip_Sync
begin

text \<open>
  Server and client agree: the bits one appends are the bits the other reads, whatever the loadout, so
  that the ghost packet stays framed; the loadout decides which meshes are seen, except for the body
  meshes, which keep what an earlier loadout did to them.
\<close>

section \<open>The stream\<close>

definition bit_pos :: "mem \<Rightarrow> u64 \<Rightarrow> nat" where
  "bit_pos m stream = unat (read_field m stream kBitPosOff :: u64)"

text \<open>The stream holds the flags from its position on, in a buffer that does not overlap its position.\<close>

definition holds :: "mem \<Rightarrow> u64 \<Rightarrow> bool list \<Rightarrow> bool" where
  "holds m stream fs \<longleftrightarrow>
     bit_pos m stream + length fs \<le> 8 * unat (read_field m stream kCapBytesOff :: u64) \<and>
     unat (read_field m stream kCapBytesOff :: u64) < 2 ^ 60 \<and>
     (\<forall>i<length fs. let a = (read_field m stream kBufOff :: u64) + word_of_nat ((bit_pos m stream + i) div 8)
        in bit (m a) ((bit_pos m stream + i) mod 8) = fs ! i \<and> 8 \<le> unat (a - (stream + kBitPosOff)))"

lemma stream_fields_kept:
  "(read_field (write_field m stream kBitPosOff (v :: u64)) stream kBufOff :: u64) = read_field m stream kBufOff"
  "(read_field (write_field m stream kBitPosOff (v :: u64)) stream kCapBytesOff :: u64) = read_field m stream kCapBytesOff"
proof -
  have "outside kBufOff 8 kBitPosOff 8" unfolding kBufOff_def kBitPosOff_def by (rule outside_before) simp_all
  then show "(read_field (write_field m stream kBitPosOff v) stream kBufOff :: u64) = read_field m stream kBufOff"
    by (intro read_write_other) (simp add: outside_const)
  have "outside kCapBytesOff 8 kBitPosOff 8" unfolding kCapBytesOff_def kBitPosOff_def by (rule outside_above) simp_all
  then show "(read_field (write_field m stream kBitPosOff v) stream kCapBytesOff :: u64) = read_field m stream kCapBytesOff"
    by (intro read_write_other) (simp add: outside_const)
qed

lemma bit_pos_written: "bit_pos (write_field m stream kBitPosOff (v :: u64)) stream = unat v"
  using read_write_field [where 'a = 64 and n = 8] by (simp add: bit_pos_def)

lemma ReadBit_holds:
  assumes "holds m stream (f # fs)"
  shows "\<exists>m'. ReadBit stream m = (f, m') \<and> holds m' stream fs \<and> bit_pos m' stream = Suc (bit_pos m stream)"
proof -
  let ?p = "read_field m stream kBitPosOff :: u64" and ?c = "read_field m stream kCapBytesOff :: u64"
  let ?b = "read_field m stream kBufOff :: u64"
  let ?m = "write_field m stream kBitPosOff (?p + 1)"
  note h = assms [unfolded holds_def bit_pos_def Let_def]
  have all: "bit (m (?b + word_of_nat ((unat ?p + i) div 8))) ((unat ?p + i) mod 8) = (f # fs) ! i \<and>
      8 \<le> unat (?b + word_of_nat ((unat ?p + i) div 8) - (stream + kBitPosOff))" if "i < length (f # fs)" for i
    using h that by blast
  have cap: "unat (?c * 8) = 8 * unat ?c" using h by (simp add: unat_word_ariths)
  have p1: "unat (?p + 1) = Suc (unat ?p)" using h by (simp add: unat_word_ariths)
  have in_cap: "\<not> ?c * 8 < ?p + 1" using h cap p1 by (simp add: word_less_nat_alt)
  have "unat (drop_bit 3 ?p) = unat ?p div 8" by (simp add: drop_bit_eq_div unat_div)
  then have a: "?b + drop_bit 3 ?p = ?b + word_of_nat (unat ?p div 8)" by (metis of_nat_unat ucast_id)
  have "?p AND 7 = ?p AND mask 3" by (simp add: mask_eq_exp_minus_1)
  then have "unat (?p AND 7) = unat ?p mod 8" by (simp add: take_bit_eq_mask [symmetric] take_bit_eq_mod unat_mod_distrib)
  then have "ReadBit stream m = (bit (m (?b + word_of_nat (unat ?p div 8))) (unat ?p mod 8), ?m)"
    using in_cap by (simp add: ReadBit_def Let_def a)
  moreover have "bit (m (?b + word_of_nat (unat ?p div 8))) (unat ?p mod 8) = f" using all [of 0] by simp
  moreover have pos: "bit_pos ?m stream = Suc (bit_pos m stream)"
    using p1 by (simp add: bit_pos_written) (simp add: bit_pos_def)
  moreover have "holds ?m stream fs"
    unfolding holds_def stream_fields_kept pos Let_def
  proof (intro conjI allI impI)
    show "Suc (bit_pos m stream) + length fs \<le> 8 * unat ?c" "unat ?c < 2 ^ 60" using h by (simp_all add: bit_pos_def)
    fix i assume i: "i < length fs"
    let ?a = "?b + word_of_nat ((Suc (bit_pos m stream) + i) div 8)"
    have b: "bit (m ?a) ((Suc (bit_pos m stream) + i) mod 8) = fs ! i \<and> 8 \<le> unat (?a - (stream + kBitPosOff))"
      using all [of "Suc i"] i by (simp add: bit_pos_def)
    then have "?m ?a = m ?a" by (simp add: write_field_def mwrite_other)
    then show "bit (?m ?a) ((Suc (bit_pos m stream) + i) mod 8) = fs ! i"
      "8 \<le> unat (?a - (stream + kBitPosOff))" using b by simp_all
  qed
  ultimately show ?thesis by blast
qed

fun bits_value :: "nat \<Rightarrow> bool list \<Rightarrow> u32" where
  "bits_value i [] = 0"
| "bits_value i (b # bs) = push_bit i (of_bool b) OR bits_value (Suc i) bs"

lemma bit_bits_value: "bit (bits_value i bs) k \<longleftrightarrow> i \<le> k \<and> k < i + length bs \<and> k < 32 \<and> bs ! (k - i)"
proof (induction bs arbitrary: i)
  case (Cons b bs)
  have p: "bit (push_bit i (of_bool b) :: u32) k \<longleftrightarrow> i = k \<and> k < 32 \<and> b"
    by (auto simp: bit_push_bit_iff bit_of_bool_iff)
  show ?case
  proof (cases "i = k")
    case True
    then show ?thesis using Cons.IH [of "Suc i"] p by (simp add: bit_or_iff)
  next
    case False
    then show ?thesis using Cons.IH [of "Suc i"] p
      by (auto simp: bit_or_iff nth_Cons' Suc_le_eq) 
  qed
qed simp

lemma AppendBits_value: "unat (bits_value 0 (AppendBits l 8)) = unat l"
proof -
  have "bits_value 0 (AppendBits l 8) = ucast l"
  proof (rule bit_word_eqI)
    fix n assume "n < LENGTH(32)"
    then show "bit (bits_value 0 (AppendBits l 8)) n = bit (ucast l :: u32) n"
      using bit_imp_le_length [of l n] by (auto simp: bit_bits_value AppendBits_def bit_ucast_iff)
  qed
  moreover have "unat l < 2 ^ 32"
  proof -
    have "unat l < 2 ^ LENGTH(8)" by (rule unsigned_less)
    then show ?thesis by simp
  qed
  ultimately show ?thesis by (simp add: unsigned_ucast_eq take_bit_nat_eq_self)
qed

lemma read_bits_holds:
  "holds m stream fs \<Longrightarrow> \<exists>m'. read_bits stream (length fs) i v m = (v OR bits_value i fs, m') \<and>
     bit_pos m' stream = bit_pos m stream + length fs"
proof (induction fs arbitrary: m i v)
  case (Cons f fs)
  obtain m1 where m1: "ReadBit stream m = (f, m1)" "holds m1 stream fs" "bit_pos m1 stream = Suc (bit_pos m stream)"
    using ReadBit_holds [OF Cons.prems] by blast
  then show ?case using Cons.IH [OF m1(2), of "Suc i" "v OR push_bit i (of_bool f)"]
    by (auto simp: or.assoc)
qed simp

lemma ReadBits_loadout:
  assumes "holds m stream (AppendBits l 8)"
  obtains m' w where "ReadBits stream 8 m = (w, m')" "unat w = unat l" "bit_pos m' stream = bit_pos m stream + 8"
proof -
  have "length (AppendBits l 8) = 8" by (simp add: AppendBits_def)
  then show thesis
    using read_bits_holds [OF assms, of 0 0] that AppendBits_value [of l] by (auto simp: ReadBits_def)
qed

section \<open>The loadout reaches the client\<close>

text \<open>C25: For every animal, wild or bandit, the client reads exactly the bits the server appended, and for a
  bandit whose shape is ready it shows the loadout the server has for it: it re-skins when that is another
  loadout than the one it applied last, and does nothing otherwise.\<close>

theorem animal_loadout_reaches_client:
  assumes "holds (orig m) stream flags" and "flags = OnAnimalPackUpdate isBandit s npc server_stream"
    and "self \<noteq> 0" "stream \<noteq> 0" "server_stream \<noteq> 0"
    and "OnAnimalUnpackUpdate orig self stream m applied = (calls, m', applied')"
  shows "bit_pos m' stream = bit_pos (orig m) stream + length flags \<and>
    (if isBandit \<and> ShapeReady m' self
     then applied' self = Some (unat (loadout_of s npc)) \<and>
       calls = (if applied self = Some (unat (loadout_of s npc)) then [] else ApplyEquip (unat (loadout_of s npc)))
     else calls = [] \<and> applied' = applied)"
proof (cases isBandit)
  case False
  then have flags: "flags = [False]" using assms(2,5) by (simp add: OnAnimalPackUpdate_def)
  then obtain m1 where "ReadBit stream (orig m) = (False, m1)" "bit_pos m1 stream = Suc (bit_pos (orig m) stream)"
    using ReadBit_holds [of "orig m" stream False "[]"] assms(1) by blast
  then show ?thesis using False assms(3,4,6) flags by (simp add: OnAnimalUnpackUpdate_def)
next
  case True
  let ?l = "loadout_of s npc"
  have flags: "flags = True # AppendBits ?l 8" using True assms(2,5) by (simp add: OnAnimalPackUpdate_def)
  then obtain m1 where m1: "ReadBit stream (orig m) = (True, m1)" "holds m1 stream (AppendBits ?l 8)"
    "bit_pos m1 stream = Suc (bit_pos (orig m) stream)"
    using ReadBit_holds [of "orig m" stream True "AppendBits ?l 8"] assms(1) by blast
  obtain m2 w where m2: "ReadBits stream 8 m1 = (w, m2)" "unat w = unat ?l" "bit_pos m2 stream = bit_pos m1 stream + 8"
    by (rule ReadBits_loadout [OF m1(2)])
  then show ?thesis using True assms(3,4,6) m1 flags
    by (auto simp: OnAnimalUnpackUpdate_def reskin_def AppendBits_def split: if_splits)
qed

lemma npc_loadout_reaches_client:
  assumes "holds (orig m) stream (OnPackUpdate s npc server_stream)"
    and "self \<noteq> 0" "stream \<noteq> 0" "server_stream \<noteq> 0"
    and "OnUnpackUpdate orig self stream m applied = (calls, m', applied')"
  shows "bit_pos m' stream = bit_pos (orig m) stream + 9 \<and>
    (ShapeReady m' self \<longrightarrow> applied' self = Some (unat (loadout_of s npc)))"
proof -
  let ?l = "loadout_of s npc"
  obtain m1 where m1: "ReadBit stream (orig m) = (True, m1)" "holds m1 stream (AppendBits ?l 8)"
    "bit_pos m1 stream = Suc (bit_pos (orig m) stream)"
    using ReadBit_holds [of "orig m" stream True "AppendBits ?l 8"] assms(1,4) by (auto simp: OnPackUpdate_def)
  obtain m2 w where m2: "ReadBits stream 8 m1 = (w, m2)" "unat w = unat ?l" "bit_pos m2 stream = bit_pos m1 stream + 8"
    by (rule ReadBits_loadout [OF m1(2)])
  then show ?thesis using assms(2,3,5) m1
    by (auto simp: OnUnpackUpdate_def reskin_def split: if_splits)
qed

section \<open>What is seen\<close>

text \<open>The last call decides whether a mesh is hidden; without a call it stays as the model has it.\<close>

definition hidden_after :: "(string \<times> bool) list \<Rightarrow> string \<Rightarrow> bool option" where
  "hidden_after calls x = map_of (rev calls) x"

lemma hidden_after_append:
  "hidden_after (xs @ ys) x = (case hidden_after ys x of Some h \<Rightarrow> Some h | None \<Rightarrow> hidden_after xs x)"
  unfolding hidden_after_def by (simp add: map_add_def)

lemma hidden_after_map: "hidden_after (map (\<lambda>x. (x, c)) xs) x = (if x \<in> set xs then Some c else None)"
proof -
  have "map_of (map (\<lambda>x. (x, c)) ys) x = (if x \<in> set ys then Some c else None)" for ys
    by (induction ys) auto
  then show ?thesis by (simp add: hidden_after_def rev_map)
qed

lemma hidden_after_Nil: "hidden_after [] x = None"
  by (simp add: hidden_after_def)

definition body_mesh :: "string \<Rightarrow> bool" where
  "body_mesh x \<longleftrightarrow> take 9 x = ''Male_Body''"

lemma body_meshes: "list_all body_mesh (kDefaultBodyHide @ kBareBodyShow)"
  by (simp add: body_mesh_def kDefaultBodyHide_def kBareBodyShow_def)

lemma other_meshes:
  "list_all (\<lambda>x. \<not> body_mesh x) kLifxArmorMeshes" "list_all (\<lambda>x. \<not> body_mesh x) kLifxEquipExtraHide"
  "list_all (\<lambda>x. \<not> body_mesh x) (kLoadoutPlate @ kLoadoutLeather)"
  by (simp_all add: body_mesh_def armor_table kLifxEquipExtraHide_def kLoadoutPlate_def kLoadoutLeather_def)

lemma body_not_in_tables:
  "list_all (\<lambda>x. x \<notin> set kLifxArmorMeshes \<and> x \<notin> set kLifxEquipExtraHide \<and> x \<notin> set kLoadoutPlate \<and>
     x \<notin> set kLoadoutLeather) (kDefaultBodyHide @ kBareBodyShow)"
  using body_meshes other_meshes unfolding list_all_iff set_append by blast

lemma default_not_bare: "list_all (\<lambda>x. x \<notin> set kBareBodyShow) kDefaultBodyHide"
  by code_simp

lemmas visibility = hidden_after_append hidden_after_map hidden_after_Nil ApplyEquip_def kLifxLoadouts_def Let_def

text \<open>After a loadout is applied, every armour, hair, beard and underwear mesh is hidden but those of the
  loadout; an unknown number hides them all.\<close>

theorem loadout_decides_visibility:
  "list_all (\<lambda>x. hidden_after (ApplyEquip i) x =
       Some (\<not> (i < length kLifxLoadouts \<and> x \<in> set (meshes (kLifxLoadouts ! i)))))
     (kLifxArmorMeshes @ kLifxEquipExtraHide)"
proof -
  have bare: "x \<notin> set kBareBodyShow" if "x \<in> set kLifxArmorMeshes \<union> set kLifxEquipExtraHide" for x
    using body_not_in_tables that by (auto simp: list_all_iff)
  have "i = 0 \<or> i = 1 \<or> length kLifxLoadouts \<le> i" by (auto simp: kLifxLoadouts_def)
  then show ?thesis using bare by (auto simp: list_all_iff visibility split: option.splits)
qed

text \<open>The body meshes are not reset: after leather has been shown, plate leaves the default body hidden
  and the bare skin shown, where plate on a fresh model leaves the body as it is.\<close>

theorem bare_body_outlives_loadout:
  "list_all (\<lambda>x. hidden_after (ApplyEquip 1 @ ApplyEquip 0) x = Some True \<and> hidden_after (ApplyEquip 0) x = None)
     kDefaultBodyHide \<and>
   list_all (\<lambda>x. hidden_after (ApplyEquip 1 @ ApplyEquip 0) x = Some False \<and> hidden_after (ApplyEquip 0) x = None)
     kBareBodyShow"
proof -
  have out: "x \<notin> set kLifxArmorMeshes" "x \<notin> set kLifxEquipExtraHide" "x \<notin> set kLoadoutPlate" "x \<notin> set kLoadoutLeather"
    if "x \<in> set kDefaultBodyHide \<union> set kBareBodyShow" for x
    using body_not_in_tables that by (auto simp: list_all_iff)
  have "x \<notin> set kBareBodyShow" if "x \<in> set kDefaultBodyHide" for x
    using default_not_bare that by (auto simp: list_all_iff)
  then show ?thesis using out by (auto simp: list_all_iff visibility)
qed

section \<open>Patches\<close>

lemma remove_checked_patch:
  assumes "checked_patch ok slot expected hook m p = (m1, p1)" and "snd p = 0" "expected \<noteq> 0" "slot \<noteq> 0"
  shows "fst (remove_patch True m1 p1) = m \<and> (read_field m slot 0 \<noteq> expected \<longrightarrow> m1 = m \<and> p1 = p)"
proof -
  have undo: "write_field (write_field m slot 0 hook) slot 0 (read_field m slot 0 :: u64) = m" for m
  proof -
    have "store_le 8 (read_field m slot 0 :: u64) = mread m slot 8"
      using store_load_le [of "mread m slot 8", where 'a = 64] by (simp add: read_field_def)
    then show ?thesis using mwrite_restore [of m slot "store_le 8 hook"] by (simp add: write_field_def)
  qed
  show ?thesis using assms undo by (auto simp: checked_patch_def remove_patch_def Let_def split: if_splits)
qed

text \<open>Installing the server's two patches and removing them restores every byte; a slot that does not
  hold the expected function is left alone, whether or not the page could be made writable.\<close>

theorem removed_patches_leave_no_trace:
  assumes "InstallVtablePatch ok base hook m s = (m1, s1)" and "snd (npc_pack s) = 0"
    and "base + NPCDEC_PACKUPDATE_THUNK \<noteq> 0" "base + NPCDEC_VTABLE + NPCDEC_PACKUPDATE_SLOT * 8 \<noteq> 0"
    and "InstallAnimalVtablePatch ok' base hook' m1 s1 = (m2, s2)" and "snd (animal_pack s) = 0"
    and "base + ANIMAL_PACKUPDATE_FN \<noteq> 0" "base + ANIMAL_VTABLE + ANIMAL_PACKUPDATE_SLOT * 8 \<noteq> 0"
    and "RemoveAnimalVtablePatch True m2 s2 = (m3, s3)"
  shows "m3 = m1 \<and> fst (RemoveVtablePatch True m3 s3) = m"
proof -
  obtain p1 where p1: "checked_patch ok (base + NPCDEC_VTABLE + NPCDEC_PACKUPDATE_SLOT * 8) (base + NPCDEC_PACKUPDATE_THUNK)
      hook m (npc_pack s) = (m1, p1)" "s1 = s\<lparr>npc_pack := p1\<rparr>"
    using assms(1) by (auto simp: InstallVtablePatch_def split: prod.splits)
  obtain p2 where p2: "checked_patch ok' (base + ANIMAL_VTABLE + ANIMAL_PACKUPDATE_SLOT * 8) (base + ANIMAL_PACKUPDATE_FN)
      hook' m1 (animal_pack s) = (m2, p2)" "s2 = s1\<lparr>animal_pack := p2\<rparr>"
    using assms(5) p1(2) by (auto simp: InstallAnimalVtablePatch_def split: prod.splits)
  have "m3 = m1" "npc_pack s3 = p1"
    using assms(9) remove_checked_patch [OF p2(1) assms(6,7,8)] p1(2) p2(2)
    by (auto simp: RemoveAnimalVtablePatch_def split: prod.splits)
  then show ?thesis
    using remove_checked_patch [OF p1(1) assms(2,3,4)] by (auto simp: RemoveVtablePatch_def split: prod.splits)
qed

section \<open>Concrete updates\<close>

text \<open>A stream at \<open>0x100\<close> whose buffer holds the marker and the loadout 1, and a ready shape at \<open>0x2000\<close>.\<close>

definition demo_stream :: mem where
  "demo_stream x = (if x = 0x111 then 0x10 else if x = 0x120 then 16 else if x = 0x1000 then 3 else if x = 0x2011 then 4 else 0)"

lemma demo_stream_fields:
  "(read_field demo_stream 0x100 kBufOff :: u64) = 0x1000" "(read_field demo_stream 0x100 kBitPosOff :: u64) = 0"
  "(read_field demo_stream 0x100 kCapBytesOff :: u64) = 16"
  by code_simp+

definition demo_server :: npcdec where
  "demo_server = \<lparr>g_loadouts = [0x500 \<mapsto> 1], g_aiNpcs = {}, npc_pack = (0, 0), animal_pack = (0, 0)\<rparr>"

lemma demo_flags:
  "OnAnimalPackUpdate True demo_server 0x500 0x900 = [True, True, False, False, False, False, False, False, False]"
  by code_simp

lemma demo_holds: "holds demo_stream 0x100 [True, True, False, False, False, False, False, False, False]"
proof -
  have "list_all (\<lambda>i. let a = 0x1000 + word_of_nat ((0 + i) div 8)
      in bit (demo_stream a) ((0 + i) mod 8) =
        [True, True, False, False, False, False, False, False, False] ! i \<and> 8 \<le> unat (a - (0x100 + kBitPosOff)))
    [0..<9]" by code_simp
  then have "\<forall>i<9. let a = 0x1000 + word_of_nat ((0 + i) div 8)
      in bit (demo_stream a) ((0 + i) mod 8) =
        [True, True, False, False, False, False, False, False, False] ! i \<and> 8 \<le> unat (a - (0x100 + kBitPosOff))"
    by (simp only: list_all_iff set_upt) simp
  then show ?thesis by (simp add: holds_def bit_pos_def demo_stream_fields)
qed

text \<open>An image whose two slots hold the expected functions.\<close>

definition demo_image :: mem where
  "demo_image = write_field (write_field (\<lambda>_. 0) (0x1000000 + NPCDEC_VTABLE + NPCDEC_PACKUPDATE_SLOT * 8) 0
       (0x1000000 + NPCDEC_PACKUPDATE_THUNK))
     (0x1000000 + ANIMAL_VTABLE + ANIMAL_PACKUPDATE_SLOT * 8) 0 (0x1000000 + ANIMAL_PACKUPDATE_FN)"

theorem animal_loadout_reaches_client_witness:
  "\<exists>calls m' applied'. OnAnimalUnpackUpdate id 0x2000 0x100 demo_stream Map.empty = (calls, m', applied') \<and>
     bit_pos m' 0x100 = 9"
proof -
  obtain calls m' a where r: "OnAnimalUnpackUpdate id 0x2000 0x100 demo_stream Map.empty = (calls, m', a)"
    by (metis prod_cases3)
  have "bit_pos m' 0x100 = bit_pos (id demo_stream) 0x100 + length [True, True, False, False, False, False, False, False, False]"
    using animal_loadout_reaches_client [OF _ demo_flags [symmetric] _ _ _ r] demo_holds by simp
  then show ?thesis using r by (simp add: bit_pos_def demo_stream_fields)
qed

theorem removed_patches_leave_no_trace_witness:
  "\<exists>m1 s1 m2 s2 m3 s3. InstallVtablePatch True 0x1000000 0x7777 demo_image demo_server = (m1, s1) \<and>
     InstallAnimalVtablePatch True 0x1000000 0x8888 m1 s1 = (m2, s2) \<and>
     RemoveAnimalVtablePatch True m2 s2 = (m3, s3) \<and> m3 = m1 \<and> fst (RemoveVtablePatch True m3 s3) = demo_image"
proof -
  obtain m1 s1 where i1: "InstallVtablePatch True 0x1000000 0x7777 demo_image demo_server = (m1, s1)" by fastforce
  obtain m2 s2 where i2: "InstallAnimalVtablePatch True 0x1000000 0x8888 m1 s1 = (m2, s2)" by fastforce
  obtain m3 s3 where r: "RemoveAnimalVtablePatch True m2 s2 = (m3, s3)" by fastforce
  have c: "snd (npc_pack demo_server) = 0" "snd (animal_pack demo_server) = 0"
    "(0x1000000 :: u64) + NPCDEC_PACKUPDATE_THUNK \<noteq> 0" "(0x1000000 :: u64) + NPCDEC_VTABLE + NPCDEC_PACKUPDATE_SLOT * 8 \<noteq> 0"
    "(0x1000000 :: u64) + ANIMAL_PACKUPDATE_FN \<noteq> 0" "(0x1000000 :: u64) + ANIMAL_VTABLE + ANIMAL_PACKUPDATE_SLOT * 8 \<noteq> 0"
    by (simp_all add: demo_server_def NPCDEC_PACKUPDATE_THUNK_def NPCDEC_VTABLE_def NPCDEC_PACKUPDATE_SLOT_def
        ANIMAL_PACKUPDATE_FN_def ANIMAL_VTABLE_def ANIMAL_PACKUPDATE_SLOT_def)
  show ?thesis
    using removed_patches_leave_no_trace [OF i1 c(1,3,4) i2 c(2,5,6) r] i1 i2 r by blast
qed

end
