(* ===== verification/Safe_Memory.thy ===== *)
theory Safe_Memory
  imports Code_Memory "HOL-Library.Monad_Syntax"
begin

text \<open>
  Guarded reads of the process memory: \<open>SafeReadable\<close>, \<open>SafeQword\<close> and \<open>SafeU32\<close> of
  \<open>source/server/api/lifx_hostile.cpp\<close>, which ask the operating system about every region of a range,
  and the shorter check of \<open>source/server/hooks/character/hook_animal_death.cpp\<close>. The answer of
  \<open>VirtualQuery\<close> is an argument: a region (its base, size, state and protection) or a failure. The loop
  over the regions is a partial function, so that not returning is the value \<open>None\<close>.
\<close>

section \<open>Regions\<close>

record region =
  BaseAddress :: u64
  RegionSize :: u64
  State :: u32
  Protect :: u32

type_synonym query = "u64 \<Rightarrow> region option"

definition MEM_COMMIT :: u32 where "MEM_COMMIT = 0x1000"
definition PAGE_NOACCESS :: u32 where "PAGE_NOACCESS = 0x01"
definition PAGE_GUARD :: u32 where "PAGE_GUARD = 0x100"

text \<open>Read-only, read-write, copy-on-write and the three executable kinds that can be read.\<close>

definition readable_kinds :: u32 where "readable_kinds = 0x02 OR 0x04 OR 0x20 OR 0x40 OR 0x08 OR 0x80"

definition region_readable :: "region \<Rightarrow> bool" where
  "region_readable r \<longleftrightarrow> State r = MEM_COMMIT \<and> Protect r AND readable_kinds \<noteq> 0 \<and>
     Protect r AND PAGE_NOACCESS = 0 \<and> Protect r AND PAGE_GUARD = 0"

partial_function (option) region_loop :: "query \<Rightarrow> u64 \<Rightarrow> u64 \<Rightarrow> bool option" where
  "region_loop q cur e =
     (if cur < e
      then case q cur of
             None \<Rightarrow> Some False
           | Some r \<Rightarrow> if region_readable r then region_loop q (BaseAddress r + RegionSize r) e else Some False
      else Some True)"

lemmas [code] = region_loop.simps

definition SafeReadable :: "query \<Rightarrow> u64 \<Rightarrow> u64 \<Rightarrow> bool option" where
  "SafeReadable q p len = (if p = 0 then Some False else region_loop q p (p + len))"

definition SafeQword :: "query \<Rightarrow> mem \<Rightarrow> u64 \<Rightarrow> u64 \<Rightarrow> u64 option option" where
  "SafeQword q m base off =
     do { ok \<leftarrow> SafeReadable q (base + off) 8;
          Some (if ok then Some (read_field m base off) else None) }"

text \<open>A read that leaves the variable at zero where the memory cannot be read.\<close>

definition qword0 :: "query \<Rightarrow> mem \<Rightarrow> u64 \<Rightarrow> u64 \<Rightarrow> u64 option" where
  "qword0 q m base off = map_option (\<lambda>v. case v of Some x \<Rightarrow> x | None \<Rightarrow> 0) (SafeQword q m base off)"

definition SafeU32 :: "query \<Rightarrow> mem \<Rightarrow> u64 \<Rightarrow> u64 \<Rightarrow> u32 option" where
  "SafeU32 q m base off =
     do { ok \<leftarrow> SafeReadable q (base + off) 4;
          Some (if ok then read_field m base off else 0) }"

definition InModule :: "u64 \<Rightarrow> u64 \<Rightarrow> bool" where
  "InModule base p \<longleftrightarrow> base \<le> p \<and> p < base + 0x01000000"

text \<open>The check of the death hook looks at the region of the first byte and at the wrap of the range.\<close>

definition SafeReadable_first :: "query \<Rightarrow> u64 \<Rightarrow> u64 \<Rightarrow> bool" where
  "SafeReadable_first q p len \<longleftrightarrow>
     p \<noteq> 0 \<and> (case q p of None \<Rightarrow> False | Some r \<Rightarrow> region_readable r \<and> p < p + len)"

section \<open>What the operating system documents\<close>

definition in_region :: "u64 \<Rightarrow> region \<Rightarrow> bool" where
  "in_region x r \<longleftrightarrow> BaseAddress r \<le> x \<and> unat x < unat (BaseAddress r) + unat (RegionSize r)"

text \<open>The region that is reported contains the address asked about, ends inside the address space, and
  all its pages have the same state and protection.\<close>

definition documented :: "query \<Rightarrow> bool" where
  "documented q \<longleftrightarrow>
     (\<forall>x r. q x = Some r \<longrightarrow> in_region x r \<and> unat (BaseAddress r) + unat (RegionSize r) < 2 ^ 64 \<and>
        (\<forall>y. in_region y r \<longrightarrow> (\<exists>r'. q y = Some r' \<and> State r' = State r \<and> Protect r' = Protect r)))"

definition readable_at :: "query \<Rightarrow> u64 \<Rightarrow> bool" where
  "readable_at q x \<longleftrightarrow> (case q x of None \<Rightarrow> False | Some r \<Rightarrow> region_readable r)"

lemma region_end:
  assumes "documented q" "q x = Some r"
  shows "x < BaseAddress r + RegionSize r"
    and "\<And>y. x \<le> y \<Longrightarrow> y < BaseAddress r + RegionSize r \<Longrightarrow> readable_at q y = region_readable r"
proof -
  have r: "in_region x r" "unat (BaseAddress r) + unat (RegionSize r) < 2 ^ 64"
    and same: "\<And>y. in_region y r \<Longrightarrow> \<exists>r'. q y = Some r' \<and> State r' = State r \<and> Protect r' = Protect r"
    using assms unfolding documented_def by blast+
  then have e: "unat (BaseAddress r + RegionSize r) = unat (BaseAddress r) + unat (RegionSize r)"
    by (simp add: unat_word_ariths)
  show "x < BaseAddress r + RegionSize r" using r(1) by (simp add: e in_region_def word_less_nat_alt)
  fix y assume y: "x \<le> y" "y < BaseAddress r + RegionSize r"
  then have "in_region y r" using r(1) by (auto simp: e in_region_def word_less_nat_alt)
  then show "readable_at q y = region_readable r"
    using same [of y] by (auto simp: readable_at_def region_readable_def)
qed

section \<open>The loop returns, and answers for every byte\<close>

lemma region_loop_answer:
  assumes "documented q"
  shows "region_loop q cur e = Some (\<forall>x. cur \<le> x \<and> x < e \<longrightarrow> readable_at q x)"
proof (induction "unat e - unat cur" arbitrary: cur rule: less_induct)
  case less
  show ?case
  proof (cases "cur < e")
    case False
    then have "\<forall>x. cur \<le> x \<and> x < e \<longrightarrow> readable_at q x" by (meson order.strict_trans1)
    then show ?thesis using False by (subst region_loop.simps) simp
  next
    case lt: True
    show ?thesis
    proof (cases "\<exists>r. q cur = Some r \<and> region_readable r")
      case False
      then have "\<not> readable_at q cur" by (auto simp: readable_at_def split: option.splits)
      then show ?thesis using lt False by (subst region_loop.simps) (auto split: option.splits)
    next
      case True
      then obtain r where r: "q cur = Some r" "region_readable r" by blast
      let ?n = "BaseAddress r + RegionSize r"
      note nx = region_end [OF assms r(1)]
      have "unat e - unat ?n < unat e - unat cur" using nx(1) lt by (simp add: word_less_nat_alt)
      then have "region_loop q ?n e = Some (\<forall>x. ?n \<le> x \<and> x < e \<longrightarrow> readable_at q x)" by (rule less)
      moreover have "(\<forall>x. ?n \<le> x \<and> x < e \<longrightarrow> readable_at q x) \<longleftrightarrow> (\<forall>x. cur \<le> x \<and> x < e \<longrightarrow> readable_at q x)"
      proof (intro iffI allI impI)
        fix x assume all: "\<forall>x. ?n \<le> x \<and> x < e \<longrightarrow> readable_at q x" and x: "cur \<le> x \<and> x < e"
        show "readable_at q x"
        proof (cases "x < ?n")
          case True
          then show ?thesis using nx(2) x r(2) by blast
        next
          case False
          then show ?thesis using all x not_less by blast
        qed
      next
        fix x assume all: "\<forall>x. cur \<le> x \<and> x < e \<longrightarrow> readable_at q x" and x: "?n \<le> x \<and> x < e"
        then have "cur \<le> x" using nx(1) by (meson less_imp_le order_trans)
        then show "readable_at q x" using all x by blast
      qed
      ultimately show ?thesis using lt r by (subst region_loop.simps) simp
    qed
  qed
qed

text \<open>C24: The guarded check always returns, however the regions are laid out, and for a range that does
  not wrap around the address space it answers whether every byte of the range lies in a committed,
  readable region.\<close>

theorem guarded_check_decides_range:
  assumes "documented q" and "p \<noteq> 0" and "unat p + unat len < 2 ^ 64"
  shows "SafeReadable q p len = Some (\<forall>i<unat len. readable_at q (p + word_of_nat i))"
proof -
  have l: "unat (p + len) = unat p + unat len" using assms(3) by (simp add: unat_word_ariths)
  have "(\<forall>x. p \<le> x \<and> x < p + len \<longrightarrow> readable_at q x) \<longleftrightarrow> (\<forall>i<unat len. readable_at q (p + word_of_nat i))"
  proof (intro iffI allI impI)
    fix i assume all: "\<forall>x. p \<le> x \<and> x < p + len \<longrightarrow> readable_at q x" and i: "i < unat len"
    have "unat (p + word_of_nat i) = unat p + i"
      using i assms(3) by (simp add: unat_word_ariths unat_of_nat)
    then show "readable_at q (p + word_of_nat i)" using all i l by (simp add: word_le_nat_alt word_less_nat_alt)
  next
    fix x assume all: "\<forall>i<unat len. readable_at q (p + word_of_nat i)" and x: "p \<le> x \<and> x < p + len"
    then have "unat (x - p) = unat x - unat p" "unat p \<le> unat x" "unat x < unat p + unat len"
      using l by (simp_all add: unat_sub word_less_nat_alt word_le_nat_alt)
    then have "unat (x - p) < unat len" by linarith
    then have "readable_at q (p + word_of_nat (unat (x - p)))" using all by blast
    then show "readable_at q x" by simp
  qed
  then show ?thesis using assms(2) by (simp add: SafeReadable_def region_loop_answer [OF assms(1)])
qed

text \<open>Two adjacent readable regions.\<close>

definition demo_query :: query where
  "demo_query x =
     (if 0x1000 \<le> x \<and> x < 0x2000 then Some \<lparr>BaseAddress = 0x1000, RegionSize = 0x1000, State = 0x1000, Protect = 2\<rparr>
      else if 0x2000 \<le> x \<and> x < 0x3000 then Some \<lparr>BaseAddress = 0x2000, RegionSize = 0x1000, State = 0x1000, Protect = 4\<rparr>
      else None)"

lemma demo_documented: "documented demo_query"
  by (auto simp: documented_def demo_query_def in_region_def word_le_nat_alt word_less_nat_alt split: if_splits)

theorem guarded_check_decides_range_witness:
  "SafeReadable demo_query 0x1FF0 0x20 = Some (\<forall>i<unat (0x20 :: u64). readable_at demo_query (0x1FF0 + word_of_nat i)) \<and>
   SafeReadable demo_query 0x2FF0 0x20 = Some (\<forall>i<unat (0x20 :: u64). readable_at demo_query (0x2FF0 + word_of_nat i))"
  using guarded_check_decides_range [OF demo_documented, of "0x1FF0" "0x20"]
    guarded_check_decides_range [OF demo_documented, of "0x2FF0" "0x20"] by simp

text \<open>A quadword whose range wraps around the address space is reported readable and read although the
  operating system knows nothing of the range, which the death hook's shorter check refuses.\<close>

theorem wrapping_range_passes_unchecked:
  assumes "base + off \<noteq> 0" and "base + off + 8 \<le> base + off"
  shows "SafeQword q m base off = Some (Some (read_field m base off)) \<and> \<not> SafeReadable_first q (base + off) 8"
proof -
  have "\<not> base + off < base + off + 8" using assms(2) by (simp only: not_less)
  then have "SafeReadable q (base + off) 8 = Some True"
    using assms(1) by (subst SafeReadable_def, subst region_loop.simps) simp
  moreover have "\<not> SafeReadable_first q (base + off) 8"
    using assms(2) by (auto simp: SafeReadable_first_def not_less split: option.splits)
  ultimately show ?thesis by (simp add: SafeQword_def)
qed

theorem wrapping_range_passes_unchecked_witness:
  "SafeQword (\<lambda>_. None) (\<lambda>_. 0) 0xFFFFFFFFFFFFFFF0 8 = Some (Some (read_field (\<lambda>_. 0) 0xFFFFFFFFFFFFFFF0 8))"
  using wrapping_range_passes_unchecked [of "0xFFFFFFFFFFFFFFF0" 8 "\<lambda>_. None" "\<lambda>_. 0"] by simp

end
