(* ===== verification/Char_Stats.thy ===== *)
theory Char_Stats
  imports Code_Memory Script_Args "HOL-Library.Signed_Division"
begin

text \<open>
  What the library knows of a character's hit points, \<open>furnace/engine_internals.h\<close>: the fields of the
  character-statistics object and of the character record, the numbers they are shown as, and the registry of
  statistics objects by character number that \<open>hook_vital_process_tick.cpp\<close> keeps. Hit points are stored
  multiplied by a million; a \<open>long long\<close> is a \<open>u64\<close> read with its sign, and its division truncates.
\<close>

section \<open>Fields\<close>

definition kHpScale :: int where "kHpScale = 1000000"
definition kCharStatsToPlayerDelta :: u64 where "kCharStatsToPlayerDelta = 0xAA8"
definition kCharIdOffOnCharStats :: u64 where "kCharIdOffOnCharStats = 0x109C"
definition kHardHpDamageOff :: u64 where "kHardHpDamageOff = 0x118"
definition kHardHpBonusOff :: u64 where "kHardHpBonusOff = 0x120"
definition kHardHpEffMaxOff :: u64 where "kHardHpEffMaxOff = 0x138"
definition kHardHpMaxFieldOff :: u64 where "kHardHpMaxFieldOff = 0x110"
definition kSoftHpDamageOff :: u64 where "kSoftHpDamageOff = 0x1F8"
definition kSoftHpBonusOff :: u64 where "kSoftHpBonusOff = 0x200"
definition kSoftHpEffMaxOff :: u64 where "kSoftHpEffMaxOff = 0x218"
definition kSoftHpMaxFieldOff :: u64 where "kSoftHpMaxFieldOff = 0x1F0"
definition CharInfo_HardHP :: u64 where "CharInfo_HardHP = 0x194"
definition CharInfo_SoftHP :: u64 where "CharInfo_SoftHP = 0x19C"

definition i64 :: "int \<Rightarrow> u64" where
  "i64 v = word_of_int v"

definition ReadI64At :: "mem \<Rightarrow> u64 \<Rightarrow> u64 \<Rightarrow> u64" where
  "ReadI64At m base off = read_field m base off"

definition HardHpRaw :: "mem \<Rightarrow> u64 \<Rightarrow> u64" where
  "HardHpRaw m cs = read_field m cs kHardHpDamageOff"

definition HardHpMaxRaw :: "mem \<Rightarrow> u64 \<Rightarrow> u64" where
  "HardHpMaxRaw m cs = read_field m cs kHardHpMaxFieldOff"

definition SoftHpRaw :: "mem \<Rightarrow> u64 \<Rightarrow> u64" where
  "SoftHpRaw m cs = read_field m cs kSoftHpDamageOff"

definition SoftHpMaxRaw :: "mem \<Rightarrow> u64 \<Rightarrow> u64" where
  "SoftHpMaxRaw m cs = read_field m cs kSoftHpMaxFieldOff"

definition max_display :: "u64 \<Rightarrow> int" where
  "max_display maxRaw = (if 0 < sint maxRaw then sint maxRaw sdiv kHpScale else 105)"

definition HardHpDisplay :: "mem \<Rightarrow> u64 \<Rightarrow> int" where
  "HardHpDisplay m cs =
     (let internal = sint (- HardHpRaw m cs) sdiv kHpScale;
          maxDisplay = max_display (HardHpMaxRaw m cs);
          hud = internal + 1
      in if maxDisplay < hud then maxDisplay else hud)"

definition SoftHpDisplay :: "mem \<Rightarrow> u64 \<Rightarrow> int" where
  "SoftHpDisplay m cs =
     (let internal = sint (- SoftHpRaw m cs) sdiv kHpScale;
          maxDisplay = max_display (SoftHpMaxRaw m cs)
      in if maxDisplay < internal then maxDisplay else internal)"

definition HardHpEffective :: "mem \<Rightarrow> u64 \<Rightarrow> u64" where
  "HardHpEffective m cs =
     ReadI64At m cs kHardHpEffMaxOff - ReadI64At m cs kHardHpDamageOff + ReadI64At m cs kHardHpBonusOff"

definition SoftHpEffective :: "mem \<Rightarrow> u64 \<Rightarrow> u64" where
  "SoftHpEffective m cs =
     ReadI64At m cs kSoftHpEffMaxOff - ReadI64At m cs kSoftHpDamageOff + ReadI64At m cs kSoftHpBonusOff"

section \<open>The registry\<close>

type_synonym stats_registry = "u32 \<Rightarrow> u64 option"

definition Internal_RegisterCharStats :: "mem \<Rightarrow> u64 \<Rightarrow> stats_registry \<Rightarrow> stats_registry" where
  "Internal_RegisterCharStats m charStats r =
     (let cid = (read_field m charStats kCharIdOffOnCharStats :: u32)
      in if cid = 0 \<or> 0x40000000 < cid then r else r(cid \<mapsto> charStats))"

definition LookupCharStats :: "stats_registry \<Rightarrow> u32 \<Rightarrow> u64" where
  "LookupCharStats r charID = (case r charID of None \<Rightarrow> 0 | Some cs \<Rightarrow> cs)"

definition ResolvePlayerCharId :: "mem \<Rightarrow> stats_registry \<Rightarrow> u64 \<Rightarrow> u32" where
  "ResolvePlayerCharId m r ctx =
     (if ctx = 0 then 0
      else let cid = (read_field m ctx kCharIdOffOnCharStats :: u32)
           in if cid = 0 \<or> 0x40000000 < cid then 0
              else if LookupCharStats r cid = ctx then cid else 0)"

text \<open>What is registered has a number in range, whatever is registered when.\<close>

definition registry_ok :: "stats_registry \<Rightarrow> bool" where
  "registry_ok r \<longleftrightarrow> (\<forall>cid cs. r cid = Some cs \<longrightarrow> cid \<noteq> 0 \<and> cid \<le> 0x40000000)"

lemma registry_ok_empty [simp]: "registry_ok Map.empty"
  by (simp add: registry_ok_def)

lemma registry_ok_register: "registry_ok r \<Longrightarrow> registry_ok (Internal_RegisterCharStats m cs r)"
  by (auto simp: registry_ok_def Internal_RegisterCharStats_def Let_def not_less split: if_splits)

lemma resolve_registered:
  assumes "cs \<noteq> 0" "cid = read_field m cs kCharIdOffOnCharStats" "cid \<noteq> 0" "cid \<le> 0x40000000"
  shows "ResolvePlayerCharId m (Internal_RegisterCharStats m cs r) cs = cid"
  using assms by (simp add: ResolvePlayerCharId_def Internal_RegisterCharStats_def LookupCharStats_def Let_def not_less [symmetric])

lemma resolve_nonzero:
  "ResolvePlayerCharId m r ctx = cid \<Longrightarrow> cid \<noteq> 0 \<Longrightarrow>
   ctx \<noteq> 0 \<and> read_field m ctx kCharIdOffOnCharStats = cid \<and> r cid = Some ctx"
  by (auto simp: ResolvePlayerCharId_def LookupCharStats_def Let_def split: if_splits option.splits)

section \<open>What is shown\<close>

lemma sdiv_scale: "(a * kHpScale) sdiv kHpScale = a"
  by (simp add: kHpScale_def signed_divide_int_def sgn_mult abs_mult mult_sgn_abs)

lemma sint_i64: "- (2 ^ 63) \<le> v \<Longrightarrow> v < 2 ^ 63 \<Longrightarrow> sint (i64 v) = v"
  by (simp add: i64_def sint_sbintrunc' signed_take_bit_int_eq_self)

lemma i64_minus: "- i64 v = i64 (- v)"
  by (simp add: i64_def)

lemma hard_display_of:
  assumes "HardHpRaw m cs = i64 (- ((n - 1) * kHpScale))" "0 \<le> n" "n \<le> 10 ^ 12"
  shows "HardHpDisplay m cs = min n (max_display (HardHpMaxRaw m cs))"
proof -
  have "sint (- HardHpRaw m cs) = (n - 1) * kHpScale"
    using assms(2,3) unfolding assms(1) i64_minus by (subst sint_i64) (auto simp: kHpScale_def)
  then show ?thesis by (simp add: HardHpDisplay_def sdiv_scale Let_def)
qed

lemma soft_display_of:
  assumes "SoftHpRaw m cs = i64 (- (n * kHpScale))" "- 1 \<le> n" "n \<le> 10 ^ 12"
  shows "SoftHpDisplay m cs = min n (max_display (SoftHpMaxRaw m cs))"
proof -
  have "sint (- SoftHpRaw m cs) = n * kHpScale"
    using assms(2,3) unfolding assms(1) i64_minus by (subst sint_i64) (auto simp: kHpScale_def)
  then show ?thesis by (simp add: SoftHpDisplay_def sdiv_scale Let_def)
qed

text \<open>The comment above \<open>HardHpDisplay\<close> gives the number shown as one more than the quotient rounded down; the
  division truncates, so that a character that has lost more than all of its hit points is shown one more.\<close>

definition hud_of_comment :: "mem \<Rightarrow> u64 \<Rightarrow> int" where
  "hud_of_comment m cs = min (sint (- HardHpRaw m cs) div kHpScale + 1) (max_display (HardHpMaxRaw m cs))"

text \<open>The number shown for hard hit points is the one the comment gives, except for a character whose damage
  exceeds its hit points by a part of a hit point: its number is one higher, as far as the maximum allows.\<close>

theorem overkill_is_shown_one_higher:
  "HardHpDisplay m cs =
     (let raw = sint (- HardHpRaw m cs); top = max_display (HardHpMaxRaw m cs)
      in if raw < 0 \<and> raw mod kHpScale \<noteq> 0 then min (raw div kHpScale + 2) top else hud_of_comment m cs)"
proof -
  have "raw sdiv kHpScale = (if raw < 0 \<and> raw mod kHpScale \<noteq> 0 then raw div kHpScale + 1 else raw div kHpScale)" for raw
  proof (cases "raw < 0")
    case True
    then have "raw sdiv kHpScale = - ((- raw) div kHpScale)"
      by (simp add: signed_divide_int_def kHpScale_def)
    moreover have "- ((- raw) div kHpScale) = (if raw mod kHpScale \<noteq> 0 then raw div kHpScale + 1 else raw div kHpScale)"
      unfolding kHpScale_def by (simp add: zdiv_zminus1_eq_if)
    ultimately show ?thesis using True by simp
  qed (simp add: signed_divide_int_def kHpScale_def sgn_if)
  from this [of "sint (- HardHpRaw m cs)"] show ?thesis
    by (simp add: HardHpDisplay_def hud_of_comment_def Let_def min_def)
qed

end
