(* ===== verification/Npc_Binding.thy ===== *)
theory Npc_Binding
  imports Safe_Memory Char_Stats Grave_Loot Equip_Sync Bandit_Combat
begin

text \<open>
  The identity of an NPC and what it leads to: an NPC or an animal is bound to a character by a copy of its
  function table in which the slot that answers the character number is replaced; a bound bandit wears
  and drops a kit, and its death is redirected from the carcass to the player's tombstone. Modelled are
  the binding part of \<open>source/server/api/lifx_hostile.cpp\<close>, \<open>hook_animal_create.cpp\<close> and
  \<open>hook_animal_death.cpp\<close> of \<open>source/server/hooks/character\<close>. The functions of the engine that change
  memory, the answers of the operating system and the address of the replaced slot's function are the
  fields of an environment; the engine calls that end a handler are values.
\<close>

section \<open>State\<close>

record npcs =
  npc_clone :: u64
  g_clonedAnimalCs :: u64
  g_clonedAnimalCsSrc :: u64
  g_ghostNpcs :: "u64 set"
  g_lastBandit :: u64
  tlInRedirect :: bool
  npc_dec :: npcdec
  npc_loot :: loot
  npc_anim :: anim

datatype npc_call =
    Create_Test_Character u32 u32
  | Create_Corpse u64
  | Death_Trigger u64 u64
  | Manager_Remove u64 u32

record npc_env =
  module_base :: u64
  regions :: query
  virtual_alloc :: u64
  id_reader :: u64
  test_character :: "u32 \<Rightarrow> u32 \<Rightarrow> mem \<Rightarrow> mem"
  scope_always :: "u64 \<Rightarrow> mem \<Rightarrow> mem"
  create_animal :: "u64 \<Rightarrow> u32 \<Rightarrow> mem \<Rightarrow> u64 \<times> mem"
  death_trigger :: "u64 \<Rightarrow> u64 \<Rightarrow> mem \<Rightarrow> npcs \<Rightarrow> npc_call list \<times> mem \<times> npcs"

section \<open>Layout\<close>

definition kNpcCharStatsVtableRva :: u64 where "kNpcCharStatsVtableRva = 0x7E4388"
definition kCharStatsVtableSlots :: u64 where "kCharStatsVtableSlots = 113"
definition kCharStatsVtableBytes :: u64 where "kCharStatsVtableBytes = kCharStatsVtableSlots * 8"
definition kCharIdGetterSlot :: u64 where "kCharIdGetterSlot = 0x08"
definition kCharIdFieldOff :: u64 where "kCharIdFieldOff = 0x109C"
definition kCharBackedFlagOff :: u64 where "kCharBackedFlagOff = 0x4A9"
definition kEquipCacheOff :: u64 where "kEquipCacheOff = 0x498"
definition kEquipCacheRefcOff :: u64 where "kEquipCacheRefcOff = 0x4A0"
definition CHARSTATS_DEATH_TRIGGER_SLOT :: u64 where "CHARSTATS_DEATH_TRIGGER_SLOT = 0x130"
definition ANIMALS_MANAGER_GLOBAL_RVA :: u64 where "ANIMALS_MANAGER_GLOBAL_RVA = 0xB80C90"
definition ANIMAL_MGR_ID_OFF :: u64 where "ANIMAL_MGR_ID_OFF = 0x2540"
definition kBanditTypeId :: u32 where "kBanditTypeId = 755"

definition ParseU32 :: "string list \<Rightarrow> nat \<Rightarrow> u32" where
  "ParseU32 argv index = (if length argv \<le> index then 0 else strtoul0 (argv ! index))"

section \<open>Binding\<close>

text \<open>The function behind the replaced slot.\<close>

definition NpcCharIdReader :: "mem \<Rightarrow> u64 \<Rightarrow> u32" where
  "NpcCharIdReader m charStats = read_field m charStats kCharIdFieldOff"

text \<open>A copy of a function table with the word in front of it, one slot replaced.\<close>

definition clone_vtable :: "npc_env \<Rightarrow> u64 \<Rightarrow> mem \<Rightarrow> u64 \<times> mem" where
  "clone_vtable env srcVt m =
     (let bytes = 8 + kCharStatsVtableBytes;
          m = mwrite m (virtual_alloc env) (mread m (srcVt - 8) (unat bytes));
          newVt = virtual_alloc env + 8
      in (newVt, write_field m newVt kCharIdGetterSlot (id_reader env)))"

definition ClonedCharStatsVtable :: "npc_env \<Rightarrow> mem \<Rightarrow> npcs \<Rightarrow> (u64 \<times> mem \<times> npcs) option" where
  "ClonedCharStatsVtable env m s =
     (if npc_clone s \<noteq> 0 then Some (npc_clone s, m, s)
      else let realVt = module_base env + kNpcCharStatsVtableRva
           in do { ok \<leftarrow> SafeReadable (regions env) (realVt - 8) (8 + kCharStatsVtableBytes);
                   Some (if \<not> ok \<or> virtual_alloc env = 0 then (0, m, s)
                         else case clone_vtable env realVt m of (vt, m) \<Rightarrow> (vt, m, s\<lparr>npc_clone := vt\<rparr>)) })"

definition ClonedAnimalCharStatsVtable :: "npc_env \<Rightarrow> u64 \<Rightarrow> mem \<Rightarrow> npcs \<Rightarrow> (u64 \<times> mem \<times> npcs) option" where
  "ClonedAnimalCharStatsVtable env srcVt m s =
     (if g_clonedAnimalCs s \<noteq> 0 \<and> g_clonedAnimalCsSrc s = srcVt then Some (g_clonedAnimalCs s, m, s)
      else do { ok \<leftarrow> SafeReadable (regions env) (srcVt - 8) (8 + kCharStatsVtableBytes);
                Some (if \<not> ok \<or> virtual_alloc env = 0 then (0, m, s)
                      else case clone_vtable env srcVt m of
                             (vt, m) \<Rightarrow> (vt, m, s\<lparr>g_clonedAnimalCs := vt, g_clonedAnimalCsSrc := srcVt\<rparr>)) })"

definition bind_writes :: "mem \<Rightarrow> u64 \<Rightarrow> u32 \<Rightarrow> u64 \<Rightarrow> mem" where
  "bind_writes m cs charId clone =
     (let m = write_field m cs kCharIdFieldOff charId;
          m = write_field m cs 0 clone;
          m = write_field m cs kCharBackedFlagOff (1 :: u8);
          m = write_field m cs kEquipCacheOff (0 :: u64)
      in write_field m cs kEquipCacheRefcOff (0 :: u64))"

text \<open>The method of an NPC; its arguments are its name, the object and the character number.\<close>

definition BindNpcCb :: "npc_env \<Rightarrow> u64 \<Rightarrow> string list \<Rightarrow> mem \<Rightarrow> npcs \<Rightarrow> (mem \<times> npcs) option" where
  "BindNpcCb env obj argv m s =
     (let charID = ParseU32 argv 2; cs = obj + kCharStatsToPlayerDelta
      in if obj = 0 \<or> charID = 0 then Some (m, s)
         else do {
           curVt \<leftarrow> SafeQword (regions env) m cs 0;
           (if (case curVt of Some v \<Rightarrow> v | None \<Rightarrow> 0) \<noteq> module_base env + kNpcCharStatsVtableRva then Some (m, s)
            else do {
              (clone, m, s) \<leftarrow> ClonedCharStatsVtable env m s;
              Some (if clone = 0 then (m, s) else (bind_writes m cs charID clone, s)) }) })"

definition kit_renderLoadout :: u8 where "kit_renderLoadout = 0"
definition kit_armorItems :: "u32 list" where "kit_armorItems = [547, 548, 549, 550, 551, 552]"

definition ApplyBanditKit :: "u64 \<Rightarrow> npcs \<Rightarrow> npcs" where
  "ApplyBanditKit animal s =
     s\<lparr>npc_dec := SetLoadout animal kit_renderLoadout (npc_dec s),
       npc_loot := fold (RecordMountedItem animal) kit_armorItems (npc_loot s)\<rparr>"

definition bandit_charId :: u32 where "bandit_charId = 0x30000001"
definition bandit_accountId :: u32 where "bandit_accountId = 0x30000000"

definition BindAnimalChar :: "npc_env \<Rightarrow> u64 \<Rightarrow> mem \<Rightarrow> npcs \<Rightarrow> (bool \<times> npc_call list \<times> mem \<times> npcs) option" where
  "BindAnimalChar env animal m s =
     (let cs = animal + kCharStatsToPlayerDelta
      in if animal = 0 then Some (False, [], m, s)
         else do {
           vt \<leftarrow> SafeQword (regions env) m cs 0;
           (case vt of
              None \<Rightarrow> Some (False, [], m, s)
            | Some curVt \<Rightarrow>
                if \<not> InModule (module_base env) curVt then Some (False, [], m, s)
                else if curVt = module_base env + kNpcCharStatsVtableRva then Some (False, [], m, s)
                else do {
                  (clone, m, s) \<leftarrow> ClonedAnimalCharStatsVtable env curVt
                    (test_character env bandit_accountId bandit_charId m) s;
                  Some (if clone = 0 then (False, [Create_Test_Character bandit_accountId bandit_charId], m, s)
                        else (True, [Create_Test_Character bandit_accountId bandit_charId],
                              bind_writes m cs bandit_charId clone, ApplyBanditKit animal s)) }) })"

definition OnCreateAnimal ::
  "npc_env \<Rightarrow> u64 \<Rightarrow> u32 \<Rightarrow> mem \<Rightarrow> npcs \<Rightarrow> (u64 \<times> npc_call list \<times> mem \<times> npcs) option" where
  "OnCreateAnimal env mgr typeId m s =
     (case create_animal env mgr typeId m of
        (animal, m) \<Rightarrow>
          if animal \<noteq> 0 \<and> typeId = kBanditTypeId
          then do {
            (_, calls, m, s) \<leftarrow> BindAnimalChar env animal m
              (s\<lparr>npc_anim := Register_hostile animal (npc_anim s), g_lastBandit := animal\<rparr>);
            Some (animal, calls, m, s) }
          else Some (animal, [], m, s))"

section \<open>Death\<close>

text \<open>Where a death goes: to the engine's carcass, nowhere, or to the trigger of the player's tombstone,
  with the state in which the engine is called.\<close>

datatype death_route = Carcass npcs | Suppressed | Tombstone u64 npcs

definition route :: "npc_env \<Rightarrow> u64 \<Rightarrow> mem \<Rightarrow> npcs \<Rightarrow> death_route" where
  "route env animal m s =
     (if animal = 0 \<or> \<not> IsHostile (npc_anim s) animal then Carcass s
      else if tlInRedirect s then Suppressed
      else
        let s = s\<lparr>npc_anim := Forget animal (npc_anim s)\<rparr>;
            q = regions env;
            cs = animal + kCharStatsToPlayerDelta;
            csVt = (read_field m cs 0 :: u64);
            fn = (read_field m csVt CHARSTATS_DEATH_TRIGGER_SLOT :: u64)
        in if \<not> SafeReadable_first q cs 8 then Carcass s
           else if \<not> SafeReadable_first q (cs + kCharBackedFlagOff) 1 \<or> (read_field m cs kCharBackedFlagOff :: u8) \<noteq> 1
           then Carcass s
           else if \<not> SafeReadable_first q csVt (CHARSTATS_DEATH_TRIGGER_SLOT + 8) then Carcass s
           else if \<not> InModule (module_base env) fn then Carcass s
           else
             let boundCharId = (if SafeReadable_first q (cs + kCharIdFieldOff) 4 then read_field m cs kCharIdFieldOff else 0);
                 s = (if boundCharId \<noteq> 0 then s\<lparr>npc_loot := ArmGraveFill boundCharId animal (npc_loot s)\<rparr> else s)
             in Tombstone fn (s\<lparr>tlInRedirect := True\<rparr>))"

definition OnCreateCorpse :: "npc_env \<Rightarrow> u64 \<Rightarrow> mem \<Rightarrow> npcs \<Rightarrow> npc_call list \<times> mem \<times> npcs" where
  "OnCreateCorpse env animal m s =
     (case route env animal m s of
        Carcass s \<Rightarrow> ([Create_Corpse animal], m, s)
      | Suppressed \<Rightarrow> ([], m, s)
      | Tombstone fn s \<Rightarrow>
          let cs = animal + kCharStatsToPlayerDelta
          in (case death_trigger env fn cs m s of
                (calls, m, s) \<Rightarrow>
                  let s = s\<lparr>tlInRedirect := False\<rparr>;
                      mgr = (read_field m (module_base env) ANIMALS_MANAGER_GLOBAL_RVA :: u64)
                  in (Death_Trigger fn cs # calls
                        @ (if mgr \<noteq> 0 then [Manager_Remove mgr (read_field m animal ANIMAL_MGR_ID_OFF)] else []), m, s)))"

section \<open>Ghosts\<close>

definition kNetFlagsOff :: u64 where "kNetFlagsOff = 0xDC"

definition IsLiveNpc :: "npc_env \<Rightarrow> mem \<Rightarrow> u64 \<Rightarrow> bool option" where
  "IsLiveNpc env m obj =
     (if obj = 0 then Some False
      else do { ok \<leftarrow> SafeReadable (regions env) obj 8;
                Some (ok \<and> read_field m obj 0 = module_base env + NPCDEC_VTABLE) })"

definition ScopeNpc :: "npc_env \<Rightarrow> u64 \<Rightarrow> mem \<Rightarrow> (bool \<times> mem) option" where
  "ScopeNpc env obj m =
     do { live \<leftarrow> IsLiveNpc env m obj;
          (if \<not> live then Some (False, m)
           else do {
             ok \<leftarrow> SafeReadable (regions env) (obj + kNetFlagsOff) 4;
             (if \<not> ok then Some (False, m)
              else
                let m = scope_always env obj m;
                    f = (read_field m obj kNetFlagsOff :: u32);
                    m = (if f AND 4 = 0
                         then scope_always env obj (write_field m obj kNetFlagsOff ((f OR 0x10) AND NOT 2)) else m)
                in Some ((read_field m obj kNetFlagsOff :: u32) AND 4 \<noteq> 0, m)) }) }"

definition GhostNpcCb :: "npc_env \<Rightarrow> u64 \<Rightarrow> mem \<Rightarrow> npcs \<Rightarrow> (mem \<times> npcs) option" where
  "GhostNpcCb env obj m s =
     (if obj = 0 then Some (m, s)
      else do { (ok, m) \<leftarrow> ScopeNpc env obj m;
                Some (m, if ok then s\<lparr>g_ghostNpcs := insert obj (g_ghostNpcs s), npc_dec := SetLoadout obj 0 (npc_dec s)\<rparr>
                         else s) })"

text \<open>The registry in the order in which the set is traversed.\<close>

fun rescope_loop :: "npc_env \<Rightarrow> u64 list \<Rightarrow> mem \<Rightarrow> npcs \<Rightarrow> (nat \<times> mem \<times> npcs) option" where
  "rescope_loop env [] m s = Some (0, m, s)"
| "rescope_loop env (o' # os) m s =
     do { live \<leftarrow> IsLiveNpc env m o';
          (if \<not> live then rescope_loop env os m (s\<lparr>g_ghostNpcs := g_ghostNpcs s - {o'}\<rparr>)
           else do { (ok, m) \<leftarrow> ScopeNpc env o' m;
                     (n, m, s) \<leftarrow> rescope_loop env os m s;
                     Some (of_bool ok + n, m, s) }) }"

definition ReScopeGhostNpcs :: "npc_env \<Rightarrow> u64 list \<Rightarrow> mem \<Rightarrow> npcs \<Rightarrow> (nat \<times> mem \<times> npcs) option" where
  "ReScopeGhostNpcs env order m s = (if g_ghostNpcs s = {} then Some (0, m, s) else rescope_loop env order m s)"

definition LoadoutNpcCb :: "u64 \<Rightarrow> string list \<Rightarrow> npcs \<Rightarrow> npcs" where
  "LoadoutNpcCb obj argv s =
     (if obj = 0 then s else s\<lparr>npc_dec := SetLoadout obj (ucast (ParseU32 argv 2)) (npc_dec s)\<rparr>)"

definition AiTickNpcCb :: "u64 \<Rightarrow> string list \<Rightarrow> npcs \<Rightarrow> npcs" where
  "AiTickNpcCb obj argv s =
     (if obj = 0 then s
      else s\<lparr>npc_dec := SetAiTick obj (length argv < 3 \<or> ParseU32 argv 2 \<noteq> 0) (npc_dec s)\<rparr>)"

end
