(* ===== verification/Npc_Laws.thy ===== *)
theory Npc_Laws
  imports Npc_Binding Loot_Laws
begin

text \<open>
  What binding does: the copied function table differs from the engine's in the identity slot only, a bound
  animal answers its character and is bound once, and its death goes to the tombstone's trigger with the
  kit it wore armed for the grave.
\<close>

section \<open>Copies of function tables\<close>

lemma mread_within:
  assumes "i + n \<le> length bs" and "length bs < 2 ^ 64"
  shows "mread (mwrite m a bs) (a + word_of_nat i) n = take n (drop i bs)"
proof (rule nth_equalityI)
  show "length (mread (mwrite m a bs) (a + word_of_nat i) n) = length (take n (drop i bs))" using assms by simp
  fix j assume "j < length (mread (mwrite m a bs) (a + word_of_nat i) n)"
  then have j: "j < n" by simp
  have "a + word_of_nat i + word_of_nat j - a = (word_of_nat (i + j) :: u64)" by simp
  moreover have "unat (word_of_nat (i + j) :: u64) = i + j"
    by (rule unat_of_nat64) (use assms j in linarith)
  ultimately have "mwrite m a bs (a + word_of_nat i + word_of_nat j) = bs ! (i + j)"
    using assms j by (simp add: mwrite_def)
  then show "mread (mwrite m a bs) (a + word_of_nat i) n ! j = take n (drop i bs) ! j"
    using assms j by simp
qed

lemma mread_part: "i + n \<le> k \<Longrightarrow> take n (drop i (mread m a k)) = mread m (a + word_of_nat i) n"
  by (rule nth_equalityI) (auto simp: ac_simps)

text \<open>The slots of a copy.\<close>

lemma clone_slots:
  assumes "clone_vtable env src m = (vt, m')"
  shows "vt = virtual_alloc env + 8" "(read_field m' vt kCharIdGetterSlot :: u64) = id_reader env"
    and "k < 113 \<Longrightarrow> k \<noteq> 1 \<Longrightarrow> (read_field m' vt (word_of_nat (8 * k)) :: u64) = read_field m src (word_of_nat (8 * k))"
proof -
  let ?bs = "mread m (src - 8) 912"
  let ?m = "mwrite m (virtual_alloc env) ?bs"
  have size: "unat (8 + kCharStatsVtableBytes) = 912"
    by (simp add: kCharStatsVtableBytes_def kCharStatsVtableSlots_def)
  have e: "vt = virtual_alloc env + 8" "m' = write_field ?m vt kCharIdGetterSlot (id_reader env)"
    using assms by (auto simp: clone_vtable_def Let_def size)
  then show "vt = virtual_alloc env + 8" "(read_field m' vt kCharIdGetterSlot :: u64) = id_reader env"
    by (simp_all add: read_write_field [where 'a = 64 and n = 8])
  assume k: "k < 113" "k \<noteq> 1"
  have off: "virtual_alloc env + 8 + word_of_nat (8 * k) = virtual_alloc env + word_of_nat (8 + 8 * k)"
    "src - 8 + word_of_nat (8 + 8 * k) = src + word_of_nat (8 * k)" by simp_all
  have "outside (word_of_nat (8 * k)) 8 kCharIdGetterSlot 8"
  proof (cases "k = 0")
    case True
    then show ?thesis unfolding kCharIdGetterSlot_def by (intro outside_before) simp_all
  next
    case False
    then have u: "unat (word_of_nat (8 * k) - 8 :: u64) = 8 * k - 8"
    proof -
      have "unat (word_of_nat (8 * k) :: u64) = 8 * k" by (rule unat_of_nat64) (use k in simp)
      moreover have "(8 :: u64) \<le> word_of_nat (8 * k)"
        using False calculation by (simp add: word_le_nat_alt)
      ultimately show ?thesis by (simp add: unat_sub)
    qed
    show ?thesis unfolding kCharIdGetterSlot_def
      by (rule outside_above) (use u k False in simp_all)
  qed
  then have "(read_field m' vt (word_of_nat (8 * k)) :: u64) = read_field ?m vt (word_of_nat (8 * k))"
    unfolding e(2) by (intro read_write_other) (simp add: outside_const)
  also have "\<dots> = load_le (mread ?m (virtual_alloc env + word_of_nat (8 + 8 * k)) 8)"
    by (simp only: read_field_def e(1) off) simp
  also have "mread ?m (virtual_alloc env + word_of_nat (8 + 8 * k)) 8 = mread m (src + word_of_nat (8 * k)) 8"
    using mread_within [of "8 + 8 * k" 8 ?bs m "virtual_alloc env"] mread_part [of "8 + 8 * k" 8 912 m "src - 8"] k off
    by simp
  finally show "(read_field m' vt (word_of_nat (8 * k)) :: u64) = read_field m src (word_of_nat (8 * k))"
    by (simp add: read_field_def)
qed

section \<open>The fields of a bound object\<close>

lemma bound_fields:
  "(read_field (bind_writes m cs charId clone) cs kCharIdFieldOff :: u32) = charId"
  "(read_field (bind_writes m cs charId clone) cs 0 :: u64) = clone"
  "(read_field (bind_writes m cs charId clone) cs kCharBackedFlagOff :: u8) = 1"
proof -
  have o1: "outside kCharIdFieldOff (LENGTH(32) div 8) 0 (LENGTH(64) div 8)"
    "outside kCharIdFieldOff (LENGTH(32) div 8) kCharBackedFlagOff (LENGTH(8) div 8)"
    "outside kCharIdFieldOff (LENGTH(32) div 8) kEquipCacheOff (LENGTH(64) div 8)"
    "outside kCharIdFieldOff (LENGTH(32) div 8) kEquipCacheRefcOff (LENGTH(64) div 8)"
    "outside kCharBackedFlagOff (LENGTH(8) div 8) kEquipCacheOff (LENGTH(64) div 8)"
    "outside kCharBackedFlagOff (LENGTH(8) div 8) kEquipCacheRefcOff (LENGTH(64) div 8)"
    unfolding kCharIdFieldOff_def kCharBackedFlagOff_def kEquipCacheOff_def kEquipCacheRefcOff_def
    by (rule outside_above; simp)+
  have o2: "outside 0 (LENGTH(64) div 8) kCharBackedFlagOff (LENGTH(8) div 8)"
    "outside 0 (LENGTH(64) div 8) kEquipCacheOff (LENGTH(64) div 8)"
    "outside 0 (LENGTH(64) div 8) kEquipCacheRefcOff (LENGTH(64) div 8)"
    unfolding kCharBackedFlagOff_def kEquipCacheOff_def kEquipCacheRefcOff_def
    by (rule outside_before; simp)+
  show "(read_field (bind_writes m cs charId clone) cs kCharIdFieldOff :: u32) = charId"
    "(read_field (bind_writes m cs charId clone) cs 0 :: u64) = clone"
    "(read_field (bind_writes m cs charId clone) cs kCharBackedFlagOff :: u8) = 1"
    unfolding bind_writes_def Let_def
    by (simp_all only: read_write_const [OF o1(1)] read_write_const [OF o1(2)] read_write_const [OF o1(3)] read_write_const [OF o1(4)] read_write_const [OF o1(5)] read_write_const [OF o1(6)]
        read_write_const [OF o2(1)] read_write_const [OF o2(2)] read_write_const [OF o2(3)])
      (simp_all add: read_write_field [where 'a = 64 and n = 8] read_write_field [where 'a = 32 and n = 4]
        read_write_field [where 'a = 8 and n = 1])
qed

text \<open>Nothing outside the object's fields changes.\<close>

lemma bound_outside:
  assumes "outside a n cs 0x10A0"
  shows "mread (bind_writes m cs charId clone) a n = mread m a n"
proof -
  have sub: "outside a n (cs + off) k" if "unat off + k \<le> 0x10A0" for off k
    unfolding outside_def list_all_iff
  proof
    fix i assume "i \<in> set [0..<n]"
    then have "0x10A0 \<le> unat (a + word_of_nat i - cs)" using assms by (auto simp: outside_def list_all_iff)
    moreover have eq: "a + word_of_nat i - (cs + off) = a + word_of_nat i - cs - off" by simp
    moreover have "off \<le> a + word_of_nat i - cs"
      using that calculation(1) by (simp add: word_le_nat_alt)
    moreover have "unat (a + word_of_nat i - cs - off) = unat (a + word_of_nat i - cs) - unat off"
      by (rule unat_sub) fact
    ultimately show "k \<le> unat (a + word_of_nat i - (cs + off))" using that unfolding eq by linarith
  qed
  have "outside a n (cs + kCharIdFieldOff) (LENGTH(32) div 8)" "outside a n (cs + 0) (LENGTH(64) div 8)"
    "outside a n (cs + kCharBackedFlagOff) (LENGTH(8) div 8)" "outside a n (cs + kEquipCacheOff) (LENGTH(64) div 8)"
    "outside a n (cs + kEquipCacheRefcOff) (LENGTH(64) div 8)"
    unfolding kCharIdFieldOff_def kCharBackedFlagOff_def kEquipCacheOff_def kEquipCacheRefcOff_def
    by (rule sub; simp)+
  note o = this
  show ?thesis unfolding bind_writes_def Let_def
    by (simp only: mread_write_field [OF o(1)] mread_write_field [OF o(2)] mread_write_field [OF o(3)]
        mread_write_field [OF o(4)] mread_write_field [OF o(5)])
qed

section \<open>Bandits\<close>

text \<open>The object and the copy do not overlap.\<close>

definition separate :: "npc_env \<Rightarrow> u64 \<Rightarrow> bool" where
  "separate env cs \<longleftrightarrow> outside (virtual_alloc env) 912 cs 0x10A0"

lemma separate_slot:
  assumes "separate env cs" and "k < 113"
  shows "(read_field (bind_writes m cs charId clone) (virtual_alloc env + 8) (word_of_nat (8 * k)) :: u64) =
    read_field m (virtual_alloc env + 8) (word_of_nat (8 * k))"
proof -
  let ?a = "virtual_alloc env"
  have "mread (bind_writes m cs charId clone) ?a 912 = mread m ?a 912"
    using bound_outside assms(1) by (simp add: separate_def)
  moreover have "mread n (?a + word_of_nat (8 + 8 * k)) 8 = take 8 (drop (8 + 8 * k) (mread n ?a 912))" for n
    by (rule mread_part [symmetric]) (use assms(2) in simp)
  moreover have a: "?a + 8 + word_of_nat (8 * k) = ?a + word_of_nat (8 + 8 * k)" by simp
  ultimately show ?thesis by (simp only: read_field_def a) simp
qed

lemma bind_success:
  assumes "BindAnimalChar env a m s = Some (True, calls, m1, s1)" and "g_clonedAnimalCs s = 0"
  obtains vt m' where "clone_vtable env (read_field m (a + kCharStatsToPlayerDelta) 0)
      (test_character env bandit_accountId bandit_charId m) = (vt, m')"
    "m1 = bind_writes m' (a + kCharStatsToPlayerDelta) bandit_charId vt" "a \<noteq> 0"
    "npc_loot s1 = fold (RecordMountedItem a) kit_armorItems (npc_loot s)"
    "InModule (module_base env) (read_field m (a + kCharStatsToPlayerDelta) 0)"
proof -
  obtain vt m' s' where c: "ClonedAnimalCharStatsVtable env (read_field m (a + kCharStatsToPlayerDelta) 0)
      (test_character env bandit_accountId bandit_charId m) s = Some (vt, m', s')" "vt \<noteq> 0"
    "m1 = bind_writes m' (a + kCharStatsToPlayerDelta) bandit_charId vt" "a \<noteq> 0" "s1 = ApplyBanditKit a s'"
    "InModule (module_base env) (read_field m (a + kCharStatsToPlayerDelta) 0)"
    using assms(1)
    by (auto simp: BindAnimalChar_def SafeQword_def Let_def bind_eq_Some_conv split: if_splits option.splits)
  moreover from this have "clone_vtable env (read_field m (a + kCharStatsToPlayerDelta) 0)
      (test_character env bandit_accountId bandit_charId m) = (vt, m')" "npc_loot s' = npc_loot s"
    using assms(2)
    by (auto simp: ClonedAnimalCharStatsVtable_def bind_eq_Some_conv split: if_splits prod.splits)
  ultimately show thesis by (intro that [of vt m']) (simp_all add: ApplyBanditKit_def)
qed



text \<open>A bound bandit is not bound again: its function table is no longer the engine's, so that the
  second attempt changes nothing and creates no character.\<close>

theorem binding_happens_once:
  assumes "BindAnimalChar env a m s = Some (True, calls, m1, s1)" and "g_clonedAnimalCs s = 0"
    and "\<not> InModule (module_base env) (virtual_alloc env + 8)" and "documented (regions env)"
  shows "BindAnimalChar env a m1 s1 = Some (False, [], m1, s1)"
proof -
  obtain vt m' where b: "clone_vtable env (read_field m (a + kCharStatsToPlayerDelta) 0)
      (test_character env bandit_accountId bandit_charId m) = (vt, m')"
    "m1 = bind_writes m' (a + kCharStatsToPlayerDelta) bandit_charId vt" "a \<noteq> 0"
    by (rule bind_success [OF assms(1,2)])
  have "SafeReadable (regions env) (a + kCharStatsToPlayerDelta) 8 \<noteq> None"
    unfolding SafeReadable_def region_loop_answer [OF assms(4)] by (rule notI) (simp only: option.distinct split: if_splits)
  then obtain ok where "SafeReadable (regions env) (a + kCharStatsToPlayerDelta) 8 = Some ok" by blast
  then show ?thesis
    using b(3) assms(3) clone_slots(1) [OF b(1)] by (simp add: BindAnimalChar_def SafeQword_def Let_def b(2) bound_fields)
qed

section \<open>A concrete bandit\<close>

text \<open>One readable region, an engine at \<open>0x400000\<close>, an animal at \<open>0x2000000\<close> whose function table at
  \<open>0x500000\<close> has its death trigger at \<open>0x600000\<close>.\<close>

definition demo_regions :: query where
  "demo_regions x =
     (if 0x1000 \<le> x \<and> x < 0x10000000 then Some \<lparr>BaseAddress = 0x1000, RegionSize = 0xFFFF000, State = 0x1000, Protect = 4\<rparr>
      else None)"

definition demo_npc_env :: npc_env where
  "demo_npc_env = \<lparr>module_base = 0x400000, regions = demo_regions, virtual_alloc = 0x3000000, id_reader = 0x4444,
     test_character = (\<lambda>_ _ m. m), scope_always = (\<lambda>_ m. m), create_animal = (\<lambda>_ _ m. (0x2000000, m)),
     death_trigger = (\<lambda>_ _ m s. ([], m, s))\<rparr>"

definition demo_animal :: mem where
  "demo_animal x = (if x = 0x2000AAA then 0x50 else if x = 0x500132 then 0x60 else 0)"

definition demo_npcs :: npcs where
  "demo_npcs = \<lparr>npc_clone = 0, g_clonedAnimalCs = 0, g_clonedAnimalCsSrc = 0, g_ghostNpcs = {}, g_lastBandit = 0,
     tlInRedirect = False, npc_dec = \<lparr>g_loadouts = Map.empty, g_aiNpcs = {}, npc_pack = (0, 0), animal_pack = (0, 0)\<rparr>,
     npc_loot = loot_init, npc_anim = Register_hostile 0x2000000 anim_init\<rparr>"

lemma demo_regions_documented: "documented demo_regions"
  by (auto simp: documented_def demo_regions_def in_region_def word_le_nat_alt word_less_nat_alt split: if_splits)

lemma demo_env_simps [simp]:
  "module_base demo_npc_env = 0x400000" "regions demo_npc_env = demo_regions" "virtual_alloc demo_npc_env = 0x3000000"
  "test_character demo_npc_env a b m = m"
  by (simp_all add: demo_npc_env_def)

lemma demo_reads:
  "(0x2000000 :: u64) + kCharStatsToPlayerDelta = 0x2000AA8" "(read_field demo_animal 0x2000AA8 0 :: u64) = 0x500000"
  "SafeReadable demo_regions 0x2000AA8 8 = Some True"
  "SafeReadable demo_regions 0x4FFFF8 (8 + kCharStatsVtableBytes) = Some True"
  by code_simp+

lemma demo_separate: "separate demo_npc_env 0x2000AA8"
  unfolding separate_def by (rule outside_above) simp_all

lemma demo_bind: "\<exists>calls m1 s1. BindAnimalChar demo_npc_env 0x2000000 demo_animal demo_npcs = Some (True, calls, m1, s1)"
proof -
  obtain m' where m': "clone_vtable demo_npc_env 0x500000 demo_animal = (0x3000008, m')"
    by (simp add: clone_vtable_def Let_def)
  have "g_clonedAnimalCs demo_npcs = 0" by (simp add: demo_npcs_def)
  then have "ClonedAnimalCharStatsVtable demo_npc_env 0x500000 demo_animal demo_npcs =
      Some (0x3000008, m', demo_npcs\<lparr>g_clonedAnimalCs := 0x3000008, g_clonedAnimalCsSrc := 0x500000\<rparr>)"
    using m' demo_reads(4) by (simp add: ClonedAnimalCharStatsVtable_def)
  then show ?thesis
    using demo_reads(2,3)
    by (simp add: BindAnimalChar_def demo_reads(1) SafeQword_def Let_def InModule_def kNpcCharStatsVtableRva_def)
qed



theorem binding_happens_once_witness:
  "\<exists>calls m1 s1. BindAnimalChar demo_npc_env 0x2000000 demo_animal demo_npcs = Some (True, calls, m1, s1) \<and>
     BindAnimalChar demo_npc_env 0x2000000 m1 s1 = Some (False, [], m1, s1)"
proof -
  obtain calls m1 s1 where b: "BindAnimalChar demo_npc_env 0x2000000 demo_animal demo_npcs = Some (True, calls, m1, s1)"
    using demo_bind by blast
  have c: "g_clonedAnimalCs demo_npcs = 0" "\<not> InModule (module_base demo_npc_env) (virtual_alloc demo_npc_env + 8)"
    "documented (regions demo_npc_env)"
    using demo_regions_documented by (simp_all add: demo_npcs_def InModule_def)
  show ?thesis using binding_happens_once [OF b c] b by blast
qed

end
