(* ===== verification/Float_Text.thy ===== *)
theory Float_Text
  imports Binary32 Script_Args
begin

text \<open>
  Numbers written in text: \<open>std::strtod\<close> as the behaviour nodes use it, its conversion to \<open>float\<close>, and the
  square root of a \<open>float\<close>. A finite double is the integer \<open>k\<close> with the value \<open>k * 2 ^ -1074\<close>; rounding is
  to nearest, ties to even. Decimal and hexadecimal numbers, infinities and not-a-number are read as the
  C library documents; the parenthesised payload of a not-a-number is not.
\<close>

section \<open>Doubles\<close>

datatype f64 = DFin int | DPInf | DNInf | DNaN

definition f64_unit :: int where "f64_unit = 2 ^ 1074"
definition f64_limit :: int where "f64_limit = 2 ^ 2098"

definition dround :: "int \<Rightarrow> int \<Rightarrow> int" where
  "dround a b = (let s = blen (\<bar>a\<bar> div b) - 53 in rne a (b * 2 ^ s) * 2 ^ s)"

definition mk_f64 :: "int \<Rightarrow> f64" where
  "mk_f64 k = (if f64_limit \<le> k then DPInf else if k \<le> - f64_limit then DNInf else DFin k)"

text \<open>The conversion to \<open>float\<close>.\<close>

fun f32_of_f64 :: "f64 \<Rightarrow> f32" where
  "f32_of_f64 (DFin k) = mk_f32 (fround k (2 ^ 925))"
| "f32_of_f64 DPInf = PInf"
| "f32_of_f64 DNInf = NInf"
| "f32_of_f64 DNaN = NaN"

fun dpositive :: "f64 \<Rightarrow> bool" where
  "dpositive (DFin k) = (0 < k)"
| "dpositive DPInf = True"
| "dpositive _ = False"

section \<open>Reading\<close>

definition digits_value :: "nat \<Rightarrow> string \<Rightarrow> int" where
  "digits_value base ds = foldl (\<lambda>a c. a * int base + int (digit_in_base c)) 0 ds"

text \<open>Digits, a point and digits: the value without the point, the number of digits behind it, the rest.\<close>

definition mantissa :: "nat \<Rightarrow> string \<Rightarrow> (int \<times> nat \<times> string) option" where
  "mantissa base s =
     (let ds = takeWhile (\<lambda>c. digit_in_base c < base) s; r = dropWhile (\<lambda>c. digit_in_base c < base) s;
          (fs, r) = (case r of c # r' \<Rightarrow> if c = CHR ''.''
                       then (takeWhile (\<lambda>c. digit_in_base c < base) r', dropWhile (\<lambda>c. digit_in_base c < base) r')
                       else ([], r) | [] \<Rightarrow> ([], r))
      in if ds = [] \<and> fs = [] then None else Some (digits_value base (ds @ fs), length fs, r))"

text \<open>An exponent with its letter, or none.\<close>

definition exponent :: "char set \<Rightarrow> string \<Rightarrow> int \<times> string" where
  "exponent letters s =
     (case s of [] \<Rightarrow> (0, s)
      | c # r \<Rightarrow>
          if c \<in> letters
          then let (neg, r) = strtoul_sign r; ds = takeWhile is_digit r
               in if ds = [] then (0, s)
                  else ((if neg then - digits_value 10 ds else digits_value 10 ds), dropWhile is_digit r)
          else (0, s))"

text \<open>The double nearest to \<open>n * b ^ e\<close>.\<close>

definition scaled :: "int \<Rightarrow> int \<Rightarrow> int \<Rightarrow> f64" where
  "scaled n b e =
     mk_f64 (if 0 \<le> e then dround (n * b ^ nat e * f64_unit) 1 else dround (n * f64_unit) (b ^ nat (- e)))"

definition dneg :: "bool \<Rightarrow> f64 \<Rightarrow> f64" where
  "dneg neg x = (if \<not> neg then x else case x of DFin k \<Rightarrow> DFin (- k) | DPInf \<Rightarrow> DNInf | DNInf \<Rightarrow> DPInf | DNaN \<Rightarrow> DNaN)"

definition lower :: "char \<Rightarrow> char" where
  "lower c = (let n = (of_char c :: nat) in if 65 \<le> n \<and> n \<le> 90 then char_of (n + 32) else c)"

definition word_prefix :: "string \<Rightarrow> string \<Rightarrow> bool" where
  "word_prefix w s \<longleftrightarrow> map lower (take (length w) s) = w"

definition strtod :: "string \<Rightarrow> f64 \<times> string" where
  "strtod s =
     (let (neg, t) = strtoul_sign (dropWhile c_space s)
      in if word_prefix ''infinity'' t then (dneg neg DPInf, drop 8 t)
         else if word_prefix ''inf'' t then (dneg neg DPInf, drop 3 t)
         else if word_prefix ''nan'' t then (DNaN, drop 3 t)
         else
           case (if word_prefix ''0x'' t then mantissa 16 (drop 2 t) else None) of
             Some (n, k, r) \<Rightarrow>
               (case exponent {CHR ''p'', CHR ''P''} r of (e, r) \<Rightarrow> (dneg neg (scaled n 2 (e - 4 * int k)), r))
           | None \<Rightarrow>
               (case mantissa 10 t of
                  Some (n, k, r) \<Rightarrow>
                    (case exponent {CHR ''e'', CHR ''E''} r of (e, r) \<Rightarrow> (dneg neg (scaled n 10 (e - int k)), r))
                | None \<Rightarrow> (DFin 0, s)))"

text \<open>What a loader keeps of a number.\<close>

definition strtof :: "string \<Rightarrow> f32 \<times> string" where
  "strtof s = (case strtod s of (d, r) \<Rightarrow> (f32_of_f64 d, r))"

text \<open>\<open>strtol\<close> with base 10, and what it leaves.\<close>

definition strtol10 :: "string \<Rightarrow> int \<times> string" where
  "strtol10 s =
     (let (neg, t) = strtoul_sign (dropWhile c_space s); ds = takeWhile is_digit t; v = digits_value 10 ds
      in if ds = [] then (0, s)
         else (if neg then max (- 0x80000000) (- v) else min 0x7FFFFFFF v, dropWhile is_digit t))"

section \<open>Square root\<close>

text \<open>The integer square root, bit by bit.\<close>

fun isqrt_bits :: "nat \<Rightarrow> int \<Rightarrow> int \<Rightarrow> int" where
  "isqrt_bits 0 n r = r"
| "isqrt_bits (Suc k) n r =
     (let r' = r + 2 ^ k in isqrt_bits k n (if r' * r' \<le> n then r' else r))"

definition isqrt :: "int \<Rightarrow> int" where
  "isqrt n = isqrt_bits (Suc (blen n div 2)) n 0"

lemma isqrt_bits_bounds:
  "0 \<le> r \<Longrightarrow> r * r \<le> n \<Longrightarrow> n < (r + 2 ^ k) * (r + 2 ^ k) \<Longrightarrow>
   (let q = isqrt_bits k n r in 0 \<le> q \<and> q * q \<le> n \<and> n < (q + 1) * (q + 1))"
proof (induction k arbitrary: r)
  case (Suc k)
  have pos: "(0 :: int) < 2 ^ k" by simp
  show ?case
  proof (cases "(r + 2 ^ k) * (r + 2 ^ k) \<le> n")
    case True
    have e: "r + 2 ^ k + 2 ^ k = r + 2 ^ Suc k" by simp
    have eq: "isqrt_bits (Suc k) n r = isqrt_bits k n (r + 2 ^ k)" using True by (simp only: isqrt_bits.simps Let_def if_True)
    have "0 \<le> r + 2 ^ k" using Suc.prems(1) pos by linarith
    then show ?thesis unfolding eq by (rule Suc.IH [OF _ True]) (simp only: e Suc.prems(3))
  next
    case False
    have eq: "isqrt_bits (Suc k) n r = isqrt_bits k n r" using False by (simp only: isqrt_bits.simps Let_def if_False)
    have "n < (r + 2 ^ k) * (r + 2 ^ k)" using False by linarith
    then show ?thesis unfolding eq by (rule Suc.IH [OF Suc.prems(1,2)])
  qed
qed simp

lemma isqrt_bounds: "0 \<le> n \<Longrightarrow> isqrt n * isqrt n \<le> n \<and> n < (isqrt n + 1) * (isqrt n + 1)"
proof -
  assume n: "0 \<le> n"
  have "n < 2 ^ blen n" by (rule blen_upper)
  also have "(2 :: int) ^ blen n \<le> 2 ^ (2 * Suc (blen n div 2))" by (rule power_increasing) simp_all
  also have "(2 :: int) ^ (2 * Suc (blen n div 2)) = 2 ^ Suc (blen n div 2) * 2 ^ Suc (blen n div 2)"
    by (simp only: mult_2 power_add)
  finally show ?thesis
    using isqrt_bits_bounds [of 0 n "Suc (blen n div 2)"] n by (simp add: isqrt_def Let_def)
qed

text \<open>The root of \<open>k * 2 ^ -149\<close> is the root of \<open>k * 2 ^ 149\<close>, in multiples of \<open>2 ^ -149\<close>.\<close>

fun fsqrt :: "f32 \<Rightarrow> f32" where
  "fsqrt (Fin k) =
     (if k < 0 then NaN
      else
        let n = k * f32_unit; s = blen (isqrt n) - 24; q = isqrt (n div 4 ^ s);
            mid = (2 * q + 1) * (2 * q + 1) * 4 ^ s
        in Fin ((if mid < 4 * n \<or> mid = 4 * n \<and> odd q then q + 1 else q) * 2 ^ s))"
| "fsqrt PInf = PInf"
| "fsqrt _ = NaN"

end
