(* ===== verification/Ai_Nodes.thy ===== *)
theory Ai_Nodes
  imports Code_Memory Float_Text
begin

text \<open>
  The behaviour-tree nodes added to the engine, \<open>source/server/hooks/ai/hook_behavior_node.cpp\<close>: each node
  class has a loader, which reads its parameters from the \<open>value\<close> attribute, a clone and a process function.
  A node and the objects of the world are memory; what the file keeps per NPC is a record in a map from
  object numbers. The engine's lookups, its movement poll and its radius search are an environment, the
  orders given to the engine are the calls a function returns, and the steady clock is an argument in
  nanoseconds. An attribute that is absent is \<open>None\<close>.
\<close>

section \<open>State and environment\<close>

record npc_ai =
  targetId :: u32
  targetPtr :: u64
  homeSet :: bool
  homeX :: f32
  homeY :: f32
  homeZ :: f32
  cooldowns :: "u32 \<rightharpoonup> int"

definition fresh_ai :: npc_ai where
  "fresh_ai = \<lparr>targetId = 0, targetPtr = 0, homeSet = False, homeX = Fin 0, homeY = Fin 0, homeZ = Fin 0,
     cooldowns = Map.empty\<rparr>"

type_synonym npc_states = "u32 \<rightharpoonup> npc_ai"

definition ai_of :: "npc_states \<Rightarrow> u32 \<Rightarrow> npc_ai" where
  "ai_of st i = (case st i of Some a \<Rightarrow> a | None \<Rightarrow> fresh_ai)"

datatype ai_call =
    Set_Target u64 f32 f32 f32
  | Stop_Move u64
  | Use_Ability u64 int
  | Set_Transform u64 "f32 list"
  | Set_MaskBits u64 u32

record ai_env =
  find_animal :: "u64 \<Rightarrow> u64"
  find_npcbase :: "u64 \<Rightarrow> u64"
  move_engine :: "u64 \<Rightarrow> u64"
  poll :: "u64 \<Rightarrow> int"
  radius_search :: "mem \<Rightarrow> f32 \<times> f32 \<times> f32 \<Rightarrow> f32 \<Rightarrow> u64 list"

definition kSuccess :: int where "kSuccess = 1"
definition kFailure :: int where "kFailure = 2"
definition kRunning :: int where "kRunning = 3"

definition kParamOff :: u64 where "kParamOff = 0x40"
definition kDestX :: u64 where "kDestX = 0x40"
definition kDestY :: u64 where "kDestY = 0x44"
definition kDestZ :: u64 where "kDestZ = 0x48"
definition kMovingFlag :: u64 where "kMovingFlag = 0x4c"
definition kPosX :: u64 where "kPosX = 0x284"
definition kPosY :: u64 where "kPosY = 0x294"
definition kPosZ :: u64 where "kPosZ = 0x2A4"
definition kSimIdOff :: u64 where "kSimIdOff = 0x90"
definition kTransformOff :: u64 where "kTransformOff = 0x278"
definition kCharStatsOff :: u64 where "kCharStatsOff = 0xAA8"

definition read_f32 :: "mem \<Rightarrow> u64 \<Rightarrow> u64 \<Rightarrow> f32" where
  "read_f32 m obj off = f32_of_bits (read_field m obj off)"

definition write_f32 :: "mem \<Rightarrow> u64 \<Rightarrow> u64 \<Rightarrow> f32 \<Rightarrow> mem" where
  "write_f32 m obj off x = write_field m obj off (f32_bits x)"

definition moving :: "mem \<Rightarrow> u64 \<Rightarrow> bool" where
  "moving m self \<longleftrightarrow> (read_field m self kMovingFlag :: u8) \<noteq> 0"

definition set_moving :: "mem \<Rightarrow> u64 \<Rightarrow> bool \<Rightarrow> mem" where
  "set_moving m self b = write_field m self kMovingFlag (of_bool b :: u8)"

definition set_dest :: "mem \<Rightarrow> u64 \<Rightarrow> f32 \<times> f32 \<times> f32 \<Rightarrow> mem" where
  "set_dest m self p = (case p of (x, y, z) \<Rightarrow>
     write_f32 (write_f32 (write_f32 m self kDestX x) self kDestY y) self kDestZ z)"

definition dest_of :: "mem \<Rightarrow> u64 \<Rightarrow> f32 \<times> f32 \<times> f32" where
  "dest_of m self = (read_f32 m self kDestX, read_f32 m self kDestY, read_f32 m self kDestZ)"

text \<open>The order to move: the engine is given the address of the node's destination.\<close>

definition go_there :: "mem \<Rightarrow> u64 \<Rightarrow> u64 \<Rightarrow> ai_call" where
  "go_there m self engine = (case dest_of m self of (x, y, z) \<Rightarrow> Set_Target engine x y z)"

section \<open>Objects\<close>

definition ObjPos :: "mem \<Rightarrow> u64 \<Rightarrow> f32 \<times> f32 \<times> f32" where
  "ObjPos m obj = (read_f32 m obj kPosX, read_f32 m obj kPosY, read_f32 m obj kPosZ)"

definition ObjId :: "mem \<Rightarrow> u64 \<Rightarrow> u32" where
  "ObjId m obj = read_field m obj kSimIdOff"

definition Dist2 :: "f32 \<times> f32 \<times> f32 \<Rightarrow> f32 \<times> f32 \<times> f32 \<Rightarrow> f32" where
  "Dist2 a b = (case a of (ax, ay, az) \<Rightarrow> (case b of (bx, by', bz) \<Rightarrow>
     let dx = fsub ax bx; dy = fsub ay by'; dz = fsub az bz
     in fadd (fadd (fmul dx dx) (fmul dy dy)) (fmul dz dz)))"

definition BbResolveCreature :: "ai_env \<Rightarrow> mem \<Rightarrow> u64 \<Rightarrow> u64" where
  "BbResolveCreature env m self =
     (let aidata = (read_field m self 0x28 :: u64);
          boxed = (\<lambda>handle. if handle = 0 then 0 else (read_field m handle 0 :: u64))
      in if aidata = 0 then 0
         else if boxed (find_animal env aidata) \<noteq> 0 then read_field m (boxed (find_animal env aidata)) 0
         else if boxed (find_npcbase env aidata) \<noteq> 0 then read_field m (boxed (find_npcbase env aidata)) 0
         else 0)"

definition FLT_MAX :: f32 where "FLT_MAX = Fin ((2 ^ 24 - 1) * 2 ^ 253)"

fun nearest_loop :: "mem \<Rightarrow> u64 \<Rightarrow> f32 \<times> f32 \<times> f32 \<Rightarrow> u64 list \<Rightarrow> u64 \<Rightarrow> f32 \<Rightarrow> u64" where
  "nearest_loop m creature here [] best bestD2 = best"
| "nearest_loop m creature here (obj # objs) best bestD2 =
     (if obj = creature then nearest_loop m creature here objs best bestD2
      else let d2 = Dist2 here (ObjPos m obj)
           in if fless d2 bestD2 then nearest_loop m creature here objs obj d2
              else nearest_loop m creature here objs best bestD2)"

definition ScanNearestPlayer :: "ai_env \<Rightarrow> mem \<Rightarrow> u64 \<Rightarrow> f32 \<Rightarrow> u64" where
  "ScanNearestPlayer env m creature radius =
     (let here = ObjPos m creature
      in nearest_loop m creature here (takeWhile (\<lambda>x. x \<noteq> 0) (radius_search env m here radius)) 0 FLT_MAX)"

definition Fnv1a :: "string \<Rightarrow> u32" where
  "Fnv1a s = foldl (\<lambda>h c. (h XOR of_char c) * 16777619) 2166136261 s"

section \<open>Time of day\<close>

definition kMicrosPerHour :: int where "kMicrosPerHour = 3600000000"
definition kGameTimeWorldPtrRva :: u64 where "kGameTimeWorldPtrRva = 0xB7E4C0"
definition kGameTimeFieldOff :: u64 where "kGameTimeFieldOff = 0x10"

text \<open>Division and remainder truncate towards zero.\<close>

definition CurrentHourOfDay :: "u64 \<Rightarrow> mem \<Rightarrow> int" where
  "CurrentHourOfDay base m =
     (let obj = (read_field m base kGameTimeWorldPtrRva :: u64)
      in if obj = 0 then -1
         else let t = sint (read_field m obj kGameTimeFieldOff :: u64);
                  h = sgn t * ((\<bar>t\<bar> div kMicrosPerHour) mod 24)
              in if h < 0 then h + 24 else h)"

definition TodLoad :: "string option \<Rightarrow> u64 \<Rightarrow> mem \<Rightarrow> mem" where
  "TodLoad v self m =
     (let (start, fin) = (case v of None \<Rightarrow> (f32_of_int 20, f32_of_int 6)
            | Some s \<Rightarrow> (case strtof s of (a, p) \<Rightarrow> (a, fst (strtof p))))
      in write_f32 (write_f32 m self kParamOff start) self (kParamOff + 4) fin)"

definition TodProcess :: "u64 \<Rightarrow> u64 \<Rightarrow> mem \<Rightarrow> int" where
  "TodProcess base self m =
     (let h = CurrentHourOfDay base m; hf = f32_of_int h;
          start = read_f32 m self kParamOff; fin = read_f32 m self (kParamOff + 4);
          in_range = (if fle start fin then fle start hf \<and> fless hf fin else fle start hf \<or> fless hf fin)
      in if h < 0 then kFailure else if in_range then kSuccess else kFailure)"

section \<open>Clones\<close>

text \<open>The engine's clone functions of the two templates, each with the address of the clone it made.\<close>

definition StoppedCloneInto :: "(u64 \<Rightarrow> mem \<Rightarrow> u64 \<times> mem) \<Rightarrow> u64 \<Rightarrow> u64 \<Rightarrow> mem \<Rightarrow> u64 \<times> mem" where
  "StoppedCloneInto stopped vtbl self m =
     (case stopped self m of
        (c, m) \<Rightarrow> if c = 0 then (c, m)
          else let m = write_field m c 0 vtbl
               in (c, write_field m c kParamOff (read_field m self kParamOff :: u64)))"

definition LogNodeClone :: "(u64 \<Rightarrow> mem \<Rightarrow> u64 \<times> mem) \<Rightarrow> u64 \<Rightarrow> u64 \<Rightarrow> mem \<Rightarrow> u64 \<times> mem" where
  "LogNodeClone stopped vtbl self m = (case stopped self m of (c, m) \<Rightarrow> (c, if c = 0 then m else write_field m c 0 vtbl))"

definition TodClone :: "(u64 \<Rightarrow> mem \<Rightarrow> u64 \<times> mem) \<Rightarrow> u64 \<Rightarrow> u64 \<Rightarrow> mem \<Rightarrow> u64 \<times> mem" where
  "TodClone stopped todVtbl self m =
     (case stopped self m of
        (c, m) \<Rightarrow> if c = 0 then (c, m)
          else let m = write_field m c 0 todVtbl
               in (c, write_field m c kParamOff (read_field m self kParamOff :: u64)))"

text \<open>The clones of the classes made from \<open>GoToPosition\<close>, whose clone function copies the fields itself.\<close>

definition GoToClone :: "(u64 \<Rightarrow> mem \<Rightarrow> u64 \<times> mem) \<Rightarrow> u64 \<Rightarrow> u64 \<Rightarrow> mem \<Rightarrow> u64 \<times> mem" where
  "GoToClone goto vtbl self m = (case goto self m of (c, m) \<Rightarrow> (c, if c = 0 then m else write_field m c 0 vtbl))"

text \<open>The node that only logs: its counter, and whether this tick is printed.\<close>

definition LogNodeProcess :: "u64 \<Rightarrow> int \<times> bool \<times> u64" where
  "LogNodeProcess logTicks = (let n = logTicks + 1 in (kSuccess, n \<le> 5 \<or> n mod 500 = 0, n))"

section \<open>Movement\<close>

definition GoToPointLoad :: "string option \<Rightarrow> u64 \<Rightarrow> mem \<Rightarrow> mem" where
  "GoToPointLoad v self m =
     set_dest m self (case v of None \<Rightarrow> (Fin 0, Fin 0, Fin 0)
       | Some s \<Rightarrow> (case strtof s of (x, p) \<Rightarrow> (case strtof p of (y, p) \<Rightarrow> (x, y, fst (strtof p)))))"

definition GoToPointProcess :: "ai_env \<Rightarrow> u64 \<Rightarrow> mem \<Rightarrow> int \<times> ai_call list \<times> mem" where
  "GoToPointProcess env self m =
     (let creature = BbResolveCreature env m self; engine = move_engine env creature
      in if creature = 0 \<or> engine = 0 then (kFailure, [], m)
         else if moving m self
         then (if poll env engine = 1 then (kSuccess, [Stop_Move engine], set_moving m self False) else (kRunning, [], m))
         else let m = set_moving m self True in (kRunning, [go_there m self engine], m))"

section \<open>Targets\<close>

definition radius_load :: "f32 \<Rightarrow> string option \<Rightarrow> u64 \<Rightarrow> mem \<Rightarrow> mem" where
  "radius_load preset v self m =
     write_f32 m self kParamOff (case v of None \<Rightarrow> preset | Some s \<Rightarrow> fst (strtof s))"

definition SetTargetLoad :: "string option \<Rightarrow> u64 \<Rightarrow> mem \<Rightarrow> mem" where
  "SetTargetLoad = radius_load (f32_of_int 5)"

definition SetTargetProcess :: "ai_env \<Rightarrow> u64 \<Rightarrow> mem \<Rightarrow> npc_states \<Rightarrow> int \<times> npc_states" where
  "SetTargetProcess env self m st =
     (let creature = BbResolveCreature env m self
      in if creature = 0 then (kFailure, st)
         else let best = ScanNearestPlayer env m creature (read_f32 m self kParamOff);
                  i = ObjId m creature; a = ai_of st i
              in if best = 0 then (kFailure, st(i \<mapsto> a\<lparr>targetId := 0, targetPtr := 0\<rparr>))
                 else (kSuccess, st(i \<mapsto> a\<lparr>targetId := ObjId m best, targetPtr := best\<rparr>)))"

definition HasTargetProcess :: "ai_env \<Rightarrow> u64 \<Rightarrow> mem \<Rightarrow> npc_states \<Rightarrow> int" where
  "HasTargetProcess env self m st =
     (let creature = BbResolveCreature env m self
      in if creature = 0 then kFailure
         else case st (ObjId m creature) of
                None \<Rightarrow> kFailure
              | Some a \<Rightarrow> if targetId a \<noteq> 0 \<and> targetPtr a \<noteq> 0 then kSuccess else kFailure)"

text \<open>The target a preceding node has left for the creature, or 0.\<close>

definition target_of :: "npc_states \<Rightarrow> u32 \<Rightarrow> u64" where
  "target_of st i = (case st i of Some a \<Rightarrow> targetPtr a | None \<Rightarrow> 0)"

definition TargetRangeLoad :: "string option \<Rightarrow> u64 \<Rightarrow> mem \<Rightarrow> mem" where
  "TargetRangeLoad v self m =
     (let (lo, hi) = (case v of None \<Rightarrow> (Fin 0, f32_of_int 5)
            | Some s \<Rightarrow> (case strtof s of (a, p) \<Rightarrow> (a, fst (strtof p))))
      in write_f32 (write_f32 m self kParamOff lo) self (kParamOff + 4) hi)"

definition TargetRangeProcess :: "ai_env \<Rightarrow> u64 \<Rightarrow> mem \<Rightarrow> npc_states \<Rightarrow> int" where
  "TargetRangeProcess env self m st =
     (let creature = BbResolveCreature env m self; target = target_of st (ObjId m creature);
          lo = read_f32 m self kParamOff; hi = read_f32 m self (kParamOff + 4);
          d2 = Dist2 (ObjPos m creature) (ObjPos m target)
      in if creature = 0 \<or> target = 0 then kFailure
         else if fle (fmul lo lo) d2 \<and> fle d2 (fmul hi hi) then kSuccess else kFailure)"

section \<open>Cooldowns\<close>

definition blank :: "char \<Rightarrow> bool" where "blank c \<longleftrightarrow> c = CHR '' '' \<or> c = CHR 0x09"

definition CooldownLoad :: "string option \<Rightarrow> u64 \<Rightarrow> mem \<Rightarrow> mem" where
  "CooldownLoad v self m =
     (let (nameHash, seconds) =
        (case v of None \<Rightarrow> (Fnv1a ''default'', f32_of_int 20)
         | Some s \<Rightarrow>
             let p = dropWhile blank s; buf = take 63 (takeWhile (\<lambda>c. \<not> blank c) p); p = drop (length buf) p;
                 secs = fst (strtof p)
             in (if buf \<noteq> [] then Fnv1a buf else Fnv1a ''default'', if fle secs (Fin 0) then f32_of_int 20 else secs))
      in write_f32 (write_field m self kParamOff nameHash) self (kParamOff + 4) seconds)"

definition elapsed_s :: "int \<Rightarrow> int \<Rightarrow> f32" where
  "elapsed_s now fired = fdiv (f32_of_int (now - fired)) (f32_of_int 1000000000)"

text \<open>A named timer of an NPC: whether it may fire, and the state in which it has been armed.\<close>

definition try_fire :: "u32 \<Rightarrow> u32 \<Rightarrow> f32 \<Rightarrow> int \<Rightarrow> npc_states \<Rightarrow> bool \<times> npc_states" where
  "try_fire i key seconds now st =
     (let a = ai_of st i
      in case cooldowns a key of
           Some t \<Rightarrow> if fless (elapsed_s now t) seconds then (False, st(i \<mapsto> a))
                    else (True, st(i \<mapsto> a\<lparr>cooldowns := (cooldowns a)(key \<mapsto> now)\<rparr>))
         | None \<Rightarrow> (True, st(i \<mapsto> a\<lparr>cooldowns := (cooldowns a)(key \<mapsto> now)\<rparr>)))"

definition CooldownProcess :: "ai_env \<Rightarrow> u64 \<Rightarrow> int \<Rightarrow> mem \<Rightarrow> npc_states \<Rightarrow> int \<times> npc_states" where
  "CooldownProcess env self now m st =
     (let creature = BbResolveCreature env m self
      in if creature = 0 then (kFailure, st)
         else case try_fire (ObjId m creature) (read_field m self kParamOff) (read_f32 m self (kParamOff + 4)) now st of
                (fired, st) \<Rightarrow> (if fired then kSuccess else kFailure, st))"

section \<open>Home, chase and flight\<close>

definition ReturnHomeProcess :: "ai_env \<Rightarrow> u64 \<Rightarrow> mem \<Rightarrow> npc_states \<Rightarrow> int \<times> ai_call list \<times> mem \<times> npc_states" where
  "ReturnHomeProcess env self m st =
     (let creature = BbResolveCreature env m self; engine = move_engine env creature
      in if creature = 0 \<or> engine = 0 then (kFailure, [], m, st)
         else
           let here = ObjPos m creature; i = ObjId m creature; a = ai_of st i;
               a = (if homeSet a then a
                    else case here of (x, y, z) \<Rightarrow> a\<lparr>homeX := x, homeY := y, homeZ := z, homeSet := True\<rparr>);
               st = st(i \<mapsto> a); home = (homeX a, homeY a, homeZ a)
           in if fle (Dist2 here home) (f32_of_int 1)
              then (if moving m self then (kFailure, [Stop_Move engine], set_moving m self False, st) else (kFailure, [], m, st))
              else
                let m = set_dest m self home
                in if moving m self then (kRunning, [], m, st)
                   else let m = set_moving m self True in (kRunning, [go_there m self engine], m, st))"

definition ChaseLoad :: "string option \<Rightarrow> u64 \<Rightarrow> mem \<Rightarrow> mem" where
  "ChaseLoad = radius_load (f32_of_int 25)"

definition ChaseProcess :: "ai_env \<Rightarrow> u64 \<Rightarrow> mem \<Rightarrow> int \<times> ai_call list \<times> mem" where
  "ChaseProcess env self m =
     (let creature = BbResolveCreature env m self; radius = read_f32 m self kParamOff; engine = move_engine env creature
      in if creature = 0 \<or> engine = 0 then (kFailure, [], m)
         else
           let target = ScanNearestPlayer env m creature radius
           in if target = 0
              then (if moving m self then (kFailure, [Stop_Move engine], set_moving m self False) else (kFailure, [], m))
              else if \<not> moving m self \<or> fless (f32_of_int 4) (Dist2 (dest_of m self) (ObjPos m target))
              then let m = set_moving (set_dest m self (ObjPos m target)) self True
                   in (kRunning, [go_there m self engine], m)
              else (kRunning, [], m))"

definition FleeLoad :: "string option \<Rightarrow> u64 \<Rightarrow> mem \<Rightarrow> mem" where
  "FleeLoad v self m =
     (let (radius, fleeDist) =
        (case v of None \<Rightarrow> (f32_of_int 50, f32_of_int 30)
         | Some s \<Rightarrow> (case strtof s of (r, p) \<Rightarrow>
             (r, let d = fst (strtod p) in if dpositive d then f32_of_f64 d else f32_of_int 30)))
      in write_f32 (write_f32 m self kParamOff radius) self (kParamOff + 4) fleeDist)"

text \<open>The point at a distance from here, away from the threat in the plane.\<close>

definition away :: "f32 \<times> f32 \<times> f32 \<Rightarrow> f32 \<times> f32 \<times> f32 \<Rightarrow> f32 \<Rightarrow> f32 \<times> f32 \<times> f32" where
  "away here threat fleeDist =
     (case here of (cx, cy, cz) \<Rightarrow> (case threat of (tx, ty, tz) \<Rightarrow>
        let ax = fsub cx tx; ay = fsub cy ty; len = fsqrt (fadd (fmul ax ax) (fmul ay ay));
            (ax, ay, len) = (if fless len (f32_of_bits 0x3A83126F) then (f32_of_int 1, Fin 0, f32_of_int 1) else (ax, ay, len))
        in (fadd cx (fmul (fdiv ax len) fleeDist), fadd cy (fmul (fdiv ay len) fleeDist), cz)))"

definition FleeProcess :: "ai_env \<Rightarrow> u64 \<Rightarrow> mem \<Rightarrow> int \<times> ai_call list \<times> mem" where
  "FleeProcess env self m =
     (let creature = BbResolveCreature env m self; radius = read_f32 m self kParamOff;
          fleeDist = read_f32 m self (kParamOff + 4); engine = move_engine env creature
      in if creature = 0 \<or> engine = 0 then (kFailure, [], m)
         else
           let threat = ScanNearestPlayer env m creature radius
           in if threat = 0
              then (if moving m self then (kSuccess, [Stop_Move engine], set_moving m self False) else (kSuccess, [], m))
              else let m = set_moving (set_dest m self (away (ObjPos m creature) (ObjPos m threat) fleeDist)) self True
                   in (kRunning, [go_there m self engine], m))"

section \<open>Facing and striking\<close>

definition FaceProcess :: "ai_env \<Rightarrow> u64 \<Rightarrow> mem \<Rightarrow> npc_states \<Rightarrow> int \<times> ai_call list" where
  "FaceProcess env self m st =
     (let creature = BbResolveCreature env m self; target = target_of st (ObjId m creature)
      in if creature = 0 \<or> target = 0 then (kFailure, [])
         else case ObjPos m creature of (sx, sy, _) \<Rightarrow> (case ObjPos m target of (tx, ty, _) \<Rightarrow>
           let dx = fsub tx sx; dy = fsub ty sy; len = fsqrt (fadd (fmul dx dx) (fmul dy dy))
           in if fless len (f32_of_bits 0x3A83126F) then (kSuccess, [])
              else
                let dirx = fdiv dx len; diry = fdiv dy len;
                    t = map (\<lambda>i. read_f32 m creature (kTransformOff + 4 * word_of_nat i)) [0..<16];
                    t = t[0 := diry, 1 := dirx, 2 := Fin 0, 4 := fneg dirx, 5 := diry, 6 := Fin 0, 8 := Fin 0, 9 := Fin 0,
                          10 := f32_of_int 1]
                in (kSuccess, [Set_Transform creature t, Set_MaskBits creature 0x80])))"

definition AttackLoad :: "string option \<Rightarrow> u64 \<Rightarrow> mem \<Rightarrow> mem" where
  "AttackLoad v self m =
     (let (abilityId, range, cooldown) =
        (case v of None \<Rightarrow> (0, f32_of_int 3, f32_of_bits 0x3FC00000)
         | Some s \<Rightarrow> (case strtol10 s of (a, p) \<Rightarrow> (case strtod p of (r, p) \<Rightarrow>
             let c = fst (strtod p)
             in (a, if dpositive r then f32_of_f64 r else f32_of_int 3,
                 if dpositive c then f32_of_f64 c else f32_of_bits 0x3FC00000))))
      in write_f32 (write_f32 (write_field m self 0x40 (word_of_int abilityId :: u32)) self 0x44 range) self 0x48 cooldown)"

definition AttackProcess :: "ai_env \<Rightarrow> u64 \<Rightarrow> int \<Rightarrow> mem \<Rightarrow> npc_states \<Rightarrow> int \<times> ai_call list \<times> npc_states" where
  "AttackProcess env self now m st =
     (let creature = BbResolveCreature env m self; i = ObjId m creature; target = target_of st i;
          abilityId = sint (read_field m self 0x40 :: u32); range = read_f32 m self 0x44; cooldown = read_f32 m self 0x48
      in if creature = 0 \<or> target = 0 then (kFailure, [], st)
         else if fless (fmul range range) (Dist2 (ObjPos m creature) (ObjPos m target)) then (kFailure, [], st)
         else case try_fire i (Fnv1a ''attack'') cooldown now st of
                (fired, st) \<Rightarrow> (kSuccess, if fired then [Use_Ability (creature + kCharStatsOff) abilityId] else [], st))"

end
