(* ===== verification/Ai_Laws.thy ===== *)
theory Ai_Laws
  imports Ai_Nodes
begin

text \<open>
  What the behaviour nodes guarantee: which target is chosen, when a gate opens, what stays of an NPC's home,
  which hours a time window holds, what a clone keeps, and what a chase does to its own radius.
\<close>

section \<open>Fields of a node\<close>

lemma f32_repr_read [simp]: "f32_repr (read_f32 m s off)"
  by (simp add: read_f32_def f32_repr_of_bits)

lemma read_write_repr: "f32_repr x \<Longrightarrow> read_f32 (write_f32 m s off x) s off = x"
proof -
  assume x: "f32_repr x"
  have "(read_field (write_field m s off (f32_bits x)) s off :: u32) = f32_bits x"
    by (rule read_write_field [where n = 4]) simp_all
  then show ?thesis using x by (simp add: read_f32_def write_f32_def f32_bits_round_trip)
qed

lemma read_f32_other:
  assumes "outside off' 4 off 4"
  shows "read_f32 (write_f32 m s off x) s off' = read_f32 m s off'"
proof -
  have "(read_field (write_field m s off (f32_bits x)) s off' :: u32) = read_field m s off'"
    by (rule read_write_const) (use assms in simp)
  then show ?thesis by (simp add: read_f32_def write_f32_def)
qed

lemma apart_above:
  "outside kDestY 4 kDestX 4" "outside kDestZ 4 kDestX 4" "outside kDestZ 4 kDestY 4"
  "outside (kParamOff + 4) 4 kParamOff 4"
  by (rule outside_above; simp add: kDestX_def kDestY_def kDestZ_def kParamOff_def)+

lemma apart_before:
  "outside kDestX 4 kDestY 4" "outside kDestX 4 kDestZ 4" "outside kDestY 4 kDestZ 4"
  "outside kDestX 4 kMovingFlag (Suc 0)" "outside kDestY 4 kMovingFlag (Suc 0)" "outside kDestZ 4 kMovingFlag (Suc 0)"
  "outside kParamOff 4 (kParamOff + 4) 4"
  by (rule outside_before; simp add: kDestX_def kDestY_def kDestZ_def kMovingFlag_def kParamOff_def)+

lemmas apart = apart_above apart_before

lemma read_f32_set_moving:
  assumes "outside off 4 kMovingFlag (Suc 0)"
  shows "read_f32 (set_moving m s b) s off = read_f32 m s off"
proof -
  have "(read_field (write_field m s kMovingFlag (of_bool b :: u8)) s off :: u32) = read_field m s off"
    by (rule read_write_const) (use assms in simp)
  then show ?thesis by (simp add: read_f32_def set_moving_def)
qed

lemma moving_set_moving [simp]: "moving (set_moving m s b) s = b"
proof -
  have "(read_field (write_field m s kMovingFlag (of_bool b :: u8)) s kMovingFlag :: u8) = of_bool b"
    by (rule read_write_field [where n = 1]) simp_all
  then show ?thesis by (simp add: moving_def set_moving_def)
qed

lemma dest_of_set:
  "dest_of (set_moving (set_dest m s (ObjPos m' obj)) s b) s = ObjPos m' obj"
  by (simp add: dest_of_def set_dest_def ObjPos_def read_f32_set_moving apart read_f32_other read_write_repr)

section \<open>The nearest candidate\<close>

text \<open>The distances are compared with \<open>d2 < bestD2\<close>, which is false for a distance that is not a number.\<close>

lemma nearest_loop_spec:
  fixes m objs c here
  defines "d \<equiv> \<lambda>q. Dist2 here (ObjPos m q)"
  assumes "best = 0 \<or> bestD2 = d best" and "0 \<notin> set objs" and "bestD2 \<noteq> NaN"
  shows "(let r = nearest_loop m c here objs best bestD2 in
     (r = best \<and> (\<forall>q \<in> set objs - {c}. \<not> fless (d q) bestD2) \<or>
      r \<in> set objs - {c} \<and> fless (d r) bestD2 \<and> (\<forall>q \<in> set objs - {c}. \<not> fless (d q) (d r))))"
  using assms(2-)
proof (induction objs arbitrary: best bestD2)
  case (Cons x objs)
  show ?case
  proof (cases "x \<noteq> c \<and> fless (d x) bestD2")
    case True
    have "d x \<noteq> NaN" using True by auto
    then have ih: "let r = nearest_loop m c here objs x (d x) in
        r = x \<and> (\<forall>q \<in> set objs - {c}. \<not> fless (d q) (d x)) \<or>
        r \<in> set objs - {c} \<and> fless (d r) (d x) \<and> (\<forall>q \<in> set objs - {c}. \<not> fless (d q) (d r))"
      using Cons.prems by (intro Cons.IH) simp_all
    have eq: "nearest_loop m c here (x # objs) best bestD2 = nearest_loop m c here objs x (d x)"
      using True by (simp add: d_def Let_def)
    have trans: "fless (d r) bestD2 \<and> \<not> fless (d x) (d r)" if "fless (d r) (d x)" for r
      using that True by (cases "d r"; cases "d x"; cases bestD2) auto
    have irr: "\<not> fless (d x) (d x)" by (cases "d x") auto
    show ?thesis unfolding eq Let_def using ih [unfolded Let_def] True trans irr by auto
  next
    case False
    have eq: "nearest_loop m c here (x # objs) best bestD2 = nearest_loop m c here objs best bestD2"
      using False by (auto simp: d_def Let_def)
    have ih: "let r = nearest_loop m c here objs best bestD2 in
        r = best \<and> (\<forall>q \<in> set objs - {c}. \<not> fless (d q) bestD2) \<or>
        r \<in> set objs - {c} \<and> fless (d r) bestD2 \<and> (\<forall>q \<in> set objs - {c}. \<not> fless (d q) (d r))"
      using Cons.prems by (intro Cons.IH) simp_all
    have up: "\<not> fless (d x) (d r)" if "fless (d r) bestD2" "x \<noteq> c" for r
      using that False by (cases "d r"; cases "d x"; cases bestD2) auto
    show ?thesis unfolding eq Let_def using ih [unfolded Let_def] False up by auto
  qed
qed simp

lemma scan_nearest:
  fixes env m c radius
  defines "here \<equiv> ObjPos m c"
  defines "found \<equiv> takeWhile (\<lambda>x. x \<noteq> 0) (radius_search env m here radius)"
  defines "d \<equiv> \<lambda>q. Dist2 here (ObjPos m q)"
  shows "(let r = ScanNearestPlayer env m c radius in
     (r = 0 \<and> (\<forall>q \<in> set found - {c}. \<not> fless (d q) FLT_MAX)) \<or>
     (r \<in> set found - {c} \<and> r \<noteq> 0 \<and> (\<forall>q \<in> set found - {c}. \<not> fless (d q) (d r))))"
proof -
  have nz: "0 \<notin> set found" by (auto simp: found_def dest: set_takeWhileD)
  have "let r = nearest_loop m c here found 0 FLT_MAX in
      r = 0 \<and> (\<forall>q \<in> set found - {c}. \<not> fless (d q) FLT_MAX) \<or>
      r \<in> set found - {c} \<and> fless (d r) FLT_MAX \<and> (\<forall>q \<in> set found - {c}. \<not> fless (d q) (d r))"
    unfolding d_def by (rule nearest_loop_spec) (use nz in \<open>simp_all add: FLT_MAX_def\<close>)
  moreover have "ScanNearestPlayer env m c radius = nearest_loop m c here found 0 FLT_MAX"
    by (simp add: ScanNearestPlayer_def Let_def here_def found_def)
  ultimately show ?thesis using nz by (auto simp: Let_def)
qed

section \<open>Ticks\<close>

text \<open>The nodes that keep something about an NPC, ticked in any order on any memory.\<close>

datatype ai_tick =
    Target_Tick u64 mem
  | Gate_Tick u64 int mem
  | Home_Tick u64 mem
  | Attack_Tick u64 int mem

fun after_tick :: "ai_env \<Rightarrow> ai_tick \<Rightarrow> npc_states \<Rightarrow> npc_states" where
  "after_tick env (Target_Tick self m) st = snd (SetTargetProcess env self m st)"
| "after_tick env (Gate_Tick self now m) st = snd (CooldownProcess env self now m st)"
| "after_tick env (Home_Tick self m) st = snd (snd (snd (ReturnHomeProcess env self m st)))"
| "after_tick env (Attack_Tick self now m) st = snd (snd (AttackProcess env self now m st))"

text \<open>The timer a tick has fired: the NPC, the name, the time and the seconds asked for. A gate has fired when it
  succeeds, an attack when it has ordered a swing.\<close>

fun tick_fires :: "ai_env \<Rightarrow> ai_tick \<Rightarrow> npc_states \<Rightarrow> (u32 \<times> u32 \<times> int \<times> f32) option" where
  "tick_fires env (Gate_Tick self now m) st =
     (if fst (CooldownProcess env self now m st) = kSuccess
      then Some (ObjId m (BbResolveCreature env m self), read_field m self kParamOff, now, read_f32 m self (kParamOff + 4))
      else None)"
| "tick_fires env (Attack_Tick self now m) st =
     (if fst (snd (AttackProcess env self now m st)) \<noteq> []
      then Some (ObjId m (BbResolveCreature env m self), Fnv1a ''attack'', now, read_f32 m self 0x48)
      else None)"
| "tick_fires env _ st = None"

fun run_ticks :: "ai_env \<Rightarrow> ai_tick list \<Rightarrow> npc_states \<Rightarrow> npc_states" where
  "run_ticks env [] st = st"
| "run_ticks env (t # ts) st = run_ticks env ts (after_tick env t st)"

fun run_fires :: "ai_env \<Rightarrow> ai_tick list \<Rightarrow> npc_states \<Rightarrow> (u32 \<times> u32 \<times> int \<times> f32) list" where
  "run_fires env [] st = []"
| "run_fires env (t # ts) st =
     (case tick_fires env t st of Some f \<Rightarrow> [f] | None \<Rightarrow> []) @ run_fires env ts (after_tick env t st)"

definition armed :: "npc_states \<Rightarrow> u32 \<Rightarrow> u32 \<Rightarrow> int option" where
  "armed st i k = cooldowns (ai_of st i) k"

lemma ai_of_upd [simp]: "ai_of (st(i \<mapsto> a)) j = (if j = i then a else ai_of st j)"
  by (simp add: ai_of_def)

lemma try_fire_armed:
  assumes "try_fire i k s now st = (b, st')"
  shows "armed st' j l = (if b \<and> j = i \<and> l = k then Some now else armed st j l)"
    and "b \<Longrightarrow> armed st i k = Some t \<Longrightarrow> \<not> fless (elapsed_s now t) s"
    and "\<not> b \<Longrightarrow> \<exists>t. armed st i k = Some t \<and> fless (elapsed_s now t) s"
    and "homeSet (ai_of st' j) = homeSet (ai_of st j)" "homeX (ai_of st' j) = homeX (ai_of st j)"
    "homeY (ai_of st' j) = homeY (ai_of st j)" "homeZ (ai_of st' j) = homeZ (ai_of st j)"
  using assms by (auto simp: try_fire_def Let_def armed_def split: option.splits if_splits)

lemma kSuccess_not_kFailure [simp]: "kSuccess \<noteq> kFailure" "kFailure \<noteq> kSuccess"
  by (simp_all add: kSuccess_def kFailure_def)

lemma SetTarget_armed: "armed (snd (SetTargetProcess env self m st)) i k = armed st i k"
  by (simp add: SetTargetProcess_def Let_def armed_def)

lemma ReturnHome_armed: "armed (snd (snd (snd (ReturnHomeProcess env self m st)))) i k = armed st i k"
  by (simp add: ReturnHomeProcess_def Let_def armed_def split: prod.split)

lemma Cooldown_cases:
  obtains "CooldownProcess env self now m st = (kFailure, st)"
  | b st' where "try_fire (ObjId m (BbResolveCreature env m self)) (read_field m self kParamOff)
        (read_f32 m self (kParamOff + 4)) now st = (b, st')"
      "CooldownProcess env self now m st = (if b then kSuccess else kFailure, st')"
proof (cases "BbResolveCreature env m self = 0")
  case True
  then show ?thesis by (intro that(1)) (simp add: CooldownProcess_def Let_def)
next
  case False
  obtain b st' where f: "try_fire (ObjId m (BbResolveCreature env m self)) (read_field m self kParamOff)
        (read_f32 m self (kParamOff + 4)) now st = (b, st')" by fastforce
  show ?thesis by (rule that(2) [OF f]) (use False f in \<open>simp add: CooldownProcess_def Let_def\<close>)
qed

lemma Attack_cases:
  obtains "AttackProcess env self now m st = (kFailure, [], st)"
  | b st' where "try_fire (ObjId m (BbResolveCreature env m self)) (Fnv1a ''attack'') (read_f32 m self 0x48) now st = (b, st')"
      "AttackProcess env self now m st = (kSuccess,
         if b then [Use_Ability (BbResolveCreature env m self + kCharStatsOff) (sint (read_field m self 0x40 :: u32))] else [], st')"
proof (cases "fst (AttackProcess env self now m st) = kFailure")
  case True
  then show ?thesis by (intro that(1)) (auto simp: AttackProcess_def Let_def split: if_splits prod.splits)
next
  case False
  obtain b st' where f: "try_fire (ObjId m (BbResolveCreature env m self)) (Fnv1a ''attack'') (read_f32 m self 0x48) now st
      = (b, st')" by fastforce
  show ?thesis by (rule that(2) [OF f]) (use False f in \<open>simp add: AttackProcess_def Let_def split: if_splits\<close>)
qed

lemma tick_armed:
  "armed (after_tick env t st) j l =
     (case tick_fires env t st of Some (i, k, now, _) \<Rightarrow> if j = i \<and> l = k then Some now else armed st j l
      | None \<Rightarrow> armed st j l)"
proof (cases t)
  case (Gate_Tick self now m)
  show ?thesis
    by (rule Cooldown_cases [of env self now m st]) (auto simp: Gate_Tick try_fire_armed(1))
next
  case (Attack_Tick self now m)
  show ?thesis
    by (rule Attack_cases [of env self now m st]) (auto simp: Attack_Tick try_fire_armed(1))
qed (simp_all add: SetTarget_armed ReturnHome_armed)

lemma tick_fires_late:
  assumes "tick_fires env t st = Some (i, k, now, s)" and "armed st i k = Some t0"
  shows "\<not> fless (elapsed_s now t0) s"
proof (cases t)
  case (Gate_Tick self now' m)
  show ?thesis
    by (rule Cooldown_cases [of env self now' m st])
      (use assms try_fire_armed(2) in \<open>auto simp: Gate_Tick split: if_splits\<close>)
next
  case (Attack_Tick self now' m)
  show ?thesis
    by (rule Attack_cases [of env self now' m st])
      (use assms try_fire_armed(2) in \<open>auto simp: Attack_Tick split: if_splits\<close>)
qed (use assms in simp_all)

text \<open>The first fire of a timer in a run comes late enough after the time at which it was armed before.\<close>

lemma first_fire_late:
  assumes "run_fires env ts st = ys @ (i, k, now, s) # zs" and "\<forall>f \<in> set ys. (fst f, fst (snd f)) \<noteq> (i, k)"
    and "armed st i k = Some t0"
  shows "\<not> fless (elapsed_s now t0) s"
  using assms
proof (induction ts arbitrary: st ys)
  case (Cons t ts)
  show ?case
  proof (cases "tick_fires env t st")
    case None
    then show ?thesis using Cons.IH [of "after_tick env t st" ys] Cons.prems by (simp add: tick_armed)
  next
    case (Some f)
    obtain i' k' now' s' where f: "f = (i', k', now', s')" by (cases f) auto
    have eq: "f # run_fires env ts (after_tick env t st) = ys @ (i, k, now, s) # zs" using Cons.prems(1) Some by simp
    show ?thesis
    proof (cases ys)
      case Nil
      then have "f = (i, k, now, s)" using eq by simp
      then show ?thesis using tick_fires_late [OF _ Cons.prems(3)] Some by blast
    next
      case (Cons y ys')
      then have y: "y = f" and rest: "run_fires env ts (after_tick env t st) = ys' @ (i, k, now, s) # zs"
        using eq by simp_all
      have "(i', k') \<noteq> (i, k)" using Cons.prems(2) Cons y f by auto
      then have "armed (after_tick env t st) i k = Some t0" using Cons.prems(3) by (auto simp: tick_armed Some f)
      then show ?thesis using Cons.IH [OF rest] Cons.prems(2) Cons by simp
    qed
  qed
qed simp

lemma run_fires_split:
  assumes "run_fires env ts st = xs @ f # ys"
  shows "\<exists>us t vs. ts = us @ t # vs \<and> tick_fires env t (run_ticks env us st) = Some f \<and>
     run_fires env vs (run_ticks env (us @ [t]) st) = ys"
  using assms
proof (induction ts arbitrary: st xs)
  case (Cons t ts)
  have skip: ?case if "run_fires env ts (after_tick env t st) = xs' @ f # ys" for xs'
  proof -
    from Cons.IH [OF that] obtain us t' vs where
      "ts = us @ t' # vs \<and> tick_fires env t' (run_ticks env us (after_tick env t st)) = Some f \<and>
       run_fires env vs (run_ticks env (us @ [t']) (after_tick env t st)) = ys" by blast
    then show ?thesis by (intro exI [of _ "t # us"] exI [of _ t'] exI [of _ vs]) simp
  qed
  show ?case
  proof (cases "tick_fires env t st")
    case None
    then show ?thesis using skip Cons.prems by simp
  next
    case (Some g)
    show ?thesis
    proof (cases xs)
      case Nil
      then show ?thesis using Cons.prems Some by (intro exI [of _ "[]"] exI [of _ t] exI [of _ ts]) simp
    next
      case (Cons x xs')
      then show ?thesis using skip Cons.prems Some by simp
    qed
  qed
qed simp

section \<open>Homes\<close>

definition home_of :: "npc_ai \<Rightarrow> bool \<times> f32 \<times> f32 \<times> f32" where
  "home_of a = (homeSet a, homeX a, homeY a, homeZ a)"

lemma after_tick_home:
  assumes "homeSet (ai_of st i)"
  shows "home_of (ai_of (after_tick env t st) i) = home_of (ai_of st i)"
proof (cases t)
  case (Target_Tick self m)
  then show ?thesis by (simp add: SetTargetProcess_def Let_def home_of_def)
next
  case (Gate_Tick self now m)
  show ?thesis
    by (rule Cooldown_cases [of env self now m st]) (auto simp: Gate_Tick home_of_def try_fire_armed(4-7))
next
  case (Home_Tick self m)
  then show ?thesis using assms by (auto simp: ReturnHomeProcess_def Let_def home_of_def split: prod.split)
next
  case (Attack_Tick self now m)
  show ?thesis
    by (rule Attack_cases [of env self now m st]) (auto simp: Attack_Tick home_of_def try_fire_armed(4-7))
qed

section \<open>Hours\<close>

lemma hour_range:
  "CurrentHourOfDay base m = -1 \<or> 0 \<le> CurrentHourOfDay base m \<and> CurrentHourOfDay base m < 24"
proof -
  have r: "0 \<le> (if sgn t * (k mod 24) < 0 then sgn t * (k mod 24) + 24 else sgn t * (k mod 24)) \<and>
      (if sgn t * (k mod 24) < 0 then sgn t * (k mod 24) + 24 else sgn t * (k mod 24)) < 24" for t k :: int
  proof -
    have "0 \<le> k mod 24" "k mod 24 < 24" by simp_all
    then show ?thesis unfolding sgn_if by (simp del: pos_mod_sign pos_mod_bound)
  qed
  define t where "t = sint (read_field m (read_field m base kGameTimeWorldPtrRva) kGameTimeFieldOff :: u64)"
  define h where "h = sgn t * (\<bar>t\<bar> div kMicrosPerHour mod 24)"
  have "CurrentHourOfDay base m =
      (if (read_field m base kGameTimeWorldPtrRva :: u64) = 0 then -1 else if h < 0 then h + 24 else h)"
    by (simp only: CurrentHourOfDay_def Let_def t_def h_def)
  then show ?thesis using r [of t "\<bar>t\<bar> div kMicrosPerHour", folded h_def] by simp
qed

lemma hour_of_float:
  assumes "\<bar>a\<bar> < 2 ^ 24" "\<bar>b\<bar> < 2 ^ 24"
  shows "fle (f32_of_int a) (f32_of_int b) \<longleftrightarrow> a \<le> b" and "fless (f32_of_int a) (f32_of_int b) \<longleftrightarrow> a < b"
  using f32_unit_pos assms by (simp_all add: f32_of_small_int)

lemma cyclic_window:
  fixes h a b :: int
  assumes "0 \<le> h" "h < 24" "0 \<le> a" "a < 24" "0 \<le> b" "b < 24"
  shows "(if a \<le> b then a \<le> h \<and> h < b else a \<le> h \<or> h < b) \<longleftrightarrow> (h - a) mod 24 < (b - a) mod 24"
proof -
  have m: "(x - a) mod 24 = (if a \<le> x then x - a else x - a + 24)" if "0 \<le> x" "x < 24" for x
  proof (cases "a \<le> x")
    case False
    have "(x - a) mod 24 = (x - a + 24) mod 24" by (rule mod_add_self2 [symmetric])
    also have "\<dots> = x - a + 24" by (rule mod_pos_pos_trivial) (use False that assms in linarith)+
    finally show ?thesis using False by simp
  qed (use that assms in \<open>simp add: mod_pos_pos_trivial\<close>)
  show ?thesis using assms by (simp add: m)
qed

section \<open>A small world\<close>

text \<open>A world for the instances below: memory full of ones, in which every object stands at the same place, and a
  copy of it in which one object stands elsewhere.\<close>

definition ones :: mem where "ones = (\<lambda>_. 1)"

definition ones_env :: ai_env where
  "ones_env = \<lparr>find_animal = \<lambda>_. 8, find_npcbase = \<lambda>_. 0, move_engine = \<lambda>_. 7, poll = \<lambda>_. 0,
     radius_search = \<lambda>m p r. if fless (Fin 0) r then [0x1000] else []\<rparr>"

lemma load_ones: "(load_le (replicate 8 1) :: u64) = 0x0101010101010101" "(load_le (replicate 4 1) :: u32) = 0x01010101"
  by code_simp+

lemma read_ones: "(read_field ones a off :: u64) = 0x0101010101010101" "(read_field ones a off :: u32) = 0x01010101"
  by (simp_all add: ones_def read_field_def mread_def map_replicate_const load_ones)

lemma ones_creature: "BbResolveCreature ones_env ones self = 0x0101010101010101"
  by (simp add: BbResolveCreature_def ones_env_def read_ones)

lemma ones_id: "ObjId ones c = 0x01010101"
  by (simp add: ObjId_def read_ones)

lemma ones_f32: "read_f32 ones c off = f32_of_bits 0x01010101"
  by (simp add: read_f32_def read_ones)

definition far_mem :: mem where
  "far_mem = write_field ones 0x1000 0x284 (f32_bits (f32_of_int (-100)))"

lemma far_f32: "read_f32 far_mem 0x1000 0x284 = f32_of_int (-100)"
  unfolding far_mem_def write_f32_def [symmetric] by (rule read_write_repr) code_simp

lemma far_other:
  "outside (obj + off) (LENGTH('b) div 8) 0x1284 4 \<Longrightarrow>
     (read_field far_mem obj off :: 'b::len word) = read_field ones obj off"
  unfolding far_mem_def by (rule read_write_other) simp

lemma far_creature: "BbResolveCreature ones_env far_mem 0x9000 = 0x0101010101010101"
proof -
  have a: "(read_field far_mem 0x9000 0x28 :: u64) = 0x0101010101010101"
    by (subst far_other) (simp_all add: outside_above read_ones)
  have b: "(read_field far_mem 8 0 :: u64) = 0x0101010101010101"
    by (subst far_other) (simp_all add: outside_before read_ones)
  have c: "(read_field far_mem 0x0101010101010101 0 :: u64) = 0x0101010101010101"
    by (subst far_other) (simp_all add: outside_above read_ones)
  show ?thesis by (simp add: BbResolveCreature_def ones_env_def a b c)
qed

lemma far_other_f32: "outside (obj + off) 4 0x1284 4 \<Longrightarrow> read_f32 far_mem obj off = f32_of_bits 0x01010101"
  by (simp add: read_f32_def far_other read_ones)

section \<open>Properties\<close>

text \<open>C36: Over any interleaving of ticks of the target, gate, home and attack nodes, for any NPCs and on any
  memory, two consecutive fires of one timer of one NPC are at least the seconds of the later one apart on the
  steady clock: a gate does not succeed, and an attack does not swing, while its cooldown runs.\<close>

theorem fires_keep_their_distance:
  assumes "run_fires env ts st = xs @ (i, k, t0, s0) # ys @ (i, k, t, s) # zs"
    and "\<forall>f \<in> set ys. (fst f, fst (snd f)) \<noteq> (i, k)"
  shows "\<not> fless (elapsed_s t t0) s"
proof -
  obtain us u vs where split: "tick_fires env u (run_ticks env us st) = Some (i, k, t0, s0)"
      "run_fires env vs (run_ticks env (us @ [u]) st) = ys @ (i, k, t, s) # zs"
    using run_fires_split [OF assms(1)] by blast
  have snoc: "run_ticks env (us @ [u]) st = after_tick env u (run_ticks env us st)" for st
    by (induction us arbitrary: st) simp_all
  have "armed (run_ticks env (us @ [u]) st) i k = Some t0" by (simp add: snoc tick_armed split(1))
  then show ?thesis by (rule first_fire_late [OF split(2) assms(2)])
qed

theorem fires_keep_their_distance_witness:
  "run_fires ones_env [Gate_Tick 0 0 ones, Gate_Tick 0 1 ones] Map.empty =
     [(0x01010101, 0x01010101, 0, f32_of_bits 0x01010101), (0x01010101, 0x01010101, 1, f32_of_bits 0x01010101)] \<and>
   \<not> fless (elapsed_s 1 0) (f32_of_bits 0x01010101)"
proof -
  have "fless (elapsed_s 1 0) (f32_of_bits 0x01010101) = False" by code_simp
  then have run: "run_fires ones_env [Gate_Tick 0 0 ones, Gate_Tick 0 1 ones] Map.empty =
     [] @ (0x01010101, 0x01010101, 0, f32_of_bits 0x01010101) # [] @ (0x01010101, 0x01010101, 1, f32_of_bits 0x01010101) # []"
    by (simp add: CooldownProcess_def ones_creature ones_id ones_f32 read_ones try_fire_def Let_def ai_of_def fresh_ai_def)
  from fires_keep_their_distance [OF run] run show ?thesis by simp
qed

text \<open>\<open>SetNearestPlayerAsTarget\<close> leaves in the NPC's state the nearest object the engine's search has found
  besides the NPC itself, with its object number, and fails exactly when there is none at a distance a float
  holds; the state of every other NPC stays.\<close>

theorem target_is_the_nearest:
  assumes "BbResolveCreature env m self = c" "c \<noteq> 0" and "SetTargetProcess env self m st = (code, st')"
  shows "(let a = ai_of st' (ObjId m c); d = \<lambda>q. Dist2 (ObjPos m c) (ObjPos m q);
      found = set (takeWhile (\<lambda>x. x \<noteq> 0) (radius_search env m (ObjPos m c) (read_f32 m self kParamOff))) - {c} in
     (code = kSuccess \<and> targetPtr a \<in> found \<and> targetId a = ObjId m (targetPtr a) \<and>
        (\<forall>q \<in> found. \<not> fless (d q) (d (targetPtr a))) \<or>
      code = kFailure \<and> targetPtr a = 0 \<and> targetId a = 0 \<and> (\<forall>q \<in> found. \<not> fless (d q) FLT_MAX)) \<and>
     (\<forall>j. j = ObjId m c \<or> st' j = st j))"
proof -
  let ?r = "ScanNearestPlayer env m c (read_f32 m self kParamOff)"
  have scan: "?r = 0 \<and> (\<forall>q \<in> set (takeWhile (\<lambda>x. x \<noteq> 0) (radius_search env m (ObjPos m c) (read_f32 m self kParamOff))) - {c}.
        \<not> fless (Dist2 (ObjPos m c) (ObjPos m q)) FLT_MAX) \<or>
      ?r \<in> set (takeWhile (\<lambda>x. x \<noteq> 0) (radius_search env m (ObjPos m c) (read_f32 m self kParamOff))) - {c} \<and> ?r \<noteq> 0 \<and>
      (\<forall>q \<in> set (takeWhile (\<lambda>x. x \<noteq> 0) (radius_search env m (ObjPos m c) (read_f32 m self kParamOff))) - {c}.
        \<not> fless (Dist2 (ObjPos m c) (ObjPos m q)) (Dist2 (ObjPos m c) (ObjPos m ?r)))"
    using scan_nearest [where env = env and m = m and c = c and radius = "read_f32 m self kParamOff"]
    by (simp only: Let_def)
  show ?thesis
  proof (cases "?r = 0")
    case True
    then have "code = kFailure" "st' = st(ObjId m c \<mapsto> (ai_of st (ObjId m c))\<lparr>targetId := 0, targetPtr := 0\<rparr>)"
      using assms by (simp_all add: SetTargetProcess_def Let_def)
    then show ?thesis using scan True by (simp add: Let_def)
  next
    case False
    then have "code = kSuccess" "st' = st(ObjId m c \<mapsto> (ai_of st (ObjId m c))\<lparr>targetId := ObjId m ?r, targetPtr := ?r\<rparr>)"
      using assms by (simp_all add: SetTargetProcess_def Let_def)
    then show ?thesis using scan False by (simp add: Let_def)
  qed
qed

theorem target_is_the_nearest_witness:
  "\<exists>st'. SetTargetProcess ones_env 0 ones Map.empty = (kSuccess, st') \<and> targetPtr (ai_of st' 0x01010101) = 0x1000"
proof -
  obtain code st' where run: "SetTargetProcess ones_env 0 ones Map.empty = (code, st')" by fastforce
  have pos: "fless (Fin 0) (f32_of_bits 0x01010101)" by code_simp
  have near: "fless (Dist2 (ObjPos ones 0x0101010101010101) (ObjPos ones 0x1000)) FLT_MAX"
    unfolding ObjPos_def ones_f32 by code_simp
  have found: "set (takeWhile (\<lambda>x. x \<noteq> 0) (radius_search ones_env ones p (read_f32 ones 0 kParamOff)))
      - {0x0101010101010101} = {0x1000}" for p
    by (auto simp: ones_f32 ones_env_def pos)
  show ?thesis
    using target_is_the_nearest [OF ones_creature _ run] run near unfolding Let_def found ones_id by auto
qed

text \<open>The home of an NPC is the position of its first tick for good: no later tick of any node, at any
  position, moves a home that is set.\<close>

theorem home_never_moves:
  assumes "homeSet (ai_of st i)"
  shows "home_of (ai_of (run_ticks env ts st) i) = home_of (ai_of st i)"
  using assms
proof (induction ts arbitrary: st)
  case (Cons t ts)
  have h: "home_of (ai_of (after_tick env t st) i) = home_of (ai_of st i)" by (rule after_tick_home [OF Cons.prems])
  then have "homeSet (ai_of (after_tick env t st) i)" using Cons.prems by (simp add: home_of_def)
  from Cons.IH [OF this] h show ?case by simp
qed simp

theorem home_never_moves_witness:
  "home_of (ai_of (run_ticks ones_env [Home_Tick 0 ones, Target_Tick 0 far_mem]
      [0x01010101 \<mapsto> fresh_ai\<lparr>homeSet := True, homeX := f32_of_int 7\<rparr>]) 0x01010101) = (True, f32_of_int 7, Fin 0, Fin 0)"
  using home_never_moves [of "[0x01010101 \<mapsto> fresh_ai\<lparr>homeSet := True, homeX := f32_of_int 7\<rparr>]" "0x01010101"
      ones_env "[Home_Tick 0 ones, Target_Tick 0 far_mem]"]
  by (simp add: home_of_def fresh_ai_def ai_of_def)

text \<open>\<open>TimeOfDayBetween\<close> with whole hours succeeds exactly in the half-open window from the first hour to the
  second on the 24-hour circle, across midnight as well, and never while the game clock is missing.\<close>

theorem time_window_is_cyclic:
  assumes "read_f32 m self kParamOff = f32_of_int a" "read_f32 m self (kParamOff + 4) = f32_of_int b"
    and "0 \<le> a" "a < 24" "0 \<le> b" "b < 24"
  shows "TodProcess base self m =
     (if 0 \<le> CurrentHourOfDay base m \<and> (CurrentHourOfDay base m - a) mod 24 < (b - a) mod 24 then kSuccess else kFailure)"
proof -
  let ?h = "CurrentHourOfDay base m"
  show ?thesis
  proof (cases "0 \<le> ?h")
    case True
    then have h: "?h < 24" using hour_range [of base m] by linarith
    have "(if fle (f32_of_int a) (f32_of_int b) then fle (f32_of_int a) (f32_of_int ?h) \<and> fless (f32_of_int ?h) (f32_of_int b)
        else fle (f32_of_int a) (f32_of_int ?h) \<or> fless (f32_of_int ?h) (f32_of_int b))
        = (if a \<le> b then a \<le> ?h \<and> ?h < b else a \<le> ?h \<or> ?h < b)"
      using assms(3-6) True h by (simp add: hour_of_float)
    also have "\<dots> = ((?h - a) mod 24 < (b - a) mod 24)"
      by (rule cyclic_window) (use assms(3-6) True h in simp_all)
    finally show ?thesis using True by (simp add: TodProcess_def Let_def assms(1,2))
  qed (simp add: TodProcess_def Let_def)
qed

theorem time_window_is_cyclic_witness:
  "\<exists>m. (\<exists>m0. m = write_field (write_field (TodLoad None 0x1000 m0) 0x140000000 kGameTimeWorldPtrRva (0x5000 :: u64))
       0x5000 kGameTimeFieldOff (75600000000 :: u64)) \<and> TodProcess 0x140000000 0x1000 m = kSuccess"
proof -
  define m where "m = write_field (write_field (TodLoad None 0x1000 ones) 0x140000000 kGameTimeWorldPtrRva (0x5000 :: u64))
       0x5000 kGameTimeFieldOff (75600000000 :: u64)"
  have o: "read_f32 m 0x1000 off = read_f32 (TodLoad None 0x1000 ones) 0x1000 off"
    if "off = kParamOff \<or> off = kParamOff + 4" for off
  proof -
    have "outside (0x1000 + off) 4 0x140B7E4C0 8" "outside (0x1000 + off) 4 0x5010 8"
      using that by (auto simp: kParamOff_def intro!: outside_before)
    then show ?thesis
      by (simp add: m_def read_f32_def read_write_other kGameTimeWorldPtrRva_def kGameTimeFieldOff_def)
  qed
  have r: "f32_repr (f32_of_int 20)" "f32_repr (f32_of_int 6)" by code_simp+
  have a: "read_f32 m 0x1000 kParamOff = f32_of_int 20" "read_f32 m 0x1000 (kParamOff + 4) = f32_of_int 6"
    using o r by (simp_all add: TodLoad_def read_f32_other apart read_write_repr)
  have p: "(read_field m 0x140000000 kGameTimeWorldPtrRva :: u64) = 0x5000"
  proof -
    have "(read_field m 0x140000000 kGameTimeWorldPtrRva :: u64) =
        read_field (write_field (TodLoad None 0x1000 ones) 0x140000000 kGameTimeWorldPtrRva (0x5000 :: u64)) 0x140000000
          kGameTimeWorldPtrRva"
      unfolding m_def by (rule read_write_other) (simp add: kGameTimeWorldPtrRva_def kGameTimeFieldOff_def outside_above)
    also have "\<dots> = 0x5000" by (rule read_write_field [where n = 8]) simp_all
    finally show ?thesis .
  qed
  have t: "(read_field m 0x5000 kGameTimeFieldOff :: u64) = 75600000000"
    unfolding m_def by (rule read_write_field [where n = 8]) simp_all
  have "CurrentHourOfDay 0x140000000 m = 21"
    by (simp add: CurrentHourOfDay_def Let_def p t kMicrosPerHour_def)
  then have "TodProcess 0x140000000 0x1000 m = kSuccess" using time_window_is_cyclic [OF a] by simp
  then show ?thesis unfolding m_def by blast
qed

text \<open>A chase keeps its scan radius where it also keeps its destination, so that the first order to move
  replaces the radius by the x coordinate of the target: the next tick asks the engine for the players within
  that coordinate instead of the radius the tree was written with.\<close>

theorem chase_forgets_its_radius:
  assumes "BbResolveCreature env m self = c" "c \<noteq> 0" "move_engine env c \<noteq> 0"
    and "ScanNearestPlayer env m c (read_f32 m self kParamOff) = t" "t \<noteq> 0"
    and "\<not> moving m self \<or> fless (f32_of_int 4) (Dist2 (dest_of m self) (ObjPos m t))"
  shows "\<exists>m'. ChaseProcess env self m = (kRunning, [go_there m' self (move_engine env c)], m') \<and>
     dest_of m' self = ObjPos m t \<and> read_f32 m' self kParamOff = fst (ObjPos m t)"
proof -
  define m' where "m' = set_moving (set_dest m self (ObjPos m t)) self True"
  have "ChaseProcess env self m = (kRunning, [go_there m' self (move_engine env c)], m')"
    using assms by (simp add: ChaseProcess_def Let_def m'_def)
  moreover have d: "dest_of m' self = ObjPos m t" by (simp add: m'_def dest_of_set)
  moreover have "read_f32 m' self kParamOff = fst (dest_of m' self)"
    by (simp add: dest_of_def kParamOff_def kDestX_def)
  ultimately show ?thesis by simp
qed

theorem chase_forgets_its_radius_witness:
  "\<exists>calls m'. ChaseProcess ones_env 0x9000 far_mem = (kRunning, calls, m') \<and>
     read_f32 m' 0x9000 kParamOff = f32_of_int (-100) \<and>
     ScanNearestPlayer ones_env m' 0x0101010101010101 (read_f32 m' 0x9000 kParamOff) = 0"
proof -
  let ?c = "0x0101010101010101 :: u64"
  have tpos: "ObjPos far_mem 0x1000 = (f32_of_int (-100), f32_of_bits 0x01010101, f32_of_bits 0x01010101)"
    by (simp add: ObjPos_def kPosX_def kPosY_def kPosZ_def far_f32 far_other_f32 outside_above)
  have cpos: "ObjPos far_mem ?c = (f32_of_bits 0x01010101, f32_of_bits 0x01010101, f32_of_bits 0x01010101)"
    by (simp add: ObjPos_def kPosX_def kPosY_def kPosZ_def far_other_f32 outside_above)
  have dest: "dest_of far_mem 0x9000 = (f32_of_bits 0x01010101, f32_of_bits 0x01010101, f32_of_bits 0x01010101)"
    by (simp add: dest_of_def kDestX_def kDestY_def kDestZ_def far_other_f32 outside_above)
  have rad: "read_f32 far_mem 0x9000 kParamOff = f32_of_bits 0x01010101"
    by (simp add: kParamOff_def far_other_f32 outside_above)
  have pos: "fless (Fin 0) (f32_of_bits 0x01010101)" by code_simp
  have near: "fless (Dist2 (f32_of_bits 0x01010101, f32_of_bits 0x01010101, f32_of_bits 0x01010101)
      (f32_of_int (-100), f32_of_bits 0x01010101, f32_of_bits 0x01010101)) FLT_MAX" by code_simp
  have scan: "ScanNearestPlayer ones_env far_mem ?c (read_f32 far_mem 0x9000 kParamOff) = 0x1000"
    by (simp add: ScanNearestPlayer_def Let_def ones_env_def rad pos cpos tpos near)
  have far: "fless (f32_of_int 4) (Dist2 (dest_of far_mem 0x9000) (ObjPos far_mem 0x1000))"
    unfolding dest tpos by code_simp
  have neg: "\<not> fless (Fin 0) (f32_of_int (-100))" by code_simp
  obtain m' where m': "ChaseProcess ones_env 0x9000 far_mem =
        (kRunning, [go_there m' 0x9000 (move_engine ones_env ?c)], m')"
      "read_f32 m' 0x9000 kParamOff = f32_of_int (-100)"
    using chase_forgets_its_radius [OF far_creature _ _ scan, simplified] far tpos
    by (force simp: ones_env_def)
  have "ScanNearestPlayer ones_env m' ?c (f32_of_int (-100)) = 0"
    by (simp add: ScanNearestPlayer_def Let_def ones_env_def neg)
  then show ?thesis using m' by auto
qed

text \<open>The clone of a node made from \<open>Stopped\<close> has the parameters of the original, all eight bytes of them,
  although the engine's clone function knows nothing of them.\<close>

theorem clone_keeps_parameters:
  assumes "stopped self m = (c, m1)" "c \<noteq> 0"
    and "mread m1 (self + kParamOff) 8 = mread m (self + kParamOff) 8"
    and "outside (self + kParamOff) 8 c 8"
  shows "\<exists>m2. StoppedCloneInto stopped vtbl self m = (c, m2) \<and> (read_field m2 c 0 :: u64) = vtbl \<and>
     (read_field m2 c kParamOff :: u64) = read_field m self kParamOff"
proof -
  define m' where "m' = write_field m1 c 0 vtbl"
  have p: "(read_field m' self kParamOff :: u64) = read_field m self kParamOff"
    using assms(3,4) mread_write_field [where a = "self + kParamOff" and n = 8 and obj = c and off = 0 and v = vtbl and m = m1] by (simp add: m'_def read_field_def)
  define m2 where "m2 = write_field m' c kParamOff (read_field m' self kParamOff :: u64)"
  have "StoppedCloneInto stopped vtbl self m = (c, m2)"
    using assms(1,2) by (simp add: StoppedCloneInto_def m'_def m2_def Let_def)
  moreover have "(read_field m2 c kParamOff :: u64) = read_field m self kParamOff"
    unfolding m2_def p by (rule read_write_field [where n = 8]) simp_all
  moreover have "(read_field m2 c 0 :: u64) = vtbl"
  proof -
    have "outside 0 (LENGTH(64) div 8) kParamOff (LENGTH(64) div 8)" by (rule outside_before) (simp_all add: kParamOff_def)
    then have "(read_field m2 c 0 :: u64) = read_field m' c 0" unfolding m2_def by (rule read_write_const)
    also have "\<dots> = vtbl" unfolding m'_def by (rule read_write_field [where n = 8]) simp_all
    finally show ?thesis .
  qed
  ultimately show ?thesis by blast
qed

theorem clone_keeps_parameters_witness:
  "\<exists>m2. StoppedCloneInto (\<lambda>self m. (0x2000, m)) 0x7000 0x1000 ones = (0x2000, m2) \<and>
     (read_field m2 0x2000 0 :: u64) = 0x7000 \<and> (read_field m2 0x2000 kParamOff :: u64) = 0x0101010101010101"
  using clone_keeps_parameters [of "\<lambda>self m. (0x2000, m)" "0x1000" ones "0x2000" ones "0x7000"]
  by (simp add: read_ones kParamOff_def outside_before)

end
