(* ===== verification/Ai_Registry.thy ===== *)
theory Ai_Registry
  imports Code_Memory
begin

text \<open>
  Registration of the behaviour nodes, \<open>RegisterUnder\<close>, \<open>TryRegisterCustomNodes\<close> and \<open>LoadBehaviorXml\<close> of
  \<open>source/server/hooks/ai/hook_behavior_node.cpp\<close>. Each class has a table of six functions, copied from the
  table of the engine's template and changed in some slots; a prototype made from the template is pointed at
  the table and handed to the factory under the XML name. The factory is an environment, the addresses of the
  node functions a function of their names; the tables and the registrations are the state.
\<close>

datatype node_class =
    LogNode | Tod | GoToPoint | SetTarget | HasTarget | TargetRange | Cooldown
  | ReturnHome | Chase | Flee | Face | Attack

datatype node_fn = Load node_class | Clone node_class | Process node_class

definition kVtblSlots :: nat where "kVtblSlots = 6"
definition kSlotLoad :: nat where "kSlotLoad = 1"
definition kSlotClone :: nat where "kSlotClone = 2"
definition kSlotProcess :: nat where "kSlotProcess = 3"

text \<open>\<open>create\<close> is the prototype a template yields during a load, or 0 while the template is unknown; \<open>addr\<close> is where a function is.\<close>

record factory_env =
  get_factory :: u64
  create :: "string \<Rightarrow> u64"
  addr :: "node_fn \<Rightarrow> u64"

record registry =
  registered :: bool
  stoppedClone :: u64
  gotoClone :: u64
  vtbl :: "node_class \<Rightarrow> u64 list"
  nodes :: "(string \<times> u64 \<times> node_class) list"

definition no_nodes :: registry where
  "no_nodes = \<lparr>registered = False, stoppedClone = 0, gotoClone = 0, vtbl = \<lambda>_. replicate 6 0, nodes = []\<rparr>"

definition slots :: "mem \<Rightarrow> u64 \<Rightarrow> u64 list" where
  "slots m base = map (\<lambda>i. read_field m base (8 * word_of_nat i)) [0..<kVtblSlots]"

text \<open>A table copied from a base, with the class's own functions in the slots listed.\<close>

definition own_table :: "factory_env \<Rightarrow> u64 list \<Rightarrow> node_class \<Rightarrow> bool \<Rightarrow> registry \<Rightarrow> registry" where
  "own_table env base c loads r =
     (let t = (if loads then base[kSlotLoad := addr env (Load c)] else base)
      in r\<lparr>vtbl := (vtbl r)(c := t[kSlotClone := addr env (Clone c), kSlotProcess := addr env (Process c)])\<rparr>)"

definition RegisterUnder :: "factory_env \<Rightarrow> string \<Rightarrow> string \<Rightarrow> node_class \<Rightarrow> registry \<Rightarrow> bool \<times> registry" where
  "RegisterUnder env templateName xmlName c r =
     (let proto = create env templateName
      in if proto = 0 then (False, r) else (True, r\<lparr>nodes := nodes r @ [(xmlName, proto, c)]\<rparr>))"

text \<open>\<open>ok &= RegisterUnder(...)\<close>: every registration is attempted.\<close>

fun register_all :: "factory_env \<Rightarrow> (string \<times> string \<times> node_class) list \<Rightarrow> registry \<Rightarrow> bool \<times> registry" where
  "register_all env [] r = (True, r)"
| "register_all env ((templateName, xmlName, c) # cs) r =
     (case RegisterUnder env templateName xmlName c r of
        (ok, r) \<Rightarrow> (case register_all env cs r of (ok', r) \<Rightarrow> (ok \<and> ok', r)))"

definition node_classes :: "(string \<times> string \<times> node_class) list" where
  "node_classes =
     [(''Stopped'', ''LifxLogNode'', LogNode),
      (''Stopped'', ''TimeOfDayBetween'', Tod),
      (''Stopped'', ''IsNight'', Tod),
      (''GoToPosition'', ''GoToPoint'', GoToPoint),
      (''Stopped'', ''SetNearestPlayerAsTarget'', SetTarget),
      (''Stopped'', ''HasPlayerTarget'', HasTarget),
      (''Stopped'', ''TargetInRange'', TargetRange),
      (''Stopped'', ''CooldownGate'', Cooldown),
      (''GoToPosition'', ''ReturnToHomePosition'', ReturnHome),
      (''GoToPosition'', ''ChaseTarget'', Chase),
      (''GoToPosition'', ''FleeFromTarget'', Flee),
      (''Stopped'', ''FaceTarget'', Face),
      (''GoToPosition'', ''AttackTarget'', Attack)]"

definition stopped_tables :: "factory_env \<Rightarrow> u64 list \<Rightarrow> registry \<Rightarrow> registry" where
  "stopped_tables env base r = own_table env base Tod True (own_table env base LogNode False r)"

definition perception_tables :: "factory_env \<Rightarrow> u64 list \<Rightarrow> u64 list \<Rightarrow> registry \<Rightarrow> registry" where
  "perception_tables env base gbase r =
     (let r = own_table env gbase GoToPoint True r;
          r = own_table env base SetTarget True r;
          r = own_table env base HasTarget False r;
          r = own_table env base TargetRange True r;
          r = own_table env base Cooldown True r;
          r = own_table env gbase ReturnHome True r;
          r = own_table env gbase Chase True r;
          r = own_table env gbase Flee True r;
          r = own_table env base Face False r
      in own_table env gbase Attack True r)"

definition TryRegisterCustomNodes :: "factory_env \<Rightarrow> mem \<Rightarrow> registry \<Rightarrow> bool \<times> registry" where
  "TryRegisterCustomNodes env m r =
     (let tmpl = create env ''Stopped''
      in if get_factory env = 0 then (False, r)
         else if tmpl = 0 then (False, r)
         else
           let base = slots m (read_field m tmpl 0); r = r\<lparr>stoppedClone := base ! kSlotClone\<rparr>;
               r = stopped_tables env base r;
               gtmpl = create env ''GoToPosition''
           in if gtmpl = 0 then (False, r)
              else
                let gbase = slots m (read_field m gtmpl 0); r = r\<lparr>gotoClone := gbase ! kSlotClone\<rparr>
                in register_all env node_classes (perception_tables env base gbase r))"

text \<open>The hook: registration is retried at each tree load until it succeeds.\<close>

definition LoadBehaviorXml :: "factory_env \<Rightarrow> mem \<Rightarrow> registry \<Rightarrow> registry" where
  "LoadBehaviorXml env m r =
     (if registered r then r
      else case TryRegisterCustomNodes env m r of (ok, r) \<Rightarrow> if ok then r\<lparr>registered := True\<rparr> else r)"

section \<open>What is registered\<close>

fun loads_all :: "(factory_env \<times> mem) list \<Rightarrow> registry \<Rightarrow> registry" where
  "loads_all [] r = r"
| "loads_all ((env, m) # es) r = loads_all es (LoadBehaviorXml env m r)"

lemma register_all_ok:
  assumes "\<forall>(t, x, c) \<in> set cs. create env t \<noteq> 0"
  shows "register_all env cs r = (True, r\<lparr>nodes := nodes r @ map (\<lambda>(t, x, c). (x, create env t, c)) cs\<rparr>)"
  using assms by (induction cs arbitrary: r) (auto simp: RegisterUnder_def Let_def)

lemma node_templates: "(t, x, c) \<in> set node_classes \<Longrightarrow> t = ''Stopped'' \<or> t = ''GoToPosition''"
  by (auto simp: node_classes_def)

lemma own_table_nodes [simp]:
  "nodes (own_table env b c l r) = nodes r" "registered (own_table env b c l r) = registered r"
  by (simp_all add: own_table_def Let_def)

lemma tables_nodes [simp]:
  "nodes (stopped_tables env b r) = nodes r" "registered (stopped_tables env b r) = registered r"
  "nodes (perception_tables env b g r) = nodes r" "registered (perception_tables env b g r) = registered r"
  by (simp_all add: stopped_tables_def perception_tables_def Let_def)

text \<open>Each class runs its own process function and its own clone.\<close>

lemma length_slots [simp]: "length (slots m b) = 6"
  by (simp add: slots_def kVtblSlots_def)

lemma own_functions:
  "length b = 6 \<Longrightarrow> vtbl (own_table env b c l r) c ! kSlotProcess = addr env (Process c)"
  "length b = 6 \<Longrightarrow> vtbl (own_table env b c l r) c ! kSlotClone = addr env (Clone c)"
  "c' \<noteq> c \<Longrightarrow> vtbl (own_table env b c l r) c' = vtbl r c'"
  by (simp_all add: own_table_def Let_def kSlotProcess_def kSlotClone_def kSlotLoad_def)

lemma all_functions:
  assumes "length b = 6" "length g = 6"
  shows "vtbl (perception_tables env b g (stopped_tables env b r\<lparr>gotoClone := k\<rparr>)) c ! kSlotProcess = addr env (Process c)"
    and "vtbl (perception_tables env b g (stopped_tables env b r\<lparr>gotoClone := k\<rparr>)) c ! kSlotClone = addr env (Clone c)"
  by (cases c; simp add: perception_tables_def stopped_tables_def Let_def own_functions assms)+

lemma try_register_complete:
  assumes "get_factory env \<noteq> 0" "create env ''Stopped'' \<noteq> 0" "create env ''GoToPosition'' \<noteq> 0"
  shows "fst (TryRegisterCustomNodes env m r)"
    and "nodes (snd (TryRegisterCustomNodes env m r)) = nodes r @ map (\<lambda>(t, x, c). (x, create env t, c)) node_classes"
    and "vtbl (snd (TryRegisterCustomNodes env m r)) c ! kSlotProcess = addr env (Process c)"
    and "vtbl (snd (TryRegisterCustomNodes env m r)) c ! kSlotClone = addr env (Clone c)"
proof -
  have ok: "\<forall>(t, x, c) \<in> set node_classes. create env t \<noteq> 0" using assms node_templates by blast
  show "fst (TryRegisterCustomNodes env m r)"
    and "nodes (snd (TryRegisterCustomNodes env m r)) = nodes r @ map (\<lambda>(t, x, c). (x, create env t, c)) node_classes"
    and "vtbl (snd (TryRegisterCustomNodes env m r)) c ! kSlotProcess = addr env (Process c)"
    and "vtbl (snd (TryRegisterCustomNodes env m r)) c ! kSlotClone = addr env (Clone c)"
    using assms by (simp_all add: TryRegisterCustomNodes_def Let_def register_all_ok [OF ok] all_functions)
qed

lemma try_register_early:
  assumes "get_factory env = 0 \<or> create env ''Stopped'' = 0 \<or> create env ''GoToPosition'' = 0"
  shows "\<not> fst (TryRegisterCustomNodes env m r)" and "nodes (snd (TryRegisterCustomNodes env m r)) = nodes r"
    and "registered (snd (TryRegisterCustomNodes env m r)) = registered r"
  using assms by (auto simp: TryRegisterCustomNodes_def Let_def)

definition ready :: "factory_env \<Rightarrow> bool" where
  "ready env \<longleftrightarrow> get_factory env \<noteq> 0 \<and> create env ''Stopped'' \<noteq> 0 \<and> create env ''GoToPosition'' \<noteq> 0"

lemma load_latched: "registered r \<Longrightarrow> loads_all es r = r"
  by (induction es) (auto simp: LoadBehaviorXml_def)

lemma load_step:
  assumes "\<not> registered r"
  shows "ready env \<Longrightarrow> registered (LoadBehaviorXml env m r)"
    and "ready env \<Longrightarrow> nodes (LoadBehaviorXml env m r) = nodes r @ map (\<lambda>(t, x, c). (x, create env t, c)) node_classes"
    and "\<not> ready env \<Longrightarrow> \<not> registered (LoadBehaviorXml env m r)"
    and "\<not> ready env \<Longrightarrow> nodes (LoadBehaviorXml env m r) = nodes r"
  using assms try_register_complete [of env m r] try_register_early [of env m r]
  by (auto simp: LoadBehaviorXml_def ready_def split: prod.splits)

section \<open>Properties\<close>

text \<open>However the tree loads and the start of the built-in nodes interleave, every XML name is registered
  exactly once, and only from the first load at which the engine's templates exist: until then nothing is
  registered, from then on the thirteen names are, and later loads change nothing.\<close>

theorem nodes_are_registered_once:
  "map fst (nodes (loads_all es no_nodes)) =
     (if \<exists>e \<in> set es. ready (fst e) then map (\<lambda>(t, x, c). x) node_classes else [])"
proof -
  have "map fst (nodes (loads_all es r)) = (if \<exists>e \<in> set es. ready (fst e) then map (\<lambda>(t, x, c). x) node_classes else [])"
    if "\<not> registered r" "nodes r = []" for r
    using that
  proof (induction es arbitrary: r)
    case (Cons e es)
    obtain env m where e: "e = (env, m)" by (cases e)
    show ?case
    proof (cases "ready env")
      case True
      then show ?thesis using load_step(1,2) [OF Cons.prems(1) True, of m] Cons.prems(2)
        by (simp add: e load_latched case_prod_unfold comp_def)
    next
      case False
      have "map fst (nodes (loads_all es (LoadBehaviorXml env m r))) =
          (if \<exists>e \<in> set es. ready (fst e) then map (\<lambda>(t, x, c). x) node_classes else [])"
        by (rule Cons.IH) (use load_step(3,4) [OF Cons.prems(1) False, of m] Cons.prems(2) in simp_all)
      then show ?thesis using False by (simp add: e)
    qed
  qed simp
  then show ?thesis by (simp add: no_nodes_def)
qed

text \<open>After a registration that succeeds, each of the twelve node classes has its own process function
  and its own clone function in its table, and every XML name is bound to a prototype made from the template of
  its class.\<close>

theorem registered_nodes_run_own_code:
  assumes "\<not> registered r" "registered (LoadBehaviorXml env m r)"
  shows "vtbl (LoadBehaviorXml env m r) c ! kSlotProcess = addr env (Process c) \<and>
     vtbl (LoadBehaviorXml env m r) c ! kSlotClone = addr env (Clone c) \<and>
     nodes (LoadBehaviorXml env m r) = nodes r @ map (\<lambda>(t, x, c). (x, create env t, c)) node_classes"
proof -
  have ready: "ready env" using load_step(3) [OF assms(1)] assms(2) by blast
  then have "LoadBehaviorXml env m r = (snd (TryRegisterCustomNodes env m r))\<lparr>registered := True\<rparr>"
    using try_register_complete(1) [of env m r] assms(1)
    by (auto simp: LoadBehaviorXml_def ready_def split: prod.splits)
  then show ?thesis using try_register_complete [of env m r] ready by (simp add: ready_def)
qed

theorem registered_nodes_run_own_code_witness:
  "\<exists>env. let r = LoadBehaviorXml env (\<lambda>_. 0) no_nodes in
     vtbl r Chase ! kSlotProcess = addr env (Process Chase) \<and> length (nodes r) = 13"
proof -
  define env where "env = \<lparr>get_factory = 1, create = \<lambda>_. 0x1000, addr = \<lambda>_. 0x2000\<rparr>"
  have "ready env" by (simp add: ready_def env_def)
  moreover have n: "\<not> registered no_nodes" by (simp add: no_nodes_def)
  ultimately have "registered (LoadBehaviorXml env (\<lambda>_. 0) no_nodes)" by (rule load_step(1) [rotated])
  from registered_nodes_run_own_code [OF n this, of Chase] show ?thesis
    by (intro exI [of _ env]) (simp add: Let_def no_nodes_def node_classes_def)
qed

end
