(* ===== verification/Sector_Claims.thy ===== *)
theory Sector_Claims
  imports Script_Args "HOL-Library.Monad_Syntax"
begin

text \<open>
  The list of sectors a server claims, parsed at the end of \<open>Server::AttachHooks\<close>
  (\<open>source/server/cm_server.cpp\<close>) from text such as \<open>442-450, 500\<close>: segments between commas, each a number or a
  range, blanks around them ignored, a segment that does not parse skipped with a warning. The numbers are
  read by \<open>std::stoul\<close>, which throws when there is no number and when it does not fit 32 bits. The loop
  over a range counts an unsigned 32-bit variable up to its end, so that it is a partial function.
\<close>

section \<open>The parser\<close>

text \<open>\<open>std::stoul\<close> in base 10; an exception is \<open>None\<close>.\<close>

definition stoul :: "string \<Rightarrow> u32 option" where
  "stoul s =
     (let (neg, t) = strtoul_sign (dropWhile c_space s); ds = takeWhile (\<lambda>c. digit_in_base c < 10) t;
          v = foldl (\<lambda>a c. a * 10 + int (digit_in_base c)) 0 ds
      in if ds = [] \<or> 0xFFFFFFFF < v then None else Some (if neg then - word_of_int v else word_of_int v))"

definition claim_blank :: "char \<Rightarrow> bool" where
  "claim_blank c \<longleftrightarrow> c = CHR '' '' \<or> c = CHR 0x09"

definition trim_end :: "string \<Rightarrow> string" where
  "trim_end s = rev (dropWhile claim_blank (rev s))"

text \<open>\<open>for (k = lo; k <= hi; ++k) push_back(k)\<close>\<close>

partial_function (option) range_ids :: "u32 \<Rightarrow> u32 \<Rightarrow> u32 list option" where
  "range_ids k hi = (if k \<le> hi then do { r \<leftarrow> range_ids (k + 1) hi; Some (k # r) } else Some [])"

lemmas [code] = range_ids.simps

datatype segment = Ids "u32 list" | Suspicious | Malformed

text \<open>One segment; a range that does not end is \<open>None\<close>.\<close>

definition parse_segment :: "string \<Rightarrow> segment option" where
  "parse_segment seg =
     (let pre = takeWhile (\<lambda>c. c \<noteq> CHR ''-'') seg
      in if pre = seg
         then (case stoul seg of Some v \<Rightarrow> Some (Ids [v]) | None \<Rightarrow> Some Malformed)
         else
           case stoul pre of
             None \<Rightarrow> Some Malformed
           | Some lo \<Rightarrow>
               (case stoul (drop (Suc (length pre)) seg) of
                  None \<Rightarrow> Some Malformed
                | Some hi \<Rightarrow>
                    if hi < lo \<or> 1000 < hi - lo then Some Suspicious else map_option Ids (range_ids lo hi)))"

fun ids_of :: "segment \<Rightarrow> u32 list" where
  "ids_of (Ids xs) = xs"
| "ids_of _ = []"

definition claim_skip :: "char \<Rightarrow> bool" where
  "claim_skip c \<longleftrightarrow> claim_blank c \<or> c = CHR '',''"

lemma skip_shorter:
  "dropWhile claim_skip s = c # cs \<Longrightarrow> length (dropWhile (\<lambda>c. c \<noteq> CHR '','') (c # cs)) < length s"
proof -
  assume d: "dropWhile claim_skip s = c # cs"
  then have "\<not> claim_skip c" by (metis hd_dropWhile list.distinct(1) list.sel(1))
  then have "c \<noteq> CHR '',''" by (auto simp: claim_skip_def)
  then have "length (dropWhile (\<lambda>c. c \<noteq> CHR '','') (c # cs)) \<le> length cs" by (simp add: length_dropWhile_le)
  also have "length cs < length (dropWhile claim_skip s)" by (simp add: d)
  also have "\<dots> \<le> length s" by (rule length_dropWhile_le)
  finally show ?thesis .
qed

function claims_loop :: "string \<Rightarrow> segment list option" where
  "claims_loop s =
     (case dropWhile claim_skip s of
        [] \<Rightarrow> Some []
      | c # cs \<Rightarrow>
          do { p \<leftarrow> parse_segment (trim_end (takeWhile (\<lambda>c. c \<noteq> CHR '','') (c # cs)));
               r \<leftarrow> claims_loop (dropWhile (\<lambda>c. c \<noteq> CHR '','') (c # cs));
               Some (p # r) })"
  by pat_completeness auto
termination
  by (relation "measure length") (use skip_shorter in auto)

declare claims_loop.simps [simp del]

text \<open>What the dispatcher is given.\<close>

definition sector_claims :: "string \<Rightarrow> u32 list option" where
  "sector_claims s = map_option (\<lambda>ps. concat (map ids_of ps)) (claims_loop s)"

section \<open>Ranges\<close>

lemma range_ids_Some:
  "hi \<noteq> - 1 \<Longrightarrow> range_ids k hi = Some (map word_of_nat [unat k..<Suc (unat hi)])"
proof (induction "Suc (unat hi) - unat k" arbitrary: k)
  case 0
  then have "\<not> k \<le> hi" by (simp add: word_le_nat_alt)
  then show ?case using 0 by (subst range_ids.simps) simp
next
  case (Suc n)
  then have le: "k \<le> hi" by (simp add: word_le_nat_alt)
  have "k \<noteq> - 1" using le Suc.prems by (metis antisym word_n1_ge)
  then have "unat (k + 1) = Suc (unat k)" using unatSuc [of k] by (metis add.commute add_eq_0_iff)
  moreover from this have "n = Suc (unat hi) - unat (k + 1)" using Suc.hyps(2) by simp
  ultimately have "range_ids (k + 1) hi = Some (map word_of_nat [Suc (unat k)..<Suc (unat hi)])"
    using Suc.hyps(1) Suc.prems by metis
  then show ?case using le by (subst range_ids.simps) (simp add: word_le_nat_alt upt_conv_Cons del: upt_Suc)
qed

lemma range_ids_last: "range_ids k (- 1) = None"
proof (rule ccontr)
  assume "range_ids k (- 1) \<noteq> None"
  then obtain r where "range_ids k (- 1) = Some r" by blast
  moreover have "n < length r" if "range_ids k (- 1) = Some r" for n k r
    using that
  proof (induction n arbitrary: k r)
    case (Suc n)
    from Suc.prems obtain r' where "range_ids (k + 1) (- 1) = Some r'" "r = k # r'"
      by (subst (asm) range_ids.simps) (auto simp: word_n1_ge bind_eq_Some_conv)
    then show ?case using Suc.IH by simp
  qed (subst (asm) range_ids.simps, auto simp: word_n1_ge bind_eq_Some_conv)
  ultimately show False by blast
qed


section \<open>Segments\<close>

text \<open>The segments of a text: what lies between commas, without blanks around it, unless nothing is left.\<close>

fun split_commas :: "string \<Rightarrow> string list" where
  "split_commas [] = [[]]"
| "split_commas (c # cs) =
     (if c = CHR '','' then [] # split_commas cs
      else case split_commas cs of [] \<Rightarrow> [[c]] | s # ss \<Rightarrow> (c # s) # ss)"

definition segments :: "string \<Rightarrow> string list" where
  "segments s = filter (\<lambda>x. x \<noteq> []) (map (\<lambda>x. trim_end (dropWhile claim_blank x)) (split_commas s))"

text \<open>All results, or none when one is missing.\<close>

fun all_some :: "'a option list \<Rightarrow> 'a list option" where
  "all_some [] = Some []"
| "all_some (x # xs) = do { a \<leftarrow> x; r \<leftarrow> all_some xs; Some (a # r) }"

lemma split_commas_nonempty [simp]: "split_commas s \<noteq> []"
  by (induction s) (auto split: list.splits)

lemma split_commas_takeWhile:
  "split_commas s = takeWhile (\<lambda>c. c \<noteq> CHR '','') s #
     (case dropWhile (\<lambda>c. c \<noteq> CHR '','') s of [] \<Rightarrow> [] | _ # r \<Rightarrow> split_commas r)"
  by (induction s) (auto split: list.splits)

lemma trim_end_empty [simp]: "trim_end [] = []"
  by (simp add: trim_end_def)

lemma trim_end_nonempty: "\<not> claim_blank c \<Longrightarrow> trim_end (c # cs) \<noteq> []"
  by (auto simp: trim_end_def)

lemma segments_skip: "claim_skip c \<Longrightarrow> segments (c # s) = segments s"
  by (cases "split_commas s") (auto simp: segments_def claim_skip_def claim_blank_def)

lemma segments_dropWhile: "segments (dropWhile claim_skip s) = segments s"
  by (induction s) (simp_all add: segments_skip)

lemma segments_step:
  assumes "\<not> claim_skip c"
  shows "segments (c # cs) = trim_end (takeWhile (\<lambda>c. c \<noteq> CHR '','') (c # cs)) #
     segments (dropWhile (\<lambda>c. c \<noteq> CHR '','') (c # cs))"
proof -
  have c: "\<not> claim_blank c" "c \<noteq> CHR '',''" using assms by (auto simp: claim_skip_def)
  let ?rest = "dropWhile (\<lambda>c. c \<noteq> CHR '','') (c # cs)"
  have rest: "segments ?rest =
      filter (\<lambda>x. x \<noteq> []) (map (\<lambda>x. trim_end (dropWhile claim_blank x))
        (case ?rest of [] \<Rightarrow> [] | _ # r \<Rightarrow> split_commas r))"
  proof (cases ?rest)
    case (Cons a r)
    then have "a = CHR '',''" using hd_dropWhile [of "\<lambda>c. c \<noteq> CHR '',''" "c # cs"] by auto
    then show ?thesis using Cons by (simp add: segments_def)
  qed (simp add: segments_def)
  have t: "dropWhile claim_blank (takeWhile (\<lambda>c. c \<noteq> CHR '','') (c # cs)) = takeWhile (\<lambda>c. c \<noteq> CHR '','') (c # cs)"
    "trim_end (takeWhile (\<lambda>c. c \<noteq> CHR '','') (c # cs)) \<noteq> []"
    using c trim_end_nonempty [OF c(1)] by simp_all
  show ?thesis unfolding rest segments_def [of "c # cs"] split_commas_takeWhile [of "c # cs"]
    by (simp only: list.map t filter.simps not_False_eq_True simp_thms if_True)
qed

lemma claims_loop_segments: "claims_loop s = all_some (map parse_segment (segments s))"
proof (induction s rule: claims_loop.induct)
  case (1 s)
  show ?case
  proof (cases "dropWhile claim_skip s")
    case Nil
    have "segments [] = []" by (simp add: segments_def)
    then have "segments s = []" using segments_dropWhile [of s] by (simp only: Nil)
    then show ?thesis unfolding claims_loop.simps [of s] Nil by simp
  next
    case (Cons c cs)
    have c: "\<not> claim_skip c" using Cons by (metis hd_dropWhile list.distinct(1) list.sel(1))
    have seg: "segments s = segments (c # cs)" using segments_dropWhile [of s] by (simp only: Cons)
    show ?thesis
    proof (cases "parse_segment (trim_end (takeWhile (\<lambda>c. c \<noteq> CHR '','') (c # cs)))")
      case None
      then show ?thesis unfolding seg segments_step [OF c] claims_loop.simps [of s] Cons by simp
    next
      case (Some p)
      then show ?thesis
        using 1 [OF Cons Some] unfolding seg segments_step [OF c] claims_loop.simps [of s] Cons by simp
    qed
  qed
qed

lemma all_some_None: "all_some xs = None \<longleftrightarrow> None \<in> set xs"
  by (induction xs) (auto split: bind_splits)

lemma all_some_Some: "all_some (map Some xs) = Some xs"
  by (induction xs) simp_all

section \<open>Numbers and their text\<close>

lemma stoul_digits: "n < 2 ^ 32 \<Longrightarrow> stoul (dec n) = Some (word_of_nat n)"
  using sign_of_digits [of n "[]"] by (simp add: stoul_def decimal_takeWhile decimal_value Let_def)

lemma stoul_fmt: "stoul (fmt_u (w :: u32)) = Some w"
  using unat_u32_bound [of w] by (simp add: fmt_u_def stoul_digits)

definition claim_text :: "u32 \<times> u32 \<Rightarrow> string" where
  "claim_text r = (if fst r = snd r then fmt_u (fst r) else fmt_u (fst r) @ ''-'' @ fmt_u (snd r))"

fun claims_text :: "(u32 \<times> u32) list \<Rightarrow> string" where
  "claims_text [] = []"
| "claims_text [r] = claim_text r"
| "claims_text (r # rs) = claim_text r @ '','' @ claims_text rs"

lemma fmt_u_chars: "c \<in> set (fmt_u (w :: u32)) \<Longrightarrow> is_digit c"
  using dec_digits by (auto simp: fmt_u_def list_all_iff)

lemma digit_plain: "is_digit c \<Longrightarrow> c \<noteq> CHR '','' \<and> c \<noteq> CHR ''-'' \<and> \<not> claim_blank c"
  by (auto simp: is_digit_def claim_blank_def)

lemma claim_text_chars: "c \<in> set (claim_text r) \<Longrightarrow> c \<noteq> CHR '','' \<and> \<not> claim_blank c"
  using fmt_u_chars digit_plain by (fastforce simp: claim_text_def claim_blank_def split: if_splits)

lemma claim_text_nonempty [simp]: "claim_text r \<noteq> []"
  by (simp add: claim_text_def fmt_u_def dec_nonempty)

lemma trim_plain:
  assumes "\<forall>c \<in> set s. \<not> claim_blank c"
  shows "trim_end (dropWhile claim_blank s) = s"
proof -
  have d: "dropWhile claim_blank t = t" if "\<forall>c \<in> set t. \<not> claim_blank c" for t
    using that by (cases t) simp_all
  show ?thesis using d [of s] d [of "rev s"] assms by (simp add: trim_end_def)
qed

lemma split_commas_append:
  "CHR '','' \<notin> set x \<Longrightarrow> split_commas (x @ '','' @ s) = x # split_commas s"
  by (induction x) auto

lemma split_commas_plain: "CHR '','' \<notin> set x \<Longrightarrow> split_commas x = [x]"
  by (induction x) auto

lemma segments_claims: "segments (claims_text rs) = map claim_text rs"
proof (induction rs rule: claims_text.induct)
  case (2 r)
  have "CHR '','' \<notin> set (claim_text r)" using claim_text_chars by blast
  then show ?case using trim_plain [of "claim_text r"] claim_text_chars [of _ r]
    by (simp add: segments_def split_commas_plain)
next
  case (3 r r' rs)
  have "CHR '','' \<notin> set (claim_text r)" using claim_text_chars by blast
  then have "split_commas (claims_text (r # r' # rs)) = claim_text r # split_commas (claims_text (r' # rs))"
    using split_commas_append [of "claim_text r"] by simp
  then show ?case using trim_plain [of "claim_text r"] claim_text_chars [of _ r] 3
    by (simp add: segments_def)
qed (simp add: segments_def)

lemma parse_claim_text:
  assumes "fst r \<le> snd r" "snd r - fst r \<le> 1000" "snd r \<noteq> - 1"
  shows "parse_segment (claim_text r) = Some (Ids (map word_of_nat [unat (fst r)..<Suc (unat (snd r))]))"
proof (cases "fst r = snd r")
  case True
  have "takeWhile (\<lambda>c. c \<noteq> CHR ''-'') (fmt_u (fst r)) = fmt_u (fst r)"
    using fmt_u_chars digit_plain by (auto simp: takeWhile_eq_all_conv)
  then show ?thesis using True by (simp add: parse_segment_def claim_text_def stoul_fmt)
next
  case False
  have pre: "takeWhile (\<lambda>c. c \<noteq> CHR ''-'') (fmt_u (fst r) @ ''-'' @ fmt_u (snd r)) = fmt_u (fst r)"
    using fmt_u_chars digit_plain by (subst takeWhile_append2) auto
  show ?thesis
    using False assms unfolding parse_segment_def claim_text_def
    by (simp add: pre [simplified] stoul_fmt range_ids_Some not_less not_le leD del: upt_Suc)
qed

section \<open>Properties\<close>

text \<open>The parser is the parser of one segment applied to every segment of the text, in order: the claimed
  sectors are those of the segments that parse, and the parser returns exactly when the loop over the range of
  every segment ends.\<close>

theorem claims_are_parsed_by_segment:
  "sector_claims s = map_option (\<lambda>ps. concat (map ids_of ps)) (all_some (map parse_segment (segments s)))"
  by (simp add: sector_claims_def claims_loop_segments)

text \<open>C10: Numbers and ranges written in decimal and joined by commas are claimed exactly, range by range and in
  order, as long as no range is longer than 1001 sectors or ends at the largest number.\<close>

theorem written_claims_are_claimed:
  assumes "\<forall>r \<in> set rs. fst r \<le> snd r \<and> snd r - fst r \<le> 1000 \<and> snd r \<noteq> - 1"
  shows "sector_claims (claims_text rs) =
     Some (concat (map (\<lambda>r. map word_of_nat [unat (fst r)..<Suc (unat (snd r))]) rs))"
proof -
  have "map parse_segment (segments (claims_text rs)) =
      map Some (map (\<lambda>r. Ids (map word_of_nat [unat (fst r)..<Suc (unat (snd r))])) rs)"
    using assms parse_claim_text by (simp add: segments_claims)
  then show ?thesis unfolding sector_claims_def claims_loop_segments by (simp only: all_some_Some) (simp add: comp_def del: upt_Suc)
qed

theorem written_claims_are_claimed_witness:
  "sector_claims ''442-444,500'' = Some [442, 443, 444, 500]"
proof -
  have "claims_text [(442, 444), (500, 500)] = ''442-444,500''" by code_simp
  then show ?thesis using written_claims_are_claimed [of "[(442, 444), (500, 500)]"] by (simp add: upt_rec)
qed

text \<open>A range that ends at the largest 32-bit number never ends: the counter wraps around to zero and the
  parser does not return, whatever else the text claims. Such a range passes the check on its length.\<close>

theorem claim_of_last_sector_hangs:
  assumes "claim_text (lo, - 1) \<in> set (segments s)" and "lo \<noteq> - 1" "- 1 - lo \<le> 1000"
  shows "sector_claims s = None"
proof -
  have pre: "takeWhile (\<lambda>c. c \<noteq> CHR ''-'') (fmt_u lo @ ''-'' @ fmt_u (- 1 :: u32)) = fmt_u lo"
    using fmt_u_chars digit_plain by (subst takeWhile_append2) auto
  have "parse_segment (claim_text (lo, - 1)) = None"
    using assms(2,3) unfolding parse_segment_def claim_text_def
    by (simp add: pre [simplified] stoul_fmt range_ids_last not_less word_n1_ge)
  then have "None \<in> set (map parse_segment (segments s))" using assms(1) by (metis imageI list.set_map)
  then show ?thesis by (simp add: sector_claims_def claims_loop_segments all_some_None)
qed

theorem claim_of_last_sector_hangs_witness:
  "sector_claims (claims_text [(442, 442), (4294967290, - 1)]) = None"
proof (rule claim_of_last_sector_hangs)
  show "claim_text (4294967290, - 1) \<in> set (segments (claims_text [(442, 442), (4294967290, - 1)]))"
    by (simp add: segments_claims del: claims_text.simps)
qed simp_all

end
