(* ===== verification/Server_Startup.thy ===== *)
theory Server_Startup
  imports World_Grid Sector_Claims Float_Text Code_Memory
begin

text \<open>
  Start-up and shut-down of the server library, \<open>source/server/cm_server.{h,cpp}\<close>, \<open>hooks_engine.cpp\<close> and
  \<open>dllmain.cpp\<close>: the configuration file, the grids read from it, and the hooks attached and detached. The XML
  parser is vendored: what it answers about elements and attributes is an argument. The detour library is
  third-party code: it is an argument too, with its documented transactions as a hypothesis.
\<close>

section \<open>The configuration\<close>

record server_config =
  WorldID :: u32
  DispatcherWorldID :: u32
  MaxPlayers :: u32
  LogLevel :: u8
  SkipConsoleSQLLogging :: bool
  UseExternalErrorLog :: bool
  UseExternalSQLLog :: bool
  DumpNetClassRep :: bool
  RegisterSectorHandoff :: bool
  SectorHandoffAutoPost :: bool
  SectorHandoffTargetPeer :: string
  SectorHandoffReceiveLog :: bool
  SectorHandoffInjectOnReceive :: bool
  DispatcherEnabled :: bool
  DispatcherHost :: string
  DispatcherPort :: u16
  SectorClaims :: string

definition default_config :: server_config where
  "default_config =
     \<lparr>WorldID = 1, DispatcherWorldID = 0, MaxPlayers = 64, LogLevel = 0, SkipConsoleSQLLogging = False,
      UseExternalErrorLog = False, UseExternalSQLLog = False, DumpNetClassRep = False, RegisterSectorHandoff = False,
      SectorHandoffAutoPost = False, SectorHandoffTargetPeer = '''', SectorHandoffReceiveLog = False,
      SectorHandoffInjectOnReceive = False, DispatcherEnabled = False, DispatcherHost = ''127.0.0.1'',
      DispatcherPort = 7400, SectorClaims = ''''\<rparr>"

text \<open>What the parser answers about the text of an element.\<close>

record xml_el =
  q_int :: "int option"
  q_bool :: "bool option"
  q_text :: "string option"

definition IntText :: "int \<Rightarrow> xml_el \<Rightarrow> int" where
  "IntText preset e = (case q_int e of Some v \<Rightarrow> v | None \<Rightarrow> preset)"

definition BoolText :: "xml_el \<Rightarrow> bool" where
  "BoolText e = (case q_bool e of Some v \<Rightarrow> v | None \<Rightarrow> False)"

type_synonym xml_root = "string \<Rightarrow> xml_el option"

text \<open>An element found sets a field; a flag may be written under either of two names.\<close>

definition when_el :: "xml_root \<Rightarrow> string \<Rightarrow> (xml_el \<Rightarrow> server_config \<Rightarrow> server_config) \<Rightarrow> server_config \<Rightarrow> server_config" where
  "when_el root name f c = (case root name of None \<Rightarrow> c | Some e \<Rightarrow> f e c)"

definition when_either ::
  "xml_root \<Rightarrow> string \<Rightarrow> string \<Rightarrow> (xml_el \<Rightarrow> server_config \<Rightarrow> server_config) \<Rightarrow> server_config \<Rightarrow> server_config" where
  "when_either root name alias f c =
     (case root name of Some e \<Rightarrow> f e c | None \<Rightarrow> (case root alias of Some e \<Rightarrow> f e c | None \<Rightarrow> c))"

definition world_ids :: "xml_root \<Rightarrow> server_config \<Rightarrow> server_config" where
  "world_ids root c =
     (let c = when_el root ''worldID''
                (\<lambda>e c. let v = IntText 0 e in if 0 < v then c\<lparr>WorldID := word_of_int v\<rparr> else c) c;
          c = when_el root ''dispatcherWorldID''
                (\<lambda>e c. let v = IntText 0 e in if 0 < v then c\<lparr>DispatcherWorldID := word_of_int v\<rparr> else c) c
      in if DispatcherWorldID c = 0 then c\<lparr>DispatcherWorldID := WorldID c\<rparr> else c)"

definition handoff_flags :: "xml_root \<Rightarrow> server_config \<Rightarrow> server_config" where
  "handoff_flags root c =
     (let c = when_el root ''dumpNetClassRep'' (\<lambda>e c. c\<lparr>DumpNetClassRep := BoolText e\<rparr>) c;
          c = when_either root ''registerSectorHandoff'' ''RegisterSectorHandoff''
                (\<lambda>e c. c\<lparr>RegisterSectorHandoff := BoolText e\<rparr>) c;
          c = when_either root ''sectorHandoffAutoPost'' ''SectorHandoffAutoPost''
                (\<lambda>e c. c\<lparr>SectorHandoffAutoPost := BoolText e\<rparr>) c;
          c = when_el root ''sectorHandoffTargetPeer''
                (\<lambda>e c. case q_text e of None \<Rightarrow> c | Some t \<Rightarrow> if t = [] then c else c\<lparr>SectorHandoffTargetPeer := t\<rparr>) c;
          c = when_el root ''sectorHandoffReceiveLog'' (\<lambda>e c. c\<lparr>SectorHandoffReceiveLog := BoolText e\<rparr>) c
      in when_el root ''sectorHandoffInjectOnReceive'' (\<lambda>e c. c\<lparr>SectorHandoffInjectOnReceive := BoolText e\<rparr>) c)"

definition dispatcher_fields :: "xml_root \<Rightarrow> server_config \<Rightarrow> server_config" where
  "dispatcher_fields root c =
     (let c = when_el root ''dispatcherEnabled'' (\<lambda>e c. c\<lparr>DispatcherEnabled := BoolText e\<rparr>) c;
          c = when_el root ''dispatcherHost''
                (\<lambda>e c. case q_text e of None \<Rightarrow> c | Some t \<Rightarrow> if t = [] then c else c\<lparr>DispatcherHost := t\<rparr>) c;
          c = when_el root ''dispatcherPort''
                (\<lambda>e c. let p = IntText 0 e in if 0 < p \<and> p < 65536 then c\<lparr>DispatcherPort := word_of_int p\<rparr> else c) c
      in when_el root ''sectorClaims''
           (\<lambda>e c. case q_text e of None \<Rightarrow> c | Some t \<Rightarrow> c\<lparr>SectorClaims := t\<rparr>) c)"

text \<open>The logger's element and its children are not checked for presence: without one of them the code reads
  through a null pointer, and there is no configuration.\<close>

definition log_fields :: "xml_root option \<Rightarrow> server_config \<Rightarrow> server_config option" where
  "log_fields log c =
     do { children \<leftarrow> log;
          level \<leftarrow> children ''level'';
          skip \<leftarrow> children ''skipSQLQueriesLog'';
          err \<leftarrow> children ''enableExternalErrorLog'';
          sql \<leftarrow> children ''enableExternalSqlLog'';
          Some (c\<lparr>LogLevel := word_of_int (IntText 0 level), SkipConsoleSQLLogging := BoolText skip,
                  UseExternalErrorLog := BoolText err, UseExternalSQLLog := BoolText sql\<rparr>) }"

text \<open>The fields \<open>Server::Init\<close> fills; the resurrection duration, when it is given, with them.\<close>

definition Init_config :: "xml_root \<Rightarrow> xml_root option \<Rightarrow> (server_config \<times> u32 option) option" where
  "Init_config root log =
     map_option (\<lambda>c. (dispatcher_fields root (handoff_flags root (world_ids root c)),
                      map_option (\<lambda>e. word_of_int (IntText 0 e)) (root ''resurrectionDurationMs'')))
       (log_fields log default_config)"

section \<open>The grids\<close>

text \<open>Scanning with \<open>%u\<close> and \<open>%f\<close>: what was read, if anything, and the rest.\<close>

definition scan_u :: "string \<Rightarrow> (u32 \<times> string) option" where
  "scan_u s =
     (let (neg, t) = strtoul_sign (dropWhile c_space s)
      in if takeWhile is_digit t = [] then None else Some (strtoul_value neg 10 t, dropWhile is_digit t))"

definition scan_f :: "string \<Rightarrow> (f32 \<times> string) option" where
  "scan_f s = (case strtof s of (x, r) \<Rightarrow> if r = s then None else Some (x, r))"

definition scan_grid_size :: "string \<Rightarrow> u32 \<times> u32" where
  "scan_grid_size s =
     (case scan_u s of
        None \<Rightarrow> (0, 0)
      | Some (c, r) \<Rightarrow>
          (if prefix ''x'' r then (c, case scan_u (drop 1 r) of None \<Rightarrow> 0 | Some (n, _) \<Rightarrow> n) else (c, 0)))"

definition scan_origin :: "string \<Rightarrow> f32 \<times> f32" where
  "scan_origin s =
     (case scan_f s of
        None \<Rightarrow> (Fin 0, Fin 0)
      | Some (x, r) \<Rightarrow>
          (if prefix '','' r then (x, case scan_f (drop 1 r) of None \<Rightarrow> Fin 0 | Some (y, _) \<Rightarrow> y) else (x, Fin 0)))"

record grid_el =
  at_origin :: "string option"
  at_cellSize :: "f32 attr"
  at_firstSector :: "u32 attr"
  at_gridSize :: "string option"
  at_direction :: "string option"
  at_peerHost :: "string option"
  at_peerPort :: "u32 attr"

definition attr_or :: "'a \<Rightarrow> 'a attr \<Rightarrow> 'a" where
  "attr_or preset a = (case a of Value v \<Rightarrow> v | _ \<Rightarrow> preset)"

definition parseGrid :: "grid_el option \<Rightarrow> grid_spec \<Rightarrow> bool \<times> grid_spec" where
  "parseGrid el g =
     (case el of
        None \<Rightarrow> (False, g)
      | Some e \<Rightarrow>
          let (ox, oy) = (case at_origin e of None \<Rightarrow> (Fin 0, Fin 0) | Some s \<Rightarrow> scan_origin s);
              (nc, nr) = (case at_gridSize e of None \<Rightarrow> (0, 0) | Some s \<Rightarrow> scan_grid_size s);
              g = g\<lparr>originX := ox, originY := oy, cellSize := attr_or (Fin 0) (at_cellSize e),
                    firstSector := attr_or 0 (at_firstSector e), cols := nc, rows := nr\<rparr>
          in (fless (Fin 0) (cellSize g) \<and> 0 < cols g \<and> 0 < rows g \<and> 0 < firstSector g, g))"

definition parse_direction :: "string \<Rightarrow> direction option" where
  "parse_direction s =
     (case s of
        [] \<Rightarrow> None
      | c # _ \<Rightarrow>
          if c = CHR ''n'' \<or> c = CHR ''N'' then Some North
          else if c = CHR ''s'' \<or> c = CHR ''S'' then Some South
          else if c = CHR ''e'' \<or> c = CHR ''E'' then Some East
          else if c = CHR ''w'' \<or> c = CHR ''W'' then Some West
          else None)"

definition parse_neighbour :: "grid_el \<Rightarrow> neighbour option" where
  "parse_neighbour e =
     (case parseGrid (Some e) no_grid of
        (ok, g) \<Rightarrow>
          if \<not> ok then None
          else
            do { dir_text \<leftarrow> at_direction e;
                 dir \<leftarrow> parse_direction dir_text;
                 Some \<lparr>nb_dir = dir, nb_grid = g,
                       peerHost = (case at_peerHost e of None \<Rightarrow> '''' | Some h \<Rightarrow> h),
                       peerPort = ucast (attr_or 0 (at_peerPort e))\<rparr> })"

text \<open>Own grid and neighbours, handed to the grid module; that the own grid does not parse is not looked at.\<close>

definition configure_world :: "grid_el option \<Rightarrow> grid_el list \<Rightarrow> world_grid \<Rightarrow> world_grid" where
  "configure_world worldGrid worldNeighbours w =
     Configure (snd (parseGrid worldGrid no_grid)) (List.map_filter parse_neighbour worldNeighbours) w"

section \<open>The dispatcher\<close>

record dispatcher_config =
  dc_host :: string
  dc_port :: u16
  dc_world_id :: u32
  dc_claims :: "u32 list"

text \<open>At the end of \<open>Server::AttachHooks\<close>: nothing when the dispatcher is disabled, otherwise its configuration and
  whether a delivery callback logs or injects; the whole is \<open>None\<close> when the parsing of the claims does not end.\<close>

definition start_dispatcher :: "server_config \<Rightarrow> (dispatcher_config \<times> (bool \<times> bool) option) option option" where
  "start_dispatcher c =
     (if \<not> DispatcherEnabled c then Some None
      else
        do { ids \<leftarrow> sector_claims (SectorClaims c);
             Some (Some
               (\<lparr>dc_host = DispatcherHost c, dc_port = DispatcherPort c, dc_world_id = DispatcherWorldID c, dc_claims = ids\<rparr>,
                if SectorHandoffReceiveLog c \<or> SectorHandoffInjectOnReceive c
                then Some (SectorHandoffReceiveLog c, SectorHandoffInjectOnReceive c) else None)) })"

section \<open>Sizes of grids\<close>

lemma strtoul_value_digits:
  "strtoul_value False 10 (fmt_u (w :: u32)) = w"
  "\<not> is_digit c \<Longrightarrow> strtoul_value False 10 (fmt_u (w :: u32) @ c # r) = w"
proof -
  have "\<not> 0xFFFFFFFF < uint w" using uint_bounded [of w] by simp
  then show "strtoul_value False 10 (fmt_u w) = w"
    and "\<not> is_digit c \<Longrightarrow> strtoul_value False 10 (fmt_u w @ c # r) = w"
    by (simp_all add: strtoul_value_def fmt_u_def decimal_takeWhile decimal_value Let_def)
qed

lemma scan_u_digits:
  "scan_u (fmt_u (w :: u32)) = Some (w, [])"
  "\<not> is_digit c \<Longrightarrow> scan_u (fmt_u (w :: u32) @ c # r) = Some (w, c # r)"
proof -
  have all: "\<forall>x \<in> set (fmt_u w). is_digit x" using dec_digits by (simp add: fmt_u_def list_all_iff)
  have ne: "fmt_u w \<noteq> []" by (simp add: fmt_u_def)
  have sign: "strtoul_sign (dropWhile c_space (fmt_u w @ r)) = (False, fmt_u w @ r)" for r
    by (simp add: fmt_u_def sign_of_digits)
  have t: "takeWhile is_digit (fmt_u w) = fmt_u w" "dropWhile is_digit (fmt_u w) = []"
    using all by (auto simp: takeWhile_eq_all_conv dropWhile_eq_Nil_conv)
  show "scan_u (fmt_u w) = Some (w, [])"
    unfolding scan_u_def Let_def sign [of "[]", simplified] prod.case t by (simp add: ne strtoul_value_digits)
  assume c: "\<not> is_digit c"
  have "takeWhile is_digit (fmt_u w @ c # r) = fmt_u w" "dropWhile is_digit (fmt_u w @ c # r) = c # r"
    using all c by (simp_all add: takeWhile_append2 dropWhile_append2)
  then show "scan_u (fmt_u w @ c # r) = Some (w, c # r)"
    using c ne by (simp add: scan_u_def sign Let_def strtoul_value_digits)
qed

section \<open>Properties\<close>

text \<open>The size of a grid written as columns, the letter x and rows is read back.\<close>

theorem grid_size_reads_back:
  "scan_grid_size (fmt_u c @ ''x'' @ fmt_u r) = (c, r)"
proof -
  have "\<not> is_digit (CHR ''x'')" by (simp add: is_digit_def)
  then show ?thesis by (simp add: scan_grid_size_def scan_u_digits)
qed

definition usable_grid :: "grid_spec \<Rightarrow> bool" where
  "usable_grid g \<longleftrightarrow> fless (Fin 0) (cellSize g) \<and> 0 < cols g \<and> 0 < rows g \<and> 0 < firstSector g"

lemma parsed_grid_usable: "parseGrid el g = (True, g') \<Longrightarrow> usable_grid g'"
  by (auto simp: parseGrid_def usable_grid_def Let_def split: option.splits prod.splits)

lemma parsed_neighbour_usable: "parse_neighbour e = Some nb \<Longrightarrow> usable_grid (nb_grid nb)"
  using parsed_grid_usable
  by (auto simp: parse_neighbour_def bind_eq_Some_conv split: prod.splits if_splits)

text \<open>Every neighbour of a configured world has a grid with cells of positive size, at least one column and
  row and a sector number to start from, whatever the configuration file contains; a neighbour that has not is
  left out.\<close>

theorem configured_neighbours_are_usable:
  "list_all (\<lambda>nb. usable_grid (nb_grid nb)) (g_neighbours (configure_world worldGrid worldNeighbours w))"
  using parsed_neighbour_usable
  by (auto simp: configure_world_def Configure_def list_all_iff List.map_filter_def)

lemma when_keeps:
  assumes "\<And>e c. g (f e c) = g c"
  shows "g (when_el root n f c) = g c" "g (when_either root n n' f c) = g c"
  using assms by (simp_all add: when_el_def when_either_def split: option.split)

text \<open>A configuration that is read has non-zero world numbers for the engine and for the dispatcher, the
  latter the engine's own unless it is given, and a non-zero port.\<close>

theorem configuration_identifies_world:
  assumes "Init_config root log = Some (c, ms)" and "\<forall>name e v. root name = Some e \<longrightarrow> q_int e = Some v \<longrightarrow> v < 2 ^ 31"
  shows "WorldID c \<noteq> 0 \<and> DispatcherWorldID c \<noteq> 0 \<and> DispatcherPort c \<noteq> 0"
proof -
  have small: "(word_of_int v :: u32) \<noteq> 0" if "0 < v" "v < 2 ^ 31" for v
  proof -
    have "uint (word_of_int v :: u32) = v" using that by (simp add: uint_word_of_int take_bit_int_eq_self_iff)
    then show ?thesis using that by auto
  qed
  have int_text: "IntText 0 e < 2 ^ 31" if "root n = Some e" for n e
    using assms(2) that by (auto simp: IntText_def split: option.split)
  have port: "(word_of_int p :: u16) \<noteq> 0" if "0 < p" "p < 65536" for p
  proof -
    have "uint (word_of_int p :: u16) = p" using that by (simp add: uint_word_of_int take_bit_int_eq_self_iff)
    then show ?thesis using that by auto
  qed
  obtain c0 where c0: "log_fields log default_config = Some c0"
      "c = dispatcher_fields root (handoff_flags root (world_ids root c0))"
    using assms(1) by (auto simp: Init_config_def)
  have d0: "WorldID c0 = 1" "DispatcherWorldID c0 = 0" "DispatcherPort c0 = 7400"
    using c0(1) by (auto simp: log_fields_def bind_eq_Some_conv default_config_def)
  have w: "WorldID (world_ids root c0) \<noteq> 0 \<and> DispatcherWorldID (world_ids root c0) \<noteq> 0 \<and>
      DispatcherPort (world_ids root c0) = 7400"
    using small int_text d0 by (auto simp: world_ids_def when_el_def Let_def split: option.split)
  have h: "WorldID (handoff_flags root c') = WorldID c'" "DispatcherWorldID (handoff_flags root c') = DispatcherWorldID c'"
    "DispatcherPort (handoff_flags root c') = DispatcherPort c'" for c'
    by (simp_all add: handoff_flags_def Let_def when_keeps [where g = WorldID] when_keeps [where g = DispatcherWorldID]
        when_keeps [where g = DispatcherPort] split: option.split)
  have f: "WorldID (dispatcher_fields root c') = WorldID c'" "DispatcherWorldID (dispatcher_fields root c') = DispatcherWorldID c'"
    for c'
    by (simp_all add: dispatcher_fields_def Let_def when_keeps [where g = WorldID] when_keeps [where g = DispatcherWorldID]
        split: option.split)
  have p: "DispatcherPort (dispatcher_fields root c') \<noteq> 0" if "DispatcherPort c' \<noteq> 0" for c'
  proof -
    have k: "DispatcherPort (when_el root n (\<lambda>e c. case q_text e of None \<Rightarrow> c | Some t \<Rightarrow> if t = [] then c else c\<lparr>DispatcherHost := t\<rparr>) c) = DispatcherPort c"
      "DispatcherPort (when_el root n (\<lambda>e c. case q_text e of None \<Rightarrow> c | Some t \<Rightarrow> c\<lparr>SectorClaims := t\<rparr>) c) = DispatcherPort c"
      "DispatcherPort (when_el root n (\<lambda>e c. c\<lparr>DispatcherEnabled := BoolText e\<rparr>) c) = DispatcherPort c" for n c
      by (simp_all add: when_keeps [where g = DispatcherPort] split: option.split)
    show ?thesis
      using that port unfolding dispatcher_fields_def Let_def k
      by (simp add: when_el_def k [unfolded when_el_def] split: option.split)
  qed
  show ?thesis using w by (simp add: c0(2) f h p)
qed

theorem configuration_identifies_world_witness:
  "\<exists>c. Init_config [''worldID'' \<mapsto> \<lparr>q_int = Some 7, q_bool = None, q_text = None\<rparr>]
       (Some (\<lambda>_. Some \<lparr>q_int = Some 2, q_bool = Some True, q_text = None\<rparr>)) = Some (c, None) \<and>
     WorldID c \<noteq> 0 \<and> DispatcherWorldID c \<noteq> 0 \<and> DispatcherPort c \<noteq> 0"
proof -
  let ?root = "[''worldID'' \<mapsto> \<lparr>q_int = Some 7, q_bool = None, q_text = None\<rparr>]"
  let ?log = "Some (\<lambda>_. Some \<lparr>q_int = Some 2, q_bool = Some True, q_text = None\<rparr>)"
  obtain c where c: "Init_config ?root ?log = Some (c, None)"
    by (simp add: Init_config_def log_fields_def)
  have "\<forall>name e v. ?root name = Some e \<longrightarrow> q_int e = Some v \<longrightarrow> v < 2 ^ 31" by auto
  from configuration_identifies_world [OF c this] c show ?thesis by blast
qed

end
