(* ===== verification/Server_Hooks.thy ===== *)
theory Server_Hooks
  imports Server_Startup
begin

text \<open>
  The hooks of the server library over its life: \<open>Hooks::AttachHooks\<close> when the library is loaded, inside a
  transaction of the loader's callback; \<open>Server::AttachHooks\<close> when the console starts, in a transaction of its
  own; and \<open>Server::Stop\<close> when the library is unloaded. The detour library is an argument of every definition.
\<close>

section \<open>The detour library\<close>

datatype hook =
    Con_InternalConsolePrintf | Con_Init | StringTableInsert
  | FS_Open | FS_Read | FS_GetStreamSize | FS_GetPosition | FS_SetPosition | FS_Dtor
  | AnimatedNpc_SetAnimation | Animal_CreateCorpse | Animal_CreateAnimal | Container_TryInit
  | Furnace_LookupProcDesc | BrewingTankFurnace_LookupProcDesc
  | WorkingFurnace_RecalcTick | BrewingTankFurnace_RecalcTick | WorkingFire_RecalcTick | WorkingGreenhouse_RecalcTick
  | WorkingTrap_RecalcTick | WorkingWindmill_RecalcTick
  | VitalParams_ProcessTick | Char_CalcHitDamage | Wounds_DealDamage | CharInfo_SendChanges | Hit_ApplyDamage
  | OnePunchMan | GC_SetControlObject
  | Outpost_DefaultRadiusGetter | MonumentMinDistanceGetter | OutpostOutpostMinDistanceGetter
  | Player_CheckSteps | Lands_IsActiveStartingZone
  | Effect_Parse | ObjEffects_BroadcastDelta
  | NetClassRep_Add | ServerUUIDEvent_Send
  | Ai_LoadBehaviorXml
  | FindRecipeForMaterial | SelectGem | ComputeGemChance | AddTunnelMaterials
  | TmpHideAllNaked

datatype detour_op = Attach_Op hook | Detach_Op hook

fun apply_op :: "detour_op \<Rightarrow> hook set \<Rightarrow> hook set" where
  "apply_op (Attach_Op h) s = insert h s"
| "apply_op (Detach_Op h) s = s - {h}"

text \<open>Its state \<open>'d\<close>, its four calls, and what can be observed: whether a transaction is pending, the operations
  gathered in it, and the hooks in effect. A commit also answers whether it succeeded.\<close>

record 'd detours =
  TransactionBegin :: "'d \<Rightarrow> 'd"
  DetourAttach :: "hook \<Rightarrow> 'd \<Rightarrow> 'd"
  DetourDetach :: "hook \<Rightarrow> 'd \<Rightarrow> 'd"
  TransactionCommit :: "'d \<Rightarrow> bool \<times> 'd"
  pending :: "'d \<Rightarrow> bool"
  gathered :: "'d \<Rightarrow> detour_op list"
  active :: "'d \<Rightarrow> hook set"

text \<open>The documentation: a transaction is begun only when none is pending; operations outside a transaction are
  refused; a commit ends the transaction and applies all of its operations, or none when it fails, and is
  refused when none is pending.\<close>

definition documented_detours :: "'d detours \<Rightarrow> bool" where
  "documented_detours D \<longleftrightarrow>
     (\<forall>d. if pending D d then TransactionBegin D d = d
          else pending D (TransactionBegin D d) \<and> gathered D (TransactionBegin D d) = [] \<and>
               active D (TransactionBegin D d) = active D d) \<and>
     (\<forall>d h. if pending D d
          then pending D (DetourAttach D h d) \<and> gathered D (DetourAttach D h d) = gathered D d @ [Attach_Op h] \<and>
               active D (DetourAttach D h d) = active D d
          else DetourAttach D h d = d) \<and>
     (\<forall>d h. if pending D d
          then pending D (DetourDetach D h d) \<and> gathered D (DetourDetach D h d) = gathered D d @ [Detach_Op h] \<and>
               active D (DetourDetach D h d) = active D d
          else DetourDetach D h d = d) \<and>
     (\<forall>d. case TransactionCommit D d of (ok, d') \<Rightarrow>
          if pending D d
          then \<not> pending D d' \<and> active D d' = (if ok then fold apply_op (gathered D d) (active D d) else active D d)
          else \<not> ok \<and> d' = d)"

section \<open>Attaching and detaching\<close>

definition core_attached :: "hook list" where
  "core_attached =
     [Con_InternalConsolePrintf, Con_Init, StringTableInsert,
      FS_Open, FS_Read, FS_GetStreamSize, FS_GetPosition, FS_SetPosition, FS_Dtor,
      AnimatedNpc_SetAnimation, Animal_CreateCorpse, Animal_CreateAnimal, Container_TryInit]"

definition core_detached :: "hook list" where
  "core_detached =
     [Container_TryInit, Animal_CreateAnimal, Animal_CreateCorpse, AnimatedNpc_SetAnimation,
      FS_Dtor, FS_SetPosition, FS_GetPosition, FS_GetStreamSize, FS_Read, FS_Open,
      StringTableInsert, Con_Init, Con_InternalConsolePrintf]"

text \<open>The hooks of the server; the last of them are those of the drops and recipes that are configured and
  recognise the code they patch.\<close>

definition server_attached :: "server_config \<Rightarrow> hook list \<Rightarrow> hook list" where
  "server_attached c drops =
     [Furnace_LookupProcDesc, BrewingTankFurnace_LookupProcDesc,
      WorkingFurnace_RecalcTick, BrewingTankFurnace_RecalcTick, WorkingFire_RecalcTick, WorkingGreenhouse_RecalcTick,
      WorkingTrap_RecalcTick, WorkingWindmill_RecalcTick,
      VitalParams_ProcessTick, Char_CalcHitDamage, Wounds_DealDamage, CharInfo_SendChanges, Hit_ApplyDamage,
      OnePunchMan, GC_SetControlObject,
      Outpost_DefaultRadiusGetter, MonumentMinDistanceGetter, OutpostOutpostMinDistanceGetter,
      Player_CheckSteps, Lands_IsActiveStartingZone, Effect_Parse, ObjEffects_BroadcastDelta]
     @ (if DumpNetClassRep c then [NetClassRep_Add, ServerUUIDEvent_Send] else [])
     @ (if SectorHandoffAutoPost c \<and> \<not> DumpNetClassRep c then [ServerUUIDEvent_Send] else [])
     @ [Ai_LoadBehaviorXml] @ drops"

definition server_detached :: "hook list" where
  "server_detached =
     [Ai_LoadBehaviorXml, ObjEffects_BroadcastDelta, Effect_Parse,
      OutpostOutpostMinDistanceGetter, MonumentMinDistanceGetter, Outpost_DefaultRadiusGetter,
      GC_SetControlObject, Hit_ApplyDamage, CharInfo_SendChanges, Wounds_DealDamage, Char_CalcHitDamage,
      VitalParams_ProcessTick, WorkingWindmill_RecalcTick, WorkingTrap_RecalcTick, WorkingGreenhouse_RecalcTick,
      WorkingFire_RecalcTick, BrewingTankFurnace_RecalcTick, WorkingFurnace_RecalcTick,
      BrewingTankFurnace_LookupProcDesc, Furnace_LookupProcDesc]"

text \<open>\<open>Hooks::AttachHooks\<close> and \<open>Hooks::DetachHooks\<close> have no transaction of their own, the server's functions have.
  Of the server's functions this is what they do with the detour library; the patches of dispatch tables and call
  sites they also make are \<open>InstallVtablePatch\<close> and \<open>RemoveVtablePatch\<close> in \<open>Equip_Sync\<close>, \<open>AttachTreeDropHook\<close> in
  \<open>Tree_Drops\<close> and \<open>PatchPersonalClaimCallSites\<close> in \<open>Outposts\<close>.\<close>

definition Core_AttachHooks :: "'d detours \<Rightarrow> 'd \<Rightarrow> 'd" where
  "Core_AttachHooks D d = fold (DetourAttach D) core_attached d"

definition Core_DetachHooks :: "'d detours \<Rightarrow> 'd \<Rightarrow> 'd" where
  "Core_DetachHooks D d = fold (DetourDetach D) core_detached d"

definition Server_AttachHooks :: "'d detours \<Rightarrow> server_config \<Rightarrow> hook list \<Rightarrow> 'd \<Rightarrow> bool \<times> 'd" where
  "Server_AttachHooks D c drops d =
     TransactionCommit D (fold (DetourAttach D) (server_attached c drops) (TransactionBegin D d))"

definition Server_DetachHooks :: "'d detours \<Rightarrow> 'd \<Rightarrow> bool \<times> 'd" where
  "Server_DetachHooks D d = TransactionCommit D (fold (DetourDetach D) server_detached (TransactionBegin D d))"

text \<open>\<open>Server::Stop\<close>, which is \<open>Destroy\<close>.\<close>

definition Server_Destroy :: "'d detours \<Rightarrow> 'd \<Rightarrow> 'd" where
  "Server_Destroy D d = Core_DetachHooks D (snd (Server_DetachHooks D d))"

text \<open>The loader's callback; \<open>init\<close> is whether the configuration file could be read.\<close>

definition Process_Attach :: "'d detours \<Rightarrow> bool \<Rightarrow> 'd \<Rightarrow> bool \<times> 'd" where
  "Process_Attach D init d =
     (let d = TransactionBegin D d in TransactionCommit D (if init then Core_AttachHooks D d else d))"

definition Process_Detach :: "'d detours \<Rightarrow> 'd \<Rightarrow> bool \<times> 'd" where
  "Process_Detach D d = TransactionCommit D (Server_Destroy D (TransactionBegin D d))"

text \<open>The functions hooked, by their addresses in the engine (\<open>cm_offsets.h\<close>); those of drops and recipes are found
  by decoding the calls of them.\<close>

fun hook_rva :: "hook \<Rightarrow> u64 option" where
  "hook_rva Con_InternalConsolePrintf = Some 0x405090"
| "hook_rva Con_Init = Some 0x407990"
| "hook_rva StringTableInsert = Some 0x441BF0"
| "hook_rva FS_Open = Some 0x44A4F0"
| "hook_rva FS_Read = Some 0x449B40"
| "hook_rva FS_GetStreamSize = Some 0x44A490"
| "hook_rva FS_GetPosition = Some 0x44A470"
| "hook_rva FS_SetPosition = Some 0x44A6F0"
| "hook_rva FS_Dtor = Some 0x449A50"
| "hook_rva AnimatedNpc_SetAnimation = Some 0x2E2A90"
| "hook_rva Animal_CreateCorpse = Some 0x18A370"
| "hook_rva Animal_CreateAnimal = Some 0x195FD0"
| "hook_rva Container_TryInit = Some 0x299140"
| "hook_rva Furnace_LookupProcDesc = Some 0x1DB7C0"
| "hook_rva BrewingTankFurnace_LookupProcDesc = Some 0x1DAAE0"
| "hook_rva WorkingFurnace_RecalcTick = Some 0x1DCFF0"
| "hook_rva BrewingTankFurnace_RecalcTick = Some 0x1DB370"
| "hook_rva WorkingFire_RecalcTick = Some 0x1DB650"
| "hook_rva WorkingGreenhouse_RecalcTick = Some 0x1DEA70"
| "hook_rva WorkingTrap_RecalcTick = Some 0x1DEE90"
| "hook_rva WorkingWindmill_RecalcTick = Some 0x1DFF20"
| "hook_rva VitalParams_ProcessTick = Some 0x97BC0"
| "hook_rva Char_CalcHitDamage = Some 0x91A50"
| "hook_rva Wounds_DealDamage = Some 0x1C63E0"
| "hook_rva CharInfo_SendChanges = Some 0x1BC3D0"
| "hook_rva Hit_ApplyDamage = Some 0x90F60"
| "hook_rva OnePunchMan = Some 0xA4BF0"
| "hook_rva GC_SetControlObject = Some 0x137D40"
| "hook_rva Outpost_DefaultRadiusGetter = Some 0x187360"
| "hook_rva MonumentMinDistanceGetter = Some 0x2B1EF0"
| "hook_rva OutpostOutpostMinDistanceGetter = Some 0x2B1F00"
| "hook_rva Player_CheckSteps = Some 0xF0500"
| "hook_rva Lands_IsActiveStartingZone = Some 0x2D78C0"
| "hook_rva Effect_Parse = Some 0x4DD100"
| "hook_rva ObjEffects_BroadcastDelta = Some 0xEBFF0"
| "hook_rva NetClassRep_Add = Some 0x418C40"
| "hook_rva ServerUUIDEvent_Send = Some 0x4E7370"
| "hook_rva Ai_LoadBehaviorXml = Some 0x153B80"
| "hook_rva _ = None"

section \<open>Transactions\<close>

lemma begin_idle:
  assumes "documented_detours D" "\<not> pending D d"
  shows "pending D (TransactionBegin D d)" "gathered D (TransactionBegin D d) = []"
    "active D (TransactionBegin D d) = active D d"
  using assms by (auto simp: documented_detours_def)

lemma begin_pending: "documented_detours D \<Longrightarrow> pending D d \<Longrightarrow> TransactionBegin D d = d"
  by (simp add: documented_detours_def)

lemma attach_all:
  assumes "documented_detours D" "pending D d"
  shows "pending D (fold (DetourAttach D) hs d) \<and> gathered D (fold (DetourAttach D) hs d) = gathered D d @ map Attach_Op hs \<and>
     active D (fold (DetourAttach D) hs d) = active D d"
  using assms(2)
proof (induction hs arbitrary: d)
  case (Cons h hs)
  have "pending D (DetourAttach D h d) \<and> gathered D (DetourAttach D h d) = gathered D d @ [Attach_Op h] \<and>
      active D (DetourAttach D h d) = active D d"
    using assms(1) Cons.prems by (simp add: documented_detours_def)
  then show ?case using Cons.IH [of "DetourAttach D h d"] by simp
qed simp

lemma detach_all:
  assumes "documented_detours D" "pending D d"
  shows "pending D (fold (DetourDetach D) hs d) \<and> gathered D (fold (DetourDetach D) hs d) = gathered D d @ map Detach_Op hs \<and>
     active D (fold (DetourDetach D) hs d) = active D d"
  using assms(2)
proof (induction hs arbitrary: d)
  case (Cons h hs)
  have "pending D (DetourDetach D h d) \<and> gathered D (DetourDetach D h d) = gathered D d @ [Detach_Op h] \<and>
      active D (DetourDetach D h d) = active D d"
    using assms(1) Cons.prems by (simp add: documented_detours_def)
  then show ?case using Cons.IH [of "DetourDetach D h d"] by simp
qed simp

lemma detach_refused: "documented_detours D \<Longrightarrow> \<not> pending D d \<Longrightarrow> fold (DetourDetach D) hs d = d"
  by (induction hs) (simp_all add: documented_detours_def)

lemma commit_clause:
  assumes "documented_detours D"
  shows "case TransactionCommit D d of (ok, d') \<Rightarrow>
      if pending D d
      then \<not> pending D d' \<and> active D d' = (if ok then fold apply_op (gathered D d) (active D d) else active D d)
      else \<not> ok \<and> d' = d"
proof -
  have "\<forall>d. case TransactionCommit D d of (ok, d') \<Rightarrow>
      if pending D d
      then \<not> pending D d' \<and> active D d' = (if ok then fold apply_op (gathered D d) (active D d) else active D d)
      else \<not> ok \<and> d' = d"
    using assms unfolding documented_detours_def by (elim conjE)
  then show ?thesis by (rule spec)
qed

lemma commit_pending:
  assumes "documented_detours D" "pending D d" "TransactionCommit D d = (ok, d')"
  shows "\<not> pending D d'" "active D d' = (if ok then fold apply_op (gathered D d) (active D d) else active D d)"
proof -
  note commit_clause [OF assms(1), of d]
  then show "\<not> pending D d'" "active D d' = (if ok then fold apply_op (gathered D d) (active D d) else active D d)"
    using assms(2,3) by simp_all
qed

lemma commit_refused:
  assumes "documented_detours D" "\<not> pending D d"
  shows "TransactionCommit D d = (False, d)"
proof -
  note commit_clause [OF assms(1), of d]
  then show ?thesis using assms(2) by (cases "TransactionCommit D d") simp
qed

lemma fold_attach: "fold apply_op (map Attach_Op hs) s = s \<union> set hs"
  by (induction hs arbitrary: s) auto

lemma fold_detach: "fold apply_op (map Detach_Op hs) s = s - set hs"
  by (induction hs arbitrary: s) auto

lemma server_detach_in_transaction:
  assumes "documented_detours D" "pending D d" "gathered D d = []" "Server_DetachHooks D d = (ok, d')"
  shows "\<not> pending D d' \<and> active D d' = (if ok then active D d - set server_detached else active D d)"
proof -
  let ?d = "fold (DetourDetach D) server_detached d"
  have f: "pending D ?d" "gathered D ?d = map Detach_Op server_detached" "active D ?d = active D d"
    using detach_all [OF assms(1,2)] assms(3) by simp_all
  have "TransactionCommit D ?d = (ok, d')"
    using assms(4) by (simp add: Server_DetachHooks_def begin_pending [OF assms(1,2)])
  from commit_pending [OF assms(1) f(1) this] show ?thesis by (simp add: f(2,3) fold_detach)
qed

section \<open>Properties\<close>

text \<open>No function of the engine is hooked twice, in whatever configuration: the detour library cannot attach two
  hooks to one function in a transaction. All of these hooks have known addresses.\<close>

theorem no_function_is_hooked_twice:
  "distinct (map hook_rva (core_attached @ server_attached c [])) \<and> None \<notin> set (map hook_rva (core_attached @ server_attached c []))"
  by (cases "DumpNetClassRep c"; cases "SectorHandoffAutoPost c") (simp_all add: core_attached_def server_attached_def)

text \<open>Loading the library and starting the server puts exactly the hooks of the two lists in effect, each under
  its configuration switch, when both transactions commit.\<close>

theorem start_puts_hooks_in_effect:
  assumes "documented_detours D" "\<not> pending D d" "active D d = {}"
    and "Process_Attach D True d = (True, d1)" "Server_AttachHooks D c drops d1 = (True, d2)"
  shows "active D d2 = set core_attached \<union> set (server_attached c drops) \<and> \<not> pending D d2"
proof -
  let ?b = "TransactionBegin D d"
  note b = begin_idle [OF assms(1,2)]
  have "TransactionCommit D (fold (DetourAttach D) core_attached ?b) = (True, d1)"
    using assms(4) by (simp add: Process_Attach_def Core_AttachHooks_def Let_def)
  note c1 = commit_pending [OF assms(1) _ this]
  have a1: "active D d1 = set core_attached" "\<not> pending D d1"
    using c1 attach_all [OF assms(1) b(1), of core_attached] b assms(3) by (simp_all add: fold_attach)
  let ?b2 = "TransactionBegin D d1"
  note b2 = begin_idle [OF assms(1) a1(2)]
  have "TransactionCommit D (fold (DetourAttach D) (server_attached c drops) ?b2) = (True, d2)"
    using assms(5) by (simp add: Server_AttachHooks_def)
  note c2 = commit_pending [OF assms(1) _ this]
  show ?thesis
    using c2 attach_all [OF assms(1) b2(1), of "server_attached c drops"] b2 a1(1) by (simp add: fold_attach)
qed

text \<open>C11: Unloading the library leaves all thirteen hooks of the core in effect: the transaction the loader's callback
  begins is the one the server's detaching commits, so that the core's detaching runs outside any transaction
  and is refused. Of the server's hooks those on combat, on battle zones, on the net events and on drops stay in
  effect as well, because nothing detaches them.\<close>

theorem unloading_leaves_hooks_in_effect:
  assumes "documented_detours D" "\<not> pending D d" "active D d = set core_attached \<union> set (server_attached c drops)"
    and "Process_Detach D d = (ok, d')"
  shows "\<not> ok \<and> set core_attached \<subseteq> active D d' \<and>
     {OnePunchMan, Player_CheckSteps, Lands_IsActiveStartingZone} \<subseteq> active D d' \<and>
     (DumpNetClassRep c \<longrightarrow> {NetClassRep_Add, ServerUUIDEvent_Send} \<subseteq> active D d') \<and>
     set drops - set server_detached \<subseteq> active D d'"
proof -
  let ?b = "TransactionBegin D d"
  note b = begin_idle [OF assms(1,2)]
  obtain ok1 d1 where s: "Server_DetachHooks D ?b = (ok1, d1)" by fastforce
  note a = server_detach_in_transaction [OF assms(1) b(1,2) s]
  have "Server_Destroy D ?b = d1"
    using detach_refused [OF assms(1)] a by (simp add: Server_Destroy_def s Core_DetachHooks_def)
  then have r: "ok = False" "d' = d1"
    using assms(4) commit_refused [OF assms(1)] a by (simp_all add: Process_Detach_def)
  have "active D d - set server_detached \<subseteq> active D d1" using a b(3) by auto
  then have stays: "X \<subseteq> active D d1" if "X \<subseteq> active D d" "X \<inter> set server_detached = {}" for X
    using that by blast
  have "set core_attached \<subseteq> active D d1"
    by (rule stays) (simp_all add: assms(3) core_attached_def server_detached_def)
  moreover have "{OnePunchMan, Player_CheckSteps, Lands_IsActiveStartingZone} \<subseteq> active D d1"
    by (rule stays) (simp_all add: assms(3) server_attached_def server_detached_def)
  moreover have "{NetClassRep_Add, ServerUUIDEvent_Send} \<subseteq> active D d1" if "DumpNetClassRep c"
    by (rule stays) (simp_all add: that assms(3) server_attached_def server_detached_def)
  moreover have "set drops - set server_detached \<subseteq> active D d1"
  proof (rule stays)
    have "set drops \<subseteq> set (server_attached c drops)" by (simp only: server_attached_def set_append Un_upper2 le_supI2)
    then show "set drops - set server_detached \<subseteq> active D d" unfolding assms(3) by blast
  qed blast
  ultimately show ?thesis unfolding r by (intro conjI impI not_False_eq_True [THEN eqTrueE])
qed

text \<open>A detour library of lists and sets, as documented.\<close>

definition plain_detours :: "(bool \<times> detour_op list \<times> hook set) detours" where
  "plain_detours =
     \<lparr>TransactionBegin = \<lambda>(p, ops, s). (if p then (p, ops, s) else (True, [], s)),
      DetourAttach = \<lambda>h (p, ops, s). (if p then (p, ops @ [Attach_Op h], s) else (p, ops, s)),
      DetourDetach = \<lambda>h (p, ops, s). (if p then (p, ops @ [Detach_Op h], s) else (p, ops, s)),
      TransactionCommit = \<lambda>(p, ops, s). (if p then (True, (False, [], fold apply_op ops s)) else (False, (p, ops, s))),
      pending = fst, gathered = \<lambda>d. fst (snd d), active = \<lambda>d. snd (snd d)\<rparr>"

lemma plain_documented: "documented_detours plain_detours"
  by (auto simp: documented_detours_def plain_detours_def)

lemma plain_attach: "fold (DetourAttach plain_detours) hs (True, ops, s) = (True, ops @ map Attach_Op hs, s)"
  by (induction hs arbitrary: ops) (simp_all add: plain_detours_def)

theorem start_puts_hooks_in_effect_witness:
  "\<exists>d1 d2. Process_Attach plain_detours True (False, [], {}) = (True, d1) \<and>
     Server_AttachHooks plain_detours default_config [SelectGem] d1 = (True, d2) \<and>
     active plain_detours d2 = set core_attached \<union> set (server_attached default_config [SelectGem])"
proof -
  have b: "TransactionBegin plain_detours (False, [], s) = (True, [], s)"
    "TransactionCommit plain_detours (True, ops, s) = (True, (False, [], fold apply_op ops s))" for ops s
    by (simp_all add: plain_detours_def)
  have r1: "Process_Attach plain_detours True (False, [], {}) = (True, (False, [], set core_attached))"
    by (simp add: Process_Attach_def Core_AttachHooks_def b plain_attach fold_attach)
  obtain d2 where r2: "Server_AttachHooks plain_detours default_config [SelectGem] (False, [], set core_attached) = (True, d2)"
    by (simp add: Server_AttachHooks_def b plain_attach)
  have "\<not> pending plain_detours (False, [], {})" "active plain_detours (False, [], {}) = {}"
    by (simp_all add: plain_detours_def)
  from start_puts_hooks_in_effect [OF plain_documented this r1 r2] r1 r2 show ?thesis by blast
qed

theorem unloading_leaves_hooks_in_effect_witness:
  "\<exists>ok d'. Process_Detach plain_detours (False, [], set core_attached \<union> set (server_attached default_config [SelectGem])) = (ok, d') \<and>
     {FS_Open, OnePunchMan, SelectGem} \<subseteq> active plain_detours d'"
proof -
  let ?d = "(False, [], set core_attached \<union> set (server_attached default_config [SelectGem])) ::
      bool \<times> detour_op list \<times> hook set"
  have i: "\<not> pending plain_detours ?d" "active plain_detours ?d = set core_attached \<union> set (server_attached default_config [SelectGem])"
    by (simp_all add: plain_detours_def)
  obtain ok d' where r: "Process_Detach plain_detours ?d = (ok, d')" by (meson surj_pair)
  have "FS_Open \<in> set core_attached" "SelectGem \<in> set [SelectGem] - set server_detached"
    by (simp_all add: core_attached_def server_detached_def)
  then show ?thesis using unloading_leaves_hooks_in_effect [OF plain_documented i r] r by blast
qed

end
