(* ===== verification/Hp_Monitors.thy ===== *)
theory Hp_Monitors
  imports Char_Stats
begin

text \<open>
  The observers of hit points: the baseline of the vitals window and its comparison
  (\<open>hook_vital_process_tick.cpp\<close>), the comparison around the engine's damage calculation
  (\<open>hook_calc_hit_damage.cpp\<close>) and the one around the engine's broadcast of changes
  (\<open>hook_send_changes.cpp\<close>). What is printed is the result: the fields that differ, by offset.
\<close>

section \<open>Windows\<close>

definition capture64 :: "mem \<Rightarrow> u64 \<Rightarrow> nat \<Rightarrow> nat \<Rightarrow> u64 list" where
  "capture64 m self beg n = map (\<lambda>i. read_field m self (word_of_nat (beg + 8 * i))) [0..<n]"

definition capture32 :: "mem \<Rightarrow> u64 \<Rightarrow> nat \<Rightarrow> nat \<Rightarrow> u32 list" where
  "capture32 m self beg n = map (\<lambda>i. read_field m self (word_of_nat (beg + 4 * i))) [0..<n]"

fun differences :: "nat \<Rightarrow> nat \<Rightarrow> 'a list \<Rightarrow> 'a list \<Rightarrow> (nat \<times> 'a \<times> 'a) list" where
  "differences off stride (x # xs) (y # ys) =
     (if x = y then differences (off + stride) stride xs ys
      else (off, x, y) # differences (off + stride) stride xs ys)"
| "differences off stride _ _ = []"

section \<open>The baseline of the vitals\<close>

definition kScanBeg :: nat where "kScanBeg = 0x100"
definition kScanEnd :: nat where "kScanEnd = 0x400"
definition kScanCnt :: nat where "kScanCnt = (kScanEnd - kScanBeg) div 8"

record marks =
  g_markSnap :: "u64 list"
  g_markValid :: bool

definition Mark :: "u64 \<Rightarrow> mem \<Rightarrow> marks \<Rightarrow> marks" where
  "Mark lastSeen m k =
     (if lastSeen = 0 then k else \<lparr>g_markSnap = capture64 m lastSeen kScanBeg kScanCnt, g_markValid = True\<rparr>)"

text \<open>\<open>None\<close>: there is no object, or no baseline.\<close>

definition Diff :: "u64 \<Rightarrow> mem \<Rightarrow> marks \<Rightarrow> (nat \<times> u64 \<times> u64) list option" where
  "Diff lastSeen m k =
     (if lastSeen = 0 \<or> \<not> g_markValid k then None
      else Some (differences kScanBeg 8 (g_markSnap k) (capture64 m lastSeen kScanBeg kScanCnt)))"

section \<open>The damage calculation\<close>

record calc_hit =
  ch_callCount :: u64
  ch_lastSelf :: u64

text \<open>The engine's function takes the object and four more arguments.\<close>

definition CharCalcHitDamage_Call ::
  "(u64 \<Rightarrow> u64 list \<Rightarrow> mem \<Rightarrow> u64 \<times> mem) \<Rightarrow> u64 \<Rightarrow> u64 list \<Rightarrow> mem \<Rightarrow> calc_hit
     \<Rightarrow> u64 \<times> (nat \<times> u64 \<times> u64) list \<times> mem \<times> calc_hit" where
  "CharCalcHitDamage_Call engine self args m s =
     (let s = s\<lparr>ch_callCount := ch_callCount s + 1\<rparr>;
          s = (if self \<noteq> 0 then s\<lparr>ch_lastSelf := self\<rparr> else s);
          before = capture64 m self 0x280 20;
          (ret, m') = engine self args m;
          after = capture64 m' self 0x280 20
      in (ret, if self \<noteq> 0 then differences 0x280 8 before after else [], m', s))"

section \<open>The broadcast of changes\<close>

record send_changes =
  sc_callCount :: u64
  sc_lastSelf :: u64
  sc_lastMask :: u32
  sc_observedMaskUnion :: u32

definition kBegin :: nat where "kBegin = 0x180"
definition kEnd :: nat where "kEnd = 0x200"
definition kCount :: nat where "kCount = (kEnd - kBegin) div 4"

text \<open>\<open>std::strncat\<close> into a buffer of a fixed size.\<close>

definition strncat_256 :: "string \<Rightarrow> string \<Rightarrow> string" where
  "strncat_256 buf tmp = buf @ take (256 - length buf - 1) tmp"

definition EchoMaskBits :: "u32 \<Rightarrow> string" where
  "EchoMaskBits msk =
     (if msk = 0 then ''(none '' @ [CHR 0xE2, CHR 0x80, CHR 0x94] @ '' mask==0)''
      else fold (\<lambda>b buf. if bit msk b then strncat_256 buf (snprintf_out 8 (fmt_d (int b) @ '' '')) else buf) [0..<32] [])"

text \<open>The result: what is printed on entry, the changes in the window, the memory and the state.\<close>

definition CharInfoSendChanges_Call ::
  "(u64 \<Rightarrow> u32 \<Rightarrow> u8 \<Rightarrow> mem \<Rightarrow> mem) \<Rightarrow> bool \<Rightarrow> u64 \<Rightarrow> u32 \<Rightarrow> u8 \<Rightarrow> mem \<Rightarrow> send_changes
     \<Rightarrow> string option \<times> (nat \<times> u32 \<times> u32) list \<times> mem \<times> send_changes" where
  "CharInfoSendChanges_Call engine debug self msk sendNow m s =
     (let n = sc_callCount s + 1;
          s = s\<lparr>sc_callCount := n, sc_lastSelf := self, sc_lastMask := msk,
                sc_observedMaskUnion := sc_observedMaskUnion s OR msk\<rparr>
      in if \<not> debug then (None, [], engine self msk sendNow m, s)
         else
           let before = capture32 m self kBegin kCount;
               unionBefore = sc_observedMaskUnion s;
               logEntry = (n \<le> 20 \<or> msk AND NOT unionBefore \<noteq> 0);
               m' = engine self msk sendNow m;
               after = capture32 m' self kBegin kCount
           in (if logEntry then Some (EchoMaskBits msk) else None,
               if self \<noteq> 0 then differences kBegin 4 before after else [], m', s))"

section \<open>What is reported\<close>

lemma ex_nat_split: "(\<exists>i. P i) \<longleftrightarrow> P 0 \<or> (\<exists>i. P (Suc i))"
  by (metis not0_implies_Suc)

lemma in_differences:
  "length xs = length ys \<Longrightarrow>
   d \<in> set (differences off stride xs ys) \<longleftrightarrow> (\<exists>i. d = (off + stride * i, xs ! i, ys ! i) \<and> i < length xs \<and> xs ! i \<noteq> ys ! i)"
proof (induction xs ys arbitrary: off rule: list_induct2)
  case (Cons x xs y ys)
  show ?case by (subst ex_nat_split) (simp add: Cons.IH add.assoc [symmetric])
qed simp

lemma set_differences:
  "length xs = length ys \<Longrightarrow>
   set (differences off stride xs ys) = {(off + stride * i, xs ! i, ys ! i) | i. i < length xs \<and> xs ! i \<noteq> ys ! i}"
  by (auto simp: in_differences)

text \<open>A comparison after a baseline reports exactly the fields of the window that differ from what they were when
  the baseline was taken, each with its offset and both values.\<close>

theorem diff_reports_what_changed:
  assumes "obj \<noteq> 0"
  shows "\<exists>r. Diff obj m' (Mark obj m k) = Some r \<and>
     set r = {(kScanBeg + 8 * i, read_field m obj (word_of_nat (kScanBeg + 8 * i)), read_field m' obj (word_of_nat (kScanBeg + 8 * i))) | i.
              i < kScanCnt \<and> read_field m obj (word_of_nat (kScanBeg + 8 * i)) \<noteq> (read_field m' obj (word_of_nat (kScanBeg + 8 * i)) :: u64)}"
  using assms by (auto simp: Diff_def Mark_def set_differences capture64_def)

text \<open>The report of a broadcast is printed exactly for the first twenty calls: a call whose mask has a bit not seen
  before is meant to be reported as well, but the mask is added to the bits seen before it is compared with them.\<close>

theorem new_mask_bits_are_never_reported:
  "case CharInfoSendChanges_Call engine debug self msk sendNow m s of (entry, _) \<Rightarrow>
     entry \<noteq> None \<longleftrightarrow> debug \<and> sc_callCount s + 1 \<le> 20"
proof -
  have "msk AND NOT (sc_observedMaskUnion s OR msk) = 0"
    by (rule bit_eqI) (simp add: bit_simps)
  then show ?thesis by (simp add: CharInfoSendChanges_Call_def Let_def)
qed

lemma strncat_fits: "length buf + length tmp < 256 \<Longrightarrow> strncat_256 buf tmp = buf @ tmp"
  by (simp add: strncat_256_def)

text \<open>The bits of a mask are all listed, lowest first: the text of 32 numbers fits its buffer.\<close>

theorem mask_bits_are_all_listed:
  assumes "msk \<noteq> 0"
  shows "EchoMaskBits msk = concat (map (\<lambda>b. fmt_d (int b) @ '' '') (filter (bit msk) [0..<32]))"
proof -
  let ?f = "\<lambda>b buf. if bit msk b then strncat_256 buf (snprintf_out 8 (fmt_d (int b) @ '' '')) else buf"
  let ?t = "\<lambda>n. concat (map (\<lambda>b. fmt_d (int b) @ '' '') (filter (bit msk) [0..<n]))"
  have short: "length (fmt_d (int b)) \<le> 2" if "b < 32" for b
    using that length_dec [of b 2] by (simp add: fmt_d_def)
  have "fold ?f [0..<n] [] = ?t n \<and> length (?t n) \<le> 3 * n" if "n \<le> 32" for n
    using that
  proof (induction n)
    case (Suc n)
    then have IH: "fold ?f [0..<n] [] = ?t n" "length (?t n) \<le> 3 * n" and l: "length (fmt_d (int n)) \<le> 2"
      using short [of n] by simp_all
    have "strncat_256 (?t n) (snprintf_out 8 (fmt_d (int n) @ '' '')) = ?t n @ fmt_d (int n) @ '' ''"
      using IH(2) l Suc.prems by (subst snprintf_out_fits; simp add: strncat_fits)
    then show ?case using IH l by simp
  qed simp
  then show ?thesis using assms by (simp add: EchoMaskBits_def)
qed

theorem diff_reports_what_changed_witness:
  "\<exists>r. Diff 0x1000 (\<lambda>_. 0) (Mark 0x1000 (\<lambda>_. 0) \<lparr>g_markSnap = [], g_markValid = False\<rparr>) = Some r \<and> set r = {}"
  using diff_reports_what_changed [of "0x1000" "\<lambda>_. 0" "\<lambda>_. 0"] by auto

theorem mask_bits_are_all_listed_witness: "EchoMaskBits 5 = fmt_d 0 @ '' '' @ fmt_d 2 @ '' ''"
proof -
  have "filter (bit (5 :: u32)) [0..<32] = [0, 2]" by code_simp
  then show ?thesis using mask_bits_are_all_listed [of 5] by simp
qed

end
