(* ===== verification/Hit_Points.thy ===== *)
theory Hit_Points
  imports Char_Stats
begin

text \<open>
  Hit points of players: the hooks on the engine's damage functions, \<open>hook_apply_damage.cpp\<close> and
  \<open>hook_onepunchman.cpp\<close>, and the console commands of \<open>server/api/lifx_character.cpp\<close>. A command that calls
  the engine's damage function by its address runs through the library's own hook on it. The reports the commands
  print are left out; a refused command is \<open>Warned\<close>.
\<close>

section \<open>State and environment\<close>

record hp =
  char_registry :: stats_registry
  lastSeen :: u64
  ap_callCount :: u64
  ap_lastCharStats :: u64
  ap_lastDmgPacket :: u64
  ap_pendingOverride :: bool
  ap_overrideHardHp :: u64
  ap_overrideSoftHp :: u64
  op_callCount :: u64
  op_lastAttackerCtx :: u64
  op_lastDefenderCtx :: u64
  op_lastWeapon :: u64
  op_pendingOverride :: bool
  op_overrideHardHp :: u64
  op_overrideSoftHp :: u64
  pacifist :: "u32 set"
  wd_callCount :: u64
  wd_lastSelf :: u64
  wd_lastBodyPart :: int

text \<open>The arguments of the engine's damage calculation.\<close>

record punch =
  attackerCtx :: u64
  outDamage :: u64
  isPrimary :: u8
  weapon :: u64
  defenderCtx :: u64
  armorQuality :: u64
  isWarStance :: u8
  u_args :: "u32 \<times> u32 \<times> u8"

text \<open>The engine's functions, and the place a command's damage packet has on the stack.\<close>

record hp_env =
  Hit_ApplyDamage :: "u64 \<Rightarrow> u64 \<Rightarrow> mem \<Rightarrow> mem"
  OnePunchMan :: "punch \<Rightarrow> mem \<Rightarrow> u64 \<times> mem"
  Wounds_DealDamage :: "u64 \<Rightarrow> int \<Rightarrow> mem \<Rightarrow> mem"
  Character_GetByID :: "u32 \<Rightarrow> mem \<Rightarrow> u64"
  Character_PersistHp :: "u64 \<Rightarrow> mem \<Rightarrow> mem"
  Character_SendChanges :: "u64 \<Rightarrow> u32 \<Rightarrow> u8 \<Rightarrow> mem \<Rightarrow> mem"
  virtual_call :: "u64 \<Rightarrow> u64 \<Rightarrow> mem \<Rightarrow> mem"
  Con_Evaluate :: "string \<Rightarrow> string \<Rightarrow> mem \<Rightarrow> mem"
  packet_at :: u64

section \<open>The hooks\<close>

text \<open>Word \<open>i\<close> of a damage packet.\<close>

definition pkt :: "mem \<Rightarrow> u64 \<Rightarrow> nat \<Rightarrow> u64" where
  "pkt m p i = read_field m p (word_of_nat (8 * i))"

definition set_pkt :: "u64 \<Rightarrow> nat \<Rightarrow> u64 \<Rightarrow> mem \<Rightarrow> mem" where
  "set_pkt p i v m = write_field m p (word_of_nat (8 * i)) v"

definition HitApplyDamage_Call :: "hp_env \<Rightarrow> u64 \<Rightarrow> u64 \<Rightarrow> mem \<Rightarrow> hp \<Rightarrow> mem \<times> hp" where
  "HitApplyDamage_Call env charStats dmgPacket m s =
     (let s = s\<lparr>ap_callCount := ap_callCount s + 1, ap_lastCharStats := charStats, ap_lastDmgPacket := dmgPacket\<rparr>;
          (m, s) = (if dmgPacket \<noteq> 0 \<and> ap_pendingOverride s
                    then (set_pkt dmgPacket 1 (ap_overrideSoftHp s) (set_pkt dmgPacket 0 (ap_overrideHardHp s) m),
                          s\<lparr>ap_pendingOverride := False\<rparr>)
                    else (m, s))
      in (Hit_ApplyDamage env charStats dmgPacket m, s))"

definition SetPacifist :: "u32 \<Rightarrow> bool \<Rightarrow> hp \<Rightarrow> hp" where
  "SetPacifist charID on s =
     (if charID = 0 then s
      else s\<lparr>pacifist := (if on then insert charID (pacifist s) else pacifist s - {charID})\<rparr>)"

definition IsPacifist :: "u32 \<Rightarrow> hp \<Rightarrow> bool" where
  "IsPacifist charID s = (if charID = 0 then False else charID \<in> pacifist s)"

definition nullify :: "u64 \<Rightarrow> mem \<Rightarrow> mem" where
  "nullify p m = fold (\<lambda>i. set_pkt p i 0) [0, 1, 3, 4, 5, 6] m"

definition OnePunchMan_Call :: "hp_env \<Rightarrow> punch \<Rightarrow> mem \<Rightarrow> hp \<Rightarrow> u64 \<times> mem \<times> hp" where
  "OnePunchMan_Call env a m s =
     (let s = s\<lparr>op_callCount := op_callCount s + 1, op_lastAttackerCtx := attackerCtx a,
                op_lastDefenderCtx := defenderCtx a, op_lastWeapon := weapon a\<rparr>;
          (ret, m) = OnePunchMan env a m
      in if outDamage a = 0 then (ret, m, s)
         else
           let p = outDamage a;
               (m, s) = (if op_pendingOverride s
                         then (set_pkt p 1 (op_overrideSoftHp s) (set_pkt p 0 (op_overrideHardHp s) m),
                               s\<lparr>op_pendingOverride := False\<rparr>)
                         else (m, s));
               atkCid = ResolvePlayerCharId m (char_registry s) (attackerCtx a);
               defCid = ResolvePlayerCharId m (char_registry s) (defenderCtx a)
           in (ret, if atkCid \<noteq> 0 \<and> defCid \<noteq> 0 \<and> IsPacifist atkCid s then nullify p m else m, s))"

definition WoundsDealDamage_Call :: "hp_env \<Rightarrow> u64 \<Rightarrow> int \<Rightarrow> mem \<Rightarrow> hp \<Rightarrow> mem \<times> hp" where
  "WoundsDealDamage_Call env self bodyPart m s =
     (let s = s\<lparr>wd_callCount := wd_callCount s + 1, wd_lastSelf := self, wd_lastBodyPart := bodyPart\<rparr>
      in (Wounds_DealDamage env self bodyPart m, s))"

text \<open>One hit of the engine: the calculation, and then the application of the packet to the defender.\<close>

definition combat_hit :: "hp_env \<Rightarrow> punch \<Rightarrow> mem \<Rightarrow> hp \<Rightarrow> mem \<times> hp" where
  "combat_hit env a m s =
     (case OnePunchMan_Call env a m s of (_, m, s) \<Rightarrow> HitApplyDamage_Call env (defenderCtx a) (outDamage a) m s)"

section \<open>Commands on the character record\<close>

definition Char_ParseCharId :: "string list \<Rightarrow> nat \<Rightarrow> u32" where
  "Char_ParseCharId args i = (if length args \<le> i then 0 else strtoul10 (args ! i))"

definition ParseInt :: "string list \<Rightarrow> nat \<Rightarrow> int" where
  "ParseInt args i = (if length args \<le> i then 0 else atoi (args ! i))"

text \<open>An \<open>int\<close> product, which wraps.\<close>

definition scaled :: "int \<Rightarrow> u32" where
  "scaled v = word_of_int (v * kHpScale)"

datatype hp_call =
    Warned
  | Evaluated string string
  | Persisted u64
  | Sent u64 u32 u8
  | Called u64 u64

definition GetPlayerHp :: "hp_env \<Rightarrow> string list \<Rightarrow> mem \<Rightarrow> int" where
  "GetPlayerHp env args m =
     (let ci = Character_GetByID env (Char_ParseCharId args 1) m
      in if ci = 0 then 0 else sint (read_field m ci CharInfo_HardHP :: u32) sdiv kHpScale)"

definition GetPlayerSoftHp :: "hp_env \<Rightarrow> string list \<Rightarrow> mem \<Rightarrow> int" where
  "GetPlayerSoftHp env args m =
     (let ci = Character_GetByID env (Char_ParseCharId args 1) m
      in if ci = 0 then 0 else sint (read_field m ci CharInfo_SoftHP :: u32) sdiv kHpScale)"

definition SetPlayerHpMemoryOnly :: "hp_env \<Rightarrow> string list \<Rightarrow> mem \<Rightarrow> hp_call list \<times> mem" where
  "SetPlayerHpMemoryOnly env args m =
     (let newHp = ParseInt args 2; ci = Character_GetByID env (Char_ParseCharId args 1) m
      in if ci = 0 then ([Warned], m) else ([], write_field m ci CharInfo_HardHP (scaled newHp)))"

definition SetPlayerHpPersistOnly :: "hp_env \<Rightarrow> string list \<Rightarrow> mem \<Rightarrow> hp_call list \<times> mem" where
  "SetPlayerHpPersistOnly env args m =
     (let newHp = ParseInt args 2; ci = Character_GetByID env (Char_ParseCharId args 1) m
      in if ci = 0 then ([Warned], m)
         else ([Persisted ci], Character_PersistHp env ci (write_field m ci CharInfo_HardHP (scaled newHp))))"

definition SetPlayerHp :: "hp_env \<Rightarrow> string list \<Rightarrow> mem \<Rightarrow> hp_call list \<times> mem" where
  "SetPlayerHp env args m =
     (let newHp = ParseInt args 2; ci = Character_GetByID env (Char_ParseCharId args 1) m
      in if ci = 0 then ([Warned], m)
         else ([Sent ci 0xFFFFFFFF 1],
               Character_SendChanges env ci 0xFFFFFFFF 1 (write_field m ci CharInfo_HardHP (scaled newHp))))"

definition SetPlayerSoftHp :: "hp_env \<Rightarrow> string list \<Rightarrow> mem \<Rightarrow> hp_call list \<times> mem" where
  "SetPlayerSoftHp env args m =
     (let newSoftHp = ParseInt args 2; ci = Character_GetByID env (Char_ParseCharId args 1) m
      in if ci = 0 then ([Warned], m)
         else ([Sent ci 0xFFFFFFFF 1],
               Character_SendChanges env ci 0xFFFFFFFF 1 (write_field m ci CharInfo_SoftHP (scaled newSoftHp))))"

section \<open>Commands that evaluate a script\<close>

definition ts_line :: "nat \<Rightarrow> string \<Rightarrow> string" where
  "ts_line n s = replicate n (CHR 0x09) @ s @ [CHR 0x0A]"

text \<open>\<open>kPlayerOpScriptFmt\<close>, formatted with a character number, a primitive and a name given twice.\<close>

definition player_op_script :: "u32 \<Rightarrow> string \<Rightarrow> string \<Rightarrow> string" where
  "player_op_script charID primitive name =
     [CHR 0x0A]
     @ ts_line 2 (''%charID = '' @ fmt_u charID @ '';'')
     @ ts_line 2 ''%done = false;''
     @ ts_line 2 ''if (isObject(ClientGroup)) {''
     @ ts_line 3 ''for (%i = 0; %i < ClientGroup.getCount(); %i++) {''
     @ ts_line 4 ''%c = ClientGroup.getObject(%i);''
     @ ts_line 4 ''if (%c.getCharacterId() == %charID) {''
     @ ts_line 5 ''%p = %c.getControlObject();''
     @ ts_line 5 ''if (isObject(%p)) {''
     @ ts_line 6 ''%before = %p.getDamageLevel();''
     @ ts_line 6 primitive
     @ ts_line 6 ''%after = %p.getDamageLevel();''
     @ ts_line 6 (''echo(\"[LiFx] '' @ name @ '': player=\" @ %p @ \" before=\" @ %before @ \" after=\" @ %after);'')
     @ ts_line 6 ''%done = true;''
     @ ts_line 5 ''}''
     @ ts_line 5 ''break;''
     @ ts_line 4 ''}''
     @ ts_line 3 ''}''
     @ ts_line 2 ''}''
     @ ts_line 2 (''if (!%done) echo(\"[LiFx] '' @ name @ '': no player for charID \" @ %charID);'')
     @ [CHR 0x09]"

definition evaluate :: "hp_env \<Rightarrow> string \<Rightarrow> string \<Rightarrow> mem \<Rightarrow> hp_call list \<times> mem" where
  "evaluate env script file m = ([Evaluated script file], Con_Evaluate env script file m)"

definition ApplyDamageCb :: "hp_env \<Rightarrow> string list \<Rightarrow> mem \<Rightarrow> hp_call list \<times> mem" where
  "ApplyDamageCb env args m =
     (let primitive = snprintf_out 128 (''%p.applyDamage('' @ fmt_d (ParseInt args 2) @ '', %p);'');
          script = snprintf_out 2048 (player_op_script (Char_ParseCharId args 1) primitive ''applyDamage'')
      in evaluate env script ''<Lifx::applyDamage>'' m)"

definition HealToFullCb :: "hp_env \<Rightarrow> string list \<Rightarrow> mem \<Rightarrow> hp_call list \<times> mem" where
  "HealToFullCb env args m =
     (let script = snprintf_out 2048
            (player_op_script (Char_ParseCharId args 1) ''%p.applyDamage(-999999, %p);'' ''healToFull'')
      in evaluate env script ''<Lifx::healToFull>'' m)"

definition live_delta :: "mem \<Rightarrow> u64 \<Rightarrow> int \<Rightarrow> u32" where
  "live_delta m ci targetHp =
     (let currentHp = sint (read_field m ci CharInfo_HardHP :: u32) sdiv kHpScale
      in word_of_int currentHp - word_of_int targetHp)"

definition SetPlayerLiveHpCb :: "hp_env \<Rightarrow> string list \<Rightarrow> mem \<Rightarrow> hp_call list \<times> mem" where
  "SetPlayerLiveHpCb env args m =
     (let charID = Char_ParseCharId args 1; targetHp = ParseInt args 2; ci = Character_GetByID env charID m
      in if ci = 0 then ([Warned], m)
         else
           let primitive = snprintf_out 128 (''%p.applyDamage('' @ fmt_d (sint (live_delta m ci targetHp)) @ '', %p);'');
               script = snprintf_out 2048 (player_op_script charID primitive ''setPlayerLiveHp'')
           in evaluate env script ''<Lifx::setPlayerLiveHp>'' m)"

definition SetDamageLevelCb :: "hp_env \<Rightarrow> string list \<Rightarrow> mem \<Rightarrow> hp_call list \<times> mem" where
  "SetDamageLevelCb env args m =
     (let primitive = snprintf_out 64 (''%p.setDamageLevel('' @ fmt_d (ParseInt args 2) @ '');'');
          script = snprintf_out 2048 (player_op_script (Char_ParseCharId args 1) primitive ''setDamageLevel'')
      in evaluate env script ''<Lifx::setDamageLevel>'' m)"

section \<open>Commands on the statistics object\<close>

definition strip_0x :: "string \<Rightarrow> string" where
  "strip_0x s = (if prefix ''0x'' s \<or> prefix ''0X'' s then drop 2 s else s)"

definition VitalPokeCb :: "string list \<Rightarrow> mem \<Rightarrow> hp \<Rightarrow> hp_call list \<times> mem" where
  "VitalPokeCb args m s =
     (if length args < 3 \<or> lastSeen s = 0 then ([Warned], m)
      else ([], write_field m (lastSeen s) (ucast (strtoul16 (strip_0x (args ! 1)))) (i64 (strtoll0 (args ! 2)))))"

definition DealDamageCb :: "hp_env \<Rightarrow> string list \<Rightarrow> mem \<Rightarrow> hp \<Rightarrow> hp_call list \<times> mem \<times> hp" where
  "DealDamageCb env args m s =
     (let bodyPart = ParseInt args 1
      in if bodyPart < 0 \<or> 5 < bodyPart \<or> wd_lastSelf s = 0 then ([Warned], m, s)
         else ([], WoundsDealDamage_Call env (wd_lastSelf s) bodyPart m s))"

text \<open>Damage by the address of the engine's function: the hook runs on a packet of six words.\<close>

definition packet_bytes :: "u64 \<Rightarrow> u64 \<Rightarrow> bytes" where
  "packet_bytes hard soft = concat (map (store_le 8) [hard, soft, 0, 0, 0, 0])"

definition apply_packet :: "hp_env \<Rightarrow> u64 \<Rightarrow> u64 \<Rightarrow> u64 \<Rightarrow> mem \<Rightarrow> hp \<Rightarrow> mem \<times> hp" where
  "apply_packet env cs hard soft m s =
     HitApplyDamage_Call env cs (packet_at env) (mwrite m (packet_at env) (packet_bytes hard soft)) s"

definition applyHpDamage :: "hp_env \<Rightarrow> string list \<Rightarrow> mem \<Rightarrow> hp \<Rightarrow> hp_call list \<times> mem \<times> hp" where
  "applyHpDamage env args m s =
     (if ap_lastCharStats s = 0 \<or> length args < 3 then ([Warned], m, s)
      else ([], apply_packet env (ap_lastCharStats s) (i64 (strtoll0 (args ! 1)) * i64 kHpScale)
                  (i64 (strtoll0 (args ! 2)) * i64 kHpScale) m s))"

text \<open>A command that needs the statistics object of the character it names.\<close>

definition with_stats ::
  "nat \<Rightarrow> string list \<Rightarrow> mem \<Rightarrow> hp \<Rightarrow> (u64 \<Rightarrow> hp_call list \<times> mem \<times> hp) \<Rightarrow> hp_call list \<times> mem \<times> hp" where
  "with_stats n args m s f =
     (if length args < n then ([Warned], m, s)
      else let cs = LookupCharStats (char_registry s) (strtoul0 (args ! 1))
           in if cs = 0 then ([Warned], m, s) else f cs)"

definition setHardHp :: "hp_env \<Rightarrow> string list \<Rightarrow> mem \<Rightarrow> hp \<Rightarrow> hp_call list \<times> mem \<times> hp" where
  "setHardHp env args m s =
     with_stats 3 args m s (\<lambda>cs.
       let target = i64 (strtoll0 (args ! 2));
           currentRaw = HardHpRaw m cs;
           targetInternal = target - 1;
           targetRaw = - targetInternal * i64 kHpScale;
           deltaRaw = targetRaw - currentRaw
       in ([], apply_packet env cs deltaRaw 0 m s))"

definition setSoftHp :: "hp_env \<Rightarrow> string list \<Rightarrow> mem \<Rightarrow> hp \<Rightarrow> hp_call list \<times> mem \<times> hp" where
  "setSoftHp env args m s =
     with_stats 3 args m s (\<lambda>cs.
       let target = i64 (strtoll0 (args ! 2));
           (m, s) = apply_packet env cs 0 1 m s;
           m = write_field m cs kSoftHpDamageOff (- (target - 1) * i64 kHpScale);
           m = write_field m cs kSoftHpBonusOff (0 :: u64);
           m = write_field m cs kSoftHpEffMaxOff (0 :: u64)
       in ([], m, s))"

definition call_virtual :: "hp_env \<Rightarrow> u64 \<Rightarrow> u64 \<Rightarrow> mem \<times> hp \<Rightarrow> hp_call list \<times> mem \<times> hp" where
  "call_virtual env off cs ms =
     (case ms of (m, s) \<Rightarrow>
        let fn = read_field m (read_field m cs 0) off in ([Called fn cs], virtual_call env fn cs m, s))"

definition knockout :: "hp_env \<Rightarrow> string list \<Rightarrow> mem \<Rightarrow> hp \<Rightarrow> hp_call list \<times> mem \<times> hp" where
  "knockout env args m s =
     with_stats 2 args m s (\<lambda>cs. call_virtual env 0x140 cs (apply_packet env cs 0 (i64 (1000 * kHpScale)) m s))"

definition kill :: "hp_env \<Rightarrow> string list \<Rightarrow> mem \<Rightarrow> hp \<Rightarrow> hp_call list \<times> mem \<times> hp" where
  "kill env args m s =
     with_stats 2 args m s (\<lambda>cs.
       call_virtual env 0x130 cs (apply_packet env cs (i64 (1000 * kHpScale)) (i64 (1000 * kHpScale)) m s))"

definition pokePlayer :: "string list \<Rightarrow> mem \<Rightarrow> hp \<Rightarrow> hp_call list \<times> mem \<times> hp" where
  "pokePlayer args m s =
     with_stats 4 args m s (\<lambda>cs.
       ([], write_field m (cs - kCharStatsToPlayerDelta) (ucast (strtoul16 (strip_0x (args ! 2)))) (i64 (strtoll0 (args ! 3))), s))"

definition stageHitOverride :: "string list \<Rightarrow> hp \<Rightarrow> hp_call list \<times> hp" where
  "stageHitOverride args s =
     (if length args < 3 then ([Warned], s)
      else ([], s\<lparr>ap_overrideHardHp := i64 (strtoll0 (args ! 1)) * i64 kHpScale,
                  ap_overrideSoftHp := i64 (strtoll0 (args ! 2)) * i64 kHpScale, ap_pendingOverride := True\<rparr>))"

definition setPacifist :: "string list \<Rightarrow> hp \<Rightarrow> hp_call list \<times> hp" where
  "setPacifist args s =
     (if length args < 3 then ([Warned], s)
      else let charID = strtoul0 (args ! 1); on = (strtol0 (args ! 2) \<noteq> 0)
           in if charID = 0 then ([Warned], s) else ([], SetPacifist charID on s))"

definition isPacifist :: "string list \<Rightarrow> hp \<Rightarrow> string" where
  "isPacifist args s =
     (if length args < 2 then ''0'' else if IsPacifist (strtoul0 (args ! 1)) s then ''1'' else ''0'')"

section \<open>Reports\<close>

text \<open>A row of \<open>dumpCharStats\<close>: number, object, and for hard and soft hit points the number shown, the maximum, and
  both as stored.\<close>

definition registry_row :: "mem \<Rightarrow> u32 \<Rightarrow> u64 \<Rightarrow> u32 \<times> u64 \<times> (int \<times> int \<times> u64 \<times> u64) \<times> (int \<times> int \<times> u64 \<times> u64)" where
  "registry_row m cid cs =
     (cid, cs,
      (HardHpDisplay m cs, sint (HardHpMaxRaw m cs) sdiv kHpScale, HardHpRaw m cs, HardHpMaxRaw m cs),
      (SoftHpDisplay m cs, sint (SoftHpMaxRaw m cs) sdiv kHpScale, SoftHpRaw m cs, SoftHpMaxRaw m cs))"

text \<open>\<open>dumpHpTriplets\<close>: the three terms and their sum, hard and soft.\<close>

definition hp_triplets :: "mem \<Rightarrow> u64 \<Rightarrow> u64 list \<times> u64 list" where
  "hp_triplets m cs =
     ([ReadI64At m cs kHardHpEffMaxOff, ReadI64At m cs kHardHpDamageOff, ReadI64At m cs kHardHpBonusOff, HardHpEffective m cs],
      [ReadI64At m cs kSoftHpEffMaxOff, ReadI64At m cs kSoftHpDamageOff, ReadI64At m cs kSoftHpBonusOff, SoftHpEffective m cs])"

text \<open>\<open>dumpPlayerDeathFields\<close>: the fields of the player the engine's death checks read, and the two sums they
  compare with one.\<close>

definition death_fields :: "mem \<Rightarrow> u64 \<Rightarrow> u64 list \<times> u64 \<times> u64" where
  "death_fields m cs =
     (let rd = (\<lambda>off. (read_field m (cs - kCharStatsToPlayerDelta) off :: u64))
      in ([rd 0xBC0, rd 0xBC8, rd 0xBE0, rd 0xCA0, rd 0xCA8, rd 0xCC0],
          (rd 0xBE0 - rd 0xBC0) + rd 0xBC8, (rd 0xCC0 - rd 0xCA0) + rd 0xCA8))"

text \<open>\<open>vitalDump\<close>: the three suspected fields of the object last seen and their sum.\<close>

definition vital_fields :: "mem \<Rightarrow> hp \<Rightarrow> (u64 \<times> u64 \<times> u64 \<times> u64) option" where
  "vital_fields m s =
     (if lastSeen s = 0 then None
      else let a = read_field m (lastSeen s) 0x2D8; b = read_field m (lastSeen s) 0x2E0; c = read_field m (lastSeen s) 0x2F8
           in Some (a, b, c, c - a + b))"

end
