(* ===== verification/Hit_Points_Laws.thy ===== *)
theory Hit_Points_Laws
  imports Hit_Points
begin

text \<open>
  What the hit-point commands and hooks do: packets, pacifists, staged overrides, targets reached and missed,
  and the numbers read back.
\<close>

section \<open>Packets\<close>

lemma pkt_set_same [simp]: "pkt (set_pkt p i v m) p i = v"
  by (simp add: pkt_def set_pkt_def read_write_field [where 'a = 64 and n = 8])

lemma word_index:
  "i < j \<Longrightarrow> j < 100 \<Longrightarrow> unat (word_of_nat (8 * j) - word_of_nat (8 * i) :: u64) = 8 * (j - i)"
proof -
  assume "i < j" "j < 100"
  have "(word_of_nat (8 * j) - word_of_nat (8 * i) :: u64) = word_of_nat (8 * j - 8 * i)"
    using \<open>i < j\<close> by (subst of_nat_diff) simp_all
  then have "unat (word_of_nat (8 * j) - word_of_nat (8 * i) :: u64) = 8 * j - 8 * i"
    using \<open>j < 100\<close> by (simp only:) (subst unat_of_nat64; simp)
  then show ?thesis by simp
qed

lemma outside_words:
  assumes "i \<noteq> j" "i < 100" "j < 100"
  shows "outside (word_of_nat (8 * i)) 8 (word_of_nat (8 * j)) 8"
proof (cases "i < j")
  case True
  then show ?thesis using assms word_index [of i j] by (intro outside_before) simp_all
next
  case False
  then have "j < i" using assms(1) by simp
  then show ?thesis using assms word_index [of j i] by (intro outside_above) simp_all
qed

lemma pkt_set_other [simp]:
  "i \<noteq> j \<Longrightarrow> i < 100 \<Longrightarrow> j < 100 \<Longrightarrow> pkt (set_pkt p j v m) p i = pkt m p i"
  unfolding pkt_def set_pkt_def by (rule read_write_const) (simp add: outside_words del: of_nat_mult)

lemma pkt_nullify:
  "i \<in> {0, 1, 3, 4, 5, 6} \<Longrightarrow> pkt (nullify p m) p i = 0"
  "pkt (nullify p m) p 2 = pkt m p 2"
  by (auto simp: nullify_def)

section \<open>Pacifists\<close>


text \<open>An override staged with \<open>stageHitOverride\<close> is stronger than the pacifist's flag: on the next hit of a
  pacifist on a player the engine applies the staged damage.\<close>

theorem staged_override_overrules_pacifism:
  assumes "OnePunchMan env a m = (ret, m1)" "outDamage a \<noteq> 0" "\<not> op_pendingOverride s"
    "ResolvePlayerCharId m1 (char_registry s) (attackerCtx a) \<in> pacifist s - {0}"
    "ResolvePlayerCharId m1 (char_registry s) (defenderCtx a) \<noteq> 0"
    "ap_pendingOverride s"
  shows "\<exists>m2 s2. combat_hit env a m s = (Hit_ApplyDamage env (defenderCtx a) (outDamage a) m2, s2) \<and>
     pkt m2 (outDamage a) 0 = ap_overrideHardHp s \<and> pkt m2 (outDamage a) 1 = ap_overrideSoftHp s \<and>
     \<not> ap_pendingOverride s2"
  using assms
  by (simp add: combat_hit_def OnePunchMan_Call_def IsPacifist_def HitApplyDamage_Call_def Let_def)
     (rule exI, rule conjI, rule refl, simp)

section \<open>Targets\<close>

text \<open>The engine's function as far as the commands rely on it: the first word of the packet is added to the damage
  term of the object's hard hit points.\<close>

definition engine_adds_damage :: "hp_env \<Rightarrow> bool" where
  "engine_adds_damage env \<longleftrightarrow>
     (\<forall>cs p m. HardHpRaw (Hit_ApplyDamage env cs p m) cs = HardHpRaw m cs + pkt m p 0)"

lemma length_packet [simp]: "length (packet_bytes hard soft) = 48"
  by (simp add: packet_bytes_def)

lemma packet_word: "pkt (mwrite m p (packet_bytes hard soft)) p 0 = hard"
proof -
  let ?bs = "packet_bytes hard soft"
  have "mread (mwrite m p ?bs) p (8 + 40) = ?bs" using mwrite_same [of ?bs m p] by simp
  then have "mread (mwrite m p ?bs) p 8 = take 8 ?bs" unfolding mread_add by (metis append_eq_conv_conj length_mread)
  also have "\<dots> = store_le 8 hard" by (simp add: packet_bytes_def)
  finally show ?thesis by (simp add: pkt_def read_field_def load_store_le)
qed

lemma apply_packet_hard:
  assumes "engine_adds_damage env" "outside (cs + kHardHpDamageOff) 8 (packet_at env) 48" "packet_at env \<noteq> 0"
    "apply_packet env cs hard soft m s = (m', s')"
  shows "HardHpRaw m' cs = HardHpRaw m cs + (if ap_pendingOverride s then ap_overrideHardHp s else hard)"
    and "\<not> ap_pendingOverride s'"
proof -
  let ?p = "packet_at env"
  let ?m = "mwrite m ?p (packet_bytes hard soft)"
  let ?w = "set_pkt ?p 1 (ap_overrideSoftHp s) (set_pkt ?p 0 (ap_overrideHardHp s) ?m)"
  have raw: "HardHpRaw ?m cs = HardHpRaw m cs"
    using mread_outside [of "cs + kHardHpDamageOff" 8 ?p "packet_bytes hard soft" m] assms(2)
    by (simp add: HardHpRaw_def read_field_def)
  have part: "outside (cs + kHardHpDamageOff) 8 (?p + word_of_nat (8 * i)) 8" if "i < 6" for i
    unfolding outside_def list_all_iff
  proof
    fix j assume "j \<in> set [0..<8]"
    then have far: "48 \<le> unat (cs + kHardHpDamageOff + word_of_nat j - ?p)"
      using assms(2) by (simp add: outside_def list_all_iff)
    have n: "unat (word_of_nat (8 * i) :: u64) = 8 * i" using that by (subst unat_of_nat64) simp_all
    have eq: "cs + kHardHpDamageOff + word_of_nat j - (?p + word_of_nat (8 * i)) =
        cs + kHardHpDamageOff + word_of_nat j - ?p - word_of_nat (8 * i)" by (simp add: algebra_simps)
    have "unat (cs + kHardHpDamageOff + word_of_nat j - ?p - word_of_nat (8 * i)) =
        unat (cs + kHardHpDamageOff + word_of_nat j - ?p) - 8 * i"
      using far n that by (subst unat_sub) (simp_all add: word_le_nat_alt)
    then show "8 \<le> unat (cs + kHardHpDamageOff + word_of_nat j - (?p + word_of_nat (8 * i)))"
      unfolding eq using far that by linarith
  qed
  have keep: "HardHpRaw (set_pkt ?p i v x) cs = HardHpRaw x cs" if "i < 6" for i v x
    unfolding HardHpRaw_def set_pkt_def by (rule read_write_other) (use part [OF that] in simp)
  show "HardHpRaw m' cs = HardHpRaw m cs + (if ap_pendingOverride s then ap_overrideHardHp s else hard)"
    and "\<not> ap_pendingOverride s'"
    using assms(1,3,4) packet_word [of m ?p hard soft]
    by (auto simp: apply_packet_def HitApplyDamage_Call_def engine_adds_damage_def Let_def keep raw split: if_splits)
qed

text \<open>C13: \<open>setHardHp\<close> brings a registered character to the hit points asked for, unless a hit override is staged:
  then the override is spent on the command, and the character is moved by the staged damage instead.\<close>

theorem hard_hp_reaches_target:
  assumes "engine_adds_damage env" "packet_at env \<noteq> 0"
    "char_registry s c = Some cs" "cs \<noteq> 0" "outside (cs + kHardHpDamageOff) 8 (packet_at env) 48"
    "3 \<le> length args" "strtoul0 (args ! 1) = c" "strtoll0 (args ! 2) = hp"
    "setHardHp env args m s = (calls, m', s')"
  shows "HardHpRaw m' cs = (if ap_pendingOverride s then HardHpRaw m cs + ap_overrideHardHp s else i64 (- ((hp - 1) * kHpScale)))
     \<and> (\<not> ap_pendingOverride s \<longrightarrow> 0 \<le> hp \<longrightarrow> hp \<le> 10 ^ 12 \<longrightarrow> HardHpDisplay m' cs = min hp (max_display (HardHpMaxRaw m' cs)))
     \<and> \<not> ap_pendingOverride s' \<and> calls = []"
proof -
  let ?d = "- ((i64 hp - 1) * i64 kHpScale) - HardHpRaw m cs"
  have ap: "apply_packet env cs ?d 0 m s = (m', s')" "calls = []"
    using assms(3-9) by (auto simp: setHardHp_def with_stats_def LookupCharStats_def Let_def split: if_splits)
  note hard = apply_packet_hard [OF assms(1,5,2) ap(1)]
  have sc: "- ((i64 hp - 1) * i64 kHpScale) = i64 (- ((hp - 1) * kHpScale))" by (simp add: i64_def algebra_simps)
  have raw: "HardHpRaw m' cs = (if ap_pendingOverride s then HardHpRaw m cs + ap_overrideHardHp s else i64 (- ((hp - 1) * kHpScale)))"
    using hard(1) unfolding sc by simp
  then show ?thesis using hard(2) ap(2) hard_display_of [of m' cs hp] by auto
qed

lemma soft_fields:
  assumes "m' = write_field (write_field (write_field m cs kSoftHpDamageOff v) cs kSoftHpBonusOff (0 :: u64)) cs kSoftHpEffMaxOff (0 :: u64)"
  shows "SoftHpRaw m' cs = v" "SoftHpEffective m' cs = - v"
proof -
  have o: "outside kSoftHpDamageOff (LENGTH(64) div 8) kSoftHpBonusOff (LENGTH(64) div 8)"
    "outside kSoftHpDamageOff (LENGTH(64) div 8) kSoftHpEffMaxOff (LENGTH(64) div 8)"
    "outside kSoftHpBonusOff (LENGTH(64) div 8) kSoftHpEffMaxOff (LENGTH(64) div 8)"
    unfolding kSoftHpDamageOff_def kSoftHpBonusOff_def kSoftHpEffMaxOff_def by (rule outside_before; simp)+
  show "SoftHpRaw m' cs = v" "SoftHpEffective m' cs = - v"
    unfolding assms SoftHpRaw_def SoftHpEffective_def ReadI64At_def
    by (simp_all add: read_write_const [OF o(1)] read_write_const [OF o(2)] read_write_const [OF o(3)]
        read_write_field [where 'a = 64 and n = 8])
qed

text \<open>After \<open>setSoftHp\<close> for a registered character the three terms of its soft hit points add up to one less
  than the number asked for, and the library itself shows one less: the command counts from one as the display does
  for hard hit points, the display of soft hit points does not.\<close>

theorem soft_hp_shows_one_less:
  assumes "char_registry s c = Some cs" "cs \<noteq> 0" "3 \<le> length args" "strtoul0 (args ! 1) = c" "strtoll0 (args ! 2) = hp"
    "0 \<le> hp" "hp \<le> 10 ^ 12" "setSoftHp env args m s = (calls, m', s')"
  shows "SoftHpEffective m' cs = i64 ((hp - 1) * kHpScale)
     \<and> SoftHpDisplay m' cs = min (hp - 1) (max_display (SoftHpMaxRaw m' cs))"
proof
  obtain m1 where m1: "m' = write_field (write_field (write_field m1 cs kSoftHpDamageOff (- (i64 hp - 1) * i64 kHpScale)) cs
      kSoftHpBonusOff (0 :: u64)) cs kSoftHpEffMaxOff (0 :: u64)"
    using assms(1-5,8) by (auto simp: setSoftHp_def with_stats_def LookupCharStats_def Let_def split: if_splits prod.splits)
  have sc: "- (i64 hp - 1) * i64 kHpScale = i64 (- ((hp - 1) * kHpScale))" by (simp add: i64_def algebra_simps)
  note f = soft_fields [OF m1, unfolded sc]
  show "SoftHpEffective m' cs = i64 ((hp - 1) * kHpScale)" using f(2) by (simp add: i64_minus)
  show "SoftHpDisplay m' cs = min (hp - 1) (max_display (SoftHpMaxRaw m' cs))"
    using soft_display_of [of m' cs "hp - 1"] f(1) assms(6,7) by simp
qed

text \<open>The sums the death checks read from the player are the effective hit points of its statistics object.\<close>

lemma death_sums: "snd (death_fields m cs) = (HardHpEffective m cs, SoftHpEffective m cs)"
proof -
  have f: "(read_field m (cs - kCharStatsToPlayerDelta) (off + kCharStatsToPlayerDelta) :: u64) = read_field m cs off" for off
    by (simp add: read_field_def)
  have o: "0xBC0 = kHardHpDamageOff + kCharStatsToPlayerDelta" "0xBC8 = kHardHpBonusOff + kCharStatsToPlayerDelta"
    "0xBE0 = kHardHpEffMaxOff + kCharStatsToPlayerDelta" "0xCA0 = kSoftHpDamageOff + kCharStatsToPlayerDelta"
    "0xCA8 = kSoftHpBonusOff + kCharStatsToPlayerDelta" "0xCC0 = kSoftHpEffMaxOff + kCharStatsToPlayerDelta"
    by (simp_all add: kHardHpDamageOff_def kHardHpBonusOff_def kHardHpEffMaxOff_def kSoftHpDamageOff_def
        kSoftHpBonusOff_def kSoftHpEffMaxOff_def kCharStatsToPlayerDelta_def)
  show ?thesis unfolding death_fields_def Let_def o f HardHpEffective_def SoftHpEffective_def ReadI64At_def by simp
qed

text \<open>\<open>setSoftHp\<close> leaves a registered character's soft hit points at or below the threshold of the engine's check,
  so that it loses consciousness, exactly for the targets up to one: the lowest number the display has for a character
  that is conscious is not one the command can set.\<close>

theorem lowest_soft_target_knocks_out:
  assumes "char_registry s c = Some cs" "cs \<noteq> 0" "3 \<le> length args" "strtoul0 (args ! 1) = c" "strtoll0 (args ! 2) = hp"
    "- (10 ^ 12) \<le> hp" "hp \<le> 10 ^ 12" "setSoftHp env args m s = (calls, m', s')"
  shows "sint (snd (snd (death_fields m' cs))) < 1 \<longleftrightarrow> hp \<le> 1"
proof -
  obtain m1 where m1: "m' = write_field (write_field (write_field m1 cs kSoftHpDamageOff (- (i64 hp - 1) * i64 kHpScale)) cs
      kSoftHpBonusOff (0 :: u64)) cs kSoftHpEffMaxOff (0 :: u64)"
    using assms(1-5,8) by (auto simp: setSoftHp_def with_stats_def LookupCharStats_def Let_def split: if_splits prod.splits)
  have "SoftHpEffective m' cs = i64 ((hp - 1) * kHpScale)"
    using soft_fields(2) [OF m1] by (simp add: i64_def algebra_simps)
  moreover have "sint (i64 ((hp - 1) * kHpScale)) = (hp - 1) * kHpScale"
    by (rule sint_i64) (use assms(6,7) in \<open>auto simp: kHpScale_def\<close>)
  ultimately show ?thesis by (auto simp: death_sums kHpScale_def)
qed

section \<open>Numbers read back\<close>

lemma strtoul10_fmt_u: "strtoul10 (fmt_u (c :: u32)) = c"
  using sign_of_digits [of "unat c" "[]"] uint_bounded [of c]
  by (simp add: strtoul10_def strtoul_value_def fmt_u_def decimal_takeWhile decimal_value Let_def)

lemma sdiv_bounded:
  assumes "- 0x80000000 \<le> v" "v < 0x80000000"
  shows "\<bar>v sdiv kHpScale\<bar> \<le> 2147"
proof -
  have "\<bar>v\<bar> div kHpScale \<le> 0x80000000 div kHpScale" by (rule zdiv_mono1) (use assms in \<open>auto simp: kHpScale_def\<close>)
  moreover have "0 \<le> \<bar>v\<bar> div kHpScale" by (simp add: kHpScale_def)
  ultimately show ?thesis by (cases "0 < v") (simp_all add: signed_divide_int_def kHpScale_def abs_mult sgn_if)
qed

text \<open>The hit points written into a character's record read back as the number written exactly when its amount is
  at most 2147: beyond it the stored product does not fit the 32 bits of the field.\<close>

theorem hp_reads_back_iff_it_fits:
  assumes "ci \<noteq> 0" "\<forall>m. Character_GetByID env c m = ci" "- 0x80000000 \<le> hp" "hp < 0x80000000"
    and "SetPlayerHpMemoryOnly env [name, fmt_u c, fmt_d hp] m = (calls, m')"
  shows "GetPlayerHp env [name', fmt_u c] m' = hp \<longleftrightarrow> \<bar>hp\<bar> \<le> 2147"
proof -
  have m': "m' = write_field m ci CharInfo_HardHP (scaled hp)"
    using assms by (simp add: SetPlayerHpMemoryOnly_def Char_ParseCharId_def ParseInt_def strtoul10_fmt_u atoi_fmt_d Let_def)
  have get: "GetPlayerHp env [name', fmt_u c] m' = sint (scaled hp) sdiv kHpScale"
    using assms(1,2) unfolding m'
    by (simp add: GetPlayerHp_def Char_ParseCharId_def strtoul10_fmt_u Let_def read_write_field [where 'a = 32 and n = 4])
  show ?thesis
  proof
    assume "GetPlayerHp env [name', fmt_u c] m' = hp"
    moreover have "- 0x80000000 \<le> sint (scaled hp)" "sint (scaled hp) < 0x80000000"
      using sint_greater_eq [of "scaled hp"] sint_less [of "scaled hp"] by simp_all
    ultimately show "\<bar>hp\<bar> \<le> 2147" using sdiv_bounded get by metis
  next
    assume "\<bar>hp\<bar> \<le> 2147"
    then have "sint (scaled hp) = hp * kHpScale"
      unfolding scaled_def sint_sbintrunc' by (intro signed_take_bit_int_eq_self) (simp_all add: kHpScale_def)
    then show "GetPlayerHp env [name', fmt_u c] m' = hp" by (simp add: get sdiv_scale)
  qed
qed

section \<open>Scripts\<close>

lemma ParseInt_range: "- 0x80000000 \<le> ParseInt args i" "ParseInt args i < 0x80000000"
  using atoi_range by (simp_all add: ParseInt_def)

lemma length_script: "length (player_op_script c primitive name) \<le> 700 + length primitive + 2 * length name"
  using length_fmt_u32 [of c] by (simp add: player_op_script_def ts_line_def)

text \<open>No script a command evaluates is cut off by the buffers it is formatted in, whatever its arguments: the
  commands evaluate the whole text, with the number they were given.\<close>

theorem scripts_are_complete:
  "ApplyDamageCb env args m =
     evaluate env (player_op_script (Char_ParseCharId args 1) (''%p.applyDamage('' @ fmt_d (ParseInt args 2) @ '', %p);'') ''applyDamage'')
       ''<Lifx::applyDamage>'' m \<and>
   HealToFullCb env args m =
     evaluate env (player_op_script (Char_ParseCharId args 1) ''%p.applyDamage(-999999, %p);'' ''healToFull'') ''<Lifx::healToFull>'' m \<and>
   SetDamageLevelCb env args m =
     evaluate env (player_op_script (Char_ParseCharId args 1) (''%p.setDamageLevel('' @ fmt_d (ParseInt args 2) @ '');'') ''setDamageLevel'')
       ''<Lifx::setDamageLevel>'' m \<and>
   SetPlayerLiveHpCb env args m =
     (let ci = Character_GetByID env (Char_ParseCharId args 1) m
      in if ci = 0 then ([Warned], m)
         else evaluate env (player_op_script (Char_ParseCharId args 1)
                (''%p.applyDamage('' @ fmt_d (sint (live_delta m ci (ParseInt args 2))) @ '', %p);'') ''setPlayerLiveHp'')
                ''<Lifx::setPlayerLiveHp>'' m)"
proof -
  have d: "length (fmt_d (ParseInt args 2)) \<le> 11" by (rule length_fmt_d; rule ParseInt_range)
  have l: "length (fmt_d (sint (w :: u32))) \<le> 11" for w
    by (rule length_fmt_d) (use sint_greater_eq [of w] sint_less [of w] in simp_all)
  have fits: "snprintf_out 2048 (player_op_script c p n) = player_op_script c p n"
    if "length p < 128" "length n < 100" for c p n
    using that length_script [of c p n] by (intro snprintf_out_fits) linarith
  have "ApplyDamageCb env args m =
     evaluate env (player_op_script (Char_ParseCharId args 1) (''%p.applyDamage('' @ fmt_d (ParseInt args 2) @ '', %p);'') ''applyDamage'')
       ''<Lifx::applyDamage>'' m"
    using d by (simp add: ApplyDamageCb_def fits Let_def)
  moreover have "HealToFullCb env args m =
     evaluate env (player_op_script (Char_ParseCharId args 1) ''%p.applyDamage(-999999, %p);'' ''healToFull'') ''<Lifx::healToFull>'' m"
    by (simp add: HealToFullCb_def fits Let_def)
  moreover have "SetDamageLevelCb env args m =
     evaluate env (player_op_script (Char_ParseCharId args 1) (''%p.setDamageLevel('' @ fmt_d (ParseInt args 2) @ '');'') ''setDamageLevel'')
       ''<Lifx::setDamageLevel>'' m"
    using d by (simp add: SetDamageLevelCb_def fits Let_def)
  moreover have "SetPlayerLiveHpCb env args m =
     (let ci = Character_GetByID env (Char_ParseCharId args 1) m
      in if ci = 0 then ([Warned], m)
         else evaluate env (player_op_script (Char_ParseCharId args 1)
                (''%p.applyDamage('' @ fmt_d (sint (live_delta m ci (ParseInt args 2))) @ '', %p);'') ''setPlayerLiveHp'')
                ''<Lifx::setPlayerLiveHp>'' m)"
    using l [of "live_delta m (Character_GetByID env (Char_ParseCharId args 1) m) (ParseInt args 2)"]
    by (simp add: SetPlayerLiveHpCb_def fits Let_def)
  ultimately show ?thesis by (intro conjI)
qed

section \<open>At concrete inputs\<close>

definition demo_hp_env :: hp_env where
  "demo_hp_env =
     \<lparr>Hit_ApplyDamage = \<lambda>cs p m. write_field m cs kHardHpDamageOff (HardHpRaw m cs + pkt m p 0),
      OnePunchMan = \<lambda>a m. (1, set_pkt (outDamage a) 0 5000000 m), Wounds_DealDamage = \<lambda>_ _ m. m,
      Character_GetByID = \<lambda>_ _. 0x5000, Character_PersistHp = \<lambda>_ m. m, Character_SendChanges = \<lambda>_ _ _ m. m,
      virtual_call = \<lambda>_ _ m. m, Con_Evaluate = \<lambda>_ _ m. m, packet_at = 0x9000\<rparr>"

definition demo_hp :: hp where
  "demo_hp =
     \<lparr>char_registry = [7 \<mapsto> 0x10000, 8 \<mapsto> 0x30000], lastSeen = 0, ap_callCount = 0, ap_lastCharStats = 0, ap_lastDmgPacket = 0,
      ap_pendingOverride = True, ap_overrideHardHp = 3000000, ap_overrideSoftHp = 0, op_callCount = 0, op_lastAttackerCtx = 0,
      op_lastDefenderCtx = 0, op_lastWeapon = 0, op_pendingOverride = False, op_overrideHardHp = 0, op_overrideSoftHp = 0,
      pacifist = {7}, wd_callCount = 0, wd_lastSelf = 0, wd_lastBodyPart = - 1\<rparr>"

definition demo_punch :: punch where
  "demo_punch =
     \<lparr>attackerCtx = 0x10000, outDamage = 0x9000, isPrimary = 1, weapon = 0, defenderCtx = 0x30000, armorQuality = 0,
      isWarStance = 0, u_args = (0, 0, 0)\<rparr>"

definition demo_chars :: mem where
  "demo_chars =
     write_field (write_field (\<lambda>_. 0) 0x10000 kCharIdOffOnCharStats (7 :: u32)) 0x30000 kCharIdOffOnCharStats (8 :: u32)"

lemma demo_hit: "OnePunchMan demo_hp_env demo_punch demo_chars = (1, set_pkt 0x9000 0 5000000 demo_chars)"
  by (simp add: demo_hp_env_def demo_punch_def)

lemma demo_numbers:
  "(read_field (set_pkt 0x9000 0 v demo_chars) 0x10000 kCharIdOffOnCharStats :: u32) = 7"
  "(read_field (set_pkt 0x9000 0 v demo_chars) 0x30000 kCharIdOffOnCharStats :: u32) = 8"
proof -
  have o: "outside (0x10000 + kCharIdOffOnCharStats) (LENGTH(32) div 8) (0x9000 + word_of_nat (8 * 0)) (LENGTH(64) div 8)"
    "outside (0x30000 + kCharIdOffOnCharStats) (LENGTH(32) div 8) (0x9000 + word_of_nat (8 * 0)) (LENGTH(64) div 8)"
    unfolding kCharIdOffOnCharStats_def by (rule outside_above; simp)+
  have b: "outside (0x10000 + kCharIdOffOnCharStats) (LENGTH(32) div 8) (0x30000 + kCharIdOffOnCharStats) (LENGTH(32) div 8)"
    unfolding kCharIdOffOnCharStats_def by (rule outside_before; simp)
  show "(read_field (set_pkt 0x9000 0 v demo_chars) 0x10000 kCharIdOffOnCharStats :: u32) = 7"
    unfolding set_pkt_def read_write_other [OF o(1)] demo_chars_def read_write_other [OF b]
    by (simp add: read_write_field [where 'a = 32 and n = 4])
  show "(read_field (set_pkt 0x9000 0 v demo_chars) 0x30000 kCharIdOffOnCharStats :: u32) = 8"
    unfolding set_pkt_def read_write_other [OF o(2)] demo_chars_def
    by (simp add: read_write_field [where 'a = 32 and n = 4])
qed

lemma demo_resolve:
  "ResolvePlayerCharId (set_pkt 0x9000 0 v demo_chars) (char_registry demo_hp) (attackerCtx demo_punch) = 7"
  "ResolvePlayerCharId (set_pkt 0x9000 0 v demo_chars) (char_registry demo_hp) (defenderCtx demo_punch) = 8"
  by (simp_all add: ResolvePlayerCharId_def demo_punch_def demo_numbers demo_hp_def LookupCharStats_def)


theorem staged_override_overrules_pacifism_witness:
  "\<exists>m2 s2. combat_hit demo_hp_env demo_punch demo_chars demo_hp =
     (Hit_ApplyDamage demo_hp_env (defenderCtx demo_punch) (outDamage demo_punch) m2, s2) \<and>
     pkt m2 (outDamage demo_punch) 0 = ap_overrideHardHp demo_hp \<and> pkt m2 (outDamage demo_punch) 1 = ap_overrideSoftHp demo_hp \<and>
     \<not> ap_pendingOverride s2"
proof (rule staged_override_overrules_pacifism [OF demo_hit])
  show "ResolvePlayerCharId (set_pkt 0x9000 0 5000000 demo_chars) (char_registry demo_hp) (attackerCtx demo_punch) \<in> pacifist demo_hp - {0}"
    unfolding demo_resolve by (simp add: demo_hp_def)
qed (simp_all add: demo_resolve, simp_all add: demo_punch_def demo_hp_def)

lemma demo_adds: "engine_adds_damage demo_hp_env"
  by (simp add: engine_adds_damage_def demo_hp_env_def HardHpRaw_def read_write_field [where 'a = 64 and n = 8])

lemma demo_apart: "outside (0x10000 + kHardHpDamageOff) 8 (packet_at demo_hp_env) 48"
  unfolding kHardHpDamageOff_def demo_hp_env_def by (simp, rule outside_above; simp)

lemma demo_arguments: "strtoul0 ''7'' = 7" "strtoll0 ''50'' = 50"
  by code_simp+

theorem hard_hp_reaches_target_witness:
  "\<exists>calls m' s'. setHardHp demo_hp_env [''setHardHp'', ''7'', ''50''] (\<lambda>_. 0) (demo_hp\<lparr>ap_pendingOverride := False\<rparr>) = (calls, m', s')
     \<and> HardHpRaw m' 0x10000 = i64 (- (49 * kHpScale))"
proof -
  let ?s = "demo_hp\<lparr>ap_pendingOverride := False\<rparr>" and ?args = "[''setHardHp'', ''7'', ''50'']"
  obtain calls m' s' where run: "setHardHp demo_hp_env ?args (\<lambda>_. 0) ?s = (calls, m', s')" by (metis prod_cases3)
  have "packet_at demo_hp_env \<noteq> 0" "char_registry ?s 7 = Some 0x10000" by (simp_all add: demo_hp_env_def demo_hp_def)
  from hard_hp_reaches_target [OF demo_adds this(1) this(2) _ demo_apart _ _ _ run, where hp = 50]
  have "HardHpRaw m' 0x10000 = i64 (- (49 * kHpScale))" by (simp add: demo_arguments)
  with run show ?thesis by blast
qed

theorem soft_hp_shows_one_less_witness:
  "\<exists>calls m' s'. setSoftHp demo_hp_env [''setSoftHp'', ''7'', ''50''] (\<lambda>_. 0) demo_hp = (calls, m', s')
     \<and> SoftHpEffective m' 0x10000 = i64 (49 * kHpScale)
     \<and> SoftHpDisplay m' 0x10000 = min 49 (max_display (SoftHpMaxRaw m' 0x10000))"
proof -
  let ?args = "[''setSoftHp'', ''7'', ''50'']"
  obtain calls m' s' where run: "setSoftHp demo_hp_env ?args (\<lambda>_. 0) demo_hp = (calls, m', s')" by (metis prod_cases3)
  have r: "char_registry demo_hp 7 = Some 0x10000" by (simp add: demo_hp_def)
  have "SoftHpEffective m' 0x10000 = i64 (49 * kHpScale)"
    "SoftHpDisplay m' 0x10000 = min 49 (max_display (SoftHpMaxRaw m' 0x10000))"
    using soft_hp_shows_one_less [OF r _ _ _ _ _ _ run, where hp = 50] by (simp_all add: demo_arguments)
  with run show ?thesis by blast
qed

theorem lowest_soft_target_knocks_out_witness:
  "\<exists>calls m' s'. setSoftHp demo_hp_env [''setSoftHp'', ''7'', ''50''] (\<lambda>_. 0) demo_hp = (calls, m', s')
     \<and> \<not> sint (snd (snd (death_fields m' 0x10000))) < 1"
proof -
  obtain calls m' s' where run: "setSoftHp demo_hp_env [''setSoftHp'', ''7'', ''50''] (\<lambda>_. 0) demo_hp = (calls, m', s')"
    by (metis prod_cases3)
  have r: "char_registry demo_hp 7 = Some 0x10000" by (simp add: demo_hp_def)
  show ?thesis using lowest_soft_target_knocks_out [OF r _ _ _ _ _ _ run, where hp = 50] run by (auto simp: demo_arguments)
qed

theorem hp_reads_back_iff_it_fits_witness:
  "\<exists>calls m'. SetPlayerHpMemoryOnly demo_hp_env [''setPlayerHpMemoryOnly'', fmt_u (7 :: u32), fmt_d 2148] (\<lambda>_. 0) = (calls, m') \<and>
     GetPlayerHp demo_hp_env [''getPlayerHp'', fmt_u (7 :: u32)] m' \<noteq> 2148"
proof -
  obtain calls m' where run: "SetPlayerHpMemoryOnly demo_hp_env [''setPlayerHpMemoryOnly'', fmt_u (7 :: u32), fmt_d 2148] (\<lambda>_. 0)
      = (calls, m')" by (meson surj_pair)
  have "\<forall>m. Character_GetByID demo_hp_env 7 m = 0x5000" by (simp add: demo_hp_env_def)
  from hp_reads_back_iff_it_fits [OF _ this _ _ run] run show ?thesis by auto
qed

end
