(* ===== verification/Vital_Tick.thy ===== *)
theory Vital_Tick
  imports Hit_Points_Laws Sector_Edge Npc_Laws
begin

text \<open>
  The hook on the engine's tick of a character's vitals, \<open>hook_vital_process_tick.cpp\<close>: it registers the character,
  reports its fields when debugging is on, and is the heartbeat of the sector-edge driver and of the bandits'
  attacks, all before the engine's own tick. A tick carries what the parts it drives read: the clocks, the position
  of the captured player, and the order in which the tables of bandits are walked.
\<close>

section \<open>Reports\<close>

record vital_log =
  sn_obj :: u64
  sn_fields :: "u64 \<times> u64 \<times> u64"
  sn_lastLogged :: int
  g_wideLastNs :: int
  g_wideSnap :: "u64 list"
  g_wideSnapValid :: bool

definition ShouldLog :: "int \<Rightarrow> vital_log \<Rightarrow> u64 \<Rightarrow> u64 \<times> u64 \<times> u64 \<Rightarrow> bool" where
  "ShouldLog now v obj abc =
     (if sn_obj v \<noteq> obj then True else if sn_fields v \<noteq> abc then True else 1000000000 < now - sn_lastLogged v)"

text \<open>One line of the wide scan: whether the field changed, its offset, its value.\<close>

definition wide_lines :: "bool \<Rightarrow> u64 list \<Rightarrow> u64 list \<Rightarrow> (bool \<times> nat \<times> u64) list" where
  "wide_lines valid prev cur =
     concat (map (\<lambda>i. let v = cur ! i; changed = (valid \<and> prev ! i \<noteq> v)
                      in if v \<noteq> 0 \<or> changed then [(changed, 0x100 + 8 * i, v)] else []) [0..<96])"

definition wide_fields :: "mem \<Rightarrow> u64 \<Rightarrow> u64 list" where
  "wide_fields m self = map (\<lambda>i. read_field m self (word_of_nat (0x100 + 8 * i))) [0..<96]"

definition report_vitals ::
  "int \<Rightarrow> mem \<Rightarrow> u64 \<Rightarrow> bool \<Rightarrow> vital_log \<Rightarrow> (u64 \<times> u64 \<times> u64) option \<times> (bool \<times> nat \<times> u64) list option \<times> vital_log" where
  "report_vitals now m self first v =
     (let abc = (read_field m self 0x2D8, read_field m self 0x2E0, read_field m self 0x2F8);
          log = ShouldLog now v self abc;
          v = (if log then v\<lparr>sn_obj := self, sn_fields := abc, sn_lastLogged := now\<rparr> else v);
          wide = (first \<and> 1000000000 < now - g_wideLastNs v);
          cur = wide_fields m self;
          ls = wide_lines (g_wideSnapValid v) (g_wideSnap v) cur;
          v = (if wide then v\<lparr>g_wideLastNs := now, g_wideSnap := cur, g_wideSnapValid := True\<rparr> else v)
      in (if log then Some abc else None, if wide then Some ls else None, v))"

section \<open>The tick\<close>

record vworld =
  W_mem :: mem
  W_hp :: hp
  W_calls :: u64
  W_log :: vital_log
  W_edge :: edge
  W_disp :: "forward disp"
  W_anim :: anim

record vtick =
  vt_self :: u64
  vt_debug :: bool
  vt_now :: int
  vt_edge :: tick
  vt_ms :: u64
  vt_stam :: "u64 list"
  vt_hits :: "u64 list"

record vout =
  vo_fields :: "(u64 \<times> u64 \<times> u64) option"
  vo_wide :: "(bool \<times> nat \<times> u64) list option"
  vo_fired :: "fired option"
  vo_anim :: "anim_call list"

definition see_vitals :: "vtick \<Rightarrow> vworld \<Rightarrow> (u64 \<times> u64 \<times> u64) option \<times> (bool \<times> nat \<times> u64) list option \<times> vworld" where
  "see_vitals t w =
     (let self = vt_self t; s = W_hp w;
          s = s\<lparr>char_registry := Internal_RegisterCharStats (W_mem w) self (char_registry s)\<rparr>;
          s = (if lastSeen s = 0 then s\<lparr>lastSeen := self\<rparr> else s);
          w = w\<lparr>W_hp := s\<rparr>
      in if vt_debug t
         then (case report_vitals (vt_now t) (W_mem w) self (self = lastSeen s) (W_log w) of
                 (f, d, v) \<Rightarrow> (f, d, w\<lparr>W_log := v\<rparr>))
         else (None, None, w))"

definition ProcessTick :: "(u64 \<Rightarrow> mem \<Rightarrow> mem) \<Rightarrow> world_grid \<Rightarrow> vtick \<Rightarrow> vworld \<Rightarrow> vout \<times> vworld" where
  "ProcessTick engine g t w =
     (let w = w\<lparr>W_calls := W_calls w + 1\<rparr>;
          (f, d, w) = (if vt_self t \<noteq> 0 then see_vitals t w else (None, None, w));
          (fired, e, dp) = OnTick g (vt_edge t) (W_edge w) (W_disp w);
          (calls, m, an) = OnHitTick (W_mem w) (vt_ms t) (vt_stam t) (vt_hits t) (W_anim w)
      in (\<lparr>vo_fields = f, vo_wide = d, vo_fired = fired, vo_anim = calls\<rparr>,
          w\<lparr>W_mem := engine (vt_self t) m, W_edge := e, W_disp := dp, W_anim := an\<rparr>))"

text \<open>Between two ticks the engine goes on: its memory changes.\<close>

fun run_vitals ::
  "(u64 \<Rightarrow> mem \<Rightarrow> mem) \<Rightarrow> world_grid \<Rightarrow> (mem \<times> vtick) list \<Rightarrow> vworld \<Rightarrow> vout list \<times> vworld" where
  "run_vitals engine g [] w = ([], w)"
| "run_vitals engine g ((m, t) # ts) w =
     (case ProcessTick engine g t (w\<lparr>W_mem := m\<rparr>) of (out, w') \<Rightarrow>
        (case run_vitals engine g ts w' of (outs, w'') \<Rightarrow> (out # outs, w'')))"

section \<open>What a tick does\<close>

lemma see_vitals_keeps:
  assumes "see_vitals t w = (f, d, w')"
  shows "W_mem w' = W_mem w" "W_edge w' = W_edge w" "W_disp w' = W_disp w" "W_anim w' = W_anim w"
    "char_registry (W_hp w') = Internal_RegisterCharStats (W_mem w) (vt_self t) (char_registry (W_hp w))"
    "W_hp w' = (W_hp w)\<lparr>char_registry := char_registry (W_hp w'), lastSeen := lastSeen (W_hp w')\<rparr>"
  using assms by (auto simp: see_vitals_def Let_def split: if_splits prod.splits)

lemma tick_parts:
  assumes "ProcessTick engine g t w = (out, w')"
  shows "OnTick g (vt_edge t) (W_edge w) (W_disp w) = (vo_fired out, W_edge w', W_disp w')"
    and "\<exists>m. OnHitTick (W_mem w) (vt_ms t) (vt_stam t) (vt_hits t) (W_anim w) = (vo_anim out, m, W_anim w') \<and>
         W_mem w' = engine (vt_self t) m"
    and "char_registry (W_hp w') =
         (if vt_self t \<noteq> 0 then Internal_RegisterCharStats (W_mem w) (vt_self t) (char_registry (W_hp w)) else char_registry (W_hp w))"
    and "W_hp w' = (W_hp w)\<lparr>char_registry := char_registry (W_hp w'), lastSeen := lastSeen (W_hp w')\<rparr>"
proof -
  let ?w = "w\<lparr>W_calls := W_calls w + 1\<rparr>"
  obtain f d w1 where s: "(if vt_self t \<noteq> 0 then see_vitals t ?w else (None, None, ?w)) = (f, d, w1)" by (metis prod_cases3)
  have k: "W_mem w1 = W_mem w" "W_edge w1 = W_edge w" "W_disp w1 = W_disp w" "W_anim w1 = W_anim w"
    "char_registry (W_hp w1) =
      (if vt_self t \<noteq> 0 then Internal_RegisterCharStats (W_mem w) (vt_self t) (char_registry (W_hp w)) else char_registry (W_hp w))"
    "W_hp w1 = (W_hp w)\<lparr>char_registry := char_registry (W_hp w1), lastSeen := lastSeen (W_hp w1)\<rparr>"
    using s see_vitals_keeps [of t ?w f d w1] by (auto split: if_splits)
  obtain fired e dp where e: "OnTick g (vt_edge t) (W_edge w) (W_disp w) = (fired, e, dp)" by (metis prod_cases3)
  obtain calls m an where h: "OnHitTick (W_mem w) (vt_ms t) (vt_stam t) (vt_hits t) (W_anim w) = (calls, m, an)"
    by (metis prod_cases3)
  have w': "out = \<lparr>vo_fields = f, vo_wide = d, vo_fired = fired, vo_anim = calls\<rparr>"
    "w' = w1\<lparr>W_mem := engine (vt_self t) m, W_edge := e, W_disp := dp, W_anim := an\<rparr>"
    using assms s e h by (simp_all add: ProcessTick_def Let_def k)
  show "OnTick g (vt_edge t) (W_edge w) (W_disp w) = (vo_fired out, W_edge w', W_disp w')"
    by (simp add: w' e)
  show "\<exists>m. OnHitTick (W_mem w) (vt_ms t) (vt_stam t) (vt_hits t) (W_anim w) = (vo_anim out, m, W_anim w') \<and>
      W_mem w' = engine (vt_self t) m"
    by (simp add: w' h)
  show "char_registry (W_hp w') =
      (if vt_self t \<noteq> 0 then Internal_RegisterCharStats (W_mem w) (vt_self t) (char_registry (W_hp w)) else char_registry (W_hp w))"
    using k(5) by (simp add: w')
  show "W_hp w' = (W_hp w)\<lparr>char_registry := char_registry (W_hp w'), lastSeen := lastSeen (W_hp w')\<rparr>"
    using k(6) by (simp add: w')
qed


text \<open>Over any sequence of ticks the registry of characters keeps to numbers in range and to objects that exist, and
  it never forgets a number: a character that leaves stays registered with the object it had.\<close>

theorem registry_never_forgets:
  assumes "registry_ok (char_registry (W_hp w))" "0 \<notin> ran (char_registry (W_hp w))"
    and "run_vitals engine g ts w = (outs, w')"
  shows "registry_ok (char_registry (W_hp w')) \<and> 0 \<notin> ran (char_registry (W_hp w')) \<and>
     dom (char_registry (W_hp w)) \<subseteq> dom (char_registry (W_hp w'))"
  using assms
proof (induction ts arbitrary: w outs)
  case (Cons mt ts)
  obtain m t where mt: "mt = (m, t)" by fastforce
  obtain out w1 where p: "ProcessTick engine g t (w\<lparr>W_mem := m\<rparr>) = (out, w1)" by fastforce
  obtain outs' where r: "run_vitals engine g ts w1 = (outs', w')" using Cons.prems(3) by (auto simp: mt p split: prod.splits)
  have reg: "char_registry (W_hp w1) =
      (if vt_self t \<noteq> 0 then Internal_RegisterCharStats m (vt_self t) (char_registry (W_hp w)) else char_registry (W_hp w))"
    using tick_parts(3) [OF p] by simp
  have "registry_ok (char_registry (W_hp w1))" using reg registry_ok_register Cons.prems(1) by simp
  moreover have "0 \<notin> ran (char_registry (W_hp w1))" "dom (char_registry (W_hp w)) \<subseteq> dom (char_registry (W_hp w1))"
    using Cons.prems(2) unfolding reg
    by (auto simp: Internal_RegisterCharStats_def Let_def ran_def split: if_splits)
  ultimately show ?case using Cons.IH [OF _ _ r] by blast
qed simp

section \<open>Bandits among the players\<close>

text \<open>A bandit bound to the shared character is registered like a player by its first tick: a hit on it by a player
  flagged as a pacifist does nothing, although the flag is to spare players only.\<close>

theorem bandits_count_as_players:
  assumes "BindAnimalChar nenv a m n = Some (True, calls, m1, n1)" "g_clonedAnimalCs n = 0"
    and "cs = a + kCharStatsToPlayerDelta" "cs \<noteq> 0"
    and "W_mem w = m1" "vt_self t = cs" "ProcessTick engine g t w = (out, w')"
    and "OnePunchMan env p m2 = (ret, m3)" "outDamage p \<noteq> 0" "\<not> op_pendingOverride (W_hp w)" "defenderCtx p = cs"
    and "read_field m3 cs kCharIdOffOnCharStats = (read_field m1 cs kCharIdOffOnCharStats :: u32)"
    and "ResolvePlayerCharId m3 (char_registry (W_hp w')) (attackerCtx p) \<in> pacifist (W_hp w) - {0}"
  shows "case OnePunchMan_Call env p m2 (W_hp w') of (r, m', s') \<Rightarrow>
     \<forall>i \<in> {0, 1, 3, 4, 5, 6}. pkt m' (outDamage p) i = 0"
proof -
  obtain vt m' where b: "m1 = bind_writes m' cs bandit_charId vt"
    by (rule bind_success [OF assms(1,2)]) (use assms(3) in simp)
  have off: "kCharIdOffOnCharStats = kCharIdFieldOff" by (simp add: kCharIdOffOnCharStats_def kCharIdFieldOff_def)
  have cid: "(read_field m1 cs kCharIdOffOnCharStats :: u32) = bandit_charId"
    unfolding off by (simp add: b bound_fields)
  have "char_registry (W_hp w') = Internal_RegisterCharStats m1 cs (char_registry (W_hp w))"
    using tick_parts(3) [OF assms(7)] assms(4-6) by simp
  then have "ResolvePlayerCharId m3 (char_registry (W_hp w')) cs = bandit_charId"
    using assms(4,12) cid
    by (simp add: ResolvePlayerCharId_def Internal_RegisterCharStats_def LookupCharStats_def Let_def bandit_charId_def)
  moreover have "pacifist (W_hp w') = pacifist (W_hp w)" "op_pendingOverride (W_hp w') = op_pendingOverride (W_hp w)"
    using arg_cong [OF tick_parts(4) [OF assms(7)], of pacifist]
      arg_cong [OF tick_parts(4) [OF assms(7)], of op_pendingOverride] by simp_all
  ultimately show ?thesis using assms(8-11,13)
    by (simp add: OnePunchMan_Call_def IsPacifist_def Let_def pkt_nullify bandit_charId_def)
qed

section \<open>At concrete inputs\<close>

definition demo_tick :: vtick where
  "demo_tick =
     \<lparr>vt_self = 0x2000AA8, vt_debug = False, vt_now = 0, vt_edge = \<lparr>tk_now = 0, tk_pos = None, tk_conn = False\<rparr>, vt_ms = 0,
      vt_stam = [], vt_hits = []\<rparr>"

definition demo_grid :: world_grid where
  "demo_grid = \<lparr>g_self = no_grid, g_neighbours = []\<rparr>"

definition demo_world :: "mem \<Rightarrow> vworld" where
  "demo_world m =
     \<lparr>W_mem = m, W_hp = demo_hp, W_calls = 0,
      W_log = \<lparr>sn_obj = 0, sn_fields = (0, 0, 0), sn_lastLogged = 0, g_wideLastNs = 0, g_wideSnap = [], g_wideSnapValid = False\<rparr>,
      W_edge = \<lparr>lastTick = 0, lastSelfSector = 0, lastFiredSector = 0, lastFire = 0, lastX = Fin 0, lastY = Fin 0,
                lastResolvedSector = 0, lastIsSelf = False\<rparr>,
      W_disp = disp_init, W_anim = anim_init\<rparr>"

theorem registry_never_forgets_witness:
  "\<exists>outs w'. run_vitals (\<lambda>_ m. m) demo_grid [(\<lambda>_. 0, demo_tick)] (demo_world (\<lambda>_. 0)) = (outs, w') \<and> {7, 8} \<subseteq> dom (char_registry (W_hp w'))"
proof -
  obtain outs w' where r: "run_vitals (\<lambda>_ m. m) demo_grid [(\<lambda>_. 0, demo_tick)] (demo_world (\<lambda>_. 0)) = (outs, w')" by fastforce
  have "registry_ok (char_registry (W_hp (demo_world (\<lambda>_. 0))))" "0 \<notin> ran (char_registry (W_hp (demo_world (\<lambda>_. 0))))"
    "dom (char_registry (W_hp (demo_world (\<lambda>_. 0)))) = {7, 8}"
    by (auto simp: demo_world_def demo_hp_def registry_ok_def ran_def split: if_splits)
  then show ?thesis using registry_never_forgets [OF _ _ r] r by auto
qed

theorem bandits_count_as_players_witness:
  "\<exists>m1 (w' :: vworld) r m' s'. OnePunchMan_Call demo_hp_env (demo_punch\<lparr>defenderCtx := 0x2000AA8\<rparr>)
      (write_field m1 0x10000 kCharIdOffOnCharStats (7 :: u32)) (W_hp w') = (r, m', s') \<and>
     LookupCharStats (char_registry (W_hp w')) bandit_charId = 0x2000AA8 \<and> pkt m' 0x9000 0 = 0"
proof -
  obtain calls m1 n1 where b: "BindAnimalChar demo_npc_env 0x2000000 demo_animal demo_npcs = Some (True, calls, m1, n1)"
    using demo_bind by blast
  have g: "g_clonedAnimalCs demo_npcs = 0" by (simp add: demo_npcs_def)
  obtain vt m0 where m1: "m1 = bind_writes m0 0x2000AA8 bandit_charId vt"
    by (rule bind_success [OF b g]) (simp add: demo_reads)
  obtain out w' where t: "ProcessTick (\<lambda>_ m. m) demo_grid demo_tick (demo_world m1) = (out, w')" by fastforce
  let ?p = "demo_punch\<lparr>defenderCtx := 0x2000AA8\<rparr>"
  let ?m2 = "write_field m1 0x10000 kCharIdOffOnCharStats (7 :: u32)"
  let ?m3 = "set_pkt 0x9000 0 5000000 ?m2"
  have punch: "OnePunchMan demo_hp_env ?p ?m2 = (1, ?m3)" by (simp add: demo_hp_env_def demo_punch_def)
  have o: "outside (0x10000 + kCharIdOffOnCharStats) (LENGTH(32) div 8) (0x9000 + word_of_nat (8 * 0)) (LENGTH(64) div 8)"
    "outside (0x2000AA8 + kCharIdOffOnCharStats) (LENGTH(32) div 8) (0x9000 + word_of_nat (8 * 0)) (LENGTH(64) div 8)"
    "outside (0x2000AA8 + kCharIdOffOnCharStats) (LENGTH(32) div 8) (0x10000 + kCharIdOffOnCharStats) (LENGTH(32) div 8)"
    unfolding kCharIdOffOnCharStats_def by (rule outside_above; simp)+
  have same: "(read_field ?m3 0x2000AA8 kCharIdOffOnCharStats :: u32) = read_field m1 0x2000AA8 kCharIdOffOnCharStats"
    unfolding set_pkt_def read_write_other [OF o(2)] read_write_other [OF o(3)] ..
  have seven: "(read_field ?m3 0x10000 kCharIdOffOnCharStats :: u32) = 7"
    unfolding set_pkt_def read_write_other [OF o(1)] by (simp add: read_write_field [where 'a = 32 and n = 4])
  have off: "kCharIdOffOnCharStats = kCharIdFieldOff" by (simp add: kCharIdOffOnCharStats_def kCharIdFieldOff_def)
  have cid: "(read_field m1 0x2000AA8 kCharIdOffOnCharStats :: u32) = bandit_charId"
    unfolding off by (simp add: m1 bound_fields)
  have reg: "char_registry (W_hp w') = [7 \<mapsto> 0x10000, 8 \<mapsto> 0x30000, bandit_charId \<mapsto> 0x2000AA8]"
    using tick_parts(3) [OF t] cid
    by (simp add: demo_tick_def demo_world_def demo_hp_def Internal_RegisterCharStats_def Let_def bandit_charId_def)
  have "ResolvePlayerCharId ?m3 (char_registry (W_hp w')) (attackerCtx ?p) \<in> pacifist (W_hp (demo_world m1)) - {0}"
    using seven by (simp add: reg ResolvePlayerCharId_def LookupCharStats_def demo_punch_def demo_world_def demo_hp_def bandit_charId_def)
  note sure = bandits_count_as_players [OF b g _ _ _ _ t punch _ _ _ same this]
  have "case OnePunchMan_Call demo_hp_env ?p ?m2 (W_hp w') of (r, m', s') \<Rightarrow> \<forall>i \<in> {0, 1, 3, 4, 5, 6}. pkt m' (outDamage ?p) i = 0"
    by (rule sure) (simp_all add: demo_reads demo_world_def demo_tick_def demo_punch_def demo_hp_def)
  moreover have "outDamage ?p = 0x9000" by (simp add: demo_punch_def)
  moreover obtain r m' s' where "OnePunchMan_Call demo_hp_env ?p ?m2 (W_hp w') = (r, m', s')" by (metis prod_cases3)
  moreover have "LookupCharStats (char_registry (W_hp w')) bandit_charId = 0x2000AA8"
    by (simp add: reg LookupCharStats_def bandit_charId_def)
  ultimately have "OnePunchMan_Call demo_hp_env ?p ?m2 (W_hp w') = (r, m', s') \<and>
      LookupCharStats (char_registry (W_hp w')) bandit_charId = 0x2000AA8 \<and> pkt m' 0x9000 0 = 0" by simp
  then show ?thesis by blast
qed

end
