(* ===== verification/Furnaces.thy ===== *)
theory Furnaces
  imports Code_Memory Binary32 "HOL-Library.Monad_Syntax"
begin

text \<open>
  The hooks on the engine's processing devices, \<open>source/server/hooks/furnace/\<close>. Each hook either forwards to the
  engine or runs the library's own version, by a constant of its file; as built, only the fire runs the library's.
  Both are modelled, with the constant as a definition. The engine's functions are arguments. A version that calls
  the engine \<open>by RVA\<close> calls the address the detour is attached to: while it is attached, such a call enters the
  hook again, so that a tick is a partial function.
\<close>

section \<open>Descriptor rows\<close>

definition ProcDesc_TypeId :: u64 where "ProcDesc_TypeId = 0x00"
definition ProcDesc_Kind :: u64 where "ProcDesc_Kind = 0x04"
definition row_size :: u64 where "row_size = 28"

record furnace_row =
  fr_typeId :: u32
  fr_kind :: u32
  fr_factor :: u32
  fr_outputTypeId :: u32
  fr_flag :: u32
  fr_field5 :: u32
  fr_tempThreshold :: u32

definition kExtensionRows :: "furnace_row list" where
  "kExtensionRows = []"

text \<open>Row \<open>i\<close> of a table in memory, and its first two fields.\<close>

definition row_at :: "u64 \<Rightarrow> u32 \<Rightarrow> u64" where
  "row_at base i = base + row_size * ucast i"

definition row_type :: "mem \<Rightarrow> u64 \<Rightarrow> u32 \<Rightarrow> u32" where
  "row_type m base i = read_field m (row_at base i) ProcDesc_TypeId"

definition row_kind :: "mem \<Rightarrow> u64 \<Rightarrow> u32 \<Rightarrow> u32" where
  "row_kind m base i = read_field m (row_at base i) ProcDesc_Kind"

text \<open>The library's walk: to the first row whose type is zero. \<open>has_parent\<close> is the engine's test of an item's type.\<close>

partial_function (option) lifx_lookup :: "(u64 \<Rightarrow> u32 \<Rightarrow> bool) \<Rightarrow> mem \<Rightarrow> u64 \<Rightarrow> u64 \<Rightarrow> u32 \<Rightarrow> u64 option" where
  "lifx_lookup has_parent m base item i =
     (if row_type m base i = 0 then Some 0
      else if has_parent item (row_type m base i) then Some (row_at base i)
      else lifx_lookup has_parent m base item (i + 1))"

text \<open>The engine's walk as the file's reference gives it: it looks at the second field of a row to see whether there
  is one.\<close>

partial_function (option) reference_lookup :: "(u64 \<Rightarrow> u32 \<Rightarrow> bool) \<Rightarrow> mem \<Rightarrow> u64 \<Rightarrow> u64 \<Rightarrow> u32 \<Rightarrow> u64 option" where
  "reference_lookup has_parent m base item i =
     (if row_kind m base i = 0 then Some 0
      else if has_parent item (row_type m base i) then Some (row_at base i)
      else reference_lookup has_parent m base item (i + 1))"

lemmas [code] = lifx_lookup.simps reference_lookup.simps

definition Furnace_LookupImpl :: "(u64 \<Rightarrow> u32 \<Rightarrow> bool) \<Rightarrow> u64 \<Rightarrow> mem \<Rightarrow> u64 \<Rightarrow> u64 option" where
  "Furnace_LookupImpl has_parent module m item = lifx_lookup has_parent m (module + 0xACFA60) item 0"

definition BrewingTank_LookupImpl :: "(u64 \<Rightarrow> u32 \<Rightarrow> bool) \<Rightarrow> u64 \<Rightarrow> mem \<Rightarrow> u64 \<Rightarrow> u64 option" where
  "BrewingTank_LookupImpl has_parent module m item = lifx_lookup has_parent m (module + 0xACF8D0) item 0"

definition desc_uses_lifx :: bool where "desc_uses_lifx = False"
definition brewing_desc_uses_lifx :: bool where "brewing_desc_uses_lifx = False"

text \<open>The hooks: the library's extension rows first, at the address they have in the library.\<close>

definition extension_match :: "(u64 \<Rightarrow> u32 \<Rightarrow> bool) \<Rightarrow> u64 \<Rightarrow> u64 \<Rightarrow> furnace_row list \<Rightarrow> u64 option" where
  "extension_match has_parent ext_at item rows =
     map_option (\<lambda>i. ext_at + row_size * word_of_nat i)
       (find (\<lambda>i. has_parent item (fr_typeId (rows ! i))) [0..<length rows])"

definition Furnace_ProcDescLookup ::
  "(u64 \<Rightarrow> u32 \<Rightarrow> bool) \<Rightarrow> (u64 \<Rightarrow> u64) \<Rightarrow> u64 \<Rightarrow> u64 \<Rightarrow> mem \<Rightarrow> u64 \<Rightarrow> u64 option" where
  "Furnace_ProcDescLookup has_parent engine module ext_at m item =
     (case (if item \<noteq> 0 \<and> kExtensionRows \<noteq> [] then extension_match has_parent ext_at item kExtensionRows else None) of
        Some row \<Rightarrow> Some row
      | None \<Rightarrow> if desc_uses_lifx then Furnace_LookupImpl has_parent module m item else Some (engine item))"

definition BrewingTank_ProcDescLookup ::
  "(u64 \<Rightarrow> u32 \<Rightarrow> bool) \<Rightarrow> (u64 \<Rightarrow> u64) \<Rightarrow> u64 \<Rightarrow> mem \<Rightarrow> u64 \<Rightarrow> u64 option" where
  "BrewingTank_ProcDescLookup has_parent engine module m item =
     (if brewing_desc_uses_lifx then BrewingTank_LookupImpl has_parent module m item else Some (engine item))"

section \<open>Ticks\<close>

definition Windmill_LastTick :: u64 where "Windmill_LastTick = 0x08"
definition Furnace_ContentsRef :: u64 where "Furnace_ContentsRef = 0x0C"
definition Furnace_StateField :: u64 where "Furnace_StateField = 0x14"
definition Furnace_StateAlt :: u64 where "Furnace_StateAlt = 0x28"

type_synonym engine_tick = "u64 \<Rightarrow> f32 \<Rightarrow> u8 \<Rightarrow> mem \<Rightarrow> u64 \<times> mem"

text \<open>What a version of the library's does before it calls the engine: it returns at once, or goes on with a time.\<close>

type_synonym gate = "u64 \<Rightarrow> f32 \<Rightarrow> mem \<Rightarrow> u64 + f32"

definition furnace_gate :: "f32 \<Rightarrow> gate" where
  "furnace_gate maxDt self dt m =
     (if (read_field m self Furnace_StateField :: u32) = 0 then Inl 0
      else Inr (if fless maxDt dt then maxDt else dt))"

definition greenhouse_gate :: "u32 \<Rightarrow> gate" where
  "greenhouse_gate now self dt m =
     (let stateAlt = (read_field m self Furnace_StateAlt :: u32)
      in if now < stateAlt \<or> stateAlt = 0 then Inl 0 else Inr dt)"

definition trap_gate :: gate where
  "trap_gate self dt m = (if (read_field m self Furnace_StateAlt :: u32) = 0 then Inl 0 else Inr dt)"

text \<open>A hooked tick: forwarded, or the gate and then a call of the engine's address, which is the hook while the
  detour is attached.\<close>

partial_function (option) hooked_tick ::
  "bool \<Rightarrow> bool \<Rightarrow> gate \<Rightarrow> engine_tick \<Rightarrow> u64 \<Rightarrow> f32 \<Rightarrow> u8 \<Rightarrow> mem \<Rightarrow> (u64 \<times> mem) option" where
  "hooked_tick use_lifx attached g engine self dt fin m =
     (if \<not> use_lifx then Some (engine self dt fin m)
      else case g self dt m of
             Inl r \<Rightarrow> Some (r, m)
           | Inr dt' \<Rightarrow>
               if attached then hooked_tick use_lifx attached g engine self dt' fin m else Some (engine self dt' fin m))"

lemmas [code] = hooked_tick.simps

definition furnace_uses_lifx :: bool where "furnace_uses_lifx = False"
definition greenhouse_uses_lifx :: bool where "greenhouse_uses_lifx = False"
definition trap_uses_lifx :: bool where "trap_uses_lifx = False"
definition brewing_uses_lifx :: bool where "brewing_uses_lifx = False"
definition windmill_uses_lifx :: bool where "windmill_uses_lifx = False"
definition fire_uses_lifx :: bool where "fire_uses_lifx = True"

definition WorkingFurnace_RecalcTick :: "f32 \<Rightarrow> engine_tick \<Rightarrow> u64 \<Rightarrow> f32 \<Rightarrow> u8 \<Rightarrow> mem \<Rightarrow> (u64 \<times> mem) option" where
  "WorkingFurnace_RecalcTick maxDt engine = hooked_tick furnace_uses_lifx True (furnace_gate maxDt) engine"

definition WorkingGreenhouse_RecalcTick :: "u32 \<Rightarrow> engine_tick \<Rightarrow> u64 \<Rightarrow> f32 \<Rightarrow> u8 \<Rightarrow> mem \<Rightarrow> (u64 \<times> mem) option" where
  "WorkingGreenhouse_RecalcTick now engine = hooked_tick greenhouse_uses_lifx True (greenhouse_gate now) engine"

definition WorkingTrap_RecalcTick :: "engine_tick \<Rightarrow> u64 \<Rightarrow> f32 \<Rightarrow> u8 \<Rightarrow> mem \<Rightarrow> (u64 \<times> mem) option" where
  "WorkingTrap_RecalcTick engine = hooked_tick trap_uses_lifx True trap_gate engine"

text \<open>The brewing tank: an iterator over the contents is built and torn down around the engine's tick.\<close>

record tank_env =
  GetTemperature :: "u64 \<Rightarrow> mem \<Rightarrow> u32"
  Inv_Begin :: "u64 \<Rightarrow> mem \<Rightarrow> mem"
  Inv_Valid :: "mem \<Rightarrow> bool"
  Inv_Teardown :: "mem \<Rightarrow> mem"
  tank_engine :: engine_tick

partial_function (option) tank_tick ::
  "bool \<Rightarrow> bool \<Rightarrow> tank_env \<Rightarrow> u64 \<Rightarrow> f32 \<Rightarrow> u8 \<Rightarrow> mem \<Rightarrow> (u64 \<times> mem) option" where
  "tank_tick use_lifx attached env self dt fin m =
     (if \<not> use_lifx then Some (tank_engine env self dt fin m)
      else if GetTemperature env self m = 0 then Some (0, m)
      else
        let m = Inv_Begin env (self + Furnace_ContentsRef) m
        in if Inv_Valid env m
           then do { (r, m) \<leftarrow> (if attached then tank_tick use_lifx attached env self dt fin m
                             else Some (tank_engine env self dt fin m));
                     Some (0, Inv_Teardown env m) }
           else Some (0, Inv_Teardown env m))"

lemmas [code] = tank_tick.simps

definition BrewingTank_RecalcTick :: "tank_env \<Rightarrow> u64 \<Rightarrow> f32 \<Rightarrow> u8 \<Rightarrow> mem \<Rightarrow> (u64 \<times> mem) option" where
  "BrewingTank_RecalcTick env = tank_tick brewing_uses_lifx True env"

text \<open>The fire and the windmill do not call the engine's tick.\<close>

definition fire_tick :: "u32 \<Rightarrow> u64 \<Rightarrow> mem \<Rightarrow> u64" where
  "fire_tick now self m = (if (read_field m self Furnace_StateAlt :: u32) < now then 1 else 0)"

definition WorkingFire_RecalcTick :: "u32 \<Rightarrow> engine_tick \<Rightarrow> u64 \<Rightarrow> f32 \<Rightarrow> u8 \<Rightarrow> mem \<Rightarrow> u64 \<times> mem" where
  "WorkingFire_RecalcTick now engine self dt fin m =
     (if fire_uses_lifx then (fire_tick now self m, m) else engine self dt fin m)"

definition windmill_tick :: "(mem \<Rightarrow> mem) \<Rightarrow> u32 \<Rightarrow> u64 \<Rightarrow> mem \<Rightarrow> u64 \<times> mem" where
  "windmill_tick helper now self m = (0, write_field (helper m) self Windmill_LastTick now)"

definition WorkingWindmill_RecalcTick ::
  "(mem \<Rightarrow> mem) \<Rightarrow> u32 \<Rightarrow> engine_tick \<Rightarrow> u64 \<Rightarrow> f32 \<Rightarrow> u8 \<Rightarrow> mem \<Rightarrow> u64 \<times> mem" where
  "WorkingWindmill_RecalcTick helper now engine self dt fin m =
     (if windmill_uses_lifx then windmill_tick helper now self m else engine self dt fin m)"

section \<open>The walks\<close>


text \<open>A table whose first row has a type but no kind is empty for the reference and not for the library's version: an
  item of that type is found.\<close>

theorem kindless_row_is_found:
  assumes "row_type m base 0 \<noteq> 0" "row_kind m base 0 = 0" "has_parent item (row_type m base 0)"
  shows "reference_lookup has_parent m base item 0 = Some 0 \<and> lifx_lookup has_parent m base item 0 = Some base"
  using assms by (subst reference_lookup.simps, subst lifx_lookup.simps) (simp add: row_at_def)

section \<open>The ticks\<close>

lemma forwarded:
  "\<not> use_lifx \<Longrightarrow> hooked_tick use_lifx attached g engine self dt fin m = Some (engine self dt fin m)"
  "\<not> use_lifx \<Longrightarrow> tank_tick use_lifx attached env self dt fin m = Some (tank_engine env self dt fin m)"
  by (subst hooked_tick.simps, simp) (subst tank_tick.simps, simp)

text \<open>As built, the hooks of the furnace, the greenhouse, the trap, the brewing tank and the windmill return what the
  engine returns, and the fire's is whether its time has passed.\<close>

theorem devices_tick_as_built:
  "WorkingFurnace_RecalcTick maxDt engine self dt fin m = Some (engine self dt fin m) \<and>
   WorkingGreenhouse_RecalcTick now engine self dt fin m = Some (engine self dt fin m) \<and>
   WorkingTrap_RecalcTick engine self dt fin m = Some (engine self dt fin m) \<and>
   BrewingTank_RecalcTick env self dt fin m = Some (tank_engine env self dt fin m) \<and>
   WorkingWindmill_RecalcTick helper now engine self dt fin m = engine self dt fin m \<and>
   WorkingFire_RecalcTick now engine self dt fin m = (of_bool ((read_field m self Furnace_StateAlt :: u32) < now), m)"
  by (simp add: forwarded WorkingFurnace_RecalcTick_def WorkingGreenhouse_RecalcTick_def WorkingTrap_RecalcTick_def
      BrewingTank_RecalcTick_def furnace_uses_lifx_def greenhouse_uses_lifx_def trap_uses_lifx_def brewing_uses_lifx_def
      WorkingWindmill_RecalcTick_def windmill_uses_lifx_def WorkingFire_RecalcTick_def fire_uses_lifx_def fire_tick_def)

lemma hooked_tick_returns:
  assumes "hooked_tick use_lifx attached g engine self dt fin m = Some r"
  shows "(\<forall>dt. \<exists>dt'. g self dt m = Inr dt') \<longrightarrow> \<not> use_lifx \<or> \<not> attached"
  using assms
proof (rule hooked_tick.raw_induct
    [where P = "\<lambda>use_lifx attached g engine self dt fin m r.
       (\<forall>dt. \<exists>dt'. g self dt m = Inr dt') \<longrightarrow> \<not> use_lifx \<or> \<not> attached", rotated])
  fix tick :: "bool \<Rightarrow> bool \<Rightarrow> gate \<Rightarrow> engine_tick \<Rightarrow> u64 \<Rightarrow> f32 \<Rightarrow> u8 \<Rightarrow> mem \<Rightarrow> (u64 \<times> mem) option"
  fix use_lifx attached g engine self dt fin m r
  assume IH: "\<And>use_lifx attached g engine self dt fin m r. tick use_lifx attached g engine self dt fin m = Some r \<Longrightarrow>
      (\<forall>dt. \<exists>dt'. g self dt m = Inr dt') \<longrightarrow> \<not> use_lifx \<or> \<not> attached"
    and body: "(if \<not> use_lifx then Some (engine self dt fin m)
      else case g self dt m of Inl r \<Rightarrow> Some (r, m)
           | Inr dt' \<Rightarrow> if attached then tick use_lifx attached g engine self dt' fin m else Some (engine self dt' fin m)) = Some r"
  show "(\<forall>dt. \<exists>dt'. g self dt m = Inr dt') \<longrightarrow> \<not> use_lifx \<or> \<not> attached"
  proof (intro impI)
    assume go: "\<forall>dt. \<exists>dt'. g self dt m = Inr dt'"
    then obtain dt' where "g self dt m = Inr dt'" by blast
    then show "\<not> use_lifx \<or> \<not> attached" using body go IH [of use_lifx attached g engine self dt' fin m r] by auto
  qed
qed

text \<open>Were one of the library's versions chosen, then with its hook attached the tick of a device that passes the
  gate would never return: the call by address is the hook again.\<close>

theorem reimplemented_ticks_never_return:
  "((read_field m self Furnace_StateField :: u32) \<noteq> 0 \<longrightarrow> hooked_tick True True (furnace_gate maxDt) engine self dt fin m = None) \<and>
   ((read_field m self Furnace_StateAlt :: u32) \<noteq> 0 \<longrightarrow> hooked_tick True True trap_gate engine self dt fin m = None) \<and>
   ((read_field m self Furnace_StateAlt :: u32) \<noteq> 0 \<longrightarrow> (read_field m self Furnace_StateAlt :: u32) \<le> now \<longrightarrow>
      hooked_tick True True (greenhouse_gate now) engine self dt fin m = None)"
proof -
  have never: "hooked_tick True True g engine self dt fin m = None" if "\<forall>dt. \<exists>dt'. g self dt m = Inr dt'" for g
    using hooked_tick_returns [of True True g engine self dt fin m] that by (metis not_None_eq)
  show ?thesis
    by (auto intro!: never simp: furnace_gate_def trap_gate_def greenhouse_gate_def Let_def)
qed

section \<open>At concrete inputs\<close>

text \<open>A table at \<open>0x1000\<close> with one row of type 5 and kind 2, and one at \<open>0x2000\<close> whose row of type 7 has no kind.\<close>

definition demo_rows :: mem where
  "demo_rows x = (if x = 0x1000 then 5 else if x = 0x1004 then 2 else if x = 0x2000 then 7 else 0)"

lemma demo_row_values:
  "row_type demo_rows 0x1000 0 = 5" "row_kind demo_rows 0x1000 0 = 2"
  "row_type demo_rows 0x1000 1 = 0" "row_kind demo_rows 0x1000 1 = 0"
  "row_type demo_rows 0x2000 0 = 7" "row_kind demo_rows 0x2000 0 = 0"
  "(read_field demo_rows (0x1000 - Furnace_StateField) Furnace_StateField :: u32) = 5"
  by code_simp+


theorem kindless_row_is_found_witness:
  "reference_lookup (\<lambda>item t. t = 7) demo_rows 0x2000 9 0 = Some 0 \<and> lifx_lookup (\<lambda>item t. t = 7) demo_rows 0x2000 9 0 = Some 0x2000"
  by (rule kindless_row_is_found) (simp_all add: demo_row_values)

theorem reimplemented_ticks_never_return_witness:
  "hooked_tick True True (furnace_gate (Fin 1)) (\<lambda>_ _ _ m. (0, m)) (0x1000 - Furnace_StateField) (Fin 0) 0 demo_rows = None"
  using reimplemented_ticks_never_return [of demo_rows "0x1000 - Furnace_StateField"] demo_row_values(7) by auto

end
