(* ===== verification/Hostile_Spawns.thy ===== *)
theory Hostile_Spawns
  imports Npc_Binding
begin

text \<open>
  Spawning NPCs and animals: the spawning and maintenance commands of \<open>source/server/api/lifx_hostile.cpp\<close>. An NPC
  is created by a script the engine evaluates; a script variable answers its number. Nodes registered with
  \<open>manageSpawn\<close> are kept populated by maintenance passes. The script console is a parameter: what evaluating a text
  does to the world of the engine, and the value of a variable (a missing one reads as the empty text).
\<close>

section \<open>Console\<close>

record managed_spawn =
  ms_x :: string
  ms_y :: string
  ms_z :: string
  ms_db :: string
  ms_loadout :: u8
  ms_lastId :: int

text \<open>The script that starts the maintenance calls back into \<open>ensureSpawns\<close>: its evaluation sees the nodes.\<close>

record 'w console =
  Evaluate :: "string \<Rightarrow> 'w \<Rightarrow> 'w"
  Evaluate_tick :: "string \<Rightarrow> managed_spawn list \<Rightarrow> 'w \<Rightarrow> managed_spawn list \<times> 'w"
  GetVariable :: "string \<Rightarrow> 'w \<Rightarrow> string"

section \<open>Text\<close>

text \<open>\<open>%.3f\<close>: the nearest thousandth, the even one on a tie.\<close>

definition thousandths :: "nat \<Rightarrow> string" where
  "thousandths n = dec (n div 1000) @ ''.'' @ map digit_char [n div 100 mod 10, n div 10 mod 10, n mod 10]"

fun fmt_f3 :: "f32 \<Rightarrow> string" where
  "fmt_f3 (Fin k) = (if k < 0 then ''-'' else []) @ thousandths (nat (rne (\<bar>k\<bar> * 1000) f32_unit))"
| "fmt_f3 PInf = ''inf''"
| "fmt_f3 NInf = ''-inf''"
| "fmt_f3 NaN = ''nan''"

section \<open>One NPC\<close>

definition spawn_text :: "string \<Rightarrow> string \<Rightarrow> string \<Rightarrow> string \<Rightarrow> string" where
  "spawn_text x y z db =
     ''$LifxNpcId = 0; %o = new NPCDecorative() { dataBlock = \"'' @ db @ ''\"; }; ''
     @ ''if (isObject(%o)) { MissionGroup.add(%o); %o.setTransform(\"'' @ x @ '' '' @ y @ '' '' @ z
     @ '' 0 0 1 0\"); $LifxNpcId = %o.getId(); }''"

text \<open>The answer is whether the command reports an NPC, and its number.\<close>

definition SpawnNpcAt :: "'w console \<Rightarrow> string \<Rightarrow> string \<Rightarrow> string \<Rightarrow> string \<Rightarrow> 'w \<Rightarrow> bool \<times> string \<times> 'w" where
  "SpawnNpcAt con x y z db w =
     (let w = Evaluate con ''$LifxCanary = 6 + 1;'' w;
          w = Evaluate con (snprintf_out 512 (spawn_text x y z db)) w;
          i = GetVariable con ''$LifxNpcId'' w
      in (i \<noteq> [] \<and> i \<noteq> ''0'', i, w))"

definition argument :: "string list \<Rightarrow> nat \<Rightarrow> string \<Rightarrow> string" where
  "argument argv i dflt = (if i < length argv \<and> argv ! i \<noteq> [] then argv ! i else dflt)"

definition default_datablock :: string where "default_datablock = ''NPC_slave_A''"

definition SpawnNpcDecorativeCb :: "'w console \<Rightarrow> string list \<Rightarrow> 'w \<Rightarrow> bool \<times> string \<times> 'w" where
  "SpawnNpcDecorativeCb con argv w =
     (let coord = (\<lambda>i. if i < length argv then argv ! i else ''0'')
      in SpawnNpcAt con (coord 1) (coord 2) (coord 3) (argument argv 4 default_datablock) w)"

section \<open>Beside a character\<close>

definition kPlayerWorldPos :: u64 where "kPlayerWorldPos = 0x1EC0"

definition player_position :: "query \<Rightarrow> mem \<Rightarrow> stats_registry \<Rightarrow> u32 \<Rightarrow> (f32 \<times> f32 \<times> f32) option option" where
  "player_position q m reg charID =
     (let cs = LookupCharStats reg charID;
          posP = cs - kCharStatsToPlayerDelta + kPlayerWorldPos
      in if cs = 0 then Some None
         else do { ok \<leftarrow> SafeReadable q posP 12;
                   Some (if ok then Some (f32_of_bits (read_field m posP 0), f32_of_bits (read_field m posP 4),
                                          f32_of_bits (read_field m posP 8)) else None) })"

definition beside :: "f32 \<times> f32 \<times> f32 \<Rightarrow> string \<times> string \<times> string" where
  "beside p = (case p of (x, y, z) \<Rightarrow>
     (snprintf_out 32 (fmt_f3 (fadd x (f32_of_int 2))), snprintf_out 32 (fmt_f3 y), snprintf_out 32 (fmt_f3 z)))"

definition SpawnAtChar ::
  "'w console \<Rightarrow> query \<Rightarrow> mem \<Rightarrow> stats_registry \<Rightarrow> u32 \<Rightarrow> string \<Rightarrow> 'w \<Rightarrow> ((bool \<times> string) option \<times> 'w) option" where
  "SpawnAtChar con q m reg charID db w =
     do { pos \<leftarrow> player_position q m reg charID;
          Some (case pos of
                  None \<Rightarrow> (None, w)
                | Some p \<Rightarrow> (case beside p of (x, y, z) \<Rightarrow>
                    (case SpawnNpcAt con x y z db w of (ok, i, w) \<Rightarrow> (Some (ok, i), w)))) }"

definition SpawnNpcAtCharCb ::
  "'w console \<Rightarrow> query \<Rightarrow> mem \<Rightarrow> stats_registry \<Rightarrow> string list \<Rightarrow> 'w \<Rightarrow> ((bool \<times> string) option \<times> 'w) option" where
  "SpawnNpcAtCharCb con q m reg argv w =
     (let charID = ParseU32 argv 1
      in if charID = 0 then Some (None, w)
         else SpawnAtChar con q m reg charID (argument argv 2 default_datablock) w)"

definition EnsurePlayerNpcDatablock :: "'w console \<Rightarrow> 'w \<Rightarrow> bool \<times> 'w" where
  "EnsurePlayerNpcDatablock con w =
     (let w = Evaluate con ''$LifxDbOk = isObject(NPC_player_male);'' w;
          ok = GetVariable con ''$LifxDbOk'' w
      in (ok \<noteq> [] \<and> (hd ok = CHR ''1'' \<or> hd ok = CHR ''t''), w))"

definition MakePlayerNpcCb ::
  "'w console \<Rightarrow> query \<Rightarrow> mem \<Rightarrow> stats_registry \<Rightarrow> string list \<Rightarrow> 'w \<Rightarrow> ((bool \<times> string) option \<times> 'w) option" where
  "MakePlayerNpcCb con q m reg argv w =
     (let charID = ParseU32 argv 1
      in if charID = 0 then Some (None, w)
         else case EnsurePlayerNpcDatablock con w of
                (ok, w) \<Rightarrow> if \<not> ok then Some (None, w) else SpawnAtChar con q m reg charID ''NPC_player_male'' w)"

definition naked_text :: "u32 \<Rightarrow> string" where
  "naked_text charID =
     ''if (isObject(ClientGroup)) for (%i = 0; %i < ClientGroup.getCount(); %i++) { ''
     @ ''%c = ClientGroup.getObject(%i); ''
     @ ''if (%c.getCharacterId() == '' @ fmt_u charID
     @ '') { commandToClient(%c, '' @ [CHR 0x27] @ ''LifxNaked'' @ [CHR 0x27] @ ''); } }''"

definition NakedNpcCb :: "'w console \<Rightarrow> string list \<Rightarrow> 'w \<Rightarrow> 'w" where
  "NakedNpcCb con argv w =
     (let charID = ParseU32 argv 1 in if charID = 0 then w else Evaluate con (snprintf_out 512 (naked_text charID)) w)"

section \<open>Maintained nodes\<close>

definition ensure_head :: "int \<Rightarrow> string" where
  "ensure_head i =
     ''if (isObject('' @ fmt_d i @ '')) { $LifxSpawnId = '' @ fmt_d i @ ''; } else { %o = new NPCDecorative() { dataBlock = \"''"

definition ensure_text :: "managed_spawn \<Rightarrow> string" where
  "ensure_text n =
     ensure_head (ms_lastId n) @ ms_db n
     @ ''\"; }; if (isObject(%o)) { MissionGroup.add(%o); %o.setTransform(\"'' @ ms_x n @ '' '' @ ms_y n @ '' '' @ ms_z n
     @ '' 0 0 1 0\"); %o.lifxGhost(); %o.lifxLoadout('' @ fmt_u (ms_loadout n)
     @ ''); $LifxSpawnId = %o.getId(); } else { $LifxSpawnId = 0; } }''"

definition ensure_node :: "'w console \<Rightarrow> managed_spawn \<Rightarrow> 'w \<Rightarrow> managed_spawn \<times> 'w" where
  "ensure_node con n w =
     (let w = Evaluate con (snprintf_out 768 (ensure_text n)) w;
          i = GetVariable con ''$LifxSpawnId'' w
      in (n\<lparr>ms_lastId := if i = [] then 0 else atoi i\<rparr>, w))"

fun EnsureSpawnsImpl :: "'w console \<Rightarrow> managed_spawn list \<Rightarrow> 'w \<Rightarrow> managed_spawn list \<times> 'w" where
  "EnsureSpawnsImpl con [] w = ([], w)"
| "EnsureSpawnsImpl con (n # ns) w =
     (case ensure_node con n w of (n, w) \<Rightarrow>
        (case EnsureSpawnsImpl con ns w of (ns, w) \<Rightarrow> (n # ns, w)))"

record spawns =
  g_managed :: "managed_spawn list"
  s_tickStarted :: bool

definition tick_text :: string where
  "tick_text =
     ''function lifxEnsureSpawns() { Lifx::ensureSpawns(); schedule(2000, 0, lifxEnsureSpawns); } ''
     @ ''lifxEnsureSpawns();''"

definition new_node :: "string list \<Rightarrow> managed_spawn" where
  "new_node argv =
     \<lparr>ms_x = argv ! 1, ms_y = argv ! 2, ms_z = argv ! 3, ms_db = argv ! 4,
      ms_loadout = (if 5 < length argv then ucast (ParseU32 argv 5) else 0), ms_lastId = 0\<rparr>"

definition ManageSpawnCb :: "'w console \<Rightarrow> string list \<Rightarrow> spawns \<Rightarrow> 'w \<Rightarrow> spawns \<times> 'w" where
  "ManageSpawnCb con argv s w =
     (if length argv < 5 then (s, w)
      else
        let ns = g_managed s @ [new_node argv];
            (ns, w) = (if s_tickStarted s then (ns, w) else Evaluate_tick con tick_text ns w);
            (ns, w) = EnsureSpawnsImpl con ns w
        in (\<lparr>g_managed = ns, s_tickStarted = True\<rparr>, w))"

definition EnsureSpawnsCb :: "'w console \<Rightarrow> spawns \<Rightarrow> 'w \<Rightarrow> spawns \<times> 'w" where
  "EnsureSpawnsCb con s w = (case EnsureSpawnsImpl con (g_managed s) w of (ns, w) \<Rightarrow> (s\<lparr>g_managed := ns\<rparr>, w))"

section \<open>Animals\<close>

definition kAnimalsManagerGlobalRva :: u64 where "kAnimalsManagerGlobalRva = 0xB80C90"
definition kSimObjectIdOff :: u64 where "kSimObjectIdOff = 0x90"
definition kWolfTypeId :: u32 where "kWolfTypeId = 755"

definition activate_text :: "u32 \<Rightarrow> string \<Rightarrow> string \<Rightarrow> string \<Rightarrow> string" where
  "activate_text simId x y z =
     fmt_u simId @ ''.setTransform(\"'' @ x @ '' '' @ y @ '' '' @ z @ '' 0 0 1 0\"); '' @ fmt_u simId @ ''.setActive(1);''"

text \<open>\<open>createAnimal\<close> is called at the address the hook of animals is attached to: the call goes through
  \<open>OnCreateAnimal\<close>.\<close>

definition SpawnHostileCore ::
  "npc_env \<Rightarrow> 'w console \<Rightarrow> u32 \<Rightarrow> string \<times> string \<times> string \<Rightarrow> mem \<Rightarrow> npcs \<Rightarrow> 'w \<Rightarrow> (npc_call list \<times> mem \<times> npcs \<times> 'w) option" where
  "SpawnHostileCore env con typeId xyz m s w =
     (let mgr = read_field m (module_base env + kAnimalsManagerGlobalRva) 0
      in if mgr = 0 then Some ([], m, s, w)
         else do {
           ok \<leftarrow> SafeReadable (regions env) mgr 8;
           (if \<not> ok then Some ([], m, s, w)
            else do {
              (animal, calls, m, s) \<leftarrow> OnCreateAnimal env mgr typeId m s;
              ok \<leftarrow> SafeReadable (regions env) animal (kSimObjectIdOff + 4);
              Some (if animal = 0 \<or> \<not> ok then (calls, m, s, w)
                    else
                      let s = s\<lparr>npc_anim := Register_hostile animal (npc_anim s)\<rparr>;
                          simId = (read_field m animal kSimObjectIdOff :: u32)
                      in if simId = 0 then (calls, m, s, w)
                         else (case xyz of (x, y, z) \<Rightarrow>
                                 (calls, m, s, Evaluate con (snprintf_out 256 (activate_text simId x y z)) w))) }) })"

definition SpawnHostileCb ::
  "npc_env \<Rightarrow> 'w console \<Rightarrow> stats_registry \<Rightarrow> string list \<Rightarrow> mem \<Rightarrow> npcs \<Rightarrow> 'w \<Rightarrow> (npc_call list \<times> mem \<times> npcs \<times> 'w) option" where
  "SpawnHostileCb env con reg argv m s w =
     (let charID = ParseU32 argv 1;
          typeId = (if 2 < length argv then ParseU32 argv 2 else kWolfTypeId)
      in if charID = 0 then Some ([], m, s, w)
         else do {
           pos \<leftarrow> player_position (regions env) m reg charID;
           (case pos of
              None \<Rightarrow> Some ([], m, s, w)
            | Some p \<Rightarrow> SpawnHostileCore env con typeId (beside p) m s w) })"

section \<open>What the engine documents of the scripts\<close>

text \<open>A view of the engine's world: the numbers of the NPCs that live, and the number the next object gets; numbers
  are given out in increasing order.\<close>

record 'w world_view =
  live :: "'w \<Rightarrow> int set"
  next_id :: "'w \<Rightarrow> int"

text \<open>Texts that can stand in a string literal of a script and leave its braces alone, and that leave room in the
  buffer.\<close>

definition node_texts :: "managed_spawn \<Rightarrow> string" where
  "node_texts n = ms_db n @ ms_x n @ ms_y n @ ms_z n"

definition plain :: "managed_spawn \<Rightarrow> bool" where
  "plain n \<longleftrightarrow> set (node_texts n) \<inter> {CHR 0x22, CHR 0x5C, CHR ''{'', CHR ''}''} = {}"

definition short :: "managed_spawn \<Rightarrow> bool" where
  "short n \<longleftrightarrow> length (node_texts n) \<le> 440"

definition documented_console :: "'w console \<Rightarrow> 'w world_view \<Rightarrow> bool" where
  "documented_console con v \<longleftrightarrow>
     (\<forall>w. live v w \<subseteq> {0<..<next_id v w} \<and> 0 < next_id v w \<and> next_id v w \<le> 0x80000000) \<and>
     (\<forall>n w. plain n \<and> length (ensure_text n) < 768 \<longrightarrow>
        (let w' = Evaluate con (ensure_text n) w; i = GetVariable con ''$LifxSpawnId'' w'
         in if ms_lastId n \<in> live v w
            then live v w' = live v w \<and> next_id v w' = next_id v w \<and> i = fmt_d (ms_lastId n)
            else next_id v w \<le> next_id v w' \<and>
              (live v w' = live v w \<and> i = ''0'' \<or>
               (\<exists>k \<ge> next_id v w. k < next_id v w' \<and> live v w' = insert k (live v w) \<and> i = fmt_d k))))"

text \<open>Starting the tick runs one pass in a world in which the same NPCs live.\<close>

definition documented_tick :: "'w console \<Rightarrow> 'w world_view \<Rightarrow> bool" where
  "documented_tick con v \<longleftrightarrow>
     (\<forall>ns w. \<exists>w1 w2. live v w1 = live v w \<and> next_id v w1 = next_id v w \<and>
        (case Evaluate_tick con tick_text ns w of (ns', w') \<Rightarrow>
           EnsureSpawnsImpl con ns w1 = (ns', w2) \<and> live v w' = live v w2 \<and> next_id v w' = next_id v w2))"

lemma length_ensure_text:
  assumes "short n" "- 0x80000000 \<le> ms_lastId n" "ms_lastId n < 0x80000000"
  shows "length (ensure_text n) < 768"
proof -
  have "unat (ms_loadout n) < 10 ^ 3"
    by (rule less_le_trans [OF unsigned_less]) simp
  then have "length (fmt_u (ms_loadout n)) \<le> 3" by (simp add: fmt_u_def length_dec)
  then show ?thesis using assms(1) length_fmt_d [OF assms(2,3)]
    by (simp add: short_def node_texts_def ensure_text_def ensure_head_def)
qed

section \<open>Maintenance\<close>

definition ids :: "managed_spawn list \<Rightarrow> int list" where
  "ids ns = filter (\<lambda>i. i \<noteq> 0) (map ms_lastId ns)"

lemma ids_simps [simp]:
  "ids [] = []" "ids (n # ns) = (if ms_lastId n = 0 then ids ns else ms_lastId n # ids ns)" "ids (ns @ ns') = ids ns @ ids ns'"
  by (simp_all add: ids_def)

definition node_ok :: "int \<Rightarrow> managed_spawn \<Rightarrow> bool" where
  "node_ok k n \<longleftrightarrow> plain n \<and> short n \<and> 0 \<le> ms_lastId n \<and> ms_lastId n < k"

lemma node_ok_mono: "node_ok k n \<Longrightarrow> k \<le> k' \<Longrightarrow> node_ok k' n"
  by (simp add: node_ok_def)

lemma ids_less: "\<forall>n \<in> set ns. node_ok k n \<Longrightarrow> i \<in> set (ids ns) \<Longrightarrow> i < k"
  by (auto simp: ids_def node_ok_def)

lemma ensure_node_step:
  assumes D: "documented_console con v" and ok: "node_ok (next_id v w) n" and step: "ensure_node con n w = (n', w')"
  obtains j where "n' = n\<lparr>ms_lastId := j\<rparr>" "next_id v w \<le> next_id v w'"
    "ms_lastId n \<in> live v w \<and> j = ms_lastId n \<and> live v w' = live v w \<or>
     ms_lastId n \<notin> live v w \<and> j = 0 \<and> live v w' = live v w \<or>
     ms_lastId n \<notin> live v w \<and> next_id v w \<le> j \<and> j < next_id v w' \<and> live v w' = insert j (live v w)"
proof -
  have bound: "0 < next_id v w" "next_id v w \<le> 0x80000000" "next_id v w' \<le> 0x80000000" "live v w \<subseteq> {0<..<next_id v w}"
    using D by (auto simp: documented_console_def)
  have fits: "length (ensure_text n) < 768"
    using ok bound by (intro length_ensure_text) (auto simp: node_ok_def)
  have w': "w' = Evaluate con (ensure_text n) w"
    using step fits by (auto simp: ensure_node_def Let_def)
  have n': "n' = n\<lparr>ms_lastId := (let i = GetVariable con ''$LifxSpawnId'' w' in if i = [] then 0 else atoi i)\<rparr>"
    using step fits by (auto simp: ensure_node_def Let_def)
  have zero: "atoi ''0'' = 0" by code_simp
  have read: "(if fmt_d k = [] then 0 else atoi (fmt_d k)) = k" if "0 \<le> k" "k < 0x80000000" for k
    using that atoi_fmt_d [of k] by (auto simp: fmt_d_def)
  have eff: "if ms_lastId n \<in> live v w
     then live v w' = live v w \<and> next_id v w' = next_id v w \<and> GetVariable con ''$LifxSpawnId'' w' = fmt_d (ms_lastId n)
     else next_id v w \<le> next_id v w' \<and>
       (live v w' = live v w \<and> GetVariable con ''$LifxSpawnId'' w' = ''0'' \<or>
        (\<exists>k \<ge> next_id v w. k < next_id v w' \<and> live v w' = insert k (live v w) \<and> GetVariable con ''$LifxSpawnId'' w' = fmt_d k))"
    using D ok fits unfolding documented_console_def node_ok_def w' by (simp add: Let_def)
  show thesis
  proof (cases "ms_lastId n \<in> live v w")
    case True
    with eff have "n' = n\<lparr>ms_lastId := ms_lastId n\<rparr>" unfolding n'
      using read [of "ms_lastId n"] ok bound by (auto simp: node_ok_def Let_def)
    then show thesis using True eff by (intro that [of "ms_lastId n"]) auto
  next
    case False
    with eff consider "live v w' = live v w" "GetVariable con ''$LifxSpawnId'' w' = ''0''"
      | k where "next_id v w \<le> k" "k < next_id v w'" "live v w' = insert k (live v w)" "GetVariable con ''$LifxSpawnId'' w' = fmt_d k"
      by auto
    then show thesis
    proof cases
      case 1
      then show thesis using False eff by (intro that [of 0]) (auto simp: n' zero)
    next
      case 2
      then have "n' = n\<lparr>ms_lastId := k\<rparr>" using read [of k] bound by (simp add: n' Let_def)
      then show thesis using False eff 2 by (intro that [of k]) auto
    qed
  qed
qed

text \<open>One pass over registered nodes: the nodes keep their descriptions, a node whose NPC lives keeps it, every
  other gets a new one or none; every NPC that was created is recorded by a node, and no two nodes record the same.\<close>

definition passed :: "'w world_view \<Rightarrow> managed_spawn list \<Rightarrow> 'w \<Rightarrow> managed_spawn list \<Rightarrow> 'w \<Rightarrow> bool" where
  "passed v ns w ns' w' \<longleftrightarrow>
     list_all2 (\<lambda>n n'. n' = n\<lparr>ms_lastId := ms_lastId n'\<rparr> \<and> (ms_lastId n \<in> live v w \<longrightarrow> ms_lastId n' = ms_lastId n)) ns ns' \<and>
     distinct (ids ns') \<and> set (ids ns') \<subseteq> live v w' \<and>
     live v w \<subseteq> live v w' \<and> live v w' - live v w = set (ids ns') - live v w \<and>
     next_id v w \<le> next_id v w' \<and> (\<forall>i \<in> set (ids ns'). i \<in> live v w \<and> i \<in> set (ids ns) \<or> next_id v w \<le> i)"

lemma pass_step:
  assumes "documented_console con v" "\<forall>n \<in> set ns. node_ok (next_id v w) n" "distinct (ids ns)"
    and "EnsureSpawnsImpl con ns w = (ns', w')"
  shows "passed v ns w ns' w' \<and> (\<forall>n \<in> set ns'. node_ok (next_id v w') n)"
  using assms(2-4)
proof (induction ns arbitrary: w ns' w')
  case Nil
  then show ?case by (simp add: passed_def)
next
  case (Cons n ns)
  have D: "live v w \<subseteq> {0<..<next_id v w}" "0 < next_id v w" for w
    using assms(1) by (auto simp: documented_console_def)
  obtain n1 w1 where n1: "ensure_node con n w = (n1, w1)" by fastforce
  obtain ns1 where ns1: "EnsureSpawnsImpl con ns w1 = (ns1, w')" and ns': "ns' = n1 # ns1"
    using Cons.prems n1 by (auto split: prod.splits)
  obtain j where j: "n1 = n\<lparr>ms_lastId := j\<rparr>" "next_id v w \<le> next_id v w1"
    "ms_lastId n \<in> live v w \<and> j = ms_lastId n \<and> live v w1 = live v w \<or>
     ms_lastId n \<notin> live v w \<and> j = 0 \<and> live v w1 = live v w \<or>
     ms_lastId n \<notin> live v w \<and> next_id v w \<le> j \<and> j < next_id v w1 \<and> live v w1 = insert j (live v w)"
    using Cons.prems(1) by (auto intro: ensure_node_step [OF assms(1) _ n1])
  have ok: "\<forall>n \<in> set ns. node_ok (next_id v w) n" using Cons.prems(1) by simp
  then have ok1: "\<forall>n \<in> set ns. node_ok (next_id v w1) n" using j(2) node_ok_mono by blast
  have IH: "passed v ns w1 ns1 w'" "\<forall>n \<in> set ns1. node_ok (next_id v w') n"
    using Cons.IH [OF ok1 _ ns1] Cons.prems(2) by (auto split: if_splits)
  have below: "\<forall>i \<in> set (ids ns). i < next_id v w" using ids_less [OF ok] by blast
  have olds: "set (ids ns) \<inter> live v w1 \<subseteq> live v w" using j(3) below by auto
  have sub: "live v w \<subseteq> live v w1" using j(3) by auto
  have jlive: "j \<noteq> 0 \<Longrightarrow> j \<in> live v w1" using j(3) by auto
  have jnot: "j \<noteq> 0 \<Longrightarrow> j \<notin> set (ids ns1)"
  proof
    assume "j \<noteq> 0" "j \<in> set (ids ns1)"
    then have "j \<in> live v w1 \<and> j \<in> set (ids ns) \<or> next_id v w1 \<le> j" using IH(1) by (auto simp: passed_def)
    moreover have "j < next_id v w1" using jlive \<open>j \<noteq> 0\<close> D [of w1] by auto
    ultimately have "j \<in> set (ids ns)" by simp
    then show False using j(3) below Cons.prems(2) \<open>j \<noteq> 0\<close> by (auto split: if_splits)
  qed
  have mono: "next_id v w1 \<le> next_id v w'" using IH(1) by (simp add: passed_def)
  have nok: "node_ok (next_id v w') n1"
  proof -
    have "0 \<le> j" "j < next_id v w1" using j(3) D [of w] D [of w1] Cons.prems(1) j(2) by (auto simp: node_ok_def)
    then show ?thesis using Cons.prems(1) mono by (simp add: j(1) node_ok_def plain_def short_def node_texts_def)
  qed
  have new: "live v w' - live v w = set (ids ns') - live v w"
    using IH(1) j(3) jlive sub D [of w] by (auto simp: ns' j(1) passed_def)
  have "passed v (n # ns) w ns' w'"
    unfolding passed_def
  proof (intro conjI)
    show "list_all2 (\<lambda>n n'. n' = n\<lparr>ms_lastId := ms_lastId n'\<rparr> \<and> (ms_lastId n \<in> live v w \<longrightarrow> ms_lastId n' = ms_lastId n)) (n # ns) ns'"
      using IH(1) sub j(3) unfolding ns' passed_def by (auto simp: j(1) elim!: list_all2_mono)
    show "distinct (ids ns')" using IH(1) jnot by (auto simp: ns' j(1) passed_def)
    show "set (ids ns') \<subseteq> live v w'" using IH(1) jlive by (auto simp: ns' j(1) passed_def)
    show "live v w \<subseteq> live v w'" using IH(1) sub by (auto simp: passed_def)
    show "live v w' - live v w = set (ids ns') - live v w" by (rule new)
    show "next_id v w \<le> next_id v w'" using j(2) mono by simp
    show "\<forall>i \<in> set (ids ns'). i \<in> live v w \<and> i \<in> set (ids (n # ns)) \<or> next_id v w \<le> i"
      using IH(1) j olds D [of w] by (fastforce simp: ns' passed_def)
  qed
  then show ?case using IH(2) nok by (simp add: ns')
qed

text \<open>A maintenance pass populates every registered node with an NPC of its own.\<close>

theorem pass_populates_nodes:
  assumes "documented_console con v" "\<forall>n \<in> set (g_managed s). node_ok (next_id v w) n" "distinct (ids (g_managed s))"
    and "EnsureSpawnsCb con s w = (s', w')"
  shows "passed v (g_managed s) w (g_managed s') w'"
  using pass_step [OF assms(1-3)] assms(4) by (auto simp: EnsureSpawnsCb_def split: prod.splits)

section \<open>Histories\<close>

text \<open>What can happen to the nodes: a pass, a registration, and the engine going on, which removes NPCs and gives new
  objects new numbers.\<close>

inductive reached :: "'w console \<Rightarrow> 'w world_view \<Rightarrow> spawns \<Rightarrow> 'w \<Rightarrow> bool" for con v where
  start: "reached con v \<lparr>g_managed = [], s_tickStarted = False\<rparr> w"
| maintain: "reached con v s w \<Longrightarrow> EnsureSpawnsCb con s w = (s', w') \<Longrightarrow> reached con v s' w'"
| manage: "reached con v s w \<Longrightarrow> ManageSpawnCb con argv s w = (s', w') \<Longrightarrow>
    set (concat (take 4 (drop 1 argv))) \<inter> {CHR 0x22, CHR 0x5C, CHR ''{'', CHR ''}''} = {} \<Longrightarrow>
    length (concat (take 4 (drop 1 argv))) \<le> 440 \<Longrightarrow> reached con v s' w'"
| engine: "reached con v s w \<Longrightarrow> next_id v w \<le> next_id v w' \<Longrightarrow> live v w' \<inter> {..<next_id v w} \<subseteq> live v w \<Longrightarrow>
    reached con v s w'"

inductive_cases reachedE: "reached con v s w"

lemma argv_texts:
  "5 \<le> length argv \<Longrightarrow> concat (take 4 (drop 1 argv)) = argv ! 1 @ argv ! 2 @ argv ! 3 @ (argv ! 4 :: string)"
  by (cases argv rule: list.exhaust; auto simp: numeral_eq_Suc Suc_le_length_iff)

lemma reached_ok:
  assumes "documented_console con v" "documented_tick con v" "reached con v s w"
  shows "(\<forall>n \<in> set (g_managed s). node_ok (next_id v w) n) \<and> distinct (ids (g_managed s))"
  using assms(3)
proof induction
  case (start w)
  then show ?case by simp
next
  case (maintain s w s' w')
  then show ?case using pass_step [OF assms(1), of "g_managed s" w]
    by (auto simp: EnsureSpawnsCb_def passed_def split: prod.splits)
next
  case (manage s w argv s' w')
  show ?case
  proof (cases "length argv < 5")
    case True
    then show ?thesis using manage by (simp add: ManageSpawnCb_def)
  next
    case False
    let ?n = "new_node argv"
    have "plain ?n" "short ?n"
      using manage.hyps(3,4) unfolding argv_texts [OF leI [OF False]]
      by (auto simp: new_node_def plain_def short_def node_texts_def)
    then have ok: "\<forall>m \<in> set (g_managed s @ [?n]). node_ok (next_id v w) m" "distinct (ids (g_managed s @ [?n]))"
      using manage.IH assms(1) by (auto simp: node_ok_def new_node_def documented_console_def)
    obtain ns1 w1 where t: "(if s_tickStarted s then (g_managed s @ [?n], w) else Evaluate_tick con tick_text (g_managed s @ [?n]) w) = (ns1, w1)"
      by fastforce
    have ok1: "(\<forall>m \<in> set ns1. node_ok (next_id v w1) m) \<and> distinct (ids ns1)"
    proof (cases "s_tickStarted s")
      case True
      then show ?thesis using t ok by auto
    next
      case False
      obtain w0 w2 where "next_id v w0 = next_id v w" "EnsureSpawnsImpl con (g_managed s @ [?n]) w0 = (ns1, w2)" "next_id v w1 = next_id v w2"
        using assms(2) t False unfolding documented_tick_def by (fastforce split: prod.splits)
      then show ?thesis using pass_step [OF assms(1), of "g_managed s @ [?n]" w0 ns1 w2] ok by (auto simp: passed_def)
    qed
    obtain ns2 w2 where p: "EnsureSpawnsImpl con ns1 w1 = (ns2, w2)" by fastforce
    have "s' = \<lparr>g_managed = ns2, s_tickStarted = True\<rparr>" "w' = w2"
      using manage.hyps(2) False t p by (auto simp: ManageSpawnCb_def Let_def split: prod.splits)
    then show ?thesis using pass_step [OF assms(1), of ns1 w1 ns2 w2] ok1 p by (auto simp: passed_def)
  qed
next
  case (engine s w w')
  then show ?case using node_ok_mono by blast
qed


section \<open>Scripts that are cut off\<close>

definition depth :: "string \<Rightarrow> int" where
  "depth s = int (count_list s CHR ''{'') - int (count_list s CHR ''}'')"

text \<open>A script in which a brace is left open is not evaluated.\<close>

definition documented_parser :: "'w console \<Rightarrow> bool" where
  "documented_parser con \<longleftrightarrow>
     (\<forall>n k w. plain n \<and> 0 < depth (take k (ensure_text n)) \<longrightarrow> Evaluate con (take k (ensure_text n)) w = w)"

fun tail_ok :: "int \<Rightarrow> string \<Rightarrow> bool" where
  "tail_ok k [] = True"
| "tail_ok k (c # s) = (depth (c # s) \<le> k \<and> tail_ok k s)"

lemma depth_append [simp]: "depth (u @ v) = depth u + depth v"
  by (simp add: depth_def)

lemma tail_ok_append: "tail_ok k (u @ v) \<longleftrightarrow> tail_ok (k - depth v) u \<and> tail_ok k v"
  by (induction u) (auto simp: depth_append [of "_ # _", simplified])

lemma tail_ok_drop: "tail_ok k s \<Longrightarrow> m < length s \<Longrightarrow> depth (drop m s) \<le> k"
  by (induction s arbitrary: m) (auto simp: drop_Cons split: nat.splits)

lemma depth_free: "set s \<inter> {CHR ''{'', CHR ''}''} = {} \<Longrightarrow> depth s = 0"
  by (simp add: depth_def count_list_0_iff)

lemma tail_ok_free: "set s \<inter> {CHR ''{'', CHR ''}''} = {} \<Longrightarrow> 0 \<le> k \<Longrightarrow> tail_ok k s"
  using depth_free by (induction s) (auto simp: depth_free)

lemma digits_free: "set (dec n) \<inter> {CHR ''{'', CHR ''}''} = {}"
  using dec_digits [of n] by (auto simp: list_all_iff is_digit_def)

lemma digits_free_d: "set (fmt_d i) \<inter> {CHR ''{'', CHR ''}''} = {}"
  using digits_free by (auto simp: fmt_d_def)

definition ensure_rest :: "managed_spawn \<Rightarrow> string" where
  "ensure_rest n = drop (length (ensure_head (ms_lastId n))) (ensure_text n)"

lemma ensure_text_split: "ensure_text n = ensure_head (ms_lastId n) @ ensure_rest n"
  by (simp add: ensure_text_def ensure_rest_def)

lemma depth_head: "depth (ensure_head i) = 2"
  using depth_free [OF digits_free_d [of i]] by (simp add: ensure_head_def) (simp add: depth_def)

lemma rest_closes:
  assumes "plain n"
  shows "tail_ok (- 1) (ensure_rest n)" "depth (ensure_rest n) = - 2"
proof -
  have free: "set (ms_db n) \<inter> {CHR ''{'', CHR ''}''} = {}" "set (ms_x n) \<inter> {CHR ''{'', CHR ''}''} = {}"
    "set (ms_y n) \<inter> {CHR ''{'', CHR ''}''} = {}" "set (ms_z n) \<inter> {CHR ''{'', CHR ''}''} = {}"
    "set (fmt_u (ms_loadout n)) \<inter> {CHR ''{'', CHR ''}''} = {}"
    using assms digits_free by (auto simp: plain_def node_texts_def fmt_u_def)
  note d = free [THEN depth_free]
  have e: "ensure_rest n = ms_db n
     @ ''\"; }; if (isObject(%o)) { MissionGroup.add(%o); %o.setTransform(\"'' @ ms_x n @ '' '' @ ms_y n @ '' '' @ ms_z n
     @ '' 0 0 1 0\"); %o.lifxGhost(); %o.lifxLoadout('' @ fmt_u (ms_loadout n)
     @ ''); $LifxSpawnId = %o.getId(); } else { $LifxSpawnId = 0; } }''"
    by (simp add: ensure_rest_def ensure_text_def)
  have c: "depth ''); $LifxSpawnId = %o.getId(); } else { $LifxSpawnId = 0; } }'' = - 2"
    "depth '' 0 0 1 0\"); %o.lifxGhost(); %o.lifxLoadout('' = 0" "depth '' '' = 0"
    "depth ''\"; }; if (isObject(%o)) { MissionGroup.add(%o); %o.setTransform(\"'' = 0"
    by (simp_all add: depth_def)
  have t: "tail_ok (- 1) ''); $LifxSpawnId = %o.getId(); } else { $LifxSpawnId = 0; } }''"
    "tail_ok 1 '' 0 0 1 0\"); %o.lifxGhost(); %o.lifxLoadout(''" "tail_ok 1 '' ''"
    "tail_ok 1 ''\"; }; if (isObject(%o)) { MissionGroup.add(%o); %o.setTransform(\"''"
    by (simp_all add: depth_def)
  show "depth (ensure_rest n) = - 2" unfolding e by (simp only: depth_append d c)
  show "tail_ok (- 1) (ensure_rest n)"
    unfolding e by (simp only: tail_ok_append depth_append d c) (simp add: t tail_ok_free free del: tail_ok.simps)
qed

lemma cut_script_is_open:
  assumes "plain n" "768 \<le> length (ensure_text n)" "- 0x80000000 \<le> ms_lastId n" "ms_lastId n < 0x80000000"
  shows "0 < depth (take 767 (ensure_text n))"
proof -
  define h where "h = ensure_head (ms_lastId n)"
  define m where "m = 767 - length h"
  have h: "length h \<le> 767" using length_fmt_d [OF assms(3,4)] by (simp add: h_def ensure_head_def)
  have m: "m < length (ensure_rest n)"
    using assms(2) h unfolding ensure_text_split [of n] by (simp add: m_def h_def [symmetric])
  have "take 767 (ensure_text n) = h @ take m (ensure_rest n)"
    using h unfolding ensure_text_split [of n] by (simp add: m_def h_def)
  moreover have "depth (ensure_rest n) = depth (take m (ensure_rest n)) + depth (drop m (ensure_rest n))"
    by (metis append_take_drop_id depth_append)
  ultimately show ?thesis
    using tail_ok_drop [OF rest_closes(1) [OF assms(1)] m] rest_closes(2) [OF assms(1)] depth_head [of "ms_lastId n"]
    by (simp add: h_def)
qed

text \<open>The text of a node is formatted into 768 bytes. A node whose texts do not fit is never populated: its script is
  cut and not evaluated, and the number the node before it was given is read once more, so that it counts as
  populated by the NPC of that node.\<close>

theorem oversized_node_borrows_an_npc:
  assumes "documented_console con v" "documented_parser con" "node_ok (next_id v w) n1"
    and "plain n2" "768 \<le> length (ensure_text n2)" "- 0x80000000 \<le> ms_lastId n2" "ms_lastId n2 < 0x80000000"
    and "EnsureSpawnsImpl con [n1, n2] w = ([n1', n2'], w')"
  shows "ms_lastId n2' = ms_lastId n1' \<and> live v w' \<subseteq> insert (ms_lastId n1') (live v w) \<and>
     (ms_lastId n1 \<in> live v w \<longrightarrow> ms_lastId n2' = ms_lastId n1)"
proof -
  obtain w1 where n1: "ensure_node con n1 w = (n1', w1)" and n2: "ensure_node con n2 w1 = (n2', w')"
    using assms(8) by (auto split: prod.splits)
  have "Evaluate con (take 767 (ensure_text n2)) w1 = w1"
    using assms(2,4) cut_script_is_open [OF assms(4-7)] by (simp add: documented_parser_def)
  then have e: "w' = w1" "ms_lastId n2' = (let i = GetVariable con ''$LifxSpawnId'' w1 in if i = [] then 0 else atoi i)"
    using n2 by (auto simp: ensure_node_def snprintf_out_def Let_def)
  have "ms_lastId n1' = (let i = GetVariable con ''$LifxSpawnId'' w1 in if i = [] then 0 else atoi i)"
    using n1 by (auto simp: ensure_node_def Let_def)
  then have "ms_lastId n2' = ms_lastId n1'" using e by simp
  moreover obtain j where "n1' = n1\<lparr>ms_lastId := j\<rparr>" "live v w1 \<subseteq> insert j (live v w)" "ms_lastId n1 \<in> live v w \<longrightarrow> j = ms_lastId n1"
    by (rule ensure_node_step [OF assms(1,3) n1]) auto
  ultimately show ?thesis by (simp add: e)
qed

section \<open>A concrete console\<close>

text \<open>A world with room for a thousand NPCs, none of which goes away.\<close>

lemma atoi_fmt_d_stop:
  assumes "\<not> is_digit c"
  shows "atoi (fmt_d i @ c # r) = max (- 0x80000000) (min 0x7FFFFFFF i)"
proof (cases "i < 0")
  case True
  have "strtoul_sign (dropWhile c_space (''-'' @ dec (nat (- i)) @ c # r)) = (True, dec (nat (- i)) @ c # r)"
    by (simp add: c_space_def strtoul_sign_def)
  moreover have "c = hd (c # r)" by simp
  ultimately show ?thesis using True assms
    by (simp add: atoi_def fmt_d_def signed_value_def decimal_takeWhile decimal_value)
next
  case False
  then show ?thesis using sign_of_digits [of "nat i" "c # r"] assms
    by (simp add: atoi_def fmt_d_def signed_value_def decimal_takeWhile decimal_value)
qed

definition demo_eval :: "string \<Rightarrow> nat \<times> string \<Rightarrow> nat \<times> string" where
  "demo_eval t w =
     (if 0 < depth t then w
      else let k = min (fst w) 1000; i = atoi (drop (length ''if (isObject('') t)
           in if 0 < i \<and> i \<le> int k then (k, fmt_d i)
              else if k < 1000 then (Suc k, fmt_d (int (Suc k))) else (k, ''0''))"

definition demo_base :: "(nat \<times> string) console" where
  "demo_base = \<lparr>Evaluate = demo_eval, Evaluate_tick = (\<lambda>t ns w. (ns, w)), GetVariable = (\<lambda>x w. snd w)\<rparr>"

definition demo_console :: "(nat \<times> string) console" where
  "demo_console = demo_base\<lparr>Evaluate_tick := (\<lambda>t. EnsureSpawnsImpl demo_base)\<rparr>"

definition demo_view :: "(nat \<times> string) world_view" where
  "demo_view = \<lparr>live = (\<lambda>w. {0<..int (min (fst w) 1000)}), next_id = (\<lambda>w. int (min (fst w) 1000) + 1)\<rparr>"

definition demo_node :: "string \<Rightarrow> int \<Rightarrow> managed_spawn" where
  "demo_node db i = \<lparr>ms_x = ''10'', ms_y = ''20'', ms_z = ''30'', ms_db = db, ms_loadout = 1, ms_lastId = i\<rparr>"

lemma demo_pass: "EnsureSpawnsImpl demo_console ns w = EnsureSpawnsImpl demo_base ns w"
  by (induction ns arbitrary: w) (auto simp: demo_console_def demo_base_def ensure_node_def Let_def split: prod.splits)

lemma demo_tick_pass: "Evaluate_tick demo_console t = EnsureSpawnsImpl demo_base"
  by (simp add: demo_console_def)

lemma demo_effect:
  fixes w :: "nat \<times> string"
  assumes "plain n"
  defines "k \<equiv> min (fst w) 1000"
  shows "demo_eval (ensure_text n) w =
     (if 0 < ms_lastId n \<and> ms_lastId n \<le> int k then (k, fmt_d (ms_lastId n))
      else if k < 1000 then (Suc k, fmt_d (int (Suc k))) else (k, ''0''))"
proof -
  have "depth (ensure_text n) = 0"
    using rest_closes(2) [OF assms(1)] depth_head by (simp add: ensure_text_split)
  moreover have "atoi (drop (length ''if (isObject('') (ensure_text n)) = max (- 0x80000000) (min 0x7FFFFFFF (ms_lastId n))"
    using atoi_fmt_d_stop [of "CHR '')''"] by (simp add: ensure_text_def ensure_head_def is_digit_def)
  moreover have "int k \<le> 1000" by (simp add: k_def)
  ultimately show ?thesis by (auto simp: demo_eval_def Let_def k_def [symmetric])
qed

lemma demo_console_documented: "documented_console demo_console demo_view"
proof -
  have grow: "{0<..int (Suc k)} = insert (int (Suc k)) {0<..int k}" for k by auto
  show ?thesis
    unfolding documented_console_def
  proof (intro conjI allI impI)
    fix n and w :: "nat \<times> string"
    assume "plain n \<and> length (ensure_text n) < 768"
    then have n: "plain n" by simp
    show "let w' = Evaluate demo_console (ensure_text n) w; i = GetVariable demo_console ''$LifxSpawnId'' w'
       in if ms_lastId n \<in> live demo_view w
          then live demo_view w' = live demo_view w \<and> next_id demo_view w' = next_id demo_view w \<and> i = fmt_d (ms_lastId n)
          else next_id demo_view w \<le> next_id demo_view w' \<and>
            (live demo_view w' = live demo_view w \<and> i = ''0'' \<or>
             (\<exists>k \<ge> next_id demo_view w. k < next_id demo_view w' \<and> live demo_view w' = insert k (live demo_view w) \<and> i = fmt_d k))"
    proof (cases "0 < ms_lastId n \<and> ms_lastId n \<le> int (min (fst w) 1000) \<or> 1000 \<le> fst w")
      case True
      then show ?thesis using demo_effect [OF n, of w]
        by (auto simp: demo_console_def demo_base_def demo_view_def Let_def)
    next
      case False
      then show ?thesis using demo_effect [OF n, of w] grow [of "fst w"]
        by (auto simp: demo_console_def demo_base_def demo_view_def Let_def intro!: exI [of _ "1 + int (fst w)"])
    qed
  qed (auto simp: demo_view_def)
qed

lemma demo_tick: "documented_tick demo_console demo_view"
  unfolding documented_tick_def
proof (intro allI)
  fix ns and w :: "nat \<times> string"
  obtain ns' w' where p: "EnsureSpawnsImpl demo_base ns w = (ns', w')"
    by (cases "EnsureSpawnsImpl demo_base ns w")
  show "\<exists>w1 w2. live demo_view w1 = live demo_view w \<and> next_id demo_view w1 = next_id demo_view w \<and>
      (case Evaluate_tick demo_console tick_text ns w of (ns', w') \<Rightarrow>
         EnsureSpawnsImpl demo_console ns w1 = (ns', w2) \<and> live demo_view w' = live demo_view w2 \<and>
         next_id demo_view w' = next_id demo_view w2)"
    by (rule exI [of _ w], rule exI [of _ w']) (simp add: demo_pass demo_tick_pass p)
qed

lemma demo_parser: "documented_parser demo_console"
  by (simp add: documented_parser_def demo_console_def demo_base_def demo_eval_def)

theorem pass_populates_nodes_witness:
  "passed demo_view [demo_node ''Bandit'' 0, demo_node ''Guard'' 1] (1, []) [demo_node ''Bandit'' 2, demo_node ''Guard'' 1] (2, ''1'')"
proof -
  have "EnsureSpawnsCb demo_console \<lparr>g_managed = [demo_node ''Bandit'' 0, demo_node ''Guard'' 1], s_tickStarted = True\<rparr> (1, []) =
      (\<lparr>g_managed = [demo_node ''Bandit'' 2, demo_node ''Guard'' 1], s_tickStarted = True\<rparr>, (2, ''1''))"
    by code_simp
  from pass_populates_nodes [OF demo_console_documented _ _ this] show ?thesis
    by (simp add: node_ok_def plain_def short_def node_texts_def demo_node_def demo_view_def)
qed

definition demo_args :: "string list" where
  "demo_args = [''Lifx::manageSpawn'', ''10'', ''20'', ''30'', ''Bandit'']"


theorem oversized_node_borrows_an_npc_witness:
  "\<exists>w'. EnsureSpawnsImpl demo_console [demo_node ''Guard'' 0, demo_node (replicate 600 CHR ''a'') 0] (0, []) =
     ([demo_node ''Guard'' 1, demo_node (replicate 600 CHR ''a'') 1], w') \<and> live demo_view w' \<subseteq> {1}"
proof -
  let ?l = "demo_node (replicate 600 CHR ''a'') 0"
  have g: "ensure_node demo_console (demo_node ''Guard'' 0) (0, []) = (demo_node ''Guard'' 1, (1, ''1''))" by code_simp
  obtain n2 w' where l: "ensure_node demo_console ?l (1, ''1'') = (n2, w')" by (cases "ensure_node demo_console ?l (1, ''1'')")
  let ?n1 = "demo_node ''Guard'' 1"
  have p: "EnsureSpawnsImpl demo_console [demo_node ''Guard'' 0, ?l] (0, []) = ([?n1, n2], w')" by (simp add: g l del: One_nat_def)
  have long: "768 \<le> length (ensure_text ?l)"
    by (simp add: ensure_text_def ensure_head_def demo_node_def)
  have plain: "plain ?l" by (auto simp: plain_def node_texts_def demo_node_def)
  have ok: "node_ok (next_id demo_view (0, [])) (demo_node ''Guard'' 0)"
    by (simp add: node_ok_def plain_def short_def node_texts_def demo_node_def demo_view_def)
  have "n2 = ?l\<lparr>ms_lastId := ms_lastId n2\<rparr>" using l by (auto simp: ensure_node_def Let_def)
  moreover have "ms_lastId n2 = ms_lastId ?n1 \<and> live demo_view w' \<subseteq> insert (ms_lastId ?n1) (live demo_view (0, []))"
    using oversized_node_borrows_an_npc [OF demo_console_documented demo_parser ok plain long _ _ p] by (simp add: demo_node_def)
  ultimately show ?thesis using p by (auto simp: demo_node_def demo_view_def)
qed

end
