(* ===== verification/Bandit_Tools.thy ===== *)
theory Bandit_Tools
  imports Npc_Laws
begin

text \<open>
  Console tools for a spawned bandit (\<open>source/server/api/lifx_hostile.cpp\<close>): filling a grave by hand, loading and
  inspecting the equipment of its character, giving it a weapon, mounting one, letting it strike, and listing the
  engine's registry of weapon images. The functions of the engine they call are the fields of an environment; the
  calls a tool makes are values, in order.
\<close>

section \<open>Environment\<close>

record tools_env =
  te_base :: u64
  te_regions :: query
  Character_GetByID :: "u32 \<Rightarrow> mem \<Rightarrow> u64"
  engine_alloc :: "u64 \<Rightarrow> mem \<Rightarrow> u64 \<times> mem"
  cci_ctor :: "u64 \<Rightarrow> u32 \<Rightarrow> mem \<Rightarrow> mem"
  character_load :: "u64 \<Rightarrow> mem \<Rightarrow> mem"
  inventory_init :: "u64 \<Rightarrow> u64 \<Rightarrow> mem \<Rightarrow> mem"
  equip_load :: "u64 \<Rightarrow> mem \<Rightarrow> mem"
  mount_movable :: "u64 \<Rightarrow> u32 \<Rightarrow> mem \<Rightarrow> mem"
  animal_swing :: "u64 \<Rightarrow> int \<Rightarrow> mem \<Rightarrow> mem"
  end_attack :: "u64 \<Rightarrow> mem \<Rightarrow> mem"
  te_conn :: "u32 \<Rightarrow> u64"

datatype tool_call =
    Script string
  | Sql u64 string
  | Mount u64 u32
  | Swing u64 int
  | End_Attack u64

type_synonym cci_cache = "u32 \<Rightarrow> u64 option"

section \<open>Graves\<close>

definition DropBanditLootCb :: "loot_env \<Rightarrow> string list \<Rightarrow> mem \<Rightarrow> loot \<Rightarrow> loot_call list \<times> mem" where
  "DropBanditLootCb env argv m s =
     (let charId = ParseU32 argv 1 in if charId = 0 then ([], m) else FillBanditGraveCore env charId 0 m s)"

definition ReloadFreshestGraveCb :: "loot_env \<Rightarrow> mem \<Rightarrow> loot \<Rightarrow> loot_call list \<times> mem" where
  "ReloadFreshestGraveCb env m s = (case ReloadFreshestGraveContainer env m s of (_, calls, m) \<Rightarrow> (calls, m))"

definition BindLastAnimalCb :: "npc_env \<Rightarrow> mem \<Rightarrow> npcs \<Rightarrow> (bool \<times> npc_call list \<times> mem \<times> npcs) option" where
  "BindLastAnimalCb env m s = BindAnimalChar env (g_lastBandit s) m s"

section \<open>Equipment in memory\<close>

definition CCI_REFCOUNT_VFTABLE_RVA :: u64 where "CCI_REFCOUNT_VFTABLE_RVA = 0x7CFD98"
definition CCI_RECORD_OFF :: u64 where "CCI_RECORD_OFF = 0x370"
definition RECORD_INVENTORY_OFF :: u64 where "RECORD_INVENTORY_OFF = 0x40"
definition RECORD_EQUIP_OFF :: u64 where "RECORD_EQUIP_OFF = 0x48"
definition EQUIP_PLAYER_ID_OFF :: u64 where "EQUIP_PLAYER_ID_OFF = 0x50"
definition EQUIP_CONTAINER_OFF :: u64 where "EQUIP_CONTAINER_OFF = 0x58"
definition EQUIP_SLOT_BASE_OFF :: u64 where "EQUIP_SLOT_BASE_OFF = 0x100"

definition LookupCci :: "tools_env \<Rightarrow> mem \<Rightarrow> cci_cache \<Rightarrow> u32 \<Rightarrow> u64" where
  "LookupCci env m cache charId =
     (let cci = Character_GetByID env charId m
      in if cci \<noteq> 0 then cci else case cache charId of Some c \<Rightarrow> c | None \<Rightarrow> 0)"

text \<open>A character information built without a connection, behind a reference count.\<close>

definition BuildLoadedCci :: "tools_env \<Rightarrow> u32 \<Rightarrow> mem \<Rightarrow> cci_cache \<Rightarrow> u64 \<times> mem \<times> cci_cache" where
  "BuildLoadedCci env charId m cache =
     (case engine_alloc env 0x3a8 m of
        (refc, m) \<Rightarrow>
          if refc = 0 then (0, m, cache)
          else
            let m = mwrite m refc (replicate 0x3a8 0);
                m = write_field m refc 0 (te_base env + CCI_REFCOUNT_VFTABLE_RVA);
                m = write_field m refc 8 (1 :: u32);
                m = write_field m refc 0xc (1 :: u32);
                cci = refc + 0x10;
                m = character_load env cci (cci_ctor env cci charId m)
            in (cci, m, cache(charId \<mapsto> cci)))"

datatype equip_report =
    Not_Loaded
  | No_Record
  | Not_Built
  | Equipment u32 "(u32 \<times> u32 \<times> u32) list option"

fun filled_slots :: "query \<Rightarrow> mem \<Rightarrow> u64 \<Rightarrow> u32 list \<Rightarrow> (u32 \<times> u32 \<times> u32) list option" where
  "filled_slots q m c [] = Some []"
| "filled_slots q m c (i # is) =
     do { v \<leftarrow> qword0 q m c (EQUIP_SLOT_BASE_OFF + ucast i * 8);
          rest \<leftarrow> filled_slots q m c is;
          Some (if (ucast v :: u32) \<noteq> 0 then (i, ucast v, ucast (drop_bit 32 v)) # rest else rest) }"

definition DumpBoundEquipCore :: "tools_env \<Rightarrow> u32 \<Rightarrow> mem \<Rightarrow> cci_cache \<Rightarrow> equip_report option" where
  "DumpBoundEquipCore env charId m cache =
     (let q = te_regions env; cci = LookupCci env m cache charId
      in do {
        ok \<leftarrow> SafeReadable q cci 8;
        (if cci = 0 \<or> \<not> ok then Some Not_Loaded
         else do {
           record \<leftarrow> qword0 q m cci CCI_RECORD_OFF;
           ok \<leftarrow> SafeReadable q record 0x60;
           (if record = 0 \<or> \<not> ok then Some No_Record
            else do {
              equip \<leftarrow> qword0 q m record RECORD_EQUIP_OFF;
              ok \<leftarrow> SafeReadable q equip 0x60;
              (if equip = 0 \<or> \<not> ok then Some Not_Built
               else do {
                 playerId \<leftarrow> SafeU32 q m equip EQUIP_PLAYER_ID_OFF;
                 container \<leftarrow> qword0 q m equip EQUIP_CONTAINER_OFF;
                 ok \<leftarrow> SafeReadable q container (EQUIP_SLOT_BASE_OFF + 0x12 * 8);
                 (if container = 0 \<or> \<not> ok then Some (Equipment playerId None)
                  else do {
                    slots \<leftarrow> filled_slots q m container (map word_of_nat [1..<0x12]);
                    Some (Equipment playerId (Some slots)) }) }) }) }) })"

definition DumpBoundEquipCb :: "tools_env \<Rightarrow> string list \<Rightarrow> mem \<Rightarrow> cci_cache \<Rightarrow> equip_report option option" where
  "DumpBoundEquipCb env argv m cache =
     (let charId = ParseU32 argv 1 in if charId = 0 then None else Some (DumpBoundEquipCore env charId m cache))"

definition marshal_text :: "u32 \<Rightarrow> string" where
  "marshal_text charId =
     ''function lifxLoadEquip(%c){ Lifx::loadBoundEquip(%c, 1); } schedule(0, 0, lifxLoadEquip, '' @ fmt_u charId @ '');''"

text \<open>The character information that is there, with its inventory and equipment built when they are missing.\<close>

definition materialise :: "tools_env \<Rightarrow> u64 \<Rightarrow> mem \<Rightarrow> mem option" where
  "materialise env cci m =
     (let q = te_regions env
      in do {
        record \<leftarrow> qword0 q m cci CCI_RECORD_OFF;
        ok \<leftarrow> SafeReadable q record 0x60;
        equip \<leftarrow> (if record \<noteq> 0 \<and> ok then qword0 q m record RECORD_EQUIP_OFF else Some 0);
        (if equip \<noteq> 0 \<or> record = 0 then Some m
         else do {
           let m = inventory_init env record cci m;
           equip \<leftarrow> qword0 q m record RECORD_EQUIP_OFF;
           ok \<leftarrow> SafeReadable q equip 0x60;
           Some (if equip \<noteq> 0 \<and> ok then equip_load env equip m else m) }) })"

definition LoadBoundEquipCore ::
  "tools_env \<Rightarrow> u32 \<Rightarrow> bool \<Rightarrow> mem \<Rightarrow> cci_cache \<Rightarrow> (tool_call list \<times> equip_report option \<times> mem \<times> cci_cache) option" where
  "LoadBoundEquipCore env charId onMainThread m cache =
     (if \<not> onMainThread then Some ([Script (snprintf_out 256 (marshal_text charId))], None, m, cache)
      else
        let q = te_regions env; cci = LookupCci env m cache charId
        in do {
          ok \<leftarrow> SafeReadable q cci 8;
          (if cci = 0 \<or> \<not> ok
           then (case BuildLoadedCci env charId m cache of
                   (cci, m, cache) \<Rightarrow> do {
                     ok \<leftarrow> SafeReadable q cci 8;
                     (if cci = 0 \<or> \<not> ok then Some ([], None, m, cache)
                      else do { r \<leftarrow> DumpBoundEquipCore env charId m cache; Some ([], Some r, m, cache) }) })
           else do {
             m \<leftarrow> materialise env cci m;
             r \<leftarrow> DumpBoundEquipCore env charId m cache;
             Some ([], Some r, m, cache) }) })"

definition LoadBoundEquipCb ::
  "tools_env \<Rightarrow> string list \<Rightarrow> mem \<Rightarrow> cci_cache \<Rightarrow> (tool_call list \<times> equip_report option \<times> mem \<times> cci_cache) option" where
  "LoadBoundEquipCb env argv m cache =
     (let charId = ParseU32 argv 1
      in if charId = 0 then Some ([], None, m, cache)
         else LoadBoundEquipCore env charId (3 \<le> length argv \<and> ParseU32 argv 2 = 1) m cache)"

section \<open>A weapon in the database\<close>

definition weapon_insert :: "u32 \<Rightarrow> u32 \<Rightarrow> string" where
  "weapon_insert charId objectTypeId =
     ''INSERT INTO `items` (ContainerID, ObjectTypeID, Quality, Quantity, Durability, CreatedDurability) ''
     @ ''SELECT c.EquipmentContainerID, '' @ fmt_u objectTypeId
     @ '', 50, 1, 30000, 30000 FROM `character` c WHERE c.ID = '' @ fmt_u charId @ '';''"

definition weapon_slot :: "u32 \<Rightarrow> u32 \<Rightarrow> u32 \<Rightarrow> string" where
  "weapon_slot charId objectTypeId slot =
     ''UPDATE `equipment_slots` SET ItemID = (''
     @ ''SELECT MAX(i.ID) FROM `items` i JOIN `character` c ON i.ContainerID = c.EquipmentContainerID ''
     @ ''WHERE c.ID = '' @ fmt_u charId @ '' AND i.ObjectTypeID = '' @ fmt_u objectTypeId @ '') ''
     @ ''WHERE CharacterID = '' @ fmt_u charId @ '' AND Slot = '' @ fmt_u slot @ '';''"

definition EquipBanditWeaponCore :: "tools_env \<Rightarrow> u32 \<Rightarrow> u32 \<Rightarrow> u32 \<Rightarrow> tool_call list" where
  "EquipBanditWeaponCore env charId objectTypeId slot =
     (if charId = 0 \<or> objectTypeId = 0 then []
      else
        let slot = (if slot < 1 \<or> 0x11 < slot then 0x0C else slot);
            conn = te_conn env kDbWorldConnIdx
        in if conn = 0 then []
           else [Sql conn (snprintf_out 768 (weapon_insert charId objectTypeId)),
                 Sql conn (snprintf_out 768 (weapon_slot charId objectTypeId slot))])"

definition EquipBanditWeaponCb :: "tools_env \<Rightarrow> string list \<Rightarrow> tool_call list" where
  "EquipBanditWeaponCb env argv =
     EquipBanditWeaponCore env (ParseU32 argv 1) (ParseU32 argv 2) (if 4 \<le> length argv then ParseU32 argv 3 else 0x0C)"

section \<open>Mounting and striking\<close>

definition MountBanditWeaponCore :: "tools_env \<Rightarrow> u32 \<Rightarrow> mem \<Rightarrow> npcs \<Rightarrow> (tool_call list \<times> mem) option" where
  "MountBanditWeaponCore env typeId m s =
     (let q = te_regions env; animal = g_lastBandit s
      in do {
        ok \<leftarrow> SafeReadable q animal 8;
        (if animal = 0 \<or> \<not> ok then Some ([], m)
         else do {
           vt \<leftarrow> qword0 q m animal 0;
           (if \<not> InModule (te_base env) vt then Some ([], m)
            else do {
              mountFn \<leftarrow> qword0 q m vt 0x3C0;
              Some (if \<not> InModule (te_base env) mountFn then ([], m)
                    else let cs = animal + kCharStatsToPlayerDelta
                         in ([Mount cs typeId], mount_movable env cs typeId m)) }) }) })"

definition MountBanditWeaponCb :: "tools_env \<Rightarrow> string list \<Rightarrow> mem \<Rightarrow> npcs \<Rightarrow> (tool_call list \<times> mem) option" where
  "MountBanditWeaponCb env argv m s =
     (let typeId = ParseU32 argv 1 in if typeId = 0 then Some ([], m) else MountBanditWeaponCore env typeId m s)"

definition ANIMAL_WEAPONDATA_OFF :: u64 where "ANIMAL_WEAPONDATA_OFF = 0x24F0"
definition ANIMAL_ATTACKTYPE_OFF :: u64 where "ANIMAL_ATTACKTYPE_OFF = 0x24F8"
definition ANIMAL_ATTACK_CONSUMED_OFF :: u64 where "ANIMAL_ATTACK_CONSUMED_OFF = 0x24FC"

definition BanditStrikeCore :: "tools_env \<Rightarrow> int \<Rightarrow> bool \<Rightarrow> mem \<Rightarrow> npcs \<Rightarrow> (tool_call list \<times> mem) option" where
  "BanditStrikeCore env attackType visualSwing m s =
     (let q = te_regions env; animal = g_lastBandit s
      in do {
        ok \<leftarrow> SafeReadable q animal 8;
        (if animal = 0 \<or> \<not> ok then Some ([], m)
         else do {
           vt \<leftarrow> qword0 q m animal 0;
           (if \<not> InModule (te_base env) vt then Some ([], m)
            else do {
              weapon \<leftarrow> qword0 q m animal ANIMAL_WEAPONDATA_OFF;
              datablk \<leftarrow> qword0 q m animal 0x2530;
              weaponVt \<leftarrow> (if weapon \<noteq> 0 then qword0 q m weapon 0 else Some 0);
              ok \<leftarrow> SafeReadable q weapon 0x23b0;
              (if weapon = 0 \<or> \<not> ok \<or> \<not> InModule (te_base env) weaponVt then Some ([], m)
               else do {
                 innerDb \<leftarrow> (if datablk \<noteq> 0 then qword0 q m datablk 0 else Some 0);
                 ok \<leftarrow> SafeReadable q innerDb 0x84d4;
                 Some (if datablk = 0 \<or> innerDb = 0 \<or> \<not> ok then ([], m)
                       else
                         let t = (if attackType < 0 \<or> 1 < attackType then 0 else attackType)
                         in if visualSwing
                            then ([Swing animal t, End_Attack animal], end_attack env animal (animal_swing env animal t m))
                            else ([End_Attack animal],
                                  end_attack env animal
                                    (write_field (write_field m animal ANIMAL_ATTACKTYPE_OFF (word_of_int t :: u32))
                                       animal ANIMAL_ATTACK_CONSUMED_OFF (0 :: u8)))) }) }) }) })"

definition BanditStrikeCb :: "tools_env \<Rightarrow> string list \<Rightarrow> mem \<Rightarrow> npcs \<Rightarrow> (tool_call list \<times> mem) option" where
  "BanditStrikeCb env argv m s =
     BanditStrikeCore env (if 2 \<le> length argv then sint (ParseU32 argv 1) else 0)
       (if 3 \<le> length argv then ParseU32 argv 2 \<noteq> 0 else True) m s"

section \<open>The registry of weapon images\<close>

definition MOVABLE_IMG_BUCKETS_PTR :: u64 where "MOVABLE_IMG_BUCKETS_PTR = 0xB6FB10"
definition MOVABLE_IMG_BUCKET_COUNT :: u64 where "MOVABLE_IMG_BUCKET_COUNT = 0xB6FB18"

text \<open>At most so many printable bytes from an address, as far as they can be read.\<close>

fun printable_run :: "query \<Rightarrow> mem \<Rightarrow> u64 \<Rightarrow> nat \<Rightarrow> string option" where
  "printable_run q m p 0 = Some []"
| "printable_run q m p (Suc k) =
     do { ok \<leftarrow> SafeReadable q p 1;
          (if ok \<and> 0x20 \<le> m p \<and> m p < 0x7f
           then do { r \<leftarrow> printable_run q m (p + 1) k; Some (char_of (unat (m p)) # r) }
           else Some []) }"

fun first_string :: "query \<Rightarrow> mem \<Rightarrow> u64 \<Rightarrow> nat \<Rightarrow> u64 list \<Rightarrow> string option option" where
  "first_string q m obj outsz [] = Some None"
| "first_string q m obj outsz (off # offs) =
     do { p \<leftarrow> qword0 q m obj off;
          ok \<leftarrow> SafeReadable q p 4;
          (if p = 0 \<or> \<not> ok then first_string q m obj outsz offs
           else do {
             r \<leftarrow> printable_run q m p (outsz - 1);
             (if 3 \<le> length r then Some (Some r) else first_string q m obj outsz offs) }) }"

definition FirstReadableStr :: "query \<Rightarrow> mem \<Rightarrow> u64 \<Rightarrow> nat \<Rightarrow> string option option" where
  "FirstReadableStr q m obj outsz = first_string q m obj outsz (map (\<lambda>i. 8 * word_of_nat i) [1..<41])"

definition tolower :: "char \<Rightarrow> char" where
  "tolower c = (if 65 \<le> (of_char c :: nat) \<and> (of_char c :: nat) \<le> 90 then char_of ((of_char c :: nat) + 32) else c)"

text \<open>The inner loop: whether the needle was read to its end.\<close>

fun matches_here :: "string \<Rightarrow> string \<Rightarrow> bool" where
  "matches_here h [] = True"
| "matches_here [] (b # bs) = False"
| "matches_here (a # as) (b # bs) = (tolower a = tolower b \<and> matches_here as bs)"

fun search_from :: "string \<Rightarrow> string \<Rightarrow> bool" where
  "search_from [] needle = False"
| "search_from (c # cs) needle = (matches_here (c # cs) needle \<or> search_from cs needle)"

definition StrCaseContains :: "string \<Rightarrow> string \<Rightarrow> bool" where
  "StrCaseContains hay needle = (needle = [] \<or> search_from hay needle)"

text \<open>A row of the list: the key, the image and the text found.\<close>

type_synonym image_row = "u32 \<times> u64 \<times> string"

definition image_row_at :: "query \<Rightarrow> mem \<Rightarrow> u64 \<Rightarrow> (image_row \<times> u64) option" where
  "image_row_at q m node =
     do { key \<leftarrow> qword0 q m node 0x08;
          val \<leftarrow> qword0 q m node 0x10;
          next \<leftarrow> qword0 q m node 0x00;
          name \<leftarrow> (if val \<noteq> 0 then FirstReadableStr q m val 64 else Some None);
          Some ((ucast key, val, case name of Some n \<Rightarrow> n | None \<Rightarrow> ''(no-str)''), next) }"

fun chain_rows :: "query \<Rightarrow> mem \<Rightarrow> u64 \<Rightarrow> nat \<Rightarrow> image_row list option" where
  "chain_rows q m node 0 = Some []"
| "chain_rows q m node (Suc guard) =
     (if node = 0 then Some []
      else do { (row, next) \<leftarrow> image_row_at q m node;
                rows \<leftarrow> chain_rows q m next guard;
                Some (row # rows) })"

fun bucket_rows :: "query \<Rightarrow> mem \<Rightarrow> u64 \<Rightarrow> nat \<Rightarrow> image_row list option" where
  "bucket_rows q m b 0 = Some []"
| "bucket_rows q m b (Suc k) =
     do { node \<leftarrow> qword0 q m b 0;
          rows \<leftarrow> chain_rows q m node 4096;
          rest \<leftarrow> bucket_rows q m (b + 8) k;
          Some (rows @ rest) }"

text \<open>The number of registered images and the rows shown, or nothing when the registry is not ready.\<close>

definition DumpMovableImagesCore :: "tools_env \<Rightarrow> string option \<Rightarrow> mem \<Rightarrow> (nat \<times> image_row list) option option" where
  "DumpMovableImagesCore env pat m =
     (let q = te_regions env
      in do {
        bucketsBase \<leftarrow> qword0 q m (te_base env + MOVABLE_IMG_BUCKETS_PTR) 0;
        count \<leftarrow> qword0 q m (te_base env + MOVABLE_IMG_BUCKET_COUNT) 0;
        let count = count AND 0xFFFFFFFF;
        (if bucketsBase = 0 \<or> count = 0 \<or> 0x100000 < count then Some None
         else do {
           rows \<leftarrow> bucket_rows q m bucketsBase (unat count);
           Some (Some (length rows,
             case pat of None \<Rightarrow> rows | Some f \<Rightarrow> List.filter (\<lambda>(_, _, name). StrCaseContains name f) rows)) }) })"

definition DumpMovableImagesCb :: "tools_env \<Rightarrow> string list \<Rightarrow> mem \<Rightarrow> (nat \<times> image_row list) option option" where
  "DumpMovableImagesCb env argv m =
     DumpMovableImagesCore env (if 2 \<le> length argv \<and> argv ! 1 \<noteq> [] then Some (argv ! 1) else None) m"

section \<open>The guarded reads answer\<close>

lemma SafeReadable_answers: "documented q \<Longrightarrow> \<exists>b. SafeReadable q p len = Some b"
  using region_loop_answer [of q p "p + len"] by (cases "p = 0") (auto simp: SafeReadable_def)

lemma qword0_answers: "documented q \<Longrightarrow> \<exists>v. qword0 q m base off = Some v"
  using SafeReadable_answers [of q "base + off" 8] by (auto simp: qword0_def SafeQword_def)

lemma printable_run_answers: "documented q \<Longrightarrow> \<exists>r. printable_run q m p k = Some r \<and> length r \<le> k"
proof (induction k arbitrary: p)
  case (Suc k)
  then show ?case using SafeReadable_answers [OF Suc.prems, of p 1] Suc.IH [of "p + 1"] by fastforce
qed simp

lemma first_string_answers: "documented q \<Longrightarrow> \<exists>r. first_string q m obj n offs = Some r"
proof (induction offs)
  case (Cons off offs)
  obtain p where p: "qword0 q m obj off = Some p" using qword0_answers [OF Cons.prems] by blast
  obtain ok r where "SafeReadable q p 4 = Some ok" "printable_run q m p (n - 1) = Some r"
    using SafeReadable_answers [OF Cons.prems] printable_run_answers [OF Cons.prems] by meson
  then show ?case using Cons p by auto
qed simp

lemma image_row_answers: "documented q \<Longrightarrow> \<exists>r. image_row_at q m node = Some r"
proof -
  assume q: "documented q"
  obtain k v n where "qword0 q m node 0x08 = Some k" "qword0 q m node 0x10 = Some v" "qword0 q m node 0x00 = Some n"
    using qword0_answers [OF q] by meson
  moreover obtain r where "FirstReadableStr q m v 64 = Some r"
    unfolding FirstReadableStr_def using first_string_answers [OF q] by blast
  ultimately show ?thesis by (auto simp: image_row_at_def)
qed

lemma chain_rows_answers: "documented q \<Longrightarrow> \<exists>rows. chain_rows q m node g = Some rows \<and> length rows \<le> g"
proof (induction g arbitrary: node)
  case (Suc g)
  obtain row nxt where r: "image_row_at q m node = Some (row, nxt)" using image_row_answers [OF Suc.prems] by fastforce
  then show ?case using Suc.IH [of nxt] Suc.prems by auto
qed simp

lemma bucket_rows_Suc:
  "qword0 q m b 0 = Some node \<Longrightarrow> chain_rows q m node 4096 = Some rows \<Longrightarrow> bucket_rows q m (b + 8) k = Some rest \<Longrightarrow>
   bucket_rows q m b (Suc k) = Some (rows @ rest)"
  by (simp only: bucket_rows.simps Option.bind.simps)

lemma bucket_rows_answers: "documented q \<Longrightarrow> \<exists>rows. bucket_rows q m b k = Some rows \<and> length rows \<le> 4096 * k"
proof (induction k arbitrary: b)
  case (Suc k)
  obtain node where n: "qword0 q m b 0 = Some node" using qword0_answers [OF Suc.prems] by blast
  obtain rows where c: "chain_rows q m node 4096 = Some rows" "length rows \<le> 4096"
    using chain_rows_answers [OF Suc.prems] by blast
  obtain rest where "bucket_rows q m (b + 8) k = Some rest" "length rest \<le> 4096 * k" using Suc by blast
  then show ?case using c bucket_rows_Suc [OF n c(1)] by (intro exI [of _ "rows @ rest"]) simp
qed simp

text \<open>Listing the registry ends on every memory, also when the chains of the table run in a circle.\<close>

theorem listing_images_ends:
  assumes "documented (te_regions env)"
  shows "\<exists>r. DumpMovableImagesCore env pat m = Some r \<and>
     (\<forall>total shown. r = Some (total, shown) \<longrightarrow> total \<le> 4096 * 0x100000 \<and> length shown \<le> total)"
proof -
  obtain b c where bc: "qword0 (te_regions env) m (te_base env + MOVABLE_IMG_BUCKETS_PTR) 0 = Some b"
    "qword0 (te_regions env) m (te_base env + MOVABLE_IMG_BUCKET_COUNT) 0 = Some c"
    using qword0_answers [OF assms] by meson
  let ?c = "c AND 0xFFFFFFFF"
  obtain rows where rows: "bucket_rows (te_regions env) m b (unat ?c) = Some rows" "length rows \<le> 4096 * unat ?c"
    using bucket_rows_answers [OF assms] by blast
  have "unat ?c \<le> 0x100000" if "\<not> 0x100000 < ?c"
    using that by (simp add: word_le_nat_alt not_less)
  then show ?thesis using bc rows
    by (auto simp: DumpMovableImagesCore_def Let_def split: option.split intro: order_trans [OF length_filter_le])
qed

text \<open>The search ignores case: it finds the needle exactly where it is a part of the text with both in lower case.\<close>

lemma matches_here_prefix: "matches_here h n \<longleftrightarrow> prefix (map tolower n) (map tolower h)"
  by (induction h n rule: matches_here.induct) auto

lemma search_from_sublist: "n \<noteq> [] \<Longrightarrow> search_from h n \<longleftrightarrow> sublist (map tolower n) (map tolower h)"
  by (induction h) (auto simp: matches_here_prefix sublist_Cons_right)

theorem search_ignores_case: "StrCaseContains hay needle \<longleftrightarrow> sublist (map tolower needle) (map tolower hay)"
  by (cases "needle = []") (auto simp: StrCaseContains_def search_from_sublist)

section \<open>Strikes\<close>

definition span_readable :: "query \<Rightarrow> u64 \<Rightarrow> u64 \<Rightarrow> bool" where
  "span_readable q p len \<longleftrightarrow> (\<forall>x. p \<le> x \<and> x < p + len \<longrightarrow> readable_at q x)"

lemma SafeReadable_span: "documented q \<Longrightarrow> SafeReadable q p len = Some True \<Longrightarrow> p \<noteq> 0 \<and> span_readable q p len"
  using region_loop_answer [of q p "p + len"] by (cases "p = 0") (auto simp: SafeReadable_def span_readable_def)

lemma qword0_nonzero: "qword0 q m base off = Some v \<Longrightarrow> v \<noteq> 0 \<Longrightarrow> v = read_field m base off"
  by (auto simp: qword0_def SafeQword_def split: bind_splits if_splits)

text \<open>The index of the attack is in place when the engine's attack is entered without the swing.\<close>

definition struck :: "mem \<Rightarrow> u64 \<Rightarrow> int \<Rightarrow> mem" where
  "struck m a t =
     write_field (write_field m a ANIMAL_ATTACKTYPE_OFF (word_of_int t :: u32)) a ANIMAL_ATTACK_CONSUMED_OFF (0 :: u8)"

lemma struck_type: "read_field (struck m a t) a ANIMAL_ATTACKTYPE_OFF = (word_of_int t :: u32)"
proof -
  have "outside ANIMAL_ATTACKTYPE_OFF (LENGTH(32) div 8) ANIMAL_ATTACK_CONSUMED_OFF (LENGTH(8) div 8)"
    by (rule outside_before) (simp_all add: ANIMAL_ATTACKTYPE_OFF_def ANIMAL_ATTACK_CONSUMED_OFF_def)
  then show ?thesis
    by (simp only: struck_def read_write_const) (simp add: read_write_field [where 'a = 32 and n = 4])
qed

text \<open>C16: The engine's attack is only entered for the last bandit, with a weapon and a datablock whose spans the attack
  reads can be read, and with an attack index that the datablock has an entry for.\<close>

theorem strikes_are_guarded:
  assumes "documented (te_regions env)" "BanditStrikeCore env t vis m s = Some (calls, m')" "End_Attack a \<in> set calls"
  shows "a = g_lastBandit s \<and> a \<noteq> 0 \<and>
    (\<exists>weapon inner i.
       weapon = read_field m a ANIMAL_WEAPONDATA_OFF \<and> weapon \<noteq> 0 \<and> span_readable (te_regions env) weapon 0x23b0 \<and>
       inner = read_field m (read_field m a 0x2530) 0 \<and> inner \<noteq> 0 \<and> span_readable (te_regions env) inner 0x84d4 \<and>
       (i = 0 \<or> i = 1) \<and>
       (if vis then calls = [Swing a i, End_Attack a] \<and> m' = end_attack env a (animal_swing env a i m)
        else calls = [End_Attack a] \<and>
          (\<exists>b. m' = end_attack env a b \<and> read_field b a ANIMAL_ATTACKTYPE_OFF = (word_of_int i :: u32))))"
proof -
  let ?q = "te_regions env" and ?a = "g_lastBandit s"
  let ?i = "if t < 0 \<or> 1 < t then 0 else t"
  obtain weapon datablk inner where w: "?a \<noteq> 0" "qword0 ?q m ?a ANIMAL_WEAPONDATA_OFF = Some weapon" "weapon \<noteq> 0"
      "SafeReadable ?q weapon 0x23b0 = Some True" "qword0 ?q m ?a 0x2530 = Some datablk" "datablk \<noteq> 0"
      "qword0 ?q m datablk 0 = Some inner" "inner \<noteq> 0" "SafeReadable ?q inner 0x84d4 = Some True"
    and c: "calls = (if vis then [Swing ?a ?i, End_Attack ?a] else [End_Attack ?a])"
      "m' = end_attack env ?a (if vis then animal_swing env ?a ?i m else struck m ?a ?i)"
    using assms(2,3) unfolding BanditStrikeCore_def struck_def
    by (auto simp: Let_def split: bind_splits if_splits)
  have a: "a = ?a" using assms(3) c(1) by (auto split: if_splits)
  have "weapon = read_field m ?a ANIMAL_WEAPONDATA_OFF" "datablk = read_field m ?a 0x2530" "inner = read_field m datablk 0"
    using w qword0_nonzero by blast+
  then show ?thesis
    using w c SafeReadable_span [OF assms(1)] struck_type [of m ?a ?i] unfolding a
    by (intro conjI exI [of _ weapon] exI [of _ inner] exI [of _ ?i]) (auto split: if_splits)
qed

section \<open>A concrete bandit\<close>

text \<open>A bandit with a weapon and a datablock; the registry of weapon images has one bucket whose chain runs in a
  circle.\<close>

definition demo_striker :: mem where
  "demo_striker x =
     (if x = 0x2000002 then 0x50 else if x = 0x20024F3 then 0x03 else if x = 0x3000002 then 0x60
      else if x = 0x2002533 then 0x04 else if x = 0x4000003 then 0x05
      else if x = 0xF6FB12 then 0x70 else if x = 0xF6FB18 then 1 else if x = 0x700002 then 0x71
      else if x = 0x710002 then 0x71 else 0)"

definition demo_tools :: tools_env where
  "demo_tools = \<lparr>te_base = 0x400000, te_regions = demo_regions, Character_GetByID = (\<lambda>_ _. 0),
     engine_alloc = (\<lambda>_ m. (0, m)), cci_ctor = (\<lambda>_ _ m. m), character_load = (\<lambda>_ m. m), inventory_init = (\<lambda>_ _ m. m),
     equip_load = (\<lambda>_ m. m), mount_movable = (\<lambda>_ _ m. m), animal_swing = (\<lambda>_ _ m. m), end_attack = (\<lambda>_ m. m),
     te_conn = (\<lambda>_. 1)\<rparr>"

definition demo_last :: npcs where
  "demo_last = demo_npcs\<lparr>g_lastBandit := 0x2000000\<rparr>"

lemma demo_tools_documented: "documented (te_regions demo_tools)"
  by (simp add: demo_tools_def demo_regions_documented)

theorem listing_images_ends_witness:
  "\<exists>r. DumpMovableImagesCore demo_tools (Some ''sword'') demo_striker = Some r \<and>
     (\<forall>total shown. r = Some (total, shown) \<longrightarrow> total \<le> 4096 * 0x100000 \<and> length shown \<le> total)"
  by (rule listing_images_ends [OF demo_tools_documented])

theorem strikes_are_guarded_witness:
  "\<exists>weapon inner.
     weapon = read_field demo_striker 0x2000000 ANIMAL_WEAPONDATA_OFF \<and> span_readable demo_regions weapon 0x23b0 \<and>
     inner = read_field demo_striker (read_field demo_striker 0x2000000 0x2530) 0 \<and> span_readable demo_regions inner 0x84d4 \<and>
     weapon \<noteq> 0 \<and> inner \<noteq> 0"
proof -
  have "map_option fst (BanditStrikeCore demo_tools 5 False demo_striker demo_last) = Some [End_Attack 0x2000000]" by code_simp
  then obtain m' where "BanditStrikeCore demo_tools 5 False demo_striker demo_last = Some ([End_Attack 0x2000000], m')"
    by (auto simp: map_option_case split: option.splits)
  from strikes_are_guarded [OF demo_tools_documented this, of "0x2000000"] show ?thesis
    by (auto simp: demo_tools_def)
qed

end
