(* ===== verification/Npc_Probes.thy ===== *)
theory Npc_Probes
  imports Npc_Laws
begin

text \<open>
  The read-only probes of \<open>source/server/api/lifx_hostile.cpp\<close>: what they read of an NPC, an animal and a connected
  character, and the lines of their dumps. Every read goes through the guarded check; a value that cannot be read
  stays zero. Reports are values in place of the lines printed, except for the dump of quadwords, which is formatted
  into a buffer.
\<close>

section \<open>Dumps of quadwords\<close>

text \<open>A cell of a line; the buffer has 256 bytes, the offsets are printed with at least three digits.\<close>

definition qword_cell :: "u64 option \<Rightarrow> string" where
  "qword_cell v =
     (case v of Some x \<Rightarrow> '' '' @ hex_fixed False 16 (unat x) | None \<Rightarrow> '' <unmapped>      '')"

fun qword_cells :: "query \<Rightarrow> mem \<Rightarrow> u64 \<Rightarrow> nat list \<Rightarrow> string option" where
  "qword_cells q m base [] = Some []"
| "qword_cells q m base (j # js) =
     do { v \<leftarrow> SafeQword q m base (word_of_nat j * 8);
          rest \<leftarrow> qword_cells q m base js;
          Some (qword_cell v @ rest) }"

definition offset_text :: "nat \<Rightarrow> string" where
  "offset_text i = ''+0x'' @ hex_fixed True 3 (i * 8) @ '':''"

fun qword_lines :: "query \<Rightarrow> mem \<Rightarrow> u64 \<Rightarrow> nat \<Rightarrow> nat list \<Rightarrow> string list option" where
  "qword_lines q m base count [] = Some []"
| "qword_lines q m base count (i # is) =
     do { cells \<leftarrow> qword_cells q m base [i..<min (i + 4) count];
          rest \<leftarrow> qword_lines q m base count is;
          Some (snprintf_out 256 (offset_text i @ cells) # rest) }"

text \<open>The lines of a dump of \<open>count\<close> quadwords, four to a line; \<open>None\<close> inside stands for memory that cannot be read.\<close>

definition DumpQwords :: "query \<Rightarrow> mem \<Rightarrow> u64 \<Rightarrow> nat \<Rightarrow> string list option option" where
  "DumpQwords q m base count =
     do { ok \<leftarrow> SafeReadable q base 8;
          (if \<not> ok then Some None
           else map_option Some (qword_lines q m base count (map (\<lambda>k. 4 * k) [0..<(count + 3) div 4]))) }"

section \<open>Equipment\<close>

datatype equip_probe =
    Cold
  | Unreadable
  | Found u32 u64 bool "string list option"

definition ReportEquip :: "query \<Rightarrow> u64 \<Rightarrow> mem \<Rightarrow> u64 \<Rightarrow> equip_probe option" where
  "ReportEquip q modbase m equip =
     (if equip = 0 then Some Cold
      else do {
        ok \<leftarrow> SafeReadable q equip 0x60;
        (if \<not> ok then Some Unreadable
         else do {
           count \<leftarrow> SafeU32 q m equip 0x50;
           slotDB \<leftarrow> qword0 q m equip 0x58;
           sdbVt \<leftarrow> (if slotDB \<noteq> 0 then qword0 q m slotDB 0 else Some 0);
           lines \<leftarrow> DumpQwords q m equip 14;
           Some (Found count slotDB (InModule modbase sdbVt) lines) }) })"

datatype verdict = Verified u64 | Differ u64 u64 | Nothing_Found

definition equip_verdict :: "u64 \<Rightarrow> u64 \<Rightarrow> verdict" where
  "equip_verdict fast slow =
     (if fast \<noteq> 0 \<and> slow \<noteq> 0 \<and> fast = slow then Verified fast
      else if fast \<noteq> 0 \<or> slow \<noteq> 0 then Differ fast slow else Nothing_Found)"

text \<open>The two ways to the equipment of a connected character: its cache, and the engine's table of characters.\<close>

definition DumpCharEquipCb ::
  "query \<Rightarrow> u64 \<Rightarrow> (u32 \<Rightarrow> mem \<Rightarrow> u64) \<Rightarrow> stats_registry \<Rightarrow> string list \<Rightarrow> mem \<Rightarrow> (equip_probe \<times> equip_probe \<times> verdict) option option" where
  "DumpCharEquipCb q modbase by_id reg argv m =
     (let charID = ParseU32 argv 1; cs = LookupCharStats reg charID
      in if charID = 0 \<or> cs = 0 then Some None
         else do {
           fast \<leftarrow> qword0 q m cs kEquipCacheOff;
           fast_rep \<leftarrow> ReportEquip q modbase m fast;
           let cci = by_id charID m;
           record \<leftarrow> (if cci \<noteq> 0 then qword0 q m cci 0x370 else Some 0);
           slow \<leftarrow> (if record \<noteq> 0 then qword0 q m record 0x48 else Some 0);
           slow_rep \<leftarrow> ReportEquip q modbase m slow;
           Some (Some (fast_rep, slow_rep, equip_verdict fast slow)) })"

section \<open>NPCs\<close>

record npc_report =
  np_stock :: bool
  np_backed :: u32
  np_backed2 :: u32
  np_charId :: u32
  np_linked :: u64
  np_cache :: "u64 \<times> u64"
  np_position :: "(f32 \<times> f32 \<times> f32) option"
  np_netFlags :: u32

text \<open>The translation of a transform of 64 bytes.\<close>

definition world_position :: "query \<Rightarrow> mem \<Rightarrow> u64 \<Rightarrow> (f32 \<times> f32 \<times> f32) option option" where
  "world_position q m obj =
     do { ok \<leftarrow> SafeReadable q (obj + 0x278) 64;
          Some (if ok then Some (f32_of_bits (read_field m (obj + 0x278) 12), f32_of_bits (read_field m (obj + 0x278) 28),
                                 f32_of_bits (read_field m (obj + 0x278) 44)) else None) }"

definition DumpNpcCb :: "query \<Rightarrow> u64 \<Rightarrow> u64 \<Rightarrow> mem \<Rightarrow> npc_report option option" where
  "DumpNpcCb q modbase obj m =
     (let cs = obj + kCharStatsToPlayerDelta
      in if obj = 0 then Some None
         else do {
           vt \<leftarrow> qword0 q m cs 0;
           backed \<leftarrow> SafeU32 q m cs kCharBackedFlagOff;
           backed2 \<leftarrow> SafeU32 q m cs 0x4AA;
           charId \<leftarrow> SafeU32 q m cs kCharIdFieldOff;
           linked \<leftarrow> qword0 q m (cs - 0x728) 0;
           eq \<leftarrow> qword0 q m cs kEquipCacheOff;
           rc \<leftarrow> qword0 q m cs kEquipCacheRefcOff;
           pos \<leftarrow> world_position q m obj;
           flags \<leftarrow> SafeU32 q m obj 0xDC;
           Some (Some \<lparr>np_stock = (vt = modbase + kNpcCharStatsVtableRva), np_backed = backed AND 0xFF,
                       np_backed2 = backed2 AND 0xFF, np_charId = charId, np_linked = linked, np_cache = (eq, rc),
                       np_position = pos, np_netFlags = flags\<rparr>) })"

section \<open>Animals\<close>

definition kDeathSlot :: u64 where "kDeathSlot = 48"
definition kLootstoneSlot :: u64 where "kLootstoneSlot = 44"
definition kAnimalPerceptionEnemyList :: u64 where "kAnimalPerceptionEnemyList = 0x2500"
definition kAnimalPerceptionTarget :: u64 where "kAnimalPerceptionTarget = 0x2520"
definition kAnimalPerceptionThreat :: u64 where "kAnimalPerceptionThreat = 0x2528"
definition NPC_AI_TREE_OFF :: u64 where "NPC_AI_TREE_OFF = 0x24B8"
definition ON_DEATH_HAPPENS :: u64 where "ON_DEATH_HAPPENS = 0x0FB390"
definition SPAWN_LOOTSTONE :: u64 where "SPAWN_LOOTSTONE = 0x102570"

definition PrimaryVtbl :: "query \<Rightarrow> mem \<Rightarrow> u64 \<Rightarrow> u64 option" where
  "PrimaryVtbl q m obj = qword0 q m obj 0"

record animal_report =
  an_vtbl :: u64
  an_tree :: u64
  an_perception :: "u64 \<times> u64 \<times> u64"
  an_stats_vtbl :: u64
  an_slots :: "(u64 \<times> u64) option"
  an_position :: "(f32 \<times> f32 \<times> f32) option"

definition DumpAnimalCb :: "query \<Rightarrow> u64 \<Rightarrow> u64 \<Rightarrow> mem \<Rightarrow> animal_report option option" where
  "DumpAnimalCb q modbase obj m =
     (if obj = 0 then Some None
      else do {
        vt \<leftarrow> PrimaryVtbl q m obj;
        tree \<leftarrow> qword0 q m obj NPC_AI_TREE_OFF;
        en \<leftarrow> qword0 q m obj kAnimalPerceptionEnemyList;
        tg \<leftarrow> qword0 q m obj kAnimalPerceptionTarget;
        th \<leftarrow> qword0 q m obj kAnimalPerceptionThreat;
        csVt \<leftarrow> qword0 q m (obj + kCharStatsToPlayerDelta) 0;
        slots \<leftarrow> (if InModule modbase vt
                  then do { d \<leftarrow> qword0 q m vt (kDeathSlot * 8);
                            l \<leftarrow> qword0 q m vt (kLootstoneSlot * 8);
                            Some (Some (l, d)) }
                  else Some None);
        pos \<leftarrow> world_position q m obj;
        Some (Some \<lparr>an_vtbl = vt, an_tree = tree, an_perception = (en, tg, th), an_stats_vtbl = csVt,
                    an_slots = slots, an_position = pos\<rparr>) })"

text \<open>The table an abandoned experiment built; nothing installs it any more. The state is the table and its source.\<close>

definition BuildClonedAnimalVtbl ::
  "query \<Rightarrow> u64 \<Rightarrow> u64 \<Rightarrow> u64 \<Rightarrow> mem \<Rightarrow> u64 \<times> u64 \<Rightarrow> (u64 \<times> mem \<times> u64 \<times> u64) option" where
  "BuildClonedAnimalVtbl q modbase buf srcVt m s =
     (case s of (clone, src) \<Rightarrow>
        if clone \<noteq> 0 \<and> src = srcVt then Some (clone, m, clone, src)
        else do {
          ok \<leftarrow> SafeReadable q (srcVt - 8) (8 + 256 * 8);
          Some (if \<not> ok \<or> buf = 0 then (0, m, clone, src)
                else
                  let m = mwrite m buf (mread m (srcVt - 8) (8 + 256 * 8));
                      newVt = buf + 8;
                      m = write_field m newVt (kDeathSlot * 8) (modbase + ON_DEATH_HAPPENS);
                      m = write_field m newVt (kLootstoneSlot * 8) (modbase + SPAWN_LOOTSTONE)
                  in (newVt, m, newVt, srcVt)) })"

datatype tombstone_answer = No_Object | Not_In_Module | Is_Npc | Already_Installed | Disabled

definition DeathTombstoneCb :: "query \<Rightarrow> u64 \<Rightarrow> u64 \<Rightarrow> u64 \<Rightarrow> mem \<Rightarrow> tombstone_answer option" where
  "DeathTombstoneCb q modbase clone obj m =
     (if obj = 0 then Some No_Object
      else do {
        vt \<leftarrow> PrimaryVtbl q m obj;
        Some (if \<not> InModule modbase vt then Not_In_Module
              else if vt = modbase + NPCDEC_VTABLE then Is_Npc
              else if clone \<noteq> 0 \<and> vt = clone then Already_Installed
              else Disabled) })"

section \<open>No line is cut\<close>

lemma length_qword_cell: "length (qword_cell v) = 17"
  by (simp add: qword_cell_def split: option.split)

lemma length_qword_cells: "qword_cells q m base js = Some t \<Longrightarrow> length t = 17 * length js"
  by (induction js arbitrary: t) (auto simp: length_qword_cell split: bind_splits)

lemma qword_lines_nth:
  "qword_lines q m base count is = Some ls \<Longrightarrow> k < length is \<Longrightarrow>
   \<exists>t. qword_cells q m base [is ! k..<min (is ! k + 4) count] = Some t \<and> ls ! k = offset_text (is ! k) @ t"
proof (induction "is" arbitrary: ls k)
  case (Cons i "is")
  obtain cells rest where c: "qword_cells q m base [i..<min (i + 4) count] = Some cells"
    "qword_lines q m base count is = Some rest" "ls = snprintf_out 256 (offset_text i @ cells) # rest"
    using Cons.prems(1) by (auto split: bind_splits)
  have "length (offset_text i @ cells) < 256"
    using length_qword_cells [OF c(1)] by (simp add: offset_text_def)
  then have "ls = (offset_text i @ cells) # rest" using c(3) by simp
  then show ?case using c Cons by (cases k) auto
qed simp

end
