(* ===== verification/Signature_Scan.thy ===== *)
theory Signature_Scan
  imports Safe_Memory Script_Args
begin

text \<open>
  The memory helper of \<open>source/core/cm_memory_mgr.cpp\<close>: signatures written as hexadecimal bytes and wildcards, the
  scan of a module for a signature region by region, and the search for a module by name. What the operating
  system answers (a region, the bytes it copies, the modules it lists) are arguments. A result \<open>None\<close> stands for a scan
  that does not end or reads behind its buffer.
\<close>

section \<open>Signatures\<close>

record byte_pattern =
  bp_bytes :: bytes
  bp_mask :: string

fun words_of :: "string \<Rightarrow> string \<Rightarrow> string list" where
  "words_of [] w = (if w = [] then [] else [w])"
| "words_of (c # cs) w =
     (if c_space c then (if w = [] then words_of cs [] else w # words_of cs []) else words_of cs (w @ [c]))"

definition add_token :: "string \<Rightarrow> byte_pattern \<Rightarrow> byte_pattern" where
  "add_token t p =
     (if length t = 1 \<or> t = ''??'' \<or> t = ''?'' then \<lparr>bp_bytes = bp_bytes p @ [0], bp_mask = bp_mask p @ ''?''\<rparr>
      else \<lparr>bp_bytes = bp_bytes p @ [ucast (strtoul16 t)], bp_mask = bp_mask p @ ''x''\<rparr>)"

definition parse_pattern :: "string \<Rightarrow> byte_pattern" where
  "parse_pattern sig = fold add_token (words_of sig []) \<lparr>bp_bytes = [], bp_mask = []\<rparr>"

definition CheckSignature :: "bytes \<Rightarrow> bytes \<Rightarrow> string \<Rightarrow> bool" where
  "CheckSignature source pattern msk =
     list_all (\<lambda>i. msk ! i = CHR ''?'' \<or> source ! i = pattern ! i) [0..<length msk]"

section \<open>The scan\<close>

definition MEM_FREE :: u32 where "MEM_FREE = 0x10000"

text \<open>One region: the first position that fits, of those in front of the last one. The number of positions is computed
  without a sign: a pattern longer than the region is searched behind the buffer.\<close>

definition scan_region :: "bytes \<Rightarrow> byte_pattern \<Rightarrow> nat option option" where
  "scan_region buf p =
     (if length buf < length (bp_mask p) then None
      else Some (find (\<lambda>i. CheckSignature (drop i buf) (bp_bytes p) (bp_mask p)) [0..<length buf - length (bp_mask p)]))"

text \<open>The number of bytes copied and the contents of the buffer. The loop goes on while its result is 0.\<close>

type_synonym read_process = "u64 \<Rightarrow> nat \<Rightarrow> nat \<times> bytes"

partial_function (option) signature_loop :: "query \<Rightarrow> read_process \<Rightarrow> u64 \<Rightarrow> u64 \<Rightarrow> byte_pattern \<Rightarrow> u64 \<Rightarrow> u64 option" where
  "signature_loop q rp start end p off =
     (if \<not> off < end - word_of_nat (length (bp_mask p)) then Some 0
      else case q (start + off) of
             None \<Rightarrow> Some 0
           | Some r \<Rightarrow>
               if State r = MEM_FREE then signature_loop q rp start end p (off + RegionSize r)
               else if fst (rp (BaseAddress r) (unat (RegionSize r))) = 0 then Some 0
               else case scan_region (snd (rp (BaseAddress r) (unat (RegionSize r)))) p of
                      None \<Rightarrow> None
                    | Some None \<Rightarrow> signature_loop q rp start end p (off + RegionSize r)
                    | Some (Some i) \<Rightarrow>
                        if start + off + word_of_nat i = 0 then signature_loop q rp start end p (off + RegionSize r)
                        else Some (start + off + word_of_nat i))"

lemmas [code] = signature_loop.simps

text \<open>The module is its base and the size of its image.\<close>

definition ScanSignature :: "query \<Rightarrow> read_process \<Rightarrow> u64 \<times> u64 \<Rightarrow> string \<Rightarrow> u32 \<Rightarrow> u64 option" where
  "ScanSignature q rp module sig off =
     map_option (\<lambda>r. r + ucast off) (signature_loop q rp (fst module) (snd module) (parse_pattern sig) 0)"

section \<open>Modules\<close>

text \<open>The first name compared is that of an entry no call has filled.\<close>

fun module_search :: "string \<Rightarrow> string \<times> u64 \<Rightarrow> (string \<times> u64) list \<Rightarrow> u64" where
  "module_search name (n, h) [] = (if n = name then h else 0)"
| "module_search name (n, h) (e # es) = (if n = name then h else module_search name e es)"

definition GetModuleBaseAddress :: "string \<times> u64 \<Rightarrow> (string \<times> u64) list \<Rightarrow> string \<Rightarrow> u64" where
  "GetModuleBaseAddress unfilled listed name = module_search name unfilled listed"

section \<open>What the operating system documents\<close>

text \<open>A query at the start of a page answers the region that starts there; regions are whole pages and end inside the
  address space, and a region that can be copied is copied whole.\<close>

definition paged :: "query \<Rightarrow> bool" where
  "paged q \<longleftrightarrow>
     (\<forall>x r. 4096 dvd unat x \<longrightarrow> q x = Some r \<longrightarrow>
        BaseAddress r = x \<and> 4096 dvd unat (RegionSize r) \<and> 0 < RegionSize r \<and> unat x + unat (RegionSize r) < 2 ^ 64)"

definition copies :: "read_process \<Rightarrow> mem \<Rightarrow> bool" where
  "copies rp m \<longleftrightarrow> (\<forall>a n. length (snd (rp a n)) = n \<and> (fst (rp a n) \<noteq> 0 \<longrightarrow> snd (rp a n) = mread m a n))"

definition fits_at :: "mem \<Rightarrow> byte_pattern \<Rightarrow> u64 \<Rightarrow> bool" where
  "fits_at m p x \<longleftrightarrow> (\<forall>i < length (bp_mask p). bp_mask p ! i = CHR ''?'' \<or> m (x + word_of_nat i) = bp_bytes p ! i)"

lemma check_fits:
  "j + length (bp_mask p) \<le> n \<Longrightarrow>
   CheckSignature (drop j (mread m a n)) (bp_bytes p) (bp_mask p) \<longleftrightarrow> fits_at m p (a + word_of_nat j)"
  by (auto simp: CheckSignature_def fits_at_def list_all_iff mread_def add.assoc)

lemma scan_region_found:
  "scan_region (mread m a n) p = Some (Some i) \<Longrightarrow> fits_at m p (a + word_of_nat i) \<and> i + length (bp_mask p) < n"
  by (auto simp: scan_region_def find_Some_iff check_fits split: if_splits)

lemma scan_region_none:
  assumes "scan_region (mread m a n) p = Some None" "j + length (bp_mask p) < n"
  shows "\<not> fits_at m p (a + word_of_nat j)"
  using assms check_fits [of j p n m a] by (auto simp: scan_region_def find_None_iff split: if_splits)

lemma scan_region_answers: "length (bp_mask p) \<le> length buf \<Longrightarrow> \<exists>r. scan_region buf p = Some r"
  by (simp add: scan_region_def)

text \<open>A scan from the start of a page returns, and what it finds is the signature.\<close>

lemma signature_loop_result:
  assumes "paged q" "copies rp m" "length (bp_mask p) \<le> 4096"
    and "unat start + unat off < 2 ^ 64" "4096 dvd unat (start + off)"
  shows "\<exists>r. signature_loop q rp start end p off = Some r \<and> (r \<noteq> 0 \<longrightarrow> fits_at m p r)"
  using assms(4,5)
proof (induction "2 ^ 64 - (unat start + unat off)" arbitrary: off rule: less_induct)
  case less
  show ?case
  proof (cases "off < end - word_of_nat (length (bp_mask p))")
    case False
    then show ?thesis by (subst signature_loop.simps) simp
  next
    case True
    show ?thesis
    proof (cases "q (start + off)")
      case None
      then show ?thesis using True by (subst signature_loop.simps) simp
    next
      case (Some r)
      let ?n = "unat (RegionSize r)" and ?a = "start + off"
      have r: "BaseAddress r = ?a" "4096 dvd ?n" "0 < ?n" "unat ?a + ?n < 2 ^ 64"
        using assms(1) Some less.prems(2) by (auto simp: paged_def word_less_nat_alt)
      have a: "unat ?a = unat start + unat off" using less.prems(1) by (simp add: unat_word_ariths)
      have nxt: "unat (off + RegionSize r) = unat off + ?n" using r(4) a by (simp add: unat_word_ariths)
      have "4096 dvd unat (start + (off + RegionSize r))"
      proof -
        have "unat (start + (off + RegionSize r)) = unat ?a + ?n"
          using r(4) by (simp add: add.assoc [symmetric] unat_word_ariths)
        then show ?thesis using r(2) less.prems(2) by simp
      qed
      then have IH: "\<exists>r'. signature_loop q rp start end p (off + RegionSize r) = Some r' \<and> (r' \<noteq> 0 \<longrightarrow> fits_at m p r')"
        using less.hyps [of "off + RegionSize r"] nxt r(3,4) a by simp
      obtain k buf where rp: "rp (BaseAddress r) ?n = (k, buf)" by fastforce
      have buf: "length buf = ?n" "k \<noteq> 0 \<longrightarrow> buf = mread m ?a ?n"
        using assms(2) rp r(1) by (auto simp: copies_def) (metis fst_conv snd_conv)+
      have "length (bp_mask p) \<le> length buf" using assms(3) r(2,3) buf(1) dvd_imp_le by fastforce
      then obtain f where f: "scan_region buf p = Some f" using scan_region_answers by blast
      show ?thesis
      proof (cases f)
        case None
        then show ?thesis using True Some IH rp f by (subst signature_loop.simps) auto
      next
        case (Some i)
        have "k \<noteq> 0 \<longrightarrow> fits_at m p (?a + word_of_nat i)" using scan_region_found f Some buf(2) by auto
        then show ?thesis using True \<open>q ?a = Some r\<close> IH rp f Some by (subst signature_loop.simps) auto
      qed
    qed
  qed
qed

theorem scan_returns_a_match:
  assumes "paged q" "copies rp m" "length (bp_mask (parse_pattern sig)) \<le> 4096" "4096 dvd unat start"
  shows "\<exists>r. ScanSignature q rp (start, end) sig off = Some (r + ucast off) \<and> (r \<noteq> 0 \<longrightarrow> fits_at m (parse_pattern sig) r)"
  using signature_loop_result [OF assms(1,2,3), of start 0 "end"] assms(4) unsigned_less [of start]
  by (auto simp: ScanSignature_def)

text \<open>A signature that ends with the last byte of a region is not found: the answer is the offset asked for.\<close>

theorem signature_at_region_end_is_missed:
  assumes "copies rp m" "q start = Some r" "BaseAddress r = start" "State r \<noteq> MEM_FREE" "end \<le> RegionSize r"
    and "length (bp_mask (parse_pattern sig)) \<le> unat (RegionSize r)"
    and "\<forall>j. j + length (bp_mask (parse_pattern sig)) < unat (RegionSize r) \<longrightarrow> \<not> fits_at m (parse_pattern sig) (start + word_of_nat j)"
    and "length (bp_mask (parse_pattern sig)) \<le> unat end"
  shows "ScanSignature q rp (start, end) sig off = Some (ucast off)"
proof -
  let ?p = "parse_pattern sig" and ?n = "unat (RegionSize r)"
  obtain k buf where rp: "rp start ?n = (k, buf)" by fastforce
  have buf: "length buf = ?n" "k \<noteq> 0 \<longrightarrow> buf = mread m start ?n"
    using assms(1) rp by (auto simp: copies_def) (metis fst_conv snd_conv)+
  have stop: "signature_loop q rp start end ?p (RegionSize r) = Some 0"
  proof -
    have "\<not> RegionSize r < end - word_of_nat (length (bp_mask ?p))"
    proof -
      have "unat (end - word_of_nat (length (bp_mask ?p))) \<le> unat end"
        using assms(8) by (simp add: unat_sub_if' unat_of_nat)
      then show ?thesis using assms(5) by (simp add: word_less_nat_alt word_le_nat_alt)
    qed
    then show ?thesis by (subst signature_loop.simps) simp
  qed
  have "signature_loop q rp start end ?p 0 = Some 0"
  proof (cases "k = 0")
    case True
    then show ?thesis using assms(2-4) rp by (subst signature_loop.simps) simp
  next
    case False
    obtain f where f: "scan_region buf ?p = Some f" using scan_region_answers [of ?p buf] assms(6) buf(1) by auto
    have "f = None"
    proof (rule ccontr)
      assume "f \<noteq> None"
      then obtain i where "scan_region (mread m start ?n) ?p = Some (Some i)" using f buf(2) False by auto
      then show False using scan_region_found assms(7) by blast
    qed
    then show ?thesis using assms(2-4) rp f stop by (subst signature_loop.simps) simp
  qed
  then show ?thesis by (simp add: ScanSignature_def)
qed

section \<open>A concrete module\<close>

text \<open>One page whose last byte is the only one that is not zero.\<close>

definition demo_page :: query where
  "demo_page x =
     (if 0x1000 \<le> x \<and> x < 0x2000
      then Some \<lparr>BaseAddress = 0x1000, RegionSize = 0x1000, State = 0x1000, Protect = 2\<rparr> else None)"

definition demo_module :: mem where
  "demo_module x = (if x = 0x1FFF then 0xAA else 0)"

lemma demo_page_paged: "paged demo_page"
proof -
  have start: "x = 0x1000" if d: "4096 dvd unat x" and b: "0x1000 \<le> x" "x < 0x2000" for x :: u64
  proof -
    obtain k where "unat x = 4096 * k" using d by (auto elim: dvdE)
    moreover have "0x1000 \<le> unat x" "unat x < 0x2000" using b by (simp_all add: word_le_nat_alt word_less_nat_alt)
    ultimately have "unat x = unat (0x1000 :: u64)" by simp
    then show ?thesis by (simp only: word_unat_eq_iff)
  qed
  show ?thesis
    unfolding paged_def
  proof (intro allI impI)
    fix x r
    assume d: "4096 dvd unat x" and q: "demo_page x = Some r"
    then have "x = 0x1000" using start [OF d] by (auto simp: demo_page_def split: if_splits)
    then show "BaseAddress r = x \<and> 4096 dvd unat (RegionSize r) \<and> 0 < RegionSize r \<and> unat x + unat (RegionSize r) < 2 ^ 64"
      using q by (auto simp: demo_page_def)
  qed
qed

lemma demo_copies: "copies (\<lambda>a n. (n, mread m a n)) m"
  by (simp add: copies_def mread_def)

lemma demo_signature: "parse_pattern ''AA'' = \<lparr>bp_bytes = [0xAA], bp_mask = ''x''\<rparr>"
  by code_simp

theorem scan_returns_a_match_witness:
  "\<exists>r. ScanSignature demo_page (\<lambda>a n. (n, mread demo_module a n)) (0x1000, 0x1000) ''AA'' 4 = Some (r + 4) \<and>
     (r \<noteq> 0 \<longrightarrow> fits_at demo_module (parse_pattern ''AA'') r)"
  using scan_returns_a_match [OF demo_page_paged demo_copies, of "''AA''" "0x1000" demo_module "0x1000" 4]
  by (simp add: demo_signature)

theorem signature_at_region_end_is_missed_witness:
  "ScanSignature demo_page (\<lambda>a n. (n, mread demo_module a n)) (0x1000, 0x1000) ''AA'' 4 = Some 4 \<and>
   fits_at demo_module (parse_pattern ''AA'') 0x1FFF"
proof -
  have "\<not> fits_at demo_module (parse_pattern ''AA'') (0x1000 + word_of_nat j)" if "j + 1 < 0x1000" for j
  proof -
    have "unat (0x1000 + word_of_nat j :: u64) = 0x1000 + j" using that by (simp add: unat_word_ariths unat_of_nat)
    then have "(0x1000 + word_of_nat j :: u64) \<noteq> 0x1FFF" 
      using that by (intro notI) (drule arg_cong [where f = unat], simp)
    then show ?thesis by (simp add: fits_at_def demo_signature demo_module_def)
  qed
  then have "ScanSignature demo_page (\<lambda>a n. (n, mread demo_module a n)) (0x1000, 0x1000) ''AA'' 4 = Some (ucast (4 :: u32))"
    by (intro signature_at_region_end_is_missed [OF demo_copies, where r = "\<lparr>BaseAddress = 0x1000, RegionSize = 0x1000, State = 0x1000, Protect = 2\<rparr>"])
       (simp_all add: demo_page_def demo_signature MEM_FREE_def)
  moreover have "fits_at demo_module (parse_pattern ''AA'') 0x1FFF" by (simp add: fits_at_def demo_signature demo_module_def)
  ultimately show ?thesis by simp
qed

end
