(* ===== verification/Class_Dumper.thy ===== *)
theory Class_Dumper
  imports Safe_Memory Sector_Handoff
begin

text \<open>
  The dumper of network classes (\<open>source/server/hooks/netevent/hook_netclassrep_dumper.cpp\<close>): regions of quadwords
  written to a log, the walk over the classes registered before the hook, the first classes registered after it, and
  the sink of the first event sent. The log is the list of its lines; it accepts lines when it could be opened. The
  engine's functions called at the end of a hook are values.
\<close>

section \<open>State\<close>

record dumper =
  g_modBase :: u64
  g_modSize :: u64
  log_open :: bool
  log_lines :: "string list"
  g_repCount :: u32
  g_liveRepCount :: u32
  g_sinkLogged :: bool

text \<open>The module as the operating system answers it (or a failure), and whether the log can be opened.\<close>

record dump_env =
  de_module :: "(u64 \<times> u64) option"
  de_log :: bool
  de_pages :: query

datatype dump_call = NetClassRep_Add u64 | ServerUUIDEvent_Send u64

definition EnsureModuleBounds :: "dump_env \<Rightarrow> dumper \<Rightarrow> dumper" where
  "EnsureModuleBounds env s =
     (if g_modBase s \<noteq> 0 then s
      else case de_module env of None \<Rightarrow> s | Some (b, n) \<Rightarrow> s\<lparr>g_modBase := b, g_modSize := n\<rparr>)"

definition RvaInsideModule :: "dump_env \<Rightarrow> u64 \<Rightarrow> dumper \<Rightarrow> u64 \<times> dumper" where
  "RvaInsideModule env p s =
     (let s = EnsureModuleBounds env s
      in if g_modBase s = 0 then (0, s)
         else if p < g_modBase s \<or> g_modBase s + g_modSize s \<le> p then (0, s) else (p - g_modBase s, s))"

definition IsExecutable :: "query \<Rightarrow> u64 \<Rightarrow> bool" where
  "IsExecutable q p =
     (case q p of None \<Rightarrow> False
      | Some r \<Rightarrow> (Protect r AND 0xFF) \<in> {0x10, 0x20, 0x40, 0x80})"

definition emit :: "string \<Rightarrow> dumper \<Rightarrow> dumper" where
  "emit l s = (if log_open s then s\<lparr>log_lines := log_lines s @ [l]\<rparr> else s)"

definition OpenLogOnce :: "dump_env \<Rightarrow> dumper \<Rightarrow> dumper" where
  "OpenLogOnce env s =
     (if log_open s then s
      else if de_log env then emit ''// === LiFx netclassrep dumper open ==='' (s\<lparr>log_open := True\<rparr>) else s)"

section \<open>Regions\<close>

fun hex_text :: "bool \<Rightarrow> nat \<Rightarrow> string" where
  "hex_text up n = (if n < 16 then [hex_digit up n] else hex_text up (n div 16) @ [hex_digit up (n mod 16)])"

declare hex_text.simps [simp del]

definition region_line :: "query \<Rightarrow> u64 \<Rightarrow> u64 \<Rightarrow> nat \<Rightarrow> string" where
  "region_line q rva v i =
     snprintf_out 160
       (''  +0x'' @ hex_fixed True 2 (i * 8) @ '': 0x'' @ hex_fixed True 16 (unat v)
        @ (if rva \<noteq> 0 then ''  [RVA 0x'' @ hex_text True (unat rva) @ (if IsExecutable q v then '', EXEC'' else '''') @ '']'' else ''''))"

fun region_loop_lines :: "dump_env \<Rightarrow> mem \<Rightarrow> u64 \<Rightarrow> nat list \<Rightarrow> dumper \<Rightarrow> dumper" where
  "region_loop_lines env m p [] s = s"
| "region_loop_lines env m p (i # is) s =
     (let v = read_field m p (word_of_nat i * 8);
          (rva, s) = RvaInsideModule env v s
      in region_loop_lines env m p is (emit (region_line (de_pages env) rva v i) s))"

definition DumpRegion :: "dump_env \<Rightarrow> string \<Rightarrow> mem \<Rightarrow> u64 \<Rightarrow> nat \<Rightarrow> dumper \<Rightarrow> dumper" where
  "DumpRegion env tag m p qwords s =
     (if \<not> log_open s then s
      else region_loop_lines env m p [0..<qwords] (emit (tag @ '' @ 0x'' @ hex_text False (unat p)) s))"

section \<open>Hooks\<close>

definition live_tag :: "u32 \<Rightarrow> string" where
  "live_tag n = snprintf_out 64 (''[netclassrep] live #'' @ fmt_u n)"

definition NetClassRepAdd :: "dump_env \<Rightarrow> mem \<Rightarrow> u64 \<Rightarrow> dumper \<Rightarrow> dump_call \<times> dumper" where
  "NetClassRepAdd env m rep s =
     (let s = OpenLogOnce env s;
          n = g_liveRepCount s + 1;
          s = s\<lparr>g_liveRepCount := n\<rparr>;
          s = (if n \<le> 20 then DumpRegion env (live_tag n) m rep 0x10 s else s)
      in (NetClassRep_Add rep, s))"

definition existing_tag :: "nat \<Rightarrow> string" where
  "existing_tag n = snprintf_out 64 (''[netclassrep] existing #'' @ dec n)"

text \<open>The walk: at most 256 classes, and none after one that is followed by itself.\<close>

fun walk_classes :: "dump_env \<Rightarrow> mem \<Rightarrow> u64 \<Rightarrow> nat \<Rightarrow> nat \<Rightarrow> dumper \<Rightarrow> nat \<times> dumper" where
  "walk_classes env m node n 0 s = (n, s)"
| "walk_classes env m node n (Suc k) s =
     (if node = 0 then (n, s)
      else
        let s = DumpRegion env (existing_tag (Suc n)) m node 0x10 s;
            nxt = read_field m node 0x50
        in if nxt = node then (Suc n, s) else walk_classes env m nxt (Suc n) k s)"

definition walk_header :: "u64 \<Rightarrow> u64 \<Rightarrow> string" where
  "walk_header head node =
     snprintf_out 160 (''[netclassrep] walking existing list, head=0x'' @ hex_text True (unat head)
       @ '' -> first=0x'' @ hex_text True (unat node))"

definition walk_footer :: "nat \<Rightarrow> string" where
  "walk_footer n = snprintf_out 80 (''[netclassrep] existing list walk complete, '' @ dec n @ '' entries'')"

definition DumpExistingList :: "dump_env \<Rightarrow> mem \<Rightarrow> dumper \<Rightarrow> dumper" where
  "DumpExistingList env m s =
     (let s = EnsureModuleBounds env (OpenLogOnce env s)
      in if g_modBase s = 0 then s
         else
           let head = g_modBase s + 0xBC00B0;
               node = read_field m head 0;
               s = emit (walk_header head node) s;
               (n, s) = walk_classes env m node 0 256 s;
               s = emit (walk_footer n) s
           in s\<lparr>g_repCount := word_of_nat n\<rparr>)"

definition log_sink :: "dump_env \<Rightarrow> mem \<Rightarrow> u64 \<Rightarrow> dumper \<Rightarrow> dumper" where
  "log_sink env m conn s =
     (let s = OpenLogOnce env s;
          sink = (if conn \<noteq> 0 then read_field m conn 0x1F8 else 0);
          s = emit (snprintf_out 160 (''[netevent-sink] conn=0x'' @ hex_text True (unat conn) @ ''  sink (conn+0x1F8)=0x''
                @ hex_text True (unat sink))) s
      in if sink \<noteq> 0 then DumpRegion env ''[netevent-sink] sink-vtable'' m sink 0x10 s else s)"

text \<open>After the engine's function the sample hand-off may be forwarded; \<open>target\<close> is the configured peer.\<close>

definition ServerUUIDEventSend ::
  "dump_env \<Rightarrow> bool \<Rightarrow> string \<Rightarrow> mem \<Rightarrow> u64 \<Rightarrow> dumper \<Rightarrow> 'cb disp \<Rightarrow> dump_call \<times> dumper \<times> 'cb disp" where
  "ServerUUIDEventSend env autopost target m conn s d =
     (let s = (if g_sinkLogged s then s else log_sink env m conn (s\<lparr>g_sinkLogged := True\<rparr>))
      in (ServerUUIDEvent_Send conn, s, if conn \<noteq> 0 \<and> autopost then TriggerSampleForward target d else d))"

section \<open>What is written\<close>

lemma length_hex_text: "n < 16 ^ k \<Longrightarrow> 0 < k \<Longrightarrow> length (hex_text up n) \<le> k"
proof (induction k arbitrary: n)
  case (Suc k)
  show ?case
  proof (cases "n < 16")
    case True
    then show ?thesis by (subst hex_text.simps) simp
  next
    case False
    then have k: "0 < k" using Suc.prems by (cases k) auto
    have "n div 16 < 16 ^ k" using Suc.prems by (simp add: div_less_iff_less_mult)
    then show ?thesis using Suc.IH [of "n div 16"] k False by (subst hex_text.simps) simp
  qed
qed simp

lemma length_hex_u64: "length (hex_text up (unat (w :: u64))) \<le> 16"
  using unsigned_less [of w] by (intro length_hex_text) simp_all

definition rva_of :: "u64 \<Rightarrow> u64 \<Rightarrow> u64 \<Rightarrow> u64" where
  "rva_of base sz p = (if p < base \<or> base + sz \<le> p then 0 else p - base)"

text \<open>The text of a quadword, no line cut.\<close>

definition qword_text :: "query \<Rightarrow> u64 \<Rightarrow> u64 \<Rightarrow> nat \<Rightarrow> string" where
  "qword_text q rva v i =
     ''  +0x'' @ hex_fixed True 2 (i * 8) @ '': 0x'' @ hex_fixed True 16 (unat v)
     @ (if rva \<noteq> 0 then ''  [RVA 0x'' @ hex_text True (unat rva) @ (if IsExecutable q v then '', EXEC'' else '''') @ '']'' else '''')"

lemma region_line_complete: "region_line q rva v i = qword_text q rva v i"
  using length_hex_u64 [of True rva] by (simp add: region_line_def qword_text_def)

definition region_text :: "dump_env \<Rightarrow> u64 \<Rightarrow> u64 \<Rightarrow> string \<Rightarrow> mem \<Rightarrow> u64 \<Rightarrow> string list" where
  "region_text env base sz tag m p =
     (tag @ '' @ 0x'' @ hex_text False (unat p)) #
     map (\<lambda>i. let v = read_field m p (word_of_nat i * 8) in qword_text (de_pages env) (rva_of base sz v) v i) [0..<0x10]"

lemma region_loop_log:
  assumes "log_open s" "g_modBase s \<noteq> 0"
  shows "region_loop_lines env m p is s = s\<lparr>log_lines := log_lines s @
     map (\<lambda>i. let v = read_field m p (word_of_nat i * 8)
              in qword_text (de_pages env) (rva_of (g_modBase s) (g_modSize s) v) v i) is\<rparr>"
  using assms
  by (induction "is" arbitrary: s)
     (auto simp: RvaInsideModule_def EnsureModuleBounds_def emit_def rva_of_def region_line_complete Let_def)

lemma DumpRegion_log:
  "log_open s \<Longrightarrow> g_modBase s \<noteq> 0 \<Longrightarrow>
   DumpRegion env tag m p 0x10 s =
     s\<lparr>log_lines := log_lines s @ region_text env (g_modBase s) (g_modSize s) tag m p\<rparr>"
  by (simp add: DumpRegion_def region_loop_log emit_def region_text_def)

fun chained :: "mem \<Rightarrow> u64 \<Rightarrow> u64 list \<Rightarrow> bool" where
  "chained m node [] \<longleftrightarrow> node = 0"
| "chained m node (x # xs) \<longleftrightarrow> node = x \<and> x \<noteq> 0 \<and> chained m (read_field m x 0x50) xs"

lemma chained_unique: "chained m node xs \<Longrightarrow> chained m node ys \<Longrightarrow> xs = ys"
  by (induction m node xs arbitrary: ys rule: chained.induct) (case_tac ys; auto)+

lemma chained_advances: "chained m node (x # xs) \<Longrightarrow> read_field m x 0x50 \<noteq> x"
proof
  assume c: "chained m node (x # xs)" and n: "read_field m x 0x50 = x"
  then have "chained m x xs" "chained m x (x # xs)" by auto
  then have "xs = x # xs" by (rule chained_unique)
  then show False by simp
qed

text \<open>The regions of a list of classes, numbered from one.\<close>

fun class_texts :: "dump_env \<Rightarrow> u64 \<Rightarrow> u64 \<Rightarrow> mem \<Rightarrow> nat \<Rightarrow> u64 list \<Rightarrow> string list" where
  "class_texts env base sz m n [] = []"
| "class_texts env base sz m n (x # xs) =
     region_text env base sz (''[netclassrep] existing #'' @ dec (Suc n)) m x @ class_texts env base sz m (Suc n) xs"

lemma existing_tag_complete: "n \<le> 256 \<Longrightarrow> existing_tag n = ''[netclassrep] existing #'' @ dec n"
  using length_dec [of n 3] by (simp add: existing_tag_def)

lemma walk_classes_log:
  assumes "chained m node xs" "length xs \<le> k" "n + k \<le> 256" "log_open s" "g_modBase s \<noteq> 0"
  shows "walk_classes env m node n k s =
     (n + length xs, s\<lparr>log_lines := log_lines s @ class_texts env (g_modBase s) (g_modSize s) m n xs\<rparr>)"
  using assms
proof (induction xs arbitrary: node n k s)
  case Nil
  then show ?case by (cases k) auto
next
  case (Cons x xs)
  obtain k' where k: "k = Suc k'" using Cons.prems(2) by (cases k) auto
  have adv: "read_field m x 0x50 \<noteq> x" using Cons.prems(1) by (rule chained_advances)
  let ?s = "s\<lparr>log_lines := log_lines s @ region_text env (g_modBase s) (g_modSize s) (existing_tag (Suc n)) m x\<rparr>"
  have "walk_classes env m (read_field m x 0x50) (Suc n) k' ?s =
      (Suc n + length xs, ?s\<lparr>log_lines := log_lines ?s @ class_texts env (g_modBase s) (g_modSize s) m (Suc n) xs\<rparr>)"
    using Cons.IH [of "read_field m x 0x50" k' "Suc n" ?s] Cons.prems k by simp
  then show ?case
    using Cons.prems k adv existing_tag_complete [of "Suc n"] by (simp add: DumpRegion_log Let_def)
qed

text \<open>A list of at most 256 classes is written completely: every class once, in order, with its number and its
  quadwords, no line cut, and the number of classes is kept.\<close>

theorem existing_classes_are_written:
  assumes "log_open s" "g_modBase s \<noteq> 0" "chained m (read_field m (g_modBase s + 0xBC00B0) 0) xs" "length xs \<le> 256"
  shows "DumpExistingList env m s =
     s\<lparr>g_repCount := word_of_nat (length xs),
       log_lines := log_lines s @ walk_header (g_modBase s + 0xBC00B0) (read_field m (g_modBase s + 0xBC00B0) 0)
         # class_texts env (g_modBase s) (g_modSize s) m 0 xs @ [walk_footer (length xs)]\<rparr>"
  using assms by (simp add: DumpExistingList_def OpenLogOnce_def EnsureModuleBounds_def emit_def walk_classes_log Let_def)

text \<open>Registrations in front of the walk, and whatever the list looks like: the walk visits at most 256 classes.\<close>

lemma walk_classes_bound: "fst (walk_classes env m node n k s) \<le> n + k"
proof (induction k arbitrary: node n s)
  case (Suc k)
  show ?case using Suc.IH [of "read_field m node 0x50" "Suc n"] by (simp add: Let_def)
qed simp

section \<open>A concrete list\<close>

definition demo_classes :: mem where
  "demo_classes x =
     (if x = 0xFC00B1 then 0x20 else if x = 0x2051 then 0x30 else 0)"

definition demo_dump :: dumper where
  "demo_dump = \<lparr>g_modBase = 0x400000, g_modSize = 0x1000, log_open = True, log_lines = [], g_repCount = 0,
     g_liveRepCount = 0, g_sinkLogged = False\<rparr>"

definition demo_dump_env :: dump_env where
  "demo_dump_env = \<lparr>de_module = None, de_log = True, de_pages = (\<lambda>_. None)\<rparr>"

theorem existing_classes_are_written_witness:
  "DumpExistingList demo_dump_env demo_classes demo_dump =
     demo_dump\<lparr>g_repCount := 2,
       log_lines := walk_header 0xFC00B0 0x2000 # class_texts demo_dump_env 0x400000 0x1000 demo_classes 0 [0x2000, 0x3000]
         @ [walk_footer 2]\<rparr>"
proof -
  have "read_field demo_classes (0x400000 + 0xBC00B0) 0 = (0x2000 :: u64)" "read_field demo_classes 0x2000 0x50 = (0x3000 :: u64)"
    "read_field demo_classes 0x3000 0x50 = (0 :: u64)" by code_simp+
  moreover have "log_open demo_dump" "g_modBase demo_dump = 0x400000" "g_modSize demo_dump = 0x1000" "log_lines demo_dump = []"
    by (simp_all add: demo_dump_def)
  moreover have "walk_footer (Suc (Suc 0)) = walk_footer 2" by (simp add: numeral_2_eq_2)
  ultimately show ?thesis
    using existing_classes_are_written [of demo_dump demo_classes "[0x2000, 0x3000]" demo_dump_env]
    by (simp del: class_texts.simps)
qed

end
