(* ===== verification/Dispatcher_Commands.thy ===== *)
theory Dispatcher_Commands
  imports Hostile_Spawns Sector_Edge Float_Text
begin

text \<open>
  The console commands of the dispatcher (\<open>source/server/api/lifx_dispatcher.cpp\<close>): sending a text to a peer,
  asking for the owner of a sector, handing a character over, and redirecting the captured client, with the
  report of the edge driver (\<open>DumpStatus\<close> of \<open>sector_edge_trigger.cpp\<close>). Each command answers its number; what
  it prints is modelled where the print is its purpose.
\<close>

section \<open>The commands\<close>

definition SendToCb :: "string list \<Rightarrow> 'cb disp \<Rightarrow> int \<times> 'cb disp" where
  "SendToCb argv d =
     (if length argv < 3 then (0, d)
      else case sendTo (argv ! 1) (bytes_of (argv ! 2)) d of (ok, d) \<Rightarrow> (if ok then 1 else 0, d))"

text \<open>The callback kept for the reply is the one that prints it; \<open>echo\<close> makes it from the sector asked for.\<close>

definition ResolveSectorCb :: "(u32 \<Rightarrow> 'cb) \<Rightarrow> string list \<Rightarrow> 'cb disp \<Rightarrow> int \<times> 'cb disp" where
  "ResolveSectorCb echo argv d =
     (if length argv < 2 then (0, d)
      else let sid = strtoul0 (argv ! 1)
           in case resolveSector sid (echo sid) d of (ok, d) \<Rightarrow> (if ok then 1 else 0, d))"

definition resolve_report :: "resolve_result \<Rightarrow> string" where
  "resolve_report r =
     ''[lifx-dispatcher] resolveSector('' @ fmt_u (rr_sector r) @ '') -> ''
     @ (if rr_known r then ''peer='' @ rr_peer r else ''unknown'')"

definition TriggerHandoffCb :: "string list \<Rightarrow> forward disp \<Rightarrow> int \<times> forward disp" where
  "TriggerHandoffCb argv d =
     (if length argv < 5 then (0, d)
      else
        let charID = strtoul0 (argv ! 1); sid = strtoul0 (argv ! 2);
            wx = fst (strtof (argv ! 3)); wy = fst (strtof (argv ! 4))
        in case ForwardToSector charID sid wx wy d of (ok, d) \<Rightarrow> (if ok then 1 else 0, d))"

text \<open>The answer and the statement evaluated, if any.\<close>

definition TestTransferCb :: "bool \<Rightarrow> string list \<Rightarrow> int \<times> string option" where
  "TestTransferCb conn argv =
     (if length argv < 4 then (0, None)
      else
        let pid = strtoul0 (argv ! 1); host = argv ! 2; port = (ucast (strtoul0 (argv ! 3)) :: u16);
            r = RedirectCapturedClient conn pid host port
        in (if r = None then 0 else 1, r))"

text \<open>The report of the driver: the captured player, its position if it has one, and what the driver remembers.\<close>

definition status_lines :: "world_grid \<Rightarrow> string \<Rightarrow> (f32 \<times> f32 \<times> f32) option \<Rightarrow> int \<Rightarrow> edge \<Rightarrow> string list" where
  "status_lines w player pos now e =
     (''[lifx-sector-edge] status: player='' @ player @ (if pos = None then '' (no pos)'' else ''''))
     # (case pos of None \<Rightarrow> []
        | Some (x, y, z) \<Rightarrow>
            let r = SectorForPos w x y
            in [''[lifx-sector-edge]   pos=('' @ fmt_f3 x @ '', '' @ fmt_f3 y @ '', '' @ fmt_f3 z @ '') sector=''
                @ fmt_u (sectorId r) @ '' self='' @ (if isSelf r then ''1'' else ''0'')])
     @ [''[lifx-sector-edge]   lastSelfSector='' @ fmt_u (lastSelfSector e) @ '' lastFiredSector='' @ fmt_u (lastFiredSector e)
        @ '' lastFireSecAgo='' @ fmt_d ((now - lastFire e) div 1000)]"

definition SectorEdgeStatus :: "world_grid \<Rightarrow> string \<Rightarrow> (f32 \<times> f32 \<times> f32) option \<Rightarrow> int \<Rightarrow> edge \<Rightarrow> int \<times> string list" where
  "SectorEdgeStatus w player pos now e = (1, status_lines w player pos now e)"

section \<open>Numbers from a script\<close>

text \<open>Rounding to a \<open>float\<close> is idempotent, so that what \<open>strtof\<close> answers is held exactly.\<close>

lemma fround_idem_pos:
  assumes b: "0 < b" and a: "0 \<le> a"
  shows "fround (fround a b) 1 = fround a b"
proof (cases "0 < a div b")
  case False
  then have q: "a div b = 0" using a b by (simp add: pos_imp_zdiv_nonneg_iff order_antisym)
  then have "fround a b = rne a b" using a by (simp add: fround_def Let_def)
  then have "0 \<le> fround a b" "fround a b \<le> 1" using rne_bounds [OF b, of a] q by simp_all
  then show ?thesis by (intro fround_small) simp_all
next
  case True
  define q where "q = blen (a div b)"
  define r where "r = rne a (b * 2 ^ (q - 24))"
  have f: "fround a b = r * 2 ^ (q - 24)" using a by (simp add: fround_def Let_def q_def r_def)
  have lo: "0 < fround a b" and hi: "fround a b \<le> 2 ^ q"
    using fround_binade_quot [OF b True] by (auto simp: q_def intro: less_le_trans [rotated])
  have "2 ^ (blen (fround a b) - 24) dvd fround a b"
  proof (cases "fround a b = 2 ^ q")
    case True
    have "(2 :: int) ^ (blen (2 ^ q) - 1) \<le> 2 ^ q" by (rule blen_lower) simp
    then have "blen (2 ^ q) - 1 \<le> q" by (rule power_le_imp_le_exp [rotated]) simp
    then show ?thesis using True by (simp add: le_imp_power_dvd)
  next
    case False
    then have "(2 :: int) ^ (blen (fround a b) - 1) < 2 ^ q" using blen_lower [OF lo] hi by linarith
    then have "blen (fround a b) - 1 < q" by (rule power_less_imp_less_exp [rotated]) simp
    then have "(2 :: int) ^ (blen (fround a b) - 24) dvd 2 ^ (q - 24)" by (intro le_imp_power_dvd) simp
    then show ?thesis using f by (metis dvd_mult)
  qed
  then show ?thesis using lo by (intro fround_dvd) simp
qed

lemma fround_idem: "0 < b \<Longrightarrow> fround (fround a b) 1 = fround a b"
  using fround_idem_pos [of b a] fround_idem_pos [of b "- a"] by (cases "0 \<le> a") (auto simp: fround_odd)

lemma f32_repr_of_f64: "f32_repr (f32_of_f64 d)"
  by (cases d) (auto simp: f32_repr_def mk_f32_def fround_idem)

lemma f32_repr_strtof: "f32_repr (fst (strtof s))"
  by (cases "strtod s") (simp add: strtof_def f32_repr_of_f64)

section \<open>Properties\<close>

text \<open>A hand-off typed at the console reaches the peer intact: with a live session the command answers 1, the
  daemon's reply queues one frame, and what the peer decodes from its delivery are the numbers the texts stand for.\<close>

theorem typed_handoff_arrives:
  assumes "5 \<le> length argv" "sessionUp s" "length (queue s) + 1 < kSendQueueMax" "json_plain peer" "json_plain from"
    and "deliveryCb t"
  shows "\<exists>s' h. TriggerHandoffCb argv s = (1, s') \<and>
    queue (on_frame (sector_resolved_frame (strtoul0 (argv ! 2)) peer) s') =
      queue s @ [resolve_body (strtoul0 (argv ! 2)), forward_body peer (handoff_bytes h)] \<and>
    fst (dispatchFrame (delivery_frame from (handoff_bytes h)) t) = Deliver from (handoff_bytes h) \<and>
    DecodeAndLog (handoff_bytes h) = Decoded False h True \<and>
    char_id h = strtoul0 (argv ! 1) \<and> world_sector_id h = strtoul0 (argv ! 2) \<and>
    f32_of_bits (world_x h) = fst (strtof (argv ! 3)) \<and> f32_of_bits (world_y h) = fst (strtof (argv ! 4))"
proof -
  let ?ch = "strtoul0 (argv ! 1)" and ?sid = "strtoul0 (argv ! 2)"
    and ?x = "fst (strtof (argv ! 3))" and ?y = "fst (strtof (argv ! 4))"
  let ?h = "sample_handoff ?ch ?sid ?x ?y"
  obtain ok s' where f: "ForwardToSector ?ch ?sid ?x ?y s = (ok, s')" by fastforce
  note q = forward_then_resolved [OF assms(2-4), where ch = ?ch and sector = ?sid and x = ?x and y = ?y]
  have "TriggerHandoffCb argv s = (1, s')" using assms(1) q(1) f by (simp add: TriggerHandoffCb_def Let_def)
  moreover have "queue (on_frame (sector_resolved_frame ?sid peer) s') =
      queue s @ [resolve_body ?sid, forward_body peer (handoff_bytes ?h)]"
    using q(2) f by (simp add: buildV2Payload_struct)
  moreover have "fst (dispatchFrame (delivery_frame from (handoff_bytes ?h)) t) = Deliver from (handoff_bytes ?h)"
    using assms(5,6) by (simp add: dispatch_delivery)
  moreover have "DecodeAndLog (handoff_bytes ?h) = Decoded False ?h True"
    using DecodeAndLog_build [of ?ch ?sid ?x ?y] by (simp add: buildV2Payload_struct)
  moreover have "char_id ?h = ?ch" "world_sector_id ?h = ?sid" "f32_of_bits (world_x ?h) = ?x" "f32_of_bits (world_y ?h) = ?y"
    using f32_repr_strtof by (simp_all add: sample_handoff_def f32_bits_round_trip)
  ultimately show ?thesis by blast
qed

text \<open>The port of a transfer keeps its low 16 bits: a number that is a multiple of 65536 is refused as no port, any
  other one is taken for the port it leaves.\<close>

theorem transfer_port_wraps:
  assumes "4 \<le> length argv" "argv ! 2 \<noteq> []" "length (argv ! 2) \<le> 400"
  shows "TestTransferCb True argv =
     (if (ucast (strtoul0 (argv ! 3)) :: u16) = 0 then (0, None)
      else (1, Some (redirect_statement (redirect_slot (strtoul0 (argv ! 1))) (argv ! 2) (ucast (strtoul0 (argv ! 3))))))"
  using assms redirect_untruncated [of "argv ! 2" "ucast (strtoul0 (argv ! 3))" "strtoul0 (argv ! 1)"]
  by (simp add: TestTransferCb_def RedirectCapturedClient_def Let_def)

theorem transfer_port_wraps_witness:
  "TestTransferCb True [''testTransfer'', ''2'', ''10.0.0.1'', ''65537''] =
     (1, Some (redirect_statement 2 ''10.0.0.1'' 1)) \<and>
   TestTransferCb True [''testTransfer'', ''2'', ''10.0.0.1'', ''65536''] = (0, None)"
proof -
  let ?a = "[''testTransfer'', ''2'', ''10.0.0.1'', ''65537'']" and ?b = "[''testTransfer'', ''2'', ''10.0.0.1'', ''65536'']"
  have v: "strtoul0 ''65537'' = 65537" "strtoul0 ''65536'' = 65536" "strtoul0 ''2'' = 2"
    "(ucast (65537 :: u32) :: u16) = 1" "(ucast (65536 :: u32) :: u16) = 0" by code_simp+
  have r: "redirect_slot 2 = 2" by code_simp
  have n: "?a ! 1 = ''2''" "?a ! 2 = ''10.0.0.1''" "?a ! 3 = ''65537''" "?b ! 2 = ''10.0.0.1''" "?b ! 3 = ''65536''"
    by simp_all
  have h: "4 \<le> length ?a" "?a ! 2 \<noteq> []" "length (?a ! 2) \<le> 400" "4 \<le> length ?b" "?b ! 2 \<noteq> []" "length (?b ! 2) \<le> 400"
    by simp_all
  have "TestTransferCb True ?a = (1, Some (redirect_statement 2 ''10.0.0.1'' 1))"
    using transfer_port_wraps [OF h(1-3)] by (simp only: n v r) simp
  moreover have "TestTransferCb True ?b = (0, None)"
    using transfer_port_wraps [OF h(4-6)] by (simp only: n v) simp
  ultimately show ?thesis by (rule conjI)
qed

theorem typed_handoff_arrives_witness:
  "fst (TriggerHandoffCb [''triggerHandoff'', ''7'', ''451'', ''12.5'', ''-3'']
     \<lparr>queue = [], sessionUp = True, deliveryCb = True, resolveCbs = Map.empty\<rparr>) = 1"
proof -
  let ?s = "\<lparr>queue = [], sessionUp = True, deliveryCb = True, resolveCbs = Map.empty\<rparr> :: forward disp"
  let ?a = "[''triggerHandoff'', ''7'', ''451'', ''12.5'', ''-3'']"
  have p: "5 \<le> length ?a" "sessionUp ?s" "length (queue ?s) + 1 < kSendQueueMax" "json_plain ''b''" "json_plain ''a''"
    "deliveryCb ?s"
    by (simp_all add: kSendQueueMax_def json_plain_def quote_def backslash_def)
  obtain s' where "TriggerHandoffCb ?a ?s = (1, s')" using typed_handoff_arrives [OF p] by blast
  then show ?thesis by (simp only: fst_conv)
qed

end
