(* ===== verification/Console_Log.thy ===== *)
theory Console_Log
  imports Server_Startup
begin

text \<open>
  The console of the server: the hook on the engine's printing function
  (\<open>source/server/hooks/engine/hook_console.cpp\<close>), the library's own messages and its access to the script
  dictionary (\<open>source/server/api/t3d_console.cpp\<close>), and the table of engine pointers
  (\<open>AuxGManager::PointersMap\<close> of \<open>source/core/cm_globals.h\<close>). What a message leads to is a list of outputs: lines
  appended to a file, if it can be opened, and calls of the engine's own function.
\<close>

section \<open>The hook\<close>

datatype console_out = File_Line string string | Engine_Print u32 u32 string

definition sql_prefixes :: "string list" where
  "sql_prefixes = [''DB::noRS'', ''DB::mNoRS'', ''DB::RS'', ''DB::mfRS'', ''DBI::'', ''DB_TRAN_ADD'']"

definition is_sql_report :: "string \<Rightarrow> bool" where
  "is_sql_report buffer \<longleftrightarrow> list_ex (\<lambda>k. take (length k) buffer = k) sql_prefixes"

definition log_line :: "string \<Rightarrow> string \<Rightarrow> string" where
  "log_line t_buf buffer = ''['' @ t_buf @ ''] : '' @ buffer @ [CHR 0x0A]"

text \<open>The files the hook writes to, by their names; \<open>le_opens\<close> is whether one can be opened, \<open>le_time\<close> the time as a text.\<close>

record log_env =
  LogSQLFN :: string
  LogErrorFN :: string
  le_opens :: "string \<Rightarrow> bool"
  le_time :: string

definition append_to :: "log_env \<Rightarrow> string \<Rightarrow> string \<Rightarrow> console_out list" where
  "append_to env fn buffer = (if le_opens env fn then [File_Line fn (log_line (le_time env) buffer)] else [])"

definition level_skips :: "u8 \<Rightarrow> u32 \<Rightarrow> bool" where
  "level_skips level type \<longleftrightarrow>
     0 < level \<and>
     (1 \<le> level \<and> type = 3 \<or> 2 \<le> level \<and> (type = 1 \<or> type = 3) \<or> 3 \<le> level \<and> type \<noteq> 2)"

definition prefixed :: "string \<Rightarrow> string" where
  "prefixed buffer = snprintf_out 8200 (''[LiFx] '' @ buffer)"

definition OnInternalPrintf :: "server_config \<Rightarrow> log_env \<Rightarrow> u32 \<Rightarrow> u32 \<Rightarrow> string \<Rightarrow> console_out list" where
  "OnInternalPrintf c env type unk1 buffer =
     (let sql = is_sql_report buffer
      in (if UseExternalSQLLog c \<and> sql then append_to env (LogSQLFN env) buffer else [])
         @ (if SkipConsoleSQLLogging c \<and> sql then []
            else (if UseExternalErrorLog c \<and> type = 2 then append_to env (LogErrorFN env) buffer else [])
                 @ (if level_skips (LogLevel c) type then [] else [Engine_Print type unk1 (prefixed buffer)])))"

section \<open>The library's messages\<close>

text \<open>They are formatted into a buffer and given to the engine's function itself, past the hook.\<close>

definition con_message :: "u32 \<Rightarrow> string \<Rightarrow> console_out" where
  "con_message type s = Engine_Print type 0 (snprintf_out 8192 s)"

definition Con_Echo :: "string \<Rightarrow> console_out" where "Con_Echo s = con_message 0 s"
definition Con_Warning :: "string \<Rightarrow> console_out" where "Con_Warning s = con_message 1 s"
definition Con_Error :: "string \<Rightarrow> console_out" where "Con_Error s = con_message 2 s"
definition Con_Info :: "string \<Rightarrow> console_out" where "Con_Info s = con_message 3 s"

section \<open>Engine pointers\<close>

type_synonym pointers = "string \<rightharpoonup> u64"

definition Pointers_Set :: "string \<Rightarrow> u64 \<Rightarrow> pointers \<Rightarrow> pointers" where
  "Pointers_Set key v p = p(key \<mapsto> v)"

definition Pointers_Get :: "string \<Rightarrow> pointers \<Rightarrow> u64" where
  "Pointers_Get key p = (case p key of Some v \<Rightarrow> v | None \<Rightarrow> 0)"

lemma Pointers_Get_Set: "Pointers_Get k (Pointers_Set k' v p) = (if k = k' then v else Pointers_Get k p)"
  by (simp add: Pointers_Get_def Pointers_Set_def)

text \<open>A variable is added to the engine's dictionary, or the message that it cannot be.\<close>

datatype dictionary_call = Add_Variable u64 string int u64 string

definition Con_AddVariable :: "pointers \<Rightarrow> string \<Rightarrow> int \<Rightarrow> u64 \<Rightarrow> string \<Rightarrow> console_out + dictionary_call" where
  "Con_AddVariable p name type data usage =
     (if Pointers_Get ''GlobalVars'' p = 0
      then Inl (Con_Error (''Cant add variable ['' @ name @ ''] because global dictionary pointer is null!''))
      else Inr (Add_Variable (Pointers_Get ''GlobalVars'' p) name type data usage))"

section \<open>Laws\<close>

lemma prefixed_complete: "length buffer \<le> 8191 \<Longrightarrow> prefixed buffer = ''[LiFx] '' @ buffer"
  by (simp add: prefixed_def)

definition printed :: "console_out list \<Rightarrow> (u32 \<times> string) list" where
  "printed os = map (\<lambda>x. case x of Engine_Print t u s \<Rightarrow> (t, s) | File_Line f s \<Rightarrow> (0, s))
                  (filter (\<lambda>x. case x of Engine_Print t u s \<Rightarrow> True | File_Line f s \<Rightarrow> False) os)"

lemma printed_append [simp]: "printed (a @ b) = printed a @ printed b"
  by (simp add: printed_def)

lemma printed_append_to [simp]: "printed (append_to env fn s) = []"
  by (simp add: printed_def append_to_def)

text \<open>What the console shows of a message of the engine: nothing, or the whole of it behind the mark of the library.
  The reference states the filter by the kinds of messages: a level of 1 hides information, one of 2 warnings too,
  and any higher one everything but errors; reports of the database are hidden by their own switch.\<close>

definition appears :: "server_config \<Rightarrow> u32 \<Rightarrow> string \<Rightarrow> bool" where
  "appears c type buffer \<longleftrightarrow>
     type \<notin> (if LogLevel c = 0 then {} else if LogLevel c = 1 then {3} else if LogLevel c = 2 then {1, 3} else - {2}) \<and>
     \<not> (SkipConsoleSQLLogging c \<and> is_sql_report buffer)"

lemma level_skips_iff:
  "level_skips l type \<longleftrightarrow> type \<in> (if l = 0 then {} else if l = 1 then {3} else if l = 2 then {1, 3} else - {2})"
proof -
  have l: "l = 0 \<or> l = 1 \<or> l = 2 \<or> 3 \<le> l"
  proof -
    have "unat l = 0 \<or> unat l = 1 \<or> unat l = 2 \<or> 3 \<le> unat l" by arith
    then show ?thesis by (simp add: word_unat_eq_iff word_le_nat_alt)
  qed
  have w: "(1 :: u8) \<le> l \<longleftrightarrow> l \<noteq> 0" by (simp add: word_le_nat_alt unat_eq_0 Suc_le_eq flip: neq0_conv)
  show ?thesis
    using l by (elim disjE) (auto simp: level_skips_def word_gt_0 word_le_nat_alt split: if_splits)
qed

theorem console_shows_by_kind:
  assumes "length buffer \<le> 8191"
  shows "printed (OnInternalPrintf c env type unk1 buffer) =
     (if appears c type buffer then [(type, ''[LiFx] '' @ buffer)] else [])"
  using assms by (simp add: OnInternalPrintf_def Let_def appears_def level_skips_iff prefixed_complete) (simp add: printed_def)

theorem console_shows_by_kind_witness:
  "printed (OnInternalPrintf (default_config\<lparr>LogLevel := 3\<rparr>) \<lparr>LogSQLFN = ''sql'', LogErrorFN = ''err'', le_opens = (\<lambda>_. True), le_time = ''''\<rparr>
     2 0 ''broken'') = [(2, ''[LiFx] broken'')]"
  using console_shows_by_kind [of "''broken''" "default_config\<lparr>LogLevel := 3\<rparr>"]
  by (simp add: appears_def default_config_def)

text \<open>The messages of the executable itself have other numbers, 6 for its errors: from level 3 on, which is to keep the
  errors, they are not shown, and at no level do they reach the log of errors.\<close>

theorem errors_of_the_executable_are_hidden:
  assumes "3 \<le> LogLevel c" "\<not> is_sql_report buffer"
  shows "OnInternalPrintf c env 6 unk1 buffer = []"
  using assms by (simp add: OnInternalPrintf_def Let_def level_skips_def word_gt_0 word_le_nat_alt) (auto)

text \<open>An error of the database is not duplicated to the log of errors when the switch for the console hides it.\<close>

lemma hidden_report_is_not_logged:
  assumes "SkipConsoleSQLLogging c" "is_sql_report buffer"
  shows "OnInternalPrintf c env 2 unk1 buffer = (if UseExternalSQLLog c then append_to env (LogSQLFN env) buffer else [])"
  using assms by (simp add: OnInternalPrintf_def)

end
