(* ===== verification/Script_Commands.thy ===== *)
theory Script_Commands
  imports Float_Text
begin

text \<open>
  The commands the library adds to the script language: the tables of \<open>Lifx::Api::...::Register\<close>
  (\<open>source/server/api/\<close>), and their registration through \<open>Con::AddCommand\<close> of \<open>t3d_console.cpp\<close>. An entry has its
  name space, its name, the function that handles it (empty where the handler is written in place), its help text and
  the numbers of arguments it takes, the name of the command counted. The engine's tables of name spaces and of
  strings are arguments.
\<close>

section \<open>Entries\<close>

record script_command =
  sc_space :: string
  sc_name :: string
  sc_handler :: string
  sc_usage :: string
  sc_min :: int
  sc_max :: int

definition command :: "string \<Rightarrow> string \<Rightarrow> string \<Rightarrow> string \<Rightarrow> int \<Rightarrow> int \<Rightarrow> script_command" where
  "command ns name handler usage lo hi =
     \<lparr>sc_space = ns, sc_name = name, sc_handler = handler, sc_usage = usage, sc_min = lo, sc_max = hi\<rparr>"

section \<open>The tables\<close>

definition live_hp_commands :: "script_command list" where
  "live_hp_commands =
     [command ''Lifx'' ''getPlayerHp'' ''GetPlayerHp''
       (''(int charID) - returns the player's current (Hard) HP in display units, or 0 if not found'') 2 2,
      command ''Lifx'' ''getPlayerSoftHp'' ''GetPlayerSoftHp''
       (''(int charID) - returns the player's current Soft HP cap in display units, or 0 if not found'') 2 2,
      command ''Lifx'' ''setPlayerHpMemoryOnly'' ''SetPlayerHpMemoryOnly''
       (''(int charID, int hp) - DEBUG: write HP to memory only (no persist, no broadcast). Reports '' @
        ''before/after raw values.'') 3 3,
      command ''Lifx'' ''setPlayerHpPersistOnly'' ''SetPlayerHpPersistOnly''
       (''(int charID, int hp) - DEBUG: write HP and persist to DB (no broadcast). Reports raw value after '' @
        ''persist.'') 3 3,
      command ''Lifx'' ''setPlayerHp'' ''SetPlayerHp''
       (''(int charID, int hp) - sets the player's current (Hard) HP and persists it'') 3 3,
      command ''Lifx'' ''setPlayerSoftHp'' ''SetPlayerSoftHp''
       (''(int charID, int softHp) - sets the player's Soft HP cap and persists it'') 3 3,
      command ''Lifx'' ''applyDamage'' ''ApplyDamageCb''
       (''(int charID, int amount) - apply damage (negative = heal) to a connected player's live HP'') 3 3,
      command ''Lifx'' ''healToFull'' ''HealToFullCb''
       (''(int charID) - heal a connected player to full HP via the engine's natural healing path'') 2 2,
      command ''Lifx'' ''setPlayerLiveHp'' ''SetPlayerLiveHpCb''
       (''(int charID, int targetHp) - set a connected player's live HP by computing and applying delta '' @
        ''damage'') 3 3,
      command ''Lifx'' ''setDamageLevel'' ''SetDamageLevelCb''
       (''(int charID, int level) - directly set the ShapeBase damage level (bypasses Player::applyDamage '' @
        ''gating)'') 3 3,
      command ''Lifx'' ''vitalDump'' ''VitalDumpCb''
       (''() - dump suspected HP fields on the last-seen CharacterVitalParameters object'') 1 1,
      command ''Lifx'' ''vitalPoke'' ''VitalPokeCb''
       (''(hex offset, int64 value) - write a single int64 to the last-seen VitalParameters at the given '' @
        ''hex offset'') 3 3,
      command ''Lifx'' ''woundDump'' ''WoundDumpCb''
       (''() - show the captured CmCharacterWounds pointer + dealDamage call count'') 1 1,
      command ''Lifx'' ''dealDamage'' ''DealDamageCb''
       (''(int bodyPart 0..5) - re-invoke CmCharacterWounds::dealDamage on the last-hit player'') 2 2]"

definition stat_commands :: "script_command list" where
  "stat_commands =
     [command ''Lifx'' ''setDebug'' ''''
       (''(0|1) - toggle verbose per-tick/per-event LiFx debug echoes (default OFF). No arg = report '' @
        ''state.'') 1 2,
      command ''Lifx'' ''applyHpDamage'' ''''
       (''(int hardHp, int softHp) - apply damage directly via FUN_140090F60. Values in display HP units '' @
        ''(e.g. 5 = 5 HP damage).'') 3 3,
      command ''Lifx'' ''setHardHp'' ''''
       (''(charID, hp) - set hard HP to a target value (display units). Player must be connected.'') 3 3,
      command ''Lifx'' ''setSoftHp'' ''''
       (''(charID, hp) - set soft HP to a target value (display units). Player must be connected.'') 3 3,
      command ''Lifx'' ''dumpCharStats'' ''''
       (''() - dump the charID'' @ [CHR 0xE2] @ [CHR 0x86] @ [CHR 0x92] @ ''charStats registry with live HP per entry'') 1 1,
      command ''Lifx'' ''dumpHpTriplets'' ''''
       (''(charID) - dump hard+soft HP triplet (effMax / damage / bonus) and computed effective.'') 2 2,
      command ''Lifx'' ''knockout'' ''''
       (''(charID) - knock out: drop soft HP to 0 + invoke charStats vtable slot 40 (unconscious virtual)'') 2 2,
      command ''Lifx'' ''kill'' ''''
       (''(charID) - kill: drop HP to 0 + invoke the engine's lethal-state virtual on charStats'') 2 2,
      command ''Lifx'' ''dumpPlayerDeathFields'' ''''
       (''(charID) - dump the Player accumulated-damage fields the death-checks read'') 2 2,
      command ''Lifx'' ''pokePlayer'' ''''
       (''(charID, hexOffset, int64Value) - direct write to Player+offset'') 4 4,
      command ''Lifx'' ''stageHitOverride'' ''''
       (''(int hardHp, int softHp) - next combat hit will have its damage values replaced with these '' @
        ''(display HP).'') 3 3,
      command ''Lifx'' ''vitalMark'' ''''
       (''() - snapshot the +0x100..+0x400 window of the last-seen VitalParameters object'') 1 1,
      command ''Lifx'' ''vitalDiff'' ''''
       (''() - print every int64 field that changed since vitalMark'') 1 1,
      command ''Lifx'' ''setPacifist'' ''''
       (''(charID, 0|1) - toggle whether this player's weapons can hurt other players'') 3 3,
      command ''Lifx'' ''isPacifist'' ''''
       (''(charID) - returns 1 if the player is flagged pacifist, else 0'') 2 2,
      command ''Lifx'' ''dumpPacifist'' ''''
       (''() - list every charID currently flagged pacifist'') 1 1]"

definition outpost_commands :: "script_command list" where
  "outpost_commands =
     [command ''Lifx'' ''getOutpostDefaultRadius'' ''GetOutpostDefaultRadius''
       (''() - returns the current default radius applied to newly-built outposts'') 1 1,
      command ''Lifx'' ''setOutpostDefaultRadius'' ''SetOutpostDefaultRadius''
       (''(int radius) - override the default radius applied to newly-built outposts (engine baseline: 20)'') 2 2,
      command ''Lifx'' ''setOutpostRadius'' ''SetOutpostRadius''
       (''(int guildLandID, int newRadius) - change an EXISTING outpost's influence radius. Engine '' @
        ''persists + rebuilds monument.'') 3 3,
      command ''Lifx'' ''setOutpostProductionType'' ''SetOutpostProductionType''
       (''(int unmovableObjectID, int typeID) - retarget an existing outpost's production output to typeID'') 3 3,
      command ''Lifx'' ''dumpOutposts'' ''DumpOutposts''
       (''() - list every live outpost: UnmovableObjectID, outpostType, perTickCount, '' @
        ''ProductionObjectTypeID, currentQuality'') 1 1,
      command ''Lifx'' ''getMonumentMinDistance'' ''GetMonumentMinDistance''
       (''() - current guild monument <-> guild monument min distance (engine baseline: 150)'') 1 1,
      command ''Lifx'' ''setMonumentMinDistance'' ''SetMonumentMinDistance''
       (''(int distance) - override guild monument <-> guild monument min distance'') 2 2,
      command ''Lifx'' ''getOutpostOutpostMinDistance'' ''GetOutpostOutpostMinDistance''
       (''() - current outpost <-> outpost/guild-land min distance (engine baseline: 300)'') 1 1,
      command ''Lifx'' ''setOutpostOutpostMinDistance'' ''SetOutpostOutpostMinDistance''
       (''(int distance) - override outpost <-> outpost/guild-land min distance'') 2 2,
      command ''Lifx'' ''getOutpostMinDistanceToPersonalClaim'' ''GetOutpostMinDistanceToPersonalClaim''
       (''() - current outpost <-> personal claim min distance (engine baseline: 20, independent of '' @
        ''default radius)'') 1 1,
      command ''Lifx'' ''setOutpostMinDistanceToPersonalClaim'' ''SetOutpostMinDistanceToPersonalClaim''
       (''(int distance) - override outpost <-> personal claim min distance'') 2 2,
      command ''Lifx'' ''getMonumentMinDistanceToPersonalClaim'' ''GetMonumentMinDistanceToPersonalClaim''
       (''() - current guild monument <-> personal claim min distance (engine baseline: 20)'') 1 1,
      command ''Lifx'' ''setMonumentMinDistanceToPersonalClaim'' ''SetMonumentMinDistanceToPersonalClaim''
       (''(int distance) - override guild monument <-> personal claim min distance'') 2 2]"

definition effect_commands :: "script_command list" where
  "effect_commands =
     [command ''Lifx'' ''dumpEffects'' ''DumpEffects''
       (''(int charID) - dump the raw effect-list bytes for a character (investigation tool for issue #30)'') 2 2,
      command ''Lifx'' ''dumpCharScan'' ''DumpCharScan''
       (''(int charID [, hex startOff = 0x1000] [, hex endOff = 0x2200]) - wide scan of the '' @
        ''CmCharacterInfo struct looking for plausible containers'') 2 4,
      command ''Lifx'' ''findEffect'' ''FindEffect''
       (''(int charID, int effectID [, hex startOff [, hex endOff]]) - find a known effect ID inside any '' @
        ''heap pointer held by the character struct'') 3 5,
      command ''Lifx'' ''dumpAt'' ''DumpAt''
       (''(int charID, hex offset [, byteCount]) - hex dump bytes at character + offset'') 3 4,
      command ''Lifx'' ''dumpPtr'' ''DumpPtr''
       (''(hex pointer [, byteCount]) - hex dump bytes at an absolute address (e.g. a container hit from '' @
        ''findEffect)'') 2 3,
      command ''Lifx'' ''snapshotChar'' ''SnapshotChar''
       (''(int charID [, hex startOff = 0] [, hex endOff = 0x10000]) - save the bytes of the character '' @
        ''struct subrange'') 2 4,
      command ''Lifx'' ''diffChar'' ''DiffChar''
       (''() - diff the saved snapshot against current bytes; reports every 4-byte word that changed'') 1 1,
      command ''Lifx'' ''dumpPlayerPos'' ''DumpPlayerPos''
       (''(int charID [, float knownX, knownY, knownZ]) - scan the Player struct (first 2 KB) for 3-float '' @
        ''position vectors. With known x/y/z, prints exact matches; without, prints plausibility-filtered '' @
        ''candidates (issue #97).'') 2 5,
      command ''Lifx'' ''snapshotPlayer'' ''SnapshotPlayer''
       (''(int charID [, hex startOff = 0] [, hex endOff = 0x10000]) - snapshot the Player ShapeBase '' @
        ''(resolved by scanning CmCharacterInfo for a pointer whose target has charID at +0x1B44)'') 2 4,
      command ''Lifx'' ''diffPlayer'' ''DiffPlayer''
       (''() - diff a Player-anchored snapshot against current bytes'') 1 1,
      command ''Lifx'' ''findPlayer'' ''FindPlayer''
       (''(int charID) - debug: list every CmCharacterInfo member pointer whose target contains the charID '' @
        ''stamp at +0x1B44'') 2 2,
      command ''Player'' ''lifxSnapshotEffects'' ''SnapshotPlayerThis''
       (''([hex startOff = 0] [, hex endOff = 0x10000]) - snapshot this Player's bytes'') 2 4,
      command ''Player'' ''lifxDiffEffects'' ''DiffPlayerThis''
       (''() - diff against the last Player snapshot'') 2 2,
      command ''Player'' ''lifxFindEffect'' ''FindEffectOnPlayer''
       (''(int effectID [, hex startOff] [, hex endOff]) - search for an effect ID inside this Player'') 3 5,
      command ''Player'' ''lifxDumpAt'' ''DumpAtPlayer''
       (''(hex offset [, byteCount=64]) - hex dump bytes at Player + offset'') 3 4,
      command ''Player'' ''lifxPokeU32'' ''PokeU32Player''
       (''(hex offset, hex value) - write a uint32 at Player + offset (DEBUG)'') 4 4,
      command ''Player'' ''lifxSetEffectExpiry'' ''SetEffectExpiry''
       (''(int effectID, int expires_at_ms) - set absolute expires_at on this Player's row for effectID'') 4 4,
      command ''Player'' ''lifxExtendEffect'' ''ExtendEffect''
       (''(int effectID, int extra_ms) - add extra_ms to this Player's expires_at for effectID'') 4 4,
      command ''Player'' ''lifxClearEffect'' ''ClearEffect''
       (''(int effectID) - immediately expire this effect on this Player; broadcasts the change so the '' @
        ''client HUD refreshes'') 3 3,
      command ''Player'' ''lifxBroadcastEffect'' ''BroadcastEffectCmd''
       (''(int effectID) - send current row state of effectID to all ghosting clients (no row write); use '' @
        ''to test broadcast in isolation'') 3 3]"

definition timer_commands :: "script_command list" where
  "timer_commands =
     [command ''LifxTimers'' ''resurrection'' ''Resurrection''
       (''([int ms]) - get or set global Resurrected duration. 0 = engine default (10 min).'') 1 2,
      command ''LifxTimers'' ''setResurrectionFor'' ''SetResurrectionFor''
       (''(int charID, int ms) - per-player Resurrected duration override. 0 = clear.'') 3 3,
      command ''LifxTimers'' ''getResurrectionFor'' ''GetResurrectionFor''
       (''(int charID) - return the per-player override in ms (0 = not set).'') 2 2,
      command ''LifxTimers'' ''clearResurrectionFor'' ''ClearResurrectionFor''
       (''(int charID) - remove the per-player override.'') 2 2,
      command ''LifxTimers'' ''onResurrection'' ''OnResurrection''
       (''(string scriptFnName) - register a TorqueScript function called as fn(charID, defaultMs) '' @
        ''returning ms. Empty string clears.'') 1 2]"

definition dispatcher_commands :: "script_command list" where
  "dispatcher_commands =
     [command ''LifxDispatcher'' ''sendTo'' ''SendTo''
       (''(string targetUuid, string payloadText) - send a forward frame via the dispatcher daemon. '' @
        ''Returns 1 on queue, 0 on drop.'') 3 3,
      command ''LifxDispatcher'' ''resolveSector'' ''ResolveSector''
       (''(int worldSectorId) - ask the dispatcher which peer owns the sector. Reply logged '' @
        ''asynchronously.'') 2 2,
      command ''LifxDispatcher'' ''triggerHandoff'' ''TriggerHandoff''
       (''(int charID, int worldSectorId, float worldX, float worldY) - resolve the destination peer and '' @
        ''forward a v2 SectorHandoff payload. Returns 1 on resolve-queued, 0 otherwise.'') 5 5,
      command ''Lifx'' ''sectorEdgeStatus'' ''SectorEdgeStatus''
       (''() - dump hook-captured Player pos and per-trigger edge state (chunk 14, #101)'') 1 1,
      command ''LifxDispatcher'' ''testTransfer'' ''TestTransfer''
       (''(int peerWorldId, string host, int port) - manually fire client redirect (chunk 15b, #103)'') 4 4]"

definition hostile_commands :: "script_command list" where
  "hostile_commands =
     [command ''Lifx'' ''dumpCharEquip'' ''DumpCharEquipCb''
       (''(int charID) - PROBE: dump a connected player's equipment-registry state and resolve their '' @
        ''CmPlayerEquipment via the engine accessor (A2a #125 Phase 0).'') 2 2,
      command ''SimObject'' ''lifxDumpNpc'' ''DumpNpcCb''
       (''() - PROBE (read-only): dump an NPCDecorative's charStats bind state (vtable / +0x4A9 flag / '' @
        ''+0x109C charID / equip cache). A2a #125 Strategy P.'') 2 2,
      command ''SimObject'' ''lifxBindNpc'' ''BindNpcCb''
       (''(int charID) - bind this NPCDecorative's charStats to a registered character id so the engine '' @
        ''resolves its CmPlayerEquipment (equip-render + worn-loot). A2a #125 Strategy P.'') 3 3,
      command ''SimObject'' ''lifxGhost'' ''GhostNpcCb''
       (''() - force a script-spawned NPCDecorative to ghost to clients via NetObject::setScopeAlways '' @
        ''(Gate B visibility). A2a #125.'') 2 2,
      command ''SimObject'' ''lifxLoadout'' ''LoadoutNpcCb''
       (''(int id) - set which equipment LOADOUT this NPC renders (0=plate, 1=leather); pushed to clients '' @
        ''on the next ghost update. A2a #125 2b route B.'') 3 3,
      command ''SimObject'' ''lifxAiTick'' ''AiTickNpcCb''
       (''([int on=1]) - enable/disable per-pack behaviour-tree ticking for this NPC (NPCDecorative '' @
        ''doesn't tick its tree natively). Call after setBehavior(). A2a #125.'') 2 3,
      command ''Lifx'' ''manageSpawn'' ''ManageSpawnCb''
       (''(float x, float y, float z, string dataBlock [, int loadout]) - register a respawning NPC node: '' @
        ''the maintenance tick keeps it spawned while a player is present, the engine despawns it on '' @
        ''disconnect, the tick respawns it on return (like an outpost node). dataBlock MUST exist at '' @
        ''server startup. A2a #125.'') 5 6,
      command ''Lifx'' ''ensureSpawns'' ''EnsureSpawnsCb''
       (''() - run one managed-spawn maintenance pass (driven by the lifxEnsureSpawns schedule tick). A2a '' @
        ''#125.'') 1 1,
      command ''Lifx'' ''spawnNpcDecorative'' ''SpawnNpcDecorativeCb''
       (''(float x, float y, float z [, string dataBlock]) - spawn an NPCS::NPCDecorative (default '' @
        ''datablock NPC_slave_A) at world coords; echoes its object id. A2a #125.'') 4 5,
      command ''Lifx'' ''spawnNpcAtChar'' ''SpawnNpcAtCharCb''
       (''(int charID [, string dataBlock]) - spawn an NPCS::NPCDecorative right beside a connected '' @
        ''character (no coords needed); echoes its object id. A2a #125.'') 2 3,
      command ''Lifx'' ''makePlayerNpc'' ''MakePlayerNpcCb''
       (''(int charID) - define a player-model NPCData (male.dts) if needed and spawn it beside the '' @
        ''character; player body has the armor meshes equip render needs. A2a #125.'') 2 2,
      command ''Lifx'' ''nakedNpc'' ''NakedNpcCb''
       (''(int charID) - tell the character's client to cull armor meshes on player-model NPCs (naked '' @
        ''body); needs the LiFx client DLL installed. A2a #125.'') 2 2,
      command ''Lifx'' ''spawnHostile'' ''SpawnHostileCb''
       (''(int charID [, int animalTypeId=755]) - spawn a REAL Animals::Animal via '' @
        ''Animals::Manager::createAnimal beside a connected character; echoes its SimObjectId. type '' @
        ''755=Wolf (gate test); a distinct Bandit type comes later. #145.'') 2 3,
      command ''SimObject'' ''lifxDumpAnimal'' ''DumpAnimalCb''
       (''() - PROBE (read-only): pin the Animal primary-vtable RVA, confirm AI tree + perception block, '' @
        ''and report whether Animal overrides the Player death slots (48/44). #145.'') 2 2,
      command ''SimObject'' ''lifxDeathTombstone'' ''DeathTombstoneCb''
       (''() - SPIKE: install a per-instance cloned Animal vtable routing death (slots 48/44) to the '' @
        ''Player tombstone path, then kill it to test tombstone-vs-carcass. Reversible. #145.'') 2 2,
      command ''Lifx'' ''bindLastAnimal'' ''BindLastAnimalCb''
       (''() - mint+bind a character to the last /animal-spawned Bandit so its death drops a Player '' @
        ''tombstone (valid OwnerID) instead of a carcass. Spawn via /animal BanditData first. #145.'') 1 1,
      command ''Lifx'' ''dumpBoundEquip'' ''DumpBoundEquipCb''
       (''(int charId) - PROBE (read-only): dump a bound bandit char's in-memory CmCharacterInfo / record '' @
        ''/ inventory / CmPlayerEquipment + equipped slots. Tells you what's loaded. #145.'') 2 2,
      command ''Lifx'' ''loadBoundEquip'' ''LoadBoundEquipCb''
       (''(int charId) - build the bound char's inventory+equipment IN MEMORY (CmInventoryPlayer::init + '' @
        ''CmPlayerEquipment::loadFromDb) so its death drops worn loot, then re-dump. Marshals onto the '' @
        ''main thread via schedule(). Run after Lifx::bindLastAnimal. #145.'') 2 3,
      command ''Lifx'' ''equipBanditWeapon'' ''EquipBanditWeaponCb''
       (''(int charId, int objectTypeId [, int slot=12]) - insert a weapon ITEM into the bound bandit's '' @
        ''equipment container + right-hand slot (DB). The item drops in the tombstone. Does NOT '' @
        ''render/strike on its own (no live cci). Run after Lifx::bindLastAnimal. #154.'') 3 4,
      command ''Lifx'' ''mountBanditWeapon'' ''MountBanditWeaponCb''
       (''(int movableTypeId) - mount a held weapon image on the last bandit (no cci). Try WeaponData ids: '' @
        ''4=PracticeSword 5=NordicSword 6=KnightSword 8=Scimitar. #154.'') 2 2,
      command ''Lifx'' ''banditStrike'' ''BanditStrikeCb''
       (''([int attackType=0] [int visualSwing=1]) - the last bandit performs a native melee attack: plays '' @
        ''the swing animation and runs endAttack's cone hit-scan, damaging nearby players. attackType '' @
        ''0=fast 1=power. cci-free. #154.'') 1 3,
      command ''Lifx'' ''dumpMovableImages'' ''DumpMovableImagesCb''
       (''([str filter]) - list every registered movable-image (ShapeBaseImageData) id with a '' @
        ''name/shapeFile hint, so you can find the right held-weapon id for mountBanditWeapon. Optional '' @
        ''case-insensitive name filter (e.g. \"sword\"). #154.'') 1 2,
      command ''Lifx'' ''dropBanditLoot'' ''DropBanditLootCb''
       (''(int charId) - move a dead bandit's Root+Equipment items into its freshest grave's container via '' @
        ''direct SQL, so the empty tombstone fills with loot. cci-free. #145.'') 2 2,
      command ''Lifx'' ''reloadFreshestGrave'' ''ReloadFreshestGraveCb''
       (''() - re-run tryInit on the freshest captured grave container (deferred mounted-loot reload). '' @
        ''#175'') 1 1]"

definition battlezone_commands :: "script_command list" where
  "battlezone_commands =
     [command ''Lifx'' ''createBattleZone'' ''CreateBattleZone''
       (''(int type, int geoIdInt, int radius, string name) - create a battlezone; returns its landId (-1 '' @
        ''on failure). type==1 confines players when active.'') 5 5,
      command ''Lifx'' ''deleteBattleZone'' ''DeleteBattleZone''
       (''(int landId) - remove a battlezone'') 2 2,
      command ''Lifx'' ''printBattleZones'' ''PrintBattleZones''
       (''() - log every battlezone to the console'') 1 1,
      command ''Lifx'' ''getBattleZones'' ''GetBattleZones''
       (''() - return newline-separated rows: id geo radius type active'') 1 1,
      command ''Lifx'' ''setBattleZoneActive'' ''SetBattleZoneActive''
       (''(int landId, bool active) - arm/disarm containment for an existing zone'') 3 3,
      command ''Lifx'' ''setBattleZoneExempt'' ''SetBattleZoneExempt''
       (''(int charId, bool exempt) - let a charId pass an armed battlezone boundary'') 3 3]"

section \<open>Registration\<close>

text \<open>The engine's functions: the name space of a name, the entry of a text in the table of strings, and adding a command
  to a name space; \<open>'s\<close> is the engine's state.\<close>

record ('n, 'k, 's) script_engine =
  LookupNamespace :: "string \<Rightarrow> 'n"
  StringTableInsert :: "string \<Rightarrow> 'k"
  Engine_AddCommand :: "'n \<Rightarrow> 'k \<Rightarrow> script_command \<Rightarrow> 's \<Rightarrow> 's"
  Engine_Lookup :: "'n \<Rightarrow> 'k \<Rightarrow> 's \<Rightarrow> script_command option"

definition Con_AddCommand :: "('n, 'k, 's) script_engine \<Rightarrow> script_command \<Rightarrow> 's \<Rightarrow> 's" where
  "Con_AddCommand E c s =
     (let space = LookupNamespace E (sc_space c); entry = StringTableInsert E (sc_name c)
      in Engine_AddCommand E space entry c s)"

definition Register_Api :: "('n, 'k, 's) script_engine \<Rightarrow> script_command list \<Rightarrow> 's \<Rightarrow> 's" where
  "Register_Api E cs s = fold (Con_AddCommand E) cs s"

text \<open>The registrations of \<open>Hooks::Engine::ConsoleInit\<close>, in their order.\<close>

definition Register_All :: "('n, 'k, 's) script_engine \<Rightarrow> 's \<Rightarrow> 's" where
  "Register_All E s =
     Register_Api E battlezone_commands (Register_Api E hostile_commands (Register_Api E dispatcher_commands
       (Register_Api E timer_commands (Register_Api E effect_commands (Register_Api E outpost_commands
         (Register_Api E (live_hp_commands @ stat_commands) s))))))"

definition all_commands :: "script_command list" where
  "all_commands = live_hp_commands @ stat_commands @ outpost_commands @ effect_commands @ timer_commands
     @ dispatcher_commands @ hostile_commands @ battlezone_commands"

lemma Register_All_fold: "Register_All E s = fold (Con_AddCommand E) all_commands s"
  by (simp add: Register_All_def Register_Api_def all_commands_def)

section \<open>Every command can be called\<close>

text \<open>What the engine documents: names are compared without regard to case, a command added is found under its name, and
  replaces only one of the same name in the same name space.\<close>

definition documented_engine :: "('n, 'k, 's) script_engine \<Rightarrow> bool" where
  "documented_engine E \<longleftrightarrow>
     (\<forall>a b. LookupNamespace E a = LookupNamespace E b \<longrightarrow> map lower a = map lower b) \<and>
     (\<forall>a b. StringTableInsert E a = StringTableInsert E b \<longrightarrow> map lower a = map lower b) \<and>
     (\<forall>n k c s n' k'. Engine_Lookup E n' k' (Engine_AddCommand E n k c s) =
        (if n' = n \<and> k' = k then Some c else Engine_Lookup E n' k' s))"

definition folded :: "script_command \<Rightarrow> string \<times> string" where
  "folded c = (map lower (sc_space c), map lower (sc_name c))"

text \<open>That the names differ is decided by a number computed of each.\<close>

definition code_of :: "char \<Rightarrow> nat" where
  "code_of c = (let n = of_char c in if 65 \<le> n \<and> n \<le> 90 then n + 32 else n)"

fun name_code :: "nat \<Rightarrow> string \<Rightarrow> nat" where
  "name_code a [] = a"
| "name_code a (c # cs) = name_code ((a * 31 + code_of c) mod 1000003) cs"

definition command_code :: "script_command \<Rightarrow> nat" where
  "command_code c = name_code (name_code 0 (sc_space c)) (sc_name c)"

lemma command_code_command: "command_code (command ns name f u lo hi) = name_code (name_code 0 ns) name"
  by (simp add: command_code_def command_def)

lemma code_of_lower: "code_of (lower c) = code_of c"
  by (auto simp: code_of_def lower_def Let_def)

lemma name_code_lower: "name_code a (map lower s) = name_code a s"
  by (induction s arbitrary: a) (simp_all add: code_of_lower)

lemma command_code_folded: "folded c = folded d \<Longrightarrow> command_code c = command_code d"
  by (metis command_code_def folded_def name_code_lower prod.inject)

lemma outpost_codes:
  "map command_code outpost_commands =
     [881327, 93952, 82318, 228878, 216519, 510173, 323483, 689841, 546646, 554568, 287727, 549461, 277414]"
  unfolding outpost_commands_def list.map command_code_command by (simp add: code_of_def)

lemma effect_codes:
  "map command_code effect_commands =
     [937526, 322391, 875468, 870839, 10457, 224202, 274080, 280093, 339368, 271982, 206617, 916007,
      983632, 95394, 753854, 449755, 968085, 706044, 185160, 190053]"
  unfolding effect_commands_def list.map command_code_command by (simp add: code_of_def)

lemma timer_codes:
  "map command_code timer_commands =
     [828923, 300057, 465898, 224784, 474958]"
  unfolding timer_commands_def list.map command_code_command by (simp add: code_of_def)

lemma dispatcher_codes:
  "map command_code dispatcher_commands =
     [7709, 566932, 485938, 341704, 61630]"
  unfolding dispatcher_commands_def list.map command_code_command by (simp add: code_of_def)

lemma hostile_codes:
  "map command_code hostile_commands =
     [501087, 932243, 947452, 30381, 727423, 229861, 236274, 678198, 189341, 309253, 338790, 839482,
      708615, 629624, 239740, 390065, 851413, 713875, 503815, 774610, 295305, 237983, 804542, 28480]"
  unfolding hostile_commands_def list.map command_code_command by (simp add: code_of_def)

lemma battlezone_codes:
  "map command_code battlezone_commands =
     [118738, 13096, 645673, 924558, 707053, 174004]"
  unfolding battlezone_commands_def list.map command_code_command by (simp add: code_of_def)

lemma live_hp_codes:
  "map command_code live_hp_commands =
     [48913, 196840, 543467, 43013, 288714, 791781, 108031, 505431, 309454, 845451, 195026, 546679,
      153961, 332118]"
  unfolding live_hp_commands_def list.map command_code_command by (simp add: code_of_def)

lemma stat_codes:
  "map command_code stat_commands =
     [257907, 975663, 277742, 784600, 500839, 994984, 636895, 295688, 424151, 405994, 363468, 444075,
      183267, 280836, 266205, 291230]"
  unfolding stat_commands_def list.map command_code_command by (simp add: code_of_def)

lemmas all_codes = live_hp_codes stat_codes outpost_codes effect_codes timer_codes dispatcher_codes hostile_codes battlezone_codes

lemma codes_differ: "distinct (map command_code all_commands)"
  unfolding all_commands_def map_append all_codes append.simps by simp

lemma names_differ: "distinct (map folded all_commands)"
proof -
  have d: "distinct all_commands" "inj_on command_code (set all_commands)" using codes_differ unfolding distinct_map by blast+
  have "inj_on folded (set all_commands)" by (rule inj_onI, rule inj_onD [OF d(2)], rule command_code_folded) assumption+
  then show ?thesis using d(1) unfolding distinct_map by blast
qed

lemma engine_names:
  assumes "documented_engine E"
  shows "LookupNamespace E a = LookupNamespace E b \<Longrightarrow> map lower a = map lower b"
    and "StringTableInsert E a = StringTableInsert E b \<Longrightarrow> map lower a = map lower b"
  using assms unfolding documented_engine_def by blast+

lemma engine_lookup:
  assumes "documented_engine E"
  shows "Engine_Lookup E n' k' (Con_AddCommand E c s) =
     (if n' = LookupNamespace E (sc_space c) \<and> k' = StringTableInsert E (sc_name c) then Some c else Engine_Lookup E n' k' s)"
  using assms unfolding documented_engine_def Con_AddCommand_def Let_def by blast

lemma lookup_after_others:
  assumes E: "documented_engine E" and "folded c \<notin> folded ` set cs"
  shows "Engine_Lookup E (LookupNamespace E (sc_space c)) (StringTableInsert E (sc_name c)) (fold (Con_AddCommand E) cs s) =
     Engine_Lookup E (LookupNamespace E (sc_space c)) (StringTableInsert E (sc_name c)) s"
  using assms(2)
proof (induction cs arbitrary: s)
  case (Cons x xs)
  have "\<not> (LookupNamespace E (sc_space c) = LookupNamespace E (sc_space x) \<and>
      StringTableInsert E (sc_name c) = StringTableInsert E (sc_name x))"
  proof
    assume same: "LookupNamespace E (sc_space c) = LookupNamespace E (sc_space x) \<and>
      StringTableInsert E (sc_name c) = StringTableInsert E (sc_name x)"
    have "folded c = folded x"
      unfolding folded_def engine_names(1) [OF E same [THEN conjunct1]] engine_names(2) [OF E same [THEN conjunct2]] by (rule refl)
    then show False using Cons.prems by simp
  qed
  then have "Engine_Lookup E (LookupNamespace E (sc_space c)) (StringTableInsert E (sc_name c)) (Con_AddCommand E x s) =
      Engine_Lookup E (LookupNamespace E (sc_space c)) (StringTableInsert E (sc_name c)) s"
    by (subst engine_lookup [OF E]) auto
  then show ?case using Cons by simp
qed simp

lemma lookup_registered:
  assumes E: "documented_engine E" and "distinct (map folded cs)" "c \<in> set cs"
  shows "Engine_Lookup E (LookupNamespace E (sc_space c)) (StringTableInsert E (sc_name c)) (fold (Con_AddCommand E) cs s) = Some c"
  using assms(2,3)
proof (induction cs arbitrary: s)
  case (Cons x xs)
  show ?case
  proof (cases "c = x")
    case True
    then have "folded c \<notin> folded ` set xs" using Cons.prems(1) by simp
    then show ?thesis using True by (simp add: lookup_after_others [OF E] engine_lookup [OF E])
  next
    case False
    then show ?thesis using Cons by simp
  qed
qed simp

text \<open>After the console has started every one of the 103 commands is found under its own name, whatever the case it is
  written in: none of them replaces another.\<close>

theorem every_command_is_found:
  assumes "documented_engine E" "c \<in> set all_commands"
    and "LookupNamespace E ns = LookupNamespace E (sc_space c)" "StringTableInsert E name = StringTableInsert E (sc_name c)"
  shows "Engine_Lookup E (LookupNamespace E ns) (StringTableInsert E name) (Register_All E s) = Some c"
  using lookup_registered [OF assms(1) names_differ assms(2)] assms(3,4) by (simp add: Register_All_fold)

definition plain_engine :: "(string, string, string \<times> string \<Rightarrow> script_command option) script_engine" where
  "plain_engine = \<lparr>LookupNamespace = map lower, StringTableInsert = map lower,
     Engine_AddCommand = (\<lambda>n k c s. s((n, k) := Some c)), Engine_Lookup = (\<lambda>n k s. s (n, k))\<rparr>"

theorem every_command_is_found_witness:
  "Engine_Lookup plain_engine (map lower ''LIFXTimers'') (map lower ''ONRESURRECTION'') (Register_All plain_engine Map.empty) =
     Some (timer_commands ! 4)"
proof -
  have d: "documented_engine plain_engine" by (simp add: documented_engine_def plain_engine_def)
  have m: "timer_commands ! 4 \<in> set all_commands" by (simp add: all_commands_def timer_commands_def)
  have n: "sc_space (timer_commands ! 4) = ''LifxTimers''" "sc_name (timer_commands ! 4) = ''onResurrection''"
    by (simp_all add: timer_commands_def command_def)
  have e: "LookupNamespace plain_engine = map lower" "StringTableInsert plain_engine = map lower"
    by (simp_all add: plain_engine_def)
  have l: "map lower ''LIFXTimers'' = map lower ''LifxTimers''" "map lower ''ONRESURRECTION'' = map lower ''onResurrection''"
    by code_simp+
  show ?thesis
    using every_command_is_found [OF d m, of "''LIFXTimers''" "''ONRESURRECTION''"] unfolding e n using l by blast
qed

end
