(* ===== verification/Console_Init.thy ===== *)
theory Console_Init
  imports Console_Log Script_Commands
begin

text \<open>
  The start of the server's console (\<open>Hooks::Engine::ConsoleInit\<close> of \<open>source/server/hooks_engine.cpp\<close>): the hook
  that captures the table of strings, the engine functions resolved, and what is called in which order. A function is
  resolved by adding its offset to the base of the module; what the engine's own initialisation does to the table
  of pointers, through the hook, is an argument.
\<close>

section \<open>Engine functions\<close>

definition CON_ADD_CONSTANT :: u64 where "CON_ADD_CONSTANT = 0x406680"
definition CON_EVALUATE :: u64 where "CON_EVALUATE = 0x406A50"
definition CON_GET_VARIABLE :: u64 where "CON_GET_VARIABLE = 0x4077B0"
definition CON_LOOKUP_NAMESPACE :: u64 where "CON_LOOKUP_NAMESPACE = 0x4082B0"
definition CON_SET_VARIABLE :: u64 where "CON_SET_VARIABLE = 0x408CD0"
definition CON_ADD_INT_COMMAND :: u64 where "CON_ADD_INT_COMMAND = 0x410F90"
definition CON_ADD_FLOAT_COMMAND :: u64 where "CON_ADD_FLOAT_COMMAND = 0x411000"
definition CON_ADD_STRING_COMMAND :: u64 where "CON_ADD_STRING_COMMAND = 0x411070"
definition CON_ADD_VOID_COMMAND :: u64 where "CON_ADD_VOID_COMMAND = 0x4110E0"
definition CON_ADD_BOOL_COMMAND :: u64 where "CON_ADD_BOOL_COMMAND = 0x411150"
definition CON_ADD_VARIABLE :: u64 where "CON_ADD_VARIABLE = 0x411360"
definition GLOBAL_VARS :: u64 where "GLOBAL_VARS = 0xBE5AC8"

lemmas engine_offsets = CON_ADD_CONSTANT_def CON_EVALUATE_def CON_GET_VARIABLE_def CON_LOOKUP_NAMESPACE_def CON_SET_VARIABLE_def
  CON_ADD_INT_COMMAND_def CON_ADD_FLOAT_COMMAND_def CON_ADD_STRING_COMMAND_def CON_ADD_VOID_COMMAND_def CON_ADD_BOOL_COMMAND_def
  CON_ADD_VARIABLE_def GLOBAL_VARS_def

datatype init_step =
    Resolve u64
  | Error_Box string
  | Call_Con_Init
  | Start_Server
  | Add_Constant string int string
  | Register_Commands
  | Powered_By string

text \<open>A function is resolved; when its address is null a message is shown and the start goes on.\<close>

definition resolve_or_warn :: "u64 \<Rightarrow> u64 \<Rightarrow> string \<Rightarrow> init_step list" where
  "resolve_or_warn base off msg =
     Resolve (base + off) # (if base + off = 0 then [Error_Box (snprintf_out 256 msg)] else [])"

section \<open>The table of strings\<close>

text \<open>The hook: the pointers, and the table the engine's function is called with.\<close>

definition OnStringTableInsert :: "u64 \<Rightarrow> pointers \<Rightarrow> u64 \<times> pointers" where
  "OnStringTableInsert this p =
     (let p = (if Pointers_Get ''StringTable'' p = 0 then Pointers_Set ''StringTable'' this p else p)
      in (Pointers_Get ''StringTable'' p, p))"

fun insert_calls :: "u64 list \<Rightarrow> pointers \<Rightarrow> u64 list \<times> pointers" where
  "insert_calls [] p = ([], p)"
| "insert_calls (t # ts) p =
     (case OnStringTableInsert t p of (u, p) \<Rightarrow> (case insert_calls ts p of (us, p) \<Rightarrow> (u # us, p)))"

text \<open>Nothing is resolved without a table of strings; the five functions that add commands are resolved in turn up to
  the first that is null.\<close>

fun resolve_all :: "u64 \<Rightarrow> u64 list \<Rightarrow> bool \<times> init_step list" where
  "resolve_all base [] = (True, [])"
| "resolve_all base (off # offs) =
     (if base + off = 0 then (False, [Resolve (base + off)])
      else case resolve_all base offs of (ok, ls) \<Rightarrow> (ok, Resolve (base + off) # ls))"

definition InitConsoleAddCommandHooks :: "u64 \<Rightarrow> pointers \<Rightarrow> bool \<times> init_step list" where
  "InitConsoleAddCommandHooks base p =
     (if Pointers_Get ''StringTable'' p = 0 then (False, [])
      else resolve_all base [CON_ADD_INT_COMMAND, CON_ADD_FLOAT_COMMAND, CON_ADD_STRING_COMMAND, CON_ADD_VOID_COMMAND,
        CON_ADD_BOOL_COMMAND])"

section \<open>The start\<close>

definition kCoreVersionString :: string where "kCoreVersionString = ''LiFx ver. 1.0''"

text \<open>The kinds of constants (\<open>Con::ConsoleType\<close>): a string, a flag, a number.\<close>

definition Type_String :: int where "Type_String = 1149"
definition Type_Integer :: int where "Type_Integer = 1154"
definition Type_Boolean :: int where "Type_Boolean = 1158"

definition server_constants :: "string \<Rightarrow> string \<Rightarrow> string \<Rightarrow> init_step list" where
  "server_constants is_yo yo_version yo_text =
     [Add_Constant ''$lifx::Version'' Type_String kCoreVersionString,
      Add_Constant ''$cm_globals::IsYOServer'' Type_Boolean is_yo,
      Add_Constant ''$cm_globals::YOVersion'' Type_Integer yo_version,
      Add_Constant ''$cm_globals::YOVersionString'' Type_String yo_text]"

definition ConsoleInit ::
  "u64 \<Rightarrow> (pointers \<Rightarrow> pointers) \<Rightarrow> string \<Rightarrow> string \<Rightarrow> string \<Rightarrow> pointers \<Rightarrow> init_step list \<times> pointers" where
  "ConsoleInit base con_init is_yo yo_version yo_text p =
     (let p1 = Pointers_Set ''GlobalVars'' (base + GLOBAL_VARS) p;
          p2 = con_init p1;
          (ok, resolved) = InitConsoleAddCommandHooks base p2
      in (resolve_or_warn base CON_LOOKUP_NAMESPACE ''Can't hook Con::LookupNamespace()!''
          @ (if Pointers_Get ''GlobalVars'' p1 = 0 then [Error_Box ''Can't find global variables dictionary pointer!''] else [])
          @ [Call_Con_Init]
          @ resolve_or_warn base CON_ADD_VARIABLE ''Can't hook Con::addVariable()!''
          @ resolve_or_warn base CON_ADD_CONSTANT ''Can't hook Con::addConstant()!''
          @ resolved @ (if ok then [] else [Error_Box ''Can't hook Con::addCommand()!''])
          @ resolve_or_warn base CON_EVALUATE ''Can't hook Con::Evaluate()!''
          @ resolve_or_warn base CON_SET_VARIABLE ''Can't hook Con::setVariable()!''
          @ resolve_or_warn base CON_GET_VARIABLE ''Can't hook Con::getVariable()!''
          @ [Start_Server] @ server_constants is_yo yo_version yo_text
          @ [Register_Commands, Powered_By ('' ==== Powered by '' @ kCoreVersionString)],
          p2))"

section \<open>Laws\<close>

text \<open>Whatever tables the engine inserts into, the calls all go to the first.\<close>

theorem insertions_go_to_the_first_table:
  assumes "ts \<noteq> []" "hd ts \<noteq> 0" "Pointers_Get ''StringTable'' p = 0" "insert_calls ts p = (us, p')"
  shows "us = replicate (length ts) (hd ts) \<and> Pointers_Get ''StringTable'' p' = hd ts"
proof -
  have kept: "insert_calls ts p = (replicate (length ts) u, p)" if "Pointers_Get ''StringTable'' p = u" "u \<noteq> 0" for ts u p
    using that by (induction ts) (simp_all add: OnStringTableInsert_def Let_def)
  obtain x xs where ts: "ts = x # xs" using assms(1) by (cases ts) auto
  have "OnStringTableInsert x p = (x, Pointers_Set ''StringTable'' x p)"
    using assms(3) by (simp add: OnStringTableInsert_def Let_def Pointers_Get_Set)
  then show ?thesis
    using assms(2,4) kept [of "Pointers_Set ''StringTable'' x p" x xs] by (auto simp: ts Pointers_Get_Set)
qed

text \<open>The start without a failure: the module lies where no address of a function is null, and the engine's own
  initialisation has inserted a string.\<close>

lemma resolved_nonzero:
  fixes base off :: u64
  assumes b: "unat base + unat off < 2 ^ 64" "off \<noteq> 0"
  shows "base + off \<noteq> 0"
proof
  assume b3: "base + off = 0"
  have "unat (base + off) = unat base + unat off" using b(1) by (simp add: unat_word_ariths)
  then show False using b(2) b3 by (simp add: unat_eq_0)
qed

theorem console_starts_in_order:
  assumes "unat base + 0x1000000 < 2 ^ 64"
    and "Pointers_Get ''StringTable'' (con_init (Pointers_Set ''GlobalVars'' (base + GLOBAL_VARS) p)) \<noteq> 0"
  shows "fst (ConsoleInit base con_init is_yo yo_version yo_text p) =
     [Resolve (base + CON_LOOKUP_NAMESPACE), Call_Con_Init]
     @ map (\<lambda>off. Resolve (base + off))
         [CON_ADD_VARIABLE, CON_ADD_CONSTANT, CON_ADD_INT_COMMAND, CON_ADD_FLOAT_COMMAND, CON_ADD_STRING_COMMAND,
          CON_ADD_VOID_COMMAND, CON_ADD_BOOL_COMMAND, CON_EVALUATE, CON_SET_VARIABLE, CON_GET_VARIABLE]
     @ [Start_Server] @ server_constants is_yo yo_version yo_text
     @ [Register_Commands, Powered_By ('' ==== Powered by '' @ kCoreVersionString)]"
proof -
  have nz: "base + off \<noteq> 0" if "unat off \<le> 0x1000000" "off \<noteq> 0" for off
    using resolved_nonzero [of base off] that assms(1) by simp
  have offs: "base + CON_LOOKUP_NAMESPACE \<noteq> 0" "base + CON_ADD_VARIABLE \<noteq> 0" "base + CON_ADD_CONSTANT \<noteq> 0"
    "base + CON_ADD_INT_COMMAND \<noteq> 0" "base + CON_ADD_FLOAT_COMMAND \<noteq> 0" "base + CON_ADD_STRING_COMMAND \<noteq> 0"
    "base + CON_ADD_VOID_COMMAND \<noteq> 0" "base + CON_ADD_BOOL_COMMAND \<noteq> 0" "base + CON_EVALUATE \<noteq> 0"
    "base + CON_SET_VARIABLE \<noteq> 0" "base + CON_GET_VARIABLE \<noteq> 0" "base + GLOBAL_VARS \<noteq> 0"
    by (rule nz; simp add: engine_offsets)+
  show ?thesis
    using assms(2)
    by (simp add: ConsoleInit_def Let_def resolve_or_warn_def InitConsoleAddCommandHooks_def offs Pointers_Get_Set)
qed

text \<open>Without a table of strings the start goes on all the same: the commands are registered with functions that were
  never resolved.\<close>

lemma commands_registered_unresolved:
  assumes "Pointers_Get ''StringTable'' (con_init (Pointers_Set ''GlobalVars'' (base + GLOBAL_VARS) p)) = 0"
  shows "Register_Commands \<in> set (fst (ConsoleInit base con_init is_yo yo_version yo_text p)) \<and>
    Error_Box ''Can't hook Con::addCommand()!'' \<in> set (fst (ConsoleInit base con_init is_yo yo_version yo_text p))"
  using assms by (simp add: ConsoleInit_def Let_def InitConsoleAddCommandHooks_def)

end
