(* ===== verification/Client_Hooks.thy ===== *)
theory Client_Hooks
  imports Server_Hooks Equip_Sync
begin

text \<open>
  The client library: its detours and their removal (\<open>source/client/client_runtime.cpp\<close>, called by
  \<open>dllmain.cpp\<close>), the start of the console (\<open>hook_console_init.cpp\<close>), the prefix of the console's lines
  (\<open>hook_console.cpp\<close>), the directory of the boot log, and the command that dresses NPCs
  (\<open>hook_naked_render.cpp\<close>). The detour library and the engine's functions are arguments, the calls made of the
  engine are values.
\<close>

section \<open>Detours\<close>

definition client_attached :: "hook list" where
  "client_attached =
     [Con_InternalConsolePrintf, Con_Init, FS_Open, FS_Read, FS_GetStreamSize, FS_GetPosition, FS_SetPosition, FS_Dtor,
      TmpHideAllNaked]"

definition client_detached :: "hook list" where
  "client_detached =
     [TmpHideAllNaked, FS_Dtor, FS_SetPosition, FS_GetPosition, FS_GetStreamSize, FS_Read, FS_Open, Con_Init,
      Con_InternalConsolePrintf]"

text \<open>Their addresses in the client (\<open>client_offsets.h\<close>).\<close>

fun client_rva :: "hook \<Rightarrow> u64 option" where
  "client_rva Con_InternalConsolePrintf = Some 0x58F820"
| "client_rva Con_Init = Some 0x592DD0"
| "client_rva FS_Open = Some 0x61E9C0"
| "client_rva FS_Read = Some 0x61DE40"
| "client_rva FS_GetPosition = Some 0x61E910"
| "client_rva FS_SetPosition = Some 0x61EBC0"
| "client_rva FS_GetStreamSize = Some 0x61E930"
| "client_rva FS_Dtor = Some 0x61DD50"
| "client_rva TmpHideAllNaked = Some 0xA96420"
| "client_rva _ = None"

definition Client_AttachHooks :: "'d detours \<Rightarrow> 'd \<Rightarrow> bool \<times> 'd" where
  "Client_AttachHooks D d = TransactionCommit D (fold (DetourAttach D) client_attached (TransactionBegin D d))"

text \<open>Detaching also takes back the patch of the NPC's table; \<open>ok\<close> is the answer of \<open>VirtualProtect\<close>.\<close>

definition Client_DetachHooks ::
  "'d detours \<Rightarrow> bool \<Rightarrow> mem \<Rightarrow> unpack_patches \<Rightarrow> 'd \<Rightarrow> bool \<times> 'd \<times> mem \<times> unpack_patches" where
  "Client_DetachHooks D ok m p d =
     (let d = TransactionBegin D d;
          (m, p) = ClientRemoveVtablePatch ok m p;
          (r, d) = TransactionCommit D (fold (DetourDetach D) client_detached d)
      in (r, d, m, p))"

section \<open>The start of the console\<close>

datatype client_call = Engine_Con_Init | Engine_Line string | Engine_Evaluate string

definition prefixed_line :: "string \<Rightarrow> string" where
  "prefixed_line buffer = snprintf_out 8200 (''[LiFx-client] '' @ buffer)"

definition Client_OnInternalPrintf :: "u32 \<Rightarrow> u32 \<Rightarrow> string \<Rightarrow> client_call" where
  "Client_OnInternalPrintf type unk1 buffer = Engine_Line (prefixed_line buffer)"

definition init_line :: "u32 \<Rightarrow> string" where
  "init_line pid =
     snprintf_out 128 (''engine console initialized; LiFx client hooks live (pid='' @ fmt_u pid @ '')'' @ [CHR 0x0A])"

definition glue_GoToServer :: string where
  "glue_GoToServer =
     ''function clientCmdGoToServer(%charID, %peerWorldId, %addr) {'' @
     ''    echo('' @ [CHR 0x22] @ ''clientCmdGoToServer charID='' @ [CHR 0x22] @ '' @ %charID'' @
     ''          @ '' @ [CHR 0x22] @ '' peerWorldId='' @ [CHR 0x22] @ '' @ %peerWorldId'' @
     ''          @ '' @ [CHR 0x22] @ '' addr='' @ [CHR 0x22] @ '' @ %addr);'' @
     ''}''"

definition glue_LifxNaked :: string where
  "glue_LifxNaked = ''function clientCmdLifxNaked() { tmpHideAllNakedMans(); }''"

text \<open>The lines are printed with the engine's own function. Both tables are patched; \<open>ok1\<close> and \<open>ok2\<close> are the answers
  of \<open>VirtualProtect\<close>, \<open>h1\<close> and \<open>h2\<close> the addresses of the hooks.\<close>

definition OnConsoleInit ::
  "u32 \<Rightarrow> bool \<Rightarrow> bool \<Rightarrow> u64 \<Rightarrow> u64 \<Rightarrow> u64 \<Rightarrow> mem \<Rightarrow> unpack_patches \<Rightarrow> client_call list \<times> mem \<times> unpack_patches" where
  "OnConsoleInit pid ok1 ok2 base h1 h2 m p =
     (let (m, p) = ClientInstallVtablePatch ok1 base h1 m p;
          (m, p) = ClientInstallAnimalVtablePatch ok2 base h2 m p
      in ([Engine_Con_Init, Engine_Line (init_line pid), Engine_Evaluate glue_GoToServer, Engine_Evaluate glue_LifxNaked],
          m, p))"

section \<open>The boot log\<close>

text \<open>The directory of the library, from its path and the length the system answers for it.\<close>

definition MAX_PATH :: nat where "MAX_PATH = 260"

definition boot_dir :: "nat \<Rightarrow> string \<Rightarrow> string option" where
  "boot_dir n selfPath =
     (if n = 0 \<or> MAX_PATH \<le> n then None
      else if CHR 0x5C \<notin> set selfPath then None
      else Some (butlast (rev (dropWhile (\<lambda>c. c \<noteq> CHR 0x5C) (rev selfPath)))))"

definition boot_line :: "string \<Rightarrow> u32 \<Rightarrow> string" where
  "boot_line ts pid = ''['' @ ts @ ''] [lifx-client] DLL_PROCESS_ATTACH; pid='' @ fmt_u pid @ [CHR 0x0A]"

section \<open>Dressing NPCs\<close>

definition kTypeMaskOff :: u64 where "kTypeMaskOff = 0x1B0"
definition kNpcMarkerBit :: u32 where "kNpcMarkerBit = 0x10000"
definition kEquipSet :: "nat list" where "kEquipSet = [88, 89, 90, 91, 92, 94]"

definition rd32 :: "mem \<Rightarrow> u64 \<Rightarrow> u64 \<Rightarrow> u32" where
  "rd32 m obj off = read_field m obj off"

text \<open>A call of \<open>setMeshHidden\<close>: the object, the mesh, and whether it is hidden.\<close>

type_synonym mesh_call = "u64 \<times> string \<times> bool"

definition dress_calls :: "u64 \<Rightarrow> mesh_call list" where
  "dress_calls x =
     map (\<lambda>n. (x, n, True)) kLifxArmorMeshes @
     map (\<lambda>k. (x, kLifxArmorMeshes ! k, False)) (filter (\<lambda>k. k < length kLifxArmorMeshes) kEquipSet)"

definition dressed_line :: "string \<Rightarrow> u32 \<Rightarrow> string" where
  "dressed_line ptr tm =
     snprintf_out 256 (''LIFX-EQUIP: auto-equipped NPC obj='' @ ptr @ '' typemask=0x'' @ hex_fixed False 8 (unat tm) @ '' (''
       @ dec (length kEquipSet) @ '' meshes)'' @ [CHR 0x0A])"

definition is_dressed :: "mem \<Rightarrow> u64 \<Rightarrow> bool" where
  "is_dressed m x \<longleftrightarrow>
     x \<noteq> 0 \<and> rd32 m x kTypeMaskOff AND kNpcMarkerBit \<noteq> 0 \<and> rd32 m x kShapeReadyOff AND kShapeReady \<noteq> 0"

text \<open>The objects the engine's query answers, in its order; \<open>ptr\<close> formats an address. An object is reported once.\<close>

fun dress_loop :: "(u64 \<Rightarrow> string) \<Rightarrow> mem \<Rightarrow> u64 list \<Rightarrow> u64 set \<Rightarrow> mesh_call list \<times> string list \<times> u64 set" where
  "dress_loop ptr m [] logged = ([], [], logged)"
| "dress_loop ptr m (x # xs) logged =
     (if x = 0 then dress_loop ptr m xs logged
      else
        let tm = rd32 m x kTypeMaskOff;
            ready = (rd32 m x kShapeReadyOff AND kShapeReady \<noteq> 0);
            firstSeen = (x \<notin> logged)
        in if tm AND kNpcMarkerBit = 0 then dress_loop ptr m xs logged
           else if \<not> ready then dress_loop ptr m xs logged
           else case dress_loop ptr m xs (if firstSeen then insert x logged else logged) of
                  (calls, lines, logged') \<Rightarrow>
                    (dress_calls x @ calls, (if firstSeen then dressed_line (ptr x) tm # lines else lines), logged'))"

definition OnHideAllNaked ::
  "(u64 \<Rightarrow> string) \<Rightarrow> (u32 \<Rightarrow> u64 list) \<Rightarrow> mem \<Rightarrow> u64 set \<Rightarrow> mesh_call list \<times> string list \<times> u64 set" where
  "OnHideAllNaked ptr query_objects m logged = dress_loop ptr m (query_objects 0x8000) logged"

section \<open>What is seen\<close>

text \<open>The meshes hidden, before and after calls of the engine: the last call about a mesh counts.\<close>

type_synonym hidden = "u64 \<Rightarrow> string \<Rightarrow> bool"

fun show_call :: "mesh_call \<Rightarrow> hidden \<Rightarrow> hidden" where
  "show_call (x, n, b) h = h(x := (h x)(n := b))"

definition apply_calls :: "mesh_call list \<Rightarrow> hidden \<Rightarrow> hidden" where
  "apply_calls cs h = fold show_call cs h"

definition full_plate :: "string list" where
  "full_plate =
     [''Full_Plate_Arm'', ''Full_Plate_Body'', ''Full_Plate_Feet'', ''Full_Plate_Forearm'', ''Full_Plate_Helmet'',
      ''Full_Plate_Legs'']"

lemma plate_at:
  "length kLifxArmorMeshes = 369" "kLifxArmorMeshes ! 88 = ''Full_Plate_Arm''" "kLifxArmorMeshes ! 89 = ''Full_Plate_Body''"
  "kLifxArmorMeshes ! 90 = ''Full_Plate_Feet''" "kLifxArmorMeshes ! 91 = ''Full_Plate_Forearm''"
  "kLifxArmorMeshes ! 92 = ''Full_Plate_Helmet''" "kLifxArmorMeshes ! 94 = ''Full_Plate_Legs''"
  by (simp_all add: armor_table)

lemma equip_set_is_full_plate:
  "map (\<lambda>k. kLifxArmorMeshes ! k) (filter (\<lambda>k. k < length kLifxArmorMeshes) kEquipSet) = full_plate"
  by (simp add: plate_at kEquipSet_def full_plate_def)

lemma full_plate_is_armor: "set full_plate \<subseteq> set kLifxArmorMeshes"
proof
  fix x
  assume "x \<in> set full_plate"
  then obtain k where "k < length kLifxArmorMeshes" "x = kLifxArmorMeshes ! k"
    by (auto simp: equip_set_is_full_plate [symmetric])
  then show "x \<in> set kLifxArmorMeshes" by simp
qed

lemma dress_calls_eq:
  "dress_calls x = map (\<lambda>n. (x, n, True)) kLifxArmorMeshes @ map (\<lambda>n. (x, n, False)) full_plate"
  unfolding dress_calls_def equip_set_is_full_plate [symmetric] by simp

lemma apply_same: "apply_calls (map (\<lambda>n. (x, n, b)) ns) h y n = (if y = x \<and> n \<in> set ns then b else h y n)"
  by (induction ns arbitrary: h) (auto simp: apply_calls_def)

lemma apply_append: "apply_calls (a @ b) h = apply_calls b (apply_calls a h)"
  by (simp add: apply_calls_def)

lemma apply_dress:
  "apply_calls (dress_calls x) h y n =
     (if y = x \<and> n \<in> set kLifxArmorMeshes then n \<notin> set full_plate else h y n)"
  using full_plate_is_armor by (auto simp: dress_calls_eq apply_append apply_same)

lemma dress_loop_Cons:
  "dress_loop ptr m (x # xs) logged =
     (if is_dressed m x
      then let r = dress_loop ptr m xs (insert x logged)
           in (dress_calls x @ fst r,
               (if x \<notin> logged then [dressed_line (ptr x) (rd32 m x kTypeMaskOff)] else []) @ fst (snd r), snd (snd r))
      else dress_loop ptr m xs logged)"
  by (auto simp: is_dressed_def Let_def case_prod_beta insert_absorb)

declare dress_loop.simps(2) [simp del]

lemma dress_loop_calls: "fst (dress_loop ptr m xs logged) = concat (map dress_calls (filter (is_dressed m) xs))"
  by (induction xs arbitrary: logged) (simp_all add: dress_loop_Cons Let_def)

lemma apply_concat:
  "apply_calls (concat (map dress_calls xs)) h y n =
     (if y \<in> set xs \<and> n \<in> set kLifxArmorMeshes then n \<notin> set full_plate else h y n)"
  by (induction xs arbitrary: h) (auto simp: apply_append apply_dress apply_calls_def [of "[]"])

text \<open>What the log keeps: the objects dressed, each reported when it was not known.\<close>

lemma dress_loop_logged: "snd (snd (dress_loop ptr m xs logged)) = logged \<union> set (filter (is_dressed m) xs)"
  by (induction xs arbitrary: logged) (auto simp: dress_loop_Cons Let_def)

lemma dress_loop_silent: "set (filter (is_dressed m) xs) \<subseteq> logged \<Longrightarrow> fst (snd (dress_loop ptr m xs logged)) = []"
  by (induction xs arbitrary: logged) (auto simp: dress_loop_Cons Let_def insert_absorb split: if_splits)


text \<open>An NPC, a real player and an NPC whose shape is not ready.\<close>

definition demo_objects :: mem where
  "demo_objects x = (if x \<in> {0x11B2, 0x31B2} then 1 else if x \<in> {0x1011, 0x2011} then 4 else 0)"


section \<open>The life of the library\<close>

definition npc_slot :: "u64 \<Rightarrow> u64" where "npc_slot base = base + CLIENT_NPCDEC_VTABLE + kUnpackSlot * 8"
definition animal_slot :: "u64 \<Rightarrow> u64" where "animal_slot base = base + CLIENT_ANIMAL_VTABLE + kUnpackSlot * 8"

lemmas slot_defs = npc_slot_def animal_slot_def CLIENT_NPCDEC_VTABLE_def CLIENT_ANIMAL_VTABLE_def kUnpackSlot_def

lemma slots_apart: "outside (npc_slot base) 8 (animal_slot base) 8" "outside (animal_slot base) 8 (npc_slot base) 8"
proof -
  show "outside (npc_slot base) 8 (animal_slot base) 8" by (rule outside_above) (simp_all add: slot_defs)
  show "outside (animal_slot base) 8 (npc_slot base) 8" by (rule outside_before) (simp_all add: slot_defs)
qed

lemma read_slot: "read_field (write_field m a 0 v) a 0 = (v :: u64)"
  by (rule read_write_field [where n = 8]) simp_all

lemma read_other_slot: "outside a 8 b 8 \<Longrightarrow> read_field (write_field m b 0 (v :: u64)) a 0 = (read_field m a 0 :: u64)"
  by (rule read_write_other) simp

lemma console_init_patches:
  assumes "OnConsoleInit pid True True base h1 h2 m p = (calls, m1, p1)"
    and "read_field m (animal_slot base) 0 = base + CLIENT_ANIMAL_UNPACK_FN"
  shows "m1 = write_field (write_field m (npc_slot base) 0 h1) (animal_slot base) 0 h2"
    and "npc_unpack p1 = (read_field m (npc_slot base) 0, npc_slot base)"
  using assms read_other_slot [OF slots_apart(2) [of base], of m h1]
  by (auto simp: OnConsoleInit_def ClientInstallVtablePatch_def ClientInstallAnimalVtablePatch_def checked_patch_def Let_def
      npc_slot_def [symmetric] animal_slot_def [symmetric])

text \<open>C39: Unloading the library takes all of its detours back and restores the table of the NPCs, but not that of the
  animals: its slot keeps the address of a function of the library, which is gone.\<close>

theorem client_unload_leaves_animal_slot:
  fixes orig :: u64
  assumes "documented_detours D" "\<not> pending D d" "active D d = {}" "Client_AttachHooks D d = (True, d1)"
    and "OnConsoleInit pid True True base h1 h2 m p = (calls, m1, p1)"
    and "read_field m (npc_slot base) 0 = orig" "orig \<noteq> 0" "npc_slot base \<noteq> 0"
    and "read_field m (animal_slot base) 0 = base + CLIENT_ANIMAL_UNPACK_FN"
    and "Client_DetachHooks D True m1 p1 d1 = (True, d2, m2, p2)"
  shows "active D d1 = set client_attached \<and> active D d2 = {} \<and>
     read_field m2 (npc_slot base) 0 = orig \<and> read_field m2 (animal_slot base) 0 = h2"
proof -
  let ?b = "TransactionBegin D d"
  note b = begin_idle [OF assms(1,2)]
  note at = attach_all [OF assms(1) b(1), of client_attached]
  have "TransactionCommit D (fold (DetourAttach D) client_attached ?b) = (True, d1)"
    using assms(4) by (simp add: Client_AttachHooks_def)
  note c = commit_pending [OF assms(1) at [THEN conjunct1] this]
  have d1: "\<not> pending D d1" "active D d1 = set client_attached" using c at b assms(3) by (simp_all add: fold_attach)
  let ?b1 = "TransactionBegin D d1"
  note b1 = begin_idle [OF assms(1) d1(1)]
  note dt = detach_all [OF assms(1) b1(1), of client_detached]
  note m1 = console_init_patches [OF assms(5,9)]
  obtain r d3 where t: "TransactionCommit D (fold (DetourDetach D) client_detached ?b1) = (r, d3)" by fastforce
  have rm: "remove_patch True m1 (npc_unpack p1) = (write_field m1 (npc_slot base) 0 orig, orig, 0)"
    using assms(6-8) m1(2) by (simp add: remove_patch_def)
  have c2: "TransactionCommit D (fold (DetourDetach D) client_detached ?b1) = (True, d2)"
    and m2: "m2 = write_field m1 (npc_slot base) 0 orig"
    using assms(10) rm t by (auto simp: Client_DetachHooks_def ClientRemoveVtablePatch_def)
  have "active D d2 = set client_attached - set client_detached"
    using commit_pending [OF assms(1) dt [THEN conjunct1] c2] dt b1 d1(2) by (simp add: fold_detach)
  then have "active D d2 = {}" by (simp add: client_attached_def client_detached_def)
  then show ?thesis
    using d1(2) by (simp add: m2 m1(1) read_slot read_other_slot [OF slots_apart(2)])
qed

text \<open>No function of the client is hooked twice.\<close>

lemma client_hooks_distinct: "distinct (map client_rva client_attached) \<and> None \<notin> set (map client_rva client_attached)"
  by (simp add: client_attached_def)

definition demo_tables :: mem where
  "demo_tables = write_field (write_field (\<lambda>_. 0) (npc_slot 0) 0 (0x46EF10 :: u64)) (animal_slot 0) 0 CLIENT_ANIMAL_UNPACK_FN"

theorem client_unload_leaves_animal_slot_witness:
  "\<exists>calls m1 p1 d1 d2 m2 p2.
     OnConsoleInit 1 True True 0 0x10 0x20 demo_tables \<lparr>npc_unpack = (0, 0), animal_unpack = (0, 0)\<rparr> = (calls, m1, p1) \<and>
     Client_AttachHooks plain_detours (False, [], {}) = (True, d1) \<and>
     Client_DetachHooks plain_detours True m1 p1 d1 = (True, d2, m2, p2) \<and>
     active plain_detours d2 = {} \<and> read_field m2 (animal_slot 0) 0 = (0x20 :: u64)"
proof -
  obtain calls m1 p1 where i:
    "OnConsoleInit 1 True True 0 0x10 0x20 demo_tables \<lparr>npc_unpack = (0, 0), animal_unpack = (0, 0)\<rparr> = (calls, m1, p1)"
    by (meson prod_cases3)
  have b: "TransactionBegin plain_detours (False, [], s) = (True, [], s)"
    "TransactionCommit plain_detours (True, ops, s) = (True, (False, [], fold apply_op ops s))" for ops s
    by (simp_all add: plain_detours_def)
  have det: "fold (DetourDetach plain_detours) hs (True, ops, s) = (True, ops @ map Detach_Op hs, s)" for hs ops s
    by (induction hs arbitrary: ops) (simp_all add: plain_detours_def)
  have a: "Client_AttachHooks plain_detours (False, [], {}) = (True, (False, [], set client_attached))"
    by (simp add: Client_AttachHooks_def b plain_attach fold_attach)
  obtain m2 p2 d2 where r: "Client_DetachHooks plain_detours True m1 p1 (False, [], set client_attached) = (True, d2, m2, p2)"
    by (cases "ClientRemoveVtablePatch True m1 p1") (simp add: Client_DetachHooks_def b det)
  have s: "\<not> pending plain_detours (False, [], {})" "active plain_detours (False, [], {}) = {}" by (simp_all add: plain_detours_def)
  have f: "read_field demo_tables (npc_slot 0) 0 = (0x46EF10 :: u64)"
    "read_field demo_tables (animal_slot 0) 0 = 0 + CLIENT_ANIMAL_UNPACK_FN"
    by (simp_all add: demo_tables_def read_slot read_other_slot [OF slots_apart(1)])
  have n: "npc_slot 0 \<noteq> 0" "(0x46EF10 :: u64) \<noteq> 0" by (simp_all add: slot_defs)
  note client_unload_leaves_animal_slot [OF plain_documented s a i f(1) n(2,1) f(2) r]
  then show ?thesis using i a r by (intro exI conjI) auto
qed

end
