(* ===== verification/Client_Streams.thy ===== *)
theory Client_Streams
  imports Lfxe_Filestream Client_Hooks
begin

text \<open>
  The client's detours on the engine's file stream (\<open>source/client/hook_filestream.cpp\<close>). They share the registry of
  \<open>source/core/crypto/lfxe_filestream.cpp\<close> with the server's library; the first packed file is reported through the
  engine's original printing function, which is called only when its address is known.
\<close>

section \<open>The detours\<close>

definition kClientAccessRead :: u32 where "kClientAccessRead = 0"

definition decrypt_line :: string where
  "decrypt_line = ''[LiFx-client] LFXE decryption active (first encrypted asset served)'' @ [CHR 0x0A]"

definition Client_announceOnce :: "bool \<Rightarrow> fs_state \<Rightarrow> client_call list \<times> fs_state" where
  "Client_announceOnce printf_known s =
     (if announced s \<or> \<not> fs_consume_first_decrypt_flag s then ([], s)
      else (if printf_known then [Engine_Line decrypt_line] else [], s\<lparr>announced := True\<rparr>))"

definition Client_OnOpen ::
  "bool \<Rightarrow> 'e stream_ops \<Rightarrow> (addr \<Rightarrow> u64 \<Rightarrow> u32 \<Rightarrow> 'e \<Rightarrow> bool \<times> 'e) \<Rightarrow> (u16 \<Rightarrow> bytes option) \<Rightarrow>
   addr \<Rightarrow> u64 \<Rightarrow> u32 \<Rightarrow> fs_state \<times> 'e \<Rightarrow> bool \<times> client_call list \<times> fs_state \<times> 'e" where
  "Client_OnOpen printf_known ops engine_open keys self path accessMode se =
     (let (s, e) = se;
          (ok, e) = engine_open self path accessMode e
      in if \<not> ok \<or> accessMode \<noteq> kClientAccessRead then (ok, [], fs_unregister self s, e)
         else let (_, s, e) = fs_register_if_encrypted ops keys self s e;
                  (lines, s) = Client_announceOnce printf_known s
              in (ok, lines, s, e))"

definition Client_OnRead ::
  "'e stream_ops \<Rightarrow> addr \<Rightarrow> nat \<Rightarrow> bool \<Rightarrow> fs_state \<times> 'e \<Rightarrow> bool \<times> bytes \<times> fs_state \<times> 'e" where
  "Client_OnRead ops self sz dst se =
     (let (s, e) = se
      in case fs_try_read self sz dst s of
           Some (r, bs, s) \<Rightarrow> (r, bs, s, e)
         | None \<Rightarrow> (let (r, bs, e) = op_read ops self sz e in (r, bs, s, e)))"

definition Client_OnSetPosition :: "'e stream_ops \<Rightarrow> addr \<Rightarrow> nat \<Rightarrow> fs_state \<times> 'e \<Rightarrow> bool \<times> fs_state \<times> 'e" where
  "Client_OnSetPosition ops self p se =
     (let (s, e) = se
      in case fs_try_set_position self p s of
           Some (r, s) \<Rightarrow> (r, s, e)
         | None \<Rightarrow> (let (r, e) = op_set_pos ops self p e in (r, s, e)))"

definition Client_OnGetPosition :: "(addr \<Rightarrow> 'e \<Rightarrow> nat) \<Rightarrow> addr \<Rightarrow> fs_state \<times> 'e \<Rightarrow> nat" where
  "Client_OnGetPosition engine_pos self se =
     (case fs_try_get_position self (fst se) of Some p \<Rightarrow> p | None \<Rightarrow> engine_pos self (snd se))"

definition Client_OnGetStreamSize :: "'e stream_ops \<Rightarrow> addr \<Rightarrow> fs_state \<times> 'e \<Rightarrow> nat" where
  "Client_OnGetStreamSize ops self se =
     (case fs_try_get_size self (fst se) of Some n \<Rightarrow> n | None \<Rightarrow> op_get_size ops self (snd se))"

definition Client_OnDtor :: "(addr \<Rightarrow> u32 \<Rightarrow> 'e \<Rightarrow> 'e) \<Rightarrow> addr \<Rightarrow> u32 \<Rightarrow> fs_state \<times> 'e \<Rightarrow> fs_state \<times> 'e" where
  "Client_OnDtor engine_dtor self flags se = (let (s, e) = se in (fs_unregister self s, engine_dtor self flags e))"

section \<open>Runs\<close>

datatype stream_call =
    Call_Open addr u64 u32
  | Call_Read addr nat bool
  | Call_Seek addr nat
  | Call_End addr u32

fun client_stream_step ::
  "bool \<Rightarrow> 'e stream_ops \<Rightarrow> (addr \<Rightarrow> u64 \<Rightarrow> u32 \<Rightarrow> 'e \<Rightarrow> bool \<times> 'e) \<Rightarrow> (addr \<Rightarrow> u32 \<Rightarrow> 'e \<Rightarrow> 'e) \<Rightarrow>
   (u16 \<Rightarrow> bytes option) \<Rightarrow> stream_call \<Rightarrow> fs_state \<times> 'e \<Rightarrow> client_call list \<times> fs_state \<times> 'e" where
  "client_stream_step known ops opn dtor keys (Call_Open self path mode) se =
     snd (Client_OnOpen known ops opn keys self path mode se)"
| "client_stream_step known ops opn dtor keys (Call_Read self n dst) se = ([], snd (snd (Client_OnRead ops self n dst se)))"
| "client_stream_step known ops opn dtor keys (Call_Seek self p) se = ([], snd (Client_OnSetPosition ops self p se))"
| "client_stream_step known ops opn dtor keys (Call_End self flags) se = ([], Client_OnDtor dtor self flags se)"

text \<open>The lines printed by a sequence of calls.\<close>

fun client_stream_run ::
  "bool \<Rightarrow> 'e stream_ops \<Rightarrow> (addr \<Rightarrow> u64 \<Rightarrow> u32 \<Rightarrow> 'e \<Rightarrow> bool \<times> 'e) \<Rightarrow> (addr \<Rightarrow> u32 \<Rightarrow> 'e \<Rightarrow> 'e) \<Rightarrow>
   (u16 \<Rightarrow> bytes option) \<Rightarrow> stream_call list \<Rightarrow> fs_state \<times> 'e \<Rightarrow> client_call list \<times> fs_state \<times> 'e" where
  "client_stream_run known ops opn dtor keys [] se = ([], se)"
| "client_stream_run known ops opn dtor keys (c # cs) se =
     (let (lines, se) = client_stream_step known ops opn dtor keys c se;
          (lines', se) = client_stream_run known ops opn dtor keys cs se
      in (lines @ lines', se))"

section \<open>Laws\<close>

text \<open>The client's detours are the server's, except for the line.\<close>

lemma client_reads_like_server:
  "Client_OnRead ops = on_read ops" "Client_OnSetPosition ops = on_set_position ops"
  "Client_OnGetPosition engine_pos = on_get_position engine_pos"
  "Client_OnGetStreamSize ops = on_get_stream_size ops"
  by (simp_all add: fun_eq_iff Client_OnRead_def on_read_def Client_OnSetPosition_def on_set_position_def
      Client_OnGetPosition_def on_get_position_def Client_OnGetStreamSize_def on_get_stream_size_def)

lemma client_opens_like_server:
  "(case Client_OnOpen known ops opn keys self path mode (s, e) of (ok, _, s', e') \<Rightarrow> (ok, s', e')) =
   on_open ops opn keys self path mode s e"
  by (simp add: Client_OnOpen_def on_open_def Client_announceOnce_def announceOnce_def kClientAccessRead_def Let_def
      split: prod.splits)

interpretation client_file: byte_file "served_view self" "\<lambda>n. Client_OnRead ops self n True"
    "Client_OnSetPosition ops self" for self ops
  unfolding client_reads_like_server by unfold_locales

text \<open>The flags of the registry: what opens and the other calls do to them.\<close>

lemma register_flags:
  "fs_register_if_encrypted ops keys self s e = (r, s', e') \<Longrightarrow>
     announced s' = announced s \<and> (gFirstDecrypt s' \<longleftrightarrow> gFirstDecrypt s \<or> r)"
  by (auto simp: fs_register_if_encrypted_def fs_unregister_def setStatus_def Let_def
      split: if_splits prod.splits decrypt_result.splits)

lemma read_flags: "Client_OnRead ops self n dst (s, e) = (r, bs, s', e') \<Longrightarrow>
    announced s' = announced s \<and> gFirstDecrypt s' = gFirstDecrypt s"
  by (auto simp: Client_OnRead_def fs_try_read_def setStatus_def Let_def split: option.splits prod.splits)

lemma seek_flags: "Client_OnSetPosition ops self p (s, e) = (r, s', e') \<Longrightarrow>
    announced s' = announced s \<and> gFirstDecrypt s' = gFirstDecrypt s"
  by (auto simp: Client_OnSetPosition_def fs_try_set_position_def Let_def split: option.splits prod.splits if_splits)

text \<open>One call: a line is printed exactly when the first decryption has just become known.\<close>

definition reported :: "fs_state \<Rightarrow> bool" where
  "reported s \<longleftrightarrow> announced s = gFirstDecrypt s"

lemma open_reports:
  assumes "Client_OnOpen known ops opn keys self path mode (s, e) = (ok, lines, s', e')" "reported s"
  shows "reported s' \<and> (announced s \<longrightarrow> announced s') \<and>
    lines = (if known \<and> announced s' \<and> \<not> announced s then [Engine_Line decrypt_line] else [])"
proof -
  obtain o1 e1 where o: "opn self path mode e = (o1, e1)" by fastforce
  obtain b s1 e2 where g: "fs_register_if_encrypted ops keys self s e1 = (b, s1, e2)" by (metis prod_cases3)
  show ?thesis
    using assms register_flags [OF g]
    by (auto simp: Client_OnOpen_def o g Let_def Client_announceOnce_def fs_consume_first_decrypt_flag_def reported_def
        fs_unregister_def split: if_splits)
qed

lemma step_reports:
  assumes "client_stream_step known ops opn dtor keys c (s, e) = (lines, s', e')" "reported s"
  shows "reported s' \<and> (announced s \<longrightarrow> announced s') \<and>
    lines = (if known \<and> announced s' \<and> \<not> announced s then [Engine_Line decrypt_line] else [])"
proof (cases c)
  case (Call_Open self path mode)
  obtain ok where "Client_OnOpen known ops opn keys self path mode (s, e) = (ok, lines, s', e')"
    using assms(1) unfolding Call_Open by (cases "Client_OnOpen known ops opn keys self path mode (s, e)") auto
  then show ?thesis using assms(2) by (rule open_reports)
next
  case (Call_Read self n dst)
  obtain r bs where "Client_OnRead ops self n dst (s, e) = (r, bs, s', e')" "lines = []"
    using assms(1) unfolding Call_Read by (cases "Client_OnRead ops self n dst (s, e)") auto
  then show ?thesis using read_flags assms(2) by (fastforce simp: reported_def)
next
  case (Call_Seek self p)
  obtain r where "Client_OnSetPosition ops self p (s, e) = (r, s', e')" "lines = []"
    using assms(1) unfolding Call_Seek by (cases "Client_OnSetPosition ops self p (s, e)") auto
  then show ?thesis using seek_flags assms(2) by (fastforce simp: reported_def)
next
  case (Call_End self flags)
  then show ?thesis using assms by (auto simp: Client_OnDtor_def fs_unregister_def reported_def)
qed

lemma run_reports:
  "client_stream_run known ops opn dtor keys cs (s, e) = (lines, s', e') \<Longrightarrow> reported s \<Longrightarrow>
     reported s' \<and> (announced s \<longrightarrow> announced s') \<and>
     lines = (if known \<and> announced s' \<and> \<not> announced s then [Engine_Line decrypt_line] else [])"
proof (induction cs arbitrary: s e lines)
  case Nil
  then show ?case by simp
next
  case (Cons c cs)
  obtain l1 s1 e1 where c: "client_stream_step known ops opn dtor keys c (s, e) = (l1, s1, e1)" by (metis prod_cases3)
  obtain l2 where r: "client_stream_run known ops opn dtor keys cs (s1, e1) = (l2, s', e')" "lines = l1 @ l2"
    using Cons.prems(1) c by (auto split: prod.splits)
  show ?case using step_reports [OF c Cons.prems(2)] Cons.IH [OF r(1)] r(2) by auto
qed

text \<open>Over every sequence of calls, over any engine, the decryption is reported once, with the first packed file that
  is served, and never without one.\<close>

theorem decryption_is_reported_once:
  assumes "client_stream_run known ops opn dtor keys cs (s, e) = (lines, s', e')" "\<not> announced s" "\<not> gFirstDecrypt s"
  shows "lines = (if known \<and> gFirstDecrypt s' then [Engine_Line decrypt_line] else [])"
  using run_reports [OF assms(1)] assms(2,3) by (simp add: reported_def)

end
