(* ===== verification/Effect_Probes.thy ===== *)
theory Effect_Probes
  imports Snapshots Float_Text
begin

text \<open>
  The commands of \<open>source/server/api/lifx_effects.cpp\<close> that look for things in memory: the classified scan of a
  character, the search for an effect's number through one or two pointers, the dumps of bytes, the search for a
  position, and the walk over a character's list of effects. A command answers the lines it prints, each as the
  values in it. Memory is total: reads of unmapped addresses, which these commands do not guard against, are not
  modelled.
\<close>

section \<open>Lines\<close>

datatype arena_tag = Ptr_Self | Ptr_Arena | Small_Int

datatype probe_line =
    Scan_Line u64 u64 arena_tag
  | Hit_Inline u64 u32
  | Hit_L1 u64 u64 u64 u32
  | Hit_L2 u64 u64 u64 u64 u64 u32
  | Hits_Done u32
  | Byte_Row u32 bytes
  | Pos_Line u64 f32 f32 f32
  | Pos_Truncated
  | Pos_Done nat
  | Effects_Header u64 u32 u64
  | Effects_Empty
  | Effects_End nat
  | Node_Line nat u64
  | Node_Word nat u32
  | Walk_Capped

text \<open>The positions of a loop that steps by \<open>step\<close> while \<open>width\<close> bytes are left before the end.\<close>

function offsets :: "nat \<Rightarrow> nat \<Rightarrow> nat \<Rightarrow> nat \<Rightarrow> nat list" where
  "offsets step width off stop =
     (if step = 0 \<or> stop < off + width then [] else off # offsets step width (off + step) stop)"
  by pat_completeness auto
termination
  by (relation "measure (\<lambda>(step, width, off, stop). stop + 1 - off)") auto

declare offsets.simps [simp del]

definition optional_u32 :: "string list \<Rightarrow> nat \<Rightarrow> u32 \<Rightarrow> u32" where
  "optional_u32 args i preset = (if i < length args then strtoul0 (args ! i) else preset)"

section \<open>Scanning a character\<close>

definition kArenaSlack :: u64 where "kArenaSlack = 0x1000000"

definition outside_arena :: "u64 \<Rightarrow> u64 \<Rightarrow> bool" where
  "outside_arena home q \<longleftrightarrow> q < home - kArenaSlack \<or> home + kArenaSlack < q"

definition classify :: "u64 \<Rightarrow> u64 \<Rightarrow> u64 \<Rightarrow> arena_tag option" where
  "classify ciAddr self q =
     (if q = self then Some Ptr_Self
      else if ciAddr - kArenaSlack \<le> q \<and> q \<le> ciAddr + kArenaSlack then Some Ptr_Arena
      else if drop_bit 32 q = 0 \<and> q AND 0xFFFFFFFF \<le> 256 then Some Small_Int
      else None)"

definition scan_line :: "mem \<Rightarrow> u64 \<Rightarrow> nat \<Rightarrow> probe_line list" where
  "scan_line m ci off =
     (let off = (word_of_nat off :: u64); q = (read_field m ci off :: u64)
      in if q = 0 then []
         else case classify ci (ci + off) q of None \<Rightarrow> [] | Some t \<Rightarrow> [Scan_Line off q t])"

definition DumpCharScan :: "(mem \<Rightarrow> u32 \<Rightarrow> u64) \<Rightarrow> string list \<Rightarrow> mem \<Rightarrow> probe_line list option" where
  "DumpCharScan getByID args m =
     (let charID = ParseCharId args 1
      in if charID = 0 then None
         else
           let s = optional_u32 args 2 0x1000; e = optional_u32 args 3 0x2200; ci = getByID m charID
           in if ci = 0 then None
              else Some (concat (map (scan_line m ci) (offsets 8 8 (unat s) (unat e)))))"

section \<open>Searching for an effect\<close>

definition word_hits :: "mem \<Rightarrow> u64 \<Rightarrow> u32 \<Rightarrow> (u64 \<Rightarrow> u32 \<Rightarrow> probe_line) \<Rightarrow> nat list \<Rightarrow> probe_line list" where
  "word_hits m p effectID line offs =
     concat (map (\<lambda>off. let v = (read_field m p (word_of_nat off) :: u32)
                        in if v = effectID then [line (word_of_nat off) v] else []) offs)"

definition kProbeBytesL1 :: nat where "kProbeBytesL1 = 512"
definition kProbeBytesL2 :: nat where "kProbeBytesL2 = 64"

text \<open>The block behind a pointer of the arena, word by word.\<close>

definition level1_hits :: "mem \<Rightarrow> u64 \<Rightarrow> u32 \<Rightarrow> nat \<Rightarrow> probe_line list" where
  "level1_hits m home effectID off =
     (let q = (read_field m home (word_of_nat off) :: u64)
      in if q = 0 \<or> outside_arena home q then []
         else word_hits m q effectID (Hit_L1 (word_of_nat off) q) (offsets 4 4 0 kProbeBytesL1))"

text \<open>The pointers of the arena in that block, each followed once more.\<close>

definition level2_hits :: "mem \<Rightarrow> u64 \<Rightarrow> u32 \<Rightarrow> nat \<Rightarrow> probe_line list" where
  "level2_hits m home effectID off =
     (let q = (read_field m home (word_of_nat off) :: u64)
      in if q = 0 \<or> outside_arena home q then []
         else concat (map (\<lambda>probe.
                let q2 = (read_field m q (word_of_nat probe) :: u64)
                in if q2 = 0 \<or> outside_arena home q2 then []
                   else word_hits m q2 effectID (Hit_L2 (word_of_nat off) q (word_of_nat probe) q2) (offsets 4 4 0 kProbeBytesL2))
              (offsets 8 8 0 kProbeBytesL1)))"

definition with_count :: "probe_line list \<Rightarrow> probe_line list" where
  "with_count ls = ls @ [Hits_Done (word_of_nat (length ls))]"

text \<open>The inline part starts at 0.\<close>

definition FindEffect :: "(mem \<Rightarrow> u32 \<Rightarrow> u64) \<Rightarrow> string list \<Rightarrow> mem \<Rightarrow> probe_line list option" where
  "FindEffect getByID args m =
     (let charID = ParseCharId args 1
      in if charID = 0 \<or> length args < 3 then None
         else
           let effectID = strtoul0 (args ! 2); s = optional_u32 args 3 0; e = optional_u32 args 4 0x4000; ci = getByID m charID
           in if ci = 0 then None
              else Some (with_count
                (word_hits m ci effectID Hit_Inline (offsets 4 4 0 (unat e))
                 @ concat (map (\<lambda>off. level1_hits m ci effectID off @ level2_hits m ci effectID off)
                     (offsets 8 8 (unat s) (unat e))))))"

definition FindEffectOnPlayer :: "u64 \<Rightarrow> string list \<Rightarrow> mem \<Rightarrow> probe_line list option" where
  "FindEffectOnPlayer obj args m =
     (if obj = 0 then None
      else if length args < 3 then None
      else
        let effectID = strtoul0 (args ! 2); s = optional_u32 args 3 0; e = optional_u32 args 4 0x10000
        in Some (with_count
             (word_hits m obj effectID Hit_Inline (offsets 4 4 (unat s) (unat e))
              @ concat (map (level1_hits m obj effectID) (offsets 8 8 (unat s) (unat e))))))"

section \<open>Dumping bytes\<close>

text \<open>The counter of the rows has 32 bits.\<close>

partial_function (option) row_loop :: "mem \<Rightarrow> u64 \<Rightarrow> u32 \<Rightarrow> u32 \<Rightarrow> u32 \<Rightarrow> probe_line list option" where
  "row_loop m p off count i =
     (if \<not> i < count then Some []
      else Option.bind (row_loop m p off count (i + 16)) (\<lambda>ls. Some (Byte_Row (off + i) (mread m (p + ucast i) 16) # ls)))"

lemmas [code] = row_loop.simps

definition DumpAt :: "(mem \<Rightarrow> u32 \<Rightarrow> u64) \<Rightarrow> string list \<Rightarrow> mem \<Rightarrow> probe_line list option" where
  "DumpAt getByID args m =
     (let charID = ParseCharId args 1
      in if charID = 0 \<or> length args < 3 then Some []
         else
           let off = strtoul0 (args ! 2); count = optional_u32 args 3 128; ci = getByID m charID
           in if ci = 0 then Some [] else row_loop m (ci + ucast off) off count 0)"

text \<open>\<open>std::strtoull\<close> with base 0.\<close>

definition strtoull0 :: "string \<Rightarrow> u64" where
  "strtoull0 s =
     (let (neg, s) = strtoul_sign (dropWhile c_space s);
          (base, s) = strtoul_base s;
          v = foldl (\<lambda>a c. a * int base + int (digit_in_base c)) 0 (takeWhile (\<lambda>c. digit_in_base c < base) s)
      in if 0xFFFFFFFFFFFFFFFF < v then 0xFFFFFFFFFFFFFFFF else if neg then - word_of_int v else word_of_int v)"

definition DumpPtr :: "string list \<Rightarrow> mem \<Rightarrow> probe_line list option" where
  "DumpPtr args m =
     (if length args < 2 then Some []
      else row_loop m (strtoull0 (args ! 1)) 0 (optional_u32 args 2 128) 0)"

definition DumpAtPlayer :: "u64 \<Rightarrow> string list \<Rightarrow> mem \<Rightarrow> probe_line list option" where
  "DumpAtPlayer obj args m =
     (if obj = 0 then Some []
      else if length args < 3 then Some []
      else let off = strtoul0 (args ! 2); count = optional_u32 args 3 64
           in row_loop m (obj + ucast off) off count 0)"

section \<open>Searching for a position\<close>

fun fabs :: "f32 \<Rightarrow> f32" where
  "fabs (Fin k) = Fin \<bar>k\<bar>"
| "fabs NInf = PInf"
| "fabs x = x"

fun finite_f32 :: "f32 \<Rightarrow> bool" where
  "finite_f32 (Fin k) = True"
| "finite_f32 _ = False"

definition read_xyz :: "mem \<Rightarrow> u64 \<Rightarrow> nat \<Rightarrow> f32 \<times> f32 \<times> f32" where
  "read_xyz m base off =
     (let f = (\<lambda>d. f32_of_bits (read_field m base (word_of_nat (off + d))))
      in (f 0, f 4, f 8))"

definition near :: "f32 \<Rightarrow> f32 \<Rightarrow> bool" where
  "near x k \<longleftrightarrow> \<not> fless (f32_of_int 1) (fabs (fsub x k))"

text \<open>Not large, not all tiny, not all below one.\<close>

definition plausible :: "f32 \<times> f32 \<times> f32 \<Rightarrow> bool" where
  "plausible p \<longleftrightarrow>
     (case p of (x, y, z) \<Rightarrow>
        \<not> (fless (f32_of_int 100000) (fabs x) \<or> fless (f32_of_int 100000) (fabs y) \<or> fless (f32_of_int 100000) (fabs z)) \<and>
        \<not> (fless (fabs x) (f32_of_bits 0x3C23D70A) \<and> fless (fabs y) (f32_of_bits 0x3C23D70A) \<and> fless (fabs z) (f32_of_bits 0x3C23D70A)) \<and>
        \<not> (fless (fabs x) (f32_of_int 1) \<and> fless (fabs y) (f32_of_int 1) \<and> fless (fabs z) (f32_of_int 1)))"

definition all_finite :: "f32 \<times> f32 \<times> f32 \<Rightarrow> bool" where
  "all_finite p \<longleftrightarrow> (case p of (x, y, z) \<Rightarrow> finite_f32 x \<and> finite_f32 y \<and> finite_f32 z)"

definition pos_line :: "nat \<Rightarrow> f32 \<times> f32 \<times> f32 \<Rightarrow> probe_line" where
  "pos_line off p = (case p of (x, y, z) \<Rightarrow> Pos_Line (word_of_nat off) x y z)"

text \<open>With a position to look for, all matches; without, the first 64 plausible ones.\<close>

fun exact_loop :: "mem \<Rightarrow> u64 \<Rightarrow> f32 \<times> f32 \<times> f32 \<Rightarrow> nat list \<Rightarrow> nat \<Rightarrow> probe_line list" where
  "exact_loop m base k [] hits = [Pos_Done hits]"
| "exact_loop m base (kx, ky, kz) (off # offs) hits =
     (case read_xyz m base off of (x, y, z) \<Rightarrow>
        if \<not> all_finite (x, y, z) \<or> \<not> near x kx \<or> \<not> near y ky \<or> \<not> near z kz
        then exact_loop m base (kx, ky, kz) offs hits
        else pos_line off (x, y, z) # exact_loop m base (kx, ky, kz) offs (Suc hits))"

fun plausible_loop :: "mem \<Rightarrow> u64 \<Rightarrow> nat list \<Rightarrow> nat \<Rightarrow> probe_line list" where
  "plausible_loop m base [] hits = [Pos_Done hits]"
| "plausible_loop m base (off # offs) hits =
     (let p = read_xyz m base off
      in if \<not> all_finite p \<or> \<not> plausible p then plausible_loop m base offs hits
         else if 64 \<le> Suc hits then [pos_line off p, Pos_Truncated, Pos_Done (Suc hits)]
         else pos_line off p # plausible_loop m base offs (Suc hits))"

text \<open>\<open>captured\<close> is the player the control hook has seen, zero when there is none.\<close>

definition DumpPlayerPos :: "(mem \<Rightarrow> u32 \<Rightarrow> u64) \<Rightarrow> u64 \<Rightarrow> string list \<Rightarrow> mem \<Rightarrow> probe_line list option" where
  "DumpPlayerPos getByID captured args m =
     (let charID = ParseCharId args 1
      in if charID = 0 then None
         else
           let exact = 5 \<le> length args;
               player = (if captured \<noteq> 0 then captured else FindPlayerByScan getByID m charID)
           in if player = 0 then None
              else Some (if exact
                then exact_loop m player (fst (strtof (args ! 2)), fst (strtof (args ! 3)), fst (strtof (args ! 4)))
                       (offsets 4 12 0 0x10000) 0
                else plausible_loop m player (offsets 4 12 0 0x800) 0))"

definition FindPlayer :: "(mem \<Rightarrow> u32 \<Rightarrow> u64) \<Rightarrow> string list \<Rightarrow> mem \<Rightarrow> u64 option" where
  "FindPlayer getByID args m =
     (let charID = ParseCharId args 1 in if charID = 0 then None else Some (FindPlayerByScan getByID m charID))"

section \<open>The list of effects\<close>

definition kEffectContainerOffset :: u64 where "kEffectContainerOffset = 0x10E0"
definition kCountFieldOffset :: u64 where "kCountFieldOffset = 0x148"
definition kSentinelOffset :: u64 where "kSentinelOffset = 0x150"
definition kMaxNodesToWalk :: nat where "kMaxNodesToWalk = 32"
definition kPayloadBytesToPrint :: nat where "kPayloadBytesToPrint = 64"

definition node_lines :: "mem \<Rightarrow> nat \<Rightarrow> u64 \<Rightarrow> probe_line list" where
  "node_lines m i node =
     Node_Line i node # map (\<lambda>off. Node_Word off (read_field m node (word_of_nat off))) (offsets 4 4 0 (0x10 + kPayloadBytesToPrint))"

fun walk_effects :: "mem \<Rightarrow> u64 \<Rightarrow> u64 \<Rightarrow> nat \<Rightarrow> nat \<Rightarrow> probe_line list" where
  "walk_effects m sentinel node i 0 = [Walk_Capped]"
| "walk_effects m sentinel node i (Suc k) =
     (if node = 0 \<or> node = sentinel then [Effects_End i]
      else node_lines m i node @ walk_effects m sentinel (read_field m node 0) (Suc i) k)"

definition DumpEffects :: "(mem \<Rightarrow> u32 \<Rightarrow> u64) \<Rightarrow> string list \<Rightarrow> mem \<Rightarrow> probe_line list option" where
  "DumpEffects getByID args m =
     (let charID = ParseCharId args 1
      in if charID = 0 then None
         else
           let ci = getByID m charID
           in if ci = 0 then None
              else
                let container = ci + kEffectContainerOffset;
                    count = (read_field m container kCountFieldOffset :: u32);
                    sentinel = container + kSentinelOffset;
                    node = (read_field m sentinel 0 :: u64)
                in Some (Effects_Header container count node #
                     (if count = 0 \<or> node = sentinel then [Effects_Empty]
                      else walk_effects m sentinel node 0 kMaxNodesToWalk)))"

section \<open>The parser's hook\<close>

text \<open>The engine's parser of effects between two lines; \<open>orig\<close> is the parser, \<open>echo\<close> prints a line.\<close>

definition Effect_Parse_Hook :: "(string \<Rightarrow> 'w \<Rightarrow> 'w) \<Rightarrow> ('w \<Rightarrow> 'w) \<Rightarrow> 'w \<Rightarrow> 'w" where
  "Effect_Parse_Hook echo orig w = echo ''[lifx-effect] parser exit'' (orig (echo ''[lifx-effect] parser entry'' w))"

section \<open>Laws\<close>

lemma set_offsets: "0 < step \<Longrightarrow> x \<in> set (offsets step width off stop) \<longleftrightarrow> (\<exists>k. x = off + step * k) \<and> x + width \<le> stop"
proof (induction step width off stop rule: offsets.induct)
  case (1 step width off stop)
  show ?case
  proof (cases "stop < off + width")
    case True
    then show ?thesis by (subst offsets.simps) auto
  next
    case False
    have step: "(\<exists>k. x = off + step * k) \<longleftrightarrow> x = off \<or> (\<exists>k. x = off + step + step * k)"
    proof
      assume "\<exists>k. x = off + step * k"
      then obtain k where "x = off + step * k" by blast
      then show "x = off \<or> (\<exists>k. x = off + step + step * k)" by (cases k) auto
    next
      assume "x = off \<or> (\<exists>k. x = off + step + step * k)"
      then show "\<exists>k. x = off + step * k" by (metis add.assoc add_0_right mult_0_right mult_Suc_right)
    qed
    have "x \<in> set (offsets step width off stop) \<longleftrightarrow> x = off \<or> x \<in> set (offsets step width (off + step) stop)"
      using False "1.prems" by (subst offsets.simps) simp
    then show ?thesis using "1.IH" [OF _ "1.prems"] False "1.prems" step by auto
  qed
qed

text \<open>What a search prints, said of the memory.\<close>

definition stepped :: "nat \<Rightarrow> nat \<Rightarrow> nat \<Rightarrow> nat \<Rightarrow> bool" where
  "stepped step off stop x \<longleftrightarrow> (\<exists>k. x = off + step * k) \<and> x + step \<le> stop"

lemma in_offsets: "0 < step \<Longrightarrow> x \<in> set (offsets step step off stop) \<longleftrightarrow> stepped step off stop x"
  by (simp add: set_offsets stepped_def)

definition arena_pointer :: "mem \<Rightarrow> u64 \<Rightarrow> u64 \<Rightarrow> u64 \<Rightarrow> bool" where
  "arena_pointer m home at q \<longleftrightarrow> q = read_field m home at \<and> q \<noteq> 0 \<and> \<not> outside_arena home q"

lemma hit_inline_only:
  "Hit_Inline a v \<notin> set (level1_hits m home eid off)" "Hit_Inline a v \<notin> set (level2_hits m home eid off)"
  by (auto simp: level1_hits_def level2_hits_def word_hits_def Let_def split: if_splits)

lemma word_hits_set:
  "l \<in> set (word_hits m p eid line offs) \<longleftrightarrow>
     (\<exists>off \<in> set offs. (read_field m p (word_of_nat off) :: u32) = eid \<and> l = line (word_of_nat off) eid)"
  by (auto simp: word_hits_def Let_def split: if_splits)

lemma level1_hits_set:
  "Hit_L1 a q b v \<in> set (level1_hits m home eid off) \<longleftrightarrow>
     a = word_of_nat off \<and> arena_pointer m home (word_of_nat off) q \<and> (\<exists>x. b = word_of_nat x \<and> stepped 4 0 512 x) \<and> v = eid \<and>
     read_field m q b = v"
  by (auto simp: level1_hits_def word_hits_set in_offsets arena_pointer_def kProbeBytesL1_def Let_def Bex_def)

text \<open>The search on a player prints exactly the words of the range that hold the number, exactly the words of the 512
  bytes behind the pointers of the arena in the range that hold it, and their count.\<close>

theorem player_search_is_exact:
  assumes "obj \<noteq> 0" "3 \<le> length args" "s = unat (optional_u32 args 3 0)" "e = unat (optional_u32 args 4 0x10000)"
    and "FindEffectOnPlayer obj args m = Some ls"
  shows "(Hit_Inline a v \<in> set ls \<longleftrightarrow>
       (\<exists>x. a = word_of_nat x \<and> stepped 4 s e x) \<and> v = strtoul0 (args ! 2) \<and> read_field m obj a = v) \<and>
     (Hit_L1 a q b v \<in> set ls \<longleftrightarrow>
       (\<exists>x. a = word_of_nat x \<and> stepped 8 s e x) \<and> arena_pointer m obj a q \<and>
       (\<exists>x. b = word_of_nat x \<and> stepped 4 0 512 x) \<and> v = strtoul0 (args ! 2) \<and> read_field m q b = v) \<and>
     (\<exists>hits. ls = hits @ [Hits_Done (word_of_nat (length hits))])"
proof -
  let ?id = "strtoul0 (args ! 2)"
  let ?inline = "word_hits m obj ?id Hit_Inline (offsets 4 4 s e)"
  let ?l1 = "concat (map (level1_hits m obj ?id) (offsets 8 8 s e))"
  have ls: "ls = with_count (?inline @ ?l1)"
    using assms by (simp add: FindEffectOnPlayer_def Let_def)
  have "Hit_Inline a v \<in> set ls \<longleftrightarrow> Hit_Inline a v \<in> set ?inline"
    using hit_inline_only by (auto simp: ls with_count_def)
  moreover have "Hit_Inline a v \<in> set ?inline \<longleftrightarrow>
      (\<exists>x. a = word_of_nat x \<and> stepped 4 s e x) \<and> v = ?id \<and> read_field m obj a = v"
    by (auto simp: word_hits_set in_offsets)
  moreover have "Hit_L1 a q b v \<in> set ls \<longleftrightarrow> (\<exists>off \<in> set (offsets 8 8 s e). Hit_L1 a q b v \<in> set (level1_hits m obj ?id off))"
    by (auto simp: ls with_count_def word_hits_set)
  moreover have "(\<exists>off \<in> set (offsets 8 8 s e). Hit_L1 a q b v \<in> set (level1_hits m obj ?id off)) \<longleftrightarrow>
      (\<exists>x. a = word_of_nat x \<and> stepped 8 s e x) \<and> arena_pointer m obj a q \<and>
      (\<exists>x. b = word_of_nat x \<and> stepped 4 0 512 x) \<and> v = ?id \<and> read_field m q b = v"
    by (auto simp: level1_hits_set Bex_def in_offsets)
  moreover have "\<exists>hits. ls = hits @ [Hits_Done (word_of_nat (length hits))]" using ls with_count_def by blast
  ultimately show ?thesis by simp
qed

text \<open>The search on a character looks in front of its range as well.\<close>

lemma inline_search_ignores_start:
  assumes "ParseCharId args 1 \<noteq> 0" "3 \<le> length args" "getByID m (ParseCharId args 1) = ci" "ci \<noteq> 0"
    and "stepped 4 0 (unat (optional_u32 args 4 0x4000)) x" "read_field m ci (word_of_nat x) = strtoul0 (args ! 2)"
  shows "\<exists>ls. FindEffect getByID args m = Some ls \<and> Hit_Inline (word_of_nat x) (strtoul0 (args ! 2)) \<in> set ls"
proof -
  have "Hit_Inline (word_of_nat x) (strtoul0 (args ! 2)) \<in>
      set (word_hits m ci (strtoul0 (args ! 2)) Hit_Inline (offsets 4 4 0 (unat (optional_u32 args 4 0x4000))))"
    unfolding word_hits_set using assms(5,6) by (intro bexI [of _ x]) (simp_all add: in_offsets)
  then show ?thesis using assms(1-4) by (simp add: FindEffect_def Let_def with_count_def)
qed

section \<open>Dumps\<close>

text \<open>The rows of a dump.\<close>

definition rows :: "mem \<Rightarrow> u64 \<Rightarrow> u32 \<Rightarrow> nat \<Rightarrow> nat \<Rightarrow> probe_line list" where
  "rows m p off i count = map (\<lambda>j. Byte_Row (off + word_of_nat j) (mread m (p + word_of_nat j) 16)) (offsets 16 1 i count)"

lemma row_loop_rows:
  assumes "count \<le> 0xFFFFFFF0"
  shows "row_loop m p off count i = Some (rows m p off (unat i) (unat count))"
proof (induction "unat count - unat i" arbitrary: i rule: less_induct)
  case less
  show ?case
  proof (cases "i < count")
    case False
    then show ?thesis by (subst row_loop.simps, subst rows_def, subst offsets.simps) (simp add: word_less_nat_alt)
  next
    case True
    have le: "unat count \<le> 0xFFFFFFF0" using assms by (simp add: word_le_nat_alt)
    have lt: "unat i < unat count" using True by (simp add: word_less_nat_alt)
    have nxt: "unat (i + 16) = unat i + 16" using le lt by (simp add: unat_word_ariths)
    have IH: "row_loop m p off count (i + 16) = Some (rows m p off (unat (i + 16)) (unat count))"
      using less.hyps [of "i + 16"] nxt lt by simp
    have "rows m p off (unat i) (unat count) = Byte_Row (off + i) (mread m (p + ucast i) 16) # rows m p off (unat i + 16) (unat count)"
      using lt by (subst rows_def, subst offsets.simps) (simp add: rows_def)
    then show ?thesis using True IH nxt by (subst row_loop.simps) simp
  qed
qed

lemma row_loop_endless:
  assumes "row_loop m p off count i = Some ls" "16 dvd unat i"
  shows "count \<le> 0xFFFFFFF0"
proof -
  have "16 dvd unat i \<longrightarrow> count \<le> 0xFFFFFFF0"
  proof (rule row_loop.raw_induct [OF _ assms(1)])
    fix loop m p off count i ls
    assume IH: "\<And>m p off count i ls. loop m p off count i = Some ls \<Longrightarrow> 16 dvd unat i \<longrightarrow> count \<le> (0xFFFFFFF0 :: u32)"
      and b: "(if \<not> i < count then Some []
        else Option.bind (loop m p off count (i + 16)) (\<lambda>ls. Some (Byte_Row (off + i) (mread m (p + ucast i) 16) # ls))) = Some ls"
    show "16 dvd unat i \<longrightarrow> count \<le> 0xFFFFFFF0"
    proof
      assume d: "16 dvd unat i"
      show "count \<le> 0xFFFFFFF0"
      proof (cases "i < count")
        case False
        obtain q where q: "unat i = 16 * q" using d by (auto elim: dvdE)
        have "unat i < 2 ^ 32" using unsigned_less [of i, where ?'a = nat] by simp
        then have "unat i \<le> 0xFFFFFFF0" using q by simp
        then show ?thesis using False by (simp add: word_less_nat_alt word_le_nat_alt)
      next
        case True
        then obtain ls' where "loop m p off count (i + 16) = Some ls'" using b by (auto simp: bind_eq_Some_conv)
        then have "16 dvd unat (i + 16) \<longrightarrow> count \<le> 0xFFFFFFF0" by (rule IH)
        moreover have "16 dvd unat (i + 16)"
        proof -
          have "16 dvd (unat i + 16) mod 2 ^ 32" using d by (intro dvd_mod) simp_all
          then show ?thesis by (simp add: unat_word_ariths)
        qed
        ultimately show ?thesis by simp
      qed
    qed
  qed
  then show ?thesis using assms(2) by simp
qed

text \<open>C40: A dump of at most \<open>0xFFFFFFF0\<close> bytes ends and prints their rows; a larger one never ends, because the counter of
  the rows wraps around to 0 before it reaches the number.\<close>

theorem dump_ends_iff_short:
  assumes "obj \<noteq> 0" "3 \<le> length args"
  shows "DumpAtPlayer obj args m =
     (if optional_u32 args 3 64 \<le> 0xFFFFFFF0
      then Some (rows m (obj + ucast (strtoul0 (args ! 2))) (strtoul0 (args ! 2)) 0 (unat (optional_u32 args 3 64)))
      else None)"
proof -
  let ?c = "optional_u32 args 3 64" and ?o = "strtoul0 (args ! 2)"
  have "DumpAtPlayer obj args m = row_loop m (obj + ucast ?o) ?o ?c 0" using assms by (simp add: DumpAtPlayer_def Let_def)
  moreover have "row_loop m (obj + ucast ?o) ?o ?c 0 = Some (rows m (obj + ucast ?o) ?o 0 (unat ?c))" if "?c \<le> 0xFFFFFFF0"
    using row_loop_rows [OF that, of m "obj + ucast ?o" ?o 0] by simp
  moreover have "row_loop m (obj + ucast ?o) ?o ?c 0 = None" if "\<not> ?c \<le> 0xFFFFFFF0"
    using row_loop_endless [of m "obj + ucast ?o" ?o ?c 0] that by (cases "row_loop m (obj + ucast ?o) ?o ?c 0") auto
  ultimately show ?thesis by simp
qed

section \<open>The walk\<close>

fun effect_chain :: "mem \<Rightarrow> u64 \<Rightarrow> u64 \<Rightarrow> u64 list \<Rightarrow> bool" where
  "effect_chain m sentinel node [] \<longleftrightarrow> node = sentinel"
| "effect_chain m sentinel node (x # xs) \<longleftrightarrow>
     node = x \<and> x \<noteq> 0 \<and> x \<noteq> sentinel \<and> effect_chain m sentinel (read_field m x 0) xs"

fun chain_lines :: "mem \<Rightarrow> nat \<Rightarrow> u64 list \<Rightarrow> probe_line list" where
  "chain_lines m i [] = []"
| "chain_lines m i (x # xs) = node_lines m i x @ chain_lines m (Suc i) xs"

lemma walk_chain:
  "effect_chain m sentinel node xs \<Longrightarrow> length xs \<le> k \<Longrightarrow>
   walk_effects m sentinel node i k =
     chain_lines m i xs @ (if length xs < k then [Effects_End (i + length xs)] else [Walk_Capped])"
proof (induction xs arbitrary: node i k)
  case Nil
  then show ?case by (cases k) auto
next
  case (Cons x xs)
  then obtain k' where "k = Suc k'" by (cases k) auto
  then show ?case using Cons by auto
qed

text \<open>A list of effects is printed node by node, each once and in order, and then its end; a list of exactly 32 nodes is
  printed completely as well, but reported as cut.\<close>

theorem effects_are_listed:
  assumes "ParseCharId args 1 \<noteq> 0" "getByID m (ParseCharId args 1) = ci" "ci \<noteq> 0"
    and "count = read_field m (ci + 0x10E0) 0x148" "count \<noteq> (0 :: u32)"
    and "effect_chain m (ci + 0x10E0 + 0x150) (read_field m (ci + 0x10E0 + 0x150) 0) xs" "xs \<noteq> []" "length xs \<le> 32"
  shows "DumpEffects getByID args m =
     Some (Effects_Header (ci + 0x10E0) count (hd xs) # chain_lines m 0 xs @
       (if length xs < 32 then [Effects_End (length xs)] else [Walk_Capped]))"
proof -
  obtain x ys where "xs = x # ys" using assms(7) by (cases xs) auto
  then have x: "read_field m (ci + 0x10E0 + 0x150) 0 = hd xs" "hd xs \<noteq> ci + 0x10E0 + 0x150" using assms(6) by auto
  show ?thesis
    using assms(1-5) x walk_chain [OF assms(6,8), of 0]
    by (simp add: DumpEffects_def Let_def kEffectContainerOffset_def kCountFieldOffset_def kSentinelOffset_def kMaxNodesToWalk_def)
qed

section \<open>Concrete dumps\<close>

definition demo_effects :: mem where
  "demo_effects x =
     (if x = 0x11228 then 1 else if x = 0x11231 then 0x20 else if x = 0x2000 then 0x30 else if x = 0x2001 then 0x12
      else if x = 0x2002 then 1 else 0)"

theorem effects_are_listed_witness:
  "DumpEffects (\<lambda>_ _. 0x10000) [''dumpEffects'', ''7''] demo_effects =
     Some (Effects_Header 0x110E0 1 0x2000 # chain_lines demo_effects 0 [0x2000] @ [Effects_End 1])"
proof -
  have id: "ParseCharId [''dumpEffects'', ''7''] 1 \<noteq> 0" by code_simp
  have r: "read_field demo_effects (0x10000 + 0x10E0) 0x148 = (1 :: u32)"
    "read_field demo_effects (0x10000 + 0x10E0 + 0x150) 0 = (0x2000 :: u64)" "read_field demo_effects 0x2000 0 = (0x11230 :: u64)"
    by code_simp+
  have c: "effect_chain demo_effects (0x10000 + 0x10E0 + 0x150) (read_field demo_effects (0x10000 + 0x10E0 + 0x150) 0) [0x2000]"
    by (simp only: r effect_chain.simps) simp
  have one: "Suc 0 = 1" by simp
  show ?thesis
    using effects_are_listed [OF id refl _ r(1) [symmetric] _ c] by (simp add: one del: One_nat_def chain_lines.simps)
qed

theorem dump_ends_iff_short_witness:
  "DumpAtPlayer 0x1000 [''lifxDumpAt'', ''1'', ''0'', ''0xFFFFFFF1''] demo_effects = None"
proof -
  let ?a = "[''lifxDumpAt'', ''1'', ''0'', ''0xFFFFFFF1'']"
  have "optional_u32 ?a 3 64 = 0xFFFFFFF1" by code_simp
  moreover have o: "(0x1000 :: u64) \<noteq> 0" "3 \<le> length ?a" and "\<not> (0xFFFFFFF1 :: u32) \<le> 0xFFFFFFF0" by simp_all
  ultimately show ?thesis using dump_ends_iff_short [OF o, of demo_effects] by (simp only: if_False)
qed

theorem player_search_is_exact_witness:
  "\<exists>ls. FindEffectOnPlayer 0x11224 [''lifxFindEffect'', ''1'', ''1'', ''0'', ''8''] demo_effects = Some ls \<and>
     Hit_Inline 4 1 \<in> set ls \<and> Hit_Inline 0 1 \<notin> set ls"
proof -
  let ?a = "[''lifxFindEffect'', ''1'', ''1'', ''0'', ''8'']"
  obtain ls where ls: "FindEffectOnPlayer 0x11224 ?a demo_effects = Some ls" by (simp add: FindEffectOnPlayer_def Let_def)
  have p: "optional_u32 ?a 3 0 = 0" "optional_u32 ?a 4 0x10000 = 8" "strtoul0 (?a ! 2) = 1"
    "read_field demo_effects 0x11224 4 = (1 :: u32)" "read_field demo_effects 0x11224 0 = (0 :: u32)" by code_simp+
  have s: "0 = unat (optional_u32 ?a 3 0)" "8 = unat (optional_u32 ?a 4 0x10000)" by (simp_all only: p) simp_all
  have o: "(0x11224 :: u64) \<noteq> 0" "3 \<le> length ?a" by simp_all
  note e = player_search_is_exact [OF o s ls, THEN conjunct1]
  have "stepped 4 0 8 4" by (auto simp: stepped_def intro: exI [of _ 1])
  then have w: "\<exists>x. (4 :: u64) = word_of_nat x \<and> stepped 4 0 8 x" by (intro exI [of _ 4]) simp
  have "Hit_Inline 4 1 \<in> set ls" unfolding e p using w by simp
  moreover have "Hit_Inline 0 1 \<notin> set ls" unfolding e p by simp
  ultimately show ?thesis using ls by blast
qed

end
