(* ===== verification/Self_Tests.thy ===== *)
theory Self_Tests
  imports Chacha20_Vectors Lfxe_Filestream
begin

text \<open>
  The two programs that test the packed assets outside the game: \<open>scripts/lfxe_selftest.cpp\<close> (the cipher's test vector,
  the key built in, the decryption of a file) and \<open>scripts/lfxe_fs_selftest.cpp\<close> (the registry of streams over an
  in-memory stream). Files are a function from names to bytes, the printed text and the exit code are results. What
  the programs check on the files they are given is proved here for every file the packer writes.
\<close>

unbundle bit_operations_syntax

section \<open>The cipher's test\<close>

definition printHex :: "bytes \<Rightarrow> string" where
  "printHex p = concat (map (\<lambda>b. hex_fixed False 2 (unat b)) p) @ [CHR 0x0A]"

definition nyb :: "char \<Rightarrow> int" where
  "nyb c =
     (let k = int (of_char c :: nat) in
      if 48 \<le> k \<and> k \<le> 57 then k - 48
      else if 97 \<le> k \<and> k \<le> 102 then k - 97 + 10
      else if 65 \<le> k \<and> k \<le> 70 then k - 65 + 10
      else - 1)"

fun parse_pairs :: "string \<Rightarrow> bytes option" where
  "parse_pairs (c # d # cs) =
     (let hi = nyb c; lo = nyb d
      in if hi < 0 \<or> lo < 0 then None
         else map_option (\<lambda>out. word_of_int (push_bit 4 hi OR lo) # out) (parse_pairs cs))"
| "parse_pairs _ = Some []"

definition parseHex :: "string \<Rightarrow> bytes option" where
  "parseHex h = (if length h mod 2 \<noteq> 0 then None else parse_pairs h)"

text \<open>A provider with one fixed key: the first 32 bytes it is given.\<close>

definition fixed_get_key :: "bytes \<Rightarrow> u16 \<Rightarrow> bytes option" where
  "fixed_get_key k kid = (if kid \<noteq> 0 then None else Some (take 32 k))"

text \<open>An exit code, the text on standard output, and the file written. A file that cannot be read is empty.\<close>

definition selftest_main ::
  "u32 \<Rightarrow> (nat \<Rightarrow> u8) \<Rightarrow> (string \<Rightarrow> bytes) \<Rightarrow> (string \<Rightarrow> bool) \<Rightarrow> string list \<Rightarrow> nat \<times> string \<times> (string \<times> bytes) option" where
  "selftest_main seed obf readFile writable argv =
     (if length argv < 2 then (2, [], None)
      else if argv ! 1 = ''kat'' then
        (let key = map word_of_nat [0..<32];
             rfcNonce = [0, 0, 0, 9, 0, 0, 0, 0x4a, 0, 0, 0, 0]
         in (0, printHex (chacha20_xor key rfcNonce 1 (replicate 64 0)), None))
      else if argv ! 1 = ''bakedkey'' then
        (case baked_get_key seed obf 0 of None \<Rightarrow> (1, [], None) | Some k \<Rightarrow> (0, printHex k, None))
      else if argv ! 1 = ''decrypt'' \<and> length argv = 5 then
        (let inp = readFile (argv ! 2)
         in if inp = [] then (1, [], None)
            else case parseHex (argv ! 3) of
              None \<Rightarrow> (1, [], None)
            | Some key \<Rightarrow>
                if length key \<noteq> 32 then (1, [], None)
                else (case try_decrypt_asset (fixed_get_key key) inp of
                        Ok p \<Rightarrow> if writable (argv ! 4) then (0, [], Some (argv ! 4, p)) else (1, [], None)
                      | _ \<Rightarrow> (1, [], None)))
      else (2, [], None))"

section \<open>The registry's test\<close>

definition seek_to :: "addr \<Rightarrow> nat \<Rightarrow> fs_state \<Rightarrow> fs_state" where
  "seek_to ms p s = (case fs_try_set_position ms p s of Some (_, s) \<Rightarrow> s | None \<Rightarrow> s)"

text \<open>A read into a buffer of zeros: whether the stream was served, the answer, and the buffer.\<close>

definition read_into :: "addr \<Rightarrow> nat \<Rightarrow> fs_state \<Rightarrow> bool \<times> bool \<times> bytes \<times> fs_state" where
  "read_into ms n s =
     (case fs_try_read ms n True s of
        Some (r, bs, s) \<Rightarrow> (True, r, fill_buf n bs, s)
      | None \<Rightarrow> (False, False, replicate n 0, s))"

fun seeks_match :: "addr \<Rightarrow> bytes \<Rightarrow> nat list \<Rightarrow> fs_state \<Rightarrow> bool \<times> fs_state" where
  "seeks_match ms p [] s = (True, s)"
| "seeks_match ms p (off # offs) s =
     (if length p \<le> off then seeks_match ms p offs s
      else
        let s = seek_to ms off s;
            want = length p - off;
            tk = (if want < 100 then want else 100);
            (_, _, out, s) = read_into ms tk s;
            (rest, s) = seeks_match ms p offs s
        in (out = take tk (drop off p) \<and> rest, s))"

definition vanilla :: bytes where
  "vanilla = [0x44, 0x44, 0x53, 0x20] @ map word_of_nat [1..<25]"

definition fs_checks ::
  "(u16 \<Rightarrow> bytes option) \<Rightarrow> addr \<Rightarrow> addr \<Rightarrow> bytes \<Rightarrow> bytes \<Rightarrow> fs_state \<Rightarrow> bool list" where
  "fs_checks keys ms v container p s =
     (let (reg, s, _) = fs_register_if_encrypted mock_ops keys ms s (\<lambda>_. \<lparr>data = container, mpos = 0\<rparr>);
          c2 = (fs_try_get_size ms s = Some (length p));
          s = seek_to ms 0 s;
          (handled, rd, out, s) = read_into ms (length p) s;
          c5 = (fs_try_get_position ms s = Some (length p));
          (c6, s) = (if p \<noteq> [] then
              let (b, s) = seeks_match ms p [1, 7, 63, 64, 65, length p div 2, length p - 1] s in ([b], s)
            else ([], s));
          c7 = (case fs_try_set_position ms (length p + 1) s of Some (sp, _) \<Rightarrow> \<not> sp | None \<Rightarrow> False);
          s = seek_to ms (length p + 1) s;
          c8 = (case fs_try_set_position ms (length p) s of Some (sp, _) \<Rightarrow> sp | None \<Rightarrow> False);
          s = seek_to ms (length p) s;
          s = fs_unregister ms s;
          c9 = (fs_try_get_size ms s = None);
          c10 = (fs_try_read ms 1 False s = None);
          (r, s, _) = fs_register_if_encrypted mock_ops keys v s (\<lambda>_. \<lparr>data = vanilla, mpos = 0\<rparr>);
          c12 = (fs_try_read v 1 False s = None)
      in [reg, c2, handled \<and> rd, out = p, c5] @ c6 @ [c7, c8, c9, c10, \<not> r, c12])"

definition fs_selftest_main ::
  "(u16 \<Rightarrow> bytes option) \<Rightarrow> addr \<Rightarrow> addr \<Rightarrow> (string \<Rightarrow> bytes option) \<Rightarrow> string list \<Rightarrow> fs_state \<Rightarrow> nat" where
  "fs_selftest_main keys ms v readFile argv s =
     (if length argv \<noteq> 3 then 2
      else case readFile (argv ! 1) of
        None \<Rightarrow> 2
      | Some container \<Rightarrow>
          (case readFile (argv ! 2) of
             None \<Rightarrow> 2
           | Some p \<Rightarrow> (let failures = length (filter Not (fs_checks keys ms v container p s))
                         in if failures \<noteq> 0 then 1 else 0)))"

section \<open>Laws\<close>

lemma nyb_hex_digit: "d < 16 \<Longrightarrow> nyb (hex_digit False d) = int d"
  by (simp add: nyb_def hex_digit_def Let_def)

lemma byte_of_nybbles: "word_of_int (push_bit 4 (int (unat b div 16)) OR int (unat b mod 16)) = (b :: u8)"
proof -
  have "push_bit 4 (int (unat b div 16)) OR int (unat b mod 16) = int (unat b)"
  proof -
    have "int (unat b div 16) = drop_bit 4 (int (unat b))" "int (unat b mod 16) = take_bit 4 (int (unat b))"
      by (simp_all add: drop_bit_eq_div take_bit_eq_mod of_nat_div of_nat_mod)
    then show ?thesis by (auto intro!: bit_eqI simp: bit_simps)
  qed
  then show ?thesis by simp
qed

lemma parse_pairs_hex: "parse_pairs (concat (map (\<lambda>b. hex_fixed False 2 (unat b)) bs)) = Some bs"
proof (induction bs)
  case Nil
  then show ?case by simp
next
  case (Cons b bs)
  have "hex_fixed False 2 (unat b) = [hex_digit False (unat b div 16 mod 16), hex_digit False (unat b mod 16)]"
    by (simp add: numeral_2_eq_2)
  moreover have "unat b div 16 < 16" using unsigned_less [of b, where 'a = nat] by (simp add: less_mult_imp_div_less)
  ultimately show ?case using Cons by (simp add: nyb_hex_digit byte_of_nybbles Let_def)
qed

lemma length_printHex: "length (concat (map (\<lambda>b. hex_fixed False 2 (unat b)) bs)) = 2 * length bs"
  by (induction bs) simp_all

text \<open>What is printed is read back.\<close>

lemma parseHex_printHex: "parseHex (butlast (printHex bs)) = Some bs"
  by (simp add: parseHex_def printHex_def length_printHex parse_pairs_hex)

lemma keystream_of_zeros: "chacha20_xor key nnc c (replicate 64 0) = chacha20_block (chacha_state key nnc c)"
  if "length (chacha20_block (chacha_state key nnc c)) = 64"
proof -
  have "map2 (XOR) (replicate n (0 :: u8)) xs = xs" if "length xs = n" for n xs
    using that by (induction xs arbitrary: n) (auto simp: replicate_Suc)
  from this [OF that] that show ?thesis
    by (simp add: chacha20_xor_def xor_loop.simps [of "chacha_state key nnc c" "replicate 64 0"])
qed

text \<open>One served stream: its plaintext and position.\<close>

lemma seek_to_served:
  "gMap s ms = Some \<lparr>plain = p, epos = q\<rparr> \<Longrightarrow> r \<le> length p \<Longrightarrow> gMap (seek_to ms r s) ms = Some \<lparr>plain = p, epos = r\<rparr>"
  by (simp add: seek_to_def fs_try_set_position_def)

lemma seek_past_served:
  "gMap s ms = Some \<lparr>plain = p, epos = q\<rparr> \<Longrightarrow> length p < r \<Longrightarrow> seek_to ms r s = s"
  by (simp add: seek_to_def fs_try_set_position_def)

lemma read_into_served:
  assumes "gMap s ms = Some \<lparr>plain = p, epos = q\<rparr>" "n \<le> length p - q" "q \<le> length p"
  obtains s' where "read_into ms n s = (True, True, take n (drop q p), s')"
    "gMap s' ms = Some \<lparr>plain = p, epos = q + n\<rparr>"
  using assms by (simp add: read_into_def fs_try_read_def Let_def setStatus_def sub_bytes_def)

lemma seeks_match_served:
  "gMap s ms = Some \<lparr>plain = p, epos = q\<rparr> \<Longrightarrow>
     \<exists>s' q'. seeks_match ms p offs s = (True, s') \<and> gMap s' ms = Some \<lparr>plain = p, epos = q'\<rparr>"
proof (induction offs arbitrary: s q)
  case Nil
  then show ?case by simp
next
  case (Cons off offs)
  show ?case
  proof (cases "length p \<le> off")
    case True
    then show ?thesis using Cons by simp
  next
    case False
    define tk where "tk = (if length p - off < 100 then length p - off else 100)"
    have le: "tk \<le> length p - off" by (simp add: tk_def)
    have "gMap (seek_to ms off s) ms = Some \<lparr>plain = p, epos = off\<rparr>"
      using False Cons.prems by (intro seek_to_served) simp_all
    then obtain s1 where r: "read_into ms tk (seek_to ms off s) = (True, True, take tk (drop off p), s1)"
      "gMap s1 ms = Some \<lparr>plain = p, epos = off + tk\<rparr>"
      using False le by (elim read_into_served [of _ _ _ off tk]) auto
    obtain s2 q2 where "seeks_match ms p offs s1 = (True, s2)" "gMap s2 ms = Some \<lparr>plain = p, epos = q2\<rparr>"
      using Cons.IH [OF r(2)] by blast
    then show ?thesis using False r(1) by (simp add: Let_def tk_def [symmetric] split del: if_split)
  qed
qed

text \<open>The cipher's test prints the published vector, and the key test the key the generator masked.\<close>

lemma selftest_prints:
  "selftest_main seed obf readFile writable [prog, ''kat''] = (0, printHex rfc_block, None)"
  "length key = 32 \<Longrightarrow> selftest_main seed (\<lambda>i. obfuscate_key seed key ! i) readFile writable [prog, ''bakedkey''] =
     (0, printHex key, None)"
  using chacha20_rfc8439_block keystream_of_zeros [of "map word_of_nat [0..<32]" "[0, 0, 0, 9, 0, 0, 0, 0x4a, 0, 0, 0, 0]" 1]
  by (simp_all add: selftest_main_def Let_def rfc_block_def baked_key_recovered)

text \<open>Whatever the packer wrote under key 0, the test program writes back the plaintext, given the key as printed by the
  generator; nothing is left to the sizes tried by the script that runs it.\<close>

theorem selftest_decrypts_every_pack:
  assumes "length key = 32" "length nnc = 12" "readFile i = pack p key 0 nnc" "writable out"
  shows "selftest_main seed obf readFile writable [prog, ''decrypt'', i, butlast (printHex key), out] = (0, [], Some (out, p))"
proof -
  have "pack p key 0 nnc \<noteq> []" using length_pack [OF assms(2), of p key 0] by auto
  moreover have "try_decrypt_asset (fixed_get_key key) (pack p key 0 nnc) = Ok p"
    using assms(1) by (intro try_decrypt_pack [OF assms(2)]) (simp add: fixed_get_key_def)
  ultimately show ?thesis using assms(1,3,4) by (simp add: selftest_main_def Let_def parseHex_printHex)
qed

lemma vanilla_not_registered:
  "fs_register_if_encrypted mock_ops keys v s (\<lambda>_. \<lparr>data = vanilla, mpos = 0\<rparr>) =
     (False, fs_unregister v s, \<lambda>_. \<lparr>data = vanilla, mpos = 0\<rparr>)"
proof -
  have "\<not> has_magic vanilla" "length vanilla = 28" by (simp_all add: has_magic_def vanilla_def kMagic_def)
  then show ?thesis
    by (simp add: register_mock [OF refl] Let_def try_decrypt_asset_def fun_upd_idem)
qed

lemma registered_pack:
  assumes "length nnc = 12" "keys kid = Some key"
  obtains s' e' where
    "fs_register_if_encrypted mock_ops keys ms s (\<lambda>_. \<lparr>data = pack p key kid nnc, mpos = 0\<rparr>) = (True, s', e')"
    "gMap s' ms = Some \<lparr>plain = p, epos = 0\<rparr>"
proof -
  obtain s' e' en where
    r: "fs_register_if_encrypted mock_ops keys ms s (\<lambda>_. \<lparr>data = pack p key kid nnc, mpos = 0\<rparr>) = (True, s', e')"
    and en: "gMap s' ms = Some en" "plain en = p" "epos en = 0"
    using register_pack [of "\<lambda>_. \<lparr>data = pack p key kid nnc, mpos = 0\<rparr>" ms p key kid nnc keys s] assms
    by (auto simp: served_view_Some)
  have "en = \<lparr>plain = p, epos = 0\<rparr>" using en(2,3) by (cases en) simp
  then show thesis using that r en(1) by blast
qed

lemma all_checks_hold:
  assumes "length nnc = 12" "keys kid = Some key"
  shows "filter Not (fs_checks keys ms v (pack p key kid nnc) p s) = []"
proof -
  obtain s1 e1 where
    reg: "fs_register_if_encrypted mock_ops keys ms s (\<lambda>_. \<lparr>data = pack p key kid nnc, mpos = 0\<rparr>) = (True, s1, e1)"
    and m1: "gMap s1 ms = Some \<lparr>plain = p, epos = 0\<rparr>"
    using registered_pack [of nnc keys kid key, OF assms] by blast
  have "gMap (seek_to ms 0 s1) ms = Some \<lparr>plain = p, epos = 0\<rparr>" using m1 by (rule seek_to_served) simp
  then obtain s3 where rd: "read_into ms (length p) (seek_to ms 0 s1) = (True, True, p, s3)"
    and m3: "gMap s3 ms = Some \<lparr>plain = p, epos = length p\<rparr>"
    by (elim read_into_served [of _ _ _ 0 "length p"]) auto
  obtain s4 q4 where sm: "seeks_match ms p [1, 7, 63, 64, 65, length p div 2, length p - 1] s3 = (True, s4)"
    and m4: "gMap s4 ms = Some \<lparr>plain = p, epos = q4\<rparr>"
    using seeks_match_served [OF m3] by blast
  have size: "fs_try_get_size ms s1 = Some (length p)" "fs_try_get_position ms s3 = Some (length p)"
    using m1 m3 by (simp_all add: fs_try_get_size_def fs_try_get_position_def)
  have tail: "fs_try_set_position ms (length p + 1) u = Some (False, u)"
    "seek_to ms (length p + 1) u = u" "\<exists>u'. fs_try_set_position ms (length p) u = Some (True, u')"
    if "gMap u ms = Some \<lparr>plain = p, epos = q\<rparr>" for u q
    using that by (simp_all add: fs_try_set_position_def seek_to_def)
  have gone: "fs_try_get_size a (fs_unregister a u) = None" "fs_try_read a n d (fs_unregister a u) = None" for a u n d
    by (simp_all add: fs_try_get_size_def fs_try_read_def fs_unregister_def)
  show ?thesis
    using reg rd sm size tail [OF m3] tail [OF m4]
    by (auto simp: fs_checks_def Let_def vanilla_not_registered gone simp del: seeks_match.simps)
qed

text \<open>The registry's test passes on every packed file, not only on the one it is run with: all checks hold and the
  exit code is 0, whatever the registry held before.\<close>

theorem registry_test_passes:
  assumes "readFile c = Some (pack p key kid nnc)" "readFile q = Some p" "length nnc = 12" "keys kid = Some key"
  shows "fs_selftest_main keys ms v readFile [prog, c, q] s = 0"
  using all_checks_hold [of nnc keys kid key, OF assms(3,4)] assms(1,2) by (simp add: fs_selftest_main_def)

end
