(* ===== verification/Handoff_Selftest.thy ===== *)
theory Handoff_Selftest
  imports Sector_Handoff
begin

text \<open>
  The end of \<open>Hooks::SectorHandoff::Register\<close> (\<open>source/server/hooks/netevent/sector_handoff_event.cpp\<close>): the functions
  put into the slots of the class and event tables, and the test that creates an event through the tables just
  written and compares what they answer. A call through a slot is decided by the address found there; a slot that
  holds another address calls the engine, which is an argument.
\<close>

section \<open>The functions in the slots\<close>

text \<open>Reading an event from the stream only writes a line: the position of the stream stays.\<close>

definition ourUnpack :: "u64 \<Rightarrow> u64 \<Rightarrow> 's \<Rightarrow> 's" where
  "ourUnpack rep conn stream = stream"

definition ourGetClassDescriptor :: "u64 \<Rightarrow> u64 \<Rightarrow> u64" where
  "ourGetClassDescriptor a_classDescriptor rep = a_classDescriptor"

definition ourEventGetClassRep :: "handoff_syms \<Rightarrow> u64 \<Rightarrow> u64" where
  "ourEventGetClassRep a evt = a_classRep a"

definition ourEventStub :: "u64 \<Rightarrow> u8" where
  "ourEventStub evt = 0"

text \<open>What the engine's own functions would answer: an event, or nothing; a descriptor; a class.\<close>

record engine_slots =
  en_create :: "u64 \<Rightarrow> bytes \<Rightarrow> bytes option"
  en_descriptor :: "u64 \<Rightarrow> u64"
  en_getrep :: "u64 \<Rightarrow> u64"

definition call_create :: "handoff_syms \<Rightarrow> engine_slots \<Rightarrow> u64 \<Rightarrow> bytes \<Rightarrow> bytes option" where
  "call_create a en fn rep = (if fn = a_create a then Some (ourCreate a rep) else en_create en fn rep)"

definition call_descriptor :: "handoff_syms \<Rightarrow> engine_slots \<Rightarrow> u64 \<Rightarrow> u64 \<Rightarrow> u64" where
  "call_descriptor a en desc fn =
     (if fn = a_descriptor a then ourGetClassDescriptor desc (a_classRep a) else en_descriptor en fn)"

definition call_getrep :: "handoff_syms \<Rightarrow> engine_slots \<Rightarrow> u64 \<Rightarrow> u64 \<Rightarrow> u64" where
  "call_getrep a en fn evt = (if fn = a_getrep a then ourEventGetClassRep a evt else en_getrep en fn)"

section \<open>The test\<close>

definition test_handoff :: handoff where
  "test_handoff =
     \<lparr>proto_version = 2, ho_flags = 3, reserved0 = 0, ho_seq = 0xDEADBEEF,
      handoff_token = 0xCAFEF00DBADD1E55, src_server_uuid = uuid_run 0x10, dst_server_uuid = uuid_run 0x20,
      char_id = 0x11112222, account_id = 0x33334444,
      pos_x = 0x3FC00000, pos_y = 0xC0200000, pos_z = 0x42C88000, ho_yaw = 0x40490FD0,
      hp_q16 = 100 * 65536, stamina_q16 = 50 * 65536, hunger_q16 = 30 * 65536, thirst_q16 = 20 * 65536,
      world_sector_id = 451, reserved_v2 = 0xA5A5A5A5,
      world_x = f32_bits (Fin (24691 * 2 ^ 148)), world_y = f32_bits (f32_of_int (-6789))\<rparr>"

definition raw_le :: "bytes \<Rightarrow> nat \<Rightarrow> nat \<Rightarrow> 'a::len word" where
  "raw_le raw off n = load_le (sub_bytes off n raw)"

definition struct_ok :: "bytes \<Rightarrow> bool" where
  "struct_ok raw \<longleftrightarrow>
     (raw_le raw 0x48 1 :: u8) = 2 \<and>
     (raw_le raw 0x4C 4 :: u32) = 0xDEADBEEF \<and>
     (raw_le raw 0x50 8 :: u64) = 0xCAFEF00DBADD1E55 \<and>
     (raw_le raw 0x58 1 :: u8) = 0x10 \<and> (raw_le raw 0x67 1 :: u8) = 0x1F \<and>
     (raw_le raw 0x68 1 :: u8) = 0x20 \<and> (raw_le raw 0x77 1 :: u8) = 0x2F \<and>
     (raw_le raw 0x78 4 :: u32) = 0x11112222 \<and>
     f32_of_bits (raw_le raw 0x80 4) = Fin (3 * 2 ^ 148) \<and>
     f32_of_bits (raw_le raw 0x8C 4) = f32_of_bits 0x40490FD0 \<and>
     (raw_le raw 0xA0 4 :: u32) = 451 \<and>
     f32_of_bits (raw_le raw 0xA8 4) = Fin (24691 * 2 ^ 148) \<and>
     f32_of_bits (raw_le raw 0xAC 4) = f32_of_int (-6789)"

datatype test_line =
    Create_Null | Create_Ok
  | Event_Table bool
  | Event_Class bool
  | Class_Descriptor bool
  | Round_Trip_Null
  | Round_Trip bool

definition self_test :: "handoff_syms \<Rightarrow> engine_slots \<Rightarrow> u64 \<Rightarrow> handoff_state \<Rightarrow> test_line list" where
  "self_test a en desc s =
     (let createSlot = call_create a en (g_classRepVtable s ! 7);
          created =
            (case createSlot (g_classRep s) of
               None \<Rightarrow> [Create_Null]
             | Some evt \<Rightarrow>
                 [Create_Ok,
                  Event_Table ((load_le (sub_bytes 0 8 evt) :: u64) = a_eventVftable a),
                  Event_Class (call_getrep a en (g_eventVftable s ! 5) 0 = a_classRep a)]);
          described = [Class_Descriptor (call_descriptor a en desc (g_classRepVtable s ! 5) = desc)];
          round =
            (case createSlot (g_classRep s) of
               None \<Rightarrow> [Round_Trip_Null]
             | Some evt \<Rightarrow> [Round_Trip (struct_ok (fill_event evt test_handoff))])
      in created @ described @ round)"

text \<open>The whole of the registration: an event that is already registered is not tested again.\<close>

definition Register_tested ::
  "handoff_syms \<Rightarrow> engine_slots \<Rightarrow> u64 \<Rightarrow> engine_templates \<Rightarrow> handoff_state \<Rightarrow> bool \<times> handoff_state \<times> test_line list" where
  "Register_tested a en desc t s =
     (case Register a t s of
        (ok, s') \<Rightarrow> (ok, s', if ok \<and> \<not> g_registered s then self_test a en desc s' else []))"

section \<open>Laws\<close>

lemma raw_le_payload:
  assumes "length evt = kSectorHandoffSize" "length b = 104"
  shows "sub_bytes (0x48 + off) n (put_at kEngineBase b evt) = sub_bytes off n b"
proof -
  have "drop 0x48 (put_at kEngineBase b evt) = b" using assms(1,2) by (simp add: put_at_def wire_sizes)
  then show ?thesis using sub_bytes_drop [of off n "0x48" "put_at kEngineBase b evt"] by simp
qed

lemma struct_ok_filled:
  assumes "length evt = kSectorHandoffSize"
  shows "struct_ok (fill_event evt test_handoff)"
proof -
  let ?b = "handoff_bytes test_handoff"
  have len: "length ?b = 104" by (simp add: handoff_ok_def test_handoff_def uuid_run_def)
  note rd = raw_le_payload [OF assms len]
  have "(load_le (sub_bytes 0 1 ?b) :: u8) = 2"
    "(load_le (sub_bytes 4 4 ?b) :: u32) = 0xDEADBEEF"
    "(load_le (sub_bytes 8 8 ?b) :: u64) = 0xCAFEF00DBADD1E55"
    "(load_le (sub_bytes 0x10 1 ?b) :: u8) = 0x10" "(load_le (sub_bytes 0x1F 1 ?b) :: u8) = 0x1F"
    "(load_le (sub_bytes 0x20 1 ?b) :: u8) = 0x20" "(load_le (sub_bytes 0x2F 1 ?b) :: u8) = 0x2F"
    "(load_le (sub_bytes 0x30 4 ?b) :: u32) = 0x11112222"
    "f32_of_bits (load_le (sub_bytes 0x38 4 ?b)) = Fin (3 * 2 ^ 148)"
    "f32_of_bits (load_le (sub_bytes 0x44 4 ?b)) = f32_of_bits 0x40490FD0"
    "(load_le (sub_bytes 0x58 4 ?b) :: u32) = 451"
    "f32_of_bits (load_le (sub_bytes 0x60 4 ?b)) = Fin (24691 * 2 ^ 148)"
    "f32_of_bits (load_le (sub_bytes 0x64 4 ?b)) = f32_of_int (-6789)"
    by code_simp+
  then show ?thesis
    using rd [of 0 1] rd [of 4 4] rd [of 8 8] rd [of "0x10" 1] rd [of "0x1F" 1] rd [of "0x20" 1] rd [of "0x2F" 1] rd [of "0x30" 4]
      rd [of "0x38" 4] rd [of "0x44" 4] rd [of "0x58" 4] rd [of "0x60" 4] rd [of "0x64" 4]
    by (simp add: struct_ok_def raw_le_def fill_event_def)
qed

text \<open>Whatever the engine's templates hold, a registration that succeeds passes its own test on every line: the event
  is created by the new class, points to the new table, finds its class and its descriptor, and its fields lie where
  the wire format has them.\<close>

theorem registration_passes_its_test:
  assumes "Register_tested a en desc t s = (True, s', ls)" "\<not> g_registered s" "templates_ok t"
  shows "ls = [Create_Ok, Event_Table True, Event_Class True, Class_Descriptor True, Round_Trip True]"
proof -
  have r: "Register a t s = (True, s')" and ls: "ls = self_test a en desc s'"
    using assms(1,2) by (auto simp: Register_tested_def split: prod.splits if_splits)
  note v = Register_vtables [OF r assms(2,3)]
  note c = Register_created_event [OF r assms(2,3)]
  show ?thesis
    by (simp add: ls self_test_def call_create_def call_getrep_def call_descriptor_def v c(2) ourEventGetClassRep_def
        ourGetClassDescriptor_def struct_ok_filled [OF c(1)] Let_def)
qed

end
