(* ===== verification/Server_Logs.thy ===== *)
theory Server_Logs
  imports Server_Hooks Console_Init
begin

text \<open>
  The files a server logs to, \<open>Lifx::Server::Init\<close> and \<open>AttachHooks\<close> of \<open>source/server/cm_server.cpp\<close>: names and headings
  of the error and the database log, made of the local time, the number of the world and the number of the process;
  the whole of \<open>Init\<close> over the parts it calls; and the check, after the hooks are committed, that their functions
  begin with a jump. The clock, the process and the file system are arguments.
\<close>

section \<open>Times\<close>

record clock =
  t_year :: nat
  t_mon :: nat
  t_mday :: nat
  t_hour :: nat
  t_min :: nat
  t_sec :: nat

definition two :: "nat \<Rightarrow> string" where
  "two n = (if n < 10 then ''0'' @ dec n else dec n)"

text \<open>The formats \<open>%Y-%m-%d\<close>, \<open>%Y-%m-%d-%H-%M-%S\<close>, \<open>%d/%m/%Y\<close> and \<open>%H:%M:%S\<close>.\<close>

definition date_dashed :: "clock \<Rightarrow> string" where
  "date_dashed t = dec (t_year t) @ ''-'' @ two (t_mon t) @ ''-'' @ two (t_mday t)"

definition stamp_dashed :: "clock \<Rightarrow> string" where
  "stamp_dashed t = date_dashed t @ ''-'' @ two (t_hour t) @ ''-'' @ two (t_min t) @ ''-'' @ two (t_sec t)"

definition date_slashed :: "clock \<Rightarrow> string" where
  "date_slashed t = two (t_mday t) @ ''/'' @ two (t_mon t) @ ''/'' @ dec (t_year t)"

definition time_colons :: "clock \<Rightarrow> string" where
  "time_colons t = two (t_hour t) @ '':'' @ two (t_min t) @ '':'' @ two (t_sec t)"

section \<open>The files\<close>

datatype log_kind = Error_Log | Sql_Log

fun kind_dir :: "log_kind \<Rightarrow> string" where
  "kind_dir Error_Log = ''errors''"
| "kind_dir Sql_Log = ''sql''"

fun kind_title :: "log_kind \<Rightarrow> string" where
  "kind_title Error_Log = ''CONSOLE ERROR REPORT ''"
| "kind_title Sql_Log = ''SQL QUERIES REPORT ''"

record log_place =
  lp_clock :: clock
  lp_pid :: u32
  lp_exists :: "string \<Rightarrow> bool"
  lp_opens :: "string \<Rightarrow> bool"

datatype file_step = Create_Directories string | Append_Text string string

definition log_directory :: "log_kind \<Rightarrow> clock \<Rightarrow> string" where
  "log_directory k t = ''logs/'' @ date_dashed t @ ''/'' @ kind_dir k"

definition log_file :: "log_kind \<Rightarrow> u32 \<Rightarrow> clock \<Rightarrow> u32 \<Rightarrow> string" where
  "log_file k world t pid = log_directory k t @ ''/S'' @ fmt_u world @ ''_'' @ stamp_dashed t @ ''p'' @ fmt_u pid @ ''.log''"

definition log_heading :: "log_kind \<Rightarrow> clock \<Rightarrow> string" where
  "log_heading k t =
     ''// -- '' @ date_slashed t @ '' -- '' @ time_colons t @ '' ======== '' @ kCoreVersionString @ '' // '' @ kind_title k
       @ [CHR 0x0A]"

definition open_log :: "log_kind \<Rightarrow> log_place \<Rightarrow> u32 \<Rightarrow> file_step list \<times> string" where
  "open_log k e world =
     (let t = lp_clock e;
          fp = log_directory k t;
          lp = log_file k world t (lp_pid e)
      in ((if lp_exists e fp then [] else [Create_Directories fp])
          @ (if lp_opens e lp then [Append_Text lp (log_heading k t)] else []), lp))"

text \<open>The name stays what it was when a log is not enabled.\<close>

definition open_logs ::
  "log_place \<Rightarrow> server_config \<Rightarrow> string \<Rightarrow> string \<Rightarrow> file_step list \<times> string \<times> string" where
  "open_logs e c errorFN sqlFN =
     (let (s1, errorFN) = (if UseExternalErrorLog c then open_log Error_Log e (WorldID c) else ([], errorFN));
          (s2, sqlFN) = (if UseExternalSQLLog c then open_log Sql_Log e (WorldID c) else ([], sqlFN))
      in (s1 @ s2, errorFN, sqlFN))"

section \<open>The start\<close>

text \<open>What the file holds: the elements of its root, the logger's, the grids, and the drops and recipes, whose own
  functions are an argument.\<close>

record config_file =
  cf_root :: xml_root
  cf_log :: "xml_root option"
  cf_grid :: "grid_el option"
  cf_neighbours :: "grid_el list"

record ('d, 'h) server =
  sv_is_init :: bool
  sv_config :: server_config
  sv_LogErrorFN :: string
  sv_LogSQLFN :: string
  resurrection_ms :: u32
  sv_drops :: 'h
  sv_detours :: 'd
  sv_grid :: world_grid
  sv_files :: "file_step list"
  sv_box :: "string list"

text \<open>The number shown is that of the comparison, which binds tighter than the assignment.\<close>

definition load_error :: string where
  "load_error = ''Can't load lifxpluss.xml (Error code: 1)''"

definition Server_Init ::
  "'d detours \<Rightarrow> log_place \<Rightarrow> (config_file \<Rightarrow> 'h \<Rightarrow> 'h) \<Rightarrow> config_file option \<Rightarrow> ('d, 'h) server \<Rightarrow> ('d, 'h) server option" where
  "Server_Init D e configure_drops xml s =
     (if sv_is_init s then Some s
      else case xml of
        None \<Rightarrow> Some (s\<lparr>sv_box := sv_box s @ [load_error]\<rparr>)
      | Some f \<Rightarrow>
          do { (c, ms) \<leftarrow> Init_config (cf_root f) (cf_log f);
               let s = s\<lparr>sv_config := c, resurrection_ms := (case ms of None \<Rightarrow> resurrection_ms s | Some v \<Rightarrow> v),
                         sv_drops := configure_drops f (sv_drops s)\<rparr>;
               let (steps, errorFN, sqlFN) = open_logs e c (sv_LogErrorFN s) (sv_LogSQLFN s);
               let s = s\<lparr>sv_files := sv_files s @ steps, sv_LogErrorFN := errorFN, sv_LogSQLFN := sqlFN,
                         sv_detours := Core_AttachHooks D (sv_detours s),
                         sv_grid := configure_world (cf_grid f) (cf_neighbours f) (sv_grid s)\<rparr>;
               Some (s\<lparr>sv_is_init := True\<rparr>) })"

section \<open>The check of the hooks\<close>

definition verified_hooks :: "(string \<times> u64) list" where
  "verified_hooks =
     [(''WOUNDS_DEAL_DAMAGE'', 0x1C63E0), (''CHARINFO_SEND_CHANGES'', 0x1BC3D0), (''HIT_APPLY_DAMAGE'', 0x090F60),
      (''CHAR_CALC_HIT_DAMAGE'', 0x091A50), (''FURNACE_PROC_DESC_LOOKUP'', 0x1DB7C0)]"

datatype commit_report = Commit_Failed int | Verified "(string \<times> bool) list"

definition commit_lines :: "mem \<Rightarrow> u64 \<Rightarrow> int \<Rightarrow> commit_report" where
  "commit_lines m base rc =
     (if rc \<noteq> 0 then Commit_Failed rc
      else Verified (map (\<lambda>(name, rva). (name, m (base + rva) = 0xE9)) verified_hooks))"

section \<open>Laws\<close>

lemma before_mark:
  assumes "c \<notin> set a" "c \<notin> set b"
  shows "a @ c # r = b @ c # s \<longleftrightarrow> a = b \<and> r = s"
proof
  have tw: "takeWhile (\<lambda>x. x \<noteq> c) (a @ c # r) = a" if "c \<notin> set a" for a r
    using that by (subst takeWhile_append2) auto
  assume eq: "a @ c # r = b @ c # s"
  then have "a = b" using tw [OF assms(1), of r] tw [OF assms(2), of s] by simp
  then show "a = b \<and> r = s" using eq by simp
qed simp

lemma dec_chars: "set (dec n) \<subseteq> Collect is_digit"
  using dec_digits [of n] by (auto simp: list_all_iff)

lemma two_chars: "set (two n) \<subseteq> Collect is_digit"
  using dec_chars [of n] by (auto simp: two_def is_digit_def)

lemma dec_inject: "dec m = dec n \<Longrightarrow> m = n"
  by (metis dec_value)

lemma two_inject: "two m = two n \<Longrightarrow> m = n"
proof -
  have v: "foldl (\<lambda>a c. a * 10 + digit_val c) 0 (two n) = n" for n
  proof -
    have "digit_val (CHR ''0'') = 0" by (simp add: digit_val_def)
    then show ?thesis using dec_value [of n] by (simp add: two_def)
  qed
  show "two m = two n \<Longrightarrow> m = n" by (metis v)
qed

lemma fmt_u_inject: "fmt_u a = fmt_u b \<Longrightarrow> a = b"
  using dec_inject [of "unat a" "unat b"] by (simp add: fmt_u_def word_unat_eq_iff)

lemma stamp_chars: "set (stamp_dashed t) \<subseteq> Collect is_digit \<union> {CHR ''-''}"
  using two_chars dec_chars by (fastforce simp: stamp_dashed_def date_dashed_def)

lemma date_chars: "set (date_dashed t) \<subseteq> Collect is_digit \<union> {CHR ''-''}"
  using two_chars dec_chars by (fastforce simp: date_dashed_def)

lemma no_mark: "set a \<subseteq> Collect is_digit \<union> {CHR ''-''} \<Longrightarrow> \<not> is_digit c \<Longrightarrow> c \<noteq> CHR ''-'' \<Longrightarrow> c \<notin> set a"
  by auto

lemma stamp_inject:
  assumes "stamp_dashed t = stamp_dashed u"
  shows "t = u"
proof -
  have n: "CHR ''-'' \<notin> set (dec n)" "CHR ''-'' \<notin> set (two n)" for n
    using dec_chars [of n] two_chars [of n] by (auto simp: is_digit_def)
  have "dec (t_year t) = dec (t_year u)" "two (t_mon t) = two (t_mon u)" "two (t_mday t) = two (t_mday u)"
    "two (t_hour t) = two (t_hour u)" "two (t_min t) = two (t_min u)" "two (t_sec t) = two (t_sec u)"
    using assms by (simp_all add: stamp_dashed_def date_dashed_def before_mark n)
  then show ?thesis using dec_inject two_inject by (simp add: clock.equality)
qed

text \<open>Two logs share a file only when they are the same kind of log of the same world, process and second.\<close>

theorem log_files_are_distinct:
  assumes "log_file k w t p = log_file k' w' t' p'"
  shows "k = k' \<and> w = w' \<and> t = t' \<and> p = p'"
proof -
  have d: "CHR ''/'' \<notin> set (date_dashed t)" for t using date_chars by (rule no_mark) (simp_all add: is_digit_def)
  have k: "CHR ''/'' \<notin> set (kind_dir k)" for k by (cases k) simp_all
  have u: "CHR ''_'' \<notin> set (fmt_u w)" for w :: u32
    using dec_chars [of "unat w"] by (auto simp: fmt_u_def is_digit_def)
  have s: "CHR ''p'' \<notin> set (stamp_dashed t)" for t using stamp_chars by (rule no_mark) (simp_all add: is_digit_def)
  have m: "CHR ''.'' \<notin> set (fmt_u w)" for w :: u32
    using dec_chars [of "unat w"] by (auto simp: fmt_u_def is_digit_def)
  have "kind_dir k = kind_dir k'" "fmt_u w = fmt_u w'" "stamp_dashed t = stamp_dashed t'" "fmt_u p = fmt_u p'"
    using assms by (simp_all add: log_file_def log_directory_def before_mark d k u s m)
  then show ?thesis
    using fmt_u_inject [of w w'] fmt_u_inject [of p p'] stamp_inject [of t t'] by (cases k; cases k') simp_all
qed

text \<open>The functions that are checked are among those hooked, at the addresses of their hooks.\<close>

lemma verified_hooks_are_hooked:
  "list_all (\<lambda>(_, rva). list_ex (\<lambda>h. hook_rva h = Some rva) (server_attached c drops)) verified_hooks"
  by (simp add: verified_hooks_def server_attached_def)

text \<open>The second start changes nothing, and a start without a configuration file can be repeated.\<close>

lemma initialised_once:
  "Server_Init D e cd xml s = Some s' \<Longrightarrow> sv_is_init s' \<Longrightarrow> Server_Init D e2 cd2 xml2 s' = Some s'"
  "Server_Init D e cd None s = Some s' \<Longrightarrow> sv_is_init s' = sv_is_init s \<and> sv_detours s' = sv_detours s"
  by (auto simp: Server_Init_def split: if_splits)

text \<open>After a start with the error log enabled, every error the engine reports goes to the file named after this
  world, process and second, below its heading, unless it is a database line hidden from the console.\<close>

theorem errors_reach_their_log:
  assumes "Server_Init D e configure_drops xml s = Some s'" "\<not> sv_is_init s" "sv_is_init s'"
    and "UseExternalErrorLog (sv_config s')" "\<And>f. lp_opens e f"
    and "\<not> (SkipConsoleSQLLogging (sv_config s') \<and> is_sql_report buffer)"
  shows "Append_Text (log_file Error_Log (WorldID (sv_config s')) (lp_clock e) (lp_pid e)) (log_heading Error_Log (lp_clock e))
       \<in> set (sv_files s') \<and>
    File_Line (log_file Error_Log (WorldID (sv_config s')) (lp_clock e) (lp_pid e)) (log_line now buffer)
       \<in> set (OnInternalPrintf (sv_config s')
                \<lparr>LogSQLFN = sv_LogSQLFN s', LogErrorFN = sv_LogErrorFN s', le_opens = lp_opens e, le_time = now\<rparr> 2 unk1 buffer)"
proof -
  obtain f c ms where c: "xml = Some f" "Init_config (cf_root f) (cf_log f) = Some (c, ms)"
    using assms(1-3) by (auto simp: Server_Init_def bind_eq_Some_conv split: option.splits)
  obtain steps en sn where o: "open_logs e c (sv_LogErrorFN s) (sv_LogSQLFN s) = (steps, en, sn)" by (metis prod_cases3)
  have s': "sv_config s' = c" "sv_files s' = sv_files s @ steps" "sv_LogErrorFN s' = en"
    using assms(1,2) o by (auto simp: Server_Init_def c Let_def)
  have "en = log_file Error_Log (WorldID c) (lp_clock e) (lp_pid e)"
    "Append_Text en (log_heading Error_Log (lp_clock e)) \<in> set steps"
    using o assms(4,5) by (auto simp: open_logs_def open_log_def Let_def s' split: if_splits prod.splits)
  then show ?thesis using assms(4-6) by (auto simp: s' OnInternalPrintf_def append_to_def Let_def)
qed

end
