(* ===== verification/Engine_Calls.thy ===== *)
theory Engine_Calls
  imports Server_Hooks Code_Memory
begin

text \<open>
  The engine functions the library calls by address (\<open>source/server/hooks/furnace/engine_internals.h\<close>, and the
  addresses of \<open>lifx_hostile.cpp\<close> and \<open>lifx_character.cpp\<close>), against the functions it hooks: a call of a hooked
  address does not reach the engine but enters the library's own detour. The data of the engine that the same header
  reads is at the end.
\<close>

section \<open>Functions\<close>

datatype engine_call =
    Call_ServerTime_Now | Call_Type_HasParent | Call_Type_GetById
  | Call_Inv_Begin | Call_Inv_Valid | Call_Inv_Finish | Call_Inv_Teardown
  | Call_Inv_AdvanceProgress | Call_Inv_AdvanceAlt | Call_Inv_SetQuality | Call_Inv_Abort
  | Call_Furnace_GetTemperature | Call_Furnace_SetTemperature | Call_Furnace_GetContents | Call_Furnace_Visit
  | Call_Windmill_TickHelper
  | Call_Furnace_OriginalLookup | Call_BrewingTank_OriginalLookup | Call_BrewingTank_OriginalLookupAlt
  | Call_Character_GetByID | Call_Character_PersistHp | Call_Character_SendChanges
  | Call_Wounds_DealDamage | Call_Console_Enabled | Call_Console_Printf
  | Call_CreateAnimal | Call_CreateTestChar | Call_Hit_ApplyDamage

fun internal_rva :: "engine_call \<Rightarrow> u64" where
  "internal_rva Call_ServerTime_Now = 0x5147A0"
| "internal_rva Call_Type_HasParent = 0x27EB30"
| "internal_rva Call_Type_GetById = 0x27CA00"
| "internal_rva Call_Inv_Begin = 0x29B750"
| "internal_rva Call_Inv_Valid = 0x29C8A0"
| "internal_rva Call_Inv_Finish = 0x29C600"
| "internal_rva Call_Inv_Teardown = 0x29BBE0"
| "internal_rva Call_Inv_AdvanceProgress = 0x29D950"
| "internal_rva Call_Inv_AdvanceAlt = 0x29DBD0"
| "internal_rva Call_Inv_SetQuality = 0x29DD30"
| "internal_rva Call_Inv_Abort = 0x29DAA0"
| "internal_rva Call_Furnace_GetTemperature = 0x1D5D40"
| "internal_rva Call_Furnace_SetTemperature = 0x1D5D50"
| "internal_rva Call_Furnace_GetContents = 0x1DF4B0"
| "internal_rva Call_Furnace_Visit = 0x1DF4F0"
| "internal_rva Call_Windmill_TickHelper = 0x1DFB20"
| "internal_rva Call_Furnace_OriginalLookup = 0x1DB7C0"
| "internal_rva Call_BrewingTank_OriginalLookup = 0x1DAAE0"
| "internal_rva Call_BrewingTank_OriginalLookupAlt = 0x1DAB60"
| "internal_rva Call_Character_GetByID = 0x28BC20"
| "internal_rva Call_Character_PersistHp = 0x1BB290"
| "internal_rva Call_Character_SendChanges = 0x1BC3D0"
| "internal_rva Call_Wounds_DealDamage = 0x1C63E0"
| "internal_rva Call_Console_Enabled = 0x405040"
| "internal_rva Call_Console_Printf = 0x405090"
| "internal_rva Call_CreateAnimal = 0x195FD0"
| "internal_rva Call_CreateTestChar = 0x1D1670"
| "internal_rva Call_Hit_ApplyDamage = 0x090F60"

text \<open>A call by address while hooks are active: the detour when one of them stands at the address, and the engine's
  own function otherwise.\<close>

definition enters_hook :: "hook list \<Rightarrow> engine_call \<Rightarrow> hook option" where
  "enters_hook attached c = find (\<lambda>h. hook_rva h = Some (internal_rva c)) attached"

section \<open>Data\<close>

definition kTypeManagerRva :: u64 where "kTypeManagerRva = 0xB53908"

definition TypeManagerWithChildOffset :: "mem \<Rightarrow> u64 \<Rightarrow> u64" where
  "TypeManagerWithChildOffset m base =
     (if (read_field m (base + kTypeManagerRva) 0 :: u64) \<noteq> 0 then read_field m (base + kTypeManagerRva) 0 + 8 else 0)"

definition CmServer :: "mem \<Rightarrow> u64 \<Rightarrow> u64" where
  "CmServer m base = read_field m (base + kTypeManagerRva) 0"

text \<open>The engine's lookup of a character, given the place of its answer, which is null before.\<close>

definition Character_GetByID :: "(u64 \<Rightarrow> u64 \<Rightarrow> u32 \<Rightarrow> u64) \<Rightarrow> mem \<Rightarrow> u64 \<Rightarrow> u32 \<Rightarrow> u64" where
  "Character_GetByID engine_find m base charId = engine_find (CmServer m base) 0 charId"

section \<open>Laws\<close>

lemma find_append: "find P (xs @ ys) = (case find P xs of None \<Rightarrow> find P ys | r \<Rightarrow> r)"
  by (induction xs) auto

text \<open>With the hooks of a started server in effect, exactly seven of the calls enter a detour of the library, among
  them the two lookups that are meant to bypass it; every other call reaches the engine. The hooks of drops and
  recipes stand at addresses found by decoding.\<close>

theorem calls_that_enter_hooks:
  assumes "list_all (\<lambda>h. hook_rva h = None) drops"
  shows "enters_hook (core_attached @ server_attached c drops) k =
    (case k of
       Call_Console_Printf \<Rightarrow> Some Con_InternalConsolePrintf
     | Call_CreateAnimal \<Rightarrow> Some Animal_CreateAnimal
     | Call_Furnace_OriginalLookup \<Rightarrow> Some Furnace_LookupProcDesc
     | Call_BrewingTank_OriginalLookup \<Rightarrow> Some BrewingTankFurnace_LookupProcDesc
     | Call_Wounds_DealDamage \<Rightarrow> Some Wounds_DealDamage
     | Call_Character_SendChanges \<Rightarrow> Some CharInfo_SendChanges
     | Call_Hit_ApplyDamage \<Rightarrow> Some Hit_ApplyDamage
     | _ \<Rightarrow> None)"
proof -
  have d: "find (\<lambda>h. hook_rva h = Some r) drops = None" for r
    using assms by (auto simp: find_None_iff list_all_iff)
  show ?thesis
    by (cases k) (simp_all add: enters_hook_def core_attached_def server_attached_def find_append d)
qed

end
