(* ===== verification/Spec2Isabelle.thy ===== *)
theory Spec2Isabelle
  imports Chacha20_Vectors Lfxe_Filestream Dispatcher_Laws Sector_Edge Gem_Drops Tunnel_Drops
    Tree_Drops Recipe_Tools Effects Snapshots Zone_Commands Outposts Bandit_Runs Loot_Laws Equip_Laws Npc_Laws
    Ai_Laws Ai_Registry Server_Hooks Hp_Monitors Vital_Tick Furnaces Hostile_Spawns Bandit_Tools Npc_Probes
    Signature_Scan Class_Dumper Dispatcher_Commands Console_Init Client_Streams Effect_Probes
    Self_Tests Handoff_Selftest Server_Logs Engine_Calls
begin

text \<open>
  LiFx is a server-side (and, for packed assets, client-side) extension of the game "Life is Feudal":
  a C++ library that is loaded into the game's process, detours functions of the engine and adds
  features of its own. This development models the parts of it that carry their own logic, each as
  executable definitions in the order of the code, and proves what makes them correct.

  THE PARTS AND WHERE THEY ARE MODELLED

  Packed assets. \<open>source/core/crypto\<close> holds the ChaCha20 cipher (theory \<open>Chacha20\<close>, with the published
  test vector in \<open>Chacha20_Vectors\<close>), the container format, the decryption entry point and the key
  provider generated into the build, with the packer and key generator under \<open>scripts\<close>
  (\<open>Lfxe_Format\<close>). The engine's file stream is detoured so that a packed file is served from memory:
  \<open>source/core/crypto/lfxe_filestream.cpp\<close> and the detours of \<open>hook_filestream.cpp\<close> are in
  \<open>Lfxe_Filestream\<close>; the engine's own stream operations are arguments, instantiated by a plain file. The two test
  programs under \<open>scripts\<close> are modelled in \<open>Self_Tests\<close>, where their checks are proved for every packed file.

  The dispatcher. \<open>source/server/hooks/dispatcher/dispatcher_client.cpp\<close> connects a server to a daemon
  over TCP with length-prefixed JSON frames. \<open>Base64\<close> and \<open>Json_Fields\<close> are its codec and its field
  scanner, \<open>Wire_Frames\<close> the framing over sends and receives that transfer any number of bytes,
  \<open>Dispatcher_Client\<close> the state (send queue, waiters by sector, session flag) and the handlers,
  \<open>Dispatcher_Laws\<close> the proofs. A session is a list of events (time, readiness, received bytes,
  producer calls), so every interleaving of the session thread with its producers is covered. The
  frames of the daemon are the ones its source \<open>daemon/src/main.rs\<close> writes.

  Sector hand-off. \<open>source/server/hooks/sector/world_grid.cpp\<close> maps a position to a sector and a
  neighbouring world (\<open>World_Grid\<close>, over the single-precision arithmetic of \<open>Binary32\<close>);
  \<open>sector_handoff_event.cpp\<close> builds, decodes, registers and injects the network event
  (\<open>Sector_Handoff\<close>, the test at the end of the registration in \<open>Handoff_Selftest\<close>); \<open>sector_edge_trigger.cpp\<close>, \<open>client_redirect.cpp\<close> and the control-object hook
  watch the player and start the hand-off (\<open>Sector_Edge\<close>). They meet in the property
  \<open>handoff_arrives_intact\<close>, which follows one hand-off from the forward request through the daemon's
  answer to the payload the neighbour decodes.

  Configurable drops and recipes. The hooks under \<open>source/server/hooks/engine\<close> read or patch engine
  memory (\<open>Code_Memory\<close>: a byte at every address) and share a life cycle and percentages
  (\<open>Drop_Common\<close>): gems (\<open>Gem_Drops\<close>), tunnelling (\<open>Tunnel_Drops\<close>), trees (\<open>Tree_Drops\<close>, with the
  meaning of the x86-64 instructions the generated code consists of) and recipes chosen by the
  starting tool (\<open>Recipe_Tools\<close>, a search of the engine's linked list of recipes).

  Effects. \<open>hook_assign_effect.cpp\<close> and \<open>hook_broadcast_effects.cpp\<close> impose a duration on the resurrection
  effect, \<open>source/server/api/lifx_timers.cpp\<close> sets it and \<open>lifx_effects.cpp\<close> edits the effect table
  (\<open>Effects\<close>); the snapshots and comparisons of the same file are in \<open>Snapshots\<close>, its dumps and searches and
  the hook on the engine's parser in \<open>Effect_Probes\<close>. Arguments of script commands are text (\<open>Script_Args\<close>).

  Battle zones and outposts. \<open>Battle_Zones\<close> models the containment hook (nested step checks, exemptions,
  notices), \<open>Zone_Commands\<close> the commands of \<open>lifx_battlezone.cpp\<close>, \<open>Outposts\<close> the settings, patched calls and
  commands of \<open>hook_outpost_*.cpp\<close> and \<open>lifx_outpost.cpp\<close>; the engine's linked lists are \<open>Node_Lists\<close>.

  Bandits. \<open>hook_setanimation.cpp\<close> turns animals into fighters with stamina, swings and timed hits
  (\<open>Bandit_Combat\<close>, laws in \<open>Bandit_Laws\<close> and \<open>Bandit_Runs\<close>). \<open>lifx_hostile.cpp\<close> and the hooks on creation, death,
  containers and updates bind a bandit to a shared character, read memory through a guarded check
  (\<open>Safe_Memory\<close>), route its death and fill its grave (\<open>Npc_Binding\<close> with \<open>Npc_Laws\<close>, \<open>Grave_Loot\<close> with
  \<open>Loot_Laws\<close>); server and client agree on its loadout through bits appended to object updates
  (\<open>Equip_Sync\<close>, mesh tables in \<open>Equip_Meshes\<close>, laws in \<open>Equip_Laws\<close>). Its commands spawn NPCs and animals and keep
  registered nodes populated by maintenance passes (\<open>Hostile_Spawns\<close>, over a script console with a documented
  answer), equip, mount and strike (\<open>Bandit_Tools\<close>) and read the state of NPCs (\<open>Npc_Probes\<close>).

  Behaviour nodes. \<open>hook_behavior_node.cpp\<close> adds node classes to the engine's behaviour trees: loaders, clones and
  process functions in \<open>Ai_Nodes\<close> (numbers in text in \<open>Float_Text\<close>), their laws in \<open>Ai_Laws\<close>, the registration
  with the factory in \<open>Ai_Registry\<close>.

  Hit points. \<open>Char_Stats\<close> holds the fields and numbers of \<open>furnace/engine_internals.h\<close> and the registry of
  characters, \<open>Hit_Points\<close> the hooks on the engine's damage functions and the commands of
  \<open>lifx_character.cpp\<close> with laws in \<open>Hit_Points_Laws\<close>, \<open>Hp_Monitors\<close> the observers, and \<open>Vital_Tick\<close> the hook on
  the tick of a character's vitals, the heartbeat that drives the sector edge and the bandits' attacks.

  Processing devices. \<open>Furnaces\<close> models the hooks under \<open>hooks/furnace\<close>: the walk over descriptor rows, and the
  ticks, as built (forwarded, except the fire's) and in the versions a constant of each file would choose.

  Start-up. \<open>source/server/cm_server.cpp\<close>, \<open>hooks_engine.cpp\<close> and \<open>dllmain.cpp\<close>: the configuration and the grids read
  from it (\<open>Server_Startup\<close>), the log files and the whole of the start (\<open>Server_Logs\<close>), the sectors claimed (\<open>Sector_Claims\<close>), and the transactions in which the hooks are
  attached and detached (\<open>Server_Hooks\<close>; which of the library's calls by address enter them is in
  \<open>Engine_Calls\<close>). The console is initialised in between (\<open>Console_Init\<close>): the engine's
  functions are resolved, the server started and the script commands of all services registered
  (\<open>Script_Commands\<close>, the tables of the seven \<open>Register\<close> functions under \<open>source/server/api\<close>).

  Console and diagnostics. \<open>hook_console.cpp\<close> and \<open>t3d_console.cpp\<close> filter, prefix and record what the engine and
  the library print (\<open>Console_Log\<close>); \<open>lifx_dispatcher.cpp\<close> puts the dispatcher and the edge driver within reach of
  scripts (\<open>Dispatcher_Commands\<close>); \<open>hook_netclassrep_dumper.cpp\<close> writes the tables of the network classes to a
  file (\<open>Class_Dumper\<close>); \<open>source/core/cm_memory_mgr.cpp\<close> searches a module for a pattern of bytes
  (\<open>Signature_Scan\<close>).

  The client. \<open>source/client\<close> attaches its own hooks and patches two tables, adds scripts to the console and dresses
  the NPCs the server sends (\<open>Client_Hooks\<close>, its file-stream detours in \<open>Client_Streams\<close>, besides the loadouts of \<open>Equip_Sync\<close> and \<open>Equip_Meshes\<close>).

  The prelude \<open>Lifx_Prelude\<close> holds what they share: byte strings, little-endian loads and stores and
  their laws in the collection \<open>wire_simps\<close>.

  HOW STATE AND EFFECTS ARE MODELLED

  A C++ struct or the globals of a file are a record; an operation takes it and returns it updated,
  every early return a branch. Machine integers are words of their width; addresses are 64-bit words.
  Floats are the finite numbers as integer multiples of \<open>2 ^ -149\<close>, with rounding to nearest even
  written out, the infinities and NaN (\<open>Binary32\<close>). Failures of the operating system, of the detour
  library and of the XML attribute queries are arguments; so are random draws and the engine's own
  functions. Messages to the log are left out.

  LOCALES AND THEIR INTERPRETATIONS

  \<open>key_provider\<close> and \<open>codec\<close> (keys and containers; interpreted by the generated provider and by the
  packer with the reader), \<open>byte_file\<close> (what the detours need of an engine stream; interpreted by the
  plain file and by the files served through the server's and the client's detours), \<open>managed_hook\<close> and \<open>configured_hook\<close> (the life cycle of a hook; interpreted by the
  tunnel, tree and recipe hooks).

  WHAT THE LEMMAS SHOW

  Round trips: cipher, container, Base64, frames, hand-off struct and payload. Functional behaviour:
  the grid resolution is a first match, the weighted draw has exactly the configured weights, the
  inherited quality is the rounded mean, the generated tree code stores the configured item, the
  recipe search is the first fitting recipe of the abstract list. Invariants over every sequence of
  events: positions of served files, the bound of the send queue, the order of the frames, one
  hand-off per entry into a foreign sector, attached hooks run on validated configurations, stamina
  within its pool, hits only after committed swings, cooldowns kept by every interleaving of node
  ticks, node names registered once, no engine function hooked twice, no NPC recorded by two
  managed nodes. Composition: the tick of vitals runs
  the sector edge and the attacks as in their own runs, and a bandit bound to a character counts among the
  registered players. Liveness and termination: a committed attack completes, the guarded check returns
  on every layout of regions, the listing of images on
  every registry, the claim parser returns unless a range ends at the last number. Where
  the code falls short of what it means to do, the behaviour is proved as it is: hand-offs to the
  west and south, two hand-offs into one sector, the clean-up of a full queue, payloads beyond the
  frame limit, redirect slots of high sectors, the loot of a second death and of a grave without a
  database, creations of battle zones the engine refuses, chases that forget their radius, hooks that stay
  in effect when the library is unloaded, overrides staged for a hit and spent on a command, soft hit
  points one below the target, nodes whose script does not fit its buffer, signatures at the end of
  a region, the client's second table patch, dumps that never end, calls by address that enter the library's own hooks.

  BOUNDS

  No definition needs fuel except counted loops: the searches of the engine's lists (recipes, zones,
  outposts) visit at most the number of nodes the manager counts, as the code does, and the execution of
  generated code runs a number of instructions that the theorems exhibit. The walk over memory regions may
  not end on an arbitrary answer of the system and is a partial function, total on documented answers; so
  are the loop over a claimed range, the rows of a memory dump, the walk over descriptor rows and the ticks that call the engine by
  address, whose results are proved where they return and whose divergence is proved where they do not.
  Every other recursion is structural or has a measure.

  NOT MODELLED

  The vendored XML parser (\<open>tinyxml2\<close>; what it answers is an argument) and the detour library (whether a call
  succeeds is an argument); the loader, which forwards the exports of a system library; the daemon beyond its frames,
  a Rust program; sockets and threads being created; the boot log of the
  client beyond its place and line. Handlers whose only effect is a formatted line are modelled by the values they print where a property
  is about them, not by the layout of the line. The templates of \<open>cm_memory_mgr.h\<close> that read and write another
  process through the system are not used by the library. \<open>Tree_Drops\<close> treats instruction memory
  and stack as disjoint; the protection and cache-flushing calls have no effect on bytes.
\<close>

section \<open>The hooks together\<close>

text \<open>C32: Whatever sequence of configure, attach and detach calls is made from the initial state, and
  whatever the configurations and the answers of the system are, a hook that is attached is enabled
  and runs on a configuration that passed validation: tunnel items with distinct non-zero
  identifiers, quantity ranges and probabilities; distinct tree species in ascending order; distinct
  non-zero device types.\<close>

theorem attached_hooks_run_validated_configurations:
  assumes "t = hook_run ConfigureTunnelDrops AttachTunnelDropHook DetachTunnelDropHook tcalls (tunnel_reset t0)"
    and "r = hook_run ConfigureTree AttachTreeDropHook DetachTreeDropHook rcalls (tree_empty, m)"
    and "p = hook_run ConfigureRecipeStartingTools AttachRecipeStartingToolsHook DetachRecipeStartingToolsHook
               pcalls (recipe_reset p0)"
  shows "(td_attached t \<longrightarrow> td_enabled t \<and> tunnel_good t) \<and>
    (tr_attached (fst r) \<longrightarrow> tr_enabled (fst r) \<and> tree_good r) \<and>
    (rt_attached p \<longrightarrow> rt_enabled p \<and> recipe_good p)"
proof -
  have "td_attached t \<longrightarrow> td_enabled t \<and> tunnel_good t"
    using tunnel_config.run_attached_good [OF _ _ assms(1)] by (simp add: tunnel_reset_def)
  moreover have "tr_attached (fst r) \<longrightarrow> tr_enabled (fst r) \<and> tree_good r"
    using tree_config.run_attached_good [OF _ _ assms(2)] by (simp add: tree_empty_def)
  moreover have "rt_attached p \<longrightarrow> rt_enabled p \<and> recipe_good p"
    using recipe_config.run_attached_good [OF _ _ assms(3)] by (simp add: recipe_reset_def)
  ultimately show ?thesis by blast
qed

lemma attached_hooks_run_validated_configurations_witness:
  "\<exists>r. r = hook_run ConfigureTree AttachTreeDropHook DetachTreeDropHook
       [Configure_Call (Some (Some sample_section)), Attach_Call sample_tree_env] (tree_empty, sample_image) \<and>
     tr_attached (fst r) \<and> tr_enabled (fst r) \<and> tree_good r"
proof -
  obtain s' m' where a: "AttachTreeDropHook sample_tree_env (sample_tree_state, sample_image) = (s', m')"
    "tr_attached s'"
    using sample_attach by blast
  have r: "hook_run ConfigureTree AttachTreeDropHook DetachTreeDropHook
       [Configure_Call (Some (Some sample_section)), Attach_Call sample_tree_env] (tree_empty, sample_image) =
     (s', m')"
    by (simp add: ConfigureTree_def sample_configured a(1))
  show ?thesis
    using attached_hooks_run_validated_configurations [OF refl r [symmetric] refl] r a(2) by simp
qed

end
